(* ===== verification/Prelude.thy ===== *)
theory Prelude
  imports Main "HOL-Library.AList"
begin

text \<open>
  Shared vocabulary of the development: the errors the TypeScript code throws, results and
  stateful computations that may throw, the JavaScript string, number and \<open>Map\<close> operations the
  sources use, and the generic lemmas on them.

  Strings are lists of code units in the range 0 to 255; \<open>js_space\<close> lists the ECMAScript white
  space and line terminators of that range. A JavaScript \<open>Map\<close> is an association list in
  insertion order: \<open>AList.update\<close> overwrites in place or appends, which is what \<open>Map.set\<close> does.
\<close>

section \<open>Errors and results\<close>

datatype registry_error_code = ALREADY_EXISTS | NOT_FOUND | INVALID_ARGUMENT | CONFLICT

text \<open>
  \<open>RegistryError\<close> is the class of registry-errors.ts, \<open>Error\<close> a plain JavaScript error, and
  \<open>SqlError\<close> what the database driver raises when a statement violates a constraint.
\<close>

datatype error = RegistryError registry_error_code string | Error string | SqlError string

type_synonym 'a result = "error + 'a"

text \<open>A computation over a state that returns or throws; a throw keeps the state reached.\<close>

type_synonym ('s, 'a) comp = "'s \<Rightarrow> 'a result \<times> 's"

definition ret :: "'a \<Rightarrow> ('s, 'a) comp" where
  "ret x s = (Inr x, s)"

definition throw :: "error \<Rightarrow> ('s, 'a) comp" where
  "throw e s = (Inl e, s)"

definition lift_result :: "'a result \<Rightarrow> ('s, 'a) comp" where
  "lift_result r s = (r, s)"

definition gets :: "('s \<Rightarrow> 'a) \<Rightarrow> ('s, 'a) comp" where
  "gets f s = (Inr (f s), s)"

definition modify :: "('s \<Rightarrow> 's) \<Rightarrow> ('s, unit) comp" where
  "modify f s = (Inr (), f s)"

definition and_then :: "('s, 'a) comp \<Rightarrow> ('a \<Rightarrow> ('s, 'b) comp) \<Rightarrow> ('s, 'b) comp" where
  "and_then m f s = (case m s of (Inl e, s') \<Rightarrow> (Inl e, s') | (Inr x, s') \<Rightarrow> f x s')"

definition try_catch :: "('s, 'a) comp \<Rightarrow> (error \<Rightarrow> ('s, 'a) comp) \<Rightarrow> ('s, 'a) comp" where
  "try_catch m h s = (case m s of (Inl e, s') \<Rightarrow> h e s' | (Inr x, s') \<Rightarrow> (Inr x, s'))"

text \<open>
  \<open>SqlExecutor.transaction\<close>: a work function that throws is rolled back, and the error goes on
  to the caller.
\<close>

definition transaction :: "('s, 'a) comp \<Rightarrow> ('s, 'a) comp" where
  "transaction m s = (case m s of (Inl e, s') \<Rightarrow> (Inl e, s) | (Inr x, s') \<Rightarrow> (Inr x, s'))"

definition bind_result :: "'a result \<Rightarrow> ('a \<Rightarrow> 'b result) \<Rightarrow> 'b result" where
  "bind_result r f = (case r of Inl e \<Rightarrow> Inl e | Inr x \<Rightarrow> f x)"

named_theorems comp_defs \<open>the combinators of computations, unfolded\<close>

declare ret_def [comp_defs] throw_def [comp_defs] lift_result_def [comp_defs] gets_def [comp_defs]
  modify_def [comp_defs] and_then_def [comp_defs] try_catch_def [comp_defs]
  transaction_def [comp_defs]

lemma ret_apply [simp]: "ret x s = (Inr x, s)"
  by (simp add: ret_def)

lemma throw_apply [simp]: "throw e s = (Inl e, s)"
  by (simp add: throw_def)

lemma lift_result_apply [simp]: "lift_result r s = (r, s)"
  by (simp add: lift_result_def)

lemma gets_apply [simp]: "gets f s = (Inr (f s), s)"
  by (simp add: gets_def)

lemma modify_apply [simp]: "modify f s = (Inr (), f s)"
  by (simp add: modify_def)

lemma and_then_Inr_iff:
  "and_then m f s = (Inr y, s'') \<longleftrightarrow> (\<exists>x s'. m s = (Inr x, s') \<and> f x s' = (Inr y, s''))"
  by (auto simp: and_then_def split: prod.splits sum.splits)

lemma bind_result_Inr_iff [simp]:
  "bind_result r f = Inr y \<longleftrightarrow> (\<exists>x. r = Inr x \<and> f x = Inr y)"
  by (auto simp: bind_result_def split: sum.splits)

lemma bind_result_simps [simp]:
  "bind_result (Inl e) f = Inl e"
  "bind_result (Inr x) f = f x"
  by (simp_all add: bind_result_def)

lemma map_sum_iffs [simp]:
  "map_sum f g x = Inr y \<longleftrightarrow> (\<exists>a. x = Inr a \<and> y = g a)"
  "Inr y = map_sum f g x \<longleftrightarrow> (\<exists>a. x = Inr a \<and> y = g a)"
  "map_sum f g x = Inl z \<longleftrightarrow> (\<exists>b. x = Inl b \<and> z = f b)"
  by (cases x; auto)+

lemma sum_unit_eq [simp]: "(\<forall>e. r \<noteq> Inl e) \<longleftrightarrow> r = Inr ()" for r :: "unit result"
  by (cases r) auto

section \<open>Triples for computations\<close>

text \<open>
  \<open>hoare P m Q E\<close>: from a state of \<open>P\<close>, \<open>m\<close> either returns \<open>x\<close> in a state of \<open>Q x\<close> or throws \<open>e\<close>
  in a state of \<open>E e\<close>. Every computation is total, so the triple says both that \<open>m\<close> ends and how.
\<close>

definition hoare ::
  "('s \<Rightarrow> bool) \<Rightarrow> ('s, 'a) comp \<Rightarrow> ('a \<Rightarrow> 's \<Rightarrow> bool) \<Rightarrow> (error \<Rightarrow> 's \<Rightarrow> bool) \<Rightarrow> bool" where
  "hoare P m Q E \<longleftrightarrow>
     (\<forall>s. P s \<longrightarrow> (case m s of (Inr x, s') \<Rightarrow> Q x s' | (Inl e, s') \<Rightarrow> E e s'))"

named_theorems hoare_rules \<open>structural rules for triples\<close>

lemma hoareI:
  assumes "\<And>s x s'. P s \<Longrightarrow> m s = (Inr x, s') \<Longrightarrow> Q x s'"
    and "\<And>s e s'. P s \<Longrightarrow> m s = (Inl e, s') \<Longrightarrow> E e s'"
  shows "hoare P m Q E"
  using assms by (auto simp: hoare_def split: prod.splits sum.splits)

lemma hoare_InrD: "hoare P m Q E \<Longrightarrow> P s \<Longrightarrow> m s = (Inr x, s') \<Longrightarrow> Q x s'"
  by (fastforce simp: hoare_def)

lemma hoare_InlD: "hoare P m Q E \<Longrightarrow> P s \<Longrightarrow> m s = (Inl e, s') \<Longrightarrow> E e s'"
  by (fastforce simp: hoare_def)

lemma hoare_invariant:
  assumes "hoare P m Q (\<lambda>_. I)" "\<And>x s. Q x s \<Longrightarrow> I s" "P s" "m s = (r, s')"
  shows "I s'"
  using hoare_InrD [OF assms(1,3)] hoare_InlD [OF assms(1,3)] assms(2,4) by (cases r) auto

lemma hoare_pre: "hoare P m Q E \<Longrightarrow> (\<And>s. P' s \<Longrightarrow> P s) \<Longrightarrow> hoare P' m Q E"
  by (auto simp: hoare_def)

lemma hoare_post:
  "hoare P m Q E \<Longrightarrow> (\<And>x s. Q x s \<Longrightarrow> Q' x s) \<Longrightarrow> (\<And>e s. E e s \<Longrightarrow> E' e s) \<Longrightarrow> hoare P m Q' E'"
  by (fastforce simp: hoare_def split: prod.splits sum.splits)

lemma hoare_ret [hoare_rules]: "(\<And>s. P s \<Longrightarrow> Q x s) \<Longrightarrow> hoare P (ret x) Q E"
  by (auto simp: hoare_def)

lemma hoare_throw [hoare_rules]: "(\<And>s. P s \<Longrightarrow> E e s) \<Longrightarrow> hoare P (throw e) Q E"
  by (auto simp: hoare_def)

lemma hoare_and_then [hoare_rules]:
  assumes "hoare P m R E" and "\<And>x. hoare (R x) (f x) Q E"
  shows "hoare P (and_then m f) Q E"
  using assms by (fastforce simp: hoare_def and_then_def split: prod.splits sum.splits)

lemma hoare_if [hoare_rules]:
  "(b \<Longrightarrow> hoare P m Q E) \<Longrightarrow> (\<not> b \<Longrightarrow> hoare P n Q E) \<Longrightarrow> hoare P (if b then m else n) Q E"
  by auto

lemma hoare_case_option [hoare_rules]:
  "(v = None \<Longrightarrow> hoare P m Q E) \<Longrightarrow> (\<And>x. v = Some x \<Longrightarrow> hoare P (f x) Q E)
    \<Longrightarrow> hoare P (case v of None \<Rightarrow> m | Some x \<Rightarrow> f x) Q E"
  by (cases v) auto

section \<open>JavaScript strings\<close>

definition js_space :: "char \<Rightarrow> bool" where
  "js_space c \<longleftrightarrow> c = CHR 0x09 \<or> c = CHR 0x0A \<or> c = CHR 0x0B \<or> c = CHR 0x0C \<or> c = CHR 0x0D
     \<or> c = CHR 0x20 \<or> c = CHR 0xA0"

definition trim :: "string \<Rightarrow> string" where
  "trim s = rev (dropWhile js_space (rev (dropWhile js_space s)))"

text \<open>The test \<open>!s.trim()\<close> of the sources.\<close>

definition blank :: "string \<Rightarrow> bool" where
  "blank s \<longleftrightarrow> trim s = []"

lemma blank_iff: "blank s \<longleftrightarrow> (\<forall>c \<in> set s. js_space c)"
proof -
  have "blank s \<longleftrightarrow> (\<forall>c \<in> set (dropWhile js_space s). js_space c)"
    by (simp add: blank_def trim_def)
  also have "\<dots> \<longleftrightarrow> (\<forall>c \<in> set s. js_space c)"
    by (induction s) auto
  finally show ?thesis .
qed

lemma blank_Nil [simp]: "blank []"
  by (simp add: blank_iff)

lemma blank_append [simp]: "blank (s @ t) \<longleftrightarrow> blank s \<and> blank t"
  by (auto simp: blank_iff)

lemma blank_Cons [simp]: "blank (c # s) \<longleftrightarrow> js_space c \<and> blank s"
  by (simp add: blank_iff)

lemma js_space_code [simp]: "js_space (char_of n) \<longleftrightarrow> n mod 256 \<in> {9, 10, 11, 12, 13, 32, 160}" for n :: nat
proof -
  have eq: "char_of n = d \<longleftrightarrow> n mod 256 = (of_char d :: nat)" for d
    by (metis char_of_char of_char_of)
  show ?thesis by (simp add: js_space_def eq)
qed

declare js_space_def [simp]

definition starts_with :: "string \<Rightarrow> string \<Rightarrow> bool" where
  "starts_with s p \<longleftrightarrow> take (length p) s = p"

lemma starts_with_iff: "starts_with s p \<longleftrightarrow> (\<exists>t. s = p @ t)"
  by (metis append_eq_conv_conj append_take_drop_id starts_with_def)

text \<open>The identifier test \<open>!id.startsWith(p) || id.length === p.length\<close> of the registries.\<close>

definition has_prefix_id :: "string \<Rightarrow> string \<Rightarrow> bool" where
  "has_prefix_id s p \<longleftrightarrow> starts_with s p \<and> length s \<noteq> length p"

lemma has_prefix_id_iff: "has_prefix_id s p \<longleftrightarrow> (\<exists>t. t \<noteq> [] \<and> s = p @ t)"
  by (auto simp: has_prefix_id_def starts_with_iff)

section \<open>Decimal text\<close>

definition is_digit :: "char \<Rightarrow> bool" where
  "is_digit c \<longleftrightarrow> 48 \<le> (of_char c :: nat) \<and> of_char c \<le> (57 :: nat)"

definition digit_val :: "char \<Rightarrow> nat" where
  "digit_val c = of_char c - 48"

definition digit_char :: "nat \<Rightarrow> char" where
  "digit_char d = char_of (48 + d)"

fun digits_to_nat :: "nat \<Rightarrow> string \<Rightarrow> nat" where
  "digits_to_nat acc [] = acc"
| "digits_to_nat acc (c # cs) = digits_to_nat (10 * acc + digit_val c) cs"

fun nat_to_string :: "nat \<Rightarrow> string" where
  "nat_to_string n =
     (if n < 10 then [digit_char n] else nat_to_string (n div 10) @ [digit_char (n mod 10)])"

declare nat_to_string.simps [simp del]

text \<open>\<open>BigInt.prototype.toString\<close> and the interpolation of an integer into a template.\<close>

definition int_to_string :: "int \<Rightarrow> string" where
  "int_to_string i = (if i < 0 then CHR ''-'' # nat_to_string (nat (- i)) else nat_to_string (nat i))"

lemma of_char_digit_char [simp]: "d < 10 \<Longrightarrow> of_char (digit_char d) = 48 + d"
  by (simp add: digit_char_def)

lemma digit_val_char [simp]: "d < 10 \<Longrightarrow> digit_val (digit_char d) = d"
  by (simp add: digit_val_def)

lemma is_digit_char [simp]: "d < 10 \<Longrightarrow> is_digit (digit_char d)"
  by (simp add: is_digit_def)

lemma digit_char_val [simp]: "is_digit c \<Longrightarrow> digit_char (digit_val c) = c"
  by (simp add: digit_char_def digit_val_def is_digit_def)

lemma digit_val_less: "is_digit c \<Longrightarrow> digit_val c < 10"
  by (auto simp: is_digit_def digit_val_def)

lemma digit_chars [simp]:
  "digit_char 0 = CHR ''0''" "digit_char 1 = CHR ''1''" "digit_char (Suc 0) = CHR ''1''"
  "digit_char 2 = CHR ''2''"
  "digit_char 3 = CHR ''3''" "digit_char 4 = CHR ''4''" "digit_char 5 = CHR ''5''"
  "digit_char 6 = CHR ''6''" "digit_char 7 = CHR ''7''" "digit_char 8 = CHR ''8''"
  "digit_char 9 = CHR ''9''"
  by (simp_all add: digit_char_def char_of_def bit_0)

lemma digits_to_nat_snoc: "digits_to_nat a (cs @ [c]) = 10 * digits_to_nat a cs + digit_val c"
  by (induction cs arbitrary: a) auto

lemma digits_to_nat_string [simp]: "digits_to_nat 0 (nat_to_string n) = n"
proof (induction n rule: nat_to_string.induct)
  case (1 n)
  then show ?case
    by (cases "n < 10") (simp_all add: nat_to_string.simps [of n] digits_to_nat_snoc)
qed

lemma nat_to_string_digits: "\<forall>c \<in> set (nat_to_string n). is_digit c"
proof (induction n rule: nat_to_string.induct)
  case (1 n)
  then show ?case
    by (cases "n < 10") (simp_all add: nat_to_string.simps [of n])
qed

lemma nat_to_string_not_Nil [simp]: "nat_to_string n \<noteq> []"
  by (simp add: nat_to_string.simps [of n])

lemma nat_to_string_hd:
  "0 < n \<Longrightarrow> hd (nat_to_string n) \<noteq> CHR ''0''"
proof (induction n rule: nat_to_string.induct)
  case (1 n)
  have zero: "(of_char (CHR ''0'') :: nat) = 48" by simp
  show ?case
  proof (cases "n < 10")
    case True
    have "of_char (digit_char n) \<noteq> (of_char (CHR ''0'') :: nat)"
      unfolding zero using True 1 by simp
    then have "digit_char n \<noteq> CHR ''0''" by metis
    then show ?thesis using True by (simp add: nat_to_string.simps [of n])
  next
    case False
    then have "hd (nat_to_string (n div 10)) \<noteq> CHR ''0''" using 1 by simp
    then show ?thesis using False by (simp add: nat_to_string.simps [of n])
  qed
qed

lemma nat_to_string_inverse:
  "cs \<noteq> [] \<Longrightarrow> \<forall>c \<in> set cs. is_digit c \<Longrightarrow> hd cs \<noteq> CHR ''0''
    \<Longrightarrow> nat_to_string (digits_to_nat 0 cs) = cs \<and> 0 < digits_to_nat 0 cs"
proof (induction cs rule: rev_induct)
  case Nil
  then show ?case by simp
next
  case (snoc c cs)
  have dc: "is_digit c" using snoc.prems by simp
  show ?case
  proof (cases "cs = []")
    case True
    have "digit_val c \<noteq> 0"
    proof
      assume "digit_val c = 0"
      then have "of_char c = (48 :: nat)"
        using dc by (simp add: digit_val_def is_digit_def)
      then have "of_char c = (of_char (CHR ''0'') :: nat)" by simp
      then have "c = CHR ''0''" by (metis char_of_char)
      then show False using snoc.prems True by simp
    qed
    then show ?thesis
      using True dc digit_val_less [OF dc] by (simp add: nat_to_string.simps [of "digit_val c"])
  next
    case False
    then have IH: "nat_to_string (digits_to_nat 0 cs) = cs" "0 < digits_to_nat 0 cs"
      using snoc.IH snoc.prems by auto
    let ?n = "10 * digits_to_nat 0 cs + digit_val c"
    have "\<not> ?n < 10" "?n div 10 = digits_to_nat 0 cs" "?n mod 10 = digit_val c"
      using IH(2) digit_val_less [OF dc] by auto
    then show ?thesis
      using IH dc by (simp add: digits_to_nat_snoc nat_to_string.simps [of ?n])
  qed
qed

section \<open>JavaScript numbers\<close>

text \<open>
  A number that comes from a caller is an integer or something else (a fraction, \<open>NaN\<close>, an
  infinity); the sources test it with \<open>Number.isSafeInteger\<close> before they compare it.
\<close>

datatype js_number = JInt int | JOther

fun is_safe_integer :: "js_number \<Rightarrow> bool" where
  "is_safe_integer (JInt n) = (\<bar>n\<bar> \<le> 9007199254740991)"
| "is_safe_integer JOther = False"

fun num_val :: "js_number \<Rightarrow> int" where
  "num_val (JInt n) = n"
| "num_val JOther = 0"

text \<open>\<open>!Number.isSafeInteger(x) || x < lo\<close>\<close>

definition not_safe_at_least :: "js_number \<Rightarrow> int \<Rightarrow> bool" where
  "not_safe_at_least x lo \<longleftrightarrow> \<not> is_safe_integer x \<or> num_val x < lo"

section \<open>Text operations\<close>

text \<open>\<open>toLowerCase\<close> on the code units 0 to 255, and the order \<open>Array.sort\<close> uses by default.\<close>

definition lower_char :: "char \<Rightarrow> char" where
  "lower_char c = (let n = of_char c :: nat in
     if 65 \<le> n \<and> n \<le> 90 \<or> 192 \<le> n \<and> n \<le> 222 \<and> n \<noteq> 215 then char_of (n + 32) else c)"

definition lower :: "string \<Rightarrow> string" where
  "lower s = map lower_char s"

fun string_le :: "string \<Rightarrow> string \<Rightarrow> bool" where
  "string_le [] _ = True"
| "string_le (_ # _) [] = False"
| "string_le (a # as) (b # bs) =
     (if (of_char a :: nat) < of_char b then True else if a = b then string_le as bs else False)"

text \<open>A string or \<open>undefined\<close> in a condition, and \<open>value ?? other\<close>.\<close>

definition truthy :: "string option \<Rightarrow> bool" where
  "truthy s \<longleftrightarrow> s \<noteq> None \<and> s \<noteq> Some []"

definition or_else :: "string option \<Rightarrow> string \<Rightarrow> string" where
  "or_else s other = (case s of None \<Rightarrow> other | Some x \<Rightarrow> x)"

section \<open>Loops and joins over arrays\<close>

text \<open>\<open>xs.join(sep)\<close>, and a \<open>for\<close> loop whose body may throw.\<close>

fun join :: "string \<Rightarrow> string list \<Rightarrow> string" where
  "join sep [] = []"
| "join sep [x] = x"
| "join sep (x # xs) = x @ sep @ join sep xs"

fun for_each :: "('a \<Rightarrow> 'b result) \<Rightarrow> 'a list \<Rightarrow> unit result" where
  "for_each f [] = Inr ()"
| "for_each f (x # xs) = bind_result (f x) (\<lambda>_. for_each f xs)"

lemma for_each_Inr_iff: "for_each f xs = Inr () \<longleftrightarrow> (\<forall>x \<in> set xs. \<exists>y. f x = Inr y)"
  by (induction xs) auto

section \<open>Maps, sets and sorting\<close>

type_synonym ('k, 'v) js_map = "('k \<times> 'v) list"

abbreviation map_get :: "('k, 'v) js_map \<Rightarrow> 'k \<Rightarrow> 'v option" where
  "map_get m k \<equiv> map_of m k"

abbreviation map_set :: "'k \<Rightarrow> 'v \<Rightarrow> ('k, 'v) js_map \<Rightarrow> ('k, 'v) js_map" where
  "map_set k v m \<equiv> AList.update k v m"

definition map_has :: "('k, 'v) js_map \<Rightarrow> 'k \<Rightarrow> bool" where
  "map_has m k \<longleftrightarrow> map_of m k \<noteq> None"

abbreviation map_values :: "('k, 'v) js_map \<Rightarrow> 'v list" where
  "map_values m \<equiv> map snd m"

lemma map_get_set [simp]: "map_get (map_set k v m) k' = (if k' = k then Some v else map_get m k')"
  by (simp add: update_conv')

lemma map_has_set [simp]: "map_has (map_set k v m) k' \<longleftrightarrow> k' = k \<or> map_has m k'"
  by (simp add: map_has_def)

lemma map_set_fresh: "map_of m k = None \<Longrightarrow> map_set k v m = m @ [(k, v)]"
  by (induction m) (auto split: if_splits)

lemma map_values_fresh: "map_of m k = None \<Longrightarrow> map_values (map_set k v m) = map_values m @ [v]"
  by (simp add: map_set_fresh)

text \<open>\<open>[...new Set(xs)]\<close>: the first occurrence of each element, in order.\<close>

fun dedup_from :: "'a list \<Rightarrow> 'a list \<Rightarrow> 'a list" where
  "dedup_from seen [] = []"
| "dedup_from seen (x # xs) =
     (if List.member seen x then dedup_from seen xs else x # dedup_from (x # seen) xs)"

definition js_set :: "'a list \<Rightarrow> 'a list" where
  "js_set xs = dedup_from [] xs"

lemma set_dedup_from: "set (dedup_from seen xs) = set xs - set seen"
  by (induction seen xs rule: dedup_from.induct) auto

lemma distinct_dedup_from: "distinct (dedup_from seen xs)"
  by (induction seen xs rule: dedup_from.induct) (auto simp: set_dedup_from)

lemma set_js_set [simp]: "set (js_set xs) = set xs"
  by (simp add: js_set_def set_dedup_from)

lemma distinct_js_set [simp]: "distinct (js_set xs)"
  by (simp add: js_set_def distinct_dedup_from)

lemma js_set_Nil_iff [simp]: "js_set xs = [] \<longleftrightarrow> xs = []"
  using set_js_set [of xs] by (metis set_empty2)

lemma length_js_set: "length (js_set xs) = card (set xs)"
  by (metis distinct_card distinct_js_set set_js_set)

text \<open>\<open>new Set(xs).size !== xs.length\<close> finds a repetition.\<close>

lemma length_js_set_eq_iff: "length (js_set xs) = length xs \<longleftrightarrow> distinct xs"
  by (metis card_distinct distinct_card length_js_set)

text \<open>\<open>Array.prototype.sort\<close> with a comparison \<open>le a b\<close> (\<open>a\<close> may stay before \<open>b\<close>); it is stable.\<close>

fun insert_by :: "('a \<Rightarrow> 'a \<Rightarrow> bool) \<Rightarrow> 'a \<Rightarrow> 'a list \<Rightarrow> 'a list" where
  "insert_by le x [] = [x]"
| "insert_by le x (y # ys) = (if le x y then x # y # ys else y # insert_by le x ys)"

fun sort_by :: "('a \<Rightarrow> 'a \<Rightarrow> bool) \<Rightarrow> 'a list \<Rightarrow> 'a list" where
  "sort_by le [] = []"
| "sort_by le (x # xs) = insert_by le x (sort_by le xs)"

lemma set_insert_by [simp]: "set (insert_by le x xs) = insert x (set xs)"
  by (induction xs) auto

lemma length_insert_by [simp]: "length (insert_by le x xs) = Suc (length xs)"
  by (induction xs) auto

lemma set_sort_by [simp]: "set (sort_by le xs) = set xs"
  by (induction xs) auto

lemma length_sort_by [simp]: "length (sort_by le xs) = length xs"
  by (induction xs) auto

lemma distinct_map_insert_by:
  "distinct (map f (insert_by le x xs)) \<longleftrightarrow> distinct (map f (x # xs))"
  by (induction xs) auto

lemma distinct_map_sort_by [simp]: "distinct (map f (sort_by le xs)) \<longleftrightarrow> distinct (map f xs)"
  by (induction xs) (auto simp: distinct_map_insert_by)

lemma find_by_key:
  "distinct (map f xs) \<Longrightarrow> x \<in> set xs \<Longrightarrow> (\<And>y. y \<in> set xs \<Longrightarrow> P y \<longleftrightarrow> f y = f x) \<Longrightarrow> find P xs = Some x"
  by (induction xs) auto

abbreviation js_sort :: "string list \<Rightarrow> string list" where
  "js_sort \<equiv> sort_by string_le"

lemma separator_first:
  "c \<notin> set as \<Longrightarrow> c \<notin> set bs \<Longrightarrow> as @ c # xs = bs @ c # ys \<longleftrightarrow> as = bs \<and> xs = ys"
proof (induction as arbitrary: bs)
  case Nil
  then show ?case by (cases bs) auto
next
  case (Cons a as)
  then show ?case by (cases bs) auto
qed

lemma separator_inject:
  "c \<notin> set ys \<Longrightarrow> c \<notin> set ys' \<Longrightarrow> xs @ c # ys = xs' @ c # ys' \<longleftrightarrow> xs = xs' \<and> ys = ys'"
proof -
  assume "c \<notin> set ys" "c \<notin> set ys'"
  then have "rev ys @ c # rev xs = rev ys' @ c # rev xs' \<longleftrightarrow> rev ys = rev ys' \<and> rev xs = rev xs'"
    by (intro separator_first) simp_all
  moreover have "rev ys @ c # rev xs = rev ys' @ c # rev xs' \<longleftrightarrow> xs @ c # ys = xs' @ c # ys'"
    using rev_is_rev_conv [of "xs @ c # ys" "xs' @ c # ys'"] by simp
  ultimately show ?thesis by auto
qed

text \<open>\<open>s.split(c)\<close> for a separator of one character.\<close>

fun split_on :: "char \<Rightarrow> string \<Rightarrow> string list" where
  "split_on c [] = [[]]"
| "split_on c (x # xs) = (if x = c then [] # split_on c xs else (x # hd (split_on c xs)) # tl (split_on c xs))"

text \<open>\<open>s.includes(p)\<close>, and a property of some suffix.\<close>

fun any_suffix :: "(string \<Rightarrow> bool) \<Rightarrow> string \<Rightarrow> bool" where
  "any_suffix P [] \<longleftrightarrow> P []"
| "any_suffix P (c # s) \<longleftrightarrow> P (c # s) \<or> any_suffix P s"

definition has_substring :: "string \<Rightarrow> string \<Rightarrow> bool" where
  "has_substring s p = any_suffix (\<lambda>t. starts_with t p) s"

end
