(* ===== verification/Model.thy ===== *)
theory Model
  imports Prelude
begin

text \<open>
  The shared data model of packages/core/src/model.ts: identifiers, amounts and timestamps are
  strings, every interface is a record and every union of literals a datatype. Fields keep their
  source names behind a prefix that names the interface; an optional field is an \<open>option\<close>.
\<close>

type_synonym interweave_id = string
type_synonym iso_timestamp = string
type_synonym atomic_amount = string

text \<open>A JSON object with string values, in key order.\<close>

type_synonym string_record = "(string \<times> string) list"

datatype network_type = CANTON | EVM | OtherNetworkType string

datatype finality_policy =
    EVM_CONFIRMATIONS js_number bool
  | CANTON_COMPLETION "string option"
  | ADAPTER_DEFINED string string_record

record network =
  net_id :: interweave_id
  net_type :: network_type
  net_name :: string
  net_environment :: string
  net_endpoints :: "string list"
  net_chainId :: "string option"
  net_finalityPolicy :: finality_policy
  net_adapterConfiguration :: string_record
  net_enabled :: bool

datatype asset_capability =
    TRANSFER | MINT | BURN | LOCK | UNLOCK | FREEZE | SETTLE | CROSS_NETWORK_TRANSFER
datatype token_type = FUNGIBLE | NON_FUNGIBLE | MULTI_TOKEN
datatype asset_status = ASSET_ACTIVE | ASSET_PAUSED | ASSET_DEGRADED | ASSET_RETIRED
datatype supply_model = FIXED | ISSUER_MANAGED | REPRESENTATION
datatype bridge_model = BRIDGE_NONE | LOCK_MINT_BURN_RELEASE

record asset =
  as_id :: interweave_id
  as_name :: string
  as_symbol :: string
  as_issuerIdentityId :: interweave_id
  as_decimals :: js_number
  as_tokenType :: token_type
  as_canonicalNetworkId :: "interweave_id option"
  as_supplyModel :: supply_model
  as_bridgeModel :: bridge_model
  as_capabilities :: "asset_capability list"
  as_metadata :: string_record
  as_status :: asset_status
  as_createdAt :: iso_timestamp

datatype representation_locator =
    EvmRepresentation (rep_chainId: string) (rep_contractAddress: string) (rep_evmStandard: string)
  | CantonRepresentation (rep_instrumentId: string) (rep_issuerParty: string)
      (rep_registryId: string) (rep_cantonStandard: string)

record asset_representation =
  rep_id :: interweave_id
  rep_assetId :: interweave_id
  rep_networkId :: interweave_id
  rep_locator :: representation_locator
  rep_discoveredCapabilities :: "asset_capability list"
  rep_enabled :: bool

record capability_evidence =
  ce_capability :: asset_capability
  ce_source :: string
  ce_observedAt :: iso_timestamp
  ce_evidence :: string_record

datatype network_identity_locator = EvmAddress string | CantonParty string

record network_identity =
  ni_bindingId :: interweave_id
  ni_networkId :: interweave_id
  ni_locator :: network_identity_locator
  ni_proofMethod :: string
  ni_verifiedAt :: iso_timestamp
  ni_expiresAt :: "iso_timestamp option"
  ni_revokedAt :: "iso_timestamp option"

record identity =
  id_id :: interweave_id
  id_displayName :: "string option"
  id_bindings :: "network_identity list"
  id_createdAt :: iso_timestamp

datatype policy_status = DRAFT | POLICY_ACTIVE | POLICY_RETIRED
datatype policy_outcome = ALLOW | DENY | REQUIRES_APPROVAL

record policy_decision =
  pd_outcome :: policy_outcome
  pd_reasonCodes :: "string list"
  pd_policyId :: interweave_id
  pd_policyVersion :: string
  pd_decidedAt :: iso_timestamp
  pd_matchedRuleIds :: "string list option"

datatype transaction_status =
    TX_PREPARING | TX_SUBMITTED | TX_CONFIRMED | TX_FINALIZED | TX_FAILED | TX_UNCERTAIN

section \<open>Bridge operations\<close>

datatype bridge_state =
    CREATED | POLICY_CHECKED | SOURCE_PREPARING | SOURCE_SUBMITTED | SOURCE_CONFIRMED
  | SOURCE_FINALIZED | ATTESTATION_PENDING | ATTESTED | DESTINATION_PREPARING
  | DESTINATION_SUBMITTED | DESTINATION_CONFIRMED | DESTINATION_FINALIZED
  | RECONCILIATION_PENDING | RECONCILED | COMPLETED | POLICY_REJECTED | SOURCE_FAILED
  | ATTESTATION_FAILED | DESTINATION_FAILED | EXPIRED | RECONCILIATION_FAILED | MANUAL_REVIEW

fun state_text :: "bridge_state \<Rightarrow> string" where
  "state_text CREATED = ''CREATED''"
| "state_text POLICY_CHECKED = ''POLICY_CHECKED''"
| "state_text SOURCE_PREPARING = ''SOURCE_PREPARING''"
| "state_text SOURCE_SUBMITTED = ''SOURCE_SUBMITTED''"
| "state_text SOURCE_CONFIRMED = ''SOURCE_CONFIRMED''"
| "state_text SOURCE_FINALIZED = ''SOURCE_FINALIZED''"
| "state_text ATTESTATION_PENDING = ''ATTESTATION_PENDING''"
| "state_text ATTESTED = ''ATTESTED''"
| "state_text DESTINATION_PREPARING = ''DESTINATION_PREPARING''"
| "state_text DESTINATION_SUBMITTED = ''DESTINATION_SUBMITTED''"
| "state_text DESTINATION_CONFIRMED = ''DESTINATION_CONFIRMED''"
| "state_text DESTINATION_FINALIZED = ''DESTINATION_FINALIZED''"
| "state_text RECONCILIATION_PENDING = ''RECONCILIATION_PENDING''"
| "state_text RECONCILED = ''RECONCILED''"
| "state_text COMPLETED = ''COMPLETED''"
| "state_text POLICY_REJECTED = ''POLICY_REJECTED''"
| "state_text SOURCE_FAILED = ''SOURCE_FAILED''"
| "state_text ATTESTATION_FAILED = ''ATTESTATION_FAILED''"
| "state_text DESTINATION_FAILED = ''DESTINATION_FAILED''"
| "state_text EXPIRED = ''EXPIRED''"
| "state_text RECONCILIATION_FAILED = ''RECONCILIATION_FAILED''"
| "state_text MANUAL_REVIEW = ''MANUAL_REVIEW''"

record state_transition =
  tr_from :: "bridge_state option"
  tr_to :: bridge_state
  tr_occurredAt :: iso_timestamp
  tr_reason :: string
  tr_actor :: string

record 't bridge_operation =
  op_id :: interweave_id
  op_idempotencyKey :: string
  op_assetId :: interweave_id
  op_sourceNetworkId :: interweave_id
  op_destinationNetworkId :: interweave_id
  op_sender :: interweave_id
  op_receiver :: interweave_id
  op_amount :: atomic_amount
  op_state :: bridge_state
  op_policyDecision :: "policy_decision option"
  op_transitions :: "'t list"
  op_expiresAt :: iso_timestamp
  op_createdAt :: iso_timestamp

section \<open>Attestations\<close>

record validator_signature =
  vs_validatorId :: string
  vs_algorithm :: string
  vs_publicKeyId :: string
  vs_signature :: string
  vs_signedAt :: iso_timestamp

record attestation =
  at_version :: string
  at_id :: interweave_id
  at_operationId :: interweave_id
  at_sourceNetworkType :: network_type
  at_sourceNetworkId :: interweave_id
  at_sourceTransactionId :: string
  at_sourceEventPosition :: string
  at_eventType :: string
  at_assetId :: interweave_id
  at_amount :: atomic_amount
  at_sender :: interweave_id
  at_receiver :: interweave_id
  at_destinationNetworkType :: network_type
  at_destinationNetworkId :: interweave_id
  at_nonce :: string
  at_observedStatePosition :: string
  at_observedAt :: iso_timestamp
  at_validFrom :: iso_timestamp
  at_expiresAt :: iso_timestamp
  at_policyVersion :: string
  at_signatures :: "validator_signature list"

section \<open>Settlements, reconciliation and workflows\<close>

datatype leg_status = LEG_PENDING | LEG_RESERVED | LEG_FINALIZED | LEG_FAILED | LEG_COMPENSATED

record settlement_leg =
  leg_id :: string
  leg_networkId :: interweave_id
  leg_assetId :: interweave_id
  leg_sender :: interweave_id
  leg_receiver :: interweave_id
  leg_amount :: atomic_amount
  leg_status :: leg_status

datatype reconciliation_outcome = MATCH | MISMATCH

record reconciliation_record =
  rec_id :: interweave_id
  rec_assetId :: interweave_id
  rec_sourceLockedBacking :: atomic_amount
  rec_destinationSupply :: atomic_amount
  rec_pendingAmount :: atomic_amount
  rec_outcome :: reconciliation_outcome
  rec_evidence :: "string list"
  rec_checkedAt :: iso_timestamp

record workflow =
  wf_id :: interweave_id
  wf_version :: string
  wf_sourcePredicateType :: string
  wf_actionType :: string
  wf_policyId :: interweave_id
  wf_enabled :: bool

end
