(* ===== verification/Invariants.thy ===== *)
theory Invariants
  imports Model
begin

text \<open>
  The checks of packages/core/src/invariants.ts on atomic amounts, bridge operations, transition
  chains and supply, with what each of them establishes.
\<close>

section \<open>Atomic amounts\<close>

text \<open>The expression \<open>/^(0|[1-9][0-9]*)$/\<close>.\<close>

definition atomic_text :: "string \<Rightarrow> bool" where
  "atomic_text s \<longleftrightarrow>
     s = ''0'' \<or> s \<noteq> [] \<and> hd s \<noteq> CHR ''0'' \<and> list_all is_digit s"

definition parse_atomic_amount :: "atomic_amount \<Rightarrow> nat result" where
  "parse_atomic_amount value =
     (if \<not> atomic_text value then Inl (Error ''amount must be a non-negative base-10 integer string'')
      else Inr (digits_to_nat 0 value))"

definition assert_positive_amount :: "atomic_amount \<Rightarrow> unit result" where
  "assert_positive_amount value =
     bind_result (parse_atomic_amount value)
       (\<lambda>n. if n \<le> 0 then Inl (Error ''amount must be positive'') else Inr ())"

section \<open>Operations, chains and supply\<close>

definition assert_bridge_operation ::
  "('m state_transition_scheme, 'r) bridge_operation_scheme \<Rightarrow> unit result" where
  "assert_bridge_operation operation =
     bind_result (assert_positive_amount (op_amount operation)) (\<lambda>_.
       if op_sourceNetworkId operation = op_destinationNetworkId operation
       then Inl (Error ''bridge networks must differ'')
       else if blank (op_idempotencyKey operation)
       then Inl (Error ''idempotency key is required'')
       else if op_transitions operation = []
         \<or> tr_to (last (op_transitions operation)) \<noteq> op_state operation
       then Inl (Error ''current state must match the latest persisted transition'')
       else Inr ())"

text \<open>The \<open>forEach\<close> over the transitions, with the index and the previous element.\<close>

fun chain_from ::
  "nat \<Rightarrow> bridge_state option \<Rightarrow> ('m state_transition_scheme) list \<Rightarrow> unit result" where
  "chain_from index previous [] = Inr ()"
| "chain_from index previous (transition # rest) =
     (if index = 0 \<and> tr_from transition \<noteq> None
      then Inl (Error ''first transition must start from null'')
      else if 0 < index \<and> tr_from transition \<noteq> previous
      then Inl (Error (''disconnected transition at index '' @ nat_to_string index))
      else chain_from (Suc index) (Some (tr_to transition)) rest)"

definition assert_transition_chain :: "('m state_transition_scheme) list \<Rightarrow> unit result" where
  "assert_transition_chain transitions = chain_from 0 None transitions"

definition assert_supply_invariant :: "atomic_amount \<Rightarrow> atomic_amount \<Rightarrow> unit result" where
  "assert_supply_invariant destinationSupply verifiedBacking =
     bind_result (parse_atomic_amount destinationSupply) (\<lambda>supply.
       bind_result (parse_atomic_amount verifiedBacking) (\<lambda>backing.
         if supply > backing then Inl (Error ''destination supply exceeds verified backing'')
         else Inr ()))"

section \<open>Lemmas\<close>

lemma atomic_text_nat [simp]: "atomic_text (nat_to_string n)"
proof (cases "n = 0")
  case True
  then show ?thesis by (simp add: atomic_text_def nat_to_string.simps)
next
  case False
  then show ?thesis
    using nat_to_string_hd [of n] nat_to_string_digits [of n]
    by (simp add: atomic_text_def list_all_iff)
qed

lemma parse_atomic_amount_string [simp]: "parse_atomic_amount (nat_to_string n) = Inr n"
  by (simp add: parse_atomic_amount_def)

lemma nat_to_string_atomic: "atomic_text s \<Longrightarrow> nat_to_string (digits_to_nat 0 s) = s"
proof -
  have zero: "nat_to_string (digits_to_nat 0 ''0'') = ''0''"
    by (simp add: digit_val_def nat_to_string.simps)
  show "atomic_text s \<Longrightarrow> nat_to_string (digits_to_nat 0 s) = s"
    using nat_to_string_inverse [of s] zero by (auto simp: atomic_text_def list_all_iff)
qed

lemma parse_atomic_amount_Inr_iff: "parse_atomic_amount s = Inr n \<longleftrightarrow> s = nat_to_string n"
  using nat_to_string_atomic [of s] by (auto simp: parse_atomic_amount_def)

lemma assert_positive_amount_Inr_iff:
  "assert_positive_amount s = Inr () \<longleftrightarrow> (\<exists>n > 0. s = nat_to_string n)"
  by (auto simp: assert_positive_amount_def parse_atomic_amount_Inr_iff split: if_splits)

lemma assert_bridge_operation_Inr_iff:
  "assert_bridge_operation operation = Inr () \<longleftrightarrow>
     assert_positive_amount (op_amount operation) = Inr ()
     \<and> op_sourceNetworkId operation \<noteq> op_destinationNetworkId operation
     \<and> \<not> blank (op_idempotencyKey operation)
     \<and> op_transitions operation \<noteq> [] \<and> tr_to (last (op_transitions operation)) = op_state operation"
  by (auto simp: assert_bridge_operation_def)

text \<open>The chain read declaratively: each transition starts where its predecessor ended.\<close>

fun linked :: "bridge_state option \<Rightarrow> ('m state_transition_scheme) list \<Rightarrow> bool" where
  "linked s [] \<longleftrightarrow> True"
| "linked s (t # ts) \<longleftrightarrow> tr_from t = s \<and> linked (Some (tr_to t)) ts"

lemma linked_snoc:
  "linked s (ts @ [t]) \<longleftrightarrow>
     linked s ts \<and> tr_from t = (if ts = [] then s else Some (tr_to (last ts)))"
  by (induction ts arbitrary: s) auto

lemma chain_from_linked: "0 < n \<Longrightarrow> chain_from n s ts = Inr () \<longleftrightarrow> linked s ts"
  by (induction ts arbitrary: n s) auto

lemma assert_transition_chain_linked: "assert_transition_chain ts = Inr () \<longleftrightarrow> linked None ts"
  by (cases ts) (simp_all add: assert_transition_chain_def chain_from_linked)

end
