(* ===== verification/Js_Date.thy ===== *)
theory Js_Date
  imports Prelude "HOL-Library.Monad_Syntax"
begin

text \<open>
  The parts of the JavaScript \<open>Date\<close> object the sources use: \<open>Date.parse\<close> on the ECMAScript date
  time string format and \<open>Date.prototype.toISOString\<close>. A time value is an integer number of
  milliseconds since 1970-01-01T00:00:00Z, and \<open>NaN\<close> is \<open>None\<close>.

  The model follows ECMA-262: date-only forms are UTC, day 29 to 31 of a shorter month overflows
  into the next one, 24:00 is the end of a day. Two host-defined points are fixed: a string outside
  the format is \<open>NaN\<close>, and a date time without an offset is read in UTC. The main lemma is that
  \<open>date_parse\<close> inverts \<open>to_iso_string\<close> on every valid time value.
\<close>

section \<open>The calendar\<close>

definition day_from_year :: "int \<Rightarrow> int" where
  "day_from_year y =
     365 * (y - 1970) + (y - 1969) div 4 - (y - 1901) div 100 + (y - 1601) div 400"

definition leap_year :: "int \<Rightarrow> bool" where
  "leap_year y \<longleftrightarrow> y mod 4 = 0 \<and> y mod 100 \<noteq> 0 \<or> y mod 400 = 0"

text \<open>The day of the year, from 0, on which month \<open>m\<close> (from 1) starts.\<close>

definition month_start :: "bool \<Rightarrow> int \<Rightarrow> int" where
  "month_start leap m =
     (let l = (if leap then 1 else 0) in
      if m \<le> 1 then 0 else if m = 2 then 31 else if m = 3 then 59 + l else if m = 4 then 90 + l
      else if m = 5 then 120 + l else if m = 6 then 151 + l else if m = 7 then 181 + l
      else if m = 8 then 212 + l else if m = 9 then 243 + l else if m = 10 then 273 + l
      else if m = 11 then 304 + l else 334 + l)"

definition day_number :: "int \<Rightarrow> int \<Rightarrow> int \<Rightarrow> int" where
  "day_number y m d = day_from_year y + month_start (leap_year y) m + (d - 1)"

definition year_of_day :: "int \<Rightarrow> int" where
  "year_of_day n =
     (let y = 1970 + (400 * n) div 146097
      in if n < day_from_year y then y - 1 else if day_from_year (y + 1) \<le> n then y + 1 else y)"

definition month_of :: "bool \<Rightarrow> int \<Rightarrow> int" where
  "month_of leap k =
     (if k < month_start leap 2 then 1 else if k < month_start leap 3 then 2
      else if k < month_start leap 4 then 3 else if k < month_start leap 5 then 4
      else if k < month_start leap 6 then 5 else if k < month_start leap 7 then 6
      else if k < month_start leap 8 then 7 else if k < month_start leap 9 then 8
      else if k < month_start leap 10 then 9 else if k < month_start leap 11 then 10
      else if k < month_start leap 12 then 11 else 12)"

lemma div_next: "0 < n \<Longrightarrow> (z + 1) div n = z div n + (if (z + 1) mod n = 0 then 1 else 0)"
  for z n :: int
proof -
  assume n: "0 < n"
  define q r where "q = z div n" and "r = z mod n"
  have z: "z = q * n + r" and r: "0 \<le> r" "r < n"
    using n by (simp_all add: q_def r_def)
  show ?thesis
  proof (cases "r + 1 = n")
    case True
    then have "z + 1 = (q + 1) * n" using z by (simp add: algebra_simps)
    then show ?thesis using n by (simp add: q_def)
  next
    case False
    have z1: "z + 1 = q * n + (r + 1)" using z by simp
    have "(q * n + (r + 1)) div n = q" "(q * n + (r + 1)) mod n = r + 1"
      using r False n by (simp_all add: div_pos_pos_trivial)
    then have "(z + 1) div n = q" "(z + 1) mod n = r + 1"
      unfolding z1 .
    then show ?thesis using r by (simp add: q_def [symmetric])
  qed
qed

lemma day_from_year_Suc:
  "day_from_year (y + 1) = day_from_year y + (if leap_year y then 366 else 365)"
proof -
  have shift: "(y - 1968) mod 4 = y mod 4" "(y - 1900) mod 100 = y mod 100"
    "(y - 1600) mod 400 = y mod 400"
    using mod_mult_self1 [of y "- 492" 4] mod_mult_self1 [of y "- 19" 100]
      mod_mult_self1 [of y "- 4" 400] by simp_all
  have "y mod 400 = 0 \<Longrightarrow> y mod 4 = 0 \<and> y mod 100 = 0" "y mod 100 = 0 \<Longrightarrow> y mod 4 = 0"
    using dvd_trans [of 4 100 y] dvd_trans [of 4 400 y] dvd_trans [of 100 400 y]
    by (simp_all add: mod_eq_0_iff_dvd)
  then have leap: "leap_year y \<longleftrightarrow> (if y mod 400 = 0 then True else if y mod 100 = 0 then False
      else y mod 4 = 0)" "y mod 400 = 0 \<longrightarrow> y mod 100 = 0" "y mod 100 = 0 \<longrightarrow> y mod 4 = 0"
    by (auto simp: leap_year_def)
  have d4: "(y + 1 - 1969) div 4 = (y - 1969) div 4 + (if y mod 4 = 0 then 1 else 0)"
    using div_next [of 4 "y - 1969"] shift(1) by simp
  have d100: "(y + 1 - 1901) div 100 = (y - 1901) div 100 + (if y mod 100 = 0 then 1 else 0)"
    using div_next [of 100 "y - 1901"] shift(2) by simp
  have d400: "(y + 1 - 1601) div 400 = (y - 1601) div 400 + (if y mod 400 = 0 then 1 else 0)"
    using div_next [of 400 "y - 1601"] shift(3) by simp
  show ?thesis
    unfolding day_from_year_def d4 d100 d400 leap(1) using leap(2,3) by simp
qed

lemma year_scale:
  fixes y :: int
  assumes "4 * a = y - 1969 - i" "100 * b = y - 1901 - j" "400 * c = y - 1601 - k"
    and "0 \<le> i" "i < 4" "0 \<le> j" "j < 100" "0 \<le> k" "k < 400"
  shows "146097 * (y - 1970) - 506 \<le> 400 * (365 * (y - 1970) + a - b + c) \<and>
    400 * (365 * (y - 1970) + a - b + c) \<le> 146097 * (y - 1970) + 589"
proof -
  have "400 * (365 * (y - 1970) + a - b + c) = 146097 * (y - 1970) + 193 - 100 * i + 4 * j - k"
    using assms(1-3) by (simp add: algebra_simps)
  then show ?thesis using assms(4-) by linarith
qed

lemma day_from_year_bounds:
  "146097 * (y - 1970) - 506 \<le> 400 * day_from_year y \<and>
   400 * day_from_year y \<le> 146097 * (y - 1970) + 589"
  unfolding day_from_year_def
  by (rule year_scale [where i = "(y - 1969) mod 4" and j = "(y - 1901) mod 100"
        and k = "(y - 1601) mod 400"]) (simp_all add: minus_mod_eq_mult_div)

lemma year_of_day_bounds:
  "day_from_year (year_of_day n) \<le> n" "n < day_from_year (year_of_day n + 1)"
proof -
  define e where "e = (400 * n) div 146097"
  have e: "146097 * e \<le> 400 * n" "400 * n < 146097 * (e + 1)"
    unfolding e_def by (simp_all add: minus_mod_eq_mult_div [symmetric] algebra_simps)
  have y: "year_of_day n = (if n < day_from_year (1970 + e) then 1970 + e - 1
      else if day_from_year (1970 + e + 1) \<le> n then 1970 + e + 1 else 1970 + e)"
    by (simp add: year_of_day_def e_def Let_def)
  define d1 d2 where "d1 = day_from_year (1970 + e - 1)" and "d2 = day_from_year (1970 + e + 1 + 1)"
  have "400 * d1 \<le> 146097 * (e - 1) + 589" "146097 * (e + 2) - 506 \<le> 400 * d2"
    using day_from_year_bounds [of "1970 + e - 1"] day_from_year_bounds [of "1970 + e + 1 + 1"]
    by (simp_all add: d1_def d2_def)
  then have "400 * d1 < 400 * n" "400 * n < 400 * d2" using e by (simp_all add: algebra_simps)
  then have lo: "day_from_year (1970 + e - 1) \<le> n" and hi: "n < day_from_year (1970 + e + 1 + 1)"
    by (simp_all add: d1_def d2_def)
  show "day_from_year (year_of_day n) \<le> n"
    using lo by (simp add: y del: add_diff_eq diff_add_eq)
  show "n < day_from_year (year_of_day n + 1)"
    using hi by (simp add: y)
qed

lemma month_start_values [simp]:
  "month_start True 1 = 0" "month_start False 1 = 0" "month_start l 2 = 31"
  "month_start True 3 = 60" "month_start False 3 = 59" "month_start True 4 = 91" "month_start False 4 = 90"
  "month_start True 5 = 121" "month_start False 5 = 120" "month_start True 6 = 152" "month_start False 6 = 151"
  "month_start True 7 = 182" "month_start False 7 = 181" "month_start True 8 = 213" "month_start False 8 = 212"
  "month_start True 9 = 244" "month_start False 9 = 243" "month_start True 10 = 274" "month_start False 10 = 273"
  "month_start True 11 = 305" "month_start False 11 = 304" "month_start True 12 = 335" "month_start False 12 = 334"
  by (simp_all add: month_start_def)

lemma month_of_bounds:
  assumes "0 \<le> k" "k < (if leap then 366 else 365)"
  shows "1 \<le> month_of leap k \<and> month_of leap k \<le> 12 \<and>
    month_start leap (month_of leap k) \<le> k \<and> k - month_start leap (month_of leap k) < 31"
proof (cases leap)
  case True
  then show ?thesis using assms by (simp add: month_of_def)
next
  case False
  then show ?thesis using assms by (simp add: month_of_def)
qed

section \<open>Printing and parsing\<close>

fun pad :: "nat \<Rightarrow> nat \<Rightarrow> string" where
  "pad 0 n = []"
| "pad (Suc k) n = pad k (n div 10) @ [digit_char (n mod 10)]"

definition year_string :: "int \<Rightarrow> string" where
  "year_string y =
     (if 0 \<le> y \<and> y \<le> 9999 then pad 4 (nat y)
      else (if y < 0 then CHR ''-'' else CHR ''+'') # pad 6 (nat \<bar>y\<bar>))"

definition to_iso_string :: "int \<Rightarrow> string" where
  "to_iso_string t =
     (let n = t div 86400000; r = t mod 86400000; y = year_of_day n;
          k = n - day_from_year y; m = month_of (leap_year y) k;
          d = k - month_start (leap_year y) m + 1
      in year_string y @ CHR ''-'' # pad 2 (nat m) @ CHR ''-'' # pad 2 (nat d) @ CHR ''T'' #
         pad 2 (nat (r div 3600000)) @ CHR '':'' # pad 2 (nat (r div 60000 mod 60)) @ CHR '':'' #
         pad 2 (nat (r div 1000 mod 60)) @ CHR ''.'' # pad 3 (nat (r mod 1000)) @ ''Z'')"

definition take_digits :: "nat \<Rightarrow> string \<Rightarrow> (int \<times> string) option" where
  "take_digits k s =
     (if k \<le> length s \<and> list_all is_digit (take k s)
      then Some (int (digits_to_nat 0 (take k s)), drop k s) else None)"

definition take_char :: "char \<Rightarrow> string \<Rightarrow> string option" where
  "take_char c s = (case s of [] \<Rightarrow> None | x # r \<Rightarrow> if x = c then Some r else None)"

text \<open>An optional field after a separator, with its value when it is absent.\<close>

definition opt_field :: "char \<Rightarrow> nat \<Rightarrow> int \<Rightarrow> string \<Rightarrow> (int \<times> string) option" where
  "opt_field c k v s = (case take_char c s of None \<Rightarrow> Some (v, s) | Some r \<Rightarrow> take_digits k r)"

definition parse_year :: "string \<Rightarrow> (int \<times> string) option" where
  "parse_year s =
     (case take_char (CHR ''+'') s of
        Some r \<Rightarrow> take_digits 6 r
      | None \<Rightarrow>
         (case take_char (CHR ''-'') s of
            Some r \<Rightarrow> do { (y, r') \<leftarrow> take_digits 6 r; if y = 0 then None else Some (- y, r') }
          | None \<Rightarrow> take_digits 4 s))"

definition parse_seconds :: "string \<Rightarrow> ((int \<times> int) \<times> string) option" where
  "parse_seconds s =
     (case take_char (CHR '':'') s of
        None \<Rightarrow> Some ((0, 0), s)
      | Some r \<Rightarrow> do { (sec, r) \<leftarrow> take_digits 2 r; (ms, r) \<leftarrow> opt_field (CHR ''.'') 3 0 r;
                     Some ((sec, ms), r) })"

text \<open>The offset in minutes; a missing one is read as UTC.\<close>

definition parse_offset :: "string \<Rightarrow> int option" where
  "parse_offset s =
     (if s = [] \<or> s = ''Z'' then Some 0
      else do { (h, r) \<leftarrow> take_digits 2 (tl s); r \<leftarrow> take_char (CHR '':'') r;
                (m, r) \<leftarrow> take_digits 2 r;
                if r = [] \<and> h \<le> 23 \<and> m \<le> 59 \<and> (hd s = CHR ''+'' \<or> hd s = CHR ''-'')
                then Some ((if hd s = CHR ''-'' then - 1 else 1) * (60 * h + m)) else None })"

definition parse_clock :: "string \<Rightarrow> int option" where
  "parse_clock s =
     (case take_char (CHR ''T'') s of
        None \<Rightarrow> if s = [] then Some 0 else None
      | Some r \<Rightarrow>
          do { (h, r) \<leftarrow> take_digits 2 r; r \<leftarrow> take_char (CHR '':'') r; (mi, r) \<leftarrow> take_digits 2 r;
               ((sec, ms), r) \<leftarrow> parse_seconds r; off \<leftarrow> parse_offset r;
               if mi \<le> 59 \<and> sec \<le> 59 \<and> (h \<le> 23 \<or> h = 24 \<and> mi = 0 \<and> sec = 0 \<and> ms = 0)
               then Some (3600000 * h + 60000 * mi + 1000 * sec + ms - 60000 * off) else None })"

text \<open>\<open>Date.parse\<close>\<close>

definition date_parse :: "string \<Rightarrow> int option" where
  "date_parse s =
     do { (y, r) \<leftarrow> parse_year s; (m, r) \<leftarrow> opt_field (CHR ''-'') 2 1 r;
          (d, r) \<leftarrow> opt_field (CHR ''-'') 2 1 r; u \<leftarrow> parse_clock r;
          let t = 86400000 * day_number y m d + u in
          if 1 \<le> m \<and> m \<le> 12 \<and> 1 \<le> d \<and> d \<le> 31 \<and> \<bar>t\<bar> \<le> 8640000000000000
          then Some t else None }"

text \<open>\<open>Number.isFinite(Date.parse(s))\<close>, and the comparisons the sources make with \<open>NaN\<close> around.\<close>

definition valid_time :: "string \<Rightarrow> bool" where
  "valid_time s \<longleftrightarrow> date_parse s \<noteq> None"

text \<open>\<open>now.getTime() >= Date.parse(s)\<close> is false when \<open>s\<close> is not a date.\<close>

definition reached :: "int \<Rightarrow> string \<Rightarrow> bool" where
  "reached now s \<longleftrightarrow> (case date_parse s of None \<Rightarrow> False | Some t \<Rightarrow> t \<le> now)"

text \<open>\<open>now.getTime() < Date.parse(s)\<close>\<close>

definition before_time :: "int \<Rightarrow> string \<Rightarrow> bool" where
  "before_time now s \<longleftrightarrow> (case date_parse s of None \<Rightarrow> False | Some t \<Rightarrow> now < t)"

text \<open>\<open>Date.parse(a) <= Date.parse(b)\<close> is false when either is not a date.\<close>

definition time_le :: "string \<Rightarrow> string \<Rightarrow> bool" where
  "time_le a b \<longleftrightarrow>
     (case (date_parse a, date_parse b) of (Some x, Some y) \<Rightarrow> x \<le> y | _ \<Rightarrow> False)"

text \<open>A \<open>Date\<close> object: its time value, \<open>None\<close> when it is invalid.\<close>

type_synonym js_date = "int option"

text \<open>\<open>Date.prototype.toISOString\<close> throws on an invalid date.\<close>

definition iso_string :: "js_date \<Rightarrow> ('s, string) comp" where
  "iso_string d = (case d of None \<Rightarrow> throw (Error ''Invalid time value'') | Some t \<Rightarrow> ret (to_iso_string t))"

text \<open>\<open>now().getTime() >= Date.parse(s)\<close>, false when either side is \<open>NaN\<close>.\<close>

definition date_reached :: "js_date \<Rightarrow> string \<Rightarrow> bool" where
  "date_reached d s = (case d of None \<Rightarrow> False | Some t \<Rightarrow> reached t s)"

text \<open>\<open>now().getTime() < Date.parse(s)\<close>\<close>

definition date_before :: "js_date \<Rightarrow> string \<Rightarrow> bool" where
  "date_before d s = (case d of None \<Rightarrow> False | Some t \<Rightarrow> before_time t s)"

section \<open>Parsing inverts printing\<close>

lemma length_pad [simp]: "length (pad k n) = k"
  by (induction k arbitrary: n) auto

lemma pad_digits [simp]: "list_all is_digit (pad k n)"
  by (induction k arbitrary: n) auto

lemma digits_to_nat_pad: "n < 10 ^ k \<Longrightarrow> digits_to_nat 0 (pad k n) = n"
proof (induction k arbitrary: n)
  case 0
  then show ?case by simp
next
  case (Suc k)
  then have "n div 10 < 10 ^ k" by (simp add: less_mult_imp_div_less mult.commute)
  then show ?case using Suc.IH by (simp add: digits_to_nat_snoc)
qed

lemma take_digits_pad: "n < 10 ^ k \<Longrightarrow> take_digits k (pad k n @ r) = Some (int n, r)"
  by (simp add: take_digits_def digits_to_nat_pad)

lemma take_char_Cons [simp]: "take_char c (c # r) = Some r"
  by (simp add: take_char_def)

lemma take_char_pad [simp]: "\<not> is_digit c \<Longrightarrow> 0 < k \<Longrightarrow> take_char c (pad k n @ r) = None"
proof -
  assume "\<not> is_digit c" "0 < k"
  then obtain x xs where "pad k n = x # xs" "is_digit x"
    by (metis length_pad length_greater_0_conv list.exhaust list.pred_inject(2) pad_digits)
  then show ?thesis using \<open>\<not> is_digit c\<close> by (auto simp: take_char_def)
qed

lemma opt_field_pad [simp]: "n < 10 ^ k \<Longrightarrow> opt_field c k v (c # pad k n @ r) = Some (int n, r)"
  by (simp add: opt_field_def take_digits_pad)

lemma parse_year_string:
  assumes "\<bar>y\<bar> < 1000000"
  shows "parse_year (year_string y @ r) = Some (y, r)"
proof -
  have sign: "\<not> is_digit (CHR ''+'')" "\<not> is_digit (CHR ''-'')" by (simp_all add: is_digit_def)
  have six: "take_digits 6 (pad 6 (nat \<bar>y\<bar>) @ r) = Some (\<bar>y\<bar>, r)"
    using assms by (subst take_digits_pad) auto
  show ?thesis
  proof (cases "0 \<le> y \<and> y \<le> 9999")
    case True
    then have "take_digits 4 (pad 4 (nat y) @ r) = Some (y, r)"
      by (subst take_digits_pad) auto
    then show ?thesis using True sign by (simp add: year_string_def parse_year_def)
  next
    case False
    then show ?thesis
      using six by (auto simp: year_string_def parse_year_def take_char_def)
  qed
qed

lemma parse_clock_pad:
  assumes "h \<le> 23" "mi \<le> 59" "sec \<le> 59" "ms \<le> 999"
  shows "parse_clock (CHR ''T'' # pad 2 h @ CHR '':'' # pad 2 mi @ CHR '':'' # pad 2 sec @
           CHR ''.'' # pad 3 ms @ ''Z'')
    = Some (3600000 * int h + 60000 * int mi + 1000 * int sec + int ms)"
  using assms
  by (simp add: parse_clock_def parse_seconds_def take_digits_pad parse_offset_def)

lemma mixed_radix:
  fixes r :: int
  assumes "1000 * q + a = r" "60 * p + b = q" "60 * h + c = p"
  shows "3600000 * h + 60000 * c + 1000 * b + a = r"
  using assms by auto

lemma clock_fields:
  "3600000 * (r div 3600000) + 60000 * (r div 60000 mod 60) + 1000 * (r div 1000 mod 60)
    + r mod 1000 = r" for r :: int
proof (rule mixed_radix)
  have "r div 3600000 = r div 60000 div 60"
    using zdiv_zmult2_eq [of 60 r 60000] by simp
  then show "60 * (r div 3600000) + r div 60000 mod 60 = r div 60000"
    by (simp only: mult_div_mod_eq)
  have "r div 60000 = r div 1000 div 60"
    using zdiv_zmult2_eq [of 60 r 1000] by simp
  then show "60 * (r div 60000) + r div 1000 mod 60 = r div 1000"
    by (simp only: mult_div_mod_eq)
qed (rule mult_div_mod_eq)

lemma parse_clock_of_day:
  assumes "0 \<le> r" "r < 86400000"
  shows "parse_clock (CHR ''T'' # pad 2 (nat (r div 3600000)) @ CHR '':'' #
    pad 2 (nat (r div 60000 mod 60)) @ CHR '':'' # pad 2 (nat (r div 1000 mod 60)) @
    CHR ''.'' # pad 3 (nat (r mod 1000)) @ ''Z'') = Some r"
proof -
  have bounds: "0 \<le> r div 3600000" "r div 3600000 < 24" "0 \<le> r div 60000 mod 60"
    "r div 60000 mod 60 < 60" "0 \<le> r div 1000 mod 60" "r div 1000 mod 60 < 60"
    "0 \<le> r mod 1000" "r mod 1000 < 1000"
    using assms by (simp_all add: div_less_iff_less_mult pos_imp_zdiv_nonneg_iff)
  have "h < 24 \<longrightarrow> nat h \<le> 23" "i < 60 \<longrightarrow> nat i \<le> 59" "j < 1000 \<longrightarrow> nat j \<le> 999" for h i j
    by auto
  then have "nat (r div 3600000) \<le> 23" "nat (r div 60000 mod 60) \<le> 59"
    "nat (r div 1000 mod 60) \<le> 59" "nat (r mod 1000) \<le> 999"
    using bounds(2,4,6,8) by blast+
  then show ?thesis
    using bounds(1,3,5,7) clock_fields [of r] by (simp only: parse_clock_pad int_nat_eq if_True)
qed

lemma civil_of_day:
  fixes n y :: int
  assumes n: "\<bar>n\<bar> \<le> 100000001"
  defines "y \<equiv> year_of_day n"
  defines "k \<equiv> n - day_from_year y"
  defines "m \<equiv> month_of (leap_year y) k"
  defines "d \<equiv> k - month_start (leap_year y) m + 1"
  shows "day_number y m d = n \<and> \<bar>y\<bar> < 1000000 \<and> 1 \<le> m \<and> m \<le> 12 \<and> 1 \<le> d \<and> d \<le> 31"
proof -
  have k: "0 \<le> k" "k < (if leap_year y then 366 else 365)"
    using year_of_day_bounds [of n] by (simp_all add: k_def y_def day_from_year_Suc)
  have "400 * day_from_year y \<le> 400 * n" "400 * n < 400 * day_from_year (y + 1)"
    using year_of_day_bounds [of n] by (simp_all add: y_def)
  then have "146097 * (y - 1970) - 506 \<le> 400 * n" "400 * n < 146097 * (y - 1969) + 589"
    using day_from_year_bounds [of y] day_from_year_bounds [of "y + 1"] by simp_all
  then have "y < 1000000" "- 1000000 < y" using n by simp_all
  then have "\<bar>y\<bar> < 1000000" by simp
  moreover have "day_number y m d = n" by (simp add: day_number_def d_def k_def)
  ultimately show ?thesis
    using month_of_bounds [OF k, folded m_def] by (simp add: d_def)
qed

lemma date_parse_to_iso_string:
  assumes "\<bar>t\<bar> \<le> 8640000000000000"
  shows "date_parse (to_iso_string t) = Some t"
proof -
  define n r where "n = t div 86400000" and "r = t mod 86400000"
  define y where "y = year_of_day n"
  define m where "m = month_of (leap_year y) (n - day_from_year y)"
  define d where "d = n - day_from_year y - month_start (leap_year y) m + 1"
  have t: "t = 86400000 * n + r" and r: "0 \<le> r" "r < 86400000"
    by (simp_all add: n_def r_def)
  have "\<bar>n\<bar> \<le> 100000001" using t r assms by linarith
  note civ = civil_of_day [OF this, folded y_def, folded m_def, folded d_def]
  have year: "parse_year (year_string y @ q) = Some (y, q)" for q
    using civ by (intro parse_year_string) simp
  have "nat m < 10 ^ 2" "nat d < 10 ^ 2" using civ by auto
  then have fields: "opt_field (CHR ''-'') 2 1 (CHR ''-'' # pad 2 (nat m) @ q) = Some (m, q)"
    "opt_field (CHR ''-'') 2 1 (CHR ''-'' # pad 2 (nat d) @ q) = Some (d, q)" for q
    using civ by simp_all
  have "86400000 * day_number y m d + r = t" using civ t by simp
  then show ?thesis
    using civ assms
    by (simp only: to_iso_string_def Let_def n_def [symmetric] r_def [symmetric] y_def [symmetric]
        m_def [symmetric] d_def [symmetric] date_parse_def year fields Option.bind.simps prod.case
        parse_clock_of_day [OF r]) simp
qed

end
