(* ===== verification/Transaction_Engine.thy ===== *)
theory Transaction_Engine
  imports Invariants Js_Date
begin

text \<open>
  The durable transaction engine of packages/core/src/transaction-engine.ts on the tables of
  packages/core/sql/001_transaction_engine.sql.

  A table is a list of rows in insertion order; an \<open>INSERT\<close> that breaks a PRIMARY KEY, UNIQUE,
  CHECK, FOREIGN KEY or column type constraint raises \<open>SqlError\<close>. The parameter \<open>pg_ts\<close> is what
  PostgreSQL and its driver give back for a text written to a \<open>timestamptz\<close> column, \<open>None\<close> when
  the column does not accept it. The column \<open>updated_at\<close> is written and never read, and is left
  out. Every store operation is one database transaction, hence one atomic step; concurrent
  callers are the interleavings of these steps.
\<close>

section \<open>Data\<close>

record persisted_transition = state_transition +
  tr_transitionKey :: string
  tr_sequence :: int
  tr_attempt :: int

record durable_bridge_operation = "persisted_transition bridge_operation" +
  op_version :: int

datatype attempt_status = STARTED | SUCCEEDED | FAILED

record transaction_attempt =
  ta_operationId :: interweave_id
  ta_attemptKey :: string
  ta_step :: string
  ta_attempt :: js_number
  ta_status :: attempt_status
  ta_errorCode :: "string option"
  ta_occurredAt :: iso_timestamp

record create_bridge_operation =
  cb_id :: interweave_id
  cb_idempotencyKey :: string
  cb_assetId :: interweave_id
  cb_sourceNetworkId :: interweave_id
  cb_destinationNetworkId :: interweave_id
  cb_sender :: interweave_id
  cb_receiver :: interweave_id
  cb_amount :: atomic_amount
  cb_expiresAt :: iso_timestamp
  cb_createdAt :: iso_timestamp
  cb_actor :: string

record transition_command =
  cmd_operationId :: interweave_id
  cmd_transitionKey :: string
  cmd_expectedVersion :: int
  cmd_to :: bridge_state
  cmd_occurredAt :: iso_timestamp
  cmd_reason :: string
  cmd_actor :: string
  cmd_attempt :: js_number
  cmd_policyDecision :: "policy_decision option"

section \<open>The transition graph\<close>

fun forward :: "bridge_state \<Rightarrow> bridge_state list" where
  "forward CREATED = [POLICY_CHECKED, POLICY_REJECTED]"
| "forward POLICY_CHECKED = [SOURCE_PREPARING]"
| "forward SOURCE_PREPARING = [SOURCE_SUBMITTED, SOURCE_FAILED]"
| "forward SOURCE_SUBMITTED = [SOURCE_CONFIRMED, SOURCE_FAILED]"
| "forward SOURCE_CONFIRMED = [SOURCE_FINALIZED, SOURCE_FAILED]"
| "forward SOURCE_FINALIZED = [ATTESTATION_PENDING]"
| "forward ATTESTATION_PENDING = [ATTESTED, ATTESTATION_FAILED]"
| "forward ATTESTED = [DESTINATION_PREPARING]"
| "forward DESTINATION_PREPARING = [DESTINATION_SUBMITTED, DESTINATION_FAILED]"
| "forward DESTINATION_SUBMITTED = [DESTINATION_CONFIRMED, DESTINATION_FAILED]"
| "forward DESTINATION_CONFIRMED = [DESTINATION_FINALIZED, DESTINATION_FAILED]"
| "forward DESTINATION_FINALIZED = [RECONCILIATION_PENDING]"
| "forward RECONCILIATION_PENDING = [RECONCILED, RECONCILIATION_FAILED]"
| "forward RECONCILED = [COMPLETED]"
| "forward _ = []"

definition terminal :: "bridge_state list" where
  "terminal = [COMPLETED, POLICY_REJECTED, SOURCE_FAILED, ATTESTATION_FAILED, DESTINATION_FAILED,
     EXPIRED, RECONCILIATION_FAILED, MANUAL_REVIEW]"

definition can_transition :: "bridge_state \<Rightarrow> bridge_state \<Rightarrow> bool" where
  "can_transition from to =
     (if from \<in> set terminal then False
      else if to = MANUAL_REVIEW \<or> to = EXPIRED then True
      else to \<in> set (forward from))"

section \<open>Tables\<close>

record operation_row =
  orow_id :: string
  orow_idempotency_key :: string
  orow_state :: bridge_state
  orow_version :: int
  orow_operation :: durable_bridge_operation

record transition_row =
  trow_operation_id :: string
  trow_transition_key :: string
  trow_sequence :: int
  trow_attempt :: int
  trow_from_state :: "bridge_state option"
  trow_to_state :: bridge_state
  trow_occurred_at :: string
  trow_reason :: string
  trow_actor :: string

record attempt_row =
  arow_operation_id :: string
  arow_attempt_key :: string
  arow_step :: string
  arow_attempt :: int
  arow_status :: attempt_status
  arow_error_code :: "string option"
  arow_occurred_at :: string
  arow_record :: transaction_attempt

record tx_db =
  bridge_operations :: "operation_row list"
  bridge_transitions :: "transition_row list"
  transaction_attempts :: "attempt_row list"

definition empty_tx_db :: tx_db where
  "empty_tx_db = \<lparr>bridge_operations = [], bridge_transitions = [], transaction_attempts = []\<rparr>"

type_synonym pg_timestamp = "string \<Rightarrow> string option"

text \<open>The range of a column of type \<open>integer\<close>.\<close>

definition int4 :: "int \<Rightarrow> bool" where
  "int4 n \<longleftrightarrow> - 2147483648 \<le> n \<and> n \<le> 2147483647"

definition find_operation :: "interweave_id \<Rightarrow> 'r tx_db_scheme \<Rightarrow> operation_row option" where
  "find_operation oid db = find (\<lambda>r. orow_id r = oid) (bridge_operations db)"

definition transition_rows :: "interweave_id \<Rightarrow> 'r tx_db_scheme \<Rightarrow> transition_row list" where
  "transition_rows oid db = filter (\<lambda>r. trow_operation_id r = oid) (bridge_transitions db)"

definition find_transition_row ::
  "interweave_id \<Rightarrow> string \<Rightarrow> 'r tx_db_scheme \<Rightarrow> transition_row option" where
  "find_transition_row oid key db =
     find (\<lambda>r. trow_operation_id r = oid \<and> trow_transition_key r = key) (bridge_transitions db)"

text \<open>\<open>INSERT INTO bridge_transitions\<close> with the constraints of the table.\<close>

definition insert_transition ::
  "pg_timestamp \<Rightarrow> transition_row \<Rightarrow> ('r tx_db_scheme, unit) comp" where
  "insert_transition pg_ts row db =
     (case pg_ts (trow_occurred_at row) of
        None \<Rightarrow> (Inl (SqlError ''timestamptz''), db)
      | Some at \<Rightarrow>
          if \<not> int4 (trow_sequence row) \<or> \<not> int4 (trow_attempt row)
          then (Inl (SqlError ''integer out of range''), db)
          else if trow_sequence row < 0 \<or> trow_attempt row \<le> 0 then (Inl (SqlError ''check''), db)
          else if find_transition_row (trow_operation_id row) (trow_transition_key row) db \<noteq> None
          then (Inl (SqlError ''primary key''), db)
          else if trow_sequence row \<in> set (map trow_sequence (transition_rows (trow_operation_id row) db))
          then (Inl (SqlError ''unique''), db)
          else if find_operation (trow_operation_id row) db = None
          then (Inl (SqlError ''foreign key''), db)
          else (Inr (), db\<lparr>bridge_transitions :=
                  bridge_transitions db @ [row\<lparr>trow_occurred_at := at\<rparr>]\<rparr>))"

text \<open>\<open>UPDATE bridge_operations SET state, version, operation WHERE id\<close>.\<close>

definition update_operation ::
  "interweave_id \<Rightarrow> bridge_state \<Rightarrow> int \<Rightarrow> durable_bridge_operation \<Rightarrow> ('r tx_db_scheme, unit) comp"
where
  "update_operation oid state version operation db =
     (Inr (), db\<lparr>bridge_operations := map (\<lambda>r. if orow_id r = oid
        then r\<lparr>orow_state := state, orow_version := version, orow_operation := operation\<rparr> else r)
        (bridge_operations db)\<rparr>)"

definition row_transition :: "transition_row \<Rightarrow> persisted_transition" where
  "row_transition row =
     \<lparr>tr_from = trow_from_state row, tr_to = trow_to_state row, tr_occurredAt = trow_occurred_at row,
      tr_reason = trow_reason row, tr_actor = trow_actor row,
      tr_transitionKey = trow_transition_key row, tr_sequence = trow_sequence row,
      tr_attempt = trow_attempt row\<rparr>"

section \<open>The PostgreSQL transaction store\<close>

text \<open>\<open>#load\<close>: the stored operation with its transitions in order of their sequence.\<close>

definition load_operation ::
  "interweave_id \<Rightarrow> 'r tx_db_scheme \<Rightarrow> durable_bridge_operation option" where
  "load_operation oid db =
     map_option (\<lambda>r. (orow_operation r)\<lparr>op_transitions :=
         map row_transition (sort_by (\<lambda>a b. trow_sequence a \<le> trow_sequence b) (transition_rows oid db))\<rparr>)
       (find_operation oid db)"

definition store_create ::
  "pg_timestamp \<Rightarrow> create_bridge_operation \<Rightarrow> persisted_transition
     \<Rightarrow> ('r tx_db_scheme, durable_bridge_operation) comp" where
  "store_create pg_ts input initial = transaction (\<lambda>db.
     let operation = \<lparr>op_id = cb_id input, op_idempotencyKey = cb_idempotencyKey input,
           op_assetId = cb_assetId input, op_sourceNetworkId = cb_sourceNetworkId input,
           op_destinationNetworkId = cb_destinationNetworkId input, op_sender = cb_sender input,
           op_receiver = cb_receiver input, op_amount = cb_amount input, op_state = CREATED,
           op_policyDecision = None, op_transitions = [], op_expiresAt = cb_expiresAt input,
           op_createdAt = cb_createdAt input, op_version = 0\<rparr>
     in if find_operation (cb_id input) db \<noteq> None
        then throw (RegistryError ALREADY_EXISTS (''operation already exists: '' @ cb_id input)) db
        else and_then
          (modify (\<lambda>db. db\<lparr>bridge_operations := bridge_operations db @
             [\<lparr>orow_id = cb_id input, orow_idempotency_key = cb_idempotencyKey input,
               orow_state = CREATED, orow_version = 0, orow_operation = operation\<rparr>]\<rparr>)) (\<lambda>_.
          and_then (insert_transition pg_ts
             \<lparr>trow_operation_id = cb_id input, trow_transition_key = tr_transitionKey initial,
              trow_sequence = 0, trow_attempt = tr_attempt initial, trow_from_state = None,
              trow_to_state = tr_to initial, trow_occurred_at = tr_occurredAt initial,
              trow_reason = tr_reason initial, trow_actor = tr_actor initial\<rparr>) (\<lambda>_.
          ret (operation\<lparr>op_transitions := [initial]\<rparr>))) db)"

definition store_get ::
  "interweave_id \<Rightarrow> ('r tx_db_scheme, durable_bridge_operation option) comp" where
  "store_get oid = transaction (gets (load_operation oid))"

definition store_find_transition ::
  "interweave_id \<Rightarrow> string \<Rightarrow> ('r tx_db_scheme, persisted_transition option) comp" where
  "store_find_transition operationId transitionKey =
     gets (\<lambda>db. map_option row_transition (find_transition_row operationId transitionKey db))"

definition store_append ::
  "pg_timestamp \<Rightarrow> transition_command \<Rightarrow> ('r tx_db_scheme, durable_bridge_operation) comp" where
  "store_append pg_ts command = transaction (\<lambda>db.
     case find_transition_row (cmd_operationId command) (cmd_transitionKey command) db of
       Some row \<Rightarrow>
         if trow_to_state row \<noteq> cmd_to command
         then throw (RegistryError CONFLICT ''transition key was reused with different content'') db
         else (case load_operation (cmd_operationId command) db of
             None \<Rightarrow> throw (RegistryError NOT_FOUND ''operation disappeared'') db
           | Some existing \<Rightarrow> ret existing db)
     | None \<Rightarrow>
         (case load_operation (cmd_operationId command) db of
            None \<Rightarrow> throw (RegistryError NOT_FOUND (''operation not found: '' @ cmd_operationId command)) db
          | Some operation \<Rightarrow>
              if op_version operation \<noteq> cmd_expectedVersion command
              then throw (RegistryError CONFLICT (''stale operation version: expected ''
                @ int_to_string (cmd_expectedVersion command) @ '', found ''
                @ int_to_string (op_version operation))) db
              else if \<not> can_transition (op_state operation) (cmd_to command)
              then throw (RegistryError CONFLICT (''illegal bridge transition: ''
                @ state_text (op_state operation) @ '' -> '' @ state_text (cmd_to command))) db
              else
                let sequence = op_version operation + 1;
                    policyDecision = (case cmd_policyDecision command of
                        Some d \<Rightarrow> Some d | None \<Rightarrow> op_policyDecision operation);
                    updated = operation\<lparr>op_state := cmd_to command, op_version := sequence,
                      op_transitions := [], op_policyDecision := policyDecision\<rparr>;
                    transition = \<lparr>tr_from = Some (op_state operation), tr_to = cmd_to command,
                      tr_occurredAt = cmd_occurredAt command, tr_reason = cmd_reason command,
                      tr_actor = cmd_actor command, tr_transitionKey = cmd_transitionKey command,
                      tr_sequence = sequence, tr_attempt = num_val (cmd_attempt command)\<rparr>
                in and_then (if \<not> is_safe_integer (cmd_attempt command)
                     then throw (SqlError ''integer'') else ret ()) (\<lambda>_.
                   and_then (insert_transition pg_ts
                     \<lparr>trow_operation_id = cmd_operationId command,
                      trow_transition_key = cmd_transitionKey command, trow_sequence = sequence,
                      trow_attempt = num_val (cmd_attempt command),
                      trow_from_state = Some (op_state operation), trow_to_state = cmd_to command,
                      trow_occurred_at = cmd_occurredAt command, trow_reason = cmd_reason command,
                      trow_actor = cmd_actor command\<rparr>) (\<lambda>_.
                   and_then (update_operation (cmd_operationId command) (cmd_to command) sequence updated)
                     (\<lambda>_. ret (updated\<lparr>op_transitions := op_transitions operation @ [transition]\<rparr>)))) db))"

text \<open>
  \<open>INSERT \<dots> ON CONFLICT (operation_id, attempt_key) DO UPDATE \<dots> WHERE record = EXCLUDED.record
  RETURNING record\<close>: a conflicting row is returned only when it holds the same record.
\<close>

definition store_record_attempt ::
  "pg_timestamp \<Rightarrow> transaction_attempt \<Rightarrow> ('r tx_db_scheme, transaction_attempt) comp" where
  "store_record_attempt pg_ts attempt db =
     (case pg_ts (ta_occurredAt attempt) of
        None \<Rightarrow> (Inl (SqlError ''timestamptz''), db)
      | Some at \<Rightarrow>
          if \<not> is_safe_integer (ta_attempt attempt) \<or> \<not> int4 (num_val (ta_attempt attempt))
          then (Inl (SqlError ''integer out of range''), db)
          else if num_val (ta_attempt attempt) \<le> 0
            \<or> ta_status attempt = FAILED \<and> ta_errorCode attempt = None
          then (Inl (SqlError ''check''), db)
          else (case find (\<lambda>r. arow_operation_id r = ta_operationId attempt
                      \<and> arow_attempt_key r = ta_attemptKey attempt) (transaction_attempts db) of
              Some row \<Rightarrow>
                if arow_record row = attempt then (Inr (arow_record row), db)
                else (Inl (RegistryError CONFLICT ''attempt key was reused with different content''), db)
            | None \<Rightarrow>
                if find_operation (ta_operationId attempt) db = None
                then (Inl (SqlError ''foreign key''), db)
                else (Inr attempt, db\<lparr>transaction_attempts := transaction_attempts db @
                  [\<lparr>arow_operation_id = ta_operationId attempt, arow_attempt_key = ta_attemptKey attempt,
                    arow_step = ta_step attempt, arow_attempt = num_val (ta_attempt attempt),
                    arow_status = ta_status attempt, arow_error_code = ta_errorCode attempt,
                    arow_occurred_at = at, arow_record = attempt\<rparr>]\<rparr>)))"

text \<open>
  \<open>ORDER BY attempt, occurred_at\<close>; \<open>ts_le\<close> is the order of the \<open>timestamptz\<close> values the column
  returns.
\<close>

definition store_list_attempts ::
  "(string \<Rightarrow> string \<Rightarrow> bool) \<Rightarrow> interweave_id \<Rightarrow> ('r tx_db_scheme, transaction_attempt list) comp"
where
  "store_list_attempts ts_le operationId = gets (\<lambda>db.
     map arow_record (sort_by (\<lambda>a b. arow_attempt a < arow_attempt b
         \<or> arow_attempt a = arow_attempt b \<and> ts_le (arow_occurred_at a) (arow_occurred_at b))
       (filter (\<lambda>r. arow_operation_id r = operationId) (transaction_attempts db))))"

section \<open>The engine\<close>

text \<open>
  \<open>Date.parse(expiresAt) <= Date.parse(createdAt)\<close>, which is false when either side is \<open>NaN\<close>.
\<close>

definition engine_create ::
  "pg_timestamp \<Rightarrow> create_bridge_operation \<Rightarrow> ('r tx_db_scheme, durable_bridge_operation) comp"
where
  "engine_create pg_ts input =
     and_then (lift_result (assert_positive_amount (cb_amount input))) (\<lambda>_.
     if cb_sourceNetworkId input = cb_destinationNetworkId input
     then throw (RegistryError INVALID_ARGUMENT ''bridge networks must differ'')
     else if blank (cb_idempotencyKey input) \<or> blank (cb_actor input)
     then throw (RegistryError INVALID_ARGUMENT ''idempotency key and actor are required'')
     else if date_parse (cb_createdAt input) = None
       \<or> time_le (cb_expiresAt input) (cb_createdAt input)
     then throw (RegistryError INVALID_ARGUMENT ''operation expiry must be after creation'')
     else store_create pg_ts input
       \<lparr>tr_from = None, tr_to = CREATED, tr_occurredAt = cb_createdAt input,
        tr_reason = ''operation created'', tr_actor = cb_actor input,
        tr_transitionKey = cb_id input @ '':created'', tr_sequence = 0, tr_attempt = 1\<rparr>)"

definition allows :: "policy_decision option \<Rightarrow> bool" where
  "allows d \<longleftrightarrow> (case d of None \<Rightarrow> False | Some p \<Rightarrow> pd_outcome p = ALLOW)"

definition engine_transition ::
  "pg_timestamp \<Rightarrow> transition_command \<Rightarrow> ('r tx_db_scheme, durable_bridge_operation) comp" where
  "engine_transition pg_ts command =
     (if blank (cmd_transitionKey command) \<or> blank (cmd_actor command) \<or> blank (cmd_reason command)
      then throw (RegistryError INVALID_ARGUMENT ''transition key, actor, and reason are required'')
      else if not_safe_at_least (cmd_attempt command) 1
      then throw (RegistryError INVALID_ARGUMENT ''transition attempt must be positive'')
      else and_then (store_get (cmd_operationId command)) (\<lambda>loaded.
        case loaded of
          None \<Rightarrow> throw (RegistryError NOT_FOUND (''operation not found: '' @ cmd_operationId command))
        | Some operation \<Rightarrow>
            if \<not> can_transition (op_state operation) (cmd_to command)
            then and_then (store_find_transition (cmd_operationId command) (cmd_transitionKey command))
              (\<lambda>existing. if map_option tr_to existing = Some (cmd_to command) then ret operation
                 else throw (RegistryError CONFLICT (''illegal bridge transition: ''
                   @ state_text (op_state operation) @ '' -> '' @ state_text (cmd_to command))))
            else if cmd_to command = POLICY_CHECKED \<and> \<not> allows (cmd_policyDecision command)
            then throw (RegistryError INVALID_ARGUMENT ''POLICY_CHECKED requires an ALLOW decision'')
            else if cmd_to command = POLICY_REJECTED
              \<and> (cmd_policyDecision command = None \<or> allows (cmd_policyDecision command))
            then throw (RegistryError INVALID_ARGUMENT ''POLICY_REJECTED requires a non-ALLOW decision'')
            else store_append pg_ts command))"

definition engine_record_attempt ::
  "pg_timestamp \<Rightarrow> transaction_attempt \<Rightarrow> ('r tx_db_scheme, transaction_attempt) comp" where
  "engine_record_attempt pg_ts attempt =
     (if blank (ta_attemptKey attempt) \<or> blank (ta_step attempt)
        \<or> not_safe_at_least (ta_attempt attempt) 1
      then throw (RegistryError INVALID_ARGUMENT ''valid attempt key, step, and number are required'')
      else if ta_status attempt = FAILED \<and> (ta_errorCode attempt = None \<or> ta_errorCode attempt = Some [])
      then throw (RegistryError INVALID_ARGUMENT ''failed attempts require an error code'')
      else store_record_attempt pg_ts attempt)"

end
