(* ===== verification/State_Graph.thy ===== *)
theory State_Graph
  imports Prelude
begin

text \<open>
  The contract of a closed transition graph, shared by the bridge operations and the settlement
  sagas: a start state, the allowed moves, and a rank that every move increases. What the clients
  need follows once and for all: a history never visits a state twice, never goes back, and has at
  most as many entries as there are ranks.
\<close>

locale ranked_graph =
  fixes start :: 's
    and can :: "'s \<Rightarrow> 's \<Rightarrow> bool"
    and rank :: "'s \<Rightarrow> nat"
  assumes rank_start: "rank start = 0"
    and can_rank: "can a b \<Longrightarrow> rank a < rank b"
begin

inductive walk :: "'s list \<Rightarrow> bool" where
  walk_start: "walk [start]"
| walk_step: "walk h \<Longrightarrow> can (last h) s \<Longrightarrow> walk (h @ [s])"

lemma walk_not_Nil: "walk h \<Longrightarrow> h \<noteq> []"
  by (induction rule: walk.induct) auto

lemma walk_hd: "walk h \<Longrightarrow> hd h = start"
  by (induction rule: walk.induct) (use walk_not_Nil in simp_all)

lemma walk_sorted: "walk h \<Longrightarrow> s \<in> set h \<Longrightarrow> rank s \<le> rank (last h)"
  by (induction rule: walk.induct) (auto dest!: can_rank)

lemma walk_length: "walk h \<Longrightarrow> length h \<le> Suc (rank (last h))"
  by (induction rule: walk.induct) (auto dest!: can_rank)

lemma walk_distinct: "walk h \<Longrightarrow> distinct h"
proof (induction rule: walk.induct)
  case (walk_step h s)
  then show ?case using walk_sorted [OF walk_step.hyps(1)] can_rank by fastforce
qed simp

lemma visited_blocks: "walk h \<Longrightarrow> s \<in> set h \<Longrightarrow> \<not> can (last h) s"
  using walk_sorted can_rank by fastforce

end

end
