(* ===== verification/Transaction_Safety.thy ===== *)
theory Transaction_Safety
  imports Transaction_Engine State_Graph
begin

text \<open>
  The invariant of the transaction tables and what it gives: the transition graph leaves only one
  way to completion, every store operation keeps the tables well formed, and every operation that
  can be loaded after any interleaving of engine calls passes the checks of invariants.ts.
\<close>

section \<open>The shape of the transition graph\<close>

definition main_path :: "bridge_state list" where
  "main_path = [CREATED, POLICY_CHECKED, SOURCE_PREPARING, SOURCE_SUBMITTED, SOURCE_CONFIRMED,
     SOURCE_FINALIZED, ATTESTATION_PENDING, ATTESTED, DESTINATION_PREPARING,
     DESTINATION_SUBMITTED, DESTINATION_CONFIRMED, DESTINATION_FINALIZED,
     RECONCILIATION_PENDING, RECONCILED, COMPLETED]"

definition failed_state :: "bridge_state \<Rightarrow> bool" where
  "failed_state s \<longleftrightarrow> s \<in> set terminal \<and> s \<noteq> COMPLETED"

text \<open>The position on the main path; a failed state is behind all of them.\<close>

fun rank :: "bridge_state \<Rightarrow> nat" where
  "rank CREATED = 0"
| "rank POLICY_CHECKED = 1"
| "rank SOURCE_PREPARING = 2"
| "rank SOURCE_SUBMITTED = 3"
| "rank SOURCE_CONFIRMED = 4"
| "rank SOURCE_FINALIZED = 5"
| "rank ATTESTATION_PENDING = 6"
| "rank ATTESTED = 7"
| "rank DESTINATION_PREPARING = 8"
| "rank DESTINATION_SUBMITTED = 9"
| "rank DESTINATION_CONFIRMED = 10"
| "rank DESTINATION_FINALIZED = 11"
| "rank RECONCILIATION_PENDING = 12"
| "rank RECONCILED = 13"
| "rank COMPLETED = 14"
| "rank _ = 15"

lemma rank_le: "rank s \<le> 15"
  by (cases s) simp_all

lemma main_path_rank: "\<not> failed_state s \<Longrightarrow> rank s < length main_path \<and> main_path ! rank s = s"
  by (cases s) (simp_all add: failed_state_def terminal_def main_path_def)

lemma can_transition_rank: "can_transition a b \<Longrightarrow> rank a < rank b"
  by (cases a; cases b) (simp_all add: can_transition_def terminal_def)

lemma can_transition_next:
  "can_transition a b \<Longrightarrow> \<not> failed_state b \<Longrightarrow> \<not> failed_state a \<and> rank b = Suc (rank a)"
  by (cases a; cases b) (simp_all add: can_transition_def failed_state_def terminal_def)

lemma terminal_final: "a \<in> set terminal \<Longrightarrow> \<not> can_transition a b"
  by (simp add: can_transition_def)

lemma not_terminal_moves: "a \<notin> set terminal \<Longrightarrow> can_transition a MANUAL_REVIEW \<and> can_transition a EXPIRED"
  by (simp add: can_transition_def)

interpretation bridge: ranked_graph CREATED can_transition rank
  by unfold_locales (simp_all add: can_transition_rank)

lemma walk_main_path:
  "bridge.walk h \<Longrightarrow> \<not> failed_state (last h) \<Longrightarrow> h = take (Suc (rank (last h))) main_path"
proof (induction rule: bridge.walk.induct)
  case walk_start
  then show ?case by (simp add: main_path_def)
next
  case (walk_step h s)
  then have s: "\<not> failed_state s" by simp
  from can_transition_next [OF walk_step.hyps(2) s]
  have next_s: "rank s = Suc (rank (last h))" and h: "h = take (rank s) main_path"
    using walk_step.IH by auto
  from main_path_rank [OF s] show ?case
    by (subst h) (simp add: take_Suc_conv_app_nth)
qed

lemma walk_failed:
  assumes "bridge.walk h" "failed_state (last h)"
  shows "\<exists>n. 0 < n \<and> n < 15 \<and> h = take n main_path @ [last h]"
  using assms
proof (cases rule: bridge.walk.cases)
  case (walk_step h' s)
  have nf: "\<not> failed_state (last h')" "rank (last h') < 14"
    using walk_step(3) by (cases "last h'"; simp add: can_transition_def failed_state_def terminal_def)+
  have "h' = take (Suc (rank (last h'))) main_path"
    using walk_main_path [OF walk_step(2) nf(1)] .
  then show ?thesis
    using walk_step nf by (intro exI [of _ "Suc (rank (last h'))"]) simp
qed (simp add: failed_state_def terminal_def)

lemma walk_prefix:
  assumes "bridge.walk h" "s \<in> set h" "\<not> failed_state s"
  shows "set (take (Suc (rank s)) main_path) \<subseteq> set h"
  using assms
proof (induction rule: bridge.walk.induct)
  case walk_start
  then show ?case by (simp add: main_path_def)
next
  case (walk_step h s')
  show ?case
  proof (cases "s \<in> set h")
    case False
    then have "s = s'" using walk_step.prems(1) by simp
    with walk_main_path [OF bridge.walk_step [OF walk_step.hyps]] walk_step.prems(2)
    show ?thesis by (metis last_snoc order_refl)
  qed (use walk_step in auto)
qed

section \<open>The invariant of the tables\<close>

definition row_ok :: "transition_row list \<Rightarrow> operation_row \<Rightarrow> bool" where
  "row_ok rows r \<longleftrightarrow>
     op_id (orow_operation r) = orow_id r
     \<and> op_idempotencyKey (orow_operation r) = orow_idempotency_key r
     \<and> op_state (orow_operation r) = orow_state r
     \<and> op_version (orow_operation r) = orow_version r
     \<and> op_transitions (orow_operation r) = []
     \<and> assert_positive_amount (op_amount (orow_operation r)) = Inr ()
     \<and> op_sourceNetworkId (orow_operation r) \<noteq> op_destinationNetworkId (orow_operation r)
     \<and> \<not> blank (orow_idempotency_key r)
     \<and> orow_version r + 1 = int (length rows)
     \<and> map trow_sequence rows = map int [0..<length rows]
     \<and> linked None (map row_transition rows)
     \<and> bridge.walk (map trow_to_state rows)
     \<and> trow_to_state (last rows) = orow_state r"

definition tx_wf :: "'r tx_db_scheme \<Rightarrow> bool" where
  "tx_wf db \<longleftrightarrow>
     distinct (map orow_id (bridge_operations db))
     \<and> (\<forall>r \<in> set (bridge_operations db). row_ok (transition_rows (orow_id r) db) r)
     \<and> (\<forall>t \<in> set (bridge_transitions db). \<exists>r \<in> set (bridge_operations db). orow_id r = trow_operation_id t)
     \<and> (\<forall>t \<in> set (transaction_attempts db).
          \<exists>r \<in> set (bridge_operations db). orow_id r = arow_operation_id t)
     \<and> distinct (map (\<lambda>t. (trow_operation_id t, trow_transition_key t)) (bridge_transitions db))
     \<and> distinct (map (\<lambda>t. (arow_operation_id t, arow_attempt_key t)) (transaction_attempts db))"

lemma find_SomeD: "find P xs = Some x \<Longrightarrow> x \<in> set xs \<and> P x"
  by (auto simp: find_Some_iff)

lemma find_operation_Some:
  "find_operation oid db = Some r \<Longrightarrow> r \<in> set (bridge_operations db) \<and> orow_id r = oid"
  by (auto simp: find_operation_def dest: find_SomeD)

lemma find_operation_None:
  "find_operation oid db = None \<longleftrightarrow> (\<forall>r \<in> set (bridge_operations db). orow_id r \<noteq> oid)"
  by (auto simp: find_operation_def find_None_iff)

lemma find_operation_row:
  assumes "tx_wf db" "r \<in> set (bridge_operations db)"
  shows "find_operation (orow_id r) db = Some r"
proof -
  obtain r' where r': "find_operation (orow_id r) db = Some r'"
    using assms(2) find_operation_None [of "orow_id r" db] by (cases "find_operation (orow_id r) db") auto
  then show ?thesis
    using assms find_operation_Some [OF r'] by (auto simp: tx_wf_def distinct_map inj_on_def)
qed

lemma empty_tx_wf: "tx_wf empty_tx_db"
  by (simp add: tx_wf_def empty_tx_db_def)

lemma sort_by_sorted: "sorted_wrt le xs \<Longrightarrow> sort_by le xs = xs"
proof (induction xs)
  case (Cons x xs)
  then show ?case by (cases xs) simp_all
qed simp

lemma load_operation_wf:
  assumes "tx_wf db"
  shows "load_operation oid db = map_option
    (\<lambda>r. (orow_operation r)\<lparr>op_transitions := map row_transition (transition_rows oid db)\<rparr>)
    (find_operation oid db)"
proof (cases "find_operation oid db")
  case (Some r)
  have "row_ok (transition_rows oid db) r"
    using assms find_operation_Some [OF Some] by (auto simp: tx_wf_def)
  then have "map trow_sequence (transition_rows oid db) = map int [0..<length (transition_rows oid db)]"
    by (simp add: row_ok_def)
  then have "sorted_wrt (\<le>) (map trow_sequence (transition_rows oid db))"
    by (simp add: sorted_wrt_map sorted_wrt_upt)
  then have "sort_by (\<lambda>a b. trow_sequence a \<le> trow_sequence b) (transition_rows oid db)
      = transition_rows oid db"
    by (intro sort_by_sorted) (simp add: sorted_wrt_map)
  then show ?thesis by (simp add: load_operation_def)
qed (simp add: load_operation_def)


section \<open>Every operation keeps the invariant\<close>

lemma insert_transition_cases:
  "insert_transition pg_ts row db = (r, db') \<Longrightarrow>
     (\<exists>e. r = Inl e \<and> db' = db)
     \<or> (\<exists>at. r = Inr () \<and> pg_ts (trow_occurred_at row) = Some at
          \<and> find_transition_row (trow_operation_id row) (trow_transition_key row) db = None
          \<and> find_operation (trow_operation_id row) db \<noteq> None \<and> 0 < trow_attempt row
          \<and> db' = db\<lparr>bridge_transitions := bridge_transitions db @ [row\<lparr>trow_occurred_at := at\<rparr>]\<rparr>)"
  by (auto simp: insert_transition_def split: option.splits if_splits)

lemma transaction_Inl: "transaction m s = (Inl e, s') \<Longrightarrow> s' = s"
  by (auto simp: transaction_def split: prod.splits sum.splits)

lemma transaction_Inr: "transaction m s = (Inr x, s') \<longleftrightarrow> m s = (Inr x, s')"
  by (auto simp: transaction_def split: prod.splits sum.splits)

definition created_operation :: "create_bridge_operation \<Rightarrow> durable_bridge_operation" where
  "created_operation input =
     \<lparr>op_id = cb_id input, op_idempotencyKey = cb_idempotencyKey input,
      op_assetId = cb_assetId input, op_sourceNetworkId = cb_sourceNetworkId input,
      op_destinationNetworkId = cb_destinationNetworkId input, op_sender = cb_sender input,
      op_receiver = cb_receiver input, op_amount = cb_amount input, op_state = CREATED,
      op_policyDecision = None, op_transitions = [], op_expiresAt = cb_expiresAt input,
      op_createdAt = cb_createdAt input, op_version = 0\<rparr>"

definition created_db ::
  "create_bridge_operation \<Rightarrow> persisted_transition \<Rightarrow> string \<Rightarrow> 'r tx_db_scheme \<Rightarrow> 'r tx_db_scheme" where
  "created_db input initial at db = db\<lparr>
     bridge_operations := bridge_operations db @
       [\<lparr>orow_id = cb_id input, orow_idempotency_key = cb_idempotencyKey input,
         orow_state = CREATED, orow_version = 0, orow_operation = created_operation input\<rparr>],
     bridge_transitions := bridge_transitions db @
       [\<lparr>trow_operation_id = cb_id input, trow_transition_key = tr_transitionKey initial,
         trow_sequence = 0, trow_attempt = tr_attempt initial, trow_from_state = None,
         trow_to_state = tr_to initial, trow_occurred_at = at,
         trow_reason = tr_reason initial, trow_actor = tr_actor initial\<rparr>]\<rparr>"

lemma store_create_cases:
  "store_create pg_ts input initial db = (r, db') \<Longrightarrow>
     (\<exists>e. r = Inl e \<and> db' = db)
     \<or> (\<exists>at. r = Inr ((created_operation input)\<lparr>op_transitions := [initial]\<rparr>)
          \<and> pg_ts (tr_occurredAt initial) = Some at
          \<and> find_operation (cb_id input) db = None \<and> db' = created_db input initial at db)"
  by (cases r)
    (auto simp: store_create_def transaction_def and_then_def Let_def created_operation_def
      created_db_def split: if_splits prod.splits sum.splits dest!: insert_transition_cases)

definition appended_operation ::
  "transition_command \<Rightarrow> durable_bridge_operation \<Rightarrow> durable_bridge_operation" where
  "appended_operation command operation = operation\<lparr>op_state := cmd_to command,
     op_version := op_version operation + 1, op_transitions := [],
     op_policyDecision := (case cmd_policyDecision command of
         Some d \<Rightarrow> Some d | None \<Rightarrow> op_policyDecision operation)\<rparr>"

definition appended_row ::
  "transition_command \<Rightarrow> durable_bridge_operation \<Rightarrow> string \<Rightarrow> transition_row" where
  "appended_row command operation at =
     \<lparr>trow_operation_id = cmd_operationId command, trow_transition_key = cmd_transitionKey command,
      trow_sequence = op_version operation + 1, trow_attempt = num_val (cmd_attempt command),
      trow_from_state = Some (op_state operation), trow_to_state = cmd_to command,
      trow_occurred_at = at, trow_reason = cmd_reason command, trow_actor = cmd_actor command\<rparr>"

definition appended_db ::
  "transition_command \<Rightarrow> durable_bridge_operation \<Rightarrow> string \<Rightarrow> 'r tx_db_scheme \<Rightarrow> 'r tx_db_scheme" where
  "appended_db command operation at db = db\<lparr>
     bridge_operations := map (\<lambda>r. if orow_id r = cmd_operationId command
       then r\<lparr>orow_state := cmd_to command, orow_version := op_version operation + 1,
              orow_operation := appended_operation command operation\<rparr> else r) (bridge_operations db),
     bridge_transitions := bridge_transitions db @ [appended_row command operation at]\<rparr>"

definition append_guard :: "transition_command \<Rightarrow> durable_bridge_operation \<Rightarrow> 'r tx_db_scheme \<Rightarrow> bool" where
  "append_guard command operation db \<longleftrightarrow>
     find_transition_row (cmd_operationId command) (cmd_transitionKey command) db = None
     \<and> load_operation (cmd_operationId command) db = Some operation
     \<and> op_version operation = cmd_expectedVersion command
     \<and> can_transition (op_state operation) (cmd_to command)"

lemma store_append_cases:
  "store_append pg_ts command db = (r, db') \<Longrightarrow>
     (\<exists>e. r = Inl e \<and> db' = db)
     \<or> (\<exists>row existing. find_transition_row (cmd_operationId command) (cmd_transitionKey command) db = Some row
          \<and> trow_to_state row = cmd_to command
          \<and> load_operation (cmd_operationId command) db = Some existing \<and> r = Inr existing \<and> db' = db)
     \<or> (\<exists>operation at. append_guard command operation db \<and> pg_ts (cmd_occurredAt command) = Some at
          \<and> r = Inr ((appended_operation command operation)\<lparr>op_transitions :=
                op_transitions operation @ [(row_transition (appended_row command operation at))
                  \<lparr>tr_occurredAt := cmd_occurredAt command\<rparr>]\<rparr>)
          \<and> db' = appended_db command operation at db)"
  by (cases r)
    (auto simp: store_append_def transaction_def and_then_def Let_def append_guard_def
      update_operation_def appended_operation_def appended_row_def appended_db_def row_transition_def
      split: if_splits prod.splits sum.splits option.splits dest!: insert_transition_cases)

definition recorded_row :: "transaction_attempt \<Rightarrow> string \<Rightarrow> attempt_row" where
  "recorded_row attempt at =
     \<lparr>arow_operation_id = ta_operationId attempt, arow_attempt_key = ta_attemptKey attempt,
      arow_step = ta_step attempt, arow_attempt = num_val (ta_attempt attempt),
      arow_status = ta_status attempt, arow_error_code = ta_errorCode attempt,
      arow_occurred_at = at, arow_record = attempt\<rparr>"

lemma store_record_attempt_cases:
  "store_record_attempt pg_ts attempt db = (r, db') \<Longrightarrow>
     db' = db
     \<or> (\<exists>at. r = Inr attempt \<and> find_operation (ta_operationId attempt) db \<noteq> None
          \<and> (\<forall>t \<in> set (transaction_attempts db).
               arow_operation_id t = ta_operationId attempt \<longrightarrow> arow_attempt_key t \<noteq> ta_attemptKey attempt)
          \<and> db' = db\<lparr>transaction_attempts := transaction_attempts db @ [recorded_row attempt at]\<rparr>)"
  by (auto simp: store_record_attempt_def recorded_row_def find_None_iff split: option.splits if_splits)

lemma transition_rows_created [simp]:
  "transition_rows oid (created_db input initial at db) = transition_rows oid db @
     (if oid = cb_id input then [\<lparr>trow_operation_id = cb_id input,
         trow_transition_key = tr_transitionKey initial, trow_sequence = 0,
         trow_attempt = tr_attempt initial, trow_from_state = None, trow_to_state = tr_to initial,
         trow_occurred_at = at, trow_reason = tr_reason initial, trow_actor = tr_actor initial\<rparr>] else [])"
  by (simp add: transition_rows_def created_db_def)

lemma transition_rows_appended [simp]:
  "transition_rows oid (appended_db command operation at db) = transition_rows oid db @
     (if oid = cmd_operationId command then [appended_row command operation at] else [])"
  by (simp add: transition_rows_def appended_db_def appended_row_def)

lemma transition_rows_fresh:
  "tx_wf db \<Longrightarrow> find_operation oid db = None \<Longrightarrow> transition_rows oid db = []"
  by (auto simp: tx_wf_def find_operation_None transition_rows_def filter_empty_conv)

lemma created_wf:
  assumes wf: "tx_wf db" and fresh: "find_operation (cb_id input) db = None"
    and ok: "assert_positive_amount (cb_amount input) = Inr ()"
      "cb_sourceNetworkId input \<noteq> cb_destinationNetworkId input" "\<not> blank (cb_idempotencyKey input)"
    and initial: "tr_to initial = CREATED"
  shows "tx_wf (created_db input initial at db)"
proof -
  have rows: "transition_rows (cb_id input) db = []"
    using transition_rows_fresh [OF wf fresh] .
  have old: "orow_id r \<noteq> cb_id input" if "r \<in> set (bridge_operations db)" for r
    using that fresh by (simp add: find_operation_None)
  have tfresh: "trow_operation_id t \<noteq> cb_id input" if "t \<in> set (bridge_transitions db)" for t
    using rows that by (auto simp: transition_rows_def filter_empty_conv)
  have row: "row_ok (transition_rows (orow_id r) (created_db input initial at db)) r"
    if r: "r \<in> set (bridge_operations (created_db input initial at db))" for r
  proof (cases "r \<in> set (bridge_operations db)")
    case True
    then show ?thesis using wf old [OF True] by (simp add: tx_wf_def)
  next
    case False
    then have "r = \<lparr>orow_id = cb_id input, orow_idempotency_key = cb_idempotencyKey input,
        orow_state = CREATED, orow_version = 0, orow_operation = created_operation input\<rparr>"
      using r by (simp add: created_db_def)
    then show ?thesis
      using ok initial rows bridge.walk_start
      by (simp add: row_ok_def created_operation_def row_transition_def)
  qed
  then show ?thesis
    using wf old tfresh by (fastforce simp: tx_wf_def created_db_def)
qed

lemma loaded_operation:
  assumes wf: "tx_wf db" and load: "load_operation oid db = Some operation"
  obtains r where "r \<in> set (bridge_operations db)" "orow_id r = oid"
    "row_ok (transition_rows oid db) r" "find_operation oid db = Some r"
    "operation = (orow_operation r)\<lparr>op_transitions := map row_transition (transition_rows oid db)\<rparr>"
proof -
  from load wf obtain r where r: "find_operation oid db = Some r"
    "operation = (orow_operation r)\<lparr>op_transitions := map row_transition (transition_rows oid db)\<rparr>"
    by (auto simp: load_operation_wf)
  with find_operation_Some [OF r(1)] wf that show thesis by (auto simp: tx_wf_def)
qed

lemma row_ok_append:
  assumes "row_ok rows r" "op = (orow_operation r)\<lparr>op_transitions := ts\<rparr>"
    and step: "can_transition (op_state op) (cmd_to command)"
  shows "row_ok (rows @ [appended_row command op at])
    (r\<lparr>orow_state := cmd_to command, orow_version := op_version op + 1,
       orow_operation := appended_operation command op\<rparr>)"
proof -
  have rows: "rows \<noteq> []" using assms(1) bridge.walk_not_Nil by (fastforce simp: row_ok_def)
  then have "last (map trow_to_state rows) = op_state op"
    using assms(1,2) by (simp add: row_ok_def last_map)
  then have "bridge.walk (map trow_to_state rows @ [cmd_to command])"
    using assms(1) step by (intro bridge.walk_step) (auto simp: row_ok_def)
  then show ?thesis
    using assms rows
    by (simp add: row_ok_def appended_row_def appended_operation_def linked_snoc row_transition_def
        last_map)
qed

lemma appended_wf:
  assumes wf: "tx_wf db" and g: "append_guard command op db"
  shows "tx_wf (appended_db command op at db)"
proof -
  let ?oid = "cmd_operationId command" and ?db = "appended_db command op at db"
  have load: "load_operation ?oid db = Some op" using g by (simp add: append_guard_def)
  obtain r0 where r0: "r0 \<in> set (bridge_operations db)" "orow_id r0 = ?oid"
      "row_ok (transition_rows ?oid db) r0"
      "op = (orow_operation r0)\<lparr>op_transitions := map row_transition (transition_rows ?oid db)\<rparr>"
    by (rule loaded_operation [OF wf load])
  have uniq: "r = r0" if "r \<in> set (bridge_operations db)" "orow_id r = ?oid" for r
    using wf r0(1,2) that by (auto simp: tx_wf_def distinct_map inj_on_def)
  have ids: "map orow_id (bridge_operations ?db) = map orow_id (bridge_operations db)"
    by (simp add: appended_db_def)
  then have idset: "orow_id ` set (bridge_operations ?db) = orow_id ` set (bridge_operations db)"
    by (metis list.set_map)
  have rows: "row_ok (transition_rows (orow_id r) ?db) r" if r: "r \<in> set (bridge_operations ?db)" for r
  proof -
    from r obtain q where q: "q \<in> set (bridge_operations db)" "r = (if orow_id q = ?oid
        then q\<lparr>orow_state := cmd_to command, orow_version := op_version op + 1,
              orow_operation := appended_operation command op\<rparr> else q)"
      by (auto simp: appended_db_def)
    show ?thesis
    proof (cases "orow_id q = ?oid")
      case True
      then have "q = r0" using uniq q by simp
      then show ?thesis
        using row_ok_append [OF r0(3,4), of command at] g q True by (simp add: append_guard_def)
    next
      case False
      then show ?thesis using wf q by (simp add: tx_wf_def)
    qed
  qed
  have keys: "(?oid, cmd_transitionKey command) \<notin>
      (\<lambda>t. (trow_operation_id t, trow_transition_key t)) ` set (bridge_transitions db)"
    using g by (auto simp: append_guard_def find_transition_row_def find_None_iff)
  have fk: "\<exists>r \<in> set (bridge_operations ?db). orow_id r = i"
    if "\<exists>r \<in> set (bridge_operations db). orow_id r = i" for i
    using that idset by (metis imageE image_eqI)
  have "\<forall>t \<in> set (bridge_transitions ?db). \<exists>r \<in> set (bridge_operations ?db). orow_id r = trow_operation_id t"
    using wf fk r0(1,2) by (auto simp: tx_wf_def appended_db_def appended_row_def)
  moreover have "\<forall>t \<in> set (transaction_attempts ?db). \<exists>r \<in> set (bridge_operations ?db). orow_id r = arow_operation_id t"
    using wf fk by (simp add: tx_wf_def appended_db_def)
  moreover have "distinct (map (\<lambda>t. (trow_operation_id t, trow_transition_key t)) (bridge_transitions ?db))"
    using wf keys by (simp add: tx_wf_def appended_db_def appended_row_def)
  ultimately show ?thesis
    using wf rows ids by (simp add: tx_wf_def) (simp add: appended_db_def)
qed

lemma recorded_wf:
  assumes "tx_wf db" "find_operation (ta_operationId attempt) db \<noteq> None"
    and "\<forall>t \<in> set (transaction_attempts db).
      arow_operation_id t = ta_operationId attempt \<longrightarrow> arow_attempt_key t \<noteq> ta_attemptKey attempt"
  shows "tx_wf (db\<lparr>transaction_attempts := transaction_attempts db @ [recorded_row attempt at]\<rparr>)"
  using assms
  by (auto simp: tx_wf_def recorded_row_def transition_rows_def find_operation_None)


section \<open>Engine calls and interleavings\<close>

definition initial_transition :: "create_bridge_operation \<Rightarrow> persisted_transition" where
  "initial_transition input =
     \<lparr>tr_from = None, tr_to = CREATED, tr_occurredAt = cb_createdAt input,
      tr_reason = ''operation created'', tr_actor = cb_actor input,
      tr_transitionKey = cb_id input @ '':created'', tr_sequence = 0, tr_attempt = 1\<rparr>"

definition create_guard :: "create_bridge_operation \<Rightarrow> bool" where
  "create_guard input \<longleftrightarrow>
     assert_positive_amount (cb_amount input) = Inr ()
     \<and> cb_sourceNetworkId input \<noteq> cb_destinationNetworkId input
     \<and> \<not> blank (cb_idempotencyKey input) \<and> \<not> blank (cb_actor input)
     \<and> date_parse (cb_createdAt input) \<noteq> None
     \<and> \<not> time_le (cb_expiresAt input) (cb_createdAt input)"

lemma engine_create_guarded:
  "create_guard input \<Longrightarrow>
     engine_create pg_ts input db = store_create pg_ts input (initial_transition input) db"
  by (auto simp: engine_create_def create_guard_def initial_transition_def and_then_def)

lemma engine_create_refused: "\<not> create_guard input \<Longrightarrow> \<exists>e. engine_create pg_ts input db = (Inl e, db)"
  by (cases "assert_positive_amount (cb_amount input)")
    (auto simp: engine_create_def create_guard_def and_then_def)

lemma engine_create_cases:
  assumes "engine_create pg_ts input db = (r, db')"
  shows "(\<exists>e. r = Inl e \<and> db' = db)
     \<or> (\<exists>at. create_guard input \<and> find_operation (cb_id input) db = None
          \<and> pg_ts (cb_createdAt input) = Some at
          \<and> r = Inr ((created_operation input)\<lparr>op_transitions := [initial_transition input]\<rparr>)
          \<and> db' = created_db input (initial_transition input) at db)"
proof (cases "create_guard input")
  case True
  have occ: "tr_occurredAt (initial_transition input) = cb_createdAt input"
    by (simp add: initial_transition_def)
  from True assms have "store_create pg_ts input (initial_transition input) db = (r, db')"
    by (simp add: engine_create_guarded)
  from store_create_cases [OF this] True occ show ?thesis by auto
next
  case False
  from engine_create_refused [OF this] obtain e where "engine_create pg_ts input db = (Inl e, db)"
    by blast
  with assms show ?thesis by auto
qed

definition policy_guard :: "transition_command \<Rightarrow> bool" where
  "policy_guard command \<longleftrightarrow>
     (cmd_to command = POLICY_CHECKED \<longrightarrow> allows (cmd_policyDecision command))
     \<and> (cmd_to command = POLICY_REJECTED \<longrightarrow>
          cmd_policyDecision command \<noteq> None \<and> \<not> allows (cmd_policyDecision command))"

definition returned_operation ::
  "transition_command \<Rightarrow> durable_bridge_operation \<Rightarrow> string \<Rightarrow> durable_bridge_operation" where
  "returned_operation command operation at =
     (appended_operation command operation)\<lparr>op_transitions := op_transitions operation @
        [(row_transition (appended_row command operation at))\<lparr>tr_occurredAt := cmd_occurredAt command\<rparr>]\<rparr>"

lemma engine_transition_cases:
  "engine_transition pg_ts command db = (r, db') \<Longrightarrow>
     db' = db \<and> (\<forall>op. r = Inr op \<longrightarrow> load_operation (cmd_operationId command) db = Some op
        \<and> (\<exists>row. find_transition_row (cmd_operationId command) (cmd_transitionKey command) db = Some row
             \<and> trow_to_state row = cmd_to command))
     \<or> (\<exists>op at. append_guard command op db \<and> policy_guard command
          \<and> pg_ts (cmd_occurredAt command) = Some at \<and> r = Inr (returned_operation command op at)
          \<and> db' = appended_db command op at db)"
  by (auto simp: engine_transition_def store_get_def store_find_transition_def and_then_def
      transaction_def policy_guard_def row_transition_def returned_operation_def
      split: if_splits option.splits dest!: store_append_cases)

inductive tx_step :: "pg_timestamp \<Rightarrow> 'r tx_db_scheme \<Rightarrow> 'r tx_db_scheme \<Rightarrow> bool" for pg_ts where
  step_create: "engine_create pg_ts input db = (r, db') \<Longrightarrow> tx_step pg_ts db db'"
| step_transition: "engine_transition pg_ts command db = (r, db') \<Longrightarrow> tx_step pg_ts db db'"
| step_attempt: "engine_record_attempt pg_ts attempt db = (r, db') \<Longrightarrow> tx_step pg_ts db db'"

inductive tx_steps :: "pg_timestamp \<Rightarrow> 'r tx_db_scheme \<Rightarrow> 'r tx_db_scheme \<Rightarrow> bool" for pg_ts where
  tx_refl: "tx_steps pg_ts db db"
| tx_more: "tx_steps pg_ts db db' \<Longrightarrow> tx_step pg_ts db' db'' \<Longrightarrow> tx_steps pg_ts db db''"

lemma engine_record_attempt_cases:
  "engine_record_attempt pg_ts attempt db = (r, db') \<Longrightarrow>
     db' = db
     \<or> (\<exists>at. r = Inr attempt \<and> find_operation (ta_operationId attempt) db \<noteq> None
          \<and> (\<forall>t \<in> set (transaction_attempts db).
               arow_operation_id t = ta_operationId attempt \<longrightarrow> arow_attempt_key t \<noteq> ta_attemptKey attempt)
          \<and> db' = db\<lparr>transaction_attempts := transaction_attempts db @ [recorded_row attempt at]\<rparr>)"
  by (auto simp: engine_record_attempt_def split: if_splits dest!: store_record_attempt_cases)

text \<open>What one engine call can do to the tables: nothing, or one of three guarded updates.\<close>

lemma tx_step_cases [consumes 1, case_names stutter created appended recorded]:
  assumes "tx_step pg_ts db db'"
  obtains "db' = db"
  | input at where "create_guard input" "find_operation (cb_id input) db = None"
      "db' = created_db input (initial_transition input) at db"
  | command op at where "append_guard command op db" "policy_guard command"
      "db' = appended_db command op at db"
  | attempt at where "find_operation (ta_operationId attempt) db \<noteq> None"
      "\<forall>t \<in> set (transaction_attempts db). arow_operation_id t = ta_operationId attempt \<longrightarrow>
         arow_attempt_key t \<noteq> ta_attemptKey attempt"
      "db' = db\<lparr>transaction_attempts := transaction_attempts db @ [recorded_row attempt at]\<rparr>"
  using assms
  by (cases rule: tx_step.cases)
    (blast dest: engine_create_cases engine_transition_cases engine_record_attempt_cases)+

lemma tx_step_wf:
  assumes "tx_step pg_ts db db'" "tx_wf db"
  shows "tx_wf db'"
  using assms(1)
proof (cases rule: tx_step_cases)
  case (created input at)
  then show ?thesis
    using created_wf [OF assms(2)] by (simp add: create_guard_def initial_transition_def)
next
  case (appended command op at)
  then show ?thesis using appended_wf [OF assms(2)] by simp
next
  case (recorded attempt at)
  then show ?thesis using recorded_wf [OF assms(2)] by simp
qed (use assms in simp)

lemma tx_steps_wf: "tx_steps pg_ts db db' \<Longrightarrow> tx_wf db \<Longrightarrow> tx_wf db'"
  by (induction rule: tx_steps.induct) (auto intro: tx_step_wf)


section \<open>Histories only grow\<close>

definition history :: "interweave_id \<Rightarrow> 'r tx_db_scheme \<Rightarrow> bridge_state list" where
  "history oid db = map trow_to_state (transition_rows oid db)"

text \<open>The abstract machine: a history per operation, extended along the transition graph.\<close>

type_synonym ledger = "interweave_id \<Rightarrow> bridge_state list option"

definition ledger_of :: "'r tx_db_scheme \<Rightarrow> ledger" where
  "ledger_of db oid = (if find_operation oid db = None then None else Some (history oid db))"

inductive ledger_step :: "ledger \<Rightarrow> ledger \<Rightarrow> bool" where
  ledger_stutter: "ledger_step l l"
| ledger_open: "l oid = None \<Longrightarrow> ledger_step l (l(oid \<mapsto> [CREATED]))"
| ledger_move: "l oid = Some h \<Longrightarrow> can_transition (last h) s \<Longrightarrow> ledger_step l (l(oid \<mapsto> h @ [s]))"

lemma row_ok_history:
  "row_ok rows r \<Longrightarrow> rows \<noteq> [] \<and> last (map trow_to_state rows) = orow_state r \<and> bridge.walk (map trow_to_state rows)"
  by (cases "rows = []") (auto simp: row_ok_def last_map dest: bridge.walk_not_Nil)

lemma loaded_history:
  assumes wf: "tx_wf db" and load: "load_operation oid db = Some op"
  shows "bridge.walk (history oid db)" "last (history oid db) = op_state op"
    "op_version op + 1 = int (length (history oid db))"
    "map tr_to (op_transitions op) = history oid db" "op_id op = oid"
    "ledger_of db oid = Some (history oid db)"
proof -
  from loaded_operation [OF wf load] obtain r where r: "orow_id r = oid"
    "row_ok (transition_rows oid db) r" "find_operation oid db = Some r"
    "op = (orow_operation r)\<lparr>op_transitions := map row_transition (transition_rows oid db)\<rparr>" .
  show "bridge.walk (history oid db)" "last (history oid db) = op_state op"
    using row_ok_history [OF r(2)] r(2,4) by (simp_all add: history_def row_ok_def)
  show "op_version op + 1 = int (length (history oid db))" "op_id op = oid"
    "ledger_of db oid = Some (history oid db)"
    using r by (simp_all add: history_def row_ok_def ledger_of_def)
  show "map tr_to (op_transitions op) = history oid db"
    using r by (simp add: history_def row_transition_def comp_def)
qed

lemma history_updates [simp]:
  "history oid (created_db input initial at db) =
     history oid db @ (if oid = cb_id input then [tr_to initial] else [])"
  "history oid (appended_db command op at db) =
     history oid db @ (if oid = cmd_operationId command then [cmd_to command] else [])"
  "history oid (db\<lparr>transaction_attempts := x\<rparr>) = history oid db"
  by (simp_all add: history_def appended_row_def) (simp add: transition_rows_def)

lemma find_operation_updates:
  "find_operation oid (created_db input initial at db) = None \<longleftrightarrow>
     find_operation oid db = None \<and> oid \<noteq> cb_id input"
  "find_operation oid (appended_db command op at db) = None \<longleftrightarrow> find_operation oid db = None"
  "find_operation oid (db\<lparr>transaction_attempts := x\<rparr>) = find_operation oid db"
proof -
  have ids: "find_operation oid d = None \<longleftrightarrow> oid \<notin> set (map orow_id (bridge_operations d))" for d :: "'a tx_db_scheme"
    by (auto simp: find_operation_None)
  have "map orow_id (bridge_operations (appended_db command op at db)) = map orow_id (bridge_operations db)"
    by (simp add: appended_db_def)
  then show "find_operation oid (appended_db command op at db) = None \<longleftrightarrow> find_operation oid db = None"
    unfolding ids by presburger
qed (auto simp: find_operation_None created_db_def, simp add: find_operation_def)

lemma tx_step_ledger:
  assumes "tx_step pg_ts db db'" "tx_wf db"
  shows "ledger_step (ledger_of db) (ledger_of db')"
  using assms(1)
proof (cases rule: tx_step_cases)
  case (created input at)
  have "history (cb_id input) db = []"
    using transition_rows_fresh [OF assms(2)] created(2) by (simp add: history_def)
  then have "ledger_of db' = (ledger_of db)(cb_id input \<mapsto> [CREATED])"
    using created by (auto simp: ledger_of_def find_operation_updates initial_transition_def fun_eq_iff)
  moreover have "ledger_of db (cb_id input) = None" using created by (simp add: ledger_of_def)
  ultimately show ?thesis by (simp add: ledger_open)
next
  case (appended command op at)
  let ?oid = "cmd_operationId command"
  have load: "load_operation ?oid db = Some op" and step: "can_transition (op_state op) (cmd_to command)"
    using appended(1) by (simp_all add: append_guard_def)
  have "ledger_of db' = (ledger_of db)(?oid \<mapsto> history ?oid db @ [cmd_to command])"
    using appended loaded_history(6) [OF assms(2) load]
    by (auto simp: ledger_of_def find_operation_updates fun_eq_iff split: if_splits)
  then show ?thesis
    using loaded_history [OF assms(2) load] step by (simp add: ledger_move)
next
  case (recorded attempt at)
  then have "ledger_of db' = ledger_of db" by (simp add: ledger_of_def find_operation_updates fun_eq_iff)
  then show ?thesis by (simp add: ledger_stutter)
qed (simp add: ledger_stutter)

lemma tx_step_rows:
  "tx_step pg_ts db db' \<Longrightarrow> \<exists>ts. bridge_transitions db' = bridge_transitions db @ ts"
  by (cases rule: tx_step_cases) (auto simp: created_db_def appended_db_def)

lemma tx_steps_rows:
  "tx_steps pg_ts db db' \<Longrightarrow> \<exists>ts. bridge_transitions db' = bridge_transitions db @ ts"
  by (induction rule: tx_steps.induct) (auto dest!: tx_step_rows)

lemma find_append_Some: "find P xs = Some x \<Longrightarrow> find P (xs @ ys) = Some x"
  by (induction xs) auto

lemma find_append_None: "find P xs = None \<Longrightarrow> find P (xs @ ys) = find P ys"
  by (induction xs) auto

lemma tx_steps_find:
  assumes "tx_steps pg_ts db db'" "find_transition_row oid key db = Some row"
  shows "find_transition_row oid key db' = Some row"
proof -
  obtain ts where "bridge_transitions db' = bridge_transitions db @ ts"
    using tx_steps_rows [OF assms(1)] by blast
  with assms(2) show ?thesis by (simp add: find_transition_row_def find_append_Some)
qed

lemma recorded_transition_blocked:
  assumes wf: "tx_wf db" and row: "find_transition_row oid key db = Some row"
  shows "\<exists>op. load_operation oid db = Some op \<and> \<not> can_transition (op_state op) (trow_to_state row)"
proof -
  have row_in: "row \<in> set (transition_rows oid db)" and id_row: "trow_operation_id row = oid"
    using find_SomeD [OF row [unfolded find_transition_row_def]] by (simp_all add: transition_rows_def)
  then obtain r where "r \<in> set (bridge_operations db)" "orow_id r = oid"
    using wf by (fastforce simp: tx_wf_def transition_rows_def)
  then obtain op where op: "load_operation oid db = Some op"
    using find_operation_row [OF wf] by (fastforce simp: load_operation_def)
  have "rank (trow_to_state row) \<le> rank (op_state op)"
    using bridge.walk_sorted [OF loaded_history(1) [OF wf op], of "trow_to_state row"] row_in
      loaded_history(2) [OF wf op] by (simp add: history_def)
  with op can_transition_rank show ?thesis by fastforce
qed

section \<open>Enabled transitions succeed\<close>

lemma insert_transition_ok:
  "pg_ts (trow_occurred_at row) = Some at \<Longrightarrow> int4 (trow_sequence row) \<Longrightarrow> int4 (trow_attempt row)
    \<Longrightarrow> 0 \<le> trow_sequence row \<Longrightarrow> 0 < trow_attempt row
    \<Longrightarrow> find_transition_row (trow_operation_id row) (trow_transition_key row) db = None
    \<Longrightarrow> trow_sequence row \<notin> set (map trow_sequence (transition_rows (trow_operation_id row) db))
    \<Longrightarrow> find_operation (trow_operation_id row) db \<noteq> None
    \<Longrightarrow> insert_transition pg_ts row db =
      (Inr (), db\<lparr>bridge_transitions := bridge_transitions db @ [row\<lparr>trow_occurred_at := at\<rparr>]\<rparr>)"
  by (auto simp: insert_transition_def)

lemma row_ok_sequences:
  "row_ok rows r \<Longrightarrow> orow_version r + 1 \<notin> set (map trow_sequence rows) \<and> 0 \<le> orow_version r \<and> orow_version r \<le> 15"
proof -
  assume ok: "row_ok rows r"
  then have v: "orow_version r + 1 = int (length rows)" and m: "map trow_sequence rows = map int [0..<length rows]"
    and "length rows \<le> Suc (rank (last (map trow_to_state rows)))"
    using bridge.walk_length [of "map trow_to_state rows"] by (simp_all add: row_ok_def)
  moreover have "0 < length rows" using row_ok_history [OF ok] by simp
  ultimately have "0 \<le> orow_version r" "orow_version r \<le> 15"
    using rank_le [of "last (map trow_to_state rows)"] by linarith+
  then show ?thesis using v by (auto simp: m)
qed

lemma store_append_ok:
  assumes wf: "tx_wf db" and g: "append_guard command op db" and at: "pg_ts (cmd_occurredAt command) = Some at"
    and attempt: "is_safe_integer (cmd_attempt command)" "0 < num_val (cmd_attempt command)"
      "int4 (num_val (cmd_attempt command))"
  shows "store_append pg_ts command db = (Inr (returned_operation command op at), appended_db command op at db)"
proof -
  have load: "load_operation (cmd_operationId command) db = Some op"
    and free: "find_transition_row (cmd_operationId command) (cmd_transitionKey command) db = None"
    using g by (simp_all add: append_guard_def)
  obtain r where r: "row_ok (transition_rows (cmd_operationId command) db) r"
    "find_operation (cmd_operationId command) db = Some r" "op = (orow_operation r)
      \<lparr>op_transitions := map row_transition (transition_rows (cmd_operationId command) db)\<rparr>"
    by (rule loaded_operation [OF wf load])
  have v: "op_version op = orow_version r" using r by (simp add: row_ok_def)
  have "insert_transition pg_ts (appended_row command op (cmd_occurredAt command)) db =
      (Inr (), db\<lparr>bridge_transitions := bridge_transitions db @ [appended_row command op at]\<rparr>)"
    using row_ok_sequences [OF r(1)] at attempt free r(2)
    by (subst insert_transition_ok [where at = at]) (auto simp: appended_row_def v int4_def)
  then show ?thesis
    using g at attempt free load
    by (simp add: store_append_def transaction_def and_then_def append_guard_def Let_def
        update_operation_def appended_row_def appended_db_def appended_operation_def
        returned_operation_def row_transition_def)
qed

definition command_guard :: "transition_command \<Rightarrow> bool" where
  "command_guard command \<longleftrightarrow>
     \<not> blank (cmd_transitionKey command) \<and> \<not> blank (cmd_actor command) \<and> \<not> blank (cmd_reason command)
     \<and> is_safe_integer (cmd_attempt command) \<and> 1 \<le> num_val (cmd_attempt command)"

lemma engine_transition_guarded:
  "command_guard command \<Longrightarrow> policy_guard command \<Longrightarrow> load_operation (cmd_operationId command) db = Some op
    \<Longrightarrow> can_transition (op_state op) (cmd_to command)
    \<Longrightarrow> engine_transition pg_ts command db = store_append pg_ts command db"
  by (auto simp: engine_transition_def command_guard_def policy_guard_def not_safe_at_least_def
      store_get_def transaction_def and_then_def)

lemma engine_transition_replayed:
  assumes "command_guard command" "load_operation (cmd_operationId command) db = Some op"
    and "find_transition_row (cmd_operationId command) (cmd_transitionKey command) db = Some row"
    and "trow_to_state row = cmd_to command" "\<not> can_transition (op_state op) (cmd_to command)"
  shows "engine_transition pg_ts command db = (Inr op, db)"
  using assms
  by (auto simp: engine_transition_def command_guard_def not_safe_at_least_def row_transition_def
      store_get_def store_find_transition_def transaction_def and_then_def)

lemma engine_transition_Inr_guard:
  "engine_transition pg_ts command db = (Inr op, db') \<Longrightarrow> command_guard command"
  by (auto simp: engine_transition_def command_guard_def not_safe_at_least_def split: if_splits)

lemma load_appended:
  assumes wf: "tx_wf db" and g: "append_guard command op db"
  shows "load_operation (cmd_operationId command) (appended_db command op at db) =
    Some ((appended_operation command op)\<lparr>op_transitions :=
      op_transitions op @ [row_transition (appended_row command op at)]\<rparr>)"
proof -
  let ?oid = "cmd_operationId command" and ?db = "appended_db command op at db"
  have load: "load_operation ?oid db = Some op" using g by (simp add: append_guard_def)
  obtain r where r: "r \<in> set (bridge_operations db)" "orow_id r = ?oid"
    "op = (orow_operation r)\<lparr>op_transitions := map row_transition (transition_rows ?oid db)\<rparr>"
    by (rule loaded_operation [OF wf load])
  let ?r = "r\<lparr>orow_state := cmd_to command, orow_version := op_version op + 1,
    orow_operation := appended_operation command op\<rparr>"
  have "?r \<in> set (bridge_operations ?db)" using r(1,2) by (force simp: appended_db_def)
  then have "find_operation ?oid ?db = Some ?r"
    using find_operation_row [OF appended_wf [OF wf g], of ?r] r(2) by simp
  then show ?thesis
    using load_operation_wf [OF appended_wf [OF wf g]] r(3) by simp
qed

lemma appended_find:
  "append_guard command op db \<Longrightarrow>
   find_transition_row (cmd_operationId command) (cmd_transitionKey command) (appended_db command op at db)
     = Some (appended_row command op at)"
proof -
  have app: "find P xs = None \<Longrightarrow> P y \<Longrightarrow> find P (xs @ [y]) = Some y" for P xs and y :: transition_row
    by (induction xs) auto
  show "append_guard command op db \<Longrightarrow> ?thesis"
    by (simp add: append_guard_def find_transition_row_def appended_db_def app appended_row_def)
qed

lemma tx_steps_history:
  assumes "tx_steps pg_ts db db'"
  shows "\<exists>h. history oid db' = history oid db @ h"
proof -
  obtain ts where "bridge_transitions db' = bridge_transitions db @ ts"
    using tx_steps_rows [OF assms] by blast
  then show ?thesis by (auto simp: history_def transition_rows_def)
qed

lemma loads_iff: "load_operation oid db \<noteq> None \<longleftrightarrow> find_operation oid db \<noteq> None"
  by (simp add: load_operation_def)

lemma tx_step_finds:
  "tx_step pg_ts db db' \<Longrightarrow> find_operation oid db' = None \<Longrightarrow> find_operation oid db = None"
  by (cases rule: tx_step_cases) (auto simp: find_operation_updates)

lemma tx_steps_loads:
  "tx_steps pg_ts db db' \<Longrightarrow> load_operation oid db \<noteq> None \<Longrightarrow> load_operation oid db' \<noteq> None"
  unfolding loads_iff by (induction rule: tx_steps.induct) (metis, metis tx_step_finds)

lemma loaded_version_grows:
  assumes "tx_wf db" "tx_steps pg_ts db db'" "load_operation oid db = Some op"
  shows "\<exists>op'. load_operation oid db' = Some op' \<and> op_version op \<le> op_version op'"
proof -
  have wf': "tx_wf db'" using tx_steps_wf assms by blast
  obtain op' where op': "load_operation oid db' = Some op'"
    using tx_steps_loads [OF assms(2)] assms(3) by fastforce
  obtain h where "history oid db' = history oid db @ h" using tx_steps_history [OF assms(2)] by blast
  then have "op_version op \<le> op_version op'"
    using loaded_history(3) [OF assms(1,3)] loaded_history(3) [OF wf' op'] by simp
  with op' show ?thesis by blast
qed

end
