(* ===== verification/Bridge_Evidence.thy ===== *)
theory Bridge_Evidence
  imports Transaction_Safety
begin

text \<open>
  What the two bridge coordinators share: the stage evidence and its PostgreSQL store
  (packages/core/sql/005_bridge_stage_evidence.sql), the outside world as a log of calls, and the
  reads of evidence.

  A service outside the program is a function of the log of all calls made so far, so it may behave
  differently on every call and depend on everything that happened; a call that has its effect but
  whose answer is lost is one that answers with an error. The clock is such a service too: it gives
  a time value, or \<open>None\<close> for an invalid \<open>Date\<close>.
\<close>

datatype stage =
    SOURCE_LOCK | SOURCE_BURN | SOURCE_CONFIRMATION | SOURCE_FINALITY | ATTESTATION
  | DESTINATION_MINT | DESTINATION_RELEASE | DESTINATION_CONFIRMATION | DESTINATION_FINALITY
  | RECONCILIATION

fun stage_text :: "stage \<Rightarrow> string" where
  "stage_text SOURCE_LOCK = ''SOURCE_LOCK''"
| "stage_text SOURCE_BURN = ''SOURCE_BURN''"
| "stage_text SOURCE_CONFIRMATION = ''SOURCE_CONFIRMATION''"
| "stage_text SOURCE_FINALITY = ''SOURCE_FINALITY''"
| "stage_text ATTESTATION = ''ATTESTATION''"
| "stage_text DESTINATION_MINT = ''DESTINATION_MINT''"
| "stage_text DESTINATION_RELEASE = ''DESTINATION_RELEASE''"
| "stage_text DESTINATION_CONFIRMATION = ''DESTINATION_CONFIRMATION''"
| "stage_text DESTINATION_FINALITY = ''DESTINATION_FINALITY''"
| "stage_text RECONCILIATION = ''RECONCILIATION''"

datatype js_value = JStr string | JBool bool

type_synonym stage_data = "(string \<times> js_value) list"

record stage_evidence =
  se_operationId :: interweave_id
  se_stage :: stage
  se_recordedAt :: iso_timestamp
  se_data :: stage_data

record verified_attestation =
  va_digest :: string
  va_validatorSetId :: string
  va_signatureCount :: string
  va_threshold :: string
  va_expiresAt :: iso_timestamp

datatype effect_outcome = EXECUTED | ALREADY_PROCESSED

fun outcome_text :: "effect_outcome \<Rightarrow> string" where
  "outcome_text EXECUTED = ''EXECUTED''"
| "outcome_text ALREADY_PROCESSED = ''ALREADY_PROCESSED''"

section \<open>The world\<close>

type_synonym operation = durable_bridge_operation

datatype bridge_call =
    NowCall js_date
  | PolicyCall operation "policy_decision result"
  | LockCall operation "(string \<times> string) result"
  | BurnCall operation "(string \<times> effect_outcome) result"
  | SourceConfirmCall operation string "(bool \<times> string) result"
  | SourceFinalizeCall operation string "(bool \<times> string \<times> string) result"
  | AttestCall operation stage_evidence "(bool \<times> verified_attestation) result"
  | MintCall operation verified_attestation "(string \<times> effect_outcome) result"
  | ReleaseCall operation verified_attestation "(string \<times> string \<times> effect_outcome) result"
  | DestinationConfirmCall operation string "(bool \<times> string) result"
  | DestinationFinalizeCall operation string "(bool \<times> string \<times> string) result"
  | ReconcileCall operation "(bool \<times> string list) result"

type_synonym 'a service = "bridge_call list \<Rightarrow> 'a result"

record world = tx_db +
  bridge_stage_evidence :: "stage_evidence list"
  calls :: "bridge_call list"

definition call :: "('a result \<Rightarrow> bridge_call) \<Rightarrow> 'a service \<Rightarrow> ('r world_scheme, 'a) comp" where
  "call entry f w = (let r = f (calls w) in (r, w\<lparr>calls := calls w @ [entry r]\<rparr>))"

definition now :: "(bridge_call list \<Rightarrow> js_date) \<Rightarrow> ('r world_scheme, js_date) comp" where
  "now clock w = (let t = clock (calls w) in (Inr t, w\<lparr>calls := calls w @ [NowCall t]\<rparr>))"

section \<open>The evidence store\<close>

definition find_evidence :: "interweave_id \<Rightarrow> stage \<Rightarrow> 'r world_scheme \<Rightarrow> stage_evidence option" where
  "find_evidence operationId stg w =
     find (\<lambda>e. se_operationId e = operationId \<and> se_stage e = stg) (bridge_stage_evidence w)"

definition evidence_get :: "interweave_id \<Rightarrow> stage \<Rightarrow> ('r world_scheme, stage_evidence option) comp" where
  "evidence_get operationId stg = gets (find_evidence operationId stg)"

definition evidence_put :: "stage_evidence \<Rightarrow> ('r world_scheme, stage_evidence) comp" where
  "evidence_put evidence w =
     (case find_evidence (se_operationId evidence) (se_stage evidence) w of
        Some stored \<Rightarrow>
          if stored = evidence then (Inr stored, w)
          else (Inl (RegistryError CONFLICT
            (''stage evidence differs from immutable record: '' @ stage_text (se_stage evidence))), w)
      | None \<Rightarrow>
          if find_operation (se_operationId evidence) w = None then (Inl (SqlError ''foreign key''), w)
          else (Inr evidence, w\<lparr>bridge_stage_evidence := bridge_stage_evidence w @ [evidence]\<rparr>))"

section \<open>Reading evidence\<close>

definition require_text :: "string \<Rightarrow> string \<Rightarrow> ('s, unit) comp" where
  "require_text value name =
     (if blank value then throw (RegistryError INVALID_ARGUMENT (name @ '' is required'')) else ret ())"

definition string_value :: "stage_evidence \<Rightarrow> string \<Rightarrow> ('s, string) comp" where
  "string_value evidence key =
     (case map_of (se_data evidence) key of
        Some (JStr value) \<Rightarrow>
          if blank value then throw (RegistryError INVALID_ARGUMENT
            (''invalid '' @ stage_text (se_stage evidence) @ '' evidence: '' @ key)) else ret value
      | _ \<Rightarrow> throw (RegistryError INVALID_ARGUMENT
            (''invalid '' @ stage_text (se_stage evidence) @ '' evidence: '' @ key)))"

definition attestation_from :: "stage_evidence \<Rightarrow> ('s, verified_attestation) comp" where
  "attestation_from evidence =
     and_then (string_value evidence ''digest'') (\<lambda>digest.
     and_then (string_value evidence ''validatorSetId'') (\<lambda>validatorSetId.
     and_then (string_value evidence ''signatureCount'') (\<lambda>signatureCount.
     and_then (string_value evidence ''threshold'') (\<lambda>threshold.
     and_then (string_value evidence ''expiresAt'') (\<lambda>expiresAt.
       ret \<lparr>va_digest = digest, va_validatorSetId = validatorSetId,
         va_signatureCount = signatureCount, va_threshold = threshold, va_expiresAt = expiresAt\<rparr>)))))"

text \<open>\<open>evidence.data.key === true\<close>, and \<open>evidence.data.key\<close> inside a template.\<close>

definition is_true :: "stage_evidence \<Rightarrow> string \<Rightarrow> bool" where
  "is_true evidence key \<longleftrightarrow> map_of (se_data evidence) key = Some (JBool True)"

definition evidence_field :: "stage_evidence \<Rightarrow> string \<Rightarrow> string" where
  "evidence_field evidence key =
     (case map_of (se_data evidence) key of
        None \<Rightarrow> ''undefined'' | Some (JStr s) \<Rightarrow> s
      | Some (JBool b) \<Rightarrow> if b then ''true'' else ''false'')"

definition is_terminal :: "bridge_state \<Rightarrow> bool" where
  "is_terminal s \<longleftrightarrow> s \<in> set [COMPLETED, POLICY_REJECTED, SOURCE_FAILED, ATTESTATION_FAILED,
     DESTINATION_FAILED, EXPIRED, RECONCILIATION_FAILED, MANUAL_REVIEW]"

definition attestation_data :: "bool \<times> verified_attestation \<Rightarrow> stage_data" where
  "attestation_data r =
     [(''satisfied'', JBool (fst r)), (''digest'', JStr (va_digest (snd r))),
      (''validatorSetId'', JStr (va_validatorSetId (snd r))),
      (''signatureCount'', JStr (va_signatureCount (snd r))),
      (''threshold'', JStr (va_threshold (snd r))), (''expiresAt'', JStr (va_expiresAt (snd r)))]"

end
