(* ===== verification/Bridge_Safety.thy ===== *)
theory Bridge_Safety
  imports Bridge_Evidence
begin

text \<open>
  The invariant that the two bridge coordinators keep over the transaction tables, the stage
  evidence and the log of outside calls:

  \<^item> a state behind a gate is in a history only with the evidence that opens the gate;
  \<^item> every evidence record is backed by an answer in the log;
  \<^item> an effect (lock, burn, mint, release) is requested only for an operation that has come that
    far, with the stored terms, and a mint or release only under a stored, unexpired attestation;
  \<^item> an accepted effect is requested again only if the clock failed in between.
\<close>

section \<open>Gates\<close>

fun gate :: "bridge_state \<Rightarrow> (stage \<times> string) option" where
  "gate SOURCE_CONFIRMED = Some (SOURCE_CONFIRMATION, ''confirmed'')"
| "gate SOURCE_FINALIZED = Some (SOURCE_FINALITY, ''finalized'')"
| "gate ATTESTED = Some (ATTESTATION, ''satisfied'')"
| "gate DESTINATION_CONFIRMED = Some (DESTINATION_CONFIRMATION, ''confirmed'')"
| "gate DESTINATION_FINALIZED = Some (DESTINATION_FINALITY, ''finalized'')"
| "gate RECONCILED = Some (RECONCILIATION, ''matched'')"
| "gate _ = None"

definition gate_open :: "bridge_state \<Rightarrow> interweave_id \<Rightarrow> world \<Rightarrow> bool" where
  "gate_open s oid w \<longleftrightarrow>
     (case gate s of None \<Rightarrow> True
      | Some (stg, key) \<Rightarrow> \<exists>e. find_evidence oid stg w = Some e \<and> is_true e key)
     \<and> (s = SOURCE_SUBMITTED \<longrightarrow>
          find_evidence oid SOURCE_LOCK w \<noteq> None \<or> find_evidence oid SOURCE_BURN w \<noteq> None)
     \<and> (s = DESTINATION_SUBMITTED \<longrightarrow>
          find_evidence oid DESTINATION_MINT w \<noteq> None \<or> find_evidence oid DESTINATION_RELEASE w \<noteq> None)"

definition gates_ok :: "world \<Rightarrow> bool" where
  "gates_ok w \<longleftrightarrow> (\<forall>oid. \<forall>s \<in> set (history oid w). gate_open s oid w)"

section \<open>Evidence is backed by answers\<close>

definition evidence_text :: "interweave_id \<Rightarrow> stage \<Rightarrow> string \<Rightarrow> string \<Rightarrow> world \<Rightarrow> bool" where
  "evidence_text oid stg key v w \<longleftrightarrow>
     (\<exists>e. find_evidence oid stg w = Some e \<and> map_of (se_data e) key = Some (JStr v))"

fun backed :: "interweave_id \<Rightarrow> stage \<Rightarrow> stage_data \<Rightarrow> world \<Rightarrow> bool" where
  "backed oid SOURCE_LOCK data w \<longleftrightarrow> (\<exists>op t l. LockCall op (Inr (t, l)) \<in> set (calls w)
     \<and> op_id op = oid \<and> map_of data ''transactionId'' = Some (JStr t)
     \<and> map_of data ''lockId'' = Some (JStr l))"
| "backed oid SOURCE_BURN data w \<longleftrightarrow> (\<exists>op t r. BurnCall op (Inr (t, r)) \<in> set (calls w)
     \<and> op_id op = oid \<and> map_of data ''transactionId'' = Some (JStr t))"
| "backed oid SOURCE_CONFIRMATION data w \<longleftrightarrow> (\<exists>op t b p. SourceConfirmCall op t (Inr (b, p)) \<in> set (calls w)
     \<and> op_id op = oid \<and> map_of data ''confirmed'' = Some (JBool b)
     \<and> (evidence_text oid SOURCE_LOCK ''transactionId'' t w
        \<or> evidence_text oid SOURCE_BURN ''transactionId'' t w))"
| "backed oid SOURCE_FINALITY data w \<longleftrightarrow> (\<exists>op t b p i. SourceFinalizeCall op t (Inr (b, p, i)) \<in> set (calls w)
     \<and> op_id op = oid \<and> map_of data ''finalized'' = Some (JBool b)
     \<and> (evidence_text oid SOURCE_LOCK ''transactionId'' t w
        \<or> evidence_text oid SOURCE_BURN ''transactionId'' t w))"
| "backed oid ATTESTATION data w \<longleftrightarrow> (\<exists>op f r. AttestCall op f (Inr r) \<in> set (calls w)
     \<and> op_id op = oid \<and> data = attestation_data r \<and> find_evidence oid SOURCE_FINALITY w = Some f)"
| "backed oid DESTINATION_MINT data w \<longleftrightarrow> (\<exists>op a t r. MintCall op a (Inr (t, r)) \<in> set (calls w)
     \<and> op_id op = oid \<and> map_of data ''transactionId'' = Some (JStr t))"
| "backed oid DESTINATION_RELEASE data w \<longleftrightarrow> (\<exists>op a t i r. ReleaseCall op a (Inr (t, i, r)) \<in> set (calls w)
     \<and> op_id op = oid \<and> map_of data ''transactionId'' = Some (JStr t))"
| "backed oid DESTINATION_CONFIRMATION data w \<longleftrightarrow>
     (\<exists>op t b p. DestinationConfirmCall op t (Inr (b, p)) \<in> set (calls w)
     \<and> op_id op = oid \<and> map_of data ''confirmed'' = Some (JBool b)
     \<and> (evidence_text oid DESTINATION_MINT ''transactionId'' t w
        \<or> evidence_text oid DESTINATION_RELEASE ''transactionId'' t w))"
| "backed oid DESTINATION_FINALITY data w \<longleftrightarrow>
     (\<exists>op t b p i. DestinationFinalizeCall op t (Inr (b, p, i)) \<in> set (calls w)
     \<and> op_id op = oid \<and> map_of data ''finalized'' = Some (JBool b)
     \<and> (evidence_text oid DESTINATION_MINT ''transactionId'' t w
        \<or> evidence_text oid DESTINATION_RELEASE ''transactionId'' t w))"
| "backed oid RECONCILIATION data w \<longleftrightarrow> (\<exists>op b xs. ReconcileCall op (Inr (b, xs)) \<in> set (calls w)
     \<and> op_id op = oid \<and> map_of data ''matched'' = Some (JBool b))"

definition evidence_ok :: "world \<Rightarrow> bool" where
  "evidence_ok w \<longleftrightarrow>
     (\<forall>e \<in> set (bridge_stage_evidence w). backed (se_operationId e) (se_stage e) (se_data e) w
        \<and> find_operation (se_operationId e) w \<noteq> None)"

section \<open>Effects\<close>

definition same_terms :: "operation \<Rightarrow> operation \<Rightarrow> bool" where
  "same_terms a b \<longleftrightarrow> op_id a = op_id b \<and> op_assetId a = op_assetId b
     \<and> op_sourceNetworkId a = op_sourceNetworkId b
     \<and> op_destinationNetworkId a = op_destinationNetworkId b \<and> op_sender a = op_sender b
     \<and> op_receiver a = op_receiver b \<and> op_amount a = op_amount b \<and> op_expiresAt a = op_expiresAt b"

definition stored_terms :: "operation \<Rightarrow> world \<Rightarrow> bool" where
  "stored_terms op w \<longleftrightarrow> (\<exists>op'. load_operation (op_id op) w = Some op' \<and> same_terms op op')"

definition carries :: "stage_evidence \<Rightarrow> verified_attestation \<Rightarrow> bool" where
  "carries e att \<longleftrightarrow> map_of (se_data e) ''digest'' = Some (JStr (va_digest att))
     \<and> map_of (se_data e) ''validatorSetId'' = Some (JStr (va_validatorSetId att))
     \<and> map_of (se_data e) ''signatureCount'' = Some (JStr (va_signatureCount att))
     \<and> map_of (se_data e) ''threshold'' = Some (JStr (va_threshold att))
     \<and> map_of (se_data e) ''expiresAt'' = Some (JStr (va_expiresAt att))"

definition attested :: "interweave_id \<Rightarrow> verified_attestation \<Rightarrow> world \<Rightarrow> bool" where
  "attested oid att w \<longleftrightarrow> (\<exists>e. find_evidence oid ATTESTATION w = Some e \<and> carries e att)"

definition source_effect_ok :: "operation \<Rightarrow> world \<Rightarrow> bool" where
  "source_effect_ok op w \<longleftrightarrow> stored_terms op w \<and> POLICY_CHECKED \<in> set (history (op_id op) w)"

definition destination_effect_ok :: "operation \<Rightarrow> verified_attestation \<Rightarrow> world \<Rightarrow> bool" where
  "destination_effect_ok op att w \<longleftrightarrow> stored_terms op w
     \<and> DESTINATION_PREPARING \<in> set (history (op_id op) w) \<and> attested (op_id op) att w"

fun call_ok :: "world \<Rightarrow> bridge_call \<Rightarrow> bool" where
  "call_ok w (LockCall op r) \<longleftrightarrow> source_effect_ok op w"
| "call_ok w (BurnCall op r) \<longleftrightarrow> source_effect_ok op w"
| "call_ok w (MintCall op att r) \<longleftrightarrow> destination_effect_ok op att w"
| "call_ok w (ReleaseCall op att r) \<longleftrightarrow> destination_effect_ok op att w"
| "call_ok w _ \<longleftrightarrow> True"

text \<open>The clock was read last before the call, and the attestation had not expired then.\<close>

definition unexpired_after :: "bridge_call list \<Rightarrow> verified_attestation \<Rightarrow> bool" where
  "unexpired_after log att \<longleftrightarrow> (\<exists>p d m. log = p @ NowCall d # m
     \<and> set m \<subseteq> range NowCall \<and> \<not> date_reached d (va_expiresAt att))"

fun timely :: "bridge_call list \<Rightarrow> bridge_call \<Rightarrow> bool" where
  "timely log (MintCall op att r) \<longleftrightarrow> unexpired_after log att"
| "timely log (ReleaseCall op att r) \<longleftrightarrow> unexpired_after log att"
| "timely log _ \<longleftrightarrow> True"

definition log_ok :: "world \<Rightarrow> bool" where
  "log_ok w \<longleftrightarrow> (\<forall>c \<in> set (calls w). call_ok w c)
     \<and> (\<forall>p c m. calls w = p @ c # m \<longrightarrow> timely p c)"

section \<open>Accepted effects\<close>

fun accepted :: "bridge_call \<Rightarrow> (interweave_id \<times> stage) option" where
  "accepted (LockCall op (Inr (t, l))) =
     (if blank t \<or> blank l then None else Some (op_id op, SOURCE_LOCK))"
| "accepted (BurnCall op (Inr (t, r))) = (if blank t then None else Some (op_id op, SOURCE_BURN))"
| "accepted (MintCall op a (Inr r)) = Some (op_id op, DESTINATION_MINT)"
| "accepted (ReleaseCall op a (Inr (t, i, r))) =
     (if blank t \<or> blank i then None else Some (op_id op, DESTINATION_RELEASE))"
| "accepted _ = None"

definition accepted_count :: "interweave_id \<times> stage \<Rightarrow> world \<Rightarrow> nat" where
  "accepted_count k w = length (filter (\<lambda>c. accepted c = Some k) (calls w))"

definition clock_failures :: "world \<Rightarrow> nat" where
  "clock_failures w = length (filter (\<lambda>c. c = NowCall None) (calls w))"

text \<open>\<open>k\<close> is a call that has been accepted and whose evidence is still to be written.\<close>

definition evidence_count :: "interweave_id \<times> stage \<Rightarrow> world \<Rightarrow> nat" where
  "evidence_count k w = (if find_evidence (fst k) (snd k) w = None then 0 else 1)"

definition counts_ok :: "(interweave_id \<times> stage) option \<Rightarrow> world \<Rightarrow> bool" where
  "counts_ok pending w \<longleftrightarrow> (\<forall>k. accepted_count k w \<le>
     evidence_count k w + clock_failures w + (if pending = Some k then 1 else 0))"

definition world_ok :: "(interweave_id \<times> stage) option \<Rightarrow> world \<Rightarrow> bool" where
  "world_ok pending w \<longleftrightarrow>
     tx_wf w \<and> gates_ok w \<and> evidence_ok w \<and> log_ok w \<and> counts_ok pending w"

section \<open>Monotonicity\<close>

text \<open>How the world grows: histories, evidence and the log are extended, terms are kept.\<close>

definition grows :: "world \<Rightarrow> world \<Rightarrow> bool" where
  "grows w w' \<longleftrightarrow>
     (\<forall>oid. set (history oid w) \<subseteq> set (history oid w'))
     \<and> (\<forall>oid stg e. find_evidence oid stg w = Some e \<longrightarrow> find_evidence oid stg w' = Some e)
     \<and> set (calls w) \<subseteq> set (calls w')
     \<and> (\<forall>op. stored_terms op w \<longrightarrow> stored_terms op w')
     \<and> (\<forall>oid. find_operation oid w \<noteq> None \<longrightarrow> find_operation oid w' \<noteq> None)"

lemma gate_open_mono: "gate_open s oid w \<Longrightarrow> grows w w' \<Longrightarrow> gate_open s oid w'"
  by (fastforce simp: gate_open_def grows_def split: option.splits)

lemma evidence_text_mono: "evidence_text oid stg k v w \<Longrightarrow> grows w w' \<Longrightarrow> evidence_text oid stg k v w'"
  by (auto simp: evidence_text_def grows_def)

lemma backed_mono: "backed oid stg data w \<Longrightarrow> grows w w' \<Longrightarrow> backed oid stg data w'"
proof -
  assume b: "backed oid stg data w" and g: "grows w w'"
  have c: "c \<in> set (calls w')" if "c \<in> set (calls w)" for c using that g by (auto simp: grows_def)
  have e: "find_evidence o' s w' = Some x" if "find_evidence o' s w = Some x" for o' s x
    using that g by (simp add: grows_def)
  note t = evidence_text_mono [OF _ g]
  show ?thesis using b by (cases stg) (simp_all, (blast intro: c e t)+)
qed

lemma call_ok_mono: "call_ok w c \<Longrightarrow> grows w w' \<Longrightarrow> call_ok w' c"
  by (cases c) (auto simp: source_effect_ok_def destination_effect_ok_def attested_def grows_def)


section \<open>Elementary changes of the world\<close>

definition log_call :: "bridge_call \<Rightarrow> world \<Rightarrow> world" where
  "log_call c w = w\<lparr>calls := calls w @ [c]\<rparr>"

definition add_evidence :: "stage_evidence \<Rightarrow> world \<Rightarrow> world" where
  "add_evidence e w = w\<lparr>bridge_stage_evidence := bridge_stage_evidence w @ [e]\<rparr>"

lemma tx_wf_cong:
  "bridge_operations d' = bridge_operations d \<Longrightarrow> bridge_transitions d' = bridge_transitions d
    \<Longrightarrow> transaction_attempts d' = transaction_attempts d \<Longrightarrow> tx_wf d' \<longleftrightarrow> tx_wf d"
  by (simp add: tx_wf_def transition_rows_def)

lemma log_call_simps [simp]:
  "tx_wf (log_call c w) \<longleftrightarrow> tx_wf w"
  "history oid (log_call c w) = history oid w"
  "find_evidence oid stg (log_call c w) = find_evidence oid stg w"
  "load_operation oid (log_call c w) = load_operation oid w"
  "find_operation oid (log_call c w) = find_operation oid w"
  "calls (log_call c w) = calls w @ [c]"
  "bridge_stage_evidence (log_call c w) = bridge_stage_evidence w"
  "stored_terms op (log_call c w) \<longleftrightarrow> stored_terms op w"
  by (simp_all add: log_call_def tx_wf_cong [of w "w\<lparr>calls := calls w @ [c]\<rparr>"] history_def
      transition_rows_def find_evidence_def load_operation_def find_operation_def stored_terms_def)

lemma log_call_inject [simp]: "log_call c w = log_call d w \<longleftrightarrow> c = d"
proof
  assume "log_call c w = log_call d w"
  then have "calls (log_call c w) = calls (log_call d w)" by simp
  then show "c = d" by simp
qed simp

lemma gate_open_log [simp]: "gate_open s oid (log_call c w) \<longleftrightarrow> gate_open s oid w"
  by (simp add: gate_open_def split: option.splits prod.splits)

lemma evidence_count_log [simp]: "evidence_count k (log_call c w) = evidence_count k w"
  by (simp add: evidence_count_def)

lemma add_evidence_simps [simp]:
  "tx_wf (add_evidence e w) \<longleftrightarrow> tx_wf w"
  "history oid (add_evidence e w) = history oid w"
  "load_operation oid (add_evidence e w) = load_operation oid w"
  "find_operation oid (add_evidence e w) = find_operation oid w"
  "calls (add_evidence e w) = calls w"
  "bridge_stage_evidence (add_evidence e w) = bridge_stage_evidence w @ [e]"
  "stored_terms op (add_evidence e w) \<longleftrightarrow> stored_terms op w"
  by (simp_all add: add_evidence_def history_def transition_rows_def load_operation_def
      tx_wf_cong [of w "w\<lparr>bridge_stage_evidence := bridge_stage_evidence w @ [e]\<rparr>"]
      find_operation_def stored_terms_def)

lemma find_add_evidence:
  "find_evidence oid stg (add_evidence e w) =
     (case find_evidence oid stg w of Some x \<Rightarrow> Some x
      | None \<Rightarrow> if se_operationId e = oid \<and> se_stage e = stg then Some e else None)"
  by (auto simp: find_evidence_def find_append_None dest: find_append_Some [where ys = "[e]"]
      split: option.splits)

lemma grows_log: "grows w (log_call c w)"
  by (auto simp: grows_def)

lemma grows_evidence: "grows w (add_evidence e w)"
  by (auto simp: grows_def find_add_evidence split: option.splits)

lemma log_ok_snoc:
  assumes "log_ok w" "call_ok (log_call c w) c" "timely (calls w) c"
  shows "log_ok (log_call c w)"
proof -
  have "timely p d" if "calls (log_call c w) = p @ d # m" for p d m
  proof (cases m rule: rev_cases)
    case Nil
    then show ?thesis using that assms(3) by simp
  next
    case (snoc m' x)
    then have "calls w = p @ d # m'" using that by simp
    then show ?thesis using assms(1) by (simp add: log_ok_def)
  qed
  then show ?thesis
    using assms(1,2) call_ok_mono [OF _ grows_log] by (auto simp: log_ok_def)
qed

lemma accepted_count_log:
  "accepted_count k (log_call c w) = accepted_count k w + (if accepted c = Some k then 1 else 0)"
  by (simp add: accepted_count_def)

lemma clock_failures_log:
  "clock_failures (log_call c w) = clock_failures w + (if c = NowCall None then 1 else 0)"
  by (simp add: clock_failures_def)

lemma evidence_ok_log: "evidence_ok w \<Longrightarrow> evidence_ok (log_call c w)"
  by (auto simp: evidence_ok_def intro: backed_mono [OF _ grows_log])

lemma world_ok_log:
  assumes w: "world_ok None w" and c: "call_ok (log_call c w) c" "timely (calls w) c"
  shows "world_ok (accepted c) (log_call c w)"
proof -
  have "counts_ok (accepted c) (log_call c w)"
    unfolding counts_ok_def
  proof
    fix k
    have "accepted_count k w \<le> evidence_count k w + clock_failures w"
      using w by (simp add: world_ok_def counts_ok_def del: split_paired_All)
    then show "accepted_count k (log_call c w) \<le> evidence_count k (log_call c w)
        + clock_failures (log_call c w) + (if accepted c = Some k then 1 else 0)"
      by (simp add: accepted_count_log clock_failures_log)
  qed
  then show ?thesis
    using w log_ok_snoc [OF _ c] evidence_ok_log
    by (simp add: world_ok_def gates_ok_def)
qed

lemma world_ok_clock:
  assumes w: "world_ok pending w"
  shows "world_ok (if d = None then None else pending) (log_call (NowCall d) w)"
proof -
  have "counts_ok (if d = None then None else pending) (log_call (NowCall d) w)"
    unfolding counts_ok_def
  proof
    fix k
    have "accepted_count k w \<le> evidence_count k w + clock_failures w + (if pending = Some k then 1 else 0)"
      using w by (simp only: world_ok_def counts_ok_def)
    then show "accepted_count k (log_call (NowCall d) w) \<le> evidence_count k (log_call (NowCall d) w)
        + clock_failures (log_call (NowCall d) w) + (if (if d = None then None else pending) = Some k then 1 else 0)"
      by (simp add: accepted_count_log clock_failures_log split: if_splits)
  qed
  then show ?thesis
    using w log_ok_snoc [of w "NowCall d"] evidence_ok_log
    by (simp add: world_ok_def gates_ok_def)
qed

lemma world_ok_evidence:
  assumes w: "world_ok pending w" and p: "pending = None \<or> pending = Some (se_operationId e, se_stage e)"
    and none: "find_evidence (se_operationId e) (se_stage e) w = None"
    and b: "backed (se_operationId e) (se_stage e) (se_data e) w"
      "find_operation (se_operationId e) w \<noteq> None"
  shows "world_ok None (add_evidence e w)"
proof -
  have "counts_ok None (add_evidence e w)"
    unfolding counts_ok_def
  proof
    fix k
    have "accepted_count k (add_evidence e w) = accepted_count k w"
      "clock_failures (add_evidence e w) = clock_failures w"
      by (simp_all add: accepted_count_def clock_failures_def)
    moreover have "accepted_count k w \<le> evidence_count k w + clock_failures w
        + (if pending = Some k then 1 else 0)"
      using w by (simp only: world_ok_def counts_ok_def)
    ultimately show "accepted_count k (add_evidence e w) \<le> evidence_count k (add_evidence e w)
        + clock_failures (add_evidence e w) + (if None = Some k then 1 else 0)"
      using p none by (auto simp: evidence_count_def find_add_evidence split: option.splits if_splits)
  qed
  moreover have "evidence_ok (add_evidence e w)"
    using w b backed_mono [OF _ grows_evidence] by (auto simp: world_ok_def evidence_ok_def)
  moreover have "gates_ok (add_evidence e w)"
    using w gate_open_mono [OF _ grows_evidence] by (auto simp: world_ok_def gates_ok_def)
  moreover have "log_ok (add_evidence e w)"
    using w call_ok_mono [OF _ grows_evidence] by (auto simp: world_ok_def log_ok_def)
  ultimately show ?thesis using w by (simp add: world_ok_def)
qed

text \<open>A change of the transaction tables alone.\<close>

lemma world_ok_tables:
  assumes w: "world_ok None w" and g: "grows w w'" and wf: "tx_wf w'"
    and same: "bridge_stage_evidence w' = bridge_stage_evidence w" "calls w' = calls w"
    and new: "\<And>oid s. s \<in> set (history oid w') \<Longrightarrow> s \<notin> set (history oid w) \<Longrightarrow> gate_open s oid w"
  shows "world_ok None w'"
proof -
  have "find_evidence oid stg w' = find_evidence oid stg w" for oid stg
    using same by (simp add: find_evidence_def)
  then have "counts_ok None w'"
    using w same by (simp add: world_ok_def counts_ok_def accepted_count_def
        clock_failures_def evidence_count_def)
  moreover have "gates_ok w'"
    unfolding gates_ok_def
  proof (intro allI ballI)
    fix oid s assume "s \<in> set (history oid w')"
    then have "gate_open s oid w" using w new by (cases "s \<in> set (history oid w)") (auto simp: world_ok_def gates_ok_def)
    then show "gate_open s oid w'" using gate_open_mono [OF _ g] by blast
  qed
  moreover have "evidence_ok w'"
    using w same g backed_mono [OF _ g] by (auto simp: world_ok_def evidence_ok_def grows_def)
  moreover have "log_ok w'"
    using w same call_ok_mono [OF _ g] by (auto simp: world_ok_def log_ok_def)
  ultimately show ?thesis using wf by (simp add: world_ok_def)
qed

end
