(* ===== verification/Bridge_Flow.thy ===== *)
theory Bridge_Flow
  imports Bridge_Safety
begin

text \<open>
  What every move of a bridge coordinator does to the world, and the contract the two coordinators
  share: the locale \<open>bridge_flow\<close> takes the transition and evidence operations of a coordinator and
  its body of the loop, and proves once that the loop keeps the invariant, ends within 24
  iterations, and returns only in a terminal state.
\<close>

section \<open>Engine calls on the world\<close>

lemma find_map_other:
  "(\<And>r. P (f r) \<longleftrightarrow> P r) \<Longrightarrow> (\<And>r. P r \<Longrightarrow> f r = r) \<Longrightarrow> find P (map f xs) = find P xs"
  by (induction xs) auto

lemma load_appended_other:
  "oid \<noteq> cmd_operationId command \<Longrightarrow>
   load_operation oid (appended_db command op at db) = load_operation oid db"
proof -
  assume "oid \<noteq> cmd_operationId command"
  then have "find_operation oid (appended_db command op at db) = find_operation oid db"
    unfolding find_operation_def by (simp add: appended_db_def) (rule find_map_other, auto)
  then show ?thesis using \<open>oid \<noteq> cmd_operationId command\<close> by (simp add: load_operation_def)
qed

lemma load_created_other:
  assumes "find_operation oid db \<noteq> None" "find_operation (cb_id input) db = None"
  shows "load_operation oid (created_db input initial at db) = load_operation oid db"
proof -
  have "find_operation oid (created_db input initial at db) = find_operation oid db"
    using assms(1) by (auto simp: find_operation_def created_db_def find_append_Some)
  moreover have "oid \<noteq> cb_id input" using assms by auto
  ultimately show ?thesis by (simp add: load_operation_def)
qed

lemma more_appended [simp]:
  "bridge_stage_evidence (appended_db command op at w) = bridge_stage_evidence w"
  "calls (appended_db command op at w) = calls w"
  "find_evidence oid stg (appended_db command op at w) = find_evidence oid stg w"
  "bridge_stage_evidence (created_db input initial at w) = bridge_stage_evidence w"
  "calls (created_db input initial at w) = calls w"
  "find_evidence oid stg (created_db input initial at w) = find_evidence oid stg w"
  by (simp_all add: appended_db_def created_db_def find_evidence_def)

lemma appended_terms:
  "same_terms a op \<longleftrightarrow> same_terms a ((appended_operation command op)\<lparr>op_transitions := ts\<rparr>)"
  by (simp add: same_terms_def appended_operation_def)

lemma grows_appended:
  assumes "tx_wf w" "append_guard command op w"
  shows "grows w (appended_db command op at w)"
proof -
  have load: "load_operation (cmd_operationId command) w = Some op"
    using assms(2) by (simp add: append_guard_def)
  have "stored_terms a (appended_db command op at w)" if "stored_terms a w" for a
  proof (cases "op_id a = cmd_operationId command")
    case True
    then have "same_terms a op" using that load by (simp add: stored_terms_def)
    then show ?thesis
      using True load_appended [OF assms] appended_terms unfolding stored_terms_def by metis
  next
    case False
    then show ?thesis using that by (simp add: stored_terms_def load_appended_other)
  qed
  then show ?thesis by (auto simp: grows_def find_operation_updates)
qed

lemma grows_created:
  assumes "find_operation (cb_id input) w = None"
  shows "grows w (created_db input initial at w)"
proof -
  have "stored_terms a (created_db input initial at w)" if "stored_terms a w" for a
  proof -
    from that have "find_operation (op_id a) w \<noteq> None"
      unfolding loads_iff [symmetric] by (auto simp: stored_terms_def)
    then show ?thesis using that by (simp add: stored_terms_def load_created_other assms)
  qed
  then show ?thesis by (auto simp: grows_def find_operation_updates)
qed

lemma appended_world:
  assumes w: "world_ok None w" and g: "append_guard command op w"
    and gate: "gate_open (cmd_to command) (cmd_operationId command) w"
  shows "world_ok None (appended_db command op at w)"
proof (rule world_ok_tables [OF w])
  have wf: "tx_wf w" using w by (simp add: world_ok_def)
  show "grows w (appended_db command op at w)" using grows_appended [OF wf g] .
  show "tx_wf (appended_db command op at w)" using appended_wf [OF wf g] .
qed (use gate in \<open>auto split: if_splits\<close>)

lemma engine_transition_world:
  assumes w: "world_ok None w" and run: "engine_transition pg_ts command w = (r, w')"
    and gate: "gate_open (cmd_to command) (cmd_operationId command) w"
  shows "world_ok None w'"
  using engine_transition_cases [OF run] appended_world [OF w _ gate] w by blast

lemma engine_create_world:
  assumes w: "world_ok None w" and run: "engine_create pg_ts input w = (r, w')"
  shows "world_ok None w'"
  using engine_create_cases [OF run]
proof (elim disjE exE conjE)
  fix at
  assume g: "create_guard input" "find_operation (cb_id input) w = None"
    and w': "w' = created_db input (initial_transition input) at w"
  show ?thesis
    unfolding w'
  proof (rule world_ok_tables [OF w grows_created])
    show "tx_wf (created_db input (initial_transition input) at w)"
      using w g by (intro created_wf) (simp_all add: world_ok_def create_guard_def initial_transition_def)
  qed (use g in \<open>auto simp: initial_transition_def gate_open_def split: if_splits\<close>)
qed (use w in simp)

lemma engine_record_attempt_world:
  assumes w: "world_ok None w" and run: "engine_record_attempt pg_ts attempt w = (r, w')"
  shows "world_ok None w'"
  using engine_record_attempt_cases [OF run]
proof (elim disjE exE conjE)
  fix at
  assume w': "w' = w\<lparr>transaction_attempts := transaction_attempts w @ [recorded_row attempt at]\<rparr>"
    and g: "find_operation (ta_operationId attempt) w \<noteq> None"
      "\<forall>t \<in> set (transaction_attempts w). arow_operation_id t = ta_operationId attempt \<longrightarrow>
         arow_attempt_key t \<noteq> ta_attemptKey attempt"
  have load: "load_operation oid w' = load_operation oid w" for oid
    by (simp add: w' load_operation_def find_operation_def transition_rows_def)
  show ?thesis
  proof (rule world_ok_tables [OF w])
    show "grows w w'" using load
      by (simp add: grows_def stored_terms_def) (simp add: w' find_evidence_def find_operation_def)
    show "tx_wf w'" using recorded_wf [OF _ g] w by (simp add: w' world_ok_def)
  qed (simp_all add: w')
qed (use w in simp)

section \<open>The moves of a coordinator\<close>

definition in_step :: "operation \<Rightarrow> world \<Rightarrow> bool" where
  "in_step op w \<longleftrightarrow> (\<exists>op'. load_operation (op_id op) w = Some op' \<and> same_terms op op'
     \<and> op_state op' = op_state op \<and> op_version op' = op_version op)"

definition ready :: "operation \<Rightarrow> world \<Rightarrow> bool" where
  "ready op w \<longleftrightarrow> world_ok None w \<and> in_step op w"

definition flow_transition ::
  "pg_timestamp \<Rightarrow> (bridge_call list \<Rightarrow> js_date) \<Rightarrow> string \<Rightarrow> operation \<Rightarrow> bridge_state \<Rightarrow> string
     \<Rightarrow> policy_decision option \<Rightarrow> (world, operation) comp" where
  "flow_transition pg_ts clock actor operation to reason policyDecision =
     and_then (now clock) (\<lambda>d. and_then (iso_string d) (\<lambda>occurredAt.
       engine_transition pg_ts
         \<lparr>cmd_operationId = op_id operation,
          cmd_transitionKey = op_id operation @ '':'' @ state_text to,
          cmd_expectedVersion = op_version operation, cmd_to = to, cmd_occurredAt = occurredAt,
          cmd_reason = reason, cmd_actor = actor, cmd_attempt = JInt 1,
          cmd_policyDecision = policyDecision\<rparr>))"

lemma now_eq: "now clock w = (Inr (clock (calls w)), log_call (NowCall (clock (calls w))) w)"
  by (simp add: now_def log_call_def Let_def)

lemma call_eq: "call entry f w = (f (calls w), log_call (entry (f (calls w))) w)"
  by (simp add: call_def log_call_def Let_def)

lemma in_step_log [simp]: "in_step op (log_call c w) \<longleftrightarrow> in_step op w"
  by (simp add: in_step_def)

lemma in_step_evidence [simp]: "in_step op (add_evidence e w) \<longleftrightarrow> in_step op w"
  by (simp add: in_step_def)

lemma engine_transition_ready:
  assumes r: "ready op w" and step: "can_transition (op_state op) (cmd_to command)"
    and c: "cmd_operationId command = op_id op"
    and run: "engine_transition pg_ts command w = (Inr op', w')"
  shows "in_step op' w' \<and> op_id op' = op_id op \<and> op_state op' = cmd_to command"
proof -
  have wf: "tx_wf w" using r by (simp add: ready_def world_ok_def)
  obtain op0 where op0: "load_operation (op_id op) w = Some op0" "same_terms op op0"
    "op_state op0 = op_state op" "op_version op0 = op_version op"
    using r by (auto simp: ready_def in_step_def)
  from engine_transition_cases [OF run] show ?thesis
  proof (elim disjE conjE exE)
    assume "\<forall>op. Inr op' = Inr op \<longrightarrow> load_operation (cmd_operationId command) w = Some op
        \<and> (\<exists>row. find_transition_row (cmd_operationId command) (cmd_transitionKey command) w = Some row
             \<and> trow_to_state row = cmd_to command)"
    then obtain row where "find_transition_row (op_id op) (cmd_transitionKey command) w = Some row"
      "trow_to_state row = cmd_to command" using c by auto
    from recorded_transition_blocked [OF wf this(1)] this(2) op0 step show ?thesis by simp
  next
    fix op1 at
    assume g: "append_guard command op1 w" and res: "Inr op' = Inr (returned_operation command op1 at)"
      and w': "w' = appended_db command op1 at w"
    have "op1 = op0" using g op0(1) c by (simp add: append_guard_def)
    moreover have "op_id op0 = op_id op" using op0(2) by (simp add: same_terms_def)
    ultimately show ?thesis
      using load_appended [OF wf g, of at] res w' c
      by (simp add: in_step_def returned_operation_def appended_operation_def same_terms_def)
  qed
qed

lemma flow_transition_triple:
  "hoare (\<lambda>w. ready op w \<and> can_transition (op_state op) to \<and> gate_open to (op_id op) w)
     (flow_transition pg_ts clock actor op to reason pd)
     (\<lambda>op' w. ready op' w \<and> op_id op' = op_id op \<and> op_state op' = to) (\<lambda>_. world_ok None)"
proof (rule hoareI)
  fix w r w'
  assume pre: "ready op w \<and> can_transition (op_state op) to \<and> gate_open to (op_id op) w"
    and run: "flow_transition pg_ts clock actor op to reason pd w = (Inr r, w')"
  let ?w1 = "log_call (NowCall (clock (calls w))) w"
  have r1: "ready op ?w1" and g1: "gate_open to (op_id op) ?w1"
    using pre world_ok_clock [of None w "clock (calls w)"] by (auto simp: ready_def split: if_splits)
  from run obtain t where "clock (calls w) = Some t" "engine_transition pg_ts
      \<lparr>cmd_operationId = op_id op, cmd_transitionKey = op_id op @ '':'' @ state_text to,
       cmd_expectedVersion = op_version op, cmd_to = to, cmd_occurredAt = to_iso_string t,
       cmd_reason = reason, cmd_actor = actor, cmd_attempt = JInt 1, cmd_policyDecision = pd\<rparr> ?w1 = (Inr r, w')"
    by (auto simp: flow_transition_def and_then_def now_eq iso_string_def split: option.splits)
  then show "ready r w' \<and> op_id r = op_id op \<and> op_state r = to"
    using engine_transition_ready [OF r1, rotated 2] engine_transition_world r1 g1 pre
    by (fastforce simp: ready_def)
next
  fix w e w'
  assume pre: "ready op w \<and> can_transition (op_state op) to \<and> gate_open to (op_id op) w"
    and run: "flow_transition pg_ts clock actor op to reason pd w = (Inl e, w')"
  let ?w1 = "log_call (NowCall (clock (calls w))) w"
  have w1: "world_ok None ?w1" "gate_open to (op_id op) ?w1"
    using pre world_ok_clock [of None w "clock (calls w)"] by (auto simp: ready_def split: if_splits)
  then show "world_ok None w'"
    using run engine_transition_world [OF w1(1)]
    by (fastforce simp: flow_transition_def and_then_def now_eq iso_string_def split: option.splits)
qed


section \<open>Evidence\<close>

text \<open>
  What a coordinator asks of the work behind a stage: it makes at most one call, the call is
  allowed, and the data it returns is backed by the answer.
\<close>

definition produces ::
  "operation \<Rightarrow> stage \<Rightarrow> (world \<Rightarrow> bool) \<Rightarrow> (world, stage_data) comp \<Rightarrow> bool" where
  "produces op stg Pre produce \<longleftrightarrow> (\<forall>w r w'.
     ready op w \<longrightarrow> Pre w \<longrightarrow> produce w = (r, w') \<longrightarrow>
     (case r of
        Inr data \<Rightarrow> \<exists>c. w' = log_call c w \<and> call_ok w' c \<and> timely (calls w) c
          \<and> (accepted c = None \<or> accepted c = Some (op_id op, stg)) \<and> backed (op_id op) stg data w'
      | Inl e \<Rightarrow> w' = w \<or> (\<exists>c. w' = log_call c w \<and> call_ok w' c \<and> timely (calls w) c
          \<and> accepted c = None)))"

definition evidence_triple ::
  "(operation \<Rightarrow> stage \<Rightarrow> (world, stage_data) comp \<Rightarrow> (world, stage_evidence) comp) \<Rightarrow> bool" where
  "evidence_triple evidence \<longleftrightarrow> (\<forall>op stg Pre produce.
     produces op stg Pre produce \<longrightarrow> (\<forall>w d. Pre w \<longrightarrow> Pre (log_call (NowCall d) w)) \<longrightarrow>
     hoare (\<lambda>w. ready op w \<and> Pre w) (evidence op stg produce)
       (\<lambda>e w. ready op w \<and> find_evidence (op_id op) stg w = Some e) (\<lambda>_. world_ok None))"

lemma evidence_triple_hoare:
  assumes "evidence_triple evidence" "produces op stg Pre produce"
    and "\<And>w d. Pre w \<Longrightarrow> Pre (log_call (NowCall d) w)"
  shows "hoare (\<lambda>w. ready op w \<and> Pre w) (evidence op stg produce)
       (\<lambda>e w. ready op w \<and> find_evidence (op_id op) stg w = Some e) (\<lambda>_. world_ok None)"
  using assms unfolding evidence_triple_def by blast

lemma ready_log:
  "ready op w \<Longrightarrow> call_ok (log_call c w) c \<Longrightarrow> timely (calls w) c \<Longrightarrow> accepted c = None
    \<Longrightarrow> ready op (log_call c w)"
  using world_ok_log [of w c] by (simp add: ready_def)

lemma ready_clock: "ready op w \<Longrightarrow> ready op (log_call (NowCall d) w)"
  by (rule ready_log) simp_all

lemma evidence_put_ready:
  fixes at :: string
  assumes w: "world_ok pending w" "in_step op w"
    and p: "pending = None \<or> pending = Some (op_id op, stg)"
    and none: "find_evidence (op_id op) stg w = None" and b: "backed (op_id op) stg data w"
  defines "e \<equiv> \<lparr>se_operationId = op_id op, se_stage = stg, se_recordedAt = at, se_data = data\<rparr>"
  shows "evidence_put e w = (Inr e, add_evidence e w)" "ready op (add_evidence e w)"
    "find_evidence (op_id op) stg (add_evidence e w) = Some e"
proof -
  have fk: "find_operation (op_id op) w \<noteq> None"
    using w(2) unfolding loads_iff [symmetric] by (auto simp: in_step_def)
  then show "evidence_put e w = (Inr e, add_evidence e w)"
    using none by (auto simp: evidence_put_def e_def add_evidence_def)
  have "world_ok None (add_evidence e w)"
    using world_ok_evidence [OF w(1), of e] p none b fk by (simp add: e_def)
  then show "ready op (add_evidence e w)" using w(2) by (simp add: ready_def)
  show "find_evidence (op_id op) stg (add_evidence e w) = Some e"
    using none by (simp add: find_add_evidence e_def)
qed

text \<open>The answer is in the log and the record is still to be written: a valid clock, or none at all.\<close>

lemma evidence_finish:
  assumes w: "ready op w" and c: "call_ok (log_call c w) c" "timely (calls w) c"
      "accepted c = None \<or> accepted c = Some (op_id op, stg)"
    and none: "find_evidence (op_id op) stg w = None" and b: "backed (op_id op) stg data (log_call c w)"
  defines "e \<equiv> \<lambda>at. \<lparr>se_operationId = op_id op, se_stage = stg, se_recordedAt = at, se_data = data\<rparr>"
  shows "evidence_put (e at) (log_call c w) = (Inr (e at), add_evidence (e at) (log_call c w))"
    "ready op (add_evidence (e at) (log_call c w))"
    "find_evidence (op_id op) stg (add_evidence (e at) (log_call c w)) = Some (e at)"
    "world_ok None (log_call (NowCall None) (log_call c w))"
    "evidence_put (e at) (log_call (NowCall (Some t)) (log_call c w)) =
       (Inr (e at), add_evidence (e at) (log_call (NowCall (Some t)) (log_call c w)))"
    "ready op (add_evidence (e at) (log_call (NowCall (Some t)) (log_call c w)))"
    "find_evidence (op_id op) stg (add_evidence (e at) (log_call (NowCall (Some t)) (log_call c w))) = Some (e at)"
proof -
  have w1: "world_ok (accepted c) (log_call c w)" "in_step op (log_call c w)"
    using world_ok_log [OF _ c(1,2)] w by (simp_all add: ready_def)
  note now1 = evidence_put_ready [OF w1 c(3) _ b, of at]
  show "evidence_put (e at) (log_call c w) = (Inr (e at), add_evidence (e at) (log_call c w))"
    "ready op (add_evidence (e at) (log_call c w))"
    "find_evidence (op_id op) stg (add_evidence (e at) (log_call c w)) = Some (e at)"
    using now1 none by (simp_all add: e_def)
  show "world_ok None (log_call (NowCall None) (log_call c w))"
    using world_ok_clock [OF w1(1), of None] by simp
  have w2: "world_ok (accepted c) (log_call (NowCall (Some t)) (log_call c w))"
    "in_step op (log_call (NowCall (Some t)) (log_call c w))"
    using world_ok_clock [OF w1(1), of "Some t"] w1(2) by simp_all
  have b2: "backed (op_id op) stg data (log_call (NowCall (Some t)) (log_call c w))"
    using backed_mono [OF b grows_log] .
  note now2 = evidence_put_ready [OF w2 c(3) _ b2, of at]
  show "evidence_put (e at) (log_call (NowCall (Some t)) (log_call c w)) =
       (Inr (e at), add_evidence (e at) (log_call (NowCall (Some t)) (log_call c w)))"
    "ready op (add_evidence (e at) (log_call (NowCall (Some t)) (log_call c w)))"
    "find_evidence (op_id op) stg (add_evidence (e at) (log_call (NowCall (Some t)) (log_call c w))) = Some (e at)"
    using now2 none by (simp_all add: e_def)
qed

lemma produces_InrE:
  assumes "produces op stg Pre produce" "ready op w" "Pre w" "produce w = (Inr data, w')"
  obtains c where "w' = log_call c w" "call_ok (log_call c w) c" "timely (calls w) c"
    "accepted c = None \<or> accepted c = Some (op_id op, stg)" "backed (op_id op) stg data (log_call c w)"
  using assms(1) [unfolded produces_def, rule_format, OF assms(2-4)] that by auto

lemma produces_InlD:
  assumes "produces op stg Pre produce" "ready op w" "Pre w" "produce w = (Inl e, w')"
  shows "world_ok None w'"
proof -
  have "w' = w \<or> (\<exists>c. w' = log_call c w \<and> call_ok w' c \<and> timely (calls w) c \<and> accepted c = None)"
    using assms(1) [unfolded produces_def, rule_format, OF assms(2-4)] by simp
  then show ?thesis using assms(2) ready_log by (auto simp: ready_def)
qed

lemma produced:
  assumes "\<And>w r w'. ready op w \<Longrightarrow> Pre w \<Longrightarrow> produce w = (r, w') \<Longrightarrow>
     (case r of
        Inr data \<Rightarrow> \<exists>c. w' = log_call c w \<and> call_ok w' c \<and> timely (calls w) c
          \<and> (accepted c = None \<or> accepted c = Some (op_id op, stg)) \<and> backed (op_id op) stg data w'
      | Inl e \<Rightarrow> w' = w \<or> (\<exists>c. w' = log_call c w \<and> call_ok w' c \<and> timely (calls w) c
          \<and> accepted c = None))"
  shows "produces op stg Pre produce"
  using assms unfolding produces_def by blast

lemma ready_terms: "ready op w \<Longrightarrow> stored_terms op w"
  by (auto simp: ready_def in_step_def stored_terms_def)

lemma evidence_tripleI:
  assumes "\<And>op stg Pre produce w r w'. produces op stg Pre produce
      \<Longrightarrow> (\<And>w d. Pre w \<Longrightarrow> Pre (log_call (NowCall d) w)) \<Longrightarrow> ready op w \<Longrightarrow> Pre w
      \<Longrightarrow> find_evidence (op_id op) stg w = None \<Longrightarrow> evidence op stg produce w = (r, w')
      \<Longrightarrow> (case r of Inr e \<Rightarrow> ready op w' \<and> find_evidence (op_id op) stg w' = Some e | Inl _ \<Rightarrow> world_ok None w')"
    and "\<And>op stg produce w e. find_evidence (op_id op) stg w = Some e \<Longrightarrow> evidence op stg produce w = (Inr e, w)"
  shows "evidence_triple evidence"
  unfolding evidence_triple_def
proof (intro allI impI hoareI; elim conjE)
  fix op stg Pre produce w x w'
  assume *: "produces op stg Pre produce" "\<forall>w d. Pre w \<longrightarrow> Pre (log_call (NowCall d) w)"
    "ready op w" "Pre w" "evidence op stg produce w = (Inr x, w')"
  then show "ready op w' \<and> find_evidence (op_id op) stg w' = Some x"
    using assms(1) [of op stg Pre produce w "Inr x" w'] assms(2) [of op stg w]
    by (cases "find_evidence (op_id op) stg w") auto
next
  fix op stg Pre produce w x w'
  assume *: "produces op stg Pre produce" "\<forall>w d. Pre w \<longrightarrow> Pre (log_call (NowCall d) w)"
    "ready op w" "Pre w" "evidence op stg produce w = (Inl x, w')"
  then show "world_ok None w'"
    using assms(1) [of op stg Pre produce w "Inl x" w'] assms(2) [of op stg w]
    by (cases "find_evidence (op_id op) stg w") auto
qed

section \<open>The contract of a coordinator\<close>

definition flow_move ::
  "pg_timestamp \<Rightarrow> (bridge_call list \<Rightarrow> js_date) \<Rightarrow> string \<Rightarrow> operation \<Rightarrow> bridge_state \<Rightarrow> string
     \<Rightarrow> policy_decision option \<Rightarrow> (world, operation option) comp" where
  "flow_move pg_ts clock actor op to reason pd =
     and_then (flow_transition pg_ts clock actor op to reason pd) (\<lambda>next. ret (Some next))"

definition flow_required :: "interweave_id \<Rightarrow> stage \<Rightarrow> (world, stage_evidence) comp" where
  "flow_required operationId stg =
     and_then (evidence_get operationId stg) (\<lambda>value. case value of
       None \<Rightarrow> throw (RegistryError NOT_FOUND (''missing durable stage evidence: '' @ stage_text stg))
     | Some v \<Rightarrow> ret v)"

definition advanced :: "operation \<Rightarrow> operation option \<Rightarrow> world \<Rightarrow> bool" where
  "advanced op n w \<longleftrightarrow> (case n of
       None \<Rightarrow> ready op w \<and> op_state op \<in> set terminal
     | Some op' \<Rightarrow> ready op' w \<and> op_id op' = op_id op \<and> rank (op_state op) < rank (op_state op'))"

lemma flow_move_triple:
  "hoare (\<lambda>w. ready op w \<and> can_transition (op_state op) to \<and> gate_open to (op_id op) w)
     (flow_move pg_ts clock actor op to reason pd) (advanced op) (\<lambda>_. world_ok None)"
proof (rule hoareI)
  fix w n w'
  assume pre: "ready op w \<and> can_transition (op_state op) to \<and> gate_open to (op_id op) w"
    and "flow_move pg_ts clock actor op to reason pd w = (Inr n, w')"
  then obtain op' where "n = Some op'" "flow_transition pg_ts clock actor op to reason pd w = (Inr op', w')"
    by (auto simp: flow_move_def and_then_Inr_iff)
  then show "advanced op n w'"
    using hoare_InrD [OF flow_transition_triple pre] pre can_transition_rank by (auto simp: advanced_def)
next
  fix w e w'
  assume pre: "ready op w \<and> can_transition (op_state op) to \<and> gate_open to (op_id op) w"
    and "flow_move pg_ts clock actor op to reason pd w = (Inl e, w')"
  then have "flow_transition pg_ts clock actor op to reason pd w = (Inl e, w')"
    by (auto simp: flow_move_def and_then_def split: prod.splits sum.splits)
  then show "world_ok None w'" by (rule hoare_InlD [OF flow_transition_triple pre])
qed

lemma flow_required_triple:
  "hoare (ready op) (flow_required (op_id op) stg)
     (\<lambda>e w. ready op w \<and> find_evidence (op_id op) stg w = Some e) (\<lambda>_. world_ok None)"
  by (rule hoareI) (auto simp: flow_required_def evidence_get_def and_then_def ready_def split: option.splits)

lemma ready_history:
  assumes "ready op w" "\<not> failed_state (op_state op)"
  shows "history (op_id op) w = take (Suc (rank (op_state op))) main_path"
proof -
  obtain op' where op': "load_operation (op_id op) w = Some op'" "op_state op' = op_state op"
    using assms(1) by (auto simp: ready_def in_step_def)
  have "tx_wf w" using assms(1) by (simp add: ready_def world_ok_def)
  from loaded_history [OF this op'(1)] op'(2) walk_main_path assms(2) show ?thesis by metis
qed

definition stage_pre :: "interweave_id \<Rightarrow> stage \<Rightarrow> stage_evidence \<Rightarrow> world \<Rightarrow> bool" where
  "stage_pre oid stg e w \<longleftrightarrow> find_evidence oid stg w = Some e"

definition effect_pre :: "interweave_id \<Rightarrow> verified_attestation \<Rightarrow> world \<Rightarrow> bool" where
  "effect_pre oid att w \<longleftrightarrow> DESTINATION_PREPARING \<in> set (history oid w) \<and> attested oid att w
     \<and> unexpired_after (calls w) att"

lemma stage_pre_clock: "stage_pre oid stg e w \<Longrightarrow> stage_pre oid stg e (log_call (NowCall d) w)"
  by (simp add: stage_pre_def)

lemma unexpired_after_clock: "unexpired_after log att \<Longrightarrow> unexpired_after (log @ [NowCall d]) att"
  by (fastforce simp: unexpired_after_def)

lemma effect_pre_clock: "effect_pre oid att w \<Longrightarrow> effect_pre oid att (log_call (NowCall d) w)"
  by (simp add: effect_pre_def attested_def unexpired_after_clock)

lemma string_value_Inr:
  "string_value e key w = (Inr v, w') \<Longrightarrow> w' = w \<and> map_of (se_data e) key = Some (JStr v)"
  by (auto simp: string_value_def split: option.splits js_value.splits if_splits)

lemma string_value_Inl: "string_value e key w = (Inl x, w') \<Longrightarrow> w' = w"
  by (auto simp: string_value_def split: option.splits js_value.splits if_splits)

lemma attestation_from_Inr: "attestation_from e w = (Inr att, w') \<Longrightarrow> w' = w \<and> carries e att"
  by (auto simp: attestation_from_def and_then_Inr_iff carries_def dest!: string_value_Inr)

lemma attestation_from_Inl: "attestation_from e w = (Inl x, w') \<Longrightarrow> w' = w"
  by (auto simp: attestation_from_def and_then_def split: prod.splits sum.splits
      dest!: string_value_Inr string_value_Inl)

locale bridge_flow =
  fixes pg_ts :: pg_timestamp
    and clock :: "bridge_call list \<Rightarrow> js_date"
    and actor :: string
    and evidence :: "operation \<Rightarrow> stage \<Rightarrow> (world, stage_data) comp \<Rightarrow> (world, stage_evidence) comp"
    and policy :: "operation \<Rightarrow> policy_decision service"
    and source_stage effect_stage :: stage
    and submit :: "operation \<Rightarrow> (world, stage_data) comp"
    and source_confirm source_finalize attest destination_confirm destination_finalize ::
      "operation \<Rightarrow> stage_evidence \<Rightarrow> (world, stage_data) comp"
    and effect :: "operation \<Rightarrow> verified_attestation \<Rightarrow> (world, stage_data) comp"
    and reconcile :: "operation \<Rightarrow> (world, stage_data) comp"
    and why :: "bridge_state \<Rightarrow> string"
    and submitted effected :: "stage_evidence \<Rightarrow> string"
    and lapsed :: string
    and switch step :: "operation \<Rightarrow> (world, operation option) comp"
    and loop :: "nat \<Rightarrow> operation \<Rightarrow> (world, operation) comp"
    and stopped :: "operation \<Rightarrow> error"
  assumes evidence_law: "evidence_triple evidence"
    and source_stage_law: "source_stage = SOURCE_LOCK \<or> source_stage = SOURCE_BURN"
    and effect_stage_law: "effect_stage = DESTINATION_MINT \<or> effect_stage = DESTINATION_RELEASE"
    and submit_law: "produces op source_stage (\<lambda>w. POLICY_CHECKED \<in> set (history (op_id op) w)) (submit op)"
    and source_confirm_law:
      "produces op SOURCE_CONFIRMATION (stage_pre (op_id op) source_stage e) (source_confirm op e)"
    and source_finalize_law:
      "produces op SOURCE_FINALITY (stage_pre (op_id op) source_stage e) (source_finalize op e)"
    and attest_law: "produces op ATTESTATION (stage_pre (op_id op) SOURCE_FINALITY e) (attest op e)"
    and effect_law: "produces op effect_stage (effect_pre (op_id op) att) (effect op att)"
    and destination_confirm_law:
      "produces op DESTINATION_CONFIRMATION (stage_pre (op_id op) effect_stage e) (destination_confirm op e)"
    and destination_finalize_law:
      "produces op DESTINATION_FINALITY (stage_pre (op_id op) effect_stage e) (destination_finalize op e)"
    and reconcile_law: "produces op RECONCILIATION (\<lambda>_. True) (reconcile op)"
    and switch_eq: "switch op =
      (let move = (\<lambda>to reason. flow_move pg_ts clock actor op to reason None);
           required = flow_required (op_id op)
       in case op_state op of
         CREATED \<Rightarrow> and_then (call (PolicyCall op) (policy op)) (\<lambda>decision.
           flow_move pg_ts clock actor op
             (if pd_outcome decision = ALLOW then POLICY_CHECKED else POLICY_REJECTED) (why CREATED) (Some decision))
       | POLICY_CHECKED \<Rightarrow> move SOURCE_PREPARING (why POLICY_CHECKED)
       | SOURCE_PREPARING \<Rightarrow> and_then (evidence op source_stage (submit op)) (\<lambda>e.
           move SOURCE_SUBMITTED (submitted e))
       | SOURCE_SUBMITTED \<Rightarrow> and_then (required source_stage) (\<lambda>source.
           and_then (evidence op SOURCE_CONFIRMATION (source_confirm op source)) (\<lambda>e.
             move (if is_true e ''confirmed'' then SOURCE_CONFIRMED else SOURCE_FAILED) (why SOURCE_SUBMITTED)))
       | SOURCE_CONFIRMED \<Rightarrow> and_then (required source_stage) (\<lambda>source.
           and_then (evidence op SOURCE_FINALITY (source_finalize op source)) (\<lambda>e.
             move (if is_true e ''finalized'' then SOURCE_FINALIZED else SOURCE_FAILED) (why SOURCE_CONFIRMED)))
       | SOURCE_FINALIZED \<Rightarrow> move ATTESTATION_PENDING (why SOURCE_FINALIZED)
       | ATTESTATION_PENDING \<Rightarrow> and_then (required SOURCE_FINALITY) (\<lambda>finality.
           and_then (evidence op ATTESTATION (attest op finality)) (\<lambda>e.
             move (if is_true e ''satisfied'' then ATTESTED else ATTESTATION_FAILED) (why ATTESTATION_PENDING)))
       | ATTESTED \<Rightarrow> move DESTINATION_PREPARING (why ATTESTED)
       | DESTINATION_PREPARING \<Rightarrow> and_then (required ATTESTATION) (\<lambda>stored.
           and_then (attestation_from stored) (\<lambda>att. and_then (now clock) (\<lambda>d.
             if date_reached d (va_expiresAt att) then move DESTINATION_FAILED lapsed
             else and_then (evidence op effect_stage (effect op att)) (\<lambda>e.
               move DESTINATION_SUBMITTED (effected e)))))
       | DESTINATION_SUBMITTED \<Rightarrow> and_then (required effect_stage) (\<lambda>x.
           and_then (evidence op DESTINATION_CONFIRMATION (destination_confirm op x)) (\<lambda>e.
             move (if is_true e ''confirmed'' then DESTINATION_CONFIRMED else DESTINATION_FAILED)
               (why DESTINATION_SUBMITTED)))
       | DESTINATION_CONFIRMED \<Rightarrow> and_then (required effect_stage) (\<lambda>x.
           and_then (evidence op DESTINATION_FINALITY (destination_finalize op x)) (\<lambda>e.
             move (if is_true e ''finalized'' then DESTINATION_FINALIZED else DESTINATION_FAILED)
               (why DESTINATION_CONFIRMED)))
       | DESTINATION_FINALIZED \<Rightarrow> move RECONCILIATION_PENDING (why DESTINATION_FINALIZED)
       | RECONCILIATION_PENDING \<Rightarrow> and_then (evidence op RECONCILIATION (reconcile op)) (\<lambda>e.
           move (if is_true e ''matched'' then RECONCILED else RECONCILIATION_FAILED) (why RECONCILIATION_PENDING))
       | RECONCILED \<Rightarrow> move COMPLETED (why RECONCILED)
       | _ \<Rightarrow> ret None)"
    and step_eq: "step op =
      (if is_terminal (op_state op) then switch op
       else and_then (now clock) (\<lambda>d. if date_reached d (op_expiresAt op)
         then flow_move pg_ts clock actor op EXPIRED (why EXPIRED) None else switch op))"
    and loop_0: "loop 0 op = (if op_state op \<noteq> COMPLETED then throw (stopped op) else ret op)"
    and loop_Suc: "loop (Suc n) op = (if op_state op = COMPLETED then ret op
      else and_then (step op) (\<lambda>next. case next of None \<Rightarrow> ret op | Some op' \<Rightarrow> loop n op'))"
begin

lemma move:
  assumes "\<And>w. ready op w \<Longrightarrow> Pre w \<Longrightarrow> can_transition (op_state op) to \<and> gate_open to (op_id op) w"
  shows "hoare (\<lambda>w. ready op w \<and> Pre w) (flow_move pg_ts clock actor op to reason pd) (advanced op) (\<lambda>_. world_ok None)"
  using assms by (intro hoare_pre [OF flow_move_triple]) auto

lemma staged:
  assumes "produces op stg Pre produce" "\<And>w d. Pre w \<Longrightarrow> Pre (log_call (NowCall d) w)"
    and "\<And>e w. ready op w \<Longrightarrow> find_evidence (op_id op) stg w = Some e
      \<Longrightarrow> can_transition (op_state op) (to e) \<and> gate_open (to e) (op_id op) w"
  shows "hoare (\<lambda>w. ready op w \<and> Pre w)
    (and_then (evidence op stg produce) (\<lambda>e. flow_move pg_ts clock actor op (to e) (reason e) pd))
    (advanced op) (\<lambda>_. world_ok None)"
proof (rule hoare_and_then)
  show "hoare (\<lambda>w. ready op w \<and> Pre w) (evidence op stg produce)
      (\<lambda>e w. ready op w \<and> find_evidence (op_id op) stg w = Some e) (\<lambda>_. world_ok None)"
    by (rule evidence_triple_hoare [OF evidence_law assms(1)]) (rule assms(2))
qed (rule move, rule assms(3))

lemma required_staged:
  assumes "\<And>x. produces op stg (stage_pre (op_id op) req x) (produce x)"
    and "\<And>e w. ready op w \<Longrightarrow> find_evidence (op_id op) stg w = Some e
      \<Longrightarrow> can_transition (op_state op) (to e) \<and> gate_open (to e) (op_id op) w"
  shows "hoare (ready op) (and_then (flow_required (op_id op) req) (\<lambda>x.
    and_then (evidence op stg (produce x)) (\<lambda>e. flow_move pg_ts clock actor op (to e) (reason e) pd)))
    (advanced op) (\<lambda>_. world_ok None)"
proof (rule hoare_and_then [OF flow_required_triple])
  fix x
  show "hoare (\<lambda>w. ready op w \<and> find_evidence (op_id op) req w = Some x)
    (and_then (evidence op stg (produce x)) (\<lambda>e. flow_move pg_ts clock actor op (to e) (reason e) pd))
    (advanced op) (\<lambda>_. world_ok None)"
    unfolding stage_pre_def [symmetric] by (rule staged [OF assms(1) stage_pre_clock assms(2)])
qed

lemma plain_move:
  assumes "can_transition (op_state op) to" "gate to = None" "to \<noteq> SOURCE_SUBMITTED" "to \<noteq> DESTINATION_SUBMITTED"
  shows "hoare (ready op) (flow_move pg_ts clock actor op to reason pd) (advanced op) (\<lambda>_. world_ok None)"
  using assms by (intro hoare_pre [OF flow_move_triple]) (auto simp: gate_open_def)

lemma effect_staged:
  assumes state: "op_state op = DESTINATION_PREPARING"
  shows "hoare (ready op) (and_then (flow_required (op_id op) ATTESTATION) (\<lambda>stored.
    and_then (attestation_from stored) (\<lambda>att. and_then (now clock) (\<lambda>d.
      if date_reached d (va_expiresAt att) then flow_move pg_ts clock actor op DESTINATION_FAILED lapsed None
      else and_then (evidence op effect_stage (effect op att)) (\<lambda>e.
        flow_move pg_ts clock actor op DESTINATION_SUBMITTED (effected e) None)))))
    (advanced op) (\<lambda>_. world_ok None)"
proof (rule hoare_and_then [OF flow_required_triple], rule hoare_and_then)
  fix stored
  show "hoare (\<lambda>w. ready op w \<and> find_evidence (op_id op) ATTESTATION w = Some stored)
    (attestation_from stored) (\<lambda>att w. ready op w \<and> attested (op_id op) att w) (\<lambda>_. world_ok None)"
    by (rule hoareI) (auto simp: attested_def ready_def dest!: attestation_from_Inr attestation_from_Inl)
next
  fix stored att
  show "hoare (\<lambda>w. ready op w \<and> attested (op_id op) att w) (and_then (now clock) (\<lambda>d.
      if date_reached d (va_expiresAt att) then flow_move pg_ts clock actor op DESTINATION_FAILED lapsed None
      else and_then (evidence op effect_stage (effect op att)) (\<lambda>e.
        flow_move pg_ts clock actor op DESTINATION_SUBMITTED (effected e) None)))
    (advanced op) (\<lambda>_. world_ok None)"
  proof (rule hoare_and_then)
    show "hoare (\<lambda>w. ready op w \<and> attested (op_id op) att w) (now clock)
        (\<lambda>d w. ready op w \<and> (date_reached d (va_expiresAt att) \<or> effect_pre (op_id op) att w)) (\<lambda>_. world_ok None)"
    proof (rule hoareI)
      fix w d w'
      assume w: "ready op w \<and> attested (op_id op) att w" and "now clock w = (Inr d, w')"
      then have w': "w' = log_call (NowCall d) w" by (auto simp: now_eq)
      have "DESTINATION_PREPARING \<in> set (history (op_id op) w')"
        using ready_history [of op w] w state by (simp add: w' failed_state_def terminal_def main_path_def)
      moreover have "\<not> date_reached d (va_expiresAt att) \<Longrightarrow> unexpired_after (calls w') att"
        unfolding unexpired_after_def w' by (intro exI [of _ "calls w"] exI [of _ d] exI [of _ "[]"]) simp
      ultimately show "ready op w' \<and> (date_reached d (va_expiresAt att) \<or> effect_pre (op_id op) att w')"
        using w ready_clock [of op w d] by (auto simp: effect_pre_def w' attested_def)
    qed (simp add: now_eq)
  next
    fix d
    show "hoare (\<lambda>w. ready op w \<and> (date_reached d (va_expiresAt att) \<or> effect_pre (op_id op) att w))
      (if date_reached d (va_expiresAt att) then flow_move pg_ts clock actor op DESTINATION_FAILED lapsed None
      else and_then (evidence op effect_stage (effect op att)) (\<lambda>e.
        flow_move pg_ts clock actor op DESTINATION_SUBMITTED (effected e) None)) (advanced op) (\<lambda>_. world_ok None)"
    proof (rule hoare_if)
      assume "\<not> date_reached d (va_expiresAt att)"
      moreover have "hoare (\<lambda>w. ready op w \<and> effect_pre (op_id op) att w)
        (and_then (evidence op effect_stage (effect op att)) (\<lambda>e.
          flow_move pg_ts clock actor op DESTINATION_SUBMITTED (effected e) None)) (advanced op) (\<lambda>_. world_ok None)"
        by (rule staged [OF effect_law effect_pre_clock])
          (use state effect_stage_law in \<open>auto simp: can_transition_def terminal_def gate_open_def\<close>)
      ultimately show "hoare (\<lambda>w. ready op w \<and> (date_reached d (va_expiresAt att) \<or> effect_pre (op_id op) att w))
        (and_then (evidence op effect_stage (effect op att)) (\<lambda>e.
          flow_move pg_ts clock actor op DESTINATION_SUBMITTED (effected e) None)) (advanced op) (\<lambda>_. world_ok None)"
        by simp
    qed (use state in \<open>intro move, simp add: can_transition_def terminal_def gate_open_def\<close>)
  qed
qed

lemma policy_triple:
  assumes "op_state op = CREATED"
  shows "hoare (ready op) (and_then (call (PolicyCall op) (policy op)) (\<lambda>decision.
      flow_move pg_ts clock actor op
        (if pd_outcome decision = ALLOW then POLICY_CHECKED else POLICY_REJECTED) (why CREATED) (Some decision)))
    (advanced op) (\<lambda>_. world_ok None)"
proof (rule hoare_and_then)
  show "hoare (ready op) (call (PolicyCall op) (policy op)) (\<lambda>_. ready op) (\<lambda>_. world_ok None)"
    by (rule hoareI) (auto simp: call_eq intro!: ready_log dest: ready_log [where c = "PolicyCall op x" for x],
        auto simp: ready_def dest: world_ok_log [where c = "PolicyCall op x" for x])
qed (rule plain_move, use assms in \<open>auto simp: can_transition_def terminal_def\<close>)

lemma switch_triple: "hoare (ready op) (switch op) (advanced op) (\<lambda>_. world_ok None)"
proof -
  have trivial: "hoare (ready op) (ret None) (advanced op) (\<lambda>_. world_ok None)"
    if "op_state op \<in> set terminal"
    by (rule hoare_ret) (use that in \<open>simp add: advanced_def\<close>)
  have submitting: "hoare (ready op) (and_then (evidence op source_stage (submit op))
      (\<lambda>e. flow_move pg_ts clock actor op SOURCE_SUBMITTED (submitted e) None)) (advanced op) (\<lambda>_. world_ok None)"
    if "op_state op = SOURCE_PREPARING"
  proof (rule hoare_pre [OF staged [OF submit_law]])
    fix w assume "ready op w"
    then show "ready op w \<and> POLICY_CHECKED \<in> set (history (op_id op) w)"
      using ready_history [of op w] that by (simp add: failed_state_def terminal_def main_path_def)
  qed (use that source_stage_law in \<open>auto simp: can_transition_def terminal_def gate_open_def\<close>)
  have reconciling: "hoare (ready op) (and_then (evidence op RECONCILIATION (reconcile op)) (\<lambda>e.
      flow_move pg_ts clock actor op (if is_true e ''matched'' then RECONCILED else RECONCILIATION_FAILED)
        (why RECONCILIATION_PENDING) None)) (advanced op) (\<lambda>_. world_ok None)"
    if "op_state op = RECONCILIATION_PENDING"
    by (rule hoare_pre [OF staged [OF reconcile_law]])
      (use that in \<open>auto simp: can_transition_def terminal_def gate_open_def\<close>)
  note simps = switch_eq Let_def can_transition_def terminal_def gate_open_def
  show ?thesis
    by (cases "op_state op")
      (auto simp: simps intro!: policy_triple plain_move submitting effect_staged reconciling trivial
        required_staged [OF source_confirm_law] required_staged [OF source_finalize_law]
        required_staged [OF attest_law] required_staged [OF destination_confirm_law]
        required_staged [OF destination_finalize_law])
qed

lemma step_triple: "hoare (ready op) (step op) (advanced op) (\<lambda>_. world_ok None)"
proof -
  have clocked: "hoare (ready op) (now clock) (\<lambda>_. ready op) (\<lambda>_. world_ok None)"
    by (rule hoareI) (auto simp: now_eq intro: ready_clock)
  have "hoare (ready op) (flow_move pg_ts clock actor op EXPIRED (why EXPIRED) None) (advanced op) (\<lambda>_. world_ok None)"
    if "\<not> is_terminal (op_state op)"
    by (rule plain_move) (use that in \<open>auto simp: can_transition_def is_terminal_def terminal_def\<close>)
  then show ?thesis
    unfolding step_eq by (intro hoare_if hoare_and_then [OF clocked] switch_triple)
qed

lemma loop_triple:
  "16 \<le> n + rank (op_state op) \<Longrightarrow>
   hoare (ready op) (loop n op)
     (\<lambda>op' w. ready op' w \<and> op_id op' = op_id op \<and> op_state op' \<in> set terminal) (\<lambda>_. world_ok None)"
proof (induction n arbitrary: op)
  case 0
  then show ?case using rank_le [of "op_state op"] by simp
next
  case (Suc n)
  show ?case
  proof (cases "op_state op = COMPLETED")
    case True
    then show ?thesis by (simp add: hoare_def loop_Suc terminal_def)
  next
    case False
    have "hoare (advanced op n') (case n' of None \<Rightarrow> ret op | Some op' \<Rightarrow> loop n op')
        (\<lambda>op' w. ready op' w \<and> op_id op' = op_id op \<and> op_state op' \<in> set terminal) (\<lambda>_. world_ok None)" for n'
    proof (cases n')
      case (Some op')
      show ?thesis
      proof (cases "rank (op_state op) < rank (op_state op') \<and> op_id op' = op_id op")
        case True
        then have "16 \<le> n + rank (op_state op')" using Suc.prems by simp
        from Suc.IH [OF this] True show ?thesis
          unfolding Some by (auto simp: advanced_def intro: hoare_pre)
      qed (auto simp: hoare_def advanced_def Some)
    qed (auto simp: advanced_def intro!: hoare_ret)
    then show ?thesis using False by (simp add: loop_Suc hoare_and_then [OF step_triple])
  qed
qed

text \<open>The guard of the loop never stops it: one more iteration makes no difference.\<close>

lemma loop_fuel: "16 \<le> n + rank (op_state op) \<Longrightarrow> ready op w \<Longrightarrow> loop (Suc n) op w = loop n op w"
proof (induction n arbitrary: op w)
  case 0
  then show ?case using rank_le [of "op_state op"] by simp
next
  case (Suc n)
  have adv: "advanced op x w'" if "step op w = (Inr x, w')" for x w'
    using hoare_InrD [OF step_triple Suc.prems(2) that] .
  have "loop (Suc n) op' w' = loop n op' w'" if "step op w = (Inr (Some op'), w')" for op' w'
    using Suc.IH [of op' w'] adv [OF that] Suc.prems(1) by (simp add: advanced_def)
  then show ?case
    by (subst (1 2) loop_Suc) (auto simp: and_then_def split: prod.split sum.split option.split)
qed

lemma loop_fuel_le: "ready op w \<Longrightarrow> loop (24 + n) op w = loop 24 op w"
proof (induction n)
  case (Suc n)
  then show ?case using loop_fuel [of "24 + n" op w] by (simp only: add_Suc_right)
qed simp

end

end
