(* ===== verification/Lock_Mint.thy ===== *)
theory Lock_Mint
  imports Bridge_Flow
begin

text \<open>
  The Canton to EVM lock and mint coordinator of packages/core/src/lock-mint-coordinator.ts. The
  services it depends on are the fields of \<open>lock_mint_services\<close>; the engine and the stores are
  those of the development. \<open>lock_mint_step\<close> is the body of the \<open>for\<close> loop, \<open>None\<close> its
  \<open>return operation\<close> in the default branch.
\<close>

record lock_mint_services =
  lm_pg_ts :: pg_timestamp
  lm_now :: "bridge_call list \<Rightarrow> js_date"
  lm_actor :: "string option"
  lm_policy :: "operation \<Rightarrow> policy_decision service"
  lm_lock :: "operation \<Rightarrow> (string \<times> string) service"
  lm_source_confirm :: "operation \<Rightarrow> string \<Rightarrow> (bool \<times> string) service"
  lm_source_finalize :: "operation \<Rightarrow> string \<Rightarrow> (bool \<times> string \<times> string) service"
  lm_attest :: "operation \<Rightarrow> stage_evidence \<Rightarrow> (bool \<times> verified_attestation) service"
  lm_mint :: "operation \<Rightarrow> verified_attestation \<Rightarrow> (string \<times> effect_outcome) service"
  lm_destination_confirm :: "operation \<Rightarrow> string \<Rightarrow> (bool \<times> string) service"
  lm_destination_finalize :: "operation \<Rightarrow> string \<Rightarrow> (bool \<times> string \<times> string) service"
  lm_reconcile :: "operation \<Rightarrow> (bool \<times> string \<times> string \<times> string) service"

definition lm_actor_name :: "lock_mint_services \<Rightarrow> string" where
  "lm_actor_name svc = (case lm_actor svc of Some a \<Rightarrow> a | None \<Rightarrow> ''lock-mint-coordinator'')"

definition lm_operation :: "interweave_id \<Rightarrow> ('r world_scheme, operation) comp" where
  "lm_operation oid = and_then (store_get oid) (\<lambda>value. case value of
     None \<Rightarrow> throw (RegistryError NOT_FOUND (''operation not found: '' @ oid)) | Some v \<Rightarrow> ret v)"

definition lm_transition ::
  "lock_mint_services \<Rightarrow> operation \<Rightarrow> bridge_state \<Rightarrow> string \<Rightarrow> policy_decision option
     \<Rightarrow> ('r world_scheme, operation) comp" where
  "lm_transition svc operation to reason policyDecision =
     and_then (now (lm_now svc)) (\<lambda>d. and_then (iso_string d) (\<lambda>occurredAt.
       engine_transition (lm_pg_ts svc)
         \<lparr>cmd_operationId = op_id operation,
          cmd_transitionKey = op_id operation @ '':'' @ state_text to,
          cmd_expectedVersion = op_version operation, cmd_to = to, cmd_occurredAt = occurredAt,
          cmd_reason = reason, cmd_actor = lm_actor_name svc, cmd_attempt = JInt 1,
          cmd_policyDecision = policyDecision\<rparr>))"

definition lm_evidence ::
  "lock_mint_services \<Rightarrow> operation \<Rightarrow> stage \<Rightarrow> ('r world_scheme, stage_data) comp
     \<Rightarrow> ('r world_scheme, stage_evidence) comp" where
  "lm_evidence svc operation stg produce =
     and_then (evidence_get (op_id operation) stg) (\<lambda>existing. case existing of
       Some e \<Rightarrow> ret e
     | None \<Rightarrow> and_then produce (\<lambda>data. and_then (now (lm_now svc)) (\<lambda>d.
         and_then (iso_string d) (\<lambda>recordedAt.
           evidence_put \<lparr>se_operationId = op_id operation, se_stage = stg,
             se_recordedAt = recordedAt, se_data = data\<rparr>))))"

definition lm_required_evidence ::
  "interweave_id \<Rightarrow> stage \<Rightarrow> ('r world_scheme, stage_evidence) comp" where
  "lm_required_evidence operationId stg =
     and_then (evidence_get operationId stg) (\<lambda>value. case value of
       None \<Rightarrow> throw (RegistryError NOT_FOUND (''missing durable stage evidence: '' @ stage_text stg))
     | Some v \<Rightarrow> ret v)"

section \<open>The calls behind the evidence\<close>

definition lm_produce_lock :: "lock_mint_services \<Rightarrow> operation \<Rightarrow> ('r world_scheme, stage_data) comp" where
  "lm_produce_lock svc operation =
     and_then (call (LockCall operation) (lm_lock svc operation)) (\<lambda>(transactionId, lockId).
     and_then (require_text transactionId ''source transaction ID'') (\<lambda>_.
     and_then (require_text lockId ''Canton lock ID'') (\<lambda>_.
       ret [(''transactionId'', JStr transactionId), (''lockId'', JStr lockId)])))"

definition lm_produce_source_confirmation ::
  "lock_mint_services \<Rightarrow> operation \<Rightarrow> stage_evidence \<Rightarrow> ('r world_scheme, stage_data) comp" where
  "lm_produce_source_confirmation svc operation source =
     and_then (string_value source ''transactionId'') (\<lambda>transactionId.
     and_then (call (SourceConfirmCall operation transactionId)
         (lm_source_confirm svc operation transactionId)) (\<lambda>(confirmed, position).
     and_then (require_text position ''source confirmation position'') (\<lambda>_.
       ret [(''confirmed'', JBool confirmed), (''position'', JStr position)])))"

definition lm_produce_source_finality ::
  "lock_mint_services \<Rightarrow> operation \<Rightarrow> stage_evidence \<Rightarrow> ('r world_scheme, stage_data) comp" where
  "lm_produce_source_finality svc operation source =
     and_then (string_value source ''transactionId'') (\<lambda>transactionId.
     and_then (call (SourceFinalizeCall operation transactionId)
         (lm_source_finalize svc operation transactionId)) (\<lambda>(finalized, position, evidenceId).
     and_then (require_text position ''source finality position'') (\<lambda>_.
     and_then (require_text evidenceId ''source finality evidence ID'') (\<lambda>_.
       ret [(''finalized'', JBool finalized), (''position'', JStr position),
            (''evidenceId'', JStr evidenceId)]))))"

definition lm_produce_attestation ::
  "lock_mint_services \<Rightarrow> operation \<Rightarrow> stage_evidence \<Rightarrow> ('r world_scheme, stage_data) comp" where
  "lm_produce_attestation svc operation finality =
     and_then (call (AttestCall operation finality) (lm_attest svc operation finality)) (\<lambda>r.
       ret (attestation_data r))"

definition lm_produce_mint ::
  "lock_mint_services \<Rightarrow> operation \<Rightarrow> verified_attestation \<Rightarrow> ('r world_scheme, stage_data) comp" where
  "lm_produce_mint svc operation att =
     and_then (call (MintCall operation att) (lm_mint svc operation att)) (\<lambda>(transactionId, outcome).
       ret [(''transactionId'', JStr transactionId), (''outcome'', JStr (outcome_text outcome))])"

definition lm_produce_destination_confirmation ::
  "lock_mint_services \<Rightarrow> operation \<Rightarrow> stage_evidence \<Rightarrow> ('r world_scheme, stage_data) comp" where
  "lm_produce_destination_confirmation svc operation mint =
     and_then (string_value mint ''transactionId'') (\<lambda>transactionId.
     and_then (call (DestinationConfirmCall operation transactionId)
         (lm_destination_confirm svc operation transactionId)) (\<lambda>(confirmed, blockNumber).
     and_then (require_text blockNumber ''destination confirmation block'') (\<lambda>_.
       ret [(''confirmed'', JBool confirmed), (''blockNumber'', JStr blockNumber)])))"

definition lm_produce_destination_finality ::
  "lock_mint_services \<Rightarrow> operation \<Rightarrow> stage_evidence \<Rightarrow> ('r world_scheme, stage_data) comp" where
  "lm_produce_destination_finality svc operation mint =
     and_then (string_value mint ''transactionId'') (\<lambda>transactionId.
     and_then (call (DestinationFinalizeCall operation transactionId)
         (lm_destination_finalize svc operation transactionId)) (\<lambda>(finalized, position, evidenceId).
     and_then (require_text position ''destination finality position'') (\<lambda>_.
     and_then (require_text evidenceId ''destination finality evidence ID'') (\<lambda>_.
       ret [(''finalized'', JBool finalized), (''position'', JStr position),
            (''evidenceId'', JStr evidenceId)]))))"

definition lm_produce_reconciliation ::
  "lock_mint_services \<Rightarrow> operation \<Rightarrow> ('r world_scheme, stage_data) comp" where
  "lm_produce_reconciliation svc operation =
     and_then (call (\<lambda>r. ReconcileCall operation (map_sum id (\<lambda>(m, a, b, c). (m, [a, b, c])) r))
         (lm_reconcile svc operation)) (\<lambda>(matched, sourceLocked, destinationSupply, evidenceId).
       ret [(''matched'', JBool matched), (''sourceLocked'', JStr sourceLocked),
            (''destinationSupply'', JStr destinationSupply), (''evidenceId'', JStr evidenceId)])"

section \<open>The loop\<close>

definition lock_mint_switch ::
  "lock_mint_services \<Rightarrow> operation \<Rightarrow> ('r world_scheme, operation option) comp" where
  "lock_mint_switch svc operation =
    (let transition = (\<lambda>to reason. and_then (lm_transition svc operation to reason None)
           (\<lambda>next. ret (Some next)));
         evidence = lm_evidence svc operation;
         required = lm_required_evidence (op_id operation)
     in case op_state operation of
       CREATED \<Rightarrow>
         and_then (call (PolicyCall operation) (lm_policy svc operation)) (\<lambda>decision.
         and_then (lm_transition svc operation
             (if pd_outcome decision = ALLOW then POLICY_CHECKED else POLICY_REJECTED)
             ''policy evaluated'' (Some decision)) (\<lambda>next. ret (Some next)))
     | POLICY_CHECKED \<Rightarrow> transition SOURCE_PREPARING ''prepare Canton lock''
     | SOURCE_PREPARING \<Rightarrow>
         and_then (evidence SOURCE_LOCK (lm_produce_lock svc operation)) (\<lambda>e.
           transition SOURCE_SUBMITTED (''Canton lock submitted: '' @ evidence_field e ''transactionId''))
     | SOURCE_SUBMITTED \<Rightarrow>
         and_then (required SOURCE_LOCK) (\<lambda>source.
         and_then (evidence SOURCE_CONFIRMATION (lm_produce_source_confirmation svc operation source)) (\<lambda>e.
           transition (if is_true e ''confirmed'' then SOURCE_CONFIRMED else SOURCE_FAILED)
             ''Canton lock confirmation evaluated''))
     | SOURCE_CONFIRMED \<Rightarrow>
         and_then (required SOURCE_LOCK) (\<lambda>source.
         and_then (evidence SOURCE_FINALITY (lm_produce_source_finality svc operation source)) (\<lambda>e.
           transition (if is_true e ''finalized'' then SOURCE_FINALIZED else SOURCE_FAILED)
             ''Canton finality evaluated''))
     | SOURCE_FINALIZED \<Rightarrow> transition ATTESTATION_PENDING ''request independent validator attestations''
     | ATTESTATION_PENDING \<Rightarrow>
         and_then (required SOURCE_FINALITY) (\<lambda>finality.
         and_then (evidence ATTESTATION (lm_produce_attestation svc operation finality)) (\<lambda>e.
           transition (if is_true e ''satisfied'' then ATTESTED else ATTESTATION_FAILED)
             ''threshold attestation evaluated''))
     | ATTESTED \<Rightarrow> transition DESTINATION_PREPARING ''prepare replay-protected EVM mint''
     | DESTINATION_PREPARING \<Rightarrow>
         and_then (required ATTESTATION) (\<lambda>stored.
         and_then (attestation_from stored) (\<lambda>att.
         and_then (now (lm_now svc)) (\<lambda>d.
           if date_reached d (va_expiresAt att)
           then transition DESTINATION_FAILED ''threshold attestation expired before mint''
           else and_then (evidence DESTINATION_MINT (lm_produce_mint svc operation att)) (\<lambda>e.
             transition DESTINATION_SUBMITTED (''EVM mint '' @ evidence_field e ''outcome'')))))
     | DESTINATION_SUBMITTED \<Rightarrow>
         and_then (required DESTINATION_MINT) (\<lambda>mint.
         and_then (evidence DESTINATION_CONFIRMATION
             (lm_produce_destination_confirmation svc operation mint)) (\<lambda>e.
           transition (if is_true e ''confirmed'' then DESTINATION_CONFIRMED else DESTINATION_FAILED)
             ''EVM mint confirmation evaluated''))
     | DESTINATION_CONFIRMED \<Rightarrow>
         and_then (required DESTINATION_MINT) (\<lambda>mint.
         and_then (evidence DESTINATION_FINALITY
             (lm_produce_destination_finality svc operation mint)) (\<lambda>e.
           transition (if is_true e ''finalized'' then DESTINATION_FINALIZED else DESTINATION_FAILED)
             ''EVM mint finality evaluated''))
     | DESTINATION_FINALIZED \<Rightarrow> transition RECONCILIATION_PENDING ''reconcile backing and representation supply''
     | RECONCILIATION_PENDING \<Rightarrow>
         and_then (evidence RECONCILIATION (lm_produce_reconciliation svc operation)) (\<lambda>e.
           transition (if is_true e ''matched'' then RECONCILED else RECONCILIATION_FAILED)
             ''supply reconciliation evaluated'')
     | RECONCILED \<Rightarrow> transition COMPLETED ''lock-mint operation completed''
     | _ \<Rightarrow> ret None)"

definition lock_mint_step ::
  "lock_mint_services \<Rightarrow> operation \<Rightarrow> ('r world_scheme, operation option) comp" where
  "lock_mint_step svc operation =
     (if is_terminal (op_state operation) then lock_mint_switch svc operation
      else and_then (now (lm_now svc)) (\<lambda>d.
        if date_reached d (op_expiresAt operation)
        then and_then (lm_transition svc operation EXPIRED ''bridge operation expired before completion'' None)
          (\<lambda>next. ret (Some next))
        else lock_mint_switch svc operation))"

text \<open>The loop with \<open>n\<close> iterations left.\<close>

primrec lock_mint_loop ::
  "lock_mint_services \<Rightarrow> nat \<Rightarrow> operation \<Rightarrow> ('r world_scheme, operation) comp" where
  "lock_mint_loop svc 0 operation =
     (if op_state operation \<noteq> COMPLETED
      then throw (RegistryError CONFLICT
        (''lock-mint coordinator stopped in state: '' @ state_text (op_state operation)))
      else ret operation)"
| "lock_mint_loop svc (Suc n) operation =
     (if op_state operation = COMPLETED then ret operation
      else and_then (lock_mint_step svc operation) (\<lambda>next. case next of
        None \<Rightarrow> ret operation | Some operation' \<Rightarrow> lock_mint_loop svc n operation'))"

definition lock_mint_run ::
  "lock_mint_services \<Rightarrow> interweave_id \<Rightarrow> ('r world_scheme, operation) comp" where
  "lock_mint_run svc operationId = and_then (lm_operation operationId) (lock_mint_loop svc 24)"

section \<open>The coordinator keeps the contract of a bridge flow\<close>

lemma lm_evidence_triple: "evidence_triple (lm_evidence svc)"
proof (rule evidence_tripleI)
  fix op stg Pre produce w r w'
  assume prod: "produces op stg Pre produce" and w: "ready op w" "Pre w"
    and none: "find_evidence (op_id op) stg w = None"
    and run: "lm_evidence svc op stg produce w = (r, w')"
  show "case r of Inr e \<Rightarrow> ready op w' \<and> find_evidence (op_id op) stg w' = Some e | Inl _ \<Rightarrow> world_ok None w'"
  proof (cases "produce w")
    case (Pair x w1)
    show ?thesis
    proof (cases x)
      case (Inr data)
      with Pair obtain c where c: "w1 = log_call c w" "call_ok (log_call c w) c" "timely (calls w) c"
        "accepted c = None \<or> accepted c = Some (op_id op, stg)" "backed (op_id op) stg data (log_call c w)"
        using produces_InrE [OF prod w] by blast
      show ?thesis
        using run evidence_finish [OF w(1) c(2-4) none c(5)] none Pair Inr c(1)
        by (auto simp: lm_evidence_def evidence_get_def and_then_def now_eq iso_string_def split: option.splits)
    qed (use run none Pair produces_InlD [OF prod w] in \<open>auto simp: lm_evidence_def evidence_get_def and_then_def\<close>)
  qed
qed (simp add: lm_evidence_def evidence_get_def and_then_def)

lemma lm_lock_law:
  "produces op SOURCE_LOCK (\<lambda>w. POLICY_CHECKED \<in> set (history (op_id op) w)) (lm_produce_lock svc op)"
  by (rule produced) (auto simp: lm_produce_lock_def and_then_def call_eq require_text_def
      source_effect_ok_def ready_terms split: sum.splits prod.splits if_splits, blast?)

lemma lm_source_confirm_law:
  "produces op SOURCE_CONFIRMATION (stage_pre (op_id op) SOURCE_LOCK e) (lm_produce_source_confirmation svc op e)"
  by (rule produced) (auto simp: lm_produce_source_confirmation_def and_then_def call_eq require_text_def
      stage_pre_def evidence_text_def split: sum.splits prod.splits if_splits
      dest!: string_value_Inr string_value_Inl, blast?)

lemma lm_source_finalize_law:
  "produces op SOURCE_FINALITY (stage_pre (op_id op) SOURCE_LOCK e) (lm_produce_source_finality svc op e)"
  by (rule produced) (auto simp: lm_produce_source_finality_def and_then_def call_eq require_text_def
      stage_pre_def evidence_text_def split: sum.splits prod.splits if_splits
      dest!: string_value_Inr string_value_Inl, blast?)

lemma lm_attest_law:
  "produces op ATTESTATION (stage_pre (op_id op) SOURCE_FINALITY e) (lm_produce_attestation svc op e)"
  by (rule produced) (auto simp: lm_produce_attestation_def and_then_def call_eq require_text_def
      stage_pre_def split: sum.splits prod.splits if_splits, blast?)

lemma lm_mint_law:
  "produces op DESTINATION_MINT (effect_pre (op_id op) att) (lm_produce_mint svc op att)"
  by (rule produced) (auto simp: lm_produce_mint_def and_then_def call_eq require_text_def
      effect_pre_def destination_effect_ok_def ready_terms attested_def
      split: sum.splits prod.splits if_splits, blast?)

lemma lm_destination_confirm_law:
  "produces op DESTINATION_CONFIRMATION (stage_pre (op_id op) DESTINATION_MINT e) (lm_produce_destination_confirmation svc op e)"
  by (rule produced) (auto simp: lm_produce_destination_confirmation_def and_then_def call_eq require_text_def
      stage_pre_def evidence_text_def split: sum.splits prod.splits if_splits
      dest!: string_value_Inr string_value_Inl, blast?)

lemma lm_destination_finalize_law:
  "produces op DESTINATION_FINALITY (stage_pre (op_id op) DESTINATION_MINT e) (lm_produce_destination_finality svc op e)"
  by (rule produced) (auto simp: lm_produce_destination_finality_def and_then_def call_eq require_text_def
      stage_pre_def evidence_text_def split: sum.splits prod.splits if_splits
      dest!: string_value_Inr string_value_Inl, blast?)

lemma lm_reconcile_law:
  "produces op RECONCILIATION (\<lambda>_. True) (lm_produce_reconciliation svc op)"
  by (rule produced) (auto simp: lm_produce_reconciliation_def and_then_def call_eq require_text_def
      split: sum.splits prod.splits if_splits, blast?)

lemma lm_transition_flow: "lm_transition svc = flow_transition (lm_pg_ts svc) (lm_now svc) (lm_actor_name svc)"
  by (simp add: fun_eq_iff lm_transition_def flow_transition_def)

lemma lm_required_flow: "lm_required_evidence = flow_required"
  by (simp add: fun_eq_iff lm_required_evidence_def flow_required_def)

definition lm_why :: "bridge_state \<Rightarrow> string" where
  "lm_why s = (case s of
        CREATED \<Rightarrow> ''policy evaluated''
      | POLICY_CHECKED \<Rightarrow> ''prepare Canton lock''
      | SOURCE_SUBMITTED \<Rightarrow> ''Canton lock confirmation evaluated''
      | SOURCE_CONFIRMED \<Rightarrow> ''Canton finality evaluated''
      | SOURCE_FINALIZED \<Rightarrow> ''request independent validator attestations''
      | ATTESTATION_PENDING \<Rightarrow> ''threshold attestation evaluated''
      | ATTESTED \<Rightarrow> ''prepare replay-protected EVM mint''
      | DESTINATION_SUBMITTED \<Rightarrow> ''EVM mint confirmation evaluated''
      | DESTINATION_CONFIRMED \<Rightarrow> ''EVM mint finality evaluated''
      | DESTINATION_FINALIZED \<Rightarrow> ''reconcile backing and representation supply''
      | RECONCILIATION_PENDING \<Rightarrow> ''supply reconciliation evaluated''
      | RECONCILED \<Rightarrow> ''lock-mint operation completed''
      | EXPIRED \<Rightarrow> ''bridge operation expired before completion''
      | _ \<Rightarrow> [])"

interpretation lm: bridge_flow "lm_pg_ts svc" "lm_now svc" "lm_actor_name svc" "lm_evidence svc"
  "lm_policy svc" SOURCE_LOCK DESTINATION_MINT "lm_produce_lock svc"
  "lm_produce_source_confirmation svc" "lm_produce_source_finality svc" "lm_produce_attestation svc"
  "lm_produce_destination_confirmation svc" "lm_produce_destination_finality svc"
  "lm_produce_mint svc" "lm_produce_reconciliation svc" lm_why
  "\<lambda>e. ''Canton lock submitted: '' @ evidence_field e ''transactionId''" "\<lambda>e. ''EVM mint '' @ evidence_field e ''outcome''"
  "''threshold attestation expired before mint''" "lock_mint_switch svc" "lock_mint_step svc" "lock_mint_loop svc"
  "\<lambda>op. RegistryError CONFLICT (''lock-mint coordinator stopped in state: '' @ state_text (op_state op))"
  for svc
  by unfold_locales
    (simp_all add: lm_evidence_triple lm_lock_law lm_source_confirm_law lm_source_finalize_law
      lm_attest_law lm_mint_law lm_destination_confirm_law lm_destination_finalize_law
      lm_reconcile_law lock_mint_switch_def lock_mint_step_def lm_transition_flow lm_required_flow
      flow_move_def lm_why_def Let_def cong: if_cong bridge_state.case_cong)

end
