(* ===== verification/Burn_Release.thy ===== *)
theory Burn_Release
  imports Bridge_Flow
begin

text \<open>
  The EVM to Canton burn and release coordinator of packages/core/src/burn-release-coordinator.ts,
  modelled as the lock and mint coordinator is. Its \<open>#evidence\<close> reads the clock for \<open>recordedAt\<close>
  before it awaits \<open>produce\<close>, since the fields of an object literal are evaluated in order.
\<close>

record burn_release_services =
  br_pg_ts :: pg_timestamp
  br_now :: "bridge_call list \<Rightarrow> js_date"
  br_actor :: "string option"
  br_policy :: "operation \<Rightarrow> policy_decision service"
  br_burn :: "operation \<Rightarrow> (string \<times> effect_outcome) service"
  br_source_confirm :: "operation \<Rightarrow> string \<Rightarrow> (bool \<times> string) service"
  br_source_finalize :: "operation \<Rightarrow> string \<Rightarrow> (bool \<times> string \<times> string) service"
  br_attest :: "operation \<Rightarrow> stage_evidence \<Rightarrow> (bool \<times> verified_attestation) service"
  br_release :: "operation \<Rightarrow> verified_attestation \<Rightarrow> (string \<times> string \<times> effect_outcome) service"
  br_destination_confirm :: "operation \<Rightarrow> string \<Rightarrow> (bool \<times> string) service"
  br_destination_finalize :: "operation \<Rightarrow> string \<Rightarrow> (bool \<times> string \<times> string) service"
  br_reconcile :: "operation \<Rightarrow> (bool \<times> string \<times> string \<times> string \<times> string) service"

definition br_actor_name :: "burn_release_services \<Rightarrow> string" where
  "br_actor_name svc = (case br_actor svc of Some a \<Rightarrow> a | None \<Rightarrow> ''burn-release-coordinator'')"

definition br_operation :: "interweave_id \<Rightarrow> ('r world_scheme, operation) comp" where
  "br_operation oid = and_then (store_get oid) (\<lambda>value. case value of
     None \<Rightarrow> throw (RegistryError NOT_FOUND (''operation not found: '' @ oid)) | Some v \<Rightarrow> ret v)"

definition br_transition ::
  "burn_release_services \<Rightarrow> operation \<Rightarrow> bridge_state \<Rightarrow> string \<Rightarrow> policy_decision option
     \<Rightarrow> ('r world_scheme, operation) comp" where
  "br_transition svc operation to reason policyDecision =
     and_then (now (br_now svc)) (\<lambda>d. and_then (iso_string d) (\<lambda>occurredAt.
       engine_transition (br_pg_ts svc)
         \<lparr>cmd_operationId = op_id operation,
          cmd_transitionKey = op_id operation @ '':'' @ state_text to,
          cmd_expectedVersion = op_version operation, cmd_to = to, cmd_occurredAt = occurredAt,
          cmd_reason = reason, cmd_actor = br_actor_name svc, cmd_attempt = JInt 1,
          cmd_policyDecision = policyDecision\<rparr>))"

definition br_evidence ::
  "burn_release_services \<Rightarrow> operation \<Rightarrow> stage \<Rightarrow> ('r world_scheme, stage_data) comp
     \<Rightarrow> ('r world_scheme, stage_evidence) comp" where
  "br_evidence svc operation stg produce =
     and_then (evidence_get (op_id operation) stg) (\<lambda>existing. case existing of
       Some e \<Rightarrow> ret e
     | None \<Rightarrow> and_then (now (br_now svc)) (\<lambda>d. and_then (iso_string d) (\<lambda>recordedAt.
         and_then produce (\<lambda>data.
           evidence_put \<lparr>se_operationId = op_id operation, se_stage = stg,
             se_recordedAt = recordedAt, se_data = data\<rparr>))))"

definition br_required ::
  "interweave_id \<Rightarrow> stage \<Rightarrow> ('r world_scheme, stage_evidence) comp" where
  "br_required operationId stg =
     and_then (evidence_get operationId stg) (\<lambda>value. case value of
       None \<Rightarrow> throw (RegistryError NOT_FOUND (''missing durable stage evidence: '' @ stage_text stg))
     | Some v \<Rightarrow> ret v)"

section \<open>The calls behind the evidence\<close>

definition br_produce_burn :: "burn_release_services \<Rightarrow> operation \<Rightarrow> ('r world_scheme, stage_data) comp" where
  "br_produce_burn svc operation =
     and_then (call (BurnCall operation) (br_burn svc operation)) (\<lambda>(transactionId, outcome).
     and_then (require_text transactionId ''burn transaction ID'') (\<lambda>_.
       ret [(''transactionId'', JStr transactionId), (''outcome'', JStr (outcome_text outcome))]))"

definition br_produce_source_confirmation ::
  "burn_release_services \<Rightarrow> operation \<Rightarrow> stage_evidence \<Rightarrow> ('r world_scheme, stage_data) comp" where
  "br_produce_source_confirmation svc operation source =
     and_then (string_value source ''transactionId'') (\<lambda>transactionId.
     and_then (call (SourceConfirmCall operation transactionId)
         (br_source_confirm svc operation transactionId)) (\<lambda>(confirmed, blockNumber).
     and_then (require_text blockNumber ''burn confirmation block'') (\<lambda>_.
       ret [(''confirmed'', JBool confirmed), (''blockNumber'', JStr blockNumber)])))"

definition br_produce_source_finality ::
  "burn_release_services \<Rightarrow> operation \<Rightarrow> stage_evidence \<Rightarrow> ('r world_scheme, stage_data) comp" where
  "br_produce_source_finality svc operation source =
     and_then (string_value source ''transactionId'') (\<lambda>transactionId.
     and_then (call (SourceFinalizeCall operation transactionId)
         (br_source_finalize svc operation transactionId)) (\<lambda>(finalized, position, evidenceId).
     and_then (require_text position ''burn finality position'') (\<lambda>_.
     and_then (require_text evidenceId ''burn finality evidence ID'') (\<lambda>_.
       ret [(''finalized'', JBool finalized), (''position'', JStr position),
            (''evidenceId'', JStr evidenceId)]))))"

definition br_produce_attestation ::
  "burn_release_services \<Rightarrow> operation \<Rightarrow> stage_evidence \<Rightarrow> ('r world_scheme, stage_data) comp" where
  "br_produce_attestation svc operation finality =
     and_then (call (AttestCall operation finality) (br_attest svc operation finality)) (\<lambda>r.
       ret (attestation_data r))"

definition br_produce_release ::
  "burn_release_services \<Rightarrow> operation \<Rightarrow> verified_attestation \<Rightarrow> ('r world_scheme, stage_data) comp" where
  "br_produce_release svc operation att =
     and_then (call (ReleaseCall operation att) (br_release svc operation att))
       (\<lambda>(transactionId, authorizationId, outcome).
     and_then (require_text transactionId ''Canton release transaction ID'') (\<lambda>_.
     and_then (require_text authorizationId ''Canton release authorization ID'') (\<lambda>_.
       ret [(''transactionId'', JStr transactionId), (''authorizationId'', JStr authorizationId),
            (''outcome'', JStr (outcome_text outcome))])))"

definition br_produce_destination_confirmation ::
  "burn_release_services \<Rightarrow> operation \<Rightarrow> stage_evidence \<Rightarrow> ('r world_scheme, stage_data) comp" where
  "br_produce_destination_confirmation svc operation release =
     and_then (string_value release ''transactionId'') (\<lambda>transactionId.
     and_then (call (DestinationConfirmCall operation transactionId)
         (br_destination_confirm svc operation transactionId)) (\<lambda>(confirmed, position).
     and_then (require_text position ''release confirmation position'') (\<lambda>_.
       ret [(''confirmed'', JBool confirmed), (''position'', JStr position)])))"

definition br_produce_destination_finality ::
  "burn_release_services \<Rightarrow> operation \<Rightarrow> stage_evidence \<Rightarrow> ('r world_scheme, stage_data) comp" where
  "br_produce_destination_finality svc operation release =
     and_then (string_value release ''transactionId'') (\<lambda>transactionId.
     and_then (call (DestinationFinalizeCall operation transactionId)
         (br_destination_finalize svc operation transactionId)) (\<lambda>(finalized, position, evidenceId).
     and_then (require_text position ''release finality position'') (\<lambda>_.
     and_then (require_text evidenceId ''release finality evidence ID'') (\<lambda>_.
       ret [(''finalized'', JBool finalized), (''position'', JStr position),
            (''evidenceId'', JStr evidenceId)]))))"

definition br_produce_reconciliation ::
  "burn_release_services \<Rightarrow> operation \<Rightarrow> ('r world_scheme, stage_data) comp" where
  "br_produce_reconciliation svc operation =
     and_then (call (\<lambda>r. ReconcileCall operation (map_sum id (\<lambda>(m, a, b, c, d). (m, [a, b, c, d])) r))
         (br_reconcile svc operation))
       (\<lambda>(matched, sourceBacking, destinationSupply, releasedAmount, evidenceId).
     and_then (require_text evidenceId ''reconciliation evidence ID'') (\<lambda>_.
       ret [(''matched'', JBool matched), (''sourceBacking'', JStr sourceBacking),
            (''destinationSupply'', JStr destinationSupply), (''releasedAmount'', JStr releasedAmount),
            (''evidenceId'', JStr evidenceId)]))"

section \<open>The loop\<close>

definition burn_release_switch ::
  "burn_release_services \<Rightarrow> operation \<Rightarrow> ('r world_scheme, operation option) comp" where
  "burn_release_switch svc operation =
    (let transition = (\<lambda>to reason. and_then (br_transition svc operation to reason None)
           (\<lambda>next. ret (Some next)));
         evidence = br_evidence svc operation;
         required = br_required (op_id operation)
     in case op_state operation of
       CREATED \<Rightarrow>
         and_then (call (PolicyCall operation) (br_policy svc operation)) (\<lambda>decision.
         and_then (br_transition svc operation
             (if pd_outcome decision = ALLOW then POLICY_CHECKED else POLICY_REJECTED)
             ''policy evaluated'' (Some decision)) (\<lambda>next. ret (Some next)))
     | POLICY_CHECKED \<Rightarrow> transition SOURCE_PREPARING ''prepare replay-protected EVM burn''
     | SOURCE_PREPARING \<Rightarrow>
         and_then (evidence SOURCE_BURN (br_produce_burn svc operation)) (\<lambda>e.
           transition SOURCE_SUBMITTED (''EVM burn '' @ evidence_field e ''outcome''))
     | SOURCE_SUBMITTED \<Rightarrow>
         and_then (required SOURCE_BURN) (\<lambda>source.
         and_then (evidence SOURCE_CONFIRMATION (br_produce_source_confirmation svc operation source)) (\<lambda>e.
           transition (if is_true e ''confirmed'' then SOURCE_CONFIRMED else SOURCE_FAILED)
             ''EVM burn confirmation evaluated''))
     | SOURCE_CONFIRMED \<Rightarrow>
         and_then (required SOURCE_BURN) (\<lambda>source.
         and_then (evidence SOURCE_FINALITY (br_produce_source_finality svc operation source)) (\<lambda>e.
           transition (if is_true e ''finalized'' then SOURCE_FINALIZED else SOURCE_FAILED)
             ''EVM burn finality evaluated''))
     | SOURCE_FINALIZED \<Rightarrow> transition ATTESTATION_PENDING ''request independent burn attestations''
     | ATTESTATION_PENDING \<Rightarrow>
         and_then (required SOURCE_FINALITY) (\<lambda>finality.
         and_then (evidence ATTESTATION (br_produce_attestation svc operation finality)) (\<lambda>e.
           transition (if is_true e ''satisfied'' then ATTESTED else ATTESTATION_FAILED)
             ''threshold burn attestation evaluated''))
     | ATTESTED \<Rightarrow> transition DESTINATION_PREPARING ''prepare one-time Canton release''
     | DESTINATION_PREPARING \<Rightarrow>
         and_then (required ATTESTATION) (\<lambda>stored.
         and_then (attestation_from stored) (\<lambda>att.
         and_then (now (br_now svc)) (\<lambda>d.
           if date_reached d (va_expiresAt att)
           then transition DESTINATION_FAILED ''threshold attestation expired before release''
           else and_then (evidence DESTINATION_RELEASE (br_produce_release svc operation att)) (\<lambda>e.
             transition DESTINATION_SUBMITTED (''Canton release '' @ evidence_field e ''outcome'')))))
     | DESTINATION_SUBMITTED \<Rightarrow>
         and_then (required DESTINATION_RELEASE) (\<lambda>release.
         and_then (evidence DESTINATION_CONFIRMATION
             (br_produce_destination_confirmation svc operation release)) (\<lambda>e.
           transition (if is_true e ''confirmed'' then DESTINATION_CONFIRMED else DESTINATION_FAILED)
             ''Canton release confirmation evaluated''))
     | DESTINATION_CONFIRMED \<Rightarrow>
         and_then (required DESTINATION_RELEASE) (\<lambda>release.
         and_then (evidence DESTINATION_FINALITY
             (br_produce_destination_finality svc operation release)) (\<lambda>e.
           transition (if is_true e ''finalized'' then DESTINATION_FINALIZED else DESTINATION_FAILED)
             ''Canton release finality evaluated''))
     | DESTINATION_FINALIZED \<Rightarrow>
         transition RECONCILIATION_PENDING ''reconcile burn, release, backing, and supply''
     | RECONCILIATION_PENDING \<Rightarrow>
         and_then (evidence RECONCILIATION (br_produce_reconciliation svc operation)) (\<lambda>e.
           transition (if is_true e ''matched'' then RECONCILED else RECONCILIATION_FAILED)
             ''round-trip supply reconciliation evaluated'')
     | RECONCILED \<Rightarrow> transition COMPLETED ''burn-release operation completed''
     | _ \<Rightarrow> ret None)"

definition burn_release_step ::
  "burn_release_services \<Rightarrow> operation \<Rightarrow> ('r world_scheme, operation option) comp" where
  "burn_release_step svc operation =
     (if is_terminal (op_state operation) then burn_release_switch svc operation
      else and_then (now (br_now svc)) (\<lambda>d.
        if date_reached d (op_expiresAt operation)
        then and_then (br_transition svc operation EXPIRED ''bridge operation expired before completion'' None)
          (\<lambda>next. ret (Some next))
        else burn_release_switch svc operation))"

primrec burn_release_loop ::
  "burn_release_services \<Rightarrow> nat \<Rightarrow> operation \<Rightarrow> ('r world_scheme, operation) comp" where
  "burn_release_loop svc 0 operation =
     (if op_state operation \<noteq> COMPLETED
      then throw (RegistryError CONFLICT
        (''burn-release coordinator stopped in state: '' @ state_text (op_state operation)))
      else ret operation)"
| "burn_release_loop svc (Suc n) operation =
     (if op_state operation = COMPLETED then ret operation
      else and_then (burn_release_step svc operation) (\<lambda>next. case next of
        None \<Rightarrow> ret operation | Some operation' \<Rightarrow> burn_release_loop svc n operation'))"

definition burn_release_run ::
  "burn_release_services \<Rightarrow> interweave_id \<Rightarrow> ('r world_scheme, operation) comp" where
  "burn_release_run svc operationId = and_then (br_operation operationId) (burn_release_loop svc 24)"

section \<open>The coordinator keeps the contract of a bridge flow\<close>

lemma br_evidence_triple: "evidence_triple (br_evidence svc)"
proof (rule evidence_tripleI)
  fix op stg Pre produce w r w'
  assume prod: "produces op stg Pre produce" and w: "ready op w" "Pre w"
    and keep: "\<And>w d. Pre w \<Longrightarrow> Pre (log_call (NowCall d) w)"
    and none: "find_evidence (op_id op) stg w = None"
    and run: "br_evidence svc op stg produce w = (r, w')"
  let ?w1 = "log_call (NowCall (br_now svc (calls w))) w"
  have w1: "ready op ?w1" "Pre ?w1" and none1: "find_evidence (op_id op) stg ?w1 = None"
    using ready_clock [OF w(1)] keep [OF w(2)] none by simp_all
  show "case r of Inr e \<Rightarrow> ready op w' \<and> find_evidence (op_id op) stg w' = Some e | Inl _ \<Rightarrow> world_ok None w'"
  proof (cases "br_now svc (calls w)")
    case None
    then show ?thesis
      using run none w1(1) by (auto simp: br_evidence_def evidence_get_def and_then_def now_eq iso_string_def ready_def)
  next
    case (Some t)
    show ?thesis
    proof (cases "produce ?w1")
      case (Pair x w2)
      show ?thesis
      proof (cases x)
        case (Inr data)
        with Pair obtain c where c: "w2 = log_call c ?w1" "call_ok (log_call c ?w1) c" "timely (calls ?w1) c"
          "accepted c = None \<or> accepted c = Some (op_id op, stg)" "backed (op_id op) stg data (log_call c ?w1)"
          using produces_InrE [OF prod w1] by blast
        show ?thesis
          using run evidence_finish [OF w1(1) c(2-4) none1 c(5)] none Some Pair Inr c(1)
          by (auto simp: br_evidence_def evidence_get_def and_then_def now_eq iso_string_def)
      qed (use run none Some Pair produces_InlD [OF prod w1] in
          \<open>auto simp: br_evidence_def evidence_get_def and_then_def now_eq iso_string_def\<close>)
    qed
  qed
qed (simp add: br_evidence_def evidence_get_def and_then_def)
lemma br_burn_law:
  "produces op SOURCE_BURN (\<lambda>w. POLICY_CHECKED \<in> set (history (op_id op) w)) (br_produce_burn svc op)"
  by (rule produced) (auto simp: br_produce_burn_def and_then_def call_eq require_text_def
      source_effect_ok_def ready_terms split: sum.splits prod.splits if_splits, blast?)

lemma br_source_confirm_law:
  "produces op SOURCE_CONFIRMATION (stage_pre (op_id op) SOURCE_BURN e) (br_produce_source_confirmation svc op e)"
  by (rule produced) (auto simp: br_produce_source_confirmation_def and_then_def call_eq require_text_def
      stage_pre_def evidence_text_def split: sum.splits prod.splits if_splits
      dest!: string_value_Inr string_value_Inl, blast?)

lemma br_source_finalize_law:
  "produces op SOURCE_FINALITY (stage_pre (op_id op) SOURCE_BURN e) (br_produce_source_finality svc op e)"
  by (rule produced) (auto simp: br_produce_source_finality_def and_then_def call_eq require_text_def
      stage_pre_def evidence_text_def split: sum.splits prod.splits if_splits
      dest!: string_value_Inr string_value_Inl, blast?)

lemma br_attest_law:
  "produces op ATTESTATION (stage_pre (op_id op) SOURCE_FINALITY e) (br_produce_attestation svc op e)"
  by (rule produced) (auto simp: br_produce_attestation_def and_then_def call_eq require_text_def
      stage_pre_def split: sum.splits prod.splits if_splits, blast?)

lemma br_release_law:
  "produces op DESTINATION_RELEASE (effect_pre (op_id op) att) (br_produce_release svc op att)"
  by (rule produced) (auto simp: br_produce_release_def and_then_def call_eq require_text_def
      effect_pre_def destination_effect_ok_def ready_terms attested_def
      split: sum.splits prod.splits if_splits, blast?)

lemma br_destination_confirm_law:
  "produces op DESTINATION_CONFIRMATION (stage_pre (op_id op) DESTINATION_RELEASE e) (br_produce_destination_confirmation svc op e)"
  by (rule produced) (auto simp: br_produce_destination_confirmation_def and_then_def call_eq require_text_def
      stage_pre_def evidence_text_def split: sum.splits prod.splits if_splits
      dest!: string_value_Inr string_value_Inl, blast?)

lemma br_destination_finalize_law:
  "produces op DESTINATION_FINALITY (stage_pre (op_id op) DESTINATION_RELEASE e) (br_produce_destination_finality svc op e)"
  by (rule produced) (auto simp: br_produce_destination_finality_def and_then_def call_eq require_text_def
      stage_pre_def evidence_text_def split: sum.splits prod.splits if_splits
      dest!: string_value_Inr string_value_Inl, blast?)

lemma br_reconcile_law:
  "produces op RECONCILIATION (\<lambda>_. True) (br_produce_reconciliation svc op)"
  by (rule produced) (auto simp: br_produce_reconciliation_def and_then_def call_eq require_text_def
      split: sum.splits prod.splits if_splits, blast?)

lemma br_transition_flow: "br_transition svc = flow_transition (br_pg_ts svc) (br_now svc) (br_actor_name svc)"
  by (simp add: fun_eq_iff br_transition_def flow_transition_def)

lemma br_required_flow: "br_required = flow_required"
  by (simp add: fun_eq_iff br_required_def flow_required_def)

definition br_why :: "bridge_state \<Rightarrow> string" where
  "br_why s = (case s of
        CREATED \<Rightarrow> ''policy evaluated''
      | POLICY_CHECKED \<Rightarrow> ''prepare replay-protected EVM burn''
      | SOURCE_SUBMITTED \<Rightarrow> ''EVM burn confirmation evaluated''
      | SOURCE_CONFIRMED \<Rightarrow> ''EVM burn finality evaluated''
      | SOURCE_FINALIZED \<Rightarrow> ''request independent burn attestations''
      | ATTESTATION_PENDING \<Rightarrow> ''threshold burn attestation evaluated''
      | ATTESTED \<Rightarrow> ''prepare one-time Canton release''
      | DESTINATION_SUBMITTED \<Rightarrow> ''Canton release confirmation evaluated''
      | DESTINATION_CONFIRMED \<Rightarrow> ''Canton release finality evaluated''
      | DESTINATION_FINALIZED \<Rightarrow> ''reconcile burn, release, backing, and supply''
      | RECONCILIATION_PENDING \<Rightarrow> ''round-trip supply reconciliation evaluated''
      | RECONCILED \<Rightarrow> ''burn-release operation completed''
      | EXPIRED \<Rightarrow> ''bridge operation expired before completion''
      | _ \<Rightarrow> [])"

interpretation br: bridge_flow "br_pg_ts svc" "br_now svc" "br_actor_name svc" "br_evidence svc"
  "br_policy svc" SOURCE_BURN DESTINATION_RELEASE "br_produce_burn svc"
  "br_produce_source_confirmation svc" "br_produce_source_finality svc" "br_produce_attestation svc"
  "br_produce_destination_confirmation svc" "br_produce_destination_finality svc"
  "br_produce_release svc" "br_produce_reconciliation svc" br_why
  "\<lambda>e. ''EVM burn '' @ evidence_field e ''outcome''" "\<lambda>e. ''Canton release '' @ evidence_field e ''outcome''"
  "''threshold attestation expired before release''" "burn_release_switch svc" "burn_release_step svc" "burn_release_loop svc"
  "\<lambda>op. RegistryError CONFLICT (''burn-release coordinator stopped in state: '' @ state_text (op_state op))"
  for svc
  by unfold_locales
    (simp_all add: br_evidence_triple br_burn_law br_source_confirm_law br_source_finalize_law
      br_attest_law br_release_law br_destination_confirm_law br_destination_finalize_law
      br_reconcile_law burn_release_switch_def burn_release_step_def br_transition_flow br_required_flow
      flow_move_def br_why_def Let_def cong: if_cong bridge_state.case_cong)

end
