(* ===== verification/Bridge_Liveness.thy ===== *)
theory Bridge_Liveness
  imports Lock_Mint Burn_Release
begin

text \<open>
  Liveness of the bridge: when every service answers positively and in time, a coordinator takes an
  operation from creation to completion. The locale \<open>live_flow\<close> extends the contract of a bridge
  flow by the positive answers and proves the run once; both coordinators are instances of it.
\<close>

section \<open>Positive data\<close>

definition has_text :: "stage_data \<Rightarrow> string \<Rightarrow> bool" where
  "has_text data key \<longleftrightarrow> (\<exists>t. map_of data key = Some (JStr t) \<and> \<not> blank t)"

fun stage_key :: "stage \<Rightarrow> string option" where
  "stage_key SOURCE_CONFIRMATION = Some ''confirmed''"
| "stage_key SOURCE_FINALITY = Some ''finalized''"
| "stage_key ATTESTATION = Some ''satisfied''"
| "stage_key DESTINATION_CONFIRMATION = Some ''confirmed''"
| "stage_key DESTINATION_FINALITY = Some ''finalized''"
| "stage_key RECONCILIATION = Some ''matched''"
| "stage_key _ = None"

text \<open>The place on the main path where the evidence of a stage is written.\<close>

fun written_at :: "stage \<Rightarrow> nat" where
  "written_at SOURCE_LOCK = 2"
| "written_at SOURCE_BURN = 2"
| "written_at SOURCE_CONFIRMATION = 3"
| "written_at SOURCE_FINALITY = 4"
| "written_at ATTESTATION = 6"
| "written_at DESTINATION_MINT = 8"
| "written_at DESTINATION_RELEASE = 8"
| "written_at DESTINATION_CONFIRMATION = 9"
| "written_at DESTINATION_FINALITY = 10"
| "written_at RECONCILIATION = 12"

definition unwritten :: "operation \<Rightarrow> world \<Rightarrow> bool" where
  "unwritten op w \<longleftrightarrow> (\<forall>stg. rank (op_state op) \<le> written_at stg \<longrightarrow> find_evidence (op_id op) stg w = None)"

definition positive :: "(bridge_call list \<Rightarrow> js_date) \<Rightarrow> stage \<Rightarrow> stage_data \<Rightarrow> bool" where
  "positive clock stg data \<longleftrightarrow>
     (\<forall>k. stage_key stg = Some k \<longrightarrow> map_of data k = Some (JBool True))
     \<and> (stage_key stg = None \<longrightarrow> has_text data ''transactionId'')
     \<and> (stg = ATTESTATION \<longrightarrow> has_text data ''digest'' \<and> has_text data ''validatorSetId''
          \<and> has_text data ''signatureCount'' \<and> has_text data ''threshold''
          \<and> (\<exists>t. map_of data ''expiresAt'' = Some (JStr t) \<and> \<not> blank t
               \<and> (\<forall>h. \<not> date_reached (clock h) t)))"

definition yields ::
  "(bridge_call list \<Rightarrow> js_date) \<Rightarrow> stage \<Rightarrow> (world, stage_data) comp \<Rightarrow> bool" where
  "yields clock stg produce \<longleftrightarrow>
     (\<forall>w. \<exists>data c. produce w = (Inr data, log_call c w) \<and> positive clock stg data)"

definition keeps_others :: "interweave_id \<Rightarrow> stage \<Rightarrow> world \<Rightarrow> world \<Rightarrow> bool" where
  "keeps_others oid stg w w' \<longleftrightarrow> bridge_transitions w' = bridge_transitions w
     \<and> (\<forall>s. s \<noteq> stg \<longrightarrow> find_evidence oid s w' = find_evidence oid s w)"

lemma state_text_inject: "state_text a = state_text b \<longleftrightarrow> a = b"
  by (cases a; cases b) simp_all

lemma unexpired_now: "\<not> date_reached d (va_expiresAt att) \<Longrightarrow> unexpired_after (l @ [NowCall d]) att"
  unfolding unexpired_after_def by (intro exI [of _ l] exI [of _ d] exI [of _ "[]"]) simp

lemma has_text_value:
  "has_text (se_data e) key \<Longrightarrow> \<exists>t. string_value e key w = (Inr t, w)
     \<and> map_of (se_data e) key = Some (JStr t)"
  by (auto simp: has_text_def string_value_def)

lemma positive_attestation:
  assumes "positive clock ATTESTATION (se_data e)"
  shows "\<exists>att. attestation_from e w = (Inr att, w) \<and> (\<forall>h. \<not> date_reached (clock h) (va_expiresAt att))"
proof -
  have t: "has_text (se_data e) ''digest''" "has_text (se_data e) ''validatorSetId''"
    "has_text (se_data e) ''signatureCount''" "has_text (se_data e) ''threshold''"
    using assms by (simp_all add: positive_def)
  obtain x where x: "map_of (se_data e) ''expiresAt'' = Some (JStr x)" "\<not> blank x"
    "\<forall>h. \<not> date_reached (clock h) x" using assms by (auto simp: positive_def)
  then show ?thesis
    using t [THEN has_text_value, of w]
    by (auto simp: attestation_from_def and_then_def string_value_def [of e "''expiresAt''"])
qed

section \<open>The contract of a live flow\<close>

locale live_flow = bridge_flow +
  assumes clock_live: "\<exists>t. clock h = Some t"
    and actor_live: "\<not> blank actor"
    and pg_live: "\<exists>at. pg_ts (to_iso_string t) = Some at"
    and policy_live: "\<exists>d. policy op h = Inr d \<and> pd_outcome d = ALLOW"
    and why_live: "s \<in> set main_path - {SOURCE_PREPARING, DESTINATION_PREPARING, COMPLETED} \<Longrightarrow> \<not> blank (why s)"
    and submitted_live: "\<not> blank (submitted e)"
    and effected_live: "\<not> blank (effected e)"
    and submit_live: "yields clock source_stage (submit op)"
    and source_confirm_live: "positive clock source_stage (se_data e) \<Longrightarrow>
      yields clock SOURCE_CONFIRMATION (source_confirm op e)"
    and source_finalize_live: "positive clock source_stage (se_data e) \<Longrightarrow>
      yields clock SOURCE_FINALITY (source_finalize op e)"
    and attest_live: "yields clock ATTESTATION (attest op e)"
    and effect_live: "yields clock effect_stage (effect op att)"
    and destination_confirm_live: "positive clock effect_stage (se_data e) \<Longrightarrow>
      yields clock DESTINATION_CONFIRMATION (destination_confirm op e)"
    and destination_finalize_live: "positive clock effect_stage (se_data e) \<Longrightarrow>
      yields clock DESTINATION_FINALITY (destination_finalize op e)"
    and reconcile_live: "yields clock RECONCILIATION (reconcile op)"
    and evidence_live: "ready op w \<Longrightarrow> yields clock stg produce \<Longrightarrow> find_evidence (op_id op) stg w = None \<Longrightarrow>
      \<exists>e w'. evidence op stg produce w = (Inr e, w') \<and> positive clock stg (se_data e)
        \<and> keeps_others (op_id op) stg w w'"
    and evidence_stored: "find_evidence (op_id op) stg w = Some e \<Longrightarrow> evidence op stg produce w = (Inr e, w)"
begin

definition live :: "operation \<Rightarrow> world \<Rightarrow> bool" where
  "live op w \<longleftrightarrow> ready op w \<and> \<not> failed_state (op_state op)
     \<and> (\<forall>h. \<not> date_reached (clock h) (op_expiresAt op))
     \<and> (\<forall>s. rank (op_state op) < rank s \<longrightarrow>
          find_transition_row (op_id op) (op_id op @ '':'' @ state_text s) w = None)
     \<and> (\<forall>stg e. find_evidence (op_id op) stg w = Some e \<longrightarrow> positive clock stg (se_data e))
     \<and> (\<forall>stg. rank (op_state op) < written_at stg \<longrightarrow> find_evidence (op_id op) stg w = None)
     \<and> (3 \<le> rank (op_state op) \<longrightarrow> find_evidence (op_id op) source_stage w \<noteq> None)
     \<and> (9 \<le> rank (op_state op) \<longrightarrow> find_evidence (op_id op) effect_stage w \<noteq> None)"

text \<open>
  One move along the main path: an engine that has not yet recorded a state of the operation further on accepts it.
\<close>

definition unrecorded_beyond :: "operation \<Rightarrow> world \<Rightarrow> bool" where
  "unrecorded_beyond op w \<longleftrightarrow> (\<forall>s. rank (op_state op) < rank s \<longrightarrow>
     find_transition_row (op_id op) (op_id op @ '':'' @ state_text s) w = None)"

lemma move_ready:
  assumes ready: "ready op w" and beyond: "unrecorded_beyond op w"
    and step: "can_transition (op_state op) to" "\<not> failed_state to"
    and gate: "gate_open to (op_id op) w" and reason: "\<not> blank reason"
    and pd: "to = POLICY_CHECKED \<longrightarrow> allows pd" "to \<noteq> POLICY_REJECTED"
  shows "\<exists>op' w' c. flow_move pg_ts clock actor op to reason pd w = (Inr (Some op'), w')
    \<and> ready op' w' \<and> unrecorded_beyond op' w' \<and> op_id op' = op_id op \<and> op_state op' = to
    \<and> op_expiresAt op' = op_expiresAt op \<and> bridge_stage_evidence w' = bridge_stage_evidence w
    \<and> calls w' = calls w @ [NowCall c]"
proof -
  obtain t at where t: "clock (calls w) = Some t" "pg_ts (to_iso_string t) = Some at"
    using clock_live pg_live by blast
  let ?w1 = "log_call (NowCall (Some t)) w"
  let ?c = "\<lparr>cmd_operationId = op_id op, cmd_transitionKey = op_id op @ '':'' @ state_text to,
       cmd_expectedVersion = op_version op, cmd_to = to, cmd_occurredAt = to_iso_string t,
       cmd_reason = reason, cmd_actor = actor, cmd_attempt = JInt 1, cmd_policyDecision = pd\<rparr>"
  have r1: "ready op ?w1" using ready ready_clock by blast
  then have wf: "tx_wf ?w1" by (simp add: ready_def world_ok_def)
  obtain op0 where op0: "load_operation (op_id op) ?w1 = Some op0" "same_terms op op0"
    "op_state op0 = op_state op" "op_version op0 = op_version op"
    using r1 by (auto simp: ready_def in_step_def)
  have free: "find_transition_row (op_id op) (op_id op @ '':'' @ state_text s) ?w1 = None"
    if "rank (op_state op) < rank s" for s
    using beyond that by (simp add: unrecorded_beyond_def find_transition_row_def log_call_def)
  have g: "append_guard ?c op0 ?w1"
    using op0 free [OF can_transition_rank [OF step(1)]] step by (simp add: append_guard_def)
  have run: "engine_transition pg_ts ?c ?w1 = (Inr (returned_operation ?c op0 at), appended_db ?c op0 at ?w1)"
    using engine_transition_guarded [of ?c ?w1 op0 pg_ts] store_append_ok [OF wf g, of pg_ts at] t op0 step reason
      actor_live pd
    by (simp add: command_guard_def policy_guard_def int4_def)
  let ?op = "returned_operation ?c op0 at" and ?w = "appended_db ?c op0 at ?w1"
  have flow: "flow_transition pg_ts clock actor op to reason pd w = (Inr ?op, ?w)"
    using run t by (simp add: flow_transition_def and_then_def now_eq iso_string_def)
  from hoare_InrD [OF flow_transition_triple, OF _ this] ready step gate
  have post: "ready ?op ?w" "op_id ?op = op_id op" "op_state ?op = to" by simp_all
  have exp: "op_expiresAt ?op = op_expiresAt op"
    using op0(2) by (simp add: returned_operation_def appended_operation_def same_terms_def)
  have keys: "find_transition_row (op_id op) (op_id op @ '':'' @ state_text s) ?w = None" if "rank to < rank s" for s
  proof -
    have "s \<noteq> to" using that by auto
    then show ?thesis
      using free [of s] that can_transition_rank [OF step(1)]
      by (simp add: find_transition_row_def appended_db_def appended_row_def find_append_None state_text_inject)
  qed
  then have "unrecorded_beyond ?op ?w" using post by (simp add: unrecorded_beyond_def)
  with flow post exp show ?thesis by (auto simp: flow_move_def and_then_def)
qed

text \<open>The same in a live run, with the evidence the next state needs at hand.\<close>

lemma move_live:
  assumes l: "live op w" and step: "can_transition (op_state op) to" "\<not> failed_state to"
    and gate: "gate_open to (op_id op) w" and reason: "\<not> blank reason"
    and pd: "to = POLICY_CHECKED \<longrightarrow> allows pd" "to \<noteq> POLICY_REJECTED"
    and present: "to = SOURCE_SUBMITTED \<longrightarrow> find_evidence (op_id op) source_stage w \<noteq> None"
      "to = DESTINATION_SUBMITTED \<longrightarrow> find_evidence (op_id op) effect_stage w \<noteq> None"
  shows "\<exists>op' w'. flow_move pg_ts clock actor op to reason pd w = (Inr (Some op'), w')
    \<and> live op' w' \<and> op_id op' = op_id op \<and> op_expiresAt op' = op_expiresAt op \<and> op_state op' = to \<and> unwritten op' w'"
proof -
  have "ready op w" "unrecorded_beyond op w" using l by (simp_all add: live_def unrecorded_beyond_def)
  from move_ready [OF this step gate reason pd]
  obtain op' w' where m: "flow_move pg_ts clock actor op to reason pd w = (Inr (Some op'), w')"
    "ready op' w'" "unrecorded_beyond op' w'" "op_id op' = op_id op" "op_state op' = to"
    "op_expiresAt op' = op_expiresAt op" "bridge_stage_evidence w' = bridge_stage_evidence w" by blast
  have ev: "find_evidence (op_id op) stg w' = find_evidence (op_id op) stg w" for stg
    using m(7) by (simp add: find_evidence_def)
  have next_rank: "rank to = Suc (rank (op_state op))" using can_transition_next [OF step] by simp
  moreover have "rank to = 3 \<longleftrightarrow> to = SOURCE_SUBMITTED" "rank to = 9 \<longleftrightarrow> to = DESTINATION_SUBMITTED"
    by (cases to; simp)+
  ultimately have "3 \<le> rank to \<longrightarrow> find_evidence (op_id op) source_stage w \<noteq> None"
    "9 \<le> rank to \<longrightarrow> find_evidence (op_id op) effect_stage w \<noteq> None"
    "\<forall>stg. rank to < written_at stg \<longrightarrow> find_evidence (op_id op) stg w = None"
    using l present by (auto simp: live_def le_Suc_eq)
  then have "live op' w'"
    using l m step(2) by (simp add: live_def unrecorded_beyond_def ev)
  moreover have "unwritten op' w'"
    using l m(4,5) ev next_rank by (simp add: live_def unwritten_def)
  ultimately show ?thesis using m by blast
qed

lemma evidence_step:
  assumes l: "live op w" and law: "produces op stg Pre produce" "Pre w"
    "\<And>w d. Pre w \<Longrightarrow> Pre (log_call (NowCall d) w)" and y: "yields clock stg produce"
    and at: "written_at stg \<le> rank (op_state op)"
  shows "\<exists>e w'. evidence op stg produce w = (Inr e, w') \<and> live op w'
    \<and> find_evidence (op_id op) stg w' = Some e \<and> positive clock stg (se_data e)"
proof (cases "find_evidence (op_id op) stg w")
  case None
  have r: "ready op w" using l by (simp add: live_def)
  obtain e w' where e: "evidence op stg produce w = (Inr e, w')" "positive clock stg (se_data e)"
    "keeps_others (op_id op) stg w w'" using evidence_live [OF r y None] by blast
  have post: "ready op w' \<and> find_evidence (op_id op) stg w' = Some e"
    by (rule hoare_InrD [OF evidence_triple_hoare [OF evidence_law law(1,3)]]) (use r law(2) e in auto)
  have ev: "find_evidence (op_id op) s w' = (if s = stg then Some e else find_evidence (op_id op) s w)" for s
    using post e(3) by (simp add: keeps_others_def)
  have "live op w'"
    using l post e at unfolding live_def ev by (auto simp: keeps_others_def find_transition_row_def)
  with e post show ?thesis by blast
next
  case (Some e)
  then show ?thesis using l evidence_stored [OF Some] by (auto simp: live_def)
qed

definition proceeds :: "operation \<Rightarrow> (world, operation option) comp \<Rightarrow> world \<Rightarrow> bool" where
  "proceeds op m w \<longleftrightarrow> (\<exists>op' w'. m w = (Inr (Some op'), w') \<and> live op' w' \<and> op_id op' = op_id op
     \<and> op_expiresAt op' = op_expiresAt op \<and> rank (op_state op') = Suc (rank (op_state op)) \<and> unwritten op' w')"

lemma live_clock: "live op w \<Longrightarrow> live op (log_call (NowCall d) w)"
  using ready_clock by (simp add: live_def find_transition_row_def) (simp add: log_call_def)

lemma proceeds_and_then: "m w = (Inr x, w') \<Longrightarrow> proceeds op (f x) w' \<Longrightarrow> proceeds op (and_then m f) w"
  by (simp add: proceeds_def and_then_def)

lemma move_proceeds:
  assumes "live op w" "can_transition (op_state op) to" "\<not> failed_state to" "gate_open to (op_id op) w"
    "\<not> blank reason" "to = POLICY_CHECKED \<longrightarrow> allows pd" "to \<noteq> POLICY_REJECTED"
    "to = SOURCE_SUBMITTED \<longrightarrow> find_evidence (op_id op) source_stage w \<noteq> None"
    "to = DESTINATION_SUBMITTED \<longrightarrow> find_evidence (op_id op) effect_stage w \<noteq> None"
  shows "proceeds op (flow_move pg_ts clock actor op to reason pd) w"
  using move_live [OF assms] can_transition_next [OF assms(2,3)] by (auto simp: proceeds_def)

lemma staged_proceeds:
  assumes l: "live op w" and law: "produces op stg Pre produce" "Pre w"
      "\<And>w d. Pre w \<Longrightarrow> Pre (log_call (NowCall d) w)" and y: "yields clock stg produce"
    and at: "written_at stg \<le> rank (op_state op)"
    and to: "\<And>e. positive clock stg (se_data e) \<Longrightarrow> to e = target" "can_transition (op_state op) target"
      "\<not> failed_state target" "target \<noteq> POLICY_CHECKED"
    and gate: "\<And>e w. find_evidence (op_id op) stg w = Some e \<Longrightarrow> positive clock stg (se_data e) \<Longrightarrow>
      gate_open target (op_id op) w"
    and stages: "target = SOURCE_SUBMITTED \<Longrightarrow> stg = source_stage" "target = DESTINATION_SUBMITTED \<Longrightarrow> stg = effect_stage"
    and reason: "\<And>e. \<not> blank (reason e)"
  shows "proceeds op (and_then (evidence op stg produce)
    (\<lambda>e. flow_move pg_ts clock actor op (to e) (reason e) None)) w"
proof -
  obtain e w' where e: "evidence op stg produce w = (Inr e, w')" "live op w'"
    "find_evidence (op_id op) stg w' = Some e" "positive clock stg (se_data e)"
    using evidence_step [OF l law y at] by blast
  have "target \<noteq> POLICY_REJECTED" using to(3) by (auto simp: failed_state_def terminal_def)
  then have "proceeds op (flow_move pg_ts clock actor op target (reason e) None) w'"
    using e gate stages reason to by (intro move_proceeds) auto
  with e to(1) show ?thesis by (auto intro: proceeds_and_then)
qed

lemma required_live: "find_evidence (op_id op) stg w = Some e \<Longrightarrow> flow_required (op_id op) stg w = (Inr e, w)"
  by (simp add: flow_required_def evidence_get_def and_then_def)

lemma required_proceeds:
  assumes l: "live op w" and x: "find_evidence (op_id op) req w \<noteq> None"
    and law: "\<And>x. produces op stg (stage_pre (op_id op) req x) (produce x)"
    and y: "\<And>x. positive clock req (se_data x) \<Longrightarrow> yields clock stg (produce x)"
    and at: "written_at stg \<le> rank (op_state op)"
    and to: "\<And>e. positive clock stg (se_data e) \<Longrightarrow> to e = target" "can_transition (op_state op) target"
      "\<not> failed_state target" "target \<noteq> POLICY_CHECKED" "target \<noteq> SOURCE_SUBMITTED" "target \<noteq> DESTINATION_SUBMITTED"
    and gate: "\<And>e w. find_evidence (op_id op) stg w = Some e \<Longrightarrow> positive clock stg (se_data e) \<Longrightarrow>
      gate_open target (op_id op) w"
    and reason: "\<not> blank reason"
  shows "proceeds op (and_then (flow_required (op_id op) req) (\<lambda>x. and_then (evidence op stg (produce x))
    (\<lambda>e. flow_move pg_ts clock actor op (to e) reason None))) w"
proof -
  obtain x where x: "find_evidence (op_id op) req w = Some x" using assms(2) by auto
  then have "positive clock req (se_data x)" using l by (simp add: live_def)
  then have "proceeds op (and_then (evidence op stg (produce x))
      (\<lambda>e. flow_move pg_ts clock actor op (to e) reason None)) w"
    using x to gate reason at
    by (intro staged_proceeds [OF l law _ stage_pre_clock y]) (auto simp: stage_pre_def)
  then show ?thesis by (simp add: proceeds_def and_then_def [of "flow_required _ _"] required_live [OF x])
qed

lemma gate_present:
  assumes "live op w" "s \<in> set (take (Suc (rank (op_state op))) main_path)" "gate s = Some (stg, key)"
  shows "find_evidence (op_id op) stg w \<noteq> None"
proof -
  have "s \<in> set (history (op_id op) w)" using assms(1,2) ready_history [of op w] by (simp add: live_def)
  then have "gate_open s (op_id op) w" using assms(1) by (simp add: live_def ready_def world_ok_def gates_ok_def)
  then show ?thesis using assms(3) by (auto simp: gate_open_def)
qed

lemmas live_simps = can_transition_def terminal_def failed_state_def main_path_def gate_open_def positive_def
  is_true_def why_live

lemma effect_proceeds:
  assumes l: "live op w" and state: "op_state op = DESTINATION_PREPARING"
  shows "proceeds op (and_then (flow_required (op_id op) ATTESTATION) (\<lambda>stored.
    and_then (attestation_from stored) (\<lambda>att. and_then (now clock) (\<lambda>d.
      if date_reached d (va_expiresAt att) then flow_move pg_ts clock actor op DESTINATION_FAILED lapsed None
      else and_then (evidence op effect_stage (effect op att)) (\<lambda>e.
        flow_move pg_ts clock actor op DESTINATION_SUBMITTED (effected e) None))))) w"
proof -
  obtain stored where st: "find_evidence (op_id op) ATTESTATION w = Some stored"
    using gate_present [OF l, of ATTESTED] state by (auto simp: main_path_def)
  then have pos: "positive clock ATTESTATION (se_data stored)" using l by (simp add: live_def)
  obtain att where att: "attestation_from stored w = (Inr att, w)" "\<forall>h. \<not> date_reached (clock h) (va_expiresAt att)"
    using positive_attestation [OF pos, of w] by blast
  let ?w = "log_call (NowCall (clock (calls w))) w"
  have "DESTINATION_PREPARING \<in> set (history (op_id op) w)"
    using ready_history [of op w] l state by (simp add: live_def failed_state_def terminal_def main_path_def)
  then have pre: "effect_pre (op_id op) att ?w"
    using attestation_from_Inr [OF att(1)] st att(2)
    by (auto simp: effect_pre_def attested_def unexpired_now)
  have "proceeds op (and_then (evidence op effect_stage (effect op att)) (\<lambda>e.
      flow_move pg_ts clock actor op DESTINATION_SUBMITTED (effected e) None)) ?w"
    by (rule staged_proceeds [OF live_clock [OF l] effect_law pre effect_pre_clock effect_live])
      (use state effect_stage_law effected_live in \<open>auto simp: live_simps\<close>)
  then show ?thesis
    using att(2) by (simp add: proceeds_def and_then_def [of "flow_required _ _"] required_live [OF st]
        and_then_def [of "attestation_from _"] att(1) and_then_def [of "now _"] now_eq)
qed

lemma switch_proceeds:
  assumes l: "live op w" and state: "op_state op \<noteq> COMPLETED"
  shows "proceeds op (switch op) w"
proof -
  have plain: "proceeds op (flow_move pg_ts clock actor op to (why (op_state op)) None) w"
    if "can_transition (op_state op) to" "\<not> failed_state to" "gate to = None" "to \<noteq> POLICY_CHECKED"
      "to \<noteq> SOURCE_SUBMITTED" "to \<noteq> DESTINATION_SUBMITTED" "\<not> blank (why (op_state op))" for to
    using that by (intro move_proceeds [OF l]) (auto simp: gate_open_def failed_state_def terminal_def)
  have policy: "proceeds op (and_then (call (PolicyCall op) (policy op)) (\<lambda>decision. flow_move pg_ts clock actor op
      (if pd_outcome decision = ALLOW then POLICY_CHECKED else POLICY_REJECTED) (why CREATED) (Some decision))) w"
    if "op_state op = CREATED"
  proof -
    obtain d where d: "policy op (calls w) = Inr d" "pd_outcome d = ALLOW" using policy_live by blast
    have "live op (log_call (PolicyCall op (Inr d)) w)"
      using l ready_log [of op w "PolicyCall op (Inr d)"]
      by (simp add: live_def find_transition_row_def) (simp add: log_call_def)
    then show ?thesis
      using d that why_live [of CREATED]
      by (auto simp: live_simps allows_def call_eq intro!: proceeds_and_then move_proceeds)
  qed
  have present: "3 \<le> rank (op_state op) \<Longrightarrow> find_evidence (op_id op) source_stage w \<noteq> None"
    "9 \<le> rank (op_state op) \<Longrightarrow> find_evidence (op_id op) effect_stage w \<noteq> None"
    using l by (auto simp: live_def)
  have submit: "proceeds op (and_then (evidence op source_stage (submit op)) (\<lambda>e.
      flow_move pg_ts clock actor op SOURCE_SUBMITTED (submitted e) None)) w" if "op_state op = SOURCE_PREPARING"
  proof (rule staged_proceeds [OF l submit_law])
    show "POLICY_CHECKED \<in> set (history (op_id op) w)"
      using ready_history [of op w] l that by (simp add: live_def failed_state_def terminal_def main_path_def)
  qed (use that submit_live submitted_live source_stage_law in \<open>auto simp: live_simps\<close>)
  have reconcile: "proceeds op (and_then (evidence op RECONCILIATION (reconcile op)) (\<lambda>e. flow_move pg_ts clock actor op
      (if is_true e ''matched'' then RECONCILED else RECONCILIATION_FAILED) (why RECONCILIATION_PENDING) None)) w"
    if "op_state op = RECONCILIATION_PENDING"
    by (rule staged_proceeds [OF l reconcile_law, where target = RECONCILED])
      (use that reconcile_live in \<open>auto simp: live_simps\<close>)
  have attest: "proceeds op (and_then (flow_required (op_id op) SOURCE_FINALITY) (\<lambda>x.
      and_then (evidence op ATTESTATION (attest op x)) (\<lambda>e. flow_move pg_ts clock actor op
        (if is_true e ''satisfied'' then ATTESTED else ATTESTATION_FAILED) (why ATTESTATION_PENDING) None))) w"
    if "op_state op = ATTESTATION_PENDING"
    by (rule required_proceeds [OF l _ attest_law, where target = ATTESTED])
      (use that attest_live gate_present [OF l, of SOURCE_FINALIZED] in \<open>auto simp: live_simps\<close>)
  have nf: "op_state op \<notin> set terminal" using l state by (auto simp: live_def failed_state_def)
  show ?thesis
  proof (cases "op_state op")
    case SOURCE_SUBMITTED
    have "proceeds op (and_then (flow_required (op_id op) source_stage) (\<lambda>x.
      and_then (evidence op SOURCE_CONFIRMATION (source_confirm op x)) (\<lambda>e. flow_move pg_ts clock actor op
        (if is_true e ''confirmed'' then SOURCE_CONFIRMED else SOURCE_FAILED) (why SOURCE_SUBMITTED) None))) w"
      by (rule required_proceeds [OF l _ source_confirm_law source_confirm_live, where target = SOURCE_CONFIRMED])
        (use SOURCE_SUBMITTED present in \<open>auto simp: live_simps\<close>)
    then show ?thesis by (simp add: switch_eq SOURCE_SUBMITTED)
  next
    case SOURCE_CONFIRMED
    have "proceeds op (and_then (flow_required (op_id op) source_stage) (\<lambda>x.
      and_then (evidence op SOURCE_FINALITY (source_finalize op x)) (\<lambda>e. flow_move pg_ts clock actor op
        (if is_true e ''finalized'' then SOURCE_FINALIZED else SOURCE_FAILED) (why SOURCE_CONFIRMED) None))) w"
      by (rule required_proceeds [OF l _ source_finalize_law source_finalize_live, where target = SOURCE_FINALIZED])
        (use SOURCE_CONFIRMED present in \<open>auto simp: live_simps\<close>)
    then show ?thesis by (simp add: switch_eq SOURCE_CONFIRMED)
  next
    case DESTINATION_SUBMITTED
    have "proceeds op (and_then (flow_required (op_id op) effect_stage) (\<lambda>x.
      and_then (evidence op DESTINATION_CONFIRMATION (destination_confirm op x)) (\<lambda>e. flow_move pg_ts clock actor op
        (if is_true e ''confirmed'' then DESTINATION_CONFIRMED else DESTINATION_FAILED) (why DESTINATION_SUBMITTED) None))) w"
      by (rule required_proceeds [OF l _ destination_confirm_law destination_confirm_live, where target = DESTINATION_CONFIRMED])
        (use DESTINATION_SUBMITTED present in \<open>auto simp: live_simps\<close>)
    then show ?thesis by (simp add: switch_eq DESTINATION_SUBMITTED)
  next
    case DESTINATION_CONFIRMED
    have "proceeds op (and_then (flow_required (op_id op) effect_stage) (\<lambda>x.
      and_then (evidence op DESTINATION_FINALITY (destination_finalize op x)) (\<lambda>e. flow_move pg_ts clock actor op
        (if is_true e ''finalized'' then DESTINATION_FINALIZED else DESTINATION_FAILED) (why DESTINATION_CONFIRMED) None))) w"
      by (rule required_proceeds [OF l _ destination_finalize_law destination_finalize_live, where target = DESTINATION_FINALIZED])
        (use DESTINATION_CONFIRMED present in \<open>auto simp: live_simps\<close>)
    then show ?thesis by (simp add: switch_eq DESTINATION_CONFIRMED)
  qed (use plain policy submit reconcile attest effect_proceeds [OF l] nf state in
      \<open>auto simp: switch_eq live_simps\<close>)
qed

lemma step_proceeds:
  assumes "live op w" "op_state op \<noteq> COMPLETED"
  shows "proceeds op (step op) w"
proof -
  have "\<not> is_terminal (op_state op)"
    using assms by (auto simp: live_def failed_state_def is_terminal_def terminal_def)
  moreover have "\<not> date_reached (clock (calls w)) (op_expiresAt op)" using assms(1) by (simp add: live_def)
  ultimately show ?thesis
    using switch_proceeds [OF live_clock [OF assms(1)] assms(2)]
    by (simp add: proceeds_def step_eq and_then_def now_eq)
qed

lemma loop_completes:
  "live op w \<Longrightarrow> 14 \<le> n + rank (op_state op) \<Longrightarrow>
   \<exists>op' w'. loop n op w = (Inr op', w') \<and> op_state op' = COMPLETED \<and> op_id op' = op_id op"
proof (induction n arbitrary: op w)
  case 0
  then have "op_state op = COMPLETED" by (cases "op_state op") (auto simp: live_def failed_state_def terminal_def)
  then show ?case by (simp add: loop_0)
next
  case (Suc n)
  show ?case
  proof (cases "op_state op = COMPLETED")
    case False
    obtain op' w' where n: "step op w = (Inr (Some op'), w')" "live op' w'" "op_id op' = op_id op"
      "rank (op_state op') = Suc (rank (op_state op))"
      using step_proceeds [OF Suc.prems(1) False] by (auto simp: proceeds_def)
    have "14 \<le> n + rank (op_state op')" using Suc.prems(2) n(4) by simp
    from Suc.IH [OF n(2) this] n show ?thesis by (simp add: loop_Suc and_then_def)
  qed (simp add: loop_Suc)
qed

text \<open>A freshly created operation starts a live run.\<close>

lemma created_live:
  assumes w: "world_ok None w" and run: "engine_create pg input w = (Inr op, w1)"
    and open_ended: "\<forall>h. \<not> date_reached (clock h) (cb_expiresAt input)"
  shows "\<exists>op1. load_operation (cb_id input) w1 = Some op1 \<and> live op1 w1 \<and> op_id op1 = cb_id input
    \<and> op_expiresAt op1 = cb_expiresAt input \<and> op_state op1 = CREATED \<and> unwritten op1 w1"
proof -
  obtain at where g: "create_guard input" "find_operation (cb_id input) w = None"
    "w1 = created_db input (initial_transition input) at w"
    using engine_create_cases [OF run] by blast
  have w1: "world_ok None w1" by (rule engine_create_world [OF w run])
  have rows: "transition_rows (cb_id input) w = []"
    using transition_rows_fresh [OF _ g(2)] w by (simp add: world_ok_def)
  have found: "find_operation (cb_id input) w1 = Some \<lparr>orow_id = cb_id input,
      orow_idempotency_key = cb_idempotencyKey input, orow_state = CREATED, orow_version = 0,
      orow_operation = created_operation input\<rparr>"
    using g(2) unfolding g(3) by (simp add: find_operation_def created_db_def find_append_None)
  let ?op = "(created_operation input)\<lparr>op_transitions := map row_transition (transition_rows (cb_id input) w1)\<rparr>"
  have load: "load_operation (cb_id input) w1 = Some ?op"
    using load_operation_wf [of w1 "cb_id input"] found w1 by (simp add: world_ok_def)
  have ids: "op_id ?op = cb_id input" "op_state ?op = CREATED" "op_expiresAt ?op = cb_expiresAt input"
    by (simp_all add: created_operation_def)
  have none: "find_evidence (cb_id input) stg w1 = None" for stg
  proof (rule ccontr)
    assume "find_evidence (cb_id input) stg w1 \<noteq> None"
    then obtain e where "e \<in> set (bridge_stage_evidence w)" "se_operationId e = cb_id input"
      using find_SomeD unfolding g(3) more_appended(6) find_evidence_def by fastforce
    then show False using w g(2) by (auto simp: world_ok_def evidence_ok_def)
  qed
  have names: "state_text s \<noteq> ''created''" for s by (cases s) simp_all
  have "find (\<lambda>r. trow_operation_id r = cb_id input \<and> trow_transition_key r = k) (bridge_transitions w) = None" for k
    using rows by (auto simp: transition_rows_def filter_empty_conv find_None_iff)
  then have keys: "find_transition_row (cb_id input) (cb_id input @ '':'' @ state_text s) w1 = None" for s
    using names [of s] unfolding g(3)
    by (simp add: find_transition_row_def created_db_def find_append_None initial_transition_def)
  have "ready ?op w1"
    using w1 load ids by (simp add: ready_def in_step_def same_terms_def)
  then have "live ?op w1"
    using ids none keys open_ended by (simp add: live_def failed_state_def terminal_def)
  moreover have "unwritten ?op w1" using none ids by (simp add: unwritten_def)
  ultimately show ?thesis using load ids by blast
qed

end

section \<open>Services that answer\<close>

lemma yieldsI:
  "(\<And>w. \<exists>data c. produce w = (Inr data, log_call c w) \<and> positive clock stg data) \<Longrightarrow> yields clock stg produce"
  by (simp add: yields_def)

lemma positive_text: "positive clock stg data \<Longrightarrow> stage_key stg = None \<Longrightarrow> has_text data ''transactionId''"
  by (simp add: positive_def)

lemma keeps_add:
  "se_operationId e = oid \<Longrightarrow> se_stage e = stg \<Longrightarrow>
   keeps_others oid stg w (add_evidence e (log_call c (log_call d w)))"
  by (auto simp: keeps_others_def find_add_evidence split: option.split)
    (simp add: add_evidence_def log_call_def)

lemma evidence_put_new:
  "find_evidence (se_operationId e) (se_stage e) w = None \<Longrightarrow> find_operation (se_operationId e) w \<noteq> None
    \<Longrightarrow> evidence_put e w = (Inr e, add_evidence e w)"
  by (auto simp: evidence_put_def add_evidence_def)

lemma ready_found: "ready op w \<Longrightarrow> find_operation (op_id op) w \<noteq> None"
  unfolding loads_iff [symmetric] by (auto simp: ready_def in_step_def)

lemmas produce_simps = and_then_def call_eq require_text_def positive_def has_text_def string_value_def

locale live_lock_mint =
  fixes svc :: lock_mint_services
  assumes clock_valid: "\<exists>t. lm_now svc h = Some t"
    and pg_accepts: "\<exists>at. lm_pg_ts svc (to_iso_string time) = Some at"
    and actor_named: "\<not> blank (lm_actor_name svc)"
    and policy_allows: "\<exists>d. lm_policy svc op h = Inr d \<and> pd_outcome d = ALLOW"
    and lock_accepted: "\<exists>t l. lm_lock svc op h = Inr (t, l) \<and> \<not> blank t \<and> \<not> blank l"
    and source_confirmed: "\<exists>p. lm_source_confirm svc op tx h = Inr (True, p) \<and> \<not> blank p"
    and source_finalized: "\<exists>p i. lm_source_finalize svc op tx h = Inr (True, p, i) \<and> \<not> blank p \<and> \<not> blank i"
    and attested: "\<exists>a. lm_attest svc op e h = Inr (True, a) \<and> \<not> blank (va_digest a)
      \<and> \<not> blank (va_validatorSetId a) \<and> \<not> blank (va_signatureCount a) \<and> \<not> blank (va_threshold a)
      \<and> \<not> blank (va_expiresAt a) \<and> (\<forall>h. \<not> date_reached (lm_now svc h) (va_expiresAt a))"
    and mint_accepted: "\<exists>t r. lm_mint svc op att h = Inr (t, r) \<and> \<not> blank t"
    and destination_confirmed: "\<exists>p. lm_destination_confirm svc op tx h = Inr (True, p) \<and> \<not> blank p"
    and destination_finalized:
      "\<exists>p i. lm_destination_finalize svc op tx h = Inr (True, p, i) \<and> \<not> blank p \<and> \<not> blank i"
    and reconciled: "\<exists>a b c. lm_reconcile svc op h = Inr (True, a, b, c)"
begin

lemma yields_lock:
  "yields (lm_now svc) SOURCE_LOCK (lm_produce_lock svc op)"
proof (rule yieldsI)
  fix w :: world
  show "\<exists>data c. lm_produce_lock svc op w = (Inr data, log_call c w)
      \<and> positive (lm_now svc) SOURCE_LOCK data"
    using lock_accepted [of op "calls w"] by (auto simp: lm_produce_lock_def produce_simps)
qed

lemma yields_source_confirmation:
  assumes "has_text (se_data e) ''transactionId''"
  shows "yields (lm_now svc) SOURCE_CONFIRMATION (lm_produce_source_confirmation svc op e)"
proof (rule yieldsI)
  fix w :: world
  obtain x where x: "map_of (se_data e) ''transactionId'' = Some (JStr x)" "\<not> blank x"
    using assms by (auto simp: has_text_def)
  show "\<exists>data c. lm_produce_source_confirmation svc op e w = (Inr data, log_call c w)
      \<and> positive (lm_now svc) SOURCE_CONFIRMATION data"
    using x source_confirmed [of op x "calls w"] by (auto simp: lm_produce_source_confirmation_def produce_simps)
qed

lemma yields_source_finality:
  assumes "has_text (se_data e) ''transactionId''"
  shows "yields (lm_now svc) SOURCE_FINALITY (lm_produce_source_finality svc op e)"
proof (rule yieldsI)
  fix w :: world
  obtain x where x: "map_of (se_data e) ''transactionId'' = Some (JStr x)" "\<not> blank x"
    using assms by (auto simp: has_text_def)
  show "\<exists>data c. lm_produce_source_finality svc op e w = (Inr data, log_call c w)
      \<and> positive (lm_now svc) SOURCE_FINALITY data"
    using x source_finalized [of op x "calls w"] by (auto simp: lm_produce_source_finality_def produce_simps)
qed

lemma yields_attestation:
  "yields (lm_now svc) ATTESTATION (lm_produce_attestation svc op e)"
proof (rule yieldsI)
  fix w :: world
  show "\<exists>data c. lm_produce_attestation svc op e w = (Inr data, log_call c w)
      \<and> positive (lm_now svc) ATTESTATION data"
    using attested [of op e "calls w"] by (auto simp: lm_produce_attestation_def produce_simps attestation_data_def)
qed

lemma yields_mint:
  "yields (lm_now svc) DESTINATION_MINT (lm_produce_mint svc op att)"
proof (rule yieldsI)
  fix w :: world
  show "\<exists>data c. lm_produce_mint svc op att w = (Inr data, log_call c w)
      \<and> positive (lm_now svc) DESTINATION_MINT data"
    using mint_accepted [of op att "calls w"] by (auto simp: lm_produce_mint_def produce_simps)
qed

lemma yields_destination_confirmation:
  assumes "has_text (se_data e) ''transactionId''"
  shows "yields (lm_now svc) DESTINATION_CONFIRMATION (lm_produce_destination_confirmation svc op e)"
proof (rule yieldsI)
  fix w :: world
  obtain x where x: "map_of (se_data e) ''transactionId'' = Some (JStr x)" "\<not> blank x"
    using assms by (auto simp: has_text_def)
  show "\<exists>data c. lm_produce_destination_confirmation svc op e w = (Inr data, log_call c w)
      \<and> positive (lm_now svc) DESTINATION_CONFIRMATION data"
    using x destination_confirmed [of op x "calls w"] by (auto simp: lm_produce_destination_confirmation_def produce_simps)
qed

lemma yields_destination_finality:
  assumes "has_text (se_data e) ''transactionId''"
  shows "yields (lm_now svc) DESTINATION_FINALITY (lm_produce_destination_finality svc op e)"
proof (rule yieldsI)
  fix w :: world
  obtain x where x: "map_of (se_data e) ''transactionId'' = Some (JStr x)" "\<not> blank x"
    using assms by (auto simp: has_text_def)
  show "\<exists>data c. lm_produce_destination_finality svc op e w = (Inr data, log_call c w)
      \<and> positive (lm_now svc) DESTINATION_FINALITY data"
    using x destination_finalized [of op x "calls w"] by (auto simp: lm_produce_destination_finality_def produce_simps)
qed

lemma yields_reconciliation:
  "yields (lm_now svc) RECONCILIATION (lm_produce_reconciliation svc op)"
proof (rule yieldsI)
  fix w :: world
  show "\<exists>data c. lm_produce_reconciliation svc op w = (Inr data, log_call c w)
      \<and> positive (lm_now svc) RECONCILIATION data"
    using reconciled [of op "calls w"] by (auto simp: lm_produce_reconciliation_def produce_simps)
qed

lemma evidence_yields:
  assumes r: "ready op w" and y: "yields (lm_now svc) stg produce" and none: "find_evidence (op_id op) stg w = None"
  shows "\<exists>e w'. lm_evidence svc op stg produce w = (Inr e, w') \<and> positive (lm_now svc) stg (se_data e)
      \<and> keeps_others (op_id op) stg w w'"
proof -
  obtain data c where p: "produce w = (Inr data, log_call c w)" "positive (lm_now svc) stg data"
    using y unfolding yields_def by meson
  obtain t where t: "lm_now svc (calls w @ [c]) = Some t" using clock_valid by blast
  then show ?thesis
    using p none ready_found [OF r] by (simp add: lm_evidence_def evidence_get_def and_then_def now_eq
        iso_string_def evidence_put_new keeps_add)
qed

end

sublocale live_lock_mint \<subseteq> live: live_flow "lm_pg_ts svc" "lm_now svc" "lm_actor_name svc" "lm_evidence svc"
  "lm_policy svc" SOURCE_LOCK DESTINATION_MINT "lm_produce_lock svc"
  "lm_produce_source_confirmation svc" "lm_produce_source_finality svc" "lm_produce_attestation svc"
  "lm_produce_destination_confirmation svc" "lm_produce_destination_finality svc"
  "lm_produce_mint svc" "lm_produce_reconciliation svc" lm_why
  "\<lambda>e. ''Canton lock submitted: '' @ evidence_field e ''transactionId''" "\<lambda>e. ''EVM mint '' @ evidence_field e ''outcome''"
  "''threshold attestation expired before mint''" "lock_mint_switch svc" "lock_mint_step svc" "lock_mint_loop svc"
  "\<lambda>op. RegistryError CONFLICT (''lock-mint coordinator stopped in state: '' @ state_text (op_state op))"
proof unfold_locales
  fix s assume "s \<in> set main_path - {SOURCE_PREPARING, DESTINATION_PREPARING, COMPLETED}"
  then show "\<not> blank (lm_why s)" by (auto simp: main_path_def lm_why_def)
next
  fix op :: operation and stg and w :: world and e and produce :: "(world, stage_data) comp"
  assume "find_evidence (op_id op) stg w = Some e"
  then show "lm_evidence svc op stg produce w = (Inr e, w)"
    by (simp add: lm_evidence_def evidence_get_def and_then_def)
qed (use clock_valid pg_accepts actor_named policy_allows in
    \<open>auto intro: yields_lock yields_source_confirmation yields_source_finality yields_attestation yields_mint
      yields_destination_confirmation yields_destination_finality yields_reconciliation evidence_yields
      dest!: positive_text\<close>)

locale live_burn_release =
  fixes svc :: burn_release_services
  assumes clock_valid: "\<exists>t. br_now svc h = Some t"
    and pg_accepts: "\<exists>at. br_pg_ts svc (to_iso_string time) = Some at"
    and actor_named: "\<not> blank (br_actor_name svc)"
    and policy_allows: "\<exists>d. br_policy svc op h = Inr d \<and> pd_outcome d = ALLOW"
    and burn_accepted: "\<exists>t r. br_burn svc op h = Inr (t, r) \<and> \<not> blank t"
    and source_confirmed: "\<exists>p. br_source_confirm svc op tx h = Inr (True, p) \<and> \<not> blank p"
    and source_finalized: "\<exists>p i. br_source_finalize svc op tx h = Inr (True, p, i) \<and> \<not> blank p \<and> \<not> blank i"
    and attested: "\<exists>a. br_attest svc op e h = Inr (True, a) \<and> \<not> blank (va_digest a)
      \<and> \<not> blank (va_validatorSetId a) \<and> \<not> blank (va_signatureCount a) \<and> \<not> blank (va_threshold a)
      \<and> \<not> blank (va_expiresAt a) \<and> (\<forall>h. \<not> date_reached (br_now svc h) (va_expiresAt a))"
    and release_accepted: "\<exists>t i r. br_release svc op att h = Inr (t, i, r) \<and> \<not> blank t \<and> \<not> blank i"
    and destination_confirmed: "\<exists>p. br_destination_confirm svc op tx h = Inr (True, p) \<and> \<not> blank p"
    and destination_finalized:
      "\<exists>p i. br_destination_finalize svc op tx h = Inr (True, p, i) \<and> \<not> blank p \<and> \<not> blank i"
    and reconciled: "\<exists>a b c d. br_reconcile svc op h = Inr (True, a, b, c, d) \<and> \<not> blank d"
begin

lemma yields_burn:
  "yields (br_now svc) SOURCE_BURN (br_produce_burn svc op)"
proof (rule yieldsI)
  fix w :: world
  show "\<exists>data c. br_produce_burn svc op w = (Inr data, log_call c w)
      \<and> positive (br_now svc) SOURCE_BURN data"
    using burn_accepted [of op "calls w"] by (auto simp: br_produce_burn_def produce_simps)
qed

lemma yields_source_confirmation:
  assumes "has_text (se_data e) ''transactionId''"
  shows "yields (br_now svc) SOURCE_CONFIRMATION (br_produce_source_confirmation svc op e)"
proof (rule yieldsI)
  fix w :: world
  obtain x where x: "map_of (se_data e) ''transactionId'' = Some (JStr x)" "\<not> blank x"
    using assms by (auto simp: has_text_def)
  show "\<exists>data c. br_produce_source_confirmation svc op e w = (Inr data, log_call c w)
      \<and> positive (br_now svc) SOURCE_CONFIRMATION data"
    using x source_confirmed [of op x "calls w"] by (auto simp: br_produce_source_confirmation_def produce_simps)
qed

lemma yields_source_finality:
  assumes "has_text (se_data e) ''transactionId''"
  shows "yields (br_now svc) SOURCE_FINALITY (br_produce_source_finality svc op e)"
proof (rule yieldsI)
  fix w :: world
  obtain x where x: "map_of (se_data e) ''transactionId'' = Some (JStr x)" "\<not> blank x"
    using assms by (auto simp: has_text_def)
  show "\<exists>data c. br_produce_source_finality svc op e w = (Inr data, log_call c w)
      \<and> positive (br_now svc) SOURCE_FINALITY data"
    using x source_finalized [of op x "calls w"] by (auto simp: br_produce_source_finality_def produce_simps)
qed

lemma yields_attestation:
  "yields (br_now svc) ATTESTATION (br_produce_attestation svc op e)"
proof (rule yieldsI)
  fix w :: world
  show "\<exists>data c. br_produce_attestation svc op e w = (Inr data, log_call c w)
      \<and> positive (br_now svc) ATTESTATION data"
    using attested [of op e "calls w"] by (auto simp: br_produce_attestation_def produce_simps attestation_data_def)
qed

lemma yields_release:
  "yields (br_now svc) DESTINATION_RELEASE (br_produce_release svc op att)"
proof (rule yieldsI)
  fix w :: world
  show "\<exists>data c. br_produce_release svc op att w = (Inr data, log_call c w)
      \<and> positive (br_now svc) DESTINATION_RELEASE data"
    using release_accepted [of op att "calls w"] by (auto simp: br_produce_release_def produce_simps)
qed

lemma yields_destination_confirmation:
  assumes "has_text (se_data e) ''transactionId''"
  shows "yields (br_now svc) DESTINATION_CONFIRMATION (br_produce_destination_confirmation svc op e)"
proof (rule yieldsI)
  fix w :: world
  obtain x where x: "map_of (se_data e) ''transactionId'' = Some (JStr x)" "\<not> blank x"
    using assms by (auto simp: has_text_def)
  show "\<exists>data c. br_produce_destination_confirmation svc op e w = (Inr data, log_call c w)
      \<and> positive (br_now svc) DESTINATION_CONFIRMATION data"
    using x destination_confirmed [of op x "calls w"] by (auto simp: br_produce_destination_confirmation_def produce_simps)
qed

lemma yields_destination_finality:
  assumes "has_text (se_data e) ''transactionId''"
  shows "yields (br_now svc) DESTINATION_FINALITY (br_produce_destination_finality svc op e)"
proof (rule yieldsI)
  fix w :: world
  obtain x where x: "map_of (se_data e) ''transactionId'' = Some (JStr x)" "\<not> blank x"
    using assms by (auto simp: has_text_def)
  show "\<exists>data c. br_produce_destination_finality svc op e w = (Inr data, log_call c w)
      \<and> positive (br_now svc) DESTINATION_FINALITY data"
    using x destination_finalized [of op x "calls w"] by (auto simp: br_produce_destination_finality_def produce_simps)
qed

lemma yields_reconciliation:
  "yields (br_now svc) RECONCILIATION (br_produce_reconciliation svc op)"
proof (rule yieldsI)
  fix w :: world
  show "\<exists>data c. br_produce_reconciliation svc op w = (Inr data, log_call c w)
      \<and> positive (br_now svc) RECONCILIATION data"
    using reconciled [of op "calls w"] by (auto simp: br_produce_reconciliation_def produce_simps)
qed

lemma evidence_yields:
  assumes r: "ready op w" and y: "yields (br_now svc) stg produce" and none: "find_evidence (op_id op) stg w = None"
  shows "\<exists>e w'. br_evidence svc op stg produce w = (Inr e, w') \<and> positive (br_now svc) stg (se_data e)
      \<and> keeps_others (op_id op) stg w w'"
proof -
  obtain t where t: "br_now svc (calls w) = Some t" using clock_valid by blast
  obtain data c where p: "produce (log_call (NowCall (Some t)) w) = (Inr data, log_call c (log_call (NowCall (Some t)) w))"
    "positive (br_now svc) stg data"
    using y unfolding yields_def by meson
  then show ?thesis
    using t none ready_found [OF r] by (simp add: br_evidence_def evidence_get_def and_then_def now_eq
        iso_string_def evidence_put_new keeps_add)
qed

end

sublocale live_burn_release \<subseteq> live: live_flow "br_pg_ts svc" "br_now svc" "br_actor_name svc" "br_evidence svc"
  "br_policy svc" SOURCE_BURN DESTINATION_RELEASE "br_produce_burn svc"
  "br_produce_source_confirmation svc" "br_produce_source_finality svc" "br_produce_attestation svc"
  "br_produce_destination_confirmation svc" "br_produce_destination_finality svc"
  "br_produce_release svc" "br_produce_reconciliation svc" br_why
  "\<lambda>e. ''EVM burn '' @ evidence_field e ''outcome''" "\<lambda>e. ''Canton release '' @ evidence_field e ''outcome''"
  "''threshold attestation expired before release''" "burn_release_switch svc" "burn_release_step svc" "burn_release_loop svc"
  "\<lambda>op. RegistryError CONFLICT (''burn-release coordinator stopped in state: '' @ state_text (op_state op))"
proof unfold_locales
  fix s assume "s \<in> set main_path - {SOURCE_PREPARING, DESTINATION_PREPARING, COMPLETED}"
  then show "\<not> blank (br_why s)" by (auto simp: main_path_def br_why_def)
next
  fix op :: operation and stg and w :: world and e and produce :: "(world, stage_data) comp"
  assume "find_evidence (op_id op) stg w = Some e"
  then show "br_evidence svc op stg produce w = (Inr e, w)"
    by (simp add: br_evidence_def evidence_get_def and_then_def)
qed (use clock_valid pg_accepts actor_named policy_allows in
    \<open>auto intro: yields_burn yields_source_confirmation yields_source_finality yields_attestation yields_release
      yields_destination_confirmation yields_destination_finality yields_reconciliation evidence_yields
      dest!: positive_text\<close>)

context live_lock_mint
begin

lemma completes:
  assumes w: "world_ok None w" and run: "engine_create pg input w = (Inr op, w1)"
    and open_ended: "\<forall>h. \<not> date_reached (lm_now svc h) (cb_expiresAt input)"
  shows "\<exists>op' w'. lock_mint_run svc (cb_id input) w1 = (Inr op', w') \<and> op_state op' = COMPLETED"
proof -
  obtain op1 where op1: "load_operation (cb_id input) w1 = Some op1" "live.live op1 w1"
    using live.created_live [OF w run open_ended] by blast
  have "lm_operation (cb_id input) w1 = (Inr op1, w1)"
    using op1(1) by (simp add: lm_operation_def store_get_def transaction_def and_then_def)
  then show ?thesis
    using live.loop_completes [OF op1(2), of 24] by (auto simp: lock_mint_run_def and_then_def)
qed

end

context live_burn_release
begin

lemma completes:
  assumes w: "world_ok None w" and run: "engine_create pg input w = (Inr op, w1)"
    and open_ended: "\<forall>h. \<not> date_reached (br_now svc h) (cb_expiresAt input)"
  shows "\<exists>op' w'. burn_release_run svc (cb_id input) w1 = (Inr op', w') \<and> op_state op' = COMPLETED"
proof -
  obtain op1 where op1: "load_operation (cb_id input) w1 = Some op1" "live.live op1 w1"
    using live.created_live [OF w run open_ended] by blast
  have "br_operation (cb_id input) w1 = (Inr op1, w1)"
    using op1(1) by (simp add: br_operation_def store_get_def transaction_def and_then_def)
  then show ?thesis
    using live.loop_completes [OF op1(2), of 24] by (auto simp: burn_release_run_def and_then_def)
qed

end

section \<open>A mint that answers with a blank transaction id\<close>

definition answering_mint :: "string \<Rightarrow> effect_outcome \<Rightarrow> lock_mint_services \<Rightarrow> lock_mint_services" where
  "answering_mint t outcome svc = svc\<lparr>lm_mint := (\<lambda>_ _ _. Inr (t, outcome))\<rparr>"

lemma answering_fields:
  "lm_now (answering_mint t outcome svc) = lm_now svc"
  "lm_transition (answering_mint t outcome svc) = lm_transition svc"
  "lm_evidence (answering_mint t outcome svc) = lm_evidence svc"
  "lm_policy (answering_mint t outcome svc) = lm_policy svc"
  "lm_mint (answering_mint t outcome svc) = (\<lambda>_ _ _. Inr (t, outcome))"
  by (simp_all add: answering_mint_def fun_eq_iff lm_transition_def lm_evidence_def lm_actor_name_def cong: option.case_cong)

lemma answering_produce:
  "lm_produce_lock (answering_mint t outcome svc) = lm_produce_lock svc"
  "lm_produce_source_confirmation (answering_mint t outcome svc) = lm_produce_source_confirmation svc"
  "lm_produce_source_finality (answering_mint t outcome svc) = lm_produce_source_finality svc"
  "lm_produce_attestation (answering_mint t outcome svc) = lm_produce_attestation svc"
  "lm_produce_destination_confirmation (answering_mint t outcome svc) = lm_produce_destination_confirmation svc"
  "lm_produce_destination_finality (answering_mint t outcome svc) = lm_produce_destination_finality svc"
  "lm_produce_reconciliation (answering_mint t outcome svc) = lm_produce_reconciliation svc"
  by (simp_all add: answering_mint_def fun_eq_iff lm_produce_lock_def lm_produce_source_confirmation_def
      lm_produce_source_finality_def lm_produce_attestation_def lm_produce_destination_confirmation_def
      lm_produce_destination_finality_def lm_produce_reconciliation_def)

lemma answering_switch:
  "op_state op \<noteq> DESTINATION_PREPARING \<Longrightarrow> lock_mint_switch (answering_mint t outcome svc) op = lock_mint_switch svc op"
  by (cases "op_state op") (simp_all add: lock_mint_switch_def answering_fields answering_produce)

lemma answering_step:
  "op_state op \<noteq> DESTINATION_PREPARING \<Longrightarrow> lock_mint_step (answering_mint t outcome svc) op = lock_mint_step svc op"
  by (simp add: lock_mint_step_def answering_switch answering_fields cong: if_cong)

text \<open>The state it leads to, from which no run of the coordinator leads on before the operation expires.\<close>

definition blank_minted :: "interweave_id \<Rightarrow> string \<Rightarrow> string \<Rightarrow> world \<Rightarrow> bool" where
  "blank_minted oid t expiresAt w \<longleftrightarrow>
     (\<exists>op. load_operation oid w = Some op \<and> op_id op = oid \<and> op_state op = DESTINATION_SUBMITTED \<and> op_expiresAt op = expiresAt)
     \<and> (\<exists>e. find_evidence oid DESTINATION_MINT w = Some e \<and> se_stage e = DESTINATION_MINT
          \<and> map_of (se_data e) ''transactionId'' = Some (JStr t))
     \<and> find_evidence oid DESTINATION_CONFIRMATION w = None"

abbreviation blank_mint_error :: error where
  "blank_mint_error \<equiv> RegistryError INVALID_ARGUMENT ''invalid DESTINATION_MINT evidence: transactionId''"

lemma blank_minted_step:
  assumes "find_evidence (op_id op) DESTINATION_MINT w = Some e" "se_stage e = DESTINATION_MINT"
    and "map_of (se_data e) ''transactionId'' = Some (JStr t)" "blank t"
    and "find_evidence (op_id op) DESTINATION_CONFIRMATION w = None" "op_state op = DESTINATION_SUBMITTED"
    and "\<not> date_reached (lm_now svc (calls w)) (op_expiresAt op)"
  shows "lock_mint_loop svc (Suc n) op w = (Inl blank_mint_error, log_call (NowCall (lm_now svc (calls w))) w)"
  using assms
  by (simp add: lock_mint_step_def lock_mint_switch_def lm_required_evidence_def lm_evidence_def evidence_get_def
      lm_produce_destination_confirmation_def string_value_def and_then_def now_eq is_terminal_def terminal_def)

lemma blank_minted_stuck:
  assumes b: "blank_minted oid t expiresAt w" and blank: "blank t" and open_ended: "\<not> date_reached (lm_now svc (calls w)) expiresAt"
  shows "lock_mint_run svc oid w = (Inl blank_mint_error, log_call (NowCall (lm_now svc (calls w))) w)"
proof -
  obtain op e where op: "load_operation oid w = Some op" "op_id op = oid" "op_state op = DESTINATION_SUBMITTED" "op_expiresAt op = expiresAt"
    and e: "find_evidence oid DESTINATION_MINT w = Some e" "se_stage e = DESTINATION_MINT"
      "map_of (se_data e) ''transactionId'' = Some (JStr t)" "find_evidence oid DESTINATION_CONFIRMATION w = None"
    using b by (auto simp: blank_minted_def)
  have "lm_operation oid w = (Inr op, w)" using op(1) by (simp add: lm_operation_def store_get_def transaction_def and_then_def)
  moreover have "lock_mint_loop svc (Suc 23) op w = (Inl blank_mint_error, log_call (NowCall (lm_now svc (calls w))) w)"
    by (rule blank_minted_step) (use op e blank open_ended in simp_all)
  ultimately show ?thesis by (simp add: lock_mint_run_def and_then_def eval_nat_numeral)
qed

lemma blank_minted_log: "blank_minted oid t expiresAt (log_call c w) = blank_minted oid t expiresAt w"
  by (simp add: blank_minted_def)

context live_lock_mint
begin

text \<open>Up to the mint the run is that of services that all answer positively.\<close>

lemma reaches_mint:
  "live.live op w \<Longrightarrow> unwritten op w \<Longrightarrow> rank (op_state op) + k = 8 \<Longrightarrow>
     \<exists>op' w'. lock_mint_loop (answering_mint t outcome svc) (k + n) op w = lock_mint_loop (answering_mint t outcome svc) n op' w'
       \<and> live.live op' w' \<and> unwritten op' w' \<and> op_id op' = op_id op \<and> op_expiresAt op' = op_expiresAt op
       \<and> op_state op' = DESTINATION_PREPARING"
proof (induction k arbitrary: op w)
  case 0
  then have "op_state op = DESTINATION_PREPARING" by (cases "op_state op") (auto simp: live.live_def failed_state_def terminal_def)
  then show ?case using 0 by auto
next
  case (Suc k)
  have "op_state op \<noteq> COMPLETED" "op_state op \<noteq> DESTINATION_PREPARING" using Suc.prems(3) by auto
  then obtain op1 w1 where step: "lock_mint_step svc op w = (Inr (Some op1), w1)" "live.live op1 w1" "op_id op1 = op_id op"
      "op_expiresAt op1 = op_expiresAt op" "rank (op_state op1) = Suc (rank (op_state op))" "unwritten op1 w1"
    using live.step_proceeds [OF Suc.prems(1)] by (auto simp: live.proceeds_def)
  have "rank (op_state op1) + k = 8" using step(5) Suc.prems(3) by simp
  from Suc.IH [OF step(2,6) this] step \<open>op_state op \<noteq> COMPLETED\<close> \<open>op_state op \<noteq> DESTINATION_PREPARING\<close>
  show ?case by (simp add: answering_step and_then_def)
qed

lemma answered_evidence:
  assumes r: "ready op w" and pre: "effect_pre (op_id op) att w" and none: "find_evidence (op_id op) DESTINATION_MINT w = None"
  shows "\<exists>e w'. lm_evidence svc op DESTINATION_MINT (lm_produce_mint (answering_mint t outcome svc) op att) w = (Inr e, w')
    \<and> ready op w' \<and> find_evidence (op_id op) DESTINATION_MINT w' = Some e \<and> se_stage e = DESTINATION_MINT
    \<and> se_data e = [(''transactionId'', JStr t), (''outcome'', JStr (outcome_text outcome))]
    \<and> keeps_others (op_id op) DESTINATION_MINT w w' \<and> MintCall op att (Inr (t, outcome)) \<in> set (calls w')"
proof -
  let ?data = "[(''transactionId'', JStr t), (''outcome'', JStr (outcome_text outcome))]"
  let ?c = "MintCall op att (Inr (t, outcome))"
  obtain d where d: "lm_now svc (calls w @ [?c]) = Some d" using clock_valid by blast
  let ?e = "\<lparr>se_operationId = op_id op, se_stage = DESTINATION_MINT, se_recordedAt = to_iso_string d, se_data = ?data\<rparr>"
  let ?w = "add_evidence ?e (log_call (NowCall (Some d)) (log_call ?c w))"
  have produced: "lm_produce_mint (answering_mint t outcome svc) op att w = (Inr ?data, log_call ?c w)"
    by (simp add: lm_produce_mint_def and_then_def call_eq answering_fields)
  have run: "lm_evidence svc op DESTINATION_MINT (lm_produce_mint (answering_mint t outcome svc) op att) w = (Inr ?e, ?w)"
    using none d ready_found [OF r] produced
    by (simp add: lm_evidence_def evidence_get_def and_then_def now_eq iso_string_def evidence_put_new)
  have post: "ready op ?w \<and> find_evidence (op_id op) DESTINATION_MINT ?w = Some ?e"
    by (rule hoare_InrD [OF evidence_triple_hoare [OF lm_evidence_triple lm_mint_law effect_pre_clock] _ run]) (use r pre in auto)
  have "keeps_others (op_id op) DESTINATION_MINT w ?w" by (rule keeps_add) simp_all
  moreover have "?c \<in> set (calls ?w)" by (simp add: log_call_def)
  ultimately show ?thesis using run post by auto
qed

lemma mints_blank:
  assumes l: "live.live op w" and new: "unwritten op w" and state: "op_state op = DESTINATION_PREPARING"
  shows "\<exists>op' w' c. lock_mint_step (answering_mint t outcome svc) op w = (Inr (Some op'), w') \<and> ready op' w'
    \<and> op_id op' = op_id op \<and> op_state op' = DESTINATION_SUBMITTED \<and> op_expiresAt op' = op_expiresAt op
    \<and> find_evidence (op_id op) DESTINATION_CONFIRMATION w' = None
    \<and> (\<exists>e. find_evidence (op_id op) DESTINATION_MINT w' = Some e \<and> se_stage e = DESTINATION_MINT
         \<and> map_of (se_data e) ''transactionId'' = Some (JStr t))
    \<and> (\<exists>att. MintCall op att (Inr (t, outcome)) \<in> set (calls w'))"
proof -
  let ?svc = "answering_mint t outcome svc" and ?oid = "op_id op"
  let ?w1 = "log_call (NowCall (lm_now svc (calls w))) w"
  let ?w2 = "log_call (NowCall (lm_now svc (calls ?w1))) ?w1"
  have live2: "live.live op ?w2" by (intro live.live_clock l)
  obtain stored where st: "find_evidence ?oid ATTESTATION w = Some stored"
    using live.gate_present [OF l, of ATTESTED] state by (auto simp: main_path_def)
  then have pos: "positive (lm_now svc) ATTESTATION (se_data stored)" using l by (simp add: live.live_def)
  obtain att where att: "attestation_from stored ?w1 = (Inr att, ?w1)" "\<forall>h. \<not> date_reached (lm_now svc h) (va_expiresAt att)"
    using positive_attestation [OF pos, of ?w1] by blast
  have "DESTINATION_PREPARING \<in> set (history ?oid w)"
    using ready_history [of op w] l state by (simp add: live.live_def failed_state_def terminal_def main_path_def)
  moreover have "unexpired_after (calls ?w2) att"
    using unexpired_now [of _ att "calls ?w1"] att(2) by (simp add: log_call_def)
  ultimately have pre: "effect_pre ?oid att ?w2"
    using attestation_from_Inr [OF att(1)] st by (auto simp: effect_pre_def attested_def)
  have ready2: "ready op ?w2" using live2 by (simp add: live.live_def)
  have none: "find_evidence ?oid DESTINATION_MINT ?w2 = None" "find_evidence ?oid DESTINATION_CONFIRMATION ?w2 = None"
    using new state by (simp_all add: unwritten_def)
  obtain e w3 where e: "lm_evidence svc op DESTINATION_MINT (lm_produce_mint ?svc op att) ?w2 = (Inr e, w3)"
    "ready op w3" "find_evidence ?oid DESTINATION_MINT w3 = Some e" "se_stage e = DESTINATION_MINT"
    "se_data e = [(''transactionId'', JStr t), (''outcome'', JStr (outcome_text outcome))]"
    "keeps_others ?oid DESTINATION_MINT ?w2 w3" "MintCall op att (Inr (t, outcome)) \<in> set (calls w3)"
    using answered_evidence [OF ready2 pre none(1)] by blast
  have "live.unrecorded_beyond op w3"
    using live2 e(6) by (simp add: live.unrecorded_beyond_def live.live_def keeps_others_def find_transition_row_def)
  moreover have "gate_open DESTINATION_SUBMITTED ?oid w3" using e(3) by (simp add: gate_open_def)
  ultimately obtain op' w' c where m: "flow_move (lm_pg_ts svc) (lm_now svc) (lm_actor_name svc) op DESTINATION_SUBMITTED
      (''EVM mint '' @ evidence_field e ''outcome'') None w3 = (Inr (Some op'), w')"
    "ready op' w'" "op_id op' = ?oid" "op_state op' = DESTINATION_SUBMITTED" "op_expiresAt op' = op_expiresAt op"
    "bridge_stage_evidence w' = bridge_stage_evidence w3" "calls w' = calls w3 @ [NowCall c]"
    using live.move_ready [OF e(2), of DESTINATION_SUBMITTED "''EVM mint '' @ evidence_field e ''outcome''" None] state live.effected_live [of e]
    by (auto simp: can_transition_def terminal_def failed_state_def)
  have "lock_mint_step ?svc op w = (Inr (Some op'), w')"
  proof -
    have "\<not> date_reached (lm_now svc (calls w)) (op_expiresAt op)" using l by (simp add: live.live_def)
    moreover have "lm_required_evidence ?oid ATTESTATION ?w1 = (Inr stored, ?w1)"
      using st by (simp add: lm_required_evidence_def evidence_get_def and_then_def)
    moreover have "and_then (lm_transition svc op DESTINATION_SUBMITTED (''EVM mint '' @ evidence_field e ''outcome'') None)
        (\<lambda>next. ret (Some next)) w3 = (Inr (Some op'), w')"
      using m(1) by (simp add: flow_move_def lm_transition_flow)
    ultimately show ?thesis
      using state att e(1)
      by (simp add: lock_mint_step_def lock_mint_switch_def answering_fields is_terminal_def terminal_def and_then_def [of "now _"] now_eq
          and_then_def [of "lm_required_evidence _ _"] and_then_def [of "attestation_from _"] and_then_def [of "lm_evidence _ _ _ _"] del: append.simps)
  qed
  then show ?thesis using m e none by (intro exI [of _ op'] exI [of _ w']) (auto simp: find_evidence_def keeps_others_def)
qed

lemma blank_mint_run:
  assumes w: "world_ok None w" and run: "engine_create pg input w = (Inr op, w1)"
    and open_ended: "\<forall>h. \<not> date_reached (lm_now svc h) (cb_expiresAt input)" and blank: "blank t"
  shows "\<exists>w' op' att. lock_mint_run (answering_mint t outcome svc) (cb_id input) w1 = (Inl blank_mint_error, w')
    \<and> op_id op' = cb_id input \<and> MintCall op' att (Inr (t, outcome)) \<in> set (calls w')
    \<and> blank_minted (cb_id input) t (cb_expiresAt input) w'"
proof -
  let ?svc = "answering_mint t outcome svc" and ?oid = "cb_id input"
  obtain op1 where op1: "load_operation ?oid w1 = Some op1" "live.live op1 w1" "op_id op1 = ?oid"
    "op_expiresAt op1 = cb_expiresAt input" "op_state op1 = CREATED" "unwritten op1 w1"
    using live.created_live [OF w run open_ended] by blast
  have load: "lm_operation ?oid w1 = (Inr op1, w1)"
    using op1(1) by (simp add: lm_operation_def store_get_def transaction_def and_then_def)
  obtain op2 w2 where op2: "lock_mint_loop ?svc (8 + 16) op1 w1 = lock_mint_loop ?svc 16 op2 w2" "live.live op2 w2" "unwritten op2 w2"
    "op_id op2 = ?oid" "op_expiresAt op2 = cb_expiresAt input" "op_state op2 = DESTINATION_PREPARING"
    using reaches_mint [OF op1(2,6), of 8 t outcome 16] op1(3-5) by auto
  obtain op3 w3 e att where op3: "lock_mint_step ?svc op2 w2 = (Inr (Some op3), w3)" "ready op3 w3" "op_id op3 = ?oid"
    "op_state op3 = DESTINATION_SUBMITTED" "op_expiresAt op3 = cb_expiresAt input"
    "find_evidence ?oid DESTINATION_CONFIRMATION w3 = None" "find_evidence ?oid DESTINATION_MINT w3 = Some e"
    "se_stage e = DESTINATION_MINT" "map_of (se_data e) ''transactionId'' = Some (JStr t)"
    "MintCall op2 att (Inr (t, outcome)) \<in> set (calls w3)"
    using mints_blank [OF op2(2,3,6), of t outcome] op2(4,5) by auto
  let ?w = "log_call (NowCall (lm_now svc (calls w3))) w3"
  have "lock_mint_loop ?svc (Suc 14) op3 w3 = (Inl blank_mint_error, ?w)"
    by (subst blank_minted_step [where e = e and t = t])
      (use op3 blank open_ended in \<open>simp_all add: answering_fields\<close>)
  then have "lock_mint_loop ?svc (Suc (Suc 14)) op2 w2 = (Inl blank_mint_error, ?w)"
    using op3(1) op2(6) unfolding lock_mint_loop.simps(2) [of ?svc "Suc 14" op2] by (simp add: and_then_def)
  then have "lock_mint_run ?svc ?oid w1 = (Inl blank_mint_error, ?w)"
    using op2(1) load by (simp add: lock_mint_run_def and_then_def eval_nat_numeral)
  moreover obtain op4 where "load_operation ?oid w3 = Some op4" "same_terms op3 op4" "op_state op4 = DESTINATION_SUBMITTED"
    using op3(2-4) by (auto simp: ready_def in_step_def)
  then have "blank_minted ?oid t (cb_expiresAt input) w3"
    using op3(3,5-9) by (auto simp: blank_minted_def same_terms_def)
  moreover have "MintCall op2 att (Inr (t, outcome)) \<in> set (calls ?w)" using op3(10) by (simp add: log_call_def)
  ultimately show ?thesis using op2(4) blank_minted_log by blast
qed

end

end
