(* ===== verification/Transaction_Properties.thy ===== *)
theory Transaction_Properties
  imports Transaction_Safety
begin

text \<open>
  The properties of the transaction engine: what holds of every operation that loads after any
  interleaving of engine calls, the refinement to a map of histories, idempotent replay, optimistic
  concurrency, and what a successful or a refused call returns.
\<close>

section \<open>Sample executions\<close>

definition sample_create :: create_bridge_operation where
  "sample_create = \<lparr>cb_id = ''IW:BRIDGE:1'', cb_idempotencyKey = ''k'', cb_assetId = ''IW:ASSET:1'',
     cb_sourceNetworkId = ''IW:NETWORK:a'', cb_destinationNetworkId = ''IW:NETWORK:b'',
     cb_sender = ''IW:IDENTITY:s'', cb_receiver = ''IW:IDENTITY:r'', cb_amount = ''5'',
     cb_expiresAt = ''2026-01-02T00:00:00.000Z'', cb_createdAt = ''2026-01-01T00:00:00.000Z'',
     cb_actor = ''a''\<rparr>"

definition sample_allow :: policy_decision where
  "sample_allow = \<lparr>pd_outcome = ALLOW, pd_reasonCodes = [], pd_policyId = ''IW:POLICY:1'',
     pd_policyVersion = ''1'', pd_decidedAt = ''2026-01-01T00:00:00.000Z'', pd_matchedRuleIds = None\<rparr>"

definition sample_command :: "string \<Rightarrow> int \<Rightarrow> bridge_state \<Rightarrow> transition_command" where
  "sample_command key version to = \<lparr>cmd_operationId = ''IW:BRIDGE:1'', cmd_transitionKey = key,
     cmd_expectedVersion = version, cmd_to = to, cmd_occurredAt = ''2026-01-01T00:00:00.000Z'',
     cmd_reason = ''r'', cmd_actor = ''a'', cmd_attempt = JInt 1,
     cmd_policyDecision = (if to = POLICY_CHECKED then Some sample_allow else None)\<rparr>"

definition sample_db :: tx_db where
  "sample_db = snd (engine_create Some sample_create empty_tx_db)"

text \<open>The sample operation after the first \<open>n\<close> moves of the main path.\<close>

definition sample_after :: "nat \<Rightarrow> tx_db" where
  "sample_after n = fold (\<lambda>i db. snd (engine_transition Some
      (sample_command (state_text (main_path ! Suc i)) (int i) (main_path ! Suc i)) db)) [0..<n] sample_db"

lemma tx_steps_create: "tx_steps pg_ts db (snd (engine_create pg_ts input db))"
  by (rule tx_more [OF tx_refl step_create]) (rule prod.collapse [symmetric])

lemma tx_steps_transition:
  "tx_steps pg_ts db db' \<Longrightarrow> tx_steps pg_ts db (snd (engine_transition pg_ts command db'))"
  by (erule tx_more, rule step_transition) (rule prod.collapse [symmetric])

lemma sample_after_reachable: "tx_steps Some empty_tx_db (sample_after n)"
  by (induction n) (simp_all add: sample_after_def sample_db_def tx_steps_create tx_steps_transition)

lemma sample_first_step:
  "engine_transition Some (sample_command ''POLICY_CHECKED'' 0 POLICY_CHECKED) (sample_after 0) =
     (fst (engine_transition Some (sample_command ''POLICY_CHECKED'' 0 POLICY_CHECKED) (sample_after 0)),
      sample_after 1)"
  "sample_after 1 \<noteq> sample_after 0"
proof -
  have one: "sample_after 1 =
      snd (engine_transition Some (sample_command ''POLICY_CHECKED'' 0 POLICY_CHECKED) (sample_after 0))"
    by (simp add: sample_after_def main_path_def)
  show "engine_transition Some (sample_command ''POLICY_CHECKED'' 0 POLICY_CHECKED) (sample_after 0) =
     (fst (engine_transition Some (sample_command ''POLICY_CHECKED'' 0 POLICY_CHECKED) (sample_after 0)),
      sample_after 1)"
    unfolding one by simp
  have "length (bridge_transitions (sample_after 1)) \<noteq> length (bridge_transitions (sample_after 0))"
    by code_simp
  then show "sample_after 1 \<noteq> sample_after 0" by metis
qed

section \<open>Properties\<close>

lemma reachable_wf: "tx_steps pg_ts empty_tx_db db \<Longrightarrow> tx_wf db"
  using tx_steps_wf empty_tx_wf by blast

text \<open>
  C8. After any interleaving of engine calls from empty tables, every operation that loads passes
  \<open>assertBridgeOperation\<close> and \<open>assertTransitionChain\<close>, and its version counts its transitions.
\<close>

theorem reachable_operation_valid:
  assumes "tx_steps pg_ts empty_tx_db db" "load_operation oid db = Some op"
  shows "assert_bridge_operation op = Inr () \<and> assert_transition_chain (op_transitions op) = Inr ()
    \<and> op_version op + 1 = int (length (op_transitions op)) \<and> op_id op = oid"
proof -
  have wf: "tx_wf db" using assms(1) by (rule reachable_wf)
  obtain r where r: "row_ok (transition_rows oid db) r" "orow_id r = oid"
    "op = (orow_operation r)\<lparr>op_transitions := map row_transition (transition_rows oid db)\<rparr>"
    by (rule loaded_operation [OF wf assms(2)])
  then show ?thesis
    using row_ok_history [OF r(1)]
    by (auto simp: row_ok_def assert_bridge_operation_Inr_iff assert_transition_chain_linked
        last_map row_transition_def)
qed

theorem reachable_operation_valid_witness:
  "\<exists>op. load_operation ''IW:BRIDGE:1'' (sample_after 1) = Some op \<and> assert_bridge_operation op = Inr ()"
proof -
  have "load_operation ''IW:BRIDGE:1'' (sample_after 1) \<noteq> None" by code_simp
  then obtain op where "load_operation ''IW:BRIDGE:1'' (sample_after 1) = Some op" by blast
  then show ?thesis using reachable_operation_valid [OF sample_after_reachable] by blast
qed

text \<open>
  C7. The graph leaves one way to completion: a completed operation went through every stage of
  the main path, in order and once, and no operation has more than sixteen transitions.
\<close>

theorem completed_through_every_stage:
  assumes "tx_steps pg_ts empty_tx_db db" "load_operation oid db = Some op"
  shows "(op_state op = COMPLETED \<longrightarrow> map tr_to (op_transitions op) = main_path)
    \<and> distinct (map tr_to (op_transitions op)) \<and> length (op_transitions op) \<le> 16"
proof -
  note h = loaded_history [OF reachable_wf [OF assms(1)] assms(2)]
  have "history oid db = take (Suc (rank COMPLETED)) main_path" if "op_state op = COMPLETED"
    using walk_main_path [OF h(1)] h(2) that by (simp add: failed_state_def)
  moreover have "length (history oid db) \<le> 16"
    using bridge.walk_length [OF h(1)] rank_le [of "last (history oid db)"] by simp
  ultimately show ?thesis
    using bridge.walk_distinct [OF h(1)] h(4) by (auto simp: main_path_def dest: arg_cong [of _ _ length])
qed

theorem completed_through_every_stage_witness:
  "\<exists>op. load_operation ''IW:BRIDGE:1'' (sample_after 14) = Some op \<and> op_state op = COMPLETED
     \<and> map tr_to (op_transitions op) = main_path"
proof -
  have "map_option op_state (load_operation ''IW:BRIDGE:1'' (sample_after 14)) = Some COMPLETED"
    by code_simp
  then obtain op where "load_operation ''IW:BRIDGE:1'' (sample_after 14) = Some op" "op_state op = COMPLETED"
    by blast
  then show ?thesis using completed_through_every_stage [OF sample_after_reachable] by blast
qed

text \<open>
  C9. The tables refine a map from operations to histories: each engine call leaves every history
  alone, opens a new one at \<open>CREATED\<close>, or extends one history by one allowed move.
\<close>

theorem engine_refines_ledger:
  assumes "tx_steps pg_ts empty_tx_db db" "tx_step pg_ts db db'"
  shows "ledger_step (ledger_of db) (ledger_of db')"
  using tx_step_ledger [OF assms(2) reachable_wf [OF assms(1)]] .

theorem engine_refines_ledger_witness:
  "ledger_step (ledger_of (sample_after 0)) (ledger_of (sample_after 1))"
proof (rule engine_refines_ledger [OF sample_after_reachable])
  show "tx_step Some (sample_after 0) (sample_after 1)"
    unfolding sample_after_def by (simp, rule step_transition, rule prod.collapse [symmetric])
qed

text \<open>
  Replay is idempotent for ever: once a command has succeeded, repeating it after any further
  engine calls returns the operation as it then is and changes nothing.
\<close>

lemma transition_replay_idempotent:
  assumes reach: "tx_steps pg_ts empty_tx_db db"
    and first: "engine_transition pg_ts command db = (Inr op, db1)"
    and later: "tx_steps pg_ts db1 db2"
  shows "\<exists>op2. load_operation (cmd_operationId command) db2 = Some op2
    \<and> engine_transition pg_ts command db2 = (Inr op2, db2)"
proof -
  let ?oid = "cmd_operationId command" and ?key = "cmd_transitionKey command"
  have "tx_steps pg_ts empty_tx_db db1" using tx_more [OF reach step_transition [OF first]] .
  then have wf2: "tx_wf db2" using tx_steps_wf [OF later] reachable_wf by blast
  have "\<exists>row. find_transition_row ?oid ?key db1 = Some row \<and> trow_to_state row = cmd_to command"
    using engine_transition_cases [OF first]
    by (elim disjE) (auto simp: appended_find, simp add: appended_row_def)
  then obtain row where "find_transition_row ?oid ?key db2 = Some row" "trow_to_state row = cmd_to command"
    using tx_steps_find [OF later] by blast
  then show ?thesis
    using recorded_transition_blocked [OF wf2] engine_transition_Inr_guard [OF first]
      engine_transition_replayed by metis
qed

text \<open>
  C10. Optimistic concurrency: once a command has changed the tables, no other command that was
  prepared against the same version of the operation can change them.
\<close>

theorem stale_version_refused:
  assumes reach: "tx_steps pg_ts empty_tx_db db"
    and won: "engine_transition pg_ts winner db = (r, db1)" "db1 \<noteq> db"
    and later: "tx_steps pg_ts db1 db2"
    and lost: "cmd_operationId loser = cmd_operationId winner"
      "cmd_expectedVersion loser = cmd_expectedVersion winner"
  shows "snd (engine_transition pg_ts loser db2) = db2"
proof -
  have wf: "tx_wf db" using reach by (rule reachable_wf)
  obtain op at where g: "append_guard winner op db" "db1 = appended_db winner op at db"
    using engine_transition_cases [OF won(1)] won(2) by blast
  have wf1: "tx_wf db1" using appended_wf [OF wf] g by simp
  have grown: "\<exists>op2. load_operation (cmd_operationId winner) db2 = Some op2
      \<and> cmd_expectedVersion winner < op_version op2"
    using loaded_version_grows [OF wf1 later] load_appended [OF wf g(1)] g
    by (fastforce simp: append_guard_def appended_operation_def)
  obtain r2 db3 where run: "engine_transition pg_ts loser db2 = (r2, db3)" by fastforce
  from engine_transition_cases [OF run] grown lost have "db3 = db2"
    by (auto simp: append_guard_def)
  then show ?thesis using run by simp
qed

theorem stale_version_refused_witness:
  "snd (engine_transition Some (sample_command ''other'' 0 MANUAL_REVIEW) (sample_after 1)) = sample_after 1"
  by (rule stale_version_refused [OF sample_after_reachable sample_first_step(1,2) tx_refl])
    (simp_all add: sample_command_def)

text \<open>
  An enabled transition succeeds: with a valid command against the current version along an
  allowed move, a fresh key, an accepted timestamp and an attempt that fits its column, the engine
  returns and the operation then loads in the new state with the version one higher.
\<close>

lemma enabled_transition_succeeds:
  assumes reach: "tx_steps pg_ts empty_tx_db db"
    and load: "load_operation (cmd_operationId command) db = Some op"
    and ok: "command_guard command" "policy_guard command" "int4 (num_val (cmd_attempt command))"
      "cmd_expectedVersion command = op_version op" "can_transition (op_state op) (cmd_to command)"
      "find_transition_row (cmd_operationId command) (cmd_transitionKey command) db = None"
      "pg_ts (cmd_occurredAt command) = Some at"
  shows "\<exists>db' op' op''. engine_transition pg_ts command db = (Inr op', db')
    \<and> load_operation (cmd_operationId command) db' = Some op''
    \<and> op_state op' = cmd_to command \<and> op_version op' = op_version op + 1
    \<and> op_state op'' = cmd_to command \<and> op_version op'' = op_version op + 1
    \<and> history (cmd_operationId command) db' = history (cmd_operationId command) db @ [cmd_to command]"
proof -
  have g: "append_guard command op db" using load ok by (simp add: append_guard_def)
  have wf: "tx_wf db" using reach by (rule reachable_wf)
  have "engine_transition pg_ts command db = (Inr (returned_operation command op at), appended_db command op at db)"
    using engine_transition_guarded [OF ok(1,2) load ok(5)] store_append_ok [OF wf g, of pg_ts at] ok(1,3,7)
    by (simp add: command_guard_def)
  then show ?thesis
    using load_appended [OF wf g, of at] by (simp add: returned_operation_def appended_operation_def)
qed

text \<open>
  The policy gate: the move to \<open>POLICY_CHECKED\<close> is recorded only with an \<open>ALLOW\<close> decision, the
  move to \<open>POLICY_REJECTED\<close> only with another one, and the decision is stored with the operation.
\<close>

lemma policy_gate:
  assumes "tx_steps pg_ts empty_tx_db db" "engine_transition pg_ts command db = (r, db')" "db' \<noteq> db"
    and "cmd_to command = POLICY_CHECKED \<or> cmd_to command = POLICY_REJECTED"
  shows "\<exists>d op. cmd_policyDecision command = Some d
    \<and> (pd_outcome d = ALLOW \<longleftrightarrow> cmd_to command = POLICY_CHECKED)
    \<and> load_operation (cmd_operationId command) db' = Some op \<and> op_policyDecision op = Some d"
proof -
  have wf: "tx_wf db" using assms(1) by (rule reachable_wf)
  obtain op at where g: "append_guard command op db" "policy_guard command" "db' = appended_db command op at db"
    using engine_transition_cases [OF assms(2)] assms(3) by blast
  from g(2) assms(4) obtain d where "cmd_policyDecision command = Some d"
    "pd_outcome d = ALLOW \<longleftrightarrow> cmd_to command = POLICY_CHECKED"
    by (auto simp: policy_guard_def allows_def split: option.splits)
  with load_appended [OF wf g(1), of at] g(3) show ?thesis by (simp add: appended_operation_def)
qed

text \<open>
  A refused call changes nothing: whatever error an engine call returns, the tables are those
  before the call.
\<close>

lemma refused_call_changes_nothing:
  "(engine_create pg_ts input db = (Inl e, db') \<longrightarrow> db' = db)
   \<and> (engine_transition pg_ts command db = (Inl e, db') \<longrightarrow> db' = db)
   \<and> (engine_record_attempt pg_ts attempt db = (Inl e, db') \<longrightarrow> db' = db)"
  by (auto dest!: engine_create_cases engine_transition_cases engine_record_attempt_cases)

text \<open>
  The expiry check of \<open>create\<close> compares with \<open>NaN\<close>: an operation whose \<open>expiresAt\<close> is no date
  is accepted, and at no time does that expiry count as reached.
\<close>

lemma unparsable_expiry_accepted:
  assumes "date_parse (cb_expiresAt input) = None" "date_parse (cb_createdAt input) \<noteq> None"
    and "assert_positive_amount (cb_amount input) = Inr ()"
      "cb_sourceNetworkId input \<noteq> cb_destinationNetworkId input"
      "\<not> blank (cb_idempotencyKey input)" "\<not> blank (cb_actor input)"
    and "pg_ts (cb_createdAt input) = Some at" "tx_steps pg_ts empty_tx_db db"
      "find_operation (cb_id input) db = None"
  shows "(\<exists>op db'. engine_create pg_ts input db = (Inr op, db') \<and> op_expiresAt op = cb_expiresAt input)
    \<and> (\<forall>now. \<not> reached now (cb_expiresAt input))"
proof -
  have guard: "create_guard input" using assms by (simp add: create_guard_def time_le_def)
  have fresh: "transition_rows (cb_id input) db = []"
    using transition_rows_fresh [OF reachable_wf [OF assms(8)] assms(9)] .
  have "find_transition_row (cb_id input) k db = None" for k
    using fresh by (auto simp: find_transition_row_def transition_rows_def find_None_iff filter_empty_conv)
  then have "\<exists>op db'. store_create pg_ts input (initial_transition input) db = (Inr op, db')
      \<and> op_expiresAt op = cb_expiresAt input"
    using assms(7,9) fresh
    by (auto simp: store_create_def initial_transition_def transaction_def and_then_def Let_def
        insert_transition_def int4_def find_transition_row_def transition_rows_def
        find_operation_def find_append_None)
  then show ?thesis using assms(1) by (simp add: engine_create_guarded [OF guard] reached_def)
qed

end
