(* ===== verification/Bridge_Properties.thy ===== *)
theory Bridge_Properties
  imports Bridge_Liveness Transaction_Properties
begin

text \<open>
  The properties of the bridge: what any sequence of operations created, coordinators run (with any
  services, clocks and actors, both kinds on the same tables) and operators sending operations to
  review can lead to.
\<close>

definition empty_world :: world where
  "empty_world = \<lparr>bridge_operations = [], bridge_transitions = [], transaction_attempts = [],
     bridge_stage_evidence = [], calls = []\<rparr>"

inductive world_step :: "world \<Rightarrow> world \<Rightarrow> bool" where
  world_create: "engine_create pg_ts input w = (r, w') \<Longrightarrow> world_step w w'"
| world_lock_mint: "lock_mint_run lsvc oid w = (r, w') \<Longrightarrow> world_step w w'"
| world_burn_release: "burn_release_run bsvc oid w = (r, w') \<Longrightarrow> world_step w w'"
| world_operator: "cmd_to command \<in> {MANUAL_REVIEW, EXPIRED} \<Longrightarrow>
    engine_transition pg_ts command w = (r', w') \<Longrightarrow> world_step w w'"
| world_attempt: "engine_record_attempt pg_ts attempt w = (r'', w') \<Longrightarrow> world_step w w'"

inductive world_steps :: "world \<Rightarrow> world \<Rightarrow> bool" where
  world_refl: "world_steps w w"
| world_more: "world_steps w w' \<Longrightarrow> world_step w' w'' \<Longrightarrow> world_steps w w''"

lemma empty_world_ok: "world_ok None empty_world"
  by (simp add: world_ok_def tx_wf_def gates_ok_def evidence_ok_def log_ok_def counts_ok_def
      accepted_count_def history_def transition_rows_def empty_world_def)

lemma loaded_ready:
  assumes w: "world_ok None w" and load: "load_operation oid w = Some op"
  shows "ready op w \<and> op_id op = oid"
proof -
  have "op_id op = oid" using loaded_history(5) [OF _ load] w by (simp add: world_ok_def)
  then show ?thesis using w load by (auto simp: ready_def in_step_def same_terms_def)
qed

lemma operation_triple:
  assumes "world_ok None w"
  shows "lm_operation oid w = (case load_operation oid w of
      None \<Rightarrow> (Inl (RegistryError NOT_FOUND (''operation not found: '' @ oid)), w) | Some op \<Rightarrow> (Inr op, w))"
    and "br_operation oid w = (case load_operation oid w of
      None \<Rightarrow> (Inl (RegistryError NOT_FOUND (''operation not found: '' @ oid)), w) | Some op \<Rightarrow> (Inr op, w))"
  by (simp_all add: lm_operation_def br_operation_def store_get_def transaction_def and_then_def
      split: option.splits)

lemma hoare_same_id:
  assumes "hoare (ready op) m (\<lambda>op' w. ready op' w \<and> op_id op' = op_id op \<and> Q op') E"
  shows "hoare (\<lambda>w. ready op w \<and> op_id op = oid) m (\<lambda>op' w. ready op' w \<and> op_id op' = oid \<and> Q op') E"
proof (cases "op_id op = oid")
  case True
  then show ?thesis using assms by auto
qed (simp add: hoare_def)

lemma run_triples:
  "hoare (world_ok None) (lock_mint_run lsvc oid)
     (\<lambda>op w. ready op w \<and> op_id op = oid \<and> op_state op \<in> set terminal) (\<lambda>_. world_ok None)"
  "hoare (world_ok None) (burn_release_run bsvc oid)
     (\<lambda>op w. ready op w \<and> op_id op = oid \<and> op_state op \<in> set terminal) (\<lambda>_. world_ok None)"
proof -
  note l = hoare_same_id [OF lm.loop_triple [of 24 _ lsvc]] and b = hoare_same_id [OF br.loop_triple [of 24 _ bsvc]]
  have "hoare (world_ok None) (lm_operation oid) (\<lambda>op w. ready op w \<and> op_id op = oid) (\<lambda>_. world_ok None)"
    "hoare (world_ok None) (br_operation oid) (\<lambda>op w. ready op w \<and> op_id op = oid) (\<lambda>_. world_ok None)"
    by (auto simp: hoare_def operation_triple loaded_ready split: option.splits)
  then show "hoare (world_ok None) (lock_mint_run lsvc oid)
     (\<lambda>op w. ready op w \<and> op_id op = oid \<and> op_state op \<in> set terminal) (\<lambda>_. world_ok None)"
    "hoare (world_ok None) (burn_release_run bsvc oid)
     (\<lambda>op w. ready op w \<and> op_id op = oid \<and> op_state op \<in> set terminal) (\<lambda>_. world_ok None)"
    unfolding lock_mint_run_def burn_release_run_def using l b by (auto intro: hoare_and_then)
qed

lemma run_world:
  assumes "world_ok None w"
  shows "lock_mint_run lsvc oid w = (r, w') \<Longrightarrow> world_ok None w'"
    and "burn_release_run bsvc oid w = (r', w') \<Longrightarrow> world_ok None w'"
  using hoare_invariant [OF run_triples(1) _ assms] hoare_invariant [OF run_triples(2) _ assms]
  by (simp_all add: ready_def)

lemma world_step_ok: "world_step w w' \<Longrightarrow> world_ok None w \<Longrightarrow> world_ok None w'"
proof (induction rule: world_step.induct)
  case (world_operator command pg_ts w r' w')
  then show ?case by (auto intro!: engine_transition_world [of w] simp: gate_open_def)
qed (auto intro: engine_create_world run_world engine_record_attempt_world)

lemma world_steps_ok: "world_steps w w' \<Longrightarrow> world_ok None w \<Longrightarrow> world_ok None w'"
  by (induction rule: world_steps.induct) (auto intro: world_step_ok)

lemma reachable_world: "world_steps empty_world w \<Longrightarrow> world_ok None w"
  using world_steps_ok empty_world_ok by blast

lemma gate_in_history:
  assumes w: "world_ok None w" and s: "s \<in> set (history oid w)" "gate s = Some (stg, key)"
  obtains e where "find_evidence oid stg w = Some e" "is_true e key" "backed oid stg (se_data e) w"
proof -
  from w s(1) have "gate_open s oid w" by (simp add: world_ok_def gates_ok_def)
  with s(2) obtain e where e: "find_evidence oid stg w = Some e" "is_true e key"
    by (auto simp: gate_open_def)
  have "e \<in> set (bridge_stage_evidence w) \<and> se_operationId e = oid \<and> se_stage e = stg"
    using find_SomeD [OF e(1) [unfolded find_evidence_def]] by simp
  with w e that show thesis by (fastforce simp: world_ok_def evidence_ok_def)
qed

lemma submitted_backed:
  assumes w: "world_ok None w" and find: "find_evidence oid stg w = Some e"
  shows "backed oid stg (se_data e) w"
  using w find_SomeD [OF find [unfolded find_evidence_def]] by (auto simp: world_ok_def evidence_ok_def)

text \<open>Every answer a completed operation rests on.\<close>

definition completion_evidence :: "interweave_id \<Rightarrow> world \<Rightarrow> bool" where
  "completion_evidence oid w \<longleftrightarrow>
     (\<exists>op t p. SourceConfirmCall op t (Inr (True, p)) \<in> set (calls w) \<and> op_id op = oid
        \<and> (evidence_text oid SOURCE_LOCK ''transactionId'' t w
           \<or> evidence_text oid SOURCE_BURN ''transactionId'' t w))
     \<and> (\<exists>op t p i. SourceFinalizeCall op t (Inr (True, p, i)) \<in> set (calls w) \<and> op_id op = oid
        \<and> (evidence_text oid SOURCE_LOCK ''transactionId'' t w
           \<or> evidence_text oid SOURCE_BURN ''transactionId'' t w))
     \<and> (\<exists>op f a. AttestCall op f (Inr (True, a)) \<in> set (calls w) \<and> op_id op = oid
        \<and> find_evidence oid SOURCE_FINALITY w = Some f)
     \<and> (\<exists>op t p. DestinationConfirmCall op t (Inr (True, p)) \<in> set (calls w) \<and> op_id op = oid
        \<and> (evidence_text oid DESTINATION_MINT ''transactionId'' t w
           \<or> evidence_text oid DESTINATION_RELEASE ''transactionId'' t w))
     \<and> (\<exists>op t p i. DestinationFinalizeCall op t (Inr (True, p, i)) \<in> set (calls w) \<and> op_id op = oid
        \<and> (evidence_text oid DESTINATION_MINT ''transactionId'' t w
           \<or> evidence_text oid DESTINATION_RELEASE ''transactionId'' t w))
     \<and> (\<exists>op xs. ReconcileCall op (Inr (True, xs)) \<in> set (calls w) \<and> op_id op = oid)"

lemma completed_evidence:
  assumes w: "world_ok None w" and all: "set main_path \<subseteq> set (history oid w)"
  shows "completion_evidence oid w"
proof -
  have s: "SOURCE_CONFIRMED \<in> set (history oid w)" "SOURCE_FINALIZED \<in> set (history oid w)"
    "ATTESTED \<in> set (history oid w)" "DESTINATION_CONFIRMED \<in> set (history oid w)"
    "DESTINATION_FINALIZED \<in> set (history oid w)" "RECONCILED \<in> set (history oid w)"
    using all by (auto simp: main_path_def)
  note g = gate_in_history [OF w]
  obtain e1 where e1: "is_true e1 ''confirmed''" "backed oid SOURCE_CONFIRMATION (se_data e1) w"
    by (rule g [OF s(1)]) auto
  obtain e2 where e2: "is_true e2 ''finalized''" "backed oid SOURCE_FINALITY (se_data e2) w"
    by (rule g [OF s(2)]) auto
  obtain e3 where e3: "is_true e3 ''satisfied''" "backed oid ATTESTATION (se_data e3) w"
    by (rule g [OF s(3)]) auto
  obtain e4 where e4: "is_true e4 ''confirmed''" "backed oid DESTINATION_CONFIRMATION (se_data e4) w"
    by (rule g [OF s(4)]) auto
  obtain e5 where e5: "is_true e5 ''finalized''" "backed oid DESTINATION_FINALITY (se_data e5) w"
    by (rule g [OF s(5)]) auto
  obtain e6 where e6: "is_true e6 ''matched''" "backed oid RECONCILIATION (se_data e6) w"
    by (rule g [OF s(6)]) auto
  show ?thesis
    unfolding completion_evidence_def
  proof (intro conjI)
    show "\<exists>op f a. AttestCall op f (Inr (True, a)) \<in> set (calls w) \<and> op_id op = oid
        \<and> find_evidence oid SOURCE_FINALITY w = Some f"
      using e3 by (fastforce simp: is_true_def attestation_data_def)
  next
    show "\<exists>op t p. SourceConfirmCall op t (Inr (True, p)) \<in> set (calls w) \<and> op_id op = oid
        \<and> (evidence_text oid SOURCE_LOCK ''transactionId'' t w \<or> evidence_text oid SOURCE_BURN ''transactionId'' t w)"
      using e1 by (fastforce simp: is_true_def)
  next
    show "\<exists>op t p i. SourceFinalizeCall op t (Inr (True, p, i)) \<in> set (calls w) \<and> op_id op = oid
        \<and> (evidence_text oid SOURCE_LOCK ''transactionId'' t w \<or> evidence_text oid SOURCE_BURN ''transactionId'' t w)"
      using e2 by (fastforce simp: is_true_def)
  next
    show "\<exists>op t p. DestinationConfirmCall op t (Inr (True, p)) \<in> set (calls w) \<and> op_id op = oid
        \<and> (evidence_text oid DESTINATION_MINT ''transactionId'' t w \<or> evidence_text oid DESTINATION_RELEASE ''transactionId'' t w)"
      using e4 by (fastforce simp: is_true_def)
  next
    show "\<exists>op t p i. DestinationFinalizeCall op t (Inr (True, p, i)) \<in> set (calls w) \<and> op_id op = oid
        \<and> (evidence_text oid DESTINATION_MINT ''transactionId'' t w \<or> evidence_text oid DESTINATION_RELEASE ''transactionId'' t w)"
      using e5 by (fastforce simp: is_true_def)
  next
    show "\<exists>op xs. ReconcileCall op (Inr (True, xs)) \<in> set (calls w) \<and> op_id op = oid"
      using e6 by (fastforce simp: is_true_def)
  qed
qed


section \<open>Sample executions\<close>

definition sample_verified :: verified_attestation where
  "sample_verified = \<lparr>va_digest = ''d'', va_validatorSetId = ''v'', va_signatureCount = ''2'',
     va_threshold = ''2'', va_expiresAt = ''2026-01-01T12:00:00.000Z''\<rparr>"

definition sample_lock_mint :: lock_mint_services where
  "sample_lock_mint = \<lparr>lm_pg_ts = Some, lm_now = (\<lambda>_. Some 1767225600000), lm_actor = None,
     lm_policy = (\<lambda>_ _. Inr sample_allow), lm_lock = (\<lambda>_ _. Inr (''t1'', ''l1'')),
     lm_source_confirm = (\<lambda>_ _ _. Inr (True, ''p1'')), lm_source_finalize = (\<lambda>_ _ _. Inr (True, ''p1'', ''e1'')),
     lm_attest = (\<lambda>_ _ _. Inr (True, sample_verified)), lm_mint = (\<lambda>_ _ _. Inr (''t2'', EXECUTED)),
     lm_destination_confirm = (\<lambda>_ _ _. Inr (True, ''p2'')),
     lm_destination_finalize = (\<lambda>_ _ _. Inr (True, ''p2'', ''e2'')),
     lm_reconcile = (\<lambda>_ _. Inr (True, ''5'', ''5'', ''e3''))\<rparr>"

definition sample_burn_release :: burn_release_services where
  "sample_burn_release = \<lparr>br_pg_ts = Some, br_now = (\<lambda>_. Some 1767225600000), br_actor = None,
     br_policy = (\<lambda>_ _. Inr sample_allow), br_burn = (\<lambda>_ _. Inr (''t1'', EXECUTED)),
     br_source_confirm = (\<lambda>_ _ _. Inr (True, ''p1'')), br_source_finalize = (\<lambda>_ _ _. Inr (True, ''p1'', ''e1'')),
     br_attest = (\<lambda>_ _ _. Inr (True, sample_verified)), br_release = (\<lambda>_ _ _. Inr (''t2'', ''i'', EXECUTED)),
     br_destination_confirm = (\<lambda>_ _ _. Inr (True, ''p2'')),
     br_destination_finalize = (\<lambda>_ _ _. Inr (True, ''p2'', ''e2'')),
     br_reconcile = (\<lambda>_ _. Inr (True, ''5'', ''5'', ''5'', ''e3''))\<rparr>"

definition sample_opened :: world where
  "sample_opened = snd (engine_create Some sample_create empty_world)"

definition sample_completed :: world where
  "sample_completed = snd (lock_mint_run sample_lock_mint ''IW:BRIDGE:1'' sample_opened)"

lemma sample_times:
  "\<not> date_reached (Some 1767225600000) ''2026-01-01T12:00:00.000Z''"
  "\<not> date_reached (Some 1767225600000) ''2026-01-02T00:00:00.000Z''"
  by code_simp+

interpretation sample_lm: live_lock_mint sample_lock_mint
  by unfold_locales
    (simp_all add: sample_lock_mint_def lm_actor_name_def sample_allow_def sample_verified_def sample_times)

interpretation sample_br: live_burn_release sample_burn_release
  by unfold_locales
    (simp_all add: sample_burn_release_def br_actor_name_def sample_allow_def sample_verified_def sample_times)

lemma sample_created: "\<exists>op. engine_create Some sample_create empty_world = (Inr op, sample_opened)"
proof -
  have "case fst (engine_create Some sample_create empty_world) of Inr _ \<Rightarrow> True | Inl _ \<Rightarrow> False" by code_simp
  then show ?thesis
    unfolding sample_opened_def by (metis prod.collapse sum.case_eq_if sum.collapse(2))
qed

lemma sample_reachable: "world_steps empty_world sample_opened" "world_steps empty_world sample_completed"
proof -
  show o: "world_steps empty_world sample_opened"
    unfolding sample_opened_def
    by (rule world_more [OF world_refl world_create]) (rule prod.collapse [symmetric])
  show "world_steps empty_world sample_completed"
    unfolding sample_completed_def
    by (rule world_more [OF o world_lock_mint]) (rule prod.collapse [symmetric])
qed

lemma sample_completed_state:
  "\<exists>op. load_operation ''IW:BRIDGE:1'' sample_completed = Some op \<and> op_state op = COMPLETED"
proof -
  obtain op0 where c: "engine_create Some sample_create empty_world = (Inr op0, sample_opened)"
    using sample_created by blast
  have "\<forall>h. \<not> date_reached (lm_now sample_lock_mint h) (cb_expiresAt sample_create)"
    by (simp add: sample_lock_mint_def sample_create_def sample_times)
  then obtain op where op: "lock_mint_run sample_lock_mint ''IW:BRIDGE:1'' sample_opened = (Inr op, sample_completed)"
    "op_state op = COMPLETED"
    using sample_lm.completes [OF empty_world_ok c] unfolding sample_completed_def
    by (fastforce simp: sample_create_def)
  have "ready op sample_completed" "op_id op = ''IW:BRIDGE:1''"
    using hoare_InrD [OF run_triples(1) reachable_world [OF sample_reachable(1)] op(1)] by simp_all
  then show ?thesis using op(2) by (auto simp: ready_def in_step_def)
qed

section \<open>Properties\<close>

text \<open>
  C2. A completed bridge operation rests on answers from every stage: the submitted source
  transaction was confirmed and finalized, an attestation over that finality was satisfied, the
  submitted destination transaction was confirmed and finalized, and the reconciliation matched.
\<close>

theorem completed_operation_has_every_answer:
  assumes "world_steps empty_world w" "load_operation oid w = Some op" "op_state op = COMPLETED"
  shows "completion_evidence oid w"
proof -
  have w: "world_ok None w" using assms(1) by (rule reachable_world)
  have "ready op w" "op_id op = oid" using loaded_ready [OF w assms(2)] by simp_all
  then have "history oid w = main_path"
    using ready_history [of op w] assms(3) by (simp add: failed_state_def main_path_def)
  then show ?thesis using completed_evidence [OF w] by simp
qed

theorem completed_operation_has_every_answer_witness: "completion_evidence ''IW:BRIDGE:1'' sample_completed"
  using sample_completed_state completed_operation_has_every_answer [OF sample_reachable(2)] by blast

text \<open>
  C1. No mint and no release without authority: every such call, ever, was made for a stored
  operation with the stored terms, after the finality of its source transaction and a satisfied
  attestation had been recorded as evidence, with exactly the recorded attestation, and after the
  clock had been read and found before the expiry of that attestation.
\<close>

theorem effect_needs_authority:
  assumes "world_steps empty_world w"
    and "calls w = before @ c # after" "c = MintCall op att r \<or> c = ReleaseCall op att r'"
  shows "stored_terms op w
    \<and> (\<exists>f. find_evidence (op_id op) SOURCE_FINALITY w = Some f \<and> is_true f ''finalized'')
    \<and> (\<exists>e. find_evidence (op_id op) ATTESTATION w = Some e \<and> is_true e ''satisfied'' \<and> carries e att)
    \<and> unexpired_after before att"
proof -
  have w: "world_ok None w" using assms(1) by (rule reachable_world)
  have call: "call_ok w c" "timely before c" using w assms(2) by (auto simp: world_ok_def log_ok_def)
  then have ok: "destination_effect_ok op att w" "unexpired_after before att" using assms(3) by auto
  then have prep: "DESTINATION_PREPARING \<in> set (history (op_id op) w)"
    by (simp add: destination_effect_ok_def)
  obtain op' where op': "load_operation (op_id op) w = Some op'"
    using ok(1) by (auto simp: destination_effect_ok_def stored_terms_def)
  have all: "SOURCE_FINALIZED \<in> set (history (op_id op) w)" "ATTESTED \<in> set (history (op_id op) w)"
    using walk_prefix [OF loaded_history(1) [OF _ op'] prep] w
    by (auto simp: world_ok_def main_path_def failed_state_def terminal_def)
  obtain f where f: "find_evidence (op_id op) SOURCE_FINALITY w = Some f" "is_true f ''finalized''"
    by (rule gate_in_history [OF w all(1)]) auto
  obtain e where e: "find_evidence (op_id op) ATTESTATION w = Some e" "is_true e ''satisfied''"
    by (rule gate_in_history [OF w all(2)]) auto
  show ?thesis using f e ok by (auto simp: destination_effect_ok_def attested_def)
qed

theorem effect_needs_authority_witness:
  "\<exists>(op :: operation) att e. find_evidence (op_id op) ATTESTATION sample_completed = Some e \<and> is_true e ''satisfied''
     \<and> carries e att \<and> op_id op = ''IW:BRIDGE:1''"
proof -
  let ?w = "sample_completed" and ?oid = "''IW:BRIDGE:1''"
  have w: "world_ok None ?w" by (rule reachable_world [OF sample_reachable(2)])
  obtain op where op: "load_operation ?oid ?w = Some op" "op_state op = COMPLETED"
    using sample_completed_state by blast
  have "ready op ?w" "op_id op = ?oid" using loaded_ready [OF w op(1)] by simp_all
  then have "DESTINATION_SUBMITTED \<in> set (history ?oid ?w)"
    using ready_history [of op ?w] op(2) by (simp add: failed_state_def main_path_def)
  then have "gate_open DESTINATION_SUBMITTED ?oid ?w" using w by (simp add: world_ok_def gates_ok_def)
  then obtain stg e where "stg = DESTINATION_MINT \<or> stg = DESTINATION_RELEASE" "find_evidence ?oid stg ?w = Some e"
    by (auto simp: gate_open_def)
  then obtain c op1 att where c: "c \<in> set (calls ?w)" "(\<exists>r. c = MintCall op1 att r) \<or> (\<exists>r. c = ReleaseCall op1 att r)"
    "op_id op1 = ?oid"
    using submitted_backed [OF w] by fastforce
  then obtain before after where s: "calls ?w = before @ c # after" by (meson split_list)
  from c(2) obtain r r' where "c = MintCall op1 att r \<or> c = ReleaseCall op1 att r'" by blast
  from effect_needs_authority [OF sample_reachable(2) s this] c(3) show ?thesis by blast
qed

text \<open>
  C6. Both coordinators end: the bound of 24 iterations never cuts the loop short (any larger
  bound gives the same result), and an operation is returned only in a terminal state.
\<close>

theorem coordinators_end:
  assumes "world_steps empty_world w"
  shows "lock_mint_run lsvc oid w = and_then (lm_operation oid) (lock_mint_loop lsvc (24 + n)) w
    \<and> burn_release_run bsvc oid w = and_then (br_operation oid) (burn_release_loop bsvc (24 + n)) w
    \<and> (\<forall>op w'. lock_mint_run lsvc oid w = (Inr op, w') \<longrightarrow> op_id op = oid \<and> op_state op \<in> set terminal)
    \<and> (\<forall>op w'. burn_release_run bsvc oid w = (Inr op, w') \<longrightarrow> op_id op = oid \<and> op_state op \<in> set terminal)"
proof -
  have w: "world_ok None w" using assms by (rule reachable_world)
  have "lock_mint_run lsvc oid w = and_then (lm_operation oid) (lock_mint_loop lsvc (24 + n)) w"
    "burn_release_run bsvc oid w = and_then (br_operation oid) (burn_release_loop bsvc (24 + n)) w"
    using loaded_ready [OF w] lm.loop_fuel_le br.loop_fuel_le
    by (simp_all add: lock_mint_run_def burn_release_run_def and_then_def operation_triple [OF w]
        split: option.split)
  then show ?thesis
    using hoare_InrD [OF run_triples(1) w] hoare_InrD [OF run_triples(2) w] by blast
qed

theorem coordinators_end_witness:
  "lock_mint_run sample_lock_mint ''IW:BRIDGE:1'' sample_opened =
     and_then (lm_operation ''IW:BRIDGE:1'') (lock_mint_loop sample_lock_mint (24 + 1)) sample_opened"
  using coordinators_end [OF sample_reachable(1)] by blast

text \<open>
  C4. The bridge completes: when every service answers positively and in time, the lock and mint
  coordinator takes a newly created operation to \<open>COMPLETED\<close> in one run, whatever happened before.
\<close>

theorem lock_mint_completes:
  assumes "world_steps empty_world w" "live_lock_mint svc"
    and "engine_create pg input w = (Inr op, w1)"
    and "\<forall>h. \<not> date_reached (lm_now svc h) (cb_expiresAt input)"
  shows "\<exists>op' w'. lock_mint_run svc (cb_id input) w1 = (Inr op', w') \<and> op_state op' = COMPLETED"
  using live_lock_mint.completes [OF assms(2) reachable_world [OF assms(1)] assms(3,4)] .

theorem lock_mint_completes_witness:
  "\<exists>op' w'. lock_mint_run sample_lock_mint ''IW:BRIDGE:1'' sample_opened = (Inr op', w') \<and> op_state op' = COMPLETED"
proof -
  obtain op0 where c: "engine_create Some sample_create empty_world = (Inr op0, sample_opened)"
    using sample_created by blast
  have "\<forall>h. \<not> date_reached (lm_now sample_lock_mint h) (cb_expiresAt sample_create)"
    by (simp add: sample_lock_mint_def sample_create_def sample_times)
  from lock_mint_completes [OF world_refl sample_lm.live_lock_mint_axioms c this]
  show ?thesis by (simp add: sample_create_def)
qed

text \<open>
  C5. The same for the burn and release coordinator.
\<close>

theorem burn_release_completes:
  assumes "world_steps empty_world w" "live_burn_release svc"
    and "engine_create pg input w = (Inr op, w1)"
    and "\<forall>h. \<not> date_reached (br_now svc h) (cb_expiresAt input)"
  shows "\<exists>op' w'. burn_release_run svc (cb_id input) w1 = (Inr op', w') \<and> op_state op' = COMPLETED"
  using live_burn_release.completes [OF assms(2) reachable_world [OF assms(1)] assms(3,4)] .

theorem burn_release_completes_witness:
  "\<exists>op' w'. burn_release_run sample_burn_release ''IW:BRIDGE:1'' sample_opened = (Inr op', w') \<and> op_state op' = COMPLETED"
proof -
  obtain op0 where c: "engine_create Some sample_create empty_world = (Inr op0, sample_opened)"
    using sample_created by blast
  have "\<forall>h. \<not> date_reached (br_now sample_burn_release h) (cb_expiresAt sample_create)"
    by (simp add: sample_burn_release_def sample_create_def sample_times)
  from burn_release_completes [OF world_refl sample_br.live_burn_release_axioms c this]
  show ?thesis by (simp add: sample_create_def)
qed

text \<open>
  C11. An empty transaction id in the answer of the mint service is stored as evidence, and from then on the operation is
  stuck. Let every service answer positively and in time, except that the mint answers with a blank id. Then the run of a
  newly created operation calls the mint, stores the blank id as the evidence of \<open>DESTINATION_MINT\<close>, moves to
  \<open>DESTINATION_SUBMITTED\<close> and throws \<open>INVALID_ARGUMENT\<close>. Until the operation expires every further run, with whatever services, on
  tables that give the same operation and evidence, throws that again after reading the clock once, and changes nothing.
\<close>

theorem blank_mint_id_is_stuck:
  assumes "world_steps empty_world w" "live_lock_mint svc" "engine_create pg input w = (Inr op, w1)"
    and "\<forall>h. \<not> date_reached (lm_now svc h) (cb_expiresAt input)" "blank t"
  shows "\<exists>w'. lock_mint_run (svc\<lparr>lm_mint := (\<lambda>_ _ _. Inr (t, outcome))\<rparr>) (cb_id input) w1
        = (Inl (RegistryError INVALID_ARGUMENT ''invalid DESTINATION_MINT evidence: transactionId''), w')
    \<and> (\<exists>op att. MintCall op att (Inr (t, outcome)) \<in> set (calls w') \<and> op_id op = cb_id input)
    \<and> (\<exists>e. find_evidence (cb_id input) DESTINATION_MINT w' = Some e \<and> map_of (se_data e) ''transactionId'' = Some (JStr t))
    \<and> (\<exists>op. load_operation (cb_id input) w' = Some op \<and> op_state op = DESTINATION_SUBMITTED)
    \<and> (\<forall>svc' w''. load_operation (cb_id input) w'' = load_operation (cb_id input) w'
        \<longrightarrow> (\<forall>stg. find_evidence (cb_id input) stg w'' = find_evidence (cb_id input) stg w')
        \<longrightarrow> \<not> date_reached (lm_now svc' (calls w'')) (cb_expiresAt input)
        \<longrightarrow> lock_mint_run svc' (cb_id input) w''
            = (Inl (RegistryError INVALID_ARGUMENT ''invalid DESTINATION_MINT evidence: transactionId''),
               log_call (NowCall (lm_now svc' (calls w''))) w''))"
proof -
  from live_lock_mint.blank_mint_run [OF assms(2) reachable_world [OF assms(1)] assms(3-5), of outcome]
  obtain w' op' att where run: "lock_mint_run (answering_mint t outcome svc) (cb_id input) w1 = (Inl blank_mint_error, w')"
    and made: "op_id op' = cb_id input" "MintCall op' att (Inr (t, outcome)) \<in> set (calls w')"
    and b: "blank_minted (cb_id input) t (cb_expiresAt input) w'" by blast
  have "lock_mint_run svc' (cb_id input) w'' = (Inl blank_mint_error, log_call (NowCall (lm_now svc' (calls w''))) w'')"
    if "load_operation (cb_id input) w'' = load_operation (cb_id input) w'"
      "\<forall>stg. find_evidence (cb_id input) stg w'' = find_evidence (cb_id input) stg w'"
      "\<not> date_reached (lm_now svc' (calls w'')) (cb_expiresAt input)" for svc' w''
    by (rule blank_minted_stuck [OF _ assms(5)]) (use b that in \<open>auto simp: blank_minted_def\<close>)
  then show ?thesis using run made b unfolding answering_mint_def blank_minted_def by blast
qed

theorem blank_mint_id_is_stuck_witness:
  "\<exists>w' e. fst (lock_mint_run (sample_lock_mint\<lparr>lm_mint := (\<lambda>_ _ _. Inr ([], EXECUTED))\<rparr>) ''IW:BRIDGE:1'' sample_opened)
       = Inl (RegistryError INVALID_ARGUMENT ''invalid DESTINATION_MINT evidence: transactionId'')
     \<and> w' = snd (lock_mint_run (sample_lock_mint\<lparr>lm_mint := (\<lambda>_ _ _. Inr ([], EXECUTED))\<rparr>) ''IW:BRIDGE:1'' sample_opened)
     \<and> find_evidence ''IW:BRIDGE:1'' DESTINATION_MINT w' = Some e \<and> map_of (se_data e) ''transactionId'' = Some (JStr [])
     \<and> fst (lock_mint_run sample_lock_mint ''IW:BRIDGE:1'' w')
       = Inl (RegistryError INVALID_ARGUMENT ''invalid DESTINATION_MINT evidence: transactionId'')"
proof -
  obtain op0 where c: "engine_create Some sample_create empty_world = (Inr op0, sample_opened)"
    using sample_created by blast
  have in_time: "\<forall>h. \<not> date_reached (lm_now sample_lock_mint h) (cb_expiresAt sample_create)"
    by (simp add: sample_lock_mint_def sample_create_def sample_times)
  have id: "cb_id sample_create = ''IW:BRIDGE:1''" by (simp add: sample_create_def)
  from blank_mint_id_is_stuck [OF world_refl sample_lm.live_lock_mint_axioms c in_time, of "[]" EXECUTED]
  obtain w' e where w': "lock_mint_run (sample_lock_mint\<lparr>lm_mint := (\<lambda>_ _ _. Inr ([], EXECUTED))\<rparr>) ''IW:BRIDGE:1'' sample_opened
        = (Inl (RegistryError INVALID_ARGUMENT ''invalid DESTINATION_MINT evidence: transactionId''), w')"
    and e: "find_evidence ''IW:BRIDGE:1'' DESTINATION_MINT w' = Some e" "map_of (se_data e) ''transactionId'' = Some (JStr [])"
    and again: "lock_mint_run sample_lock_mint ''IW:BRIDGE:1'' w'
        = (Inl (RegistryError INVALID_ARGUMENT ''invalid DESTINATION_MINT evidence: transactionId''),
           log_call (NowCall (lm_now sample_lock_mint (calls w'))) w')"
    using in_time by (auto simp: id)
  show ?thesis using w' e again by (intro exI [of _ w'] exI [of _ e]) simp
qed

end
