(* ===== verification/Bridge_Overlap.thy ===== *)
theory Bridge_Overlap
  imports Bridge_Properties
begin

text \<open>
  Runs of the coordinators that overlap or stop halfway. \<open>evidence\<close> of packages/core/src/lock-mint-coordinator.ts and
  packages/core/src/burn-release-coordinator.ts reads the store, asks the service and stores the answer with an \<open>await\<close> between, and
  no lock. An attempt is one such call that found no evidence, cut into its steps: the store and the log change in one
  step at a time, any other action of any run or of the engine may come between, and an attempt whose process dies takes no further step.
  Every whole run is a sequence of these steps.
\<close>

section \<open>Attempts\<close>

type_synonym work = "(world, stage_data) comp"

text \<open>The \<open>produce\<close> functions that a coordinator hands to \<open>evidence\<close>.\<close>

inductive lm_work :: "lock_mint_services \<Rightarrow> operation \<Rightarrow> stage \<Rightarrow> work \<Rightarrow> bool" for svc op where
  "lm_work svc op SOURCE_LOCK (lm_produce_lock svc op)"
| "lm_work svc op SOURCE_CONFIRMATION (lm_produce_source_confirmation svc op e)"
| "lm_work svc op SOURCE_FINALITY (lm_produce_source_finality svc op e)"
| "lm_work svc op ATTESTATION (lm_produce_attestation svc op e)"
| "lm_work svc op DESTINATION_MINT (lm_produce_mint svc op att)"
| "lm_work svc op DESTINATION_CONFIRMATION (lm_produce_destination_confirmation svc op e)"
| "lm_work svc op DESTINATION_FINALITY (lm_produce_destination_finality svc op e)"
| "lm_work svc op RECONCILIATION (lm_produce_reconciliation svc op)"

inductive br_work :: "burn_release_services \<Rightarrow> operation \<Rightarrow> stage \<Rightarrow> work \<Rightarrow> bool" for svc op where
  "br_work svc op SOURCE_BURN (br_produce_burn svc op)"
| "br_work svc op SOURCE_CONFIRMATION (br_produce_source_confirmation svc op e)"
| "br_work svc op SOURCE_FINALITY (br_produce_source_finality svc op e)"
| "br_work svc op ATTESTATION (br_produce_attestation svc op e)"
| "br_work svc op DESTINATION_RELEASE (br_produce_release svc op att)"
| "br_work svc op DESTINATION_CONFIRMATION (br_produce_destination_confirmation svc op e)"
| "br_work svc op DESTINATION_FINALITY (br_produce_destination_finality svc op e)"
| "br_work svc op RECONCILIATION (br_produce_reconciliation svc op)"

datatype coordinator = LockMint lock_mint_services | BurnRelease burn_release_services

fun clock_of :: "coordinator \<Rightarrow> bridge_call list \<Rightarrow> js_date" where
  "clock_of (LockMint svc) = lm_now svc"
| "clock_of (BurnRelease svc) = br_now svc"

fun works :: "coordinator \<Rightarrow> operation \<Rightarrow> stage \<Rightarrow> work \<Rightarrow> bool" where
  "works (LockMint svc) op stg produce \<longleftrightarrow> lm_work svc op stg produce"
| "works (BurnRelease svc) op stg produce \<longleftrightarrow> br_work svc op stg produce"

text \<open>
  Where an attempt is: the lock and mint coordinator asks first and reads the clock then, the burn and release
  coordinator the other way round. \<open>Ended\<close> is an attempt that threw, or that found another's record when it came to store its own.
\<close>

datatype phase = Begun | Timed iso_timestamp | Answered stage_data | Recording stage_evidence | Stored | Ended

record attempt =
  at_coordinator :: coordinator
  at_op :: operation
  at_stage :: stage
  at_produce :: work
  at_phase :: phase
  at_accepted :: bool

definition at_key :: "attempt \<Rightarrow> interweave_id \<times> stage" where
  "at_key a = (op_id (at_op a), at_stage a)"

definition attempt_evidence :: "attempt \<Rightarrow> iso_timestamp \<Rightarrow> stage_data \<Rightarrow> stage_evidence" where
  "attempt_evidence a recordedAt data = \<lparr>se_operationId = op_id (at_op a), se_stage = at_stage a,
     se_recordedAt = recordedAt, se_data = data\<rparr>"

text \<open>\<open>at_accepted\<close> keeps whether the service was asked and accepted.\<close>

definition ask :: "attempt \<Rightarrow> (stage_data \<Rightarrow> phase) \<Rightarrow> world \<Rightarrow> attempt \<times> world" where
  "ask a following w = (case at_produce a w of (r, w') \<Rightarrow>
     (a\<lparr>at_phase := (case r of Inl e \<Rightarrow> Ended | Inr data \<Rightarrow> following data),
        at_accepted := (accepted_count (at_key a) w < accepted_count (at_key a) w')\<rparr>, w'))"

definition read_clock :: "attempt \<Rightarrow> (iso_timestamp \<Rightarrow> phase) \<Rightarrow> world \<Rightarrow> attempt \<times> world" where
  "read_clock a following w = (case and_then (now (clock_of (at_coordinator a))) iso_string w of (r, w') \<Rightarrow>
     (a\<lparr>at_phase := (case r of Inl e \<Rightarrow> Ended | Inr t \<Rightarrow> following t)\<rparr>, w'))"

definition keep_answer :: "attempt \<Rightarrow> stage_evidence \<Rightarrow> world \<Rightarrow> attempt \<times> world" where
  "keep_answer a e w = (case evidence_put e w of (r, w') \<Rightarrow>
     (a\<lparr>at_phase := (case r of Inl x \<Rightarrow> Ended
        | Inr x \<Rightarrow> if find_evidence (op_id (at_op a)) (at_stage a) w = None then Stored else Ended)\<rparr>, w'))"

definition attempt_step :: "attempt \<Rightarrow> world \<Rightarrow> attempt \<times> world" where
  "attempt_step a w = (case at_phase a of
     Begun \<Rightarrow> (case at_coordinator a of LockMint _ \<Rightarrow> ask a Answered w | BurnRelease _ \<Rightarrow> read_clock a Timed w)
   | Timed t \<Rightarrow> ask a (\<lambda>data. Recording (attempt_evidence a t data)) w
   | Answered data \<Rightarrow> read_clock a (\<lambda>t. Recording (attempt_evidence a t data)) w
   | Recording e \<Rightarrow> keep_answer a e w
   | _ \<Rightarrow> (a, w))"

section \<open>Overlapping runs\<close>

text \<open>
  The steps: an attempt begins when it has read that the store holds no evidence, and steps after that; the other
  actions of the runs are calls of the engine, reads of the clock and calls of the policy service, with whatever arguments.
\<close>

inductive overlap_step :: "world \<times> attempt list \<Rightarrow> world \<times> attempt list \<Rightarrow> bool" where
  overlap_create: "engine_create pg_ts input w = (r, w') \<Longrightarrow> overlap_step (w, xs) (w', xs)"
| overlap_transition: "engine_transition pg_ts command w = (r', w') \<Longrightarrow> overlap_step (w, xs) (w', xs)"
| overlap_record: "engine_record_attempt pg_ts record w = (r'', w') \<Longrightarrow> overlap_step (w, xs) (w', xs)"
| overlap_clock: "overlap_step (w, xs) (log_call (NowCall d) w, xs)"
| overlap_policy: "overlap_step (w, xs) (log_call (PolicyCall op decision) w, xs)"
| overlap_begin: "find_evidence (op_id op) stg w = None \<Longrightarrow> works c op stg produce \<Longrightarrow>
    overlap_step (w, xs) (w, xs @ [\<lparr>at_coordinator = c, at_op = op, at_stage = stg, at_produce = produce,
      at_phase = Begun, at_accepted = False\<rparr>])"
| overlap_go: "i < length xs \<Longrightarrow> attempt_step (xs ! i) w = (a, w') \<Longrightarrow> overlap_step (w, xs) (w', xs[i := a])"

inductive overlap_steps :: "world \<times> attempt list \<Rightarrow> world \<times> attempt list \<Rightarrow> bool" where
  overlap_refl: "overlap_steps s s"
| overlap_more: "overlap_steps s s' \<Longrightarrow> overlap_step s' s'' \<Longrightarrow> overlap_steps s s''"

text \<open>Attempts that still have to ask, and those whose accepted answer is not the stored one.\<close>

definition asking :: "interweave_id \<times> stage \<Rightarrow> attempt list \<Rightarrow> nat" where
  "asking k xs = length (filter (\<lambda>a. at_key a = k \<and> (at_phase a = Begun \<or> (\<exists>t. at_phase a = Timed t))) xs)"

definition unrecorded :: "interweave_id \<times> stage \<Rightarrow> attempt list \<Rightarrow> nat" where
  "unrecorded k xs = length (filter (\<lambda>a. at_key a = k \<and> at_accepted a \<and> at_phase a \<noteq> Stored) xs)"

section \<open>What one step can do\<close>

text \<open>A piece of work makes at most one call, and only an effect of its own stage is ever accepted.\<close>

definition single_call :: "interweave_id \<times> stage \<Rightarrow> work \<Rightarrow> bool" where
  "single_call k produce \<longleftrightarrow> (\<forall>w r w'. produce w = (r, w') \<longrightarrow>
     w' = w \<or> (\<exists>c. w' = log_call c w \<and> (accepted c = None \<or> accepted c = Some k)))"

lemma string_value_same: "string_value e key w = (r, w') \<Longrightarrow> w' = w"
  by (auto simp: string_value_def throw_def ret_def split: option.splits js_value.splits if_splits)

lemma single_callI:
  "(\<And>w r w'. produce w = (r, w') \<Longrightarrow> w' = w \<or> (\<exists>c. w' = log_call c w \<and> (accepted c = None \<or> accepted c = Some k)))
     \<Longrightarrow> single_call k produce"
  by (simp add: single_call_def)

lemma lm_single: "lm_work svc op stg produce \<Longrightarrow> single_call (op_id op, stg) produce"
  by (induction rule: lm_work.induct; rule single_callI)
    (auto simp: lm_produce_lock_def lm_produce_source_confirmation_def lm_produce_source_finality_def lm_produce_attestation_def
      lm_produce_mint_def lm_produce_destination_confirmation_def lm_produce_destination_finality_def lm_produce_reconciliation_def
      and_then_def call_eq require_text_def throw_def ret_def split: sum.splits prod.splits if_splits dest!: string_value_same)

lemma br_single: "br_work svc op stg produce \<Longrightarrow> single_call (op_id op, stg) produce"
  by (induction rule: br_work.induct; rule single_callI)
    (auto simp: br_produce_burn_def br_produce_source_confirmation_def br_produce_source_finality_def br_produce_attestation_def
      br_produce_release_def br_produce_destination_confirmation_def br_produce_destination_finality_def br_produce_reconciliation_def
      and_then_def call_eq require_text_def throw_def ret_def split: sum.splits prod.splits if_splits dest!: string_value_same)

lemma works_single: "works c op stg produce \<Longrightarrow> single_call (op_id op, stg) produce"
  by (cases c) (auto intro: lm_single br_single)

lemma filter_update:
  "i < length xs \<Longrightarrow> length (filter P (xs[i := a])) + (if P (xs ! i) then 1 else 0) = length (filter P xs) + (if P a then 1 else 0)"
proof (induction xs arbitrary: i)
  case (Cons x xs)
  then show ?case by (cases i) auto
qed simp

text \<open>An action that asks for no effect and stores no evidence.\<close>

definition neutral :: "world \<Rightarrow> world \<Rightarrow> bool" where
  "neutral w w' \<longleftrightarrow> (\<forall>k. accepted_count k w' = accepted_count k w)
     \<and> (\<forall>oid stg. find_evidence oid stg w' = find_evidence oid stg w)"

lemma neutralI: "calls w' = calls w \<Longrightarrow> bridge_stage_evidence w' = bridge_stage_evidence w \<Longrightarrow> neutral w w'"
  by (simp add: neutral_def accepted_count_def find_evidence_def)

lemma neutral_engine:
  "engine_create pg_ts input w = (r, w') \<Longrightarrow> neutral w w'"
  "engine_transition pg_ts command w = (r', w') \<Longrightarrow> neutral w w'"
  "engine_record_attempt pg_ts record w = (r'', w') \<Longrightarrow> neutral w w'"
  by (auto intro!: neutralI dest!: engine_create_cases engine_transition_cases engine_record_attempt_cases)

lemma neutral_log: "accepted c = None \<Longrightarrow> neutral w (log_call c w)"
  by (simp add: neutral_def accepted_count_log)

lemma neutral_calls: "neutral w (log_call (NowCall d) w)" "neutral w (log_call (PolicyCall op decision) w)"
  by (simp_all add: neutral_log)

text \<open>
  What a step of an attempt does: it asks, it stores the first record of its stage, or it is neutral; the coordinator, the operation,
  the stage and the work stay.
\<close>

definition same_attempt :: "attempt \<Rightarrow> attempt \<Rightarrow> bool" where
  "same_attempt a b \<longleftrightarrow> at_coordinator b = at_coordinator a \<and> at_op b = at_op a \<and> at_stage b = at_stage a \<and> at_produce b = at_produce a"

definition to_ask :: "attempt \<Rightarrow> bool" where
  "to_ask a \<longleftrightarrow> at_phase a = Begun \<or> (\<exists>t. at_phase a = Timed t)"

definition attempt_ok :: "attempt \<Rightarrow> bool" where
  "attempt_ok a \<longleftrightarrow> single_call (at_key a) (at_produce a) \<and> (to_ask a \<longrightarrow> \<not> at_accepted a)
     \<and> (\<forall>e. at_phase a = Recording e \<longrightarrow> (se_operationId e, se_stage e) = at_key a)"

lemma ask_cases:
  assumes "ask a following w = (b, w')" "attempt_ok a" "to_ask a" "\<And>data. following data \<noteq> Stored \<and> \<not> to_ask (a\<lparr>at_phase := following data\<rparr>)"
    and "\<And>data e. following data = Recording e \<Longrightarrow> (se_operationId e, se_stage e) = at_key a"
  shows "same_attempt a b \<and> attempt_ok b \<and> \<not> to_ask b \<and> at_phase b \<noteq> Stored
    \<and> (\<forall>oid stg. find_evidence oid stg w' = find_evidence oid stg w)
    \<and> (\<forall>k. accepted_count k w' = accepted_count k w + (if k = at_key a \<and> at_accepted b then 1 else 0))"
proof -
  obtain r where r: "at_produce a w = (r, w')" using assms(1) by (auto simp: ask_def split: prod.splits)
  then have b: "b = a\<lparr>at_phase := (case r of Inl e \<Rightarrow> Ended | Inr data \<Rightarrow> following data),
      at_accepted := (accepted_count (at_key a) w < accepted_count (at_key a) w')\<rparr>"
    using assms(1) by (simp add: ask_def)
  have "w' = w \<or> (\<exists>c. w' = log_call c w \<and> (accepted c = None \<or> accepted c = Some (at_key a)))"
    using r assms(2) by (auto simp: attempt_ok_def single_call_def)
  then have "(\<forall>oid stg. find_evidence oid stg w' = find_evidence oid stg w)
      \<and> (\<forall>k. accepted_count k w' = accepted_count k w + (if k = at_key a \<and> at_accepted b then 1 else 0))"
    by (auto simp: b accepted_count_log)
  moreover have "same_attempt a b" "\<not> to_ask b" "at_phase b \<noteq> Stored"
    using assms(4) by (auto simp: b same_attempt_def to_ask_def split: sum.splits)
  moreover from this have "attempt_ok b"
    using assms(2,5) by (auto simp: b attempt_ok_def at_key_def to_ask_def split: sum.splits)
  ultimately show ?thesis by blast
qed

lemma clock_cases:
  assumes "read_clock a following w = (b, w')"
  shows "(\<exists>p. b = a\<lparr>at_phase := p\<rparr> \<and> (p = Ended \<or> (\<exists>t. p = following t))) \<and> neutral w w'"
  using assms by (auto simp: read_clock_def and_then_def now_eq iso_string_def intro!: neutral_calls split: option.splits)

lemma keep_cases:
  assumes "keep_answer a e w = (b, w')" "(se_operationId e, se_stage e) = at_key a"
  shows "b = a\<lparr>at_phase := Ended\<rparr> \<and> w' = w
    \<or> b = a\<lparr>at_phase := Stored\<rparr> \<and> find_evidence (op_id (at_op a)) (at_stage a) w = None \<and> w' = add_evidence e w"
  using assms by (auto simp: keep_answer_def evidence_put_def at_key_def add_evidence_def split: option.splits if_splits)

lemma evidence_count_add:
  assumes "(se_operationId e, se_stage e) = k" "find_evidence (fst k) (snd k) w = None"
  shows "evidence_count j (add_evidence e w) = evidence_count j w + (if j = k then 1 else 0)"
    "accepted_count j (add_evidence e w) = accepted_count j w"
  using assms by (auto simp: evidence_count_def find_add_evidence split: option.splits) (simp add: accepted_count_def add_evidence_def)

text \<open>All of it in one statement, by the phase.\<close>

lemma attempt_step_cases:
  assumes "attempt_step a w = (b, w')" "attempt_ok a"
  shows "same_attempt a b \<and> attempt_ok b \<and> (to_ask b \<longrightarrow> to_ask a)
    \<and> (\<forall>k. accepted_count k w' = accepted_count k w + (if k = at_key a \<and> at_accepted b \<and> \<not> at_accepted a then 1 else 0))
    \<and> (at_accepted a \<longrightarrow> at_accepted b) \<and> (at_accepted b \<and> \<not> at_accepted a \<longrightarrow> to_ask a \<and> \<not> to_ask b)
    \<and> (\<forall>k. evidence_count k w' = evidence_count k w + (if k = at_key a \<and> at_phase b = Stored \<and> at_phase a \<noteq> Stored then 1 else 0))
    \<and> (at_phase a = Stored \<longrightarrow> at_phase b = Stored)
    \<and> (\<forall>oid stg e. find_evidence oid stg w = Some e \<longrightarrow> find_evidence oid stg w' = Some e)"
proof (cases "at_phase a")
  case (Recording e)
  then have "(se_operationId e, se_stage e) = at_key a" using assms(2) by (simp add: attempt_ok_def)
  with keep_cases [of a e w b w'] Recording assms show ?thesis
    by (auto simp: attempt_step_def same_attempt_def attempt_ok_def to_ask_def at_key_def evidence_count_add [where k = "at_key a"]
        find_add_evidence)
next
  case (Timed t)
  then have "ask a (\<lambda>data. Recording (attempt_evidence a t data)) w = (b, w')" using assms(1) by (simp add: attempt_step_def)
  from ask_cases [OF this assms(2)] Timed assms(2) show ?thesis
    by (auto simp: to_ask_def attempt_ok_def attempt_evidence_def at_key_def evidence_count_def)
next
  case (Answered data)
  then have "read_clock a (\<lambda>t. Recording (attempt_evidence a t data)) w = (b, w')" using assms(1) by (simp add: attempt_step_def)
  from clock_cases [OF this] Answered assms(2) show ?thesis
    by (auto simp: neutral_def same_attempt_def attempt_ok_def to_ask_def attempt_evidence_def at_key_def evidence_count_def)
next
  case Begun
  show ?thesis
  proof (cases "at_coordinator a")
    case (LockMint svc)
    then have "ask a Answered w = (b, w')" using assms(1) Begun by (simp add: attempt_step_def)
    from ask_cases [OF this assms(2)] Begun assms(2) show ?thesis
      by (auto simp: to_ask_def attempt_ok_def at_key_def evidence_count_def)
  next
    case (BurnRelease svc)
    then have "read_clock a Timed w = (b, w')" using assms(1) Begun by (simp add: attempt_step_def)
    from clock_cases [OF this] Begun assms(2) show ?thesis
      by (auto simp: neutral_def same_attempt_def attempt_ok_def to_ask_def at_key_def evidence_count_def)
  qed
qed (use assms in \<open>auto simp: attempt_step_def same_attempt_def\<close>)

section \<open>Counting the accepted answers\<close>

definition overlap_ok :: "world \<times> attempt list \<Rightarrow> bool" where
  "overlap_ok s \<longleftrightarrow> (case s of (w, xs) \<Rightarrow> (\<forall>a \<in> set xs. attempt_ok a)
     \<and> (\<forall>k. accepted_count k w = length (filter (\<lambda>a. at_key a = k \<and> at_accepted a) xs))
     \<and> (\<forall>k. evidence_count k w = length (filter (\<lambda>a. at_key a = k \<and> at_phase a = Stored) xs)))"

lemma overlap_okD:
  assumes "overlap_ok (w, xs)"
  shows "a \<in> set xs \<Longrightarrow> attempt_ok a"
    and "accepted_count k w = length (filter (\<lambda>a. at_key a = k \<and> at_accepted a) xs)"
    and "evidence_count k w = length (filter (\<lambda>a. at_key a = k \<and> at_phase a = Stored) xs)"
  using assms unfolding overlap_ok_def by blast+

lemma neutralD: "neutral w w' \<Longrightarrow> accepted_count k w' = accepted_count k w"
  unfolding neutral_def by blast

lemma overlap_neutral: "neutral w w' \<Longrightarrow> overlap_ok (w, xs) \<Longrightarrow> overlap_ok (w', xs)"
  by (simp add: overlap_ok_def neutral_def evidence_count_def)

lemma overlap_step_ok: "overlap_step s s' \<Longrightarrow> overlap_ok s \<Longrightarrow> overlap_ok s'"
proof (induction rule: overlap_step.induct)
  case (overlap_begin op stg w c produce xs)
  then show ?case
    using works_single [OF overlap_begin(2)] by (simp add: overlap_ok_def attempt_ok_def at_key_def)
next
  case (overlap_go i xs w a w')
  let ?a = "xs ! i"
  have member: "?a \<in> set xs" using overlap_go(1) by simp
  then have ok: "attempt_ok ?a" by (rule overlap_okD(1) [OF overlap_go(3)])
  note step = attempt_step_cases [OF overlap_go(2) ok]
  have key: "at_key a = at_key ?a" using step by (simp add: same_attempt_def at_key_def)
  have accepted: "accepted_count k w' = length (filter (\<lambda>a. at_key a = k \<and> at_accepted a) (xs[i := a]))" for k
  proof -
    have "accepted_count k w' = accepted_count k w + (if k = at_key ?a \<and> at_accepted a \<and> \<not> at_accepted ?a then 1 else 0)"
      "at_accepted ?a \<longrightarrow> at_accepted a"
      using step by blast+
    then show ?thesis
      using filter_update [OF overlap_go(1), of "\<lambda>a. at_key a = k \<and> at_accepted a" a] key overlap_okD(2) [OF overlap_go(3), of k]
      by (auto split: if_splits)
  qed
  have stored: "evidence_count k w' = length (filter (\<lambda>a. at_key a = k \<and> at_phase a = Stored) (xs[i := a]))" for k
  proof -
    have "evidence_count k w' = evidence_count k w + (if k = at_key ?a \<and> at_phase a = Stored \<and> at_phase ?a \<noteq> Stored then 1 else 0)"
      "at_phase ?a = Stored \<longrightarrow> at_phase a = Stored"
      using step by blast+
    then show ?thesis
      using filter_update [OF overlap_go(1), of "\<lambda>a. at_key a = k \<and> at_phase a = Stored" a] key overlap_okD(3) [OF overlap_go(3), of k]
      by (auto split: if_splits)
  qed
  have "\<forall>x \<in> set (xs[i := a]). attempt_ok x"
    using set_update_subset_insert [of xs i a] step overlap_okD(1) [OF overlap_go(3)] by blast
  then show ?case using accepted stored by (simp add: overlap_ok_def)
qed (auto intro: overlap_neutral neutral_engine neutral_calls)

lemma overlap_empty: "overlap_ok (empty_world, [])"
  by (simp add: overlap_ok_def accepted_count_def evidence_count_def find_evidence_def empty_world_def)

lemma overlap_reachable: "overlap_steps s s' \<Longrightarrow> overlap_ok s \<Longrightarrow> overlap_ok s'"
  by (induction rule: overlap_steps.induct) (auto intro: overlap_step_ok)

lemma overlap_count:
  assumes "overlap_ok (w, xs)"
  shows "accepted_count k w \<le> evidence_count k w + unrecorded k xs"
proof -
  have "length (filter (\<lambda>a. at_key a = k \<and> at_accepted a) xs)
      \<le> length (filter (\<lambda>a. at_key a = k \<and> at_phase a = Stored) xs) + unrecorded k xs"
    unfolding unrecorded_def by (induction xs) auto
  then show ?thesis using overlap_okD(2,3) [OF assms, of k] by simp
qed

text \<open>After the answer is stored, only attempts that had begun before can still ask.\<close>

definition settled :: "interweave_id \<times> stage \<Rightarrow> stage_evidence \<Rightarrow> nat \<Rightarrow> world \<times> attempt list \<Rightarrow> bool" where
  "settled k e n s \<longleftrightarrow> overlap_ok s \<and> find_evidence (fst k) (snd k) (fst s) = Some e \<and> accepted_count k (fst s) + asking k (snd s) \<le> n"

lemma settled_step: "overlap_step s s' \<Longrightarrow> settled k e n s \<Longrightarrow> settled k e n s'"
proof -
  assume step: "overlap_step s s'" and "settled k e n s"
  then have ok: "overlap_ok s'" and s: "overlap_ok s" "find_evidence (fst k) (snd k) (fst s) = Some e"
      "accepted_count k (fst s) + asking k (snd s) \<le> n"
    using overlap_step_ok [OF step] by (auto simp: settled_def)
  have quiet: "settled k e n (w', xs)" if "neutral w w'" "s = (w, xs)" "s' = (w', xs)" for w w' xs
    using that ok s neutralD [of w w' k] by (simp add: settled_def) (simp add: neutral_def)
  show ?thesis
    using step
  proof (cases rule: overlap_step.cases)
    case (overlap_begin op stg w c produce xs)
    then have "(op_id op, stg) \<noteq> k" using s(2) by auto
    then show ?thesis using overlap_begin s ok by (simp add: settled_def asking_def at_key_def)
  next
    case (overlap_go i xs w a w')
    let ?a = "xs ! i"
    have attempt: "attempt_ok ?a" using overlap_okD(1) s(1) overlap_go(1,3) by auto
    note step = attempt_step_cases [OF overlap_go(4) attempt]
    have key: "at_key a = at_key ?a" using step by (simp add: same_attempt_def at_key_def)
    have "asking k (xs[i := a]) + (if at_key ?a = k \<and> to_ask ?a then 1 else 0) = asking k xs + (if at_key a = k \<and> to_ask a then 1 else 0)"
      using filter_update [OF overlap_go(3), of "\<lambda>a. at_key a = k \<and> to_ask a" a] by (simp add: asking_def to_ask_def)
    moreover have "accepted_count k w' = accepted_count k w + (if k = at_key ?a \<and> at_accepted a \<and> \<not> at_accepted ?a then 1 else 0)"
      "at_accepted a \<and> \<not> at_accepted ?a \<longrightarrow> to_ask ?a \<and> \<not> to_ask a" "to_ask a \<longrightarrow> to_ask ?a"
      using step by blast+
    ultimately have "accepted_count k w' + asking k (xs[i := a]) \<le> accepted_count k w + asking k xs"
      using key by (auto split: if_splits)
    moreover have "find_evidence (fst k) (snd k) w' = Some e" using step s(2) overlap_go(1) by auto
    ultimately show ?thesis using overlap_go(1,2) s(3) ok by (simp add: settled_def)
  qed (auto intro!: quiet intro: neutral_engine neutral_calls)
qed

lemma settled_steps: "overlap_steps s s' \<Longrightarrow> settled k e n s \<Longrightarrow> settled k e n s'"
  by (induction rule: overlap_steps.induct) (auto intro: settled_step)

section \<open>Whole runs are made of these steps\<close>

definition stepwise :: "(world, 'a) comp \<Rightarrow> bool" where
  "stepwise m \<longleftrightarrow> (\<forall>w r w' xs. m w = (r, w') \<longrightarrow> (\<exists>xs'. overlap_steps (w, xs) (w', xs')))"

lemma overlap_trans: "overlap_steps s' s'' \<Longrightarrow> overlap_steps s s' \<Longrightarrow> overlap_steps s s''"
  by (induction rule: overlap_steps.induct) (auto intro: overlap_more)

lemma overlap_one: "overlap_step s s' \<Longrightarrow> overlap_steps s s'"
  by (rule overlap_more [OF overlap_refl])

lemma stepwise_one: "(\<And>w r w' xs. m w = (r, w') \<Longrightarrow> overlap_step (w, xs) (w', xs)) \<Longrightarrow> stepwise m"
  unfolding stepwise_def using overlap_one by blast

lemma stepwise_same: "(\<And>w r w'. m w = (r, w') \<Longrightarrow> w' = w) \<Longrightarrow> stepwise m"
  by (fastforce simp: stepwise_def intro: overlap_refl)

lemma stepwise_then:
  assumes "stepwise m" "\<And>x. stepwise (f x)"
  shows "stepwise (and_then m f)"
  unfolding stepwise_def
proof (intro allI impI)
  fix w r w' xs assume run: "and_then m f w = (r, w')"
  obtain x w1 where m: "m w = (x, w1)" by (cases "m w")
  then obtain ys where ys: "overlap_steps (w, xs) (w1, ys)" using assms(1) unfolding stepwise_def by blast
  show "\<exists>xs'. overlap_steps (w, xs) (w', xs')"
  proof (cases x)
    case (Inr v)
    then have "f v w1 = (r, w')" using run m by (simp add: and_then_def)
    then obtain zs where "overlap_steps (w1, ys) (w', zs)" using assms(2) unfolding stepwise_def by blast
    then show ?thesis using overlap_trans ys by blast
  qed (use run m ys in \<open>auto simp: and_then_def\<close>)
qed

lemma stepwise_basic:
  "stepwise (ret x)" "stepwise (throw e)" "stepwise (iso_string d)" "stepwise (evidence_get oid stg)" "stepwise (string_value ev key)"
  "stepwise (store_get oid)"
  by (rule stepwise_same, auto simp: ret_def throw_def iso_string_def evidence_get_def gets_def store_get_def transaction_def
      split: option.splits dest: string_value_same)+

lemma stepwise_actions:
  "stepwise (now clock)" "stepwise (engine_transition pg_ts command)" "stepwise (call (PolicyCall op) f)"
  by (rule stepwise_one, auto simp: now_eq call_eq intro: overlap_clock overlap_policy overlap_transition)+

lemma stepwise_if: "stepwise a \<Longrightarrow> stepwise b \<Longrightarrow> stepwise (if c then a else b)"
  by simp

lemma stepwise_option: "stepwise a \<Longrightarrow> (\<And>x. stepwise (f x)) \<Longrightarrow> stepwise (case v of None \<Rightarrow> a | Some x \<Rightarrow> f x)"
  by (cases v) simp_all

lemma overlap_last:
  assumes "attempt_step a w = (b, w')"
  shows "overlap_step (w, xs @ [a]) (w', xs @ [b])"
  using overlap_go [of "length xs" "xs @ [a]" w b w'] assms by simp

lemma clock_then: "and_then (now clock) (\<lambda>d. and_then (iso_string d) f) w = and_then (and_then (now clock) iso_string) f w"
  by (simp add: and_then_def split: prod.split sum.split)

text \<open>The rest of an attempt from each of its phases on, run without a break.\<close>

lemma last_keeps:
  assumes "at_phase a = Recording e" "evidence_put e w = (r, w')"
  shows "\<exists>b. overlap_steps (w, xs @ [a]) (w', xs @ [b])"
  using overlap_one [OF overlap_last [of a w _ w' xs]] assms by (auto simp: attempt_step_def keep_answer_def)

lemma last_asks:
  assumes "at_phase a = Begun \<and> at_coordinator a = LockMint svc \<and> following = Answered
      \<or> at_phase a = Timed t \<and> following = (\<lambda>data. Recording (attempt_evidence a t data))"
    and "at_produce a w = (r, w')"
  shows "\<exists>ok. overlap_steps (w, xs @ [a])
    (w', xs @ [a\<lparr>at_phase := (case r of Inl e \<Rightarrow> Ended | Inr data \<Rightarrow> following data), at_accepted := ok\<rparr>])"
  using overlap_one [OF overlap_last [of a w _ w' xs]] assms by (auto simp: attempt_step_def ask_def)

lemma last_clock:
  assumes "at_phase a = Begun \<and> at_coordinator a = BurnRelease svc \<and> following = Timed
      \<or> at_phase a = Answered data \<and> following = (\<lambda>t. Recording (attempt_evidence a t data))"
    and "and_then (now (clock_of (at_coordinator a))) iso_string w = (r, w')"
  shows "overlap_steps (w, xs @ [a]) (w', xs @ [a\<lparr>at_phase := (case r of Inl e \<Rightarrow> Ended | Inr t \<Rightarrow> following t)\<rparr>])"
  using overlap_one [OF overlap_last [of a w _ w' xs]] assms by (auto simp: attempt_step_def read_clock_def)

lemma lm_evidence_stepwise:
  assumes "lm_work svc op stg produce"
  shows "stepwise (lm_evidence svc op stg produce)"
  unfolding stepwise_def
proof (intro allI impI)
  fix w r w' xs assume run: "lm_evidence svc op stg produce w = (r, w')"
  show "\<exists>xs'. overlap_steps (w, xs) (w', xs')"
  proof (cases "find_evidence (op_id op) stg w")
    case (Some e)
    then have "w' = w" using run by (simp add: lm_evidence_def evidence_get_def and_then_def)
    then show ?thesis using overlap_refl by blast
  next
    case None
    let ?a = "\<lparr>at_coordinator = LockMint svc, at_op = op, at_stage = stg, at_produce = produce, at_phase = Begun, at_accepted = False\<rparr>"
    have begun: "overlap_steps (w, xs) (w, xs @ [?a])"
      by (rule overlap_one [OF overlap_begin [OF None]]) (simp add: assms)
    obtain r1 w1 where p: "produce w = (r1, w1)" by (cases "produce w")
    obtain ok where asked: "overlap_steps (w, xs @ [?a]) (w1, xs @ [?a\<lparr>at_phase := (case r1 of Inl e \<Rightarrow> Ended | Inr data \<Rightarrow> Answered data),
        at_accepted := ok\<rparr>])" (is "overlap_steps _ (w1, xs @ [?b])")
      using last_asks [of ?a svc Answered "[]" w r1 w1 xs] p by auto
    show ?thesis
    proof (cases r1)
      case (Inl e)
      then have "w' = w1" using run None p by (simp add: lm_evidence_def evidence_get_def and_then_def)
      then show ?thesis using overlap_trans [OF asked begun] by blast
    next
      case (Inr data)
      obtain r2 w2 where c: "and_then (now (lm_now svc)) iso_string w1 = (r2, w2)" by (cases "and_then (now (lm_now svc)) iso_string w1")
      let ?c = "?b\<lparr>at_phase := (case r2 of Inl e \<Rightarrow> Ended | Inr t \<Rightarrow> Recording (attempt_evidence ?b t data))\<rparr>"
      have read: "overlap_steps (w1, xs @ [?b]) (w2, xs @ [?c])"
        by (rule last_clock [where svc = undefined]) (use Inr c in auto)
      note so_far = overlap_trans [OF read overlap_trans [OF asked begun]]
      have run2: "(case r2 of Inl e \<Rightarrow> (Inl e, w2) | Inr t \<Rightarrow> evidence_put (attempt_evidence ?b t data) w2) = (r, w')"
        using run None p Inr c unfolding lm_evidence_def
        by (simp add: evidence_get_def and_then_def [of "gets _"] and_then_def [of produce] clock_then and_then_def [of "and_then (now _) iso_string"]
            attempt_evidence_def split: sum.splits)
      show ?thesis
      proof (cases r2)
        case (Inl e)
        then show ?thesis using run2 so_far by auto
      next
        case (Inr t)
        then have "at_phase ?c = Recording (attempt_evidence ?b t data)" "evidence_put (attempt_evidence ?b t data) w2 = (r, w')"
          using run2 by simp_all
        from last_keeps [OF this] show ?thesis using overlap_trans so_far by blast
      qed
    qed
  qed
qed

lemma br_evidence_stepwise:
  assumes "br_work svc op stg produce"
  shows "stepwise (br_evidence svc op stg produce)"
  unfolding stepwise_def
proof (intro allI impI)
  fix w r w' xs assume run: "br_evidence svc op stg produce w = (r, w')"
  show "\<exists>xs'. overlap_steps (w, xs) (w', xs')"
  proof (cases "find_evidence (op_id op) stg w")
    case (Some e)
    then have "w' = w" using run by (simp add: br_evidence_def evidence_get_def and_then_def)
    then show ?thesis using overlap_refl by blast
  next
    case None
    let ?a = "\<lparr>at_coordinator = BurnRelease svc, at_op = op, at_stage = stg, at_produce = produce, at_phase = Begun, at_accepted = False\<rparr>"
    have begun: "overlap_steps (w, xs) (w, xs @ [?a])"
      by (rule overlap_one [OF overlap_begin [OF None]]) (simp add: assms)
    obtain r1 w1 where c: "and_then (now (br_now svc)) iso_string w = (r1, w1)" by (cases "and_then (now (br_now svc)) iso_string w")
    let ?b = "?a\<lparr>at_phase := (case r1 of Inl e \<Rightarrow> Ended | Inr t \<Rightarrow> Timed t)\<rparr>"
    have read: "overlap_steps (w, xs @ [?a]) (w1, xs @ [?b])"
      by (rule last_clock [where svc = svc and data = "[]"]) (use c in auto)
    have run1: "(case r1 of Inl e \<Rightarrow> (Inl e, w1) | Inr t \<Rightarrow> and_then produce (\<lambda>data. evidence_put (attempt_evidence ?b t data)) w1) = (r, w')"
      using run None c unfolding br_evidence_def
      by (simp add: evidence_get_def and_then_def [of "gets _"] clock_then and_then_def [of "and_then (now _) iso_string"]
          attempt_evidence_def gets_def split: sum.splits)
    show ?thesis
    proof (cases r1)
      case (Inl e)
      then show ?thesis using run1 overlap_trans [OF read begun] by auto
    next
      case (Inr t)
      obtain r2 w2 where p: "produce w1 = (r2, w2)" by (cases "produce w1")
      obtain ok where asked: "overlap_steps (w1, xs @ [?b]) (w2, xs @ [?b\<lparr>at_phase := (case r2 of Inl e \<Rightarrow> Ended
          | Inr data \<Rightarrow> Recording (attempt_evidence ?b t data)), at_accepted := ok\<rparr>])" (is "overlap_steps _ (w2, xs @ [?c])")
        using last_asks [of ?b undefined "\<lambda>data. Recording (attempt_evidence ?b t data)" t w1 r2 w2 xs] p Inr by auto
      note so_far = overlap_trans [OF asked overlap_trans [OF read begun]]
      show ?thesis
      proof (cases r2)
        case (Inl e)
        then show ?thesis using run1 \<open>r1 = Inr t\<close> p so_far by (auto simp: and_then_def)
      next
        case (Inr data)
        then have "at_phase ?c = Recording (attempt_evidence ?b t data)" "evidence_put (attempt_evidence ?b t data) w2 = (r, w')"
          using run1 \<open>r1 = Inr t\<close> p by (simp_all add: and_then_def)
        from last_keeps [OF this] show ?thesis using overlap_trans so_far by blast
      qed
    qed
  qed
qed

lemma transition_stepwise: "stepwise (lm_transition svc op to reason pd)" "stepwise (br_transition bsvc op to reason pd)"
  unfolding lm_transition_def br_transition_def by (intro stepwise_then stepwise_actions stepwise_basic)+

lemma required_stepwise: "stepwise (lm_required_evidence oid stg)" "stepwise (br_required oid stg)" "stepwise (attestation_from e)"
  unfolding lm_required_evidence_def br_required_def attestation_from_def
  by (intro stepwise_then stepwise_option stepwise_basic)+

lemmas stepwise_rules = stepwise_then stepwise_if stepwise_option stepwise_basic stepwise_actions transition_stepwise required_stepwise
  lm_evidence_stepwise br_evidence_stepwise lm_work.intros br_work.intros

lemma switch_stepwise: "stepwise (lock_mint_switch svc op)" "stepwise (burn_release_switch bsvc op)"
  unfolding lock_mint_switch_def burn_release_switch_def Let_def
  by (cases "op_state op"; simp only: bridge_state.case; intro stepwise_rules)+

lemma step_stepwise: "stepwise (lock_mint_step svc op)" "stepwise (burn_release_step bsvc op)"
  unfolding lock_mint_step_def burn_release_step_def by (intro stepwise_rules switch_stepwise)+

lemma loop_stepwise: "stepwise (lock_mint_loop svc n op)" "stepwise (burn_release_loop bsvc n op)"
  by (induction n arbitrary: op) (auto intro!: stepwise_rules step_stepwise)

lemma runs_stepwise: "stepwise (lock_mint_run svc oid)" "stepwise (burn_release_run bsvc oid)"
  unfolding lock_mint_run_def burn_release_run_def lm_operation_def br_operation_def
  by (intro stepwise_rules loop_stepwise)+

text \<open>What complete runs one after another can reach is reached by the steps.\<close>

lemma world_step_overlaps: "world_step w w' \<Longrightarrow> \<exists>xs'. overlap_steps (w, xs) (w', xs')"
proof (induction rule: world_step.induct)
  case (world_lock_mint svc oid w r w')
  then show ?case using runs_stepwise(1) unfolding stepwise_def by blast
next
  case (world_burn_release svc oid w r w')
  then show ?case using runs_stepwise(2) unfolding stepwise_def by blast
qed (blast intro: overlap_one overlap_create overlap_transition overlap_record)+

lemma world_steps_overlap: "world_steps w w' \<Longrightarrow> \<exists>xs. overlap_steps (w, []) (w', xs)"
proof (induction rule: world_steps.induct)
  case (world_more w w' w'')
  then show ?case using world_step_overlaps overlap_trans by blast
qed (blast intro: overlap_refl)

section \<open>Two attempts at one effect\<close>

definition racing_op :: operation where
  "racing_op = \<lparr>op_id = ''IW:BRIDGE:1'', op_idempotencyKey = ''k'', op_assetId = ''a'', op_sourceNetworkId = ''n'',
     op_destinationNetworkId = ''m'', op_sender = ''s'', op_receiver = ''r'', op_amount = ''5'',
     op_state = DESTINATION_PREPARING, op_policyDecision = None, op_transitions = [], op_expiresAt = ''e'',
     op_createdAt = ''c'', op_version = 8\<rparr>"

text \<open>One that has read that there is no evidence of the mint, and one that was answered.\<close>

definition racer :: "phase \<Rightarrow> bool \<Rightarrow> attempt" where
  "racer p ok = \<lparr>at_coordinator = LockMint sample_lock_mint, at_op = racing_op, at_stage = DESTINATION_MINT,
     at_produce = lm_produce_mint sample_lock_mint racing_op sample_verified, at_phase = p, at_accepted = ok\<rparr>"

abbreviation minted :: bridge_call where
  "minted \<equiv> MintCall racing_op sample_verified (Inr (''t2'', EXECUTED))"

lemma racer_asks:
  "attempt_step (racer Begun False) w = (racer (Answered [(''transactionId'', JStr ''t2''), (''outcome'', JStr ''EXECUTED'')]) True, log_call minted w)"
proof -
  have "lm_produce_mint sample_lock_mint racing_op sample_verified w
      = (Inr [(''transactionId'', JStr ''t2''), (''outcome'', JStr ''EXECUTED'')], log_call minted w)"
    by (simp add: lm_produce_mint_def and_then_def call_eq sample_lock_mint_def ret_def)
  then show ?thesis
    by (simp add: attempt_step_def ask_def racer_def accepted_count_log at_key_def)
qed

lemma racing:
  assumes "find_evidence ''IW:BRIDGE:1'' DESTINATION_MINT w = None"
  shows "\<exists>xs. overlap_steps (w, []) (log_call minted (log_call minted w), xs)"
proof -
  let ?b = "racer Begun False"
  let ?r = "racer (Answered [(''transactionId'', JStr ''t2''), (''outcome'', JStr ''EXECUTED'')]) True"
  have begins: "overlap_step (w, xs) (w, xs @ [?b])" for xs
    unfolding racer_def by (rule overlap_begin) (use assms in \<open>auto simp: racing_op_def intro: lm_work.intros\<close>)
  have "overlap_step (w, []) (w, [?b])" "overlap_step (w, [?b]) (w, [?b, ?b])" using begins [of "[]"] begins [of "[?b]"] by simp_all
  then have "overlap_steps (w, []) (w, [?b, ?b])" using overlap_one overlap_more by blast
  moreover have "overlap_step (w, [?b, ?b]) (log_call minted w, [?r, ?b])"
    using overlap_go [of 0 "[?b, ?b]" w ?r "log_call minted w"] racer_asks by simp
  ultimately have "overlap_steps (w, []) (log_call minted w, [?r, ?b])" by (rule overlap_more)
  moreover have "overlap_step (log_call minted w, [?r, ?b]) (log_call minted (log_call minted w), [?r, ?r])"
    using overlap_go [of 1 "[?r, ?b]" "log_call minted w" ?r "log_call minted (log_call minted w)"] racer_asks by simp
  ultimately show ?thesis using overlap_more by blast
qed

section \<open>At most once\<close>

lemma accepted_one_at_a_time:
  assumes "world_steps empty_world w"
  shows "length (filter (\<lambda>c. accepted c = Some (oid, stg)) (calls w))
    \<le> 1 + length (filter (\<lambda>c. c = NowCall None) (calls w))"
proof -
  have "counts_ok None w" using reachable_world [OF assms] by (simp add: world_ok_def)
  then have "accepted_count (oid, stg) w \<le> evidence_count (oid, stg) w + clock_failures w"
    by (simp add: counts_ok_def)
  moreover have "evidence_count (oid, stg) w \<le> 1" by (simp add: evidence_count_def)
  ultimately show ?thesis by (simp add: accepted_count_def clock_failures_def)
qed

text \<open>
  C3. At most once, and what is left of it when runs overlap or die. (1) Whatever runs, engine calls and deaths of processes come between one
  step of an attempt and the next, an operation gets a second accepted answer to a lock, burn, mint or release request only
  from an attempt that had read that there was no evidence and whose answer is not the stored one: its process died or its clock
  failed before it stored the answer, or it is still to store it, or another attempt stored one first. There are at most as many further
  accepted answers as there are such attempts. (2) A stored answer never changes, and from then on a request can be accepted only for attempts
  that had begun before and had not yet asked. (3) So when runs follow one another and each comes to its end, there is a second accepted
  answer only if the clock failed to give a valid date in between, and with a working clock never.
\<close>

theorem effect_accepted_at_most_once:
  assumes "overlap_steps (empty_world, []) (w, xs)"
  shows "length (filter (\<lambda>c. accepted c = Some (oid, stg)) (calls w)) \<le> 1 + unrecorded (oid, stg) xs
    \<and> (\<forall>e w' xs'. find_evidence oid stg w = Some e \<longrightarrow> overlap_steps (w, xs) (w', xs') \<longrightarrow>
        find_evidence oid stg w' = Some e
        \<and> length (filter (\<lambda>c. accepted c = Some (oid, stg)) (calls w'))
          \<le> length (filter (\<lambda>c. accepted c = Some (oid, stg)) (calls w)) + asking (oid, stg) xs)
    \<and> (\<forall>v. world_steps empty_world v \<longrightarrow> length (filter (\<lambda>c. accepted c = Some (oid, stg)) (calls v))
        \<le> 1 + length (filter (\<lambda>c. c = NowCall None) (calls v)))"
proof (intro conjI allI impI)
  let ?k = "(oid, stg)"
  have ok: "overlap_ok (w, xs)" by (rule overlap_reachable [OF assms overlap_empty])
  have "evidence_count ?k w \<le> 1" by (simp add: evidence_count_def)
  then show "length (filter (\<lambda>c. accepted c = Some ?k) (calls w)) \<le> 1 + unrecorded ?k xs"
    using overlap_count [OF ok, of ?k] by (simp add: accepted_count_def)
  fix e w' xs' assume e: "find_evidence oid stg w = Some e" and later: "overlap_steps (w, xs) (w', xs')"
  have "settled ?k e (accepted_count ?k w + asking ?k xs) (w, xs)" using ok e by (simp add: settled_def)
  from settled_steps [OF later this]
  show "find_evidence oid stg w' = Some e"
    "length (filter (\<lambda>c. accepted c = Some ?k) (calls w')) \<le> length (filter (\<lambda>c. accepted c = Some ?k) (calls w)) + asking ?k xs"
    by (simp_all add: settled_def accepted_count_def)
qed (rule accepted_one_at_a_time)

text \<open>
  Two runs that overlap are both accepted, and then the bound is reached; the mint has to recognise the repeated request, as ADR 0018 asks of it.
\<close>

theorem effect_accepted_at_most_once_witness:
  "\<exists>w xs. overlap_steps (empty_world, []) (w, xs)
     \<and> length (filter (\<lambda>c. accepted c = Some (''IW:BRIDGE:1'', DESTINATION_MINT)) (calls w)) = 2
     \<and> 1 \<le> unrecorded (''IW:BRIDGE:1'', DESTINATION_MINT) xs"
proof -
  obtain op where "engine_create Some sample_create empty_world = (Inr op, sample_opened)" using sample_created by blast
  then have opened: "neutral empty_world sample_opened" "overlap_steps (empty_world, []) (sample_opened, [])"
    using neutral_engine(1) overlap_one overlap_create by blast+
  then have "find_evidence ''IW:BRIDGE:1'' DESTINATION_MINT sample_opened = None"
    "accepted_count (''IW:BRIDGE:1'', DESTINATION_MINT) sample_opened = 0"
    by (simp_all add: neutral_def) (simp_all add: empty_world_def find_evidence_def accepted_count_def)
  note none = this
  obtain xs where race: "overlap_steps (sample_opened, []) (log_call minted (log_call minted sample_opened), xs)"
    using racing [OF none(1)] by blast
  have run: "overlap_steps (empty_world, []) (log_call minted (log_call minted sample_opened), xs)"
    by (rule overlap_trans [OF race opened(2)])
  have two: "accepted_count (''IW:BRIDGE:1'', DESTINATION_MINT) (log_call minted (log_call minted sample_opened)) = 2"
    using none(2) by (simp add: accepted_count_log racing_op_def)
  then have "1 \<le> unrecorded (''IW:BRIDGE:1'', DESTINATION_MINT) xs"
    using effect_accepted_at_most_once [OF run, of "''IW:BRIDGE:1''" DESTINATION_MINT] by (simp add: accepted_count_def)
  then show ?thesis using run two unfolding accepted_count_def by blast
qed

end
