(* ===== verification/Supply.thy ===== *)
theory Supply
  imports Invariants Js_Date State_Graph "HOL-Library.Multiset"
begin

text \<open>
  The supply ledger of packages/core/src/supply-invariants.ts on the table of
  packages/core/sql/006_supply_effects.sql. Three parameters stand for what is outside the sources:
  \<open>pg_ts\<close> for the \<open>timestamptz\<close> column, \<open>le\<close> for the order of \<open>ORDER BY finalized_at, operation_id,
  effect\<close> under the collation of the database, and \<open>same_text\<close> for whether the JSON text of a record
  that was read back from a \<open>jsonb\<close> column equals the JSON text of the record a caller passes.
\<close>

datatype supply_effect = LOCK_EFFECT | MINT_EFFECT | BURN_EFFECT | RELEASE_EFFECT

fun effect_text :: "supply_effect \<Rightarrow> string" where
  "effect_text LOCK_EFFECT = ''LOCK''"
| "effect_text MINT_EFFECT = ''MINT''"
| "effect_text BURN_EFFECT = ''BURN''"
| "effect_text RELEASE_EFFECT = ''RELEASE''"

record supply_effect_record =
  su_operationId :: interweave_id
  su_effect :: supply_effect
  su_assetId :: interweave_id
  su_representationId :: string
  su_amount :: atomic_amount
  su_evidenceId :: string
  su_finalizedAt :: iso_timestamp

record supply_totals =
  st_locked :: atomic_amount
  st_minted :: atomic_amount
  st_burned :: atomic_amount
  st_released :: atomic_amount
  st_verifiedBacking :: atomic_amount
  st_representationSupply :: atomic_amount

datatype supply_outcome = VALID | VIOLATION

record supply_assessment =
  sa_assetId :: interweave_id
  sa_representationId :: string
  sa_totals :: supply_totals
  sa_outcome :: supply_outcome
  sa_violations :: "string list"
  sa_assessedAt :: iso_timestamp

section \<open>Assessment\<close>

record supply_sums =
  sum_locked :: nat
  sum_minted :: nat
  sum_burned :: nat
  sum_released :: nat

definition add_amount :: "supply_effect \<Rightarrow> nat \<Rightarrow> supply_sums \<Rightarrow> supply_sums" where
  "add_amount effect amount t =
     (case effect of
        LOCK_EFFECT \<Rightarrow> t\<lparr>sum_locked := sum_locked t + amount\<rparr>
      | MINT_EFFECT \<Rightarrow> t\<lparr>sum_minted := sum_minted t + amount\<rparr>
      | BURN_EFFECT \<Rightarrow> t\<lparr>sum_burned := sum_burned t + amount\<rparr>
      | RELEASE_EFFECT \<Rightarrow> t\<lparr>sum_released := sum_released t + amount\<rparr>)"

definition effect_key :: "supply_effect_record \<Rightarrow> string" where
  "effect_key r = su_operationId r @ ''|'' @ effect_text (su_effect r)"

text \<open>The \<open>for\<close> loop of \<open>assess\<close>: the keys seen, the violations and the four sums.\<close>

fun assess_loop ::
  "string list \<Rightarrow> string list \<Rightarrow> supply_sums \<Rightarrow> supply_effect_record list
     \<Rightarrow> (string list \<times> supply_sums) result" where
  "assess_loop seen violations t [] = Inr (violations, t)"
| "assess_loop seen violations t (r # rs) =
     (if List.member seen (effect_key r)
      then assess_loop seen (violations @ [''DUPLICATE_OPERATION_EFFECT'']) t rs
      else bind_result (parse_atomic_amount (su_amount r)) (\<lambda>amount.
        assess_loop (effect_key r # seen) violations (add_amount (su_effect r) amount t) rs))"

definition sum_violations :: "supply_sums \<Rightarrow> string list" where
  "sum_violations t =
     (if sum_minted t > sum_locked t then [''MINT_EXCEEDS_LOCKED_BACKING''] else [])
     @ (if sum_burned t > sum_minted t then [''BURN_EXCEEDS_MINTED_SUPPLY''] else [])
     @ (if sum_released t > sum_burned t then [''RELEASE_EXCEEDS_VERIFIED_BURN''] else [])
     @ (if sum_released t > sum_locked t then [''RELEASE_EXCEEDS_LOCKED_BACKING''] else [])
     @ (if int (sum_minted t) - int (sum_burned t) > int (sum_locked t) - int (sum_released t)
        then [''REPRESENTATION_SUPPLY_EXCEEDS_BACKING''] else [])"

definition assess ::
  "interweave_id \<Rightarrow> string \<Rightarrow> supply_effect_record list \<Rightarrow> iso_timestamp \<Rightarrow> supply_assessment result" where
  "assess assetId representationId records assessedAt =
     bind_result (assess_loop [] [] \<lparr>sum_locked = 0, sum_minted = 0, sum_burned = 0, sum_released = 0\<rparr> records)
       (\<lambda>(duplicates, t).
         let violations = duplicates @ sum_violations t
         in Inr \<lparr>sa_assetId = assetId, sa_representationId = representationId,
           sa_totals = \<lparr>st_locked = nat_to_string (sum_locked t), st_minted = nat_to_string (sum_minted t),
             st_burned = nat_to_string (sum_burned t), st_released = nat_to_string (sum_released t),
             st_verifiedBacking = int_to_string (int (sum_locked t) - int (sum_released t)),
             st_representationSupply = int_to_string (int (sum_minted t) - int (sum_burned t))\<rparr>,
           sa_outcome = (if violations \<noteq> [] then VIOLATION else VALID),
           sa_violations = js_set violations, sa_assessedAt = assessedAt\<rparr>)"

definition assess_supply_effects ::
  "interweave_id \<Rightarrow> string \<Rightarrow> supply_effect_record list \<Rightarrow> iso_timestamp \<Rightarrow> supply_assessment result" where
  "assess_supply_effects assetId representationId records assessedAt =
     assess assetId representationId records assessedAt"

definition assert_record :: "supply_effect_record \<Rightarrow> unit result" where
  "assert_record r =
     (if \<not> starts_with (su_operationId r) ''IW:BRIDGE:'' \<or> \<not> starts_with (su_assetId r) ''IW:ASSET:''
        \<or> blank (su_representationId r) \<or> blank (su_evidenceId r)
      then Inl (RegistryError INVALID_ARGUMENT ''supply effect identifiers and evidence are required'')
      else bind_result (parse_atomic_amount (su_amount r)) (\<lambda>amount.
        if amount \<le> 0 then Inl (RegistryError INVALID_ARGUMENT ''supply effect amount must be positive'')
        else if date_parse (su_finalizedAt r) = None
        then Inl (RegistryError INVALID_ARGUMENT ''supply effect finality timestamp is invalid'')
        else Inr ()))"

section \<open>The PostgreSQL store\<close>

text \<open>A row of the table: the key columns repeat fields of the record.\<close>

record supply_row =
  sr_operation_id :: string
  sr_effect :: supply_effect
  sr_asset_id :: string
  sr_representation_id :: string
  sr_record :: supply_effect_record
  sr_finalized_at :: string

type_synonym supply_db = "supply_row list"

datatype persistence = INSERTED | DUPLICATE

record supply_env =
  se_pg_ts :: "string \<Rightarrow> string option"
  se_le :: "supply_row \<Rightarrow> supply_row \<Rightarrow> bool"
  se_same_text :: "supply_effect_record \<Rightarrow> supply_effect_record \<Rightarrow> bool"

definition supply_list :: "supply_env \<Rightarrow> interweave_id \<Rightarrow> string \<Rightarrow> supply_db \<Rightarrow> supply_effect_record list" where
  "supply_list env assetId representationId db =
     map sr_record (sort_by (se_le env)
       (filter (\<lambda>r. sr_asset_id r = assetId \<and> sr_representation_id r = representationId) db))"

definition insert_supply :: "supply_env \<Rightarrow> supply_effect_record \<Rightarrow> (supply_db, unit) comp" where
  "insert_supply env r db =
     (case se_pg_ts env (su_finalizedAt r) of
        None \<Rightarrow> (Inl (SqlError ''timestamptz''), db)
      | Some at \<Rightarrow>
          if \<exists>x \<in> set db. sr_operation_id x = su_operationId r \<and> sr_effect x = su_effect r
          then (Inl (SqlError ''primary key''), db)
          else (Inr (), db @ [\<lparr>sr_operation_id = su_operationId r, sr_effect = su_effect r,
            sr_asset_id = su_assetId r, sr_representation_id = su_representationId r, sr_record = r,
            sr_finalized_at = at\<rparr>]))"

definition append_validated ::
  "supply_env \<Rightarrow> supply_effect_record \<Rightarrow> iso_timestamp
     \<Rightarrow> (supply_db, persistence \<times> supply_effect_record list) comp" where
  "append_validated env r assessedAt = transaction (\<lambda>db.
     let records = supply_list env (su_assetId r) (su_representationId r) db
     in case find (\<lambda>item. su_operationId item = su_operationId r \<and> su_effect item = su_effect r) records of
       Some prior \<Rightarrow>
         if \<not> se_same_text env prior r
         then throw (RegistryError CONFLICT (''operation effect was reused with different evidence: ''
           @ su_operationId r @ ''/'' @ effect_text (su_effect r))) db
         else ret (DUPLICATE, records) db
     | None \<Rightarrow>
         let candidate = records @ [r]
         in case assess (su_assetId r) (su_representationId r) candidate assessedAt of
           Inl e \<Rightarrow> throw e db
         | Inr assessment \<Rightarrow>
             if sa_outcome assessment = VIOLATION
             then throw (RegistryError CONFLICT (''supply invariant violation: ''
               @ join '','' (sa_violations assessment))) db
             else and_then (insert_supply env r) (\<lambda>_. ret (INSERTED, candidate)) db)"

section \<open>The ledger\<close>

definition supply_record ::
  "supply_env \<Rightarrow> js_date \<Rightarrow> supply_effect_record \<Rightarrow> (supply_db, persistence \<times> supply_assessment) comp" where
  "supply_record env now r =
     and_then (lift_result (assert_record r)) (\<lambda>_.
     and_then (iso_string now) (\<lambda>assessedAt.
     and_then (append_validated env r assessedAt) (\<lambda>(persistence, records).
     and_then (lift_result (assess (su_assetId r) (su_representationId r) records assessedAt)) (\<lambda>assessment.
       ret (persistence, assessment)))))"

definition supply_assess ::
  "supply_env \<Rightarrow> js_date \<Rightarrow> interweave_id \<Rightarrow> string \<Rightarrow> (supply_db, supply_assessment) comp" where
  "supply_assess env now assetId representationId =
     (if blank representationId
      then throw (RegistryError INVALID_ARGUMENT ''representation ID is required'')
      else and_then (gets (supply_list env assetId representationId)) (\<lambda>records.
        and_then (iso_string now) (\<lambda>assessedAt.
          lift_result (assess assetId representationId records assessedAt))))"

section \<open>Sums\<close>

definition amount_of :: "supply_effect_record \<Rightarrow> nat" where
  "amount_of r = digits_to_nat 0 (su_amount r)"

definition effect_total :: "supply_effect \<Rightarrow> supply_effect_record list \<Rightarrow> nat" where
  "effect_total e rs = sum_list (map amount_of (filter (\<lambda>r. su_effect r = e) rs))"

definition sums_of :: "supply_effect_record list \<Rightarrow> supply_sums" where
  "sums_of rs = \<lparr>sum_locked = effect_total LOCK_EFFECT rs, sum_minted = effect_total MINT_EFFECT rs,
     sum_burned = effect_total BURN_EFFECT rs, sum_released = effect_total RELEASE_EFFECT rs\<rparr>"

text \<open>What is released was burned, what was burned was minted, what was minted is locked.\<close>

definition sound_sums :: "supply_sums \<Rightarrow> bool" where
  "sound_sums t \<longleftrightarrow> sum_released t \<le> sum_burned t \<and> sum_burned t \<le> sum_minted t
     \<and> sum_minted t \<le> sum_locked t"

lemma sum_violations_Nil: "sum_violations t = [] \<longleftrightarrow> sound_sums t \<and> sum_minted t + sum_released t \<le> sum_locked t + sum_burned t"
  by (auto simp: sum_violations_def sound_sums_def)

lemma sum_violations_sound: "sum_violations t = [] \<longleftrightarrow> sound_sums t"
  by (auto simp: sum_violations_Nil sound_sums_def)

lemma effect_total_append [simp]: "effect_total e (xs @ ys) = effect_total e xs + effect_total e ys"
  by (simp add: effect_total_def)

lemma effect_total_Nil [simp]: "effect_total e [] = 0"
  by (simp add: effect_total_def)

lemma effect_total_Cons [simp]:
  "effect_total e (r # rs) = (if su_effect r = e then amount_of r else 0) + effect_total e rs"
  by (simp add: effect_total_def)

lemma effect_total_insert_by:
  "effect_total e (map f (insert_by le x xs)) = effect_total e (map f (x # xs))"
  by (induction xs) auto

lemma effect_total_sort_by [simp]: "effect_total e (map f (sort_by le xs)) = effect_total e (map f xs)"
  by (induction xs) (auto simp: effect_total_insert_by)

lemma sums_of_snoc: "sums_of (rs @ [r]) = add_amount (su_effect r) (amount_of r) (sums_of rs)"
  by (cases "su_effect r") (simp_all add: sums_of_def add_amount_def)

definition plus_sums :: "supply_sums \<Rightarrow> supply_sums \<Rightarrow> supply_sums" where
  "plus_sums a b = \<lparr>sum_locked = sum_locked a + sum_locked b, sum_minted = sum_minted a + sum_minted b,
     sum_burned = sum_burned a + sum_burned b, sum_released = sum_released a + sum_released b\<rparr>"

lemma plus_sums_step:
  "plus_sums (add_amount (su_effect r) (amount_of r) t) (sums_of rs) = plus_sums t (sums_of (r # rs))"
  by (cases "su_effect r") (simp_all add: plus_sums_def add_amount_def sums_of_def)

lemma effect_text_bar: "CHR ''|'' \<notin> set (effect_text e)"
  by (cases e) simp_all

lemma effect_text_inject: "effect_text a = effect_text b \<longleftrightarrow> a = b"
  by (cases a; cases b) simp_all

lemma effect_key_inject:
  "effect_key a = effect_key b \<longleftrightarrow> su_operationId a = su_operationId b \<and> su_effect a = su_effect b"
  using separator_inject [OF effect_text_bar [of "su_effect a"] effect_text_bar [of "su_effect b"],
      of "su_operationId a" "su_operationId b"]
  unfolding effect_key_def effect_text_inject append_Cons append_Nil .

lemma assess_loop_distinct:
  "distinct (map effect_key rs) \<Longrightarrow> \<forall>r \<in> set rs. effect_key r \<notin> set seen \<and> atomic_text (su_amount r) \<Longrightarrow>
   assess_loop seen v t rs = Inr (v, plus_sums t (sums_of rs))"
proof (induction rs arbitrary: seen t)
  case Nil
  then show ?case by (simp add: sums_of_def plus_sums_def)
next
  case (Cons r rs)
  have fresh: "\<not> List.member seen (effect_key r)" using Cons.prems(2) by simp
  have amount: "parse_atomic_amount (su_amount r) = Inr (amount_of r)"
    using Cons.prems(2) by (simp add: parse_atomic_amount_def amount_of_def)
  have "\<forall>r' \<in> set rs. effect_key r' \<notin> set (effect_key r # seen) \<and> atomic_text (su_amount r')"
    using Cons.prems by (auto simp: image_iff)
  from Cons.IH [OF _ this, of "add_amount (su_effect r) (amount_of r) t"] Cons.prems(1)
  show ?case using fresh amount by (simp add: plus_sums_step)
qed

text \<open>A list of records as the store returns it: no key twice, every amount an integer.\<close>

definition clean :: "supply_effect_record list \<Rightarrow> bool" where
  "clean rs \<longleftrightarrow> distinct (map effect_key rs) \<and> (\<forall>r \<in> set rs. atomic_text (su_amount r))"

lemma assess_clean:
  assumes "clean rs"
  shows "\<exists>a. assess assetId rep rs at = Inr a \<and> (sa_outcome a = VALID \<longleftrightarrow> sound_sums (sums_of rs))
    \<and> sa_violations a = js_set (sum_violations (sums_of rs))
    \<and> st_verifiedBacking (sa_totals a) = int_to_string (int (sum_locked (sums_of rs)) - int (sum_released (sums_of rs)))
    \<and> st_representationSupply (sa_totals a) = int_to_string (int (sum_minted (sums_of rs)) - int (sum_burned (sums_of rs)))"
proof -
  let ?z = "\<lparr>sum_locked = 0, sum_minted = 0, sum_burned = 0, sum_released = 0\<rparr>"
  have "assess_loop [] [] ?z rs = Inr ([], sums_of rs)"
    using assess_loop_distinct [of rs "[]" "[]" ?z] assms
    by (simp add: clean_def plus_sums_def sums_of_def)
  then show ?thesis by (simp add: assess_def sum_violations_sound)
qed

lemma clean_assess_outcome:
  assumes "clean rs" "assess assetId rep rs at = Inr a"
  shows "sa_outcome a = VALID \<longleftrightarrow> sound_sums (sums_of rs)"
  using assess_clean [OF assms(1), of assetId rep at] assms(2) by auto

section \<open>The invariant of the ledger\<close>

definition scope_records :: "interweave_id \<Rightarrow> string \<Rightarrow> supply_db \<Rightarrow> supply_effect_record list" where
  "scope_records a rep db =
     map sr_record (filter (\<lambda>r. sr_asset_id r = a \<and> sr_representation_id r = rep) db)"

definition scope_sums :: "supply_db \<Rightarrow> interweave_id \<times> string \<Rightarrow> supply_sums" where
  "scope_sums db scope = sums_of (scope_records (fst scope) (snd scope) db)"

definition row_sound :: "supply_row \<Rightarrow> bool" where
  "row_sound x \<longleftrightarrow> sr_operation_id x = su_operationId (sr_record x) \<and> sr_effect x = su_effect (sr_record x)
     \<and> sr_asset_id x = su_assetId (sr_record x) \<and> sr_representation_id x = su_representationId (sr_record x)
     \<and> assert_record (sr_record x) = Inr ()"

definition supply_wf :: "supply_db \<Rightarrow> bool" where
  "supply_wf db \<longleftrightarrow> distinct (map (\<lambda>x. (sr_operation_id x, sr_effect x)) db) \<and> (\<forall>x \<in> set db. row_sound x)
     \<and> (\<forall>scope. sound_sums (scope_sums db scope))"

lemma assert_record_amount: "assert_record r = Inr () \<Longrightarrow> atomic_text (su_amount r) \<and> 0 < amount_of r"
  by (auto simp: assert_record_def parse_atomic_amount_def amount_of_def split: if_splits)

lemma scope_clean:
  assumes "supply_wf db"
  shows "clean (scope_records a rep db)"
proof -
  have "distinct (map (\<lambda>x. effect_key (sr_record x)) db)"
    using assms by (auto simp: supply_wf_def row_sound_def distinct_map inj_on_def effect_key_inject)
  then have "distinct (map effect_key (scope_records a rep db))"
    by (simp add: scope_records_def distinct_map_filter comp_def)
  then show ?thesis
    using assms assert_record_amount by (auto simp: clean_def scope_records_def supply_wf_def row_sound_def)
qed

lemma supply_list_scope:
  "set (supply_list env a rep db) = set (scope_records a rep db)"
  "sums_of (supply_list env a rep db) = sums_of (scope_records a rep db)"
  by (simp_all add: supply_list_def scope_records_def sums_of_def)

lemma supply_list_clean:
  assumes "supply_wf db"
  shows "clean (supply_list env a rep db)"
proof -
  have "distinct (map (\<lambda>x. effect_key (sr_record x)) (filter (\<lambda>r. sr_asset_id r = a \<and> sr_representation_id r = rep) db))"
    using scope_clean [OF assms, of a rep] by (simp add: clean_def scope_records_def comp_def)
  then have "distinct (map effect_key (supply_list env a rep db))"
    by (simp add: supply_list_def comp_def)
  then show ?thesis
    using scope_clean [OF assms, of a rep] supply_list_scope(1) [of env a rep db] by (simp add: clean_def)
qed

section \<open>What a call does\<close>

definition supply_row_of :: "supply_effect_record \<Rightarrow> string \<Rightarrow> supply_row" where
  "supply_row_of r at = \<lparr>sr_operation_id = su_operationId r, sr_effect = su_effect r,
     sr_asset_id = su_assetId r, sr_representation_id = su_representationId r, sr_record = r,
     sr_finalized_at = at\<rparr>"

definition scope_of :: "supply_effect_record \<Rightarrow> interweave_id \<times> string" where
  "scope_of r = (su_assetId r, su_representationId r)"

definition known_effect :: "supply_effect_record \<Rightarrow> supply_db \<Rightarrow> bool" where
  "known_effect r db \<longleftrightarrow> (\<exists>x \<in> set db. sr_operation_id x = su_operationId r \<and> sr_effect x = su_effect r)"

lemma sums_of_candidate:
  "sums_of (supply_list env (su_assetId r) (su_representationId r) db @ [r])
    = add_amount (su_effect r) (amount_of r) (scope_sums db (scope_of r))"
  by (simp add: sums_of_snoc supply_list_scope scope_sums_def scope_of_def)

lemma candidate_clean:
  assumes "supply_wf db" "assert_record r = Inr ()" "\<not> known_effect r db"
  shows "clean (supply_list env a rep db @ [r])"
proof -
  have "effect_key r \<notin> effect_key ` set (supply_list env a rep db)"
    using assms(1,3) unfolding supply_list_scope
    by (auto simp: scope_records_def effect_key_inject known_effect_def supply_wf_def row_sound_def)
  then show ?thesis
    using supply_list_clean [OF assms(1), of env a rep] assert_record_amount [OF assms(2)]
    by (simp add: clean_def)
qed

lemma prior_known:
  assumes "supply_wf db"
    and "find (\<lambda>item. su_operationId item = su_operationId r \<and> su_effect item = su_effect r)
      (supply_list env a rep db) = Some prior"
  shows "known_effect r db \<and> prior \<in> set (scope_records a rep db)"
proof -
  have p: "prior \<in> set (supply_list env a rep db)" "su_operationId prior = su_operationId r"
    "su_effect prior = su_effect r"
    using assms(2) by (auto simp: find_Some_iff)
  then show ?thesis
    using assms(1) unfolding supply_list_scope
    by (auto simp: scope_records_def known_effect_def supply_wf_def row_sound_def)
qed

lemma insert_supply_fresh:
  "\<not> known_effect r db \<Longrightarrow> insert_supply env r db =
     (case se_pg_ts env (su_finalizedAt r) of None \<Rightarrow> (Inl (SqlError ''timestamptz''), db)
      | Some x \<Rightarrow> (Inr (), db @ [supply_row_of r x]))"
  by (auto simp: insert_supply_def known_effect_def supply_row_of_def split: option.split)

lemma append_validated_cases:
  assumes wf: "supply_wf db" and ok: "assert_record r = Inr ()"
    and run: "append_validated env r at db = (res, db')"
  shows "(\<exists>e. res = Inl e \<and> db' = db)
    \<or> (\<exists>rs. known_effect r db \<and> res = Inr (DUPLICATE, rs) \<and> rs = supply_list env (su_assetId r) (su_representationId r) db
         \<and> db' = db)
    \<or> (\<exists>x. \<not> known_effect r db \<and> sound_sums (add_amount (su_effect r) (amount_of r) (scope_sums db (scope_of r)))
         \<and> res = Inr (INSERTED, supply_list env (su_assetId r) (su_representationId r) db @ [r])
         \<and> db' = db @ [supply_row_of r x])"
proof (cases "find (\<lambda>item. su_operationId item = su_operationId r \<and> su_effect item = su_effect r)
    (supply_list env (su_assetId r) (su_representationId r) db)")
  case None
  show ?thesis
  proof (cases "known_effect r db")
    case True
    then show ?thesis
      using run None
      by (auto simp: append_validated_def transaction_def Let_def and_then_def insert_supply_def known_effect_def
          split: sum.splits prod.splits if_splits option.splits)
  next
    case False
    note clean = candidate_clean [OF wf ok False, of env "su_assetId r" "su_representationId r"]
    obtain a where a: "assess (su_assetId r) (su_representationId r)
        (supply_list env (su_assetId r) (su_representationId r) db @ [r]) at = Inr a"
      "sa_outcome a = VALID \<longleftrightarrow> sound_sums (add_amount (su_effect r) (amount_of r) (scope_sums db (scope_of r)))"
      using assess_clean [OF clean, of "su_assetId r" "su_representationId r" at] sums_of_candidate by auto
    show ?thesis
      using run None False a
      by (cases "sa_outcome a"; cases "se_pg_ts env (su_finalizedAt r)")
        (auto simp: append_validated_def transaction_def Let_def and_then_def insert_supply_fresh)
  qed
next
  case (Some prior)
  then show ?thesis
    using run prior_known [OF wf Some]
    by (auto simp: append_validated_def transaction_def Let_def split: if_splits)
qed

lemma scope_sums_insert:
  "scope_sums (db @ [supply_row_of r x]) =
     (scope_sums db)(scope_of r := add_amount (su_effect r) (amount_of r) (scope_sums db (scope_of r)))"
  by (auto simp: fun_eq_iff scope_sums_def scope_of_def scope_records_def supply_row_of_def sums_of_snoc)

lemma insert_wf:
  assumes "supply_wf db" "assert_record r = Inr ()" "\<not> known_effect r db"
    and "sound_sums (add_amount (su_effect r) (amount_of r) (scope_sums db (scope_of r)))"
  shows "supply_wf (db @ [supply_row_of r x])"
proof -
  have "sound_sums (scope_sums (db @ [supply_row_of r x]) scope)" for scope
    using assms(1,4) by (simp add: scope_sums_insert supply_wf_def del: split_paired_All)
  moreover have "distinct (map (\<lambda>x. (sr_operation_id x, sr_effect x)) (db @ [supply_row_of r x]))"
    using assms(1,3) by (auto simp: supply_wf_def known_effect_def supply_row_of_def)
  moreover have "row_sound (supply_row_of r x)"
    using assms(2) by (simp add: row_sound_def supply_row_of_def)
  ultimately show ?thesis using assms(1) by (simp add: supply_wf_def)
qed

lemma supply_record_cases:
  assumes wf: "supply_wf db" and run: "supply_record env now r db = (res, db')"
  shows "(\<exists>e. res = Inl e \<and> db' = db)
    \<or> (\<exists>a. known_effect r db \<and> res = Inr (DUPLICATE, a) \<and> sa_outcome a = VALID \<and> db' = db)
    \<or> (\<exists>a x. assert_record r = Inr () \<and> \<not> known_effect r db \<and> res = Inr (INSERTED, a) \<and> sa_outcome a = VALID
         \<and> sound_sums (add_amount (su_effect r) (amount_of r) (scope_sums db (scope_of r)))
         \<and> db' = db @ [supply_row_of r x])"
proof (cases "assert_record r = Inr () \<and> now \<noteq> None")
  case False
  then show ?thesis
    using run by (cases "assert_record r"; cases now) (auto simp: supply_record_def and_then_def iso_string_def)
next
  case True
  then obtain t where t: "now = Some t" and ok: "assert_record r = Inr ()" by auto
  obtain res1 db1 where app: "append_validated env r (to_iso_string t) db = (res1, db1)" by fastforce
  let ?rs = "supply_list env (su_assetId r) (su_representationId r) db"
  have run': "supply_record env now r db = (case res1 of Inl e \<Rightarrow> (Inl e, db1)
      | Inr (p, rs) \<Rightarrow> (case assess (su_assetId r) (su_representationId r) rs (to_iso_string t) of
          Inl e \<Rightarrow> (Inl e, db1) | Inr a \<Rightarrow> (Inr (p, a), db1)))"
    using ok t app by (simp add: supply_record_def and_then_def iso_string_def split: sum.split prod.split)
  from append_validated_cases [OF wf ok app] show ?thesis
  proof (elim disjE exE conjE)
    fix rs assume d: "known_effect r db" "res1 = Inr (DUPLICATE, rs)" "rs = ?rs" "db1 = db"
    have "sound_sums (sums_of ?rs)"
      using wf by (simp add: supply_list_scope supply_wf_def scope_sums_def)
    then show ?thesis
      using run run' d assess_clean [OF supply_list_clean [OF wf, of env "su_assetId r" "su_representationId r"],
          of "su_assetId r" "su_representationId r" "to_iso_string t"] by auto
  next
    fix x assume n: "\<not> known_effect r db" "res1 = Inr (INSERTED, ?rs @ [r])" "db1 = db @ [supply_row_of r x]"
      "sound_sums (add_amount (su_effect r) (amount_of r) (scope_sums db (scope_of r)))"
    then obtain a where "assess (su_assetId r) (su_representationId r) (?rs @ [r]) (to_iso_string t) = Inr a"
      "sa_outcome a = VALID"
      using sums_of_candidate [of env r db] assess_clean [OF candidate_clean [OF wf ok n(1), of env "su_assetId r" "su_representationId r"],
          of "su_assetId r" "su_representationId r" "to_iso_string t"] by auto
    then show ?thesis using run run' ok n by auto
  qed (use run run' in auto)
qed

inductive supply_steps :: "supply_db \<Rightarrow> bool" where
  supply_empty: "supply_steps []"
| supply_more: "supply_steps db \<Longrightarrow> supply_record env now r db = (res, db') \<Longrightarrow> supply_steps db'"

lemma supply_record_wf: "supply_wf db \<Longrightarrow> supply_record env now r db = (res, db') \<Longrightarrow> supply_wf db'"
  using supply_record_cases insert_wf by blast

lemma supply_reachable_wf: "supply_steps db \<Longrightarrow> supply_wf db"
proof (induction rule: supply_steps.induct)
  case supply_empty
  then show ?case by (simp add: supply_wf_def scope_sums_def scope_records_def sums_of_def sound_sums_def)
qed (rule supply_record_wf)

text \<open>The abstract ledger: four sums per asset and representation, raised one at a time.\<close>

inductive sums_step :: "(interweave_id \<times> string \<Rightarrow> supply_sums) \<Rightarrow> (interweave_id \<times> string \<Rightarrow> supply_sums) \<Rightarrow> bool" where
  sums_keep: "sums_step t t"
| sums_raise: "0 < n \<Longrightarrow> sound_sums (add_amount e n (t scope)) \<Longrightarrow>
    sums_step t (t(scope := add_amount e n (t scope)))"

end
