(* ===== verification/Supply_Properties.thy ===== *)
theory Supply_Properties
  imports Supply
begin

text \<open>
  What the supply ledger guarantees: the assessment is a function of four sums, every state the
  ledger can reach is backed, and a call refines a ledger that keeps only those sums.
\<close>

section \<open>The assessment of an arbitrary list of records\<close>

lemma assess_loop_total:
  assumes "\<forall>r \<in> set rs. atomic_text (su_amount r)"
  shows "\<exists>v' t'. assess_loop seen v t rs = Inr (v @ v', t')
    \<and> (v' = [] \<longleftrightarrow> distinct (map effect_key rs) \<and> set (map effect_key rs) \<inter> set seen = {})"
  using assms
proof (induction rs arbitrary: seen v t)
  case Nil
  then show ?case by simp
next
  case (Cons r rs)
  have all: "\<forall>r \<in> set rs. atomic_text (su_amount r)" using Cons.prems by simp
  show ?case
  proof (cases "effect_key r \<in> set seen")
    case True
    then show ?thesis
      using Cons.IH [OF all, of seen "v @ [''DUPLICATE_OPERATION_EFFECT'']" t] by auto
  next
    case False
    then show ?thesis
      using Cons.prems Cons.IH [OF all, of "effect_key r # seen" v "add_amount (su_effect r) (amount_of r) t"]
      by (auto simp: parse_atomic_amount_def amount_of_def)
  qed
qed

lemma assess_outcome:
  assumes "\<forall>r \<in> set rs. atomic_text (su_amount r)"
  shows "\<exists>a. assess assetId rep rs at = Inr a
    \<and> (sa_outcome a = VALID \<longleftrightarrow> distinct (map effect_key rs) \<and> sound_sums (sums_of rs))"
proof (cases "distinct (map effect_key rs)")
  case True
  then show ?thesis using assms assess_clean [of rs assetId rep at] by (auto simp: clean_def)
next
  case False
  then obtain v t where "assess_loop [] [] \<lparr>sum_locked = 0, sum_minted = 0, sum_burned = 0, sum_released = 0\<rparr> rs = Inr (v, t)"
    "v \<noteq> []"
    using assess_loop_total [OF assms, of "[]" "[]" "\<lparr>sum_locked = 0, sum_minted = 0, sum_burned = 0, sum_released = 0\<rparr>"]
    by auto
  then show ?thesis using False by (simp add: assess_def Let_def del: bind_result_Inr_iff)
qed

lemma distinct_keys: "distinct (map effect_key rs) \<longleftrightarrow> distinct (map (\<lambda>r. (su_operationId r, su_effect r)) rs)"
  by (induction rs) (auto simp: effect_key_inject image_iff)

lemma effect_total_mset:
  assumes "mset rs = mset rs'"
  shows "effect_total e rs = effect_total e rs'"
proof -
  have "effect_total e xs = sum_mset (image_mset amount_of (filter_mset (\<lambda>r. su_effect r = e) (mset xs)))" for xs
    by (simp add: effect_total_def flip: mset_filter mset_map sum_mset_sum_list)
  then show ?thesis using assms by simp
qed

lemma sums_of_mset: "mset rs = mset rs' \<Longrightarrow> sums_of rs = sums_of rs'"
  using effect_total_mset [of rs rs'] by (simp add: sums_of_def)

section \<open>Concrete effects\<close>

definition sample_effect :: "supply_effect \<Rightarrow> nat \<Rightarrow> supply_effect_record" where
  "sample_effect e n = \<lparr>su_operationId = ''IW:BRIDGE:1'', su_effect = e, su_assetId = ''IW:ASSET:gold'',
     su_representationId = ''rep'', su_amount = nat_to_string n, su_evidenceId = ''ev'',
     su_finalizedAt = ''2025-01-01T00:00:00.000Z''\<rparr>"

definition sample_supply_env :: "(supply_effect_record \<Rightarrow> supply_effect_record \<Rightarrow> bool) \<Rightarrow> supply_env" where
  "sample_supply_env same = \<lparr>se_pg_ts = Some, se_le = (\<lambda>_ _. True), se_same_text = same\<rparr>"

lemma sample_time [simp]: "date_parse ''2025-01-01T00:00:00.000Z'' = Some 1735689600000"
  by code_simp

lemma sample_effect_checked [simp]: "0 < n \<Longrightarrow> assert_record (sample_effect e n) = Inr ()"
  by (simp add: assert_record_def sample_effect_def starts_with_def)

section \<open>One call of the ledger\<close>

lemma supply_record_run:
  "assert_record r = Inr () \<Longrightarrow> supply_record env (Some t) r db =
     (case append_validated env r (to_iso_string t) db of
        (Inl e, db') \<Rightarrow> (Inl e, db')
      | (Inr (p, rs), db') \<Rightarrow> (map_sum (\<lambda>e. e) (Pair p) (assess (su_assetId r) (su_representationId r) rs (to_iso_string t)), db'))"
  by (simp add: supply_record_def and_then_def iso_string_def split: sum.split prod.split)

lemma append_validated_fresh:
  assumes wf: "supply_wf db" and ok: "assert_record r = Inr ()" and new: "\<not> known_effect r db"
    and ts: "se_pg_ts env (su_finalizedAt r) = Some x"
  shows "if sound_sums (add_amount (su_effect r) (amount_of r) (scope_sums db (scope_of r)))
    then append_validated env r at db
      = (Inr (INSERTED, supply_list env (su_assetId r) (su_representationId r) db @ [r]), db @ [supply_row_of r x])
    else \<exists>m. append_validated env r at db = (Inl (RegistryError CONFLICT m), db)"
proof -
  have none: "find (\<lambda>item. su_operationId item = su_operationId r \<and> su_effect item = su_effect r)
      (supply_list env (su_assetId r) (su_representationId r) db) = None"
    using prior_known [OF wf, of r env] new by (cases "find (\<lambda>item. su_operationId item = su_operationId r \<and> su_effect item = su_effect r)
      (supply_list env (su_assetId r) (su_representationId r) db)") auto
  obtain a where a: "assess (su_assetId r) (su_representationId r)
      (supply_list env (su_assetId r) (su_representationId r) db @ [r]) at = Inr a"
    "sa_outcome a = VALID \<longleftrightarrow> sound_sums (add_amount (su_effect r) (amount_of r) (scope_sums db (scope_of r)))"
    using assess_clean [OF candidate_clean [OF wf ok new, of env "su_assetId r" "su_representationId r"],
        of "su_assetId r" "su_representationId r" at] sums_of_candidate [of env r db] by auto
  show ?thesis
    using none a new ts
    by (cases "sa_outcome a") (auto simp: append_validated_def transaction_def Let_def and_then_def insert_supply_fresh)
qed

lemma stored_prior:
  assumes wf: "supply_wf db" and stored: "r \<in> sr_record ` set db"
  shows "find (\<lambda>item. su_operationId item = su_operationId r \<and> su_effect item = su_effect r)
    (supply_list env (su_assetId r) (su_representationId r) db) = Some r"
proof -
  have mem: "r \<in> set (supply_list env (su_assetId r) (su_representationId r) db)"
    using assms by (auto simp: supply_list_scope scope_records_def supply_wf_def row_sound_def image_iff)
  have "distinct (map effect_key (supply_list env (su_assetId r) (su_representationId r) db))"
    using supply_list_clean [OF wf] by (simp add: clean_def)
  with mem show ?thesis
    by (intro find_by_key [where f = effect_key]) (auto simp: effect_key_inject)
qed

lemma add_amount_changes: "0 < n \<Longrightarrow> add_amount e n t \<noteq> t"
  by (cases t; cases e) (simp_all add: add_amount_def)

section \<open>A reachable ledger\<close>

definition sample_ledger :: supply_db where
  "sample_ledger = [supply_row_of (sample_effect LOCK_EFFECT 5) ''2025-01-01T00:00:00.000Z'']"

lemma amount_of_sample [simp]: "amount_of (sample_effect e n) = n"
  by (simp add: amount_of_def sample_effect_def)

lemma sample_scope [simp]:
  "scope_of (sample_effect e n) = (''IW:ASSET:gold'', ''rep'')" "su_effect (sample_effect e n) = e"
  by (simp_all add: scope_of_def sample_effect_def)

lemma sample_ledger_steps [simp]: "supply_steps sample_ledger"
proof -
  have "sound_sums (add_amount LOCK_EFFECT 5 (scope_sums [] scope))" for scope
    by (simp add: scope_sums_def scope_records_def sums_of_def sound_sums_def add_amount_def)
  moreover have "se_pg_ts (sample_supply_env (=)) (su_finalizedAt (sample_effect LOCK_EFFECT 5)) = Some ''2025-01-01T00:00:00.000Z''"
    by (simp add: sample_supply_env_def sample_effect_def)
  ultimately have "\<exists>res. supply_record (sample_supply_env (=)) (Some 0) (sample_effect LOCK_EFFECT 5) [] = (res, sample_ledger)"
    using append_validated_fresh [OF supply_reachable_wf [OF supply_empty] sample_effect_checked [of 5 LOCK_EFFECT],
        of "sample_supply_env (=)" "''2025-01-01T00:00:00.000Z''" "to_iso_string 0"]
    by (simp add: supply_record_run known_effect_def sample_ledger_def)
  then show ?thesis using supply_more [OF supply_empty] by blast
qed

lemma sample_ledger_sums:
  "scope_sums sample_ledger (''IW:ASSET:gold'', ''rep'')
     = \<lparr>sum_locked = 5, sum_minted = 0, sum_burned = 0, sum_released = 0\<rparr>"
  using amount_of_sample [of LOCK_EFFECT 5]
  by (simp add: scope_sums_def scope_records_def sums_of_def sample_ledger_def supply_row_of_def sample_effect_def)

section \<open>Properties\<close>

text \<open>
  C12. However the ledger was used, the assessment of every asset and representation succeeds, finds
  no violation, and the stored effects satisfy released \<open>\<le>\<close> burned \<open>\<le>\<close> minted \<open>\<le>\<close> locked: the supply of
  a representation never exceeds the backing that is still locked.
\<close>

theorem supply_stays_backed:
  assumes "supply_steps db" "\<not> blank rep"
  shows "\<exists>a. supply_assess env (Some t) asset rep db = (Inr a, db) \<and> sa_outcome a = VALID \<and> sa_violations a = []
    \<and> (let total = (\<lambda>e. effect_total e (supply_list env asset rep db)) in
        total RELEASE_EFFECT \<le> total BURN_EFFECT \<and> total BURN_EFFECT \<le> total MINT_EFFECT
        \<and> total MINT_EFFECT \<le> total LOCK_EFFECT
        \<and> total MINT_EFFECT - total BURN_EFFECT \<le> total LOCK_EFFECT - total RELEASE_EFFECT)"
proof -
  have wf: "supply_wf db" by (rule supply_reachable_wf) (rule assms)
  have sound: "sound_sums (sums_of (supply_list env asset rep db))"
    using wf by (simp add: supply_list_scope supply_wf_def scope_sums_def)
  then show ?thesis
    using assess_clean [OF supply_list_clean [OF wf, of env asset rep], of asset rep "to_iso_string t"] assms(2)
      sum_violations_sound [of "sums_of (supply_list env asset rep db)"]
    by (auto simp: supply_assess_def and_then_def iso_string_def sound_sums_def sums_of_def Let_def)
qed

theorem supply_stays_backed_witness:
  "\<exists>a. supply_assess (sample_supply_env (=)) (Some 0) ''IW:ASSET:gold'' ''rep'' sample_ledger = (Inr a, sample_ledger)
     \<and> sa_outcome a = VALID"
  using supply_stays_backed [OF sample_ledger_steps, of "''rep''" "sample_supply_env (=)" 0 "''IW:ASSET:gold''"]
  by (auto simp: js_space_def)

text \<open>
  C13. The assessment depends only on which effects there are, not on their order, and it is VALID
  exactly if no operation has the same effect twice and released \<open>\<le>\<close> burned \<open>\<le>\<close> minted \<open>\<le>\<close> locked.
\<close>

theorem assess_valid_iff:
  assumes "\<forall>r \<in> set rs. atomic_text (su_amount r)" "mset rs' = mset rs"
  shows "\<exists>a a'. assess_supply_effects asset rep rs at = Inr a \<and> assess_supply_effects asset rep rs' at = Inr a'
    \<and> sa_outcome a' = sa_outcome a
    \<and> (sa_outcome a = VALID \<longleftrightarrow> distinct (map (\<lambda>r. (su_operationId r, su_effect r)) rs)
        \<and> effect_total RELEASE_EFFECT rs \<le> effect_total BURN_EFFECT rs
        \<and> effect_total BURN_EFFECT rs \<le> effect_total MINT_EFFECT rs
        \<and> effect_total MINT_EFFECT rs \<le> effect_total LOCK_EFFECT rs)"
proof -
  have sets: "set rs' = set rs" using assms(2) by (rule mset_eq_setD)
  have "distinct (map effect_key rs') \<longleftrightarrow> distinct (map effect_key rs)"
    using assms(2) by (metis mset_eq_imp_distinct_iff mset_map)
  moreover have "sums_of rs' = sums_of rs" using assms(2) by (rule sums_of_mset)
  moreover obtain a where a: "assess asset rep rs at = Inr a"
    "sa_outcome a = VALID \<longleftrightarrow> distinct (map effect_key rs) \<and> sound_sums (sums_of rs)"
    using assess_outcome [OF assms(1)] by blast
  moreover obtain a' where a': "assess asset rep rs' at = Inr a'"
    "sa_outcome a' = VALID \<longleftrightarrow> distinct (map effect_key rs') \<and> sound_sums (sums_of rs')"
    using assess_outcome [of rs'] assms(1) sets by metis
  moreover have "sa_outcome a' = sa_outcome a"
    using calculation by (cases "sa_outcome a"; cases "sa_outcome a'") auto
  ultimately show ?thesis
    by (simp add: assess_supply_effects_def distinct_keys sound_sums_def sums_of_def)
qed

theorem assess_valid_iff_witness:
  "\<exists>a. assess_supply_effects ''IW:ASSET:gold'' ''rep'' [sample_effect MINT_EFFECT 3, sample_effect LOCK_EFFECT 5] ''now''
       = Inr a \<and> sa_outcome a = VALID"
  using assess_valid_iff [of "[sample_effect MINT_EFFECT 3, sample_effect LOCK_EFFECT 5]"
      "[sample_effect LOCK_EFFECT 5, sample_effect MINT_EFFECT 3]" "''IW:ASSET:gold''" "''rep''" "''now''"]
  by (auto simp: sample_effect_def amount_of_def)

text \<open>
  C14. The table refines a ledger that keeps four sums per asset and representation: a call leaves
  all sums alone or raises one of them by the amount of the effect, and it raises one exactly if it
  answers INSERTED.
\<close>

theorem supply_record_refines:
  assumes "supply_steps db" "supply_record env now r db = (res, db')"
  shows "sums_step (scope_sums db) (scope_sums db')
    \<and> (scope_sums db' \<noteq> scope_sums db \<longleftrightarrow> (\<exists>a. res = Inr (INSERTED, a)))"
proof -
  have wf: "supply_wf db" by (rule supply_reachable_wf) (rule assms)
  from supply_record_cases [OF wf assms(2)] show ?thesis
  proof (elim disjE exE conjE)
    fix a x assume n: "assert_record r = Inr ()" "res = Inr (INSERTED, a)"
      "sound_sums (add_amount (su_effect r) (amount_of r) (scope_sums db (scope_of r)))" "db' = db @ [supply_row_of r x]"
    have pos: "0 < amount_of r" using assert_record_amount [OF n(1)] by simp
    then have "scope_sums db' \<noteq> scope_sums db"
      unfolding n(4) scope_sums_insert
      by (simp add: fun_upd_idem_iff add_amount_changes [symmetric])
    moreover have "sums_step (scope_sums db) (scope_sums db')"
      unfolding n(4) scope_sums_insert using pos n(3) by (rule sums_raise)
    ultimately show ?thesis using n(2) by simp
  qed (auto intro: sums_keep)
qed

theorem supply_record_refines_witness:
  "sums_step (scope_sums sample_ledger)
     (scope_sums (snd (supply_record (sample_supply_env (=)) (Some 0) (sample_effect MINT_EFFECT 3) sample_ledger)))"
  using supply_record_refines [OF sample_ledger_steps prod.collapse [symmetric]] by blast

text \<open>
  A new, well-formed effect is accepted exactly if the sums stay sound with it: it is then stored
  and answered INSERTED, and otherwise refused as a conflict that leaves the table alone.
\<close>

lemma supply_record_accepts:
  assumes "supply_steps db" "assert_record r = Inr ()" "\<not> known_effect r db"
    and "se_pg_ts env (su_finalizedAt r) = Some x"
  shows "if sound_sums (add_amount (su_effect r) (amount_of r) (scope_sums db (scope_of r)))
    then \<exists>a. supply_record env (Some t) r db = (Inr (INSERTED, a), db @ [supply_row_of r x]) \<and> sa_outcome a = VALID
    else \<exists>m. supply_record env (Some t) r db = (Inl (RegistryError CONFLICT m), db)"
proof -
  have wf: "supply_wf db" by (rule supply_reachable_wf) (rule assms)
  show ?thesis
    using append_validated_fresh [OF wf assms(2-4), of "to_iso_string t"]
      assess_clean [OF candidate_clean [OF wf assms(2,3), of env "su_assetId r" "su_representationId r"],
        of "su_assetId r" "su_representationId r" "to_iso_string t"] sums_of_candidate [of env r db]
    by (auto simp: supply_record_run [OF assms(2)])
qed

text \<open>
  Recording a stored effect again, whatever was recorded since, changes nothing; it answers
  DUPLICATE if the JSON text of the row read back is the text of the record passed, and it is refused
  as a conflict otherwise. The column is \<open>jsonb\<close>, which does not keep the order of the keys, so the
  second case is what an identical retry meets.
\<close>

lemma supply_retry:
  assumes "supply_steps db" "r \<in> sr_record ` set db"
  shows "if se_same_text env r r
    then \<exists>a. supply_record env (Some t) r db = (Inr (DUPLICATE, a), db) \<and> sa_outcome a = VALID
    else \<exists>m. supply_record env (Some t) r db = (Inl (RegistryError CONFLICT m), db)"
proof -
  have wf: "supply_wf db" by (rule supply_reachable_wf) (rule assms)
  have ok: "assert_record r = Inr ()" using wf assms(2) by (auto simp: supply_wf_def row_sound_def)
  have "sound_sums (sums_of (supply_list env (su_assetId r) (su_representationId r) db))"
    using wf by (simp add: supply_list_scope supply_wf_def scope_sums_def)
  then show ?thesis
    using stored_prior [OF wf assms(2), of env] 
      assess_clean [OF supply_list_clean [OF wf, of env "su_assetId r" "su_representationId r"],
        of "su_assetId r" "su_representationId r" "to_iso_string t"]
    by (auto simp: supply_record_run [OF ok] append_validated_def transaction_def Let_def)
qed

end
