(* ===== verification/Record_Store.thy ===== *)
theory Record_Store
  imports Prelude
begin

text \<open>
  Two interfaces several components share. A record store inserts a record under its key once
  (\<open>INSERT .. ON CONFLICT DO NOTHING\<close> with a check of the row count) and never changes it. A record
  service adds an operation that changes such a store by at most one new record, under a key its
  input names. The components that keep immutable records interpret both on their own definitions.
\<close>

text \<open>What any number of calls of an operation can make of a state.\<close>

inductive served :: "('i \<Rightarrow> ('s, 'a) comp) \<Rightarrow> 's \<Rightarrow> 's \<Rightarrow> bool" for serve where
  served_refl [intro]: "served serve s s"
| served_step: "served serve s s' \<Longrightarrow> serve i s' = (res, s'') \<Longrightarrow> served serve s s''"

lemma served_one: "serve i s = (res, s') \<Longrightarrow> served serve s s'"
  by (rule served_step [OF served_refl])

lemma served_trans: "served serve s' s'' \<Longrightarrow> served serve s s' \<Longrightarrow> served serve s s''"
  by (induction rule: served.induct) (auto intro: served_step)

text \<open>The same with the calls that were made, in their order.\<close>

inductive served_log :: "('i \<Rightarrow> ('s, 'a) comp) \<Rightarrow> 's \<Rightarrow> 'i list \<Rightarrow> 's \<Rightarrow> bool" for serve where
  log_refl [intro]: "served_log serve s [] s"
| log_step: "served_log serve s is s' \<Longrightarrow> serve i s' = (res, s'') \<Longrightarrow> served_log serve s (is @ [i]) s''"

lemma served_log_served: "served_log serve s is s' \<Longrightarrow> served serve s s'"
  by (induction rule: served_log.induct) (auto intro: served_step)

lemma served_has_log: "served serve s s' \<Longrightarrow> \<exists>is. served_log serve s is s'"
  by (induction rule: served.induct) (auto intro: log_step)

lemma served_log_one: "serve i s = (res, s') \<Longrightarrow> served_log serve s [i] s'"
  using log_step [OF log_refl] by fastforce

lemma served_log_trans: "served_log serve s' js s'' \<Longrightarrow> served_log serve s is s' \<Longrightarrow> served_log serve s (is @ js) s''"
proof (induction rule: served_log.induct)
  case (log_step s' js t i res t')
  have "served_log serve s ((is @ js) @ [i]) t'"
    by (rule served_log.log_step [OF log_step(3) [OF log_step(4)] log_step(2)])
  then show ?case by simp
qed simp

locale record_store =
  fixes insert_rec :: "'r \<Rightarrow> ('s, unit) comp"
    and find_rec :: "'k \<Rightarrow> 's \<Rightarrow> 'r option"
    and key_of :: "'r \<Rightarrow> 'k"
  assumes insert_fresh: "find_rec (key_of r) s = None \<Longrightarrow>
      \<exists>s'. insert_rec r s = (Inr (), s') \<and> (\<forall>k. find_rec k s' = (if k = key_of r then Some r else find_rec k s))"
    and insert_taken: "find_rec (key_of r) s \<noteq> None \<Longrightarrow> \<exists>e. insert_rec r s = (Inl e, s)"
    and find_key: "find_rec k s = Some r \<Longrightarrow> key_of r = k"
begin

definition grows :: "'s \<Rightarrow> 's \<Rightarrow> bool" where
  "grows s s' \<longleftrightarrow> (\<forall>k r. find_rec k s = Some r \<longrightarrow> find_rec k s' = Some r)"

lemma grows_refl: "grows s s"
  by (simp add: grows_def)

lemma grows_trans: "grows s s' \<Longrightarrow> grows s' s'' \<Longrightarrow> grows s s''"
  by (simp add: grows_def)

lemma growsD: "grows s s' \<Longrightarrow> find_rec k s = Some r \<Longrightarrow> find_rec k s' = Some r"
  by (simp add: grows_def)

lemma insert_Inr:
  assumes "insert_rec r s = (Inr u, s')"
  shows "find_rec (key_of r) s = None"
    and "find_rec k s' = (if k = key_of r then Some r else find_rec k s)"
proof -
  show none: "find_rec (key_of r) s = None"
    using assms insert_taken [of r s] by (cases "find_rec (key_of r) s = None") auto
  show "find_rec k s' = (if k = key_of r then Some r else find_rec k s)"
    using insert_fresh [OF none] assms by auto
qed

lemma insert_Inl:
  assumes "insert_rec r s = (Inl e, s')"
  shows "find_rec (key_of r) s \<noteq> None \<and> s' = s"
  using assms insert_fresh [of r s] insert_taken [of r s] by auto

lemma insert_grows: "insert_rec r s = (res, s') \<Longrightarrow> grows s s'"
  by (cases res) (auto simp: grows_def insert_Inr dest: insert_Inl)

lemma insert_once:
  assumes "insert_rec r s = (Inr u, s')" "grows s' s''" "key_of r2 = key_of r"
  shows "\<exists>e. insert_rec r2 s'' = (Inl e, s'')"
  using assms insert_Inr(2) [OF assms(1), of "key_of r"] growsD insert_taken [of r2 s''] by fastforce

end

locale record_service = record_store insert_rec find_rec key_of
  for insert_rec :: "'r \<Rightarrow> ('s, unit) comp" and find_rec :: "'k \<Rightarrow> 's \<Rightarrow> 'r option" and key_of :: "'r \<Rightarrow> 'k" +
  fixes serve :: "'i \<Rightarrow> ('s, 'a) comp"
    and target :: "'i \<Rightarrow> 'k"
  assumes serve_effect: "serve i s = (res, s') \<Longrightarrow>
      (\<forall>k. find_rec k s' = find_rec k s)
      \<or> find_rec (target i) s = None \<and> (\<exists>r. \<forall>k. find_rec k s' = (if k = target i then Some r else find_rec k s))"
begin

lemma serve_grows: "serve i s = (res, s') \<Longrightarrow> grows s s'"
  using serve_effect [of i s res s'] by (auto simp: grows_def)

lemma served_grows: "served serve s s' \<Longrightarrow> grows s s'"
  by (induction rule: served.induct) (auto intro: grows_refl grows_trans serve_grows)

lemma served_keeps: "served serve s s' \<Longrightarrow> find_rec k s = Some r \<Longrightarrow> find_rec k s' = Some r"
  using served_grows growsD by blast

lemma serve_other: "serve i s = (res, s') \<Longrightarrow> k \<noteq> target i \<Longrightarrow> find_rec k s' = find_rec k s"
  using serve_effect [of i s res s'] by auto

end

text \<open>A table of immutable records: the other columns of a row repeat fields of the record.\<close>

definition table_find :: "('r \<Rightarrow> 'k) \<Rightarrow> 'k \<Rightarrow> 'r list \<Rightarrow> 'r option" where
  "table_find key k rows = find (\<lambda>r. key r = k) rows"

definition table_insert :: "('r \<Rightarrow> 'k) \<Rightarrow> ('r \<Rightarrow> error) \<Rightarrow> 'r \<Rightarrow> ('r list, unit) comp" where
  "table_insert key taken r rows =
     (if table_find key (key r) rows \<noteq> None then (Inl (taken r), rows) else (Inr (), rows @ [r]))"

lemma table_find_key: "table_find key k rows = Some r \<Longrightarrow> key r = k"
  by (auto simp: table_find_def find_Some_iff)

lemma table_find_mem: "table_find key k rows = Some r \<Longrightarrow> r \<in> set rows"
  by (auto simp: table_find_def find_Some_iff)

lemma table_find_snoc:
  "table_find key k (rows @ [r]) = (case table_find key k rows of Some x \<Rightarrow> Some x | None \<Rightarrow> if key r = k then Some r else None)"
  by (induction rows) (auto simp: table_find_def)

lemma table_find_None: "table_find key k rows = None \<longleftrightarrow> k \<notin> key ` set rows"
  by (auto simp: table_find_def find_None_iff)

lemma table_store: "record_store (table_insert key taken) (table_find key) key"
  by unfold_locales (auto simp: table_insert_def table_find_snoc dest: table_find_key split: option.split)

end
