(* ===== verification/Reconciliation.thy ===== *)
theory Reconciliation
  imports Invariants Js_Date Record_Store
begin

text \<open>
  The reconciliation service of packages/core/src/reconciliation-service.ts on the table of
  packages/core/sql/007_reconciliation_checks.sql. The reader, the asset safety controller and the
  alert sink are outside the program: the environment of a call says what they answer, and the state
  logs every call to the controller and the sink with its answer.
\<close>

record supply_snapshot =
  sn_assetId :: interweave_id
  sn_representationId :: interweave_id
  sn_canonicalSupply :: atomic_amount
  sn_sourceCirculatingSupply :: atomic_amount
  sn_sourceLockedBacking :: atomic_amount
  sn_destinationRepresentationSupply :: atomic_amount
  sn_pendingLockAmount :: atomic_amount
  sn_pendingBurnAmount :: atomic_amount
  sn_completedMintAmount :: atomic_amount
  sn_completedBurnAmount :: atomic_amount
  sn_completedReleaseAmount :: atomic_amount
  sn_sourcePosition :: string
  sn_destinationPosition :: string
  sn_sourceEvidence :: "string list"
  sn_destinationEvidence :: "string list"
  sn_observedAt :: iso_timestamp

datatype recon_severity = SEVERITY_NONE | SEVERITY_CRITICAL
datatype recon_resolution = NONE_REQUIRED | OPERATOR_REQUIRED

record reconciliation_check =
  rk_id :: interweave_id
  rk_assetId :: interweave_id
  rk_representationId :: interweave_id
  rk_outcome :: reconciliation_outcome
  rk_severity :: recon_severity
  rk_mismatchCodes :: "string list"
  rk_snapshot :: supply_snapshot
  rk_evidence :: "string list"
  rk_checkedAt :: iso_timestamp
  rk_resolution :: recon_resolution

record recon_input =
  ri_id :: interweave_id
  ri_assetId :: interweave_id
  ri_representationId :: interweave_id
  ri_blockIssuanceOnMismatch :: "bool option"

datatype safety_call =
    Degrade interweave_id string interweave_id
  | BlockIssuance interweave_id string interweave_id
  | CriticalAlert reconciliation_check

record recon_db =
  reconciliation_checks :: "reconciliation_check list"
  safety_calls :: "(safety_call \<times> unit result) list"

record recon_env =
  re_read :: "interweave_id \<Rightarrow> interweave_id \<Rightarrow> supply_snapshot result"
  re_answer :: "safety_call \<Rightarrow> unit result"
  re_now :: js_date

section \<open>Evaluation\<close>

definition recon_evaluate :: "supply_snapshot \<Rightarrow> string list result" where
  "recon_evaluate snapshot =
     bind_result (parse_atomic_amount (sn_canonicalSupply snapshot)) (\<lambda>canonical.
     bind_result (parse_atomic_amount (sn_sourceCirculatingSupply snapshot)) (\<lambda>circulating.
     bind_result (parse_atomic_amount (sn_sourceLockedBacking snapshot)) (\<lambda>locked.
     bind_result (parse_atomic_amount (sn_destinationRepresentationSupply snapshot)) (\<lambda>destination.
     bind_result (parse_atomic_amount (sn_pendingLockAmount snapshot)) (\<lambda>pendingLocks.
     bind_result (parse_atomic_amount (sn_pendingBurnAmount snapshot)) (\<lambda>pendingBurns.
     bind_result (parse_atomic_amount (sn_completedMintAmount snapshot)) (\<lambda>minted.
     bind_result (parse_atomic_amount (sn_completedBurnAmount snapshot)) (\<lambda>burned.
     bind_result (parse_atomic_amount (sn_completedReleaseAmount snapshot)) (\<lambda>released.
       Inr ((if circulating + locked \<noteq> canonical then [''CANONICAL_SUPPLY_MISMATCH''] else [])
         @ (if destination > locked then [''REPRESENTATION_EXCEEDS_BACKING''] else [])
         @ (if burned > minted \<or> int destination \<noteq> int minted - int burned
            then [''DESTINATION_SUPPLY_DIFFERS_FROM_OPERATION_ACCOUNTING''] else [])
         @ (if released > burned then [''RELEASE_EXCEEDS_COMPLETED_BURN''] else [])
         @ (if pendingLocks > canonical then [''PENDING_LOCK_EXCEEDS_CANONICAL_SUPPLY''] else [])
         @ (if pendingBurns > destination then [''PENDING_BURN_EXCEEDS_DESTINATION_SUPPLY''] else [])))))))))))"

definition snapshot_amounts :: "supply_snapshot \<Rightarrow> atomic_amount list" where
  "snapshot_amounts s = [sn_canonicalSupply s, sn_sourceCirculatingSupply s, sn_sourceLockedBacking s,
     sn_destinationRepresentationSupply s, sn_pendingLockAmount s, sn_pendingBurnAmount s,
     sn_completedMintAmount s, sn_completedBurnAmount s, sn_completedReleaseAmount s]"

definition assert_snapshot :: "recon_input \<Rightarrow> supply_snapshot \<Rightarrow> unit result" where
  "assert_snapshot i s =
     (if sn_assetId s \<noteq> ri_assetId i \<or> sn_representationId s \<noteq> ri_representationId i
      then Inl (RegistryError INVALID_ARGUMENT ''reconciliation reader returned mismatched asset scope'')
      else bind_result (for_each parse_atomic_amount (snapshot_amounts s)) (\<lambda>_.
        if blank (sn_sourcePosition s) \<or> blank (sn_destinationPosition s) \<or> sn_sourceEvidence s = []
          \<or> sn_destinationEvidence s = [] \<or> date_parse (sn_observedAt s) = None
        then Inl (RegistryError INVALID_ARGUMENT
          ''reconciliation snapshot requires positions, evidence, and timestamp'')
        else Inr ()))"

section \<open>The service\<close>

definition safety :: "recon_env \<Rightarrow> safety_call \<Rightarrow> (recon_db, unit) comp" where
  "safety env c s = (re_answer env c, s\<lparr>safety_calls := safety_calls s @ [(c, re_answer env c)]\<rparr>)"

definition apply_safety :: "recon_env \<Rightarrow> reconciliation_check \<Rightarrow> bool option \<Rightarrow> (recon_db, unit) comp" where
  "apply_safety env r block =
     (if rk_outcome r \<noteq> MISMATCH then ret ()
      else let reason = join '','' (rk_mismatchCodes r) in
        and_then (safety env (Degrade (rk_assetId r) reason (rk_id r))) (\<lambda>_.
        and_then (if block \<noteq> Some False then safety env (BlockIssuance (rk_assetId r) reason (rk_id r)) else ret ()) (\<lambda>_.
          safety env (CriticalAlert r))))"

definition recon_find :: "interweave_id \<Rightarrow> recon_db \<Rightarrow> reconciliation_check option" where
  "recon_find i s = table_find rk_id i (reconciliation_checks s)"

definition recon_save :: "reconciliation_check \<Rightarrow> (recon_db, unit) comp" where
  "recon_save r s =
     (case table_insert rk_id (\<lambda>r. RegistryError CONFLICT (''reconciliation check is immutable: '' @ rk_id r)) r
         (reconciliation_checks s) of
        (res, rows) \<Rightarrow> (res, s\<lparr>reconciliation_checks := rows\<rparr>))"

definition new_check :: "recon_input \<Rightarrow> supply_snapshot \<Rightarrow> string list \<Rightarrow> iso_timestamp \<Rightarrow> reconciliation_check" where
  "new_check i snapshot mismatchCodes checkedAt =
     (let mismatch = mismatchCodes \<noteq> [] in
      \<lparr>rk_id = ri_id i, rk_assetId = ri_assetId i, rk_representationId = ri_representationId i,
        rk_outcome = (if mismatch then MISMATCH else MATCH),
        rk_severity = (if mismatch then SEVERITY_CRITICAL else SEVERITY_NONE),
        rk_mismatchCodes = mismatchCodes, rk_snapshot = snapshot,
        rk_evidence = sn_sourceEvidence snapshot @ sn_destinationEvidence snapshot
          @ [''sourcePosition='' @ sn_sourcePosition snapshot, ''destinationPosition='' @ sn_destinationPosition snapshot],
        rk_checkedAt = checkedAt,
        rk_resolution = (if mismatch then OPERATOR_REQUIRED else NONE_REQUIRED)\<rparr>)"

definition reconcile :: "recon_env \<Rightarrow> recon_input \<Rightarrow> (recon_db, reconciliation_check) comp" where
  "reconcile env i =
     (if \<not> starts_with (ri_id i) ''IW:RECONCILIATION:'' \<or> \<not> starts_with (ri_representationId i) ''IW:REPRESENTATION:''
      then throw (RegistryError INVALID_ARGUMENT ''valid reconciliation and representation IDs are required'')
      else and_then (gets (recon_find (ri_id i))) (\<lambda>existing.
        case existing of
          Some r \<Rightarrow>
            if rk_assetId r \<noteq> ri_assetId i \<or> rk_representationId r \<noteq> ri_representationId i
            then throw (RegistryError CONFLICT ''reconciliation ID was reused for another asset scope'')
            else and_then (apply_safety env r (ri_blockIssuanceOnMismatch i)) (\<lambda>_. ret r)
        | None \<Rightarrow>
            and_then (lift_result (re_read env (ri_assetId i) (ri_representationId i))) (\<lambda>snapshot.
            and_then (lift_result (assert_snapshot i snapshot)) (\<lambda>_.
            and_then (lift_result (recon_evaluate snapshot)) (\<lambda>mismatchCodes.
            and_then (iso_string (re_now env)) (\<lambda>checkedAt.
            let r = new_check i snapshot mismatchCodes checkedAt in
            and_then (recon_save r) (\<lambda>_.
            and_then (apply_safety env r (ri_blockIssuanceOnMismatch i)) (\<lambda>_. ret r))))))))"

section \<open>The interfaces\<close>

interpretation rc: record_store recon_save recon_find rk_id
proof unfold_locales
  fix r :: reconciliation_check and s
  assume "recon_find (rk_id r) s = None"
  then show "\<exists>s'. recon_save r s = (Inr (), s') \<and> (\<forall>k. recon_find k s' = (if k = rk_id r then Some r else recon_find k s))"
    by (auto simp: recon_save_def recon_find_def table_insert_def table_find_snoc dest: table_find_key split: option.split)
qed (auto simp: recon_save_def recon_find_def table_insert_def dest: table_find_key split: prod.split)

lemma safety_find [simp]: "recon_find k (snd (safety env c s)) = recon_find k s"
  by (simp add: safety_def recon_find_def)

lemma apply_safety_run:
  assumes "apply_safety env r block s = (res, s')"
  shows "reconciliation_checks s' = reconciliation_checks s
    \<and> (rk_outcome r = MATCH \<longrightarrow> res = Inr () \<and> s' = s)
    \<and> (rk_outcome r = MISMATCH \<and> res = Inr () \<longrightarrow>
        (let reason = join '','' (rk_mismatchCodes r) in
         safety_calls s' = safety_calls s @ (Degrade (rk_assetId r) reason (rk_id r), Inr ())
           # (if block \<noteq> Some False then [(BlockIssuance (rk_assetId r) reason (rk_id r), Inr ())] else [])
           @ [(CriticalAlert r, Inr ())]))"
  using assms
  by (cases "rk_outcome r") (auto simp: apply_safety_def and_then_def safety_def Let_def split: sum.splits if_splits)

lemma reconcile_old:
  assumes "recon_find (ri_id i) s = Some r"
  shows "reconcile env i s =
    (if \<not> starts_with (ri_id i) ''IW:RECONCILIATION:'' \<or> \<not> starts_with (ri_representationId i) ''IW:REPRESENTATION:''
     then (Inl (RegistryError INVALID_ARGUMENT ''valid reconciliation and representation IDs are required''), s)
     else if rk_assetId r \<noteq> ri_assetId i \<or> rk_representationId r \<noteq> ri_representationId i
     then (Inl (RegistryError CONFLICT ''reconciliation ID was reused for another asset scope''), s)
     else map_prod (map_sum (\<lambda>e. e) (\<lambda>_. r)) (\<lambda>s. s) (apply_safety env r (ri_blockIssuanceOnMismatch i) s))"
  using assms by (auto simp: reconcile_def and_then_def split: sum.split prod.split)

lemma reconcile_new:
  assumes none: "recon_find (ri_id i) s = None" and run: "reconcile env i s = (res, s')"
  shows "(\<exists>e. res = Inl e \<and> s' = s)
    \<or> (\<exists>snapshot codes t s1 res1. re_read env (ri_assetId i) (ri_representationId i) = Inr snapshot
        \<and> assert_snapshot i snapshot = Inr () \<and> recon_evaluate snapshot = Inr codes
        \<and> recon_save (new_check i snapshot codes (to_iso_string t)) s = (Inr (), s1)
        \<and> apply_safety env (new_check i snapshot codes (to_iso_string t)) (ri_blockIssuanceOnMismatch i) s1 = (res1, s')
        \<and> res = map_sum (\<lambda>e. e) (\<lambda>_. new_check i snapshot codes (to_iso_string t)) res1)"
proof (cases "\<not> starts_with (ri_id i) ''IW:RECONCILIATION:'' \<or> \<not> starts_with (ri_representationId i) ''IW:REPRESENTATION:''")
  case True
  then show ?thesis using run by (intro disjI1) (auto simp: reconcile_def)
next
  case ids: False
  show ?thesis
  proof (cases "re_read env (ri_assetId i) (ri_representationId i)")
    case (Inl e)
    then show ?thesis using run none ids by (auto simp: reconcile_def and_then_def)
  next
    case read: (Inr snapshot)
    show ?thesis
    proof (cases "assert_snapshot i snapshot = Inr () \<and> (\<exists>codes. recon_evaluate snapshot = Inr codes) \<and> re_now env \<noteq> None")
      case False
      then show ?thesis
        using run none ids read
        by (cases "assert_snapshot i snapshot"; cases "recon_evaluate snapshot"; cases "re_now env")
          (auto simp: reconcile_def and_then_def iso_string_def)
    next
      case True
      then obtain codes t where ok: "assert_snapshot i snapshot = Inr ()" "recon_evaluate snapshot = Inr codes"
        "re_now env = Some t" by auto
      let ?r = "new_check i snapshot codes (to_iso_string t)"
      have "rk_id ?r = ri_id i" by (simp add: new_check_def Let_def)
      then obtain s1 where save: "recon_save ?r s = (Inr (), s1)"
        using rc.insert_fresh [of ?r s] none by auto
      obtain res1 s2 where safe: "apply_safety env ?r (ri_blockIssuanceOnMismatch i) s1 = (res1, s2)" by fastforce
      have "res = map_sum (\<lambda>e. e) (\<lambda>_. ?r) res1 \<and> s' = s2"
        using run none ids read ok save safe
        by (cases res1) (auto simp: reconcile_def and_then_def iso_string_def Let_def)
      then show ?thesis using read ok save safe by blast
    qed
  qed
qed

lemma reconcile_newE:
  assumes "recon_find (ri_id i) s = None" "reconcile env i s = (Inr r, s')"
  obtains snapshot codes t s1 u where "re_read env (ri_assetId i) (ri_representationId i) = Inr snapshot"
    "recon_evaluate snapshot = Inr codes" "r = new_check i snapshot codes (to_iso_string t)"
    "recon_save r s = (Inr (), s1)" "apply_safety env r (ri_blockIssuanceOnMismatch i) s1 = (Inr u, s')"
  using reconcile_new [OF assms] by (elim disjE exE conjE) (auto intro: that)

lemma check_id [simp]: "rk_id (new_check i snapshot codes t) = ri_id i"
  by (simp add: new_check_def Let_def)

interpretation rs: record_service recon_save recon_find rk_id "\<lambda>(env, i). reconcile env i" "\<lambda>(env, i). ri_id i"
proof unfold_locales
  fix x :: "recon_env \<times> recon_input" and s s' res
  obtain env i where x: "x = (env, i)" by fastforce
  assume "(case x of (env, i) \<Rightarrow> reconcile env i) s = (res, s')"
  then have run: "reconcile env i s = (res, s')" by (simp add: x)
  have safe: "recon_find k s2 = recon_find k s1" if "apply_safety env r b s1 = (res1, s2)" for r b s1 s2 res1 k
    using apply_safety_run [OF that] by (simp add: recon_find_def)
  show "(\<forall>k. recon_find k s' = recon_find k s) \<or> recon_find (case x of (env, i) \<Rightarrow> ri_id i) s = None
    \<and> (\<exists>r. \<forall>k. recon_find k s' = (if k = (case x of (env, i) \<Rightarrow> ri_id i) then Some r else recon_find k s))"
  proof (cases "recon_find (ri_id i) s")
    case None
    from reconcile_new [OF None run] show ?thesis
      using None by (auto simp: x safe rc.insert_Inr(2))
  next
    case (Some r)
    then show ?thesis
      using run safe by (cases "apply_safety env r (ri_blockIssuanceOnMismatch i) s") (auto simp: reconcile_old split: if_splits)
  qed
qed

section \<open>Properties\<close>

definition acted_on :: "bool option \<Rightarrow> reconciliation_check \<Rightarrow> recon_db \<Rightarrow> recon_db \<Rightarrow> bool" where
  "acted_on block r s s' \<longleftrightarrow>
     (let reason = join '','' (rk_mismatchCodes r) in
      safety_calls s' = safety_calls s @
        (if rk_outcome r = MATCH then []
         else (Degrade (rk_assetId r) reason (rk_id r), Inr ())
           # (if block \<noteq> Some False then [(BlockIssuance (rk_assetId r) reason (rk_id r), Inr ())] else [])
           @ [(CriticalAlert r, Inr ())]))"

lemma apply_safety_acted: "apply_safety env r block s = (Inr u, s') \<Longrightarrow> acted_on block r s s'"
  using apply_safety_run [of env r block s "Inr u" s'] by (cases "rk_outcome r") (auto simp: acted_on_def Let_def)

lemma reconcile_acted:
  assumes "reconcile env i s = (Inr r, s')"
  shows "acted_on (ri_blockIssuanceOnMismatch i) r s s' \<and> recon_find (ri_id i) s' = Some r
    \<and> (recon_find (ri_id i) s = None \<or> recon_find (ri_id i) s = Some r)"
proof (cases "recon_find (ri_id i) s")
  case (Some r')
  then obtain u where run: "apply_safety env r' (ri_blockIssuanceOnMismatch i) s = (Inr u, s')" "r = r'"
    using assms by (auto simp: reconcile_old map_prod_def split: if_splits prod.splits)
  then show ?thesis
    using apply_safety_acted [OF run(1)] apply_safety_run [OF run(1)] Some by (simp add: recon_find_def)
next
  case None
  obtain snapshot codes t s1 u where r: "r = new_check i snapshot codes (to_iso_string t)"
    and save: "recon_save r s = (Inr (), s1)" and safe: "apply_safety env r (ri_blockIssuanceOnMismatch i) s1 = (Inr u, s')"
    by (rule reconcile_newE [OF None assms])
  have "safety_calls s1 = safety_calls s"
    using save by (auto simp: recon_save_def split: prod.splits)
  moreover have "recon_find (ri_id i) s1 = Some r"
    using rc.insert_Inr(2) [OF save, of "ri_id i"] r by simp
  ultimately show ?thesis
    using apply_safety_acted [OF safe] apply_safety_run [OF safe] None
    by (simp add: acted_on_def recon_find_def)
qed

lemma evaluate_Nil:
  assumes "recon_evaluate s = Inr codes"
  shows "codes = [] \<longleftrightarrow> (let amount = (\<lambda>field. digits_to_nat 0 (field s)) in
    amount sn_sourceCirculatingSupply + amount sn_sourceLockedBacking = amount sn_canonicalSupply
    \<and> amount sn_destinationRepresentationSupply \<le> amount sn_sourceLockedBacking
    \<and> amount sn_destinationRepresentationSupply + amount sn_completedBurnAmount = amount sn_completedMintAmount
    \<and> amount sn_completedReleaseAmount \<le> amount sn_completedBurnAmount
    \<and> amount sn_pendingLockAmount \<le> amount sn_canonicalSupply
    \<and> amount sn_pendingBurnAmount \<le> amount sn_destinationRepresentationSupply)"
proof -
  have num: "digits_to_nat 0 x = n" if "parse_atomic_amount x = Inr n" for x n
    using that by (auto simp: parse_atomic_amount_Inr_iff)
  have one: "(if P then [x] else []) = [] \<longleftrightarrow> \<not> P" for P and x :: string by simp
  from assms obtain canonical circulating locked destination pendingLocks pendingBurns minted burned released where
    "parse_atomic_amount (sn_canonicalSupply s) = Inr canonical"
    "parse_atomic_amount (sn_sourceCirculatingSupply s) = Inr circulating"
    "parse_atomic_amount (sn_sourceLockedBacking s) = Inr locked"
    "parse_atomic_amount (sn_destinationRepresentationSupply s) = Inr destination"
    "parse_atomic_amount (sn_pendingLockAmount s) = Inr pendingLocks"
    "parse_atomic_amount (sn_pendingBurnAmount s) = Inr pendingBurns"
    "parse_atomic_amount (sn_completedMintAmount s) = Inr minted"
    "parse_atomic_amount (sn_completedBurnAmount s) = Inr burned"
    "parse_atomic_amount (sn_completedReleaseAmount s) = Inr released"
    unfolding recon_evaluate_def bind_result_Inr_iff by blast
  note parsed = this
  have "codes = [] \<longleftrightarrow> circulating + locked = canonical \<and> destination \<le> locked
      \<and> destination + burned = minted \<and> released \<le> burned \<and> pendingLocks \<le> canonical \<and> pendingBurns \<le> destination"
    using assms unfolding recon_evaluate_def parsed bind_result_simps sum.inject
    by (elim subst) (simp only: append_is_Nil_conv one; linarith)
  then show ?thesis by (simp add: parsed [THEN num] Let_def)
qed

text \<open>
  C15. A new check records what the reader answered, and its outcome is MATCH exactly if circulating
  and locked supply make up the canonical supply, the representation is backed, the destination
  supply is what was minted and not burned, no more was released than burned, and the pending amounts
  fit. The record is stored.
\<close>

theorem reconciliation_outcome_exact:
  assumes "recon_find (ri_id i) s = None" "reconcile env i s = (Inr r, s')"
  shows "recon_find (ri_id i) s' = Some r \<and> re_read env (ri_assetId i) (ri_representationId i) = Inr (rk_snapshot r)
    \<and> (rk_outcome r = MATCH \<longleftrightarrow> (let amount = (\<lambda>field. digits_to_nat 0 (field (rk_snapshot r))) in
        amount sn_sourceCirculatingSupply + amount sn_sourceLockedBacking = amount sn_canonicalSupply
        \<and> amount sn_destinationRepresentationSupply \<le> amount sn_sourceLockedBacking
        \<and> amount sn_destinationRepresentationSupply + amount sn_completedBurnAmount = amount sn_completedMintAmount
        \<and> amount sn_completedReleaseAmount \<le> amount sn_completedBurnAmount
        \<and> amount sn_pendingLockAmount \<le> amount sn_canonicalSupply
        \<and> amount sn_pendingBurnAmount \<le> amount sn_destinationRepresentationSupply))"
proof -
  obtain snapshot codes t where f: "re_read env (ri_assetId i) (ri_representationId i) = Inr snapshot"
    "recon_evaluate snapshot = Inr codes" and r: "r = new_check i snapshot codes (to_iso_string t)"
    by (rule reconcile_newE [OF assms])
  have "rk_outcome r = MATCH \<longleftrightarrow> codes = []" "rk_snapshot r = snapshot"
    by (simp_all add: r new_check_def Let_def)
  then show ?thesis
    using f(1) reconcile_acted [OF assms(2)] evaluate_Nil [OF f(2)] by simp
qed

text \<open>
  C16. A reconciliation that returns has acted on its outcome. On a match it called nothing. On a mismatch it
  degraded the asset and then raised the critical alert, each accepted, and in between, unless this very call opted out with
  \<open>blockIssuanceOnMismatch: false\<close> as ADR 0021 allows, it blocked the issuance of the asset, also accepted. Asking again under
  the same id, after any other calls, returns the same immutable record and acts again in the same way.
\<close>

theorem mismatch_always_acted_on:
  assumes "reconcile env i s = (Inr r, s1)"
    and "served (\<lambda>(env, i). reconcile env i) s1 s2" "reconcile env' i s2 = (Inr r', s3)"
  shows "r' = r \<and> acted_on (ri_blockIssuanceOnMismatch i) r s s1 \<and> acted_on (ri_blockIssuanceOnMismatch i) r s2 s3"
proof -
  have "recon_find (ri_id i) s2 = Some r"
    using rs.served_keeps [OF assms(2)] reconcile_acted [OF assms(1)] by blast
  then show ?thesis using reconcile_acted [OF assms(1)] reconcile_acted [OF assms(3)] by auto
qed

section \<open>A concrete mismatch\<close>

definition sample_snapshot :: supply_snapshot where
  "sample_snapshot = \<lparr>sn_assetId = ''IW:ASSET:gold'', sn_representationId = ''IW:REPRESENTATION:gold'',
     sn_canonicalSupply = ''10'', sn_sourceCirculatingSupply = ''6'', sn_sourceLockedBacking = ''4'',
     sn_destinationRepresentationSupply = ''5'', sn_pendingLockAmount = ''0'', sn_pendingBurnAmount = ''0'',
     sn_completedMintAmount = ''5'', sn_completedBurnAmount = ''0'', sn_completedReleaseAmount = ''0'',
     sn_sourcePosition = ''s'', sn_destinationPosition = ''d'', sn_sourceEvidence = [''a''],
     sn_destinationEvidence = [''b''], sn_observedAt = ''2025-01-01T00:00:00Z''\<rparr>"

definition sample_recon_env :: recon_env where
  "sample_recon_env = \<lparr>re_read = (\<lambda>_ _. Inr sample_snapshot), re_answer = (\<lambda>_. Inr ()), re_now = Some 0\<rparr>"

definition sample_recon_input :: recon_input where
  "sample_recon_input = \<lparr>ri_id = ''IW:RECONCILIATION:1'', ri_assetId = ''IW:ASSET:gold'',
     ri_representationId = ''IW:REPRESENTATION:gold'', ri_blockIssuanceOnMismatch = None\<rparr>"

definition empty_recon :: recon_db where
  "empty_recon = \<lparr>reconciliation_checks = [], safety_calls = []\<rparr>"

definition sample_check :: reconciliation_check where
  "sample_check = new_check sample_recon_input sample_snapshot [''REPRESENTATION_EXCEEDS_BACKING''] (to_iso_string 0)"

lemma sample_reconciled:
  "\<exists>s'. reconcile sample_recon_env sample_recon_input empty_recon = (Inr sample_check, s')"
proof -
  have "assert_snapshot sample_recon_input sample_snapshot = Inr ()" by code_simp
  moreover have "recon_evaluate sample_snapshot = Inr [''REPRESENTATION_EXCEEDS_BACKING'']" by code_simp
  moreover have "starts_with (ri_id sample_recon_input) ''IW:RECONCILIATION:''"
    "starts_with (ri_representationId sample_recon_input) ''IW:REPRESENTATION:''" by code_simp+
  ultimately show ?thesis
    by (simp add: reconcile_def and_then_def sample_recon_env_def iso_string_def recon_find_def empty_recon_def
        table_find_def recon_save_def table_insert_def apply_safety_def safety_def Let_def sample_check_def)
qed

theorem reconciliation_outcome_exact_witness: "rk_outcome sample_check \<noteq> MATCH"
proof -
  obtain s' where run: "reconcile sample_recon_env sample_recon_input empty_recon = (Inr sample_check, s')"
    using sample_reconciled by blast
  have "recon_find (ri_id sample_recon_input) empty_recon = None"
    by (simp add: recon_find_def empty_recon_def table_find_def)
  from reconciliation_outcome_exact [OF this run] show ?thesis
    by (auto simp: sample_recon_env_def sample_snapshot_def sample_check_def new_check_def Let_def digit_val_def)
qed

theorem mismatch_always_acted_on_witness:
  "\<exists>s' s''. reconcile sample_recon_env sample_recon_input empty_recon = (Inr sample_check, s')
     \<and> reconcile sample_recon_env sample_recon_input s' = (Inr sample_check, s'') \<and> acted_on None sample_check s' s''"
proof -
  obtain s' where run: "reconcile sample_recon_env sample_recon_input empty_recon = (Inr sample_check, s')"
    using sample_reconciled by blast
  have found: "recon_find (ri_id sample_recon_input) s' = Some sample_check" using reconcile_acted [OF run] by blast
  have "\<exists>s''. reconcile sample_recon_env sample_recon_input s' = (Inr sample_check, s'')"
    by (simp add: reconcile_old [OF found] apply_safety_def and_then_def safety_def sample_recon_env_def Let_def
        sample_check_def new_check_def) (simp add: sample_recon_input_def starts_with_def)
  then obtain s'' where again: "reconcile sample_recon_env sample_recon_input s' = (Inr sample_check, s'')" by blast
  show ?thesis
    using run again mismatch_always_acted_on [OF run served_refl again] by (auto simp: sample_recon_input_def)
qed

end
