(* ===== verification/Finality.thy ===== *)
theory Finality
  imports Model Js_Date Record_Store
begin

text \<open>
  The finality service of packages/core/src/finality-service.ts on the table of
  packages/core/sql/004_finality_assessments.sql. \<open>num_text\<close> is what a template prints for a number.
\<close>

datatype receipt_status = RECEIPT_SUCCESS | RECEIPT_REVERTED
datatype completion_status = COMMITTED | COMMAND_REJECTED | COMPLETION_UNKNOWN

record evm_observation =
  eo_networkId :: interweave_id
  eo_chainId :: string
  eo_transactionId :: string
  eo_receiptStatus :: receipt_status
  eo_transactionBlockNumber :: string
  eo_transactionBlockHash :: string
  eo_canonicalBlockHash :: string
  eo_observedHead :: string
  eo_confirmations :: js_number
  eo_includedInFinalizedChain :: bool
  eo_finalizedBlockNumber :: "string option"
  eo_finalizedBlockHash :: "string option"
  eo_provider :: string
  eo_observedAt :: iso_timestamp

record canton_observation =
  co_networkId :: interweave_id
  co_transactionId :: string
  co_status :: completion_status
  co_completionOffset :: "string option"
  co_updateId :: "string option"
  co_synchronizerId :: "string option"
  co_participantId :: string
  co_partyScope :: "string list"
  co_observedAt :: iso_timestamp

datatype finality_observation = EvmObservation evm_observation | CantonObservation canton_observation

record finality_config =
  fc_networkId :: interweave_id
  fc_networkType :: network_type
  fc_chainId :: "string option"
  fc_policy :: finality_policy
  fc_enabled :: bool

datatype finality_outcome = FINAL_SATISFIED | FINAL_PENDING | FINAL_REJECTED | FINAL_UNCERTAIN

record final_evaluation =
  fe_outcome :: finality_outcome
  fe_reasonCodes :: "string list"
  fe_observedPosition :: string
  fe_evidence :: "string list"

record finality_assessment =
  fa_id :: interweave_id
  fa_networkId :: interweave_id
  fa_networkType :: network_type
  fa_transactionId :: string
  fa_policy :: finality_policy
  fa_outcome :: finality_outcome
  fa_reasonCodes :: "string list"
  fa_observedPosition :: string
  fa_evidence :: "string list"
  fa_observation :: finality_observation
  fa_assessedAt :: iso_timestamp

record finality_input =
  fi_id :: interweave_id
  fi_transactionId :: string
  fi_observation :: finality_observation

fun ob_networkId :: "finality_observation \<Rightarrow> interweave_id" where
  "ob_networkId (EvmObservation e) = eo_networkId e"
| "ob_networkId (CantonObservation c) = co_networkId c"

fun ob_transactionId :: "finality_observation \<Rightarrow> string" where
  "ob_transactionId (EvmObservation e) = eo_transactionId e"
| "ob_transactionId (CantonObservation c) = co_transactionId c"

fun ob_observedAt :: "finality_observation \<Rightarrow> iso_timestamp" where
  "ob_observedAt (EvmObservation e) = eo_observedAt e"
| "ob_observedAt (CantonObservation c) = co_observedAt c"

fun ob_kind :: "finality_observation \<Rightarrow> network_type" where
  "ob_kind (EvmObservation e) = EVM"
| "ob_kind (CantonObservation c) = CANTON"

section \<open>Evaluation\<close>

fun observation_evidence :: "(js_number \<Rightarrow> string) \<Rightarrow> finality_observation \<Rightarrow> string list" where
  "observation_evidence num_text (EvmObservation e) =
     [''provider='' @ eo_provider e, ''chainId='' @ eo_chainId e,
      ''transactionBlock='' @ eo_transactionBlockNumber e @ '':'' @ eo_transactionBlockHash e,
      ''canonicalBlockHash='' @ eo_canonicalBlockHash e, ''confirmations='' @ num_text (eo_confirmations e),
      ''finalizedBlock='' @ or_else (eo_finalizedBlockNumber e) ''none'' @ '':'' @ or_else (eo_finalizedBlockHash e) ''none'']"
| "observation_evidence num_text (CantonObservation c) =
     [''participant='' @ co_participantId c, ''partyScope='' @ join '','' (js_sort (co_partyScope c)),
      ''completionOffset='' @ or_else (co_completionOffset c) ''none'', ''updateId='' @ or_else (co_updateId c) ''none'',
      ''synchronizerId='' @ or_else (co_synchronizerId c) ''none'']"

definition evaluation ::
  "(js_number \<Rightarrow> string) \<Rightarrow> finality_outcome \<Rightarrow> string list \<Rightarrow> string \<Rightarrow> finality_observation \<Rightarrow> final_evaluation" where
  "evaluation num_text outcome reasonCodes position observation =
     \<lparr>fe_outcome = outcome, fe_reasonCodes = reasonCodes, fe_observedPosition = position,
       fe_evidence = observation_evidence num_text observation\<rparr>"

definition evaluate_evm ::
  "(js_number \<Rightarrow> string) \<Rightarrow> finality_policy \<Rightarrow> evm_observation \<Rightarrow> string option \<Rightarrow> final_evaluation" where
  "evaluate_evm num_text policy ob expectedChainId =
     (let eval = (\<lambda>outcome reasons position. evaluation num_text outcome reasons position (EvmObservation ob));
          block = eo_transactionBlockNumber ob
      in case policy of
        EVM_CONFIRMATIONS confirmations requireFinalizedTag \<Rightarrow>
          if \<not> truthy expectedChainId \<or> Some (eo_chainId ob) \<noteq> expectedChainId
          then eval FINAL_REJECTED [''CHAIN_ID_MISMATCH''] block
          else if eo_receiptStatus ob = RECEIPT_REVERTED then eval FINAL_REJECTED [''TRANSACTION_REVERTED''] block
          else if lower (eo_transactionBlockHash ob) \<noteq> lower (eo_canonicalBlockHash ob)
          then eval FINAL_UNCERTAIN [''BLOCK_NOT_CANONICAL''] block
          else if not_safe_at_least (eo_confirmations ob) 0
          then eval FINAL_REJECTED [''INVALID_CONFIRMATION_EVIDENCE''] block
          else let reasons =
              (if num_val (eo_confirmations ob) < num_val confirmations then [''CONFIRMATIONS_PENDING''] else [])
              @ (if requireFinalizedTag \<and> (\<not> eo_includedInFinalizedChain ob \<or> \<not> truthy (eo_finalizedBlockNumber ob)
                    \<or> \<not> truthy (eo_finalizedBlockHash ob))
                 then [''FINALIZED_TAG_PENDING''] else []);
            position = (if eo_includedInFinalizedChain ob \<and> truthy (eo_finalizedBlockNumber ob)
              then ''finalized:'' @ or_else (eo_finalizedBlockNumber ob) '''' else ''head:'' @ eo_observedHead ob)
          in eval (if reasons \<noteq> [] then FINAL_PENDING else FINAL_SATISFIED) reasons position
      | _ \<Rightarrow> eval FINAL_REJECTED [''POLICY_TYPE_MISMATCH''] block)"

definition evaluate_canton ::
  "(js_number \<Rightarrow> string) \<Rightarrow> finality_policy \<Rightarrow> canton_observation \<Rightarrow> final_evaluation" where
  "evaluate_canton num_text policy c =
     (let eval = (\<lambda>outcome reasons position. evaluation num_text outcome reasons position (CantonObservation c));
          offset = or_else (co_completionOffset c) ''unknown''
      in case policy of
        CANTON_COMPLETION synchronizer \<Rightarrow>
          if co_partyScope c = [] then eval FINAL_REJECTED [''PARTY_SCOPE_REQUIRED''] offset
          else if co_status c = COMMAND_REJECTED then eval FINAL_REJECTED [''COMMAND_REJECTED''] offset
          else if co_status c = COMPLETION_UNKNOWN then eval FINAL_PENDING [''COMPLETION_PENDING''] offset
          else if \<not> truthy (co_completionOffset c) \<or> \<not> truthy (co_updateId c)
          then eval FINAL_UNCERTAIN [''COMPLETION_EVIDENCE_INCOMPLETE''] offset
          else if truthy synchronizer \<and> co_synchronizerId c \<noteq> synchronizer
          then eval FINAL_REJECTED [''SYNCHRONIZER_MISMATCH''] offset
          else eval FINAL_SATISFIED [] (''participant:'' @ co_participantId c @ '':offset:'' @ offset)
      | _ \<Rightarrow> eval FINAL_REJECTED [''POLICY_TYPE_MISMATCH''] offset)"

definition assert_common :: "finality_input \<Rightarrow> finality_config \<Rightarrow> string \<Rightarrow> unit result" where
  "assert_common i c assessedAt =
     (if \<not> has_prefix_id (fi_id i) ''IW:FINALITY:''
      then Inl (RegistryError INVALID_ARGUMENT ''invalid finality assessment ID'')
      else if blank (fi_transactionId i) \<or> fi_transactionId i \<noteq> ob_transactionId (fi_observation i)
      then Inl (RegistryError INVALID_ARGUMENT ''finality transaction ID mismatch'')
      else if fc_networkType c \<noteq> ob_kind (fi_observation i)
      then Inl (RegistryError INVALID_ARGUMENT ''finality network type mismatch'')
      else if date_parse (ob_observedAt (fi_observation i)) = None \<or> date_parse assessedAt = None
      then Inl (RegistryError INVALID_ARGUMENT ''invalid finality timestamp'')
      else case fc_policy c of
        EVM_CONFIRMATIONS confirmations _ \<Rightarrow>
          if not_safe_at_least confirmations 1
          then Inl (RegistryError INVALID_ARGUMENT ''EVM finality confirmations must be positive'') else Inr ()
      | _ \<Rightarrow> Inr ())"

section \<open>The service\<close>

type_synonym finality_networks = "(interweave_id, finality_config) js_map"

fun configure_networks :: "finality_networks \<Rightarrow> finality_config list \<Rightarrow> finality_networks result" where
  "configure_networks m [] = Inr m"
| "configure_networks m (c # cs) =
     (if map_has m (fc_networkId c)
      then Inl (RegistryError CONFLICT (''duplicate finality network: '' @ fc_networkId c))
      else configure_networks (map_set (fc_networkId c) c m) cs)"

definition finality_service :: "finality_config list \<Rightarrow> finality_networks result" where
  "finality_service networks = configure_networks [] networks"

type_synonym finality_db = "finality_assessment list"

definition finality_find :: "interweave_id \<Rightarrow> finality_db \<Rightarrow> finality_assessment option" where
  "finality_find i db = table_find fa_id i db"

definition finality_save :: "finality_assessment \<Rightarrow> (finality_db, unit) comp" where
  "finality_save a =
     table_insert fa_id (\<lambda>a. RegistryError CONFLICT (''finality assessment is immutable: '' @ fa_id a)) a"

definition finality_evaluated :: "(js_number \<Rightarrow> string) \<Rightarrow> finality_config \<Rightarrow> finality_observation \<Rightarrow> final_evaluation" where
  "finality_evaluated num_text c observation =
     (if \<not> fc_enabled c then evaluation num_text FINAL_REJECTED [''NETWORK_DISABLED''] ''disabled'' observation
      else case observation of
        EvmObservation ob \<Rightarrow> evaluate_evm num_text (fc_policy c) ob (fc_chainId c)
      | CantonObservation ob \<Rightarrow> evaluate_canton num_text (fc_policy c) ob)"

definition finality_assess ::
  "(js_number \<Rightarrow> string) \<Rightarrow> finality_networks \<Rightarrow> js_date \<Rightarrow> finality_input \<Rightarrow> (finality_db, finality_assessment) comp" where
  "finality_assess num_text networks now i =
     and_then (iso_string now) (\<lambda>assessedAt.
       case map_get networks (ob_networkId (fi_observation i)) of
         None \<Rightarrow> throw (RegistryError NOT_FOUND (''finality network not configured: '' @ ob_networkId (fi_observation i)))
       | Some c \<Rightarrow>
           and_then (lift_result (assert_common i c assessedAt)) (\<lambda>_.
             let e = finality_evaluated num_text c (fi_observation i);
                 a = \<lparr>fa_id = fi_id i, fa_networkId = ob_networkId (fi_observation i), fa_networkType = fc_networkType c,
                   fa_transactionId = fi_transactionId i, fa_policy = fc_policy c, fa_outcome = fe_outcome e,
                   fa_reasonCodes = fe_reasonCodes e, fa_observedPosition = fe_observedPosition e,
                   fa_evidence = fe_evidence e, fa_observation = fi_observation i, fa_assessedAt = assessedAt\<rparr>
             in and_then (finality_save a) (\<lambda>_. ret a)))"

section \<open>The interfaces\<close>

interpretation fin: record_store finality_save finality_find fa_id
  unfolding finality_save_def [abs_def] finality_find_def [abs_def] by (rule table_store)

text \<open>A call that returns, and a call that does not.\<close>

lemma finality_assess_Inr:
  assumes "finality_assess num_text networks now i db = (Inr a, db')"
  obtains c t where "now = Some t" "map_get networks (ob_networkId (fi_observation i)) = Some c"
    "assert_common i c (to_iso_string t) = Inr ()" "finality_save a db = (Inr (), db')" "fa_id a = fi_id i"
    "fa_transactionId a = fi_transactionId i" "fa_networkId a = ob_networkId (fi_observation i)"
    "fa_networkType a = fc_networkType c" "fa_policy a = fc_policy c" "fa_observation a = fi_observation i"
    "fa_outcome a = fe_outcome (finality_evaluated num_text c (fi_observation i))"
    "fa_reasonCodes a = fe_reasonCodes (finality_evaluated num_text c (fi_observation i))"
proof -
  obtain t where t: "now = Some t" using assms by (cases now) (auto simp: finality_assess_def and_then_def iso_string_def)
  obtain c where c: "map_get networks (ob_networkId (fi_observation i)) = Some c"
    using assms t by (cases "map_get networks (ob_networkId (fi_observation i))")
      (auto simp: finality_assess_def and_then_def iso_string_def)
  show thesis
    using assms by (intro that [OF t c]) (auto simp: finality_assess_def and_then_def iso_string_def t c Let_def
        split: sum.splits prod.splits)
qed

lemma finality_save_length: "finality_save a db = (Inl e, db') \<Longrightarrow> db' = db"
  using fin.insert_Inl by blast

interpretation fs: record_service finality_save finality_find fa_id
  "\<lambda>((num_text, networks, now), i). finality_assess num_text networks now i" "\<lambda>(_, i). fi_id i"
proof unfold_locales
  fix x :: "((js_number \<Rightarrow> string) \<times> finality_networks \<times> js_date) \<times> finality_input"
    and db db' :: finality_db and res :: "finality_assessment result"
  obtain num_text networks now i where x: "x = ((num_text, networks, now), i)" by (metis prod.exhaust)
  assume "(case x of (xa, i) \<Rightarrow> (case xa of (num_text, networks, now) \<Rightarrow> finality_assess num_text networks now) i) db = (res, db')"
  then have run: "finality_assess num_text networks now i db = (res, db')" by (simp add: x)
  have "(\<forall>k. finality_find k db' = finality_find k db) \<or> finality_find (fi_id i) db = None
    \<and> (\<exists>r. \<forall>k. finality_find k db' = (if k = fi_id i then Some r else finality_find k db))"
  proof (cases res)
    case (Inr a)
    obtain c t where s: "finality_save a db = (Inr (), db')" "fa_id a = fi_id i"
      by (rule finality_assess_Inr [OF run [unfolded Inr]])
    show ?thesis using fin.insert_Inr [OF s(1)] s(2) by auto
  next
    case (Inl e)
    then have "db' = db"
      using run finality_save_length
      by (auto simp: finality_assess_def and_then_def iso_string_def Let_def split: option.splits sum.splits prod.splits)
    then show ?thesis by simp
  qed
  then show "(\<forall>k. finality_find k db' = finality_find k db) \<or> finality_find (case x of (_, i) \<Rightarrow> fi_id i) db = None
    \<and> (\<exists>r. \<forall>k. finality_find k db' = (if k = (case x of (_, i) \<Rightarrow> fi_id i) then Some r else finality_find k db))"
    by (simp add: x)
qed

section \<open>What satisfied means\<close>

text \<open>The specification of finality: the policy of the network, without the order of the checks.\<close>

fun final_by_policy :: "finality_config \<Rightarrow> finality_observation \<Rightarrow> bool" where
  "final_by_policy c (EvmObservation e) \<longleftrightarrow>
     (\<exists>n tag chain m. fc_policy c = EVM_CONFIRMATIONS n tag \<and> fc_chainId c = Some chain \<and> chain \<noteq> []
        \<and> eo_chainId e = chain \<and> eo_receiptStatus e = RECEIPT_SUCCESS
        \<and> lower (eo_transactionBlockHash e) = lower (eo_canonicalBlockHash e)
        \<and> eo_confirmations e = JInt m \<and> is_safe_integer (JInt m) \<and> 1 \<le> num_val n \<and> num_val n \<le> m
        \<and> (tag \<longrightarrow> eo_includedInFinalizedChain e \<and> truthy (eo_finalizedBlockNumber e) \<and> truthy (eo_finalizedBlockHash e)))"
| "final_by_policy c (CantonObservation k) \<longleftrightarrow>
     (\<exists>synchronizer. fc_policy c = CANTON_COMPLETION synchronizer \<and> co_partyScope k \<noteq> [] \<and> co_status k = COMMITTED
        \<and> truthy (co_completionOffset k) \<and> truthy (co_updateId k)
        \<and> (truthy synchronizer \<longrightarrow> co_synchronizerId k = synchronizer))"

lemma evm_satisfied:
  assumes "\<forall>n tag. fc_policy c = EVM_CONFIRMATIONS n tag \<longrightarrow> \<not> not_safe_at_least n 1"
  shows "fe_outcome (evaluate_evm num_text (fc_policy c) e (fc_chainId c)) = FINAL_SATISFIED
    \<longleftrightarrow> final_by_policy c (EvmObservation e)"
  using assms
  by (cases "fc_policy c"; cases "eo_confirmations e"; cases "eo_receiptStatus e"; cases "fc_chainId c")
    (auto simp: evaluate_evm_def evaluation_def Let_def truthy_def not_safe_at_least_def)

lemma canton_satisfied:
  "fe_outcome (evaluate_canton num_text (fc_policy c) k) = FINAL_SATISFIED \<longleftrightarrow> final_by_policy c (CantonObservation k)"
  by (cases "fc_policy c"; cases "co_status k") (auto simp: evaluate_canton_def evaluation_def Let_def)

text \<open>
  C17. An assessment that is recorded is SATISFIED exactly if its network is enabled and the observed
  transaction is final under the policy of that network: enough confirmations of a successful
  transaction in a canonical block on the configured chain, with the finalized tag where required, or
  a committed completion with offset and update on the configured synchronizer. Later calls neither
  change the record nor record another under its identifier.
\<close>

theorem finality_satisfied_iff:
  assumes run: "finality_assess num_text networks now i db = (Inr a, db1)"
    and later: "served (\<lambda>((num_text, networks, now), i). finality_assess num_text networks now i) db1 db2"
  shows "(\<exists>c. map_get networks (fa_networkId a) = Some c \<and> fa_networkType a = ob_kind (fa_observation a)
      \<and> fa_transactionId a = ob_transactionId (fa_observation a)
      \<and> (fa_outcome a = FINAL_SATISFIED \<longleftrightarrow> fc_enabled c \<and> final_by_policy c (fa_observation a)))
    \<and> finality_find (fi_id i) db2 = Some a
    \<and> (\<exists>e. finality_assess num_text networks now i db2 = (Inl e, db2))"
proof -
  obtain c t where f: "now = Some t" "map_get networks (ob_networkId (fi_observation i)) = Some c"
    "assert_common i c (to_iso_string t) = Inr ()" "finality_save a db = (Inr (), db1)" "fa_id a = fi_id i"
    "fa_transactionId a = fi_transactionId i" "fa_networkId a = ob_networkId (fi_observation i)"
    "fa_networkType a = fc_networkType c" "fa_observation a = fi_observation i"
    "fa_outcome a = fe_outcome (finality_evaluated num_text c (fi_observation i))"
    by (rule finality_assess_Inr [OF run])
  have kept: "finality_find (fi_id i) db2 = Some a"
    using fs.served_keeps [OF later] fin.insert_Inr(2) [OF f(4), of "fi_id i"] f(5) by simp
  have again: "\<exists>e. finality_assess num_text networks now i db2 = (Inl e, db2)"
  proof (cases "finality_assess num_text networks now i db2")
    case (Pair res db3)
    show ?thesis
    proof (cases res)
      case (Inl e)
      then show ?thesis using Pair finality_save_length
        by (auto simp: finality_assess_def and_then_def iso_string_def Let_def split: option.splits sum.splits prod.splits)
    next
      case (Inr a')
      obtain c t where "finality_save a' db2 = (Inr (), db3)" "fa_id a' = fi_id i"
        by (rule finality_assess_Inr [OF Pair [unfolded Inr]])
      then show ?thesis using fin.insert_Inr(1) kept by fastforce
    qed
  qed
  have "\<forall>n tag. fc_policy c = EVM_CONFIRMATIONS n tag \<longrightarrow> \<not> not_safe_at_least n 1"
    using f(3) by (auto simp: assert_common_def split: if_splits)
  then have "fa_outcome a = FINAL_SATISFIED \<longleftrightarrow> fc_enabled c \<and> final_by_policy c (fa_observation a)"
    unfolding f(9,10) using evm_satisfied [of c] canton_satisfied [of _ c]
    by (cases "fi_observation i") (auto simp: finality_evaluated_def evaluation_def simp del: final_by_policy.simps)
  then show ?thesis
    using f kept again by (auto simp: assert_common_def split: if_splits)
qed

section \<open>A concrete assessment\<close>

definition sample_evm_observation :: evm_observation where
  "sample_evm_observation = \<lparr>eo_networkId = ''IW:NETWORK:e'', eo_chainId = ''1'', eo_transactionId = ''0xab'',
     eo_receiptStatus = RECEIPT_SUCCESS, eo_transactionBlockNumber = ''7'', eo_transactionBlockHash = ''0xAB'',
     eo_canonicalBlockHash = ''0xab'', eo_observedHead = ''9'', eo_confirmations = JInt 3,
     eo_includedInFinalizedChain = False, eo_finalizedBlockNumber = None, eo_finalizedBlockHash = None,
     eo_provider = ''p'', eo_observedAt = ''2025-01-01T00:00:00Z''\<rparr>"

definition sample_final_networks :: finality_networks where
  "sample_final_networks = [(''IW:NETWORK:e'', \<lparr>fc_networkId = ''IW:NETWORK:e'', fc_networkType = EVM,
     fc_chainId = Some ''1'', fc_policy = EVM_CONFIRMATIONS (JInt 3) False, fc_enabled = True\<rparr>)]"

definition sample_final_input :: finality_input where
  "sample_final_input = \<lparr>fi_id = ''IW:FINALITY:1'', fi_transactionId = ''0xab'',
     fi_observation = EvmObservation sample_evm_observation\<rparr>"

theorem finality_satisfied_iff_witness:
  "\<exists>a db. finality_assess (\<lambda>_. ''n'') sample_final_networks (Some 0) sample_final_input [] = (Inr a, db)
     \<and> fa_outcome a = FINAL_SATISFIED
     \<and> (\<exists>e. finality_assess (\<lambda>_. ''n'') sample_final_networks (Some 0) sample_final_input db = (Inl e, db))"
proof -
  let ?c = "\<lparr>fc_networkId = ''IW:NETWORK:e'', fc_networkType = EVM, fc_chainId = Some ''1'',
     fc_policy = EVM_CONFIRMATIONS (JInt 3) False, fc_enabled = True\<rparr>"
  have c: "map_get sample_final_networks (ob_networkId (fi_observation sample_final_input)) = Some ?c" by code_simp
  have ok: "assert_common sample_final_input ?c (to_iso_string 0) = Inr ()" by code_simp
  obtain a db where run: "finality_assess (\<lambda>_. ''n'') sample_final_networks (Some 0) sample_final_input [] = (Inr a, db)"
    by (simp add: finality_assess_def and_then_def iso_string_def c ok Let_def finality_save_def table_insert_def
        table_find_def)
  have "lower ''0xAB'' = lower ''0xab''" by code_simp
  then have "final_by_policy ?c (EvmObservation sample_evm_observation)"
    by (auto simp: sample_evm_observation_def intro: exI [of _ False])
  moreover obtain c' t' where "fa_networkId a = ob_networkId (fi_observation sample_final_input)"
    "fa_observation a = fi_observation sample_final_input"
    by (rule finality_assess_Inr [OF run])
  ultimately have "fa_outcome a = FINAL_SATISFIED"
    using finality_satisfied_iff [OF run served_refl] 
    by (auto simp: sample_final_networks_def sample_final_input_def sample_evm_observation_def)
  then show ?thesis using finality_satisfied_iff [OF run served_refl] run by blast
qed

end
