(* ===== verification/Canonical_Json.thy ===== *)
theory Canonical_Json
  imports Prelude "HOL-Library.Word" "HOL-Library.Multiset"
begin

text \<open>
  \<open>canonicalJson\<close> of packages/core/src/idempotency.ts on JSON values, the JSON text of a string, and
  the UTF-8 bytes of a text. A finite number is the text JavaScript prints for it, a non-finite one
  has none. The main lemma is that the canonical text determines the value up to the order in which
  the keys of its objects were inserted.
\<close>

datatype json =
    JsNull
  | JsString string
  | JsBool bool
  | JsNumber "string option"
  | JsArray "json list"
  | JsObject "(string \<times> json) list"
  | JsUndefined
  | JsOther string

section \<open>Text of strings\<close>

definition hex_digit :: "nat \<Rightarrow> char" where
  "hex_digit n = (if n < 10 then char_of (n + 48) else char_of (n + 87))"

definition escape_char :: "char \<Rightarrow> string" where
  "escape_char c = (let n = of_char c :: nat in
     if n = 34 then [CHR 0x5C, CHR 0x22]
     else if n = 92 then [CHR 0x5C, CHR 0x5C]
     else if n = 8 then [CHR 0x5C, CHR ''b'']
     else if n = 9 then [CHR 0x5C, CHR ''t'']
     else if n = 10 then [CHR 0x5C, CHR ''n'']
     else if n = 12 then [CHR 0x5C, CHR ''f'']
     else if n = 13 then [CHR 0x5C, CHR ''r'']
     else if n < 32 then [CHR 0x5C, CHR ''u'', CHR ''0'', CHR ''0'', hex_digit (n div 16), hex_digit (n mod 16)]
     else [c])"

definition json_string :: "string \<Rightarrow> string" where
  "json_string s = CHR 0x22 # concat (map escape_char s) @ [CHR 0x22]"

section \<open>canonicalJson\<close>

fun collect :: "'a result list \<Rightarrow> 'a list result" where
  "collect [] = Inr []"
| "collect (r # rs) = bind_result r (\<lambda>x. bind_result (collect rs) (\<lambda>xs. Inr (x # xs)))"

definition key_le :: "string \<times> 'a \<Rightarrow> string \<times> 'a \<Rightarrow> bool" where
  "key_le a b = string_le (fst a) (fst b)"

fun canonical_json :: "json \<Rightarrow> string result"
  and canonical_list :: "json list \<Rightarrow> string result list"
  and canonical_fields :: "(string \<times> json) list \<Rightarrow> (string \<times> string result) list" where
  "canonical_json JsNull = Inr ''null''"
| "canonical_json (JsString s) = Inr (json_string s)"
| "canonical_json (JsBool b) = Inr (if b then ''true'' else ''false'')"
| "canonical_json (JsNumber n) = (case n of
     None \<Rightarrow> Inl (RegistryError INVALID_ARGUMENT ''idempotency payload contains a non-finite number'')
   | Some t \<Rightarrow> Inr t)"
| "canonical_json (JsArray vs) = bind_result (collect (canonical_list vs)) (\<lambda>ts. Inr (''['' @ join '','' ts @ '']''))"
| "canonical_json (JsObject fields) =
     (if JsUndefined \<in> snd ` set fields
      then Inl (RegistryError INVALID_ARGUMENT ''idempotency payload contains undefined'')
      else bind_result (collect (map (\<lambda>(k, r). bind_result r (\<lambda>t. Inr (json_string k @ '':'' @ t)))
          (sort_by key_le (canonical_fields fields)))) (\<lambda>ts. Inr (''{'' @ join '','' ts @ ''}'')))"
| "canonical_json JsUndefined =
     Inl (RegistryError INVALID_ARGUMENT ''idempotency payload contains unsupported type: undefined'')"
| "canonical_json (JsOther t) =
     Inl (RegistryError INVALID_ARGUMENT (''idempotency payload contains unsupported type: '' @ t))"
| "canonical_list [] = []"
| "canonical_list (v # vs) = canonical_json v # canonical_list vs"
| "canonical_fields [] = []"
| "canonical_fields ((k, v) # fields) = (k, canonical_json v) # canonical_fields fields"

section \<open>Bytes\<close>

text \<open>UTF-8 of the code units 0 to 255.\<close>

definition utf8_char :: "char \<Rightarrow> 8 word list" where
  "utf8_char c = (let n = of_char c :: nat in
     if n < 128 then [of_nat n] else [of_nat (192 + n div 64), of_nat (128 + n mod 64)])"

definition utf8 :: "string \<Rightarrow> 8 word list" where
  "utf8 s = concat (map utf8_char s)"

section \<open>The canonical text as a function of the sorted value\<close>

fun json_text :: "json \<Rightarrow> string" where
  "json_text JsNull = ''null''"
| "json_text (JsString s) = json_string s"
| "json_text (JsBool b) = (if b then ''true'' else ''false'')"
| "json_text (JsNumber n) = or_else n []"
| "json_text (JsArray vs) = ''['' @ join '','' (map json_text vs) @ '']''"
| "json_text (JsObject fields) = ''{'' @ join '','' (map (\<lambda>(k, v). json_string k @ '':'' @ json_text v) fields) @ ''}''"
| "json_text JsUndefined = []"
| "json_text (JsOther t) = []"

fun normal_json :: "json \<Rightarrow> json" where
  "normal_json (JsArray vs) = JsArray (map normal_json vs)"
| "normal_json (JsObject fields) = JsObject (sort_by key_le (map (\<lambda>(k, v). (k, normal_json v)) fields))"
| "normal_json v = v"

definition number_char :: "char \<Rightarrow> bool" where
  "number_char c \<longleftrightarrow> is_digit c \<or> c = CHR ''-'' \<or> c = CHR ''+'' \<or> c = CHR ''.'' \<or> c = CHR ''e''"

definition number_text :: "string \<Rightarrow> bool" where
  "number_text t \<longleftrightarrow> t \<noteq> [] \<and> list_all number_char t \<and> (is_digit (hd t) \<or> hd t = CHR ''-'')"

text \<open>A value the function accepts: no \<open>undefined\<close>, no unsupported type, finite numbers.\<close>

fun proper_json :: "json \<Rightarrow> bool" where
  "proper_json (JsArray vs) = (\<forall>v \<in> set vs. proper_json v)"
| "proper_json (JsObject fields) = (\<forall>(k, v) \<in> set fields. proper_json v)"
| "proper_json (JsNumber n) = (case n of None \<Rightarrow> False | Some t \<Rightarrow> number_text t)"
| "proper_json JsUndefined = False"
| "proper_json (JsOther t) = False"
| "proper_json v = True"

lemma canonical_list_map: "canonical_list vs = map canonical_json vs"
  by (induction vs) simp_all

lemma canonical_fields_map: "canonical_fields fs = map (\<lambda>(k, v). (k, canonical_json v)) fs"
  by (induction fs) auto

lemma insert_by_map:
  "(\<And>x y. le' (f x) (f y) = le x y) \<Longrightarrow> insert_by le' (f x) (map f xs) = map f (insert_by le x xs)"
  by (induction xs) auto

lemma sort_by_map: "(\<And>x y. le' (f x) (f y) = le x y) \<Longrightarrow> sort_by le' (map f xs) = map f (sort_by le xs)"
  by (induction xs) (auto simp: insert_by_map)

lemma sort_fields_map:
  "sort_by key_le (map (\<lambda>(k, v). (k, g v)) fs) = map (\<lambda>(k, v). (k, g v)) (sort_by key_le fs)"
  by (rule sort_by_map) (auto simp: key_le_def)

lemma collect_Inr: "collect rs = Inr xs \<longleftrightarrow> rs = map Inr xs"
  by (induction rs arbitrary: xs) (auto simp: Cons_eq_map_conv)

lemma map_Inr_iff: "map f xs = map Inr ys \<longleftrightarrow> list_all2 (\<lambda>x y. f x = Inr y) xs ys"
  by (auto simp: list_all2_conv_all_nth list_eq_iff_nth_eq)

text \<open>What a proper value prints.\<close>

lemma canonical_proper: "proper_json v \<Longrightarrow> canonical_json v = Inr (json_text (normal_json v))"
proof (induction v)
  case (JsArray vs)
  then have "map canonical_json vs = map Inr (map (\<lambda>v. json_text (normal_json v)) vs)" by simp
  then have "collect (canonical_list vs) = Inr (map (\<lambda>v. json_text (normal_json v)) vs)"
    unfolding canonical_list_map collect_Inr .
  then show ?case by (simp add: comp_def)
next
  case (JsObject fs)
  have proper: "canonical_json v = Inr (json_text (normal_json v))" if "(k, v) \<in> set fs" for k v
    using JsObject that by fastforce
  have "JsUndefined \<notin> snd ` set fs" using JsObject.prems by force
  moreover have "collect (map (\<lambda>(k, r). bind_result r (\<lambda>t. Inr (json_string k @ '':'' @ t))) (sort_by key_le (canonical_fields fs)))
      = Inr (map (\<lambda>(k, v). json_string k @ '':'' @ json_text (normal_json v)) (sort_by key_le fs))"
    unfolding canonical_fields_map sort_fields_map collect_Inr using proper by (auto simp: comp_def)
  ultimately show ?case by (simp add: sort_fields_map comp_def) (simp add: case_prod_unfold)
qed (auto simp: or_else_def split: option.splits)

section \<open>The text determines the value\<close>

text \<open>Reading back one escaped character.\<close>

definition hex_value :: "char \<Rightarrow> nat" where
  "hex_value c = (let n = of_char c in if n < 58 then n - 48 else n - 87)"

definition unescape :: "string \<Rightarrow> char \<times> string" where
  "unescape s =
     (if hd s \<noteq> CHR 0x5C then (hd s, tl s)
      else let d = hd (tl s); r = tl (tl s)
        in if d = CHR ''b'' then (char_of (8::nat), r)
        else if d = CHR ''t'' then (char_of (9::nat), r)
        else if d = CHR ''n'' then (char_of (10::nat), r)
        else if d = CHR ''f'' then (char_of (12::nat), r)
        else if d = CHR ''r'' then (char_of (13::nat), r)
        else if d = CHR ''u'' then (char_of (16 * hex_value (r ! 2) + hex_value (r ! 3)), drop 4 r)
        else (d, r))"

lemma hex_value_digit [simp]: "n < 16 \<Longrightarrow> hex_value (hex_digit n) = n"
  by (simp add: hex_value_def hex_digit_def)

lemma char_of_codeI: "of_char c = n \<Longrightarrow> char_of n = c" for n :: nat
  by auto

lemma quote_chars: "char_of (34::nat) = CHR 0x22" "char_of (92::nat) = CHR 0x5C"
  by code_simp+

lemma unescape_escape: "unescape (escape_char c @ r) = (c, r)"
proof -
  consider "of_char c = (34::nat)" | "of_char c = (92::nat)" | "of_char c = (8::nat)" | "of_char c = (9::nat)"
    | "of_char c = (10::nat)" | "of_char c = (12::nat)" | "of_char c = (13::nat)"
    | "of_char c < (32::nat)" "of_char c \<notin> {8, 9, 10, 12, 13::nat}"
    | "of_char c \<ge> (32::nat)" "of_char c \<noteq> (34::nat)" "of_char c \<noteq> (92::nat)"
    by force
  then show ?thesis
  proof cases
    case 1
    then have "c = CHR 0x22" using char_of_codeI [OF 1] quote_chars by simp
    then show ?thesis by (simp add: escape_char_def unescape_def)
  next
    case 2
    then have "c = CHR 0x5C" using char_of_codeI [OF 2] quote_chars by simp
    then show ?thesis by (simp add: escape_char_def unescape_def)
  next
    case 8
    have "16 * (of_char c div 16) + of_char c mod 16 = (of_char c :: nat)" by simp
    moreover have "of_char c div 16 < (16::nat)" using 8 by simp
    ultimately show ?thesis
      using 8 char_of_codeI [OF refl, of c] by (auto simp: escape_char_def unescape_def Let_def numeral_2_eq_2 numeral_3_eq_3)
  next
    case 9
    then have "c \<noteq> CHR 0x5C" by auto
    then show ?thesis using 9 by (simp add: escape_char_def unescape_def)
  next
    case 3
    then show ?thesis using char_of_codeI [OF 3] by (simp add: escape_char_def unescape_def)
  next
    case 4
    then show ?thesis using char_of_codeI [OF 4] by (simp add: escape_char_def unescape_def)
  next
    case 5
    then show ?thesis using char_of_codeI [OF 5] by (simp add: escape_char_def unescape_def)
  next
    case 6
    then show ?thesis using char_of_codeI [OF 6] by (simp add: escape_char_def unescape_def)
  next
    case 7
    then show ?thesis using char_of_codeI [OF 7] by (simp add: escape_char_def unescape_def)
  qed
qed

lemma escape_det: "escape_char c @ r = escape_char d @ r' \<Longrightarrow> c = d \<and> r = r'"
  by (drule arg_cong [of _ _ unescape]) (simp only: unescape_escape prod.inject)

lemma escape_cases: "escape_char c = [c] \<and> (of_char c :: nat) \<noteq> 34 \<or> (\<exists>s. escape_char c = CHR 0x5C # s)"
proof (cases "(of_char c :: nat) \<in> {34, 92, 8, 9, 10, 12, 13} \<or> (of_char c :: nat) < 32")
  case True
  then show ?thesis unfolding escape_char_def Let_def insert_iff empty_iff by (elim disjE) simp_all
next
  case False
  then show ?thesis unfolding escape_char_def Let_def by simp
qed

lemma not_quote: "(of_char c :: nat) \<noteq> 34 \<Longrightarrow> c \<noteq> CHR 0x22"
  by auto

lemma escape_head: "escape_char c \<noteq> [] \<and> hd (escape_char c) \<noteq> CHR 0x22"
  using escape_cases [of c]
proof (elim disjE conjE exE)
  assume "escape_char c = [c]" "(of_char c :: nat) \<noteq> 34"
  then show ?thesis using not_quote [of c] by simp
qed simp

lemma string_det: "json_string s @ r = json_string t @ r' \<Longrightarrow> s = t \<and> r = r'"
proof -
  have "concat (map escape_char s) @ CHR 0x22 # r = concat (map escape_char t) @ CHR 0x22 # r' \<Longrightarrow> s = t \<and> r = r'"
  proof (induction s arbitrary: t)
    case Nil
    show ?case
    proof (cases t)
      case (Cons d t')
      then show ?thesis using Nil escape_head [of d] by (cases "escape_char d") auto
    qed (use Nil in simp)
  next
    case (Cons c s)
    show ?case
    proof (cases t)
      case Nil
      then show ?thesis using Cons.prems escape_head [of c] by (cases "escape_char c") auto
    next
      case (Cons d t')
      have "escape_char c @ (concat (map escape_char s) @ CHR 0x22 # r)
          = escape_char d @ (concat (map escape_char t') @ CHR 0x22 # r')"
        using Cons.prems Cons by simp
      from escape_det [OF this] show ?thesis using Cons.IH Cons by simp
    qed
  qed
  then show "json_string s @ r = json_string t @ r' \<Longrightarrow> s = t \<and> r = r'" by (simp add: json_string_def)
qed

text \<open>A text that is followed by a separator, a closing bracket or nothing is read back alone.\<close>

definition stops :: "string \<Rightarrow> bool" where
  "stops r \<longleftrightarrow> r = [] \<or> hd r \<in> {CHR '','', CHR '']'', CHR ''}''}"

definition determines :: "('a \<Rightarrow> string) \<Rightarrow> 'a set \<Rightarrow> 'a \<Rightarrow> bool" where
  "determines f W x \<longleftrightarrow>
     (\<forall>y \<in> W. \<forall>r r'. stops r \<longrightarrow> stops r' \<longrightarrow> f x @ r = f y @ r' \<longrightarrow> x = y \<and> r = r')"

lemma join_Cons: "join '','' (map f (x # xs)) = f x @ concat (map (\<lambda>x. CHR '','' # f x) xs)"
proof (induction xs arbitrary: x)
  case (Cons y ys)
  then show ?case by simp
qed simp

lemma tail_det:
  assumes "\<forall>x \<in> set xs. determines f W x" "set ys \<subseteq> W" "stops (c # r)" "c \<noteq> CHR '',''"
    and "concat (map (\<lambda>x. CHR '','' # f x) xs) @ c # r = concat (map (\<lambda>x. CHR '','' # f x) ys) @ c # r'"
  shows "xs = ys \<and> r = r'"
  using assms
proof (induction xs arbitrary: ys)
  case Nil
  then show ?case by (cases ys) auto
next
  case (Cons x xs)
  note IH = Cons.IH and prems = Cons.prems
  show ?case
  proof (cases ys)
    case Nil
    then show ?thesis using prems by auto
  next
    case (Cons y ys')
    have tails: "stops (concat (map (\<lambda>x. CHR '','' # f x) zs) @ c # r'')" for zs r''
      using prems(3) by (cases zs) (auto simp: stops_def)
    have "determines f W x" "y \<in> W" using prems(1,2) Cons by auto
    moreover have "f x @ (concat (map (\<lambda>x. CHR '','' # f x) xs) @ c # r) = f y @ (concat (map (\<lambda>x. CHR '','' # f x) ys') @ c # r')"
      using prems(5) Cons by simp
    ultimately have "x = y \<and> concat (map (\<lambda>x. CHR '','' # f x) xs) @ c # r = concat (map (\<lambda>x. CHR '','' # f x) ys') @ c # r'"
      using tails unfolding determines_def by blast
    then show ?thesis using IH [of ys'] prems Cons by auto
  qed
qed

lemma join_det:
  assumes "\<forall>x \<in> set xs. determines f W x" "set ys \<subseteq> W" "c = CHR '']'' \<or> c = CHR ''}''"
    and heads: "\<forall>x \<in> set xs \<union> set ys. f x \<noteq> [] \<and> hd (f x) \<noteq> c"
    and eq: "join '','' (map f xs) @ c # r = join '','' (map f ys) @ c # r'"
  shows "xs = ys \<and> r = r'"
proof (cases xs)
  case Nil
  show ?thesis
  proof (cases ys)
    case (Cons y ys')
    then show ?thesis using eq heads Nil unfolding Cons join_Cons by (cases "f y") auto
  qed (use eq Nil in simp)
next
  case (Cons x xs')
  show ?thesis
  proof (cases ys)
    case Nil
    then show ?thesis using eq heads unfolding Cons join_Cons by (cases "f x") auto
  next
    case y: (Cons y ys')
    have tails: "stops (concat (map (\<lambda>x. CHR '','' # f x) zs) @ c # r'')" for zs r''
      using assms(3) by (cases zs) (auto simp: stops_def)
    have "f x @ (concat (map (\<lambda>x. CHR '','' # f x) xs') @ c # r) = f y @ (concat (map (\<lambda>x. CHR '','' # f x) ys') @ c # r')"
      using eq unfolding Cons y join_Cons by simp
    moreover have "determines f W x" "y \<in> W" using assms(1,2) Cons y by auto
    ultimately have "x = y" and rest: "concat (map (\<lambda>x. CHR '','' # f x) xs') @ c # r = concat (map (\<lambda>x. CHR '','' # f x) ys') @ c # r'"
      using tails unfolding determines_def by blast+
    moreover have "xs' = ys' \<and> r = r'"
      by (rule tail_det [OF _ _ _ _ rest]) (use assms Cons y in \<open>auto simp: stops_def\<close>)
    ultimately show ?thesis using Cons y by simp
  qed
qed

lemma number_det:
  assumes "number_text t" "number_text t'" "stops r" "stops r'" "t @ r = t' @ r'"
  shows "t = t' \<and> r = r'"
proof -
  have take: "takeWhile number_char (u @ q) = u" if "number_text u" "stops q" for u q
  proof -
    have "takeWhile number_char q = []"
      using that(2) by (cases q) (auto simp: stops_def number_char_def is_digit_def)
    then show ?thesis using that(1) by (simp add: number_text_def list_all_iff takeWhile_append2)
  qed
  have "t = t'" using take [OF assms(1,3)] take [OF assms(2,4)] assms(5) by simp
  then show ?thesis using assms(5) by simp
qed

lemma number_head: "number_text t \<Longrightarrow> \<exists>c s. t = c # s \<and> (is_digit c \<or> c = CHR ''-'')"
  by (cases t) (auto simp: number_text_def)

lemma json_text_head:
  assumes "proper_json v"
  shows "json_text v \<noteq> [] \<and> hd (json_text v) \<notin> {CHR '','', CHR '']'', CHR ''}''}"
proof (cases v)
  case (JsNumber n)
  then obtain t where "n = Some t" "number_text t" using assms by (cases n) auto
  then show ?thesis using JsNumber number_head [of t] by (auto simp: or_else_def is_digit_def)
qed (use assms in \<open>auto simp: json_string_def\<close>)

definition field_text :: "string \<times> json \<Rightarrow> string" where
  "field_text p = json_string (fst p) @ '':'' @ json_text (snd p)"

lemma json_text_object: "json_text (JsObject fs) = ''{'' @ join '','' (map field_text fs) @ ''}''"
  by (simp add: field_text_def [abs_def] case_prod_unfold)

lemma field_det:
  assumes "determines json_text {w. proper_json w} v"
  shows "determines field_text {p. proper_json (snd p)} (k, v)"
  unfolding determines_def
proof (intro ballI allI impI)
  fix p r r'
  assume p: "p \<in> {p. proper_json (snd p)}" and ends: "stops r" "stops r'"
    and eq: "field_text (k, v) @ r = field_text p @ r'"
  have "json_string k @ (CHR '':'' # json_text v @ r) = json_string (fst p) @ (CHR '':'' # json_text (snd p) @ r')"
    using eq by (simp add: field_text_def)
  from string_det [OF this] have "k = fst p" "json_text v @ r = json_text (snd p) @ r'" by auto
  then show "(k, v) = p \<and> r = r'" using assms p ends unfolding determines_def by (cases p) auto
qed

lemma json_text_det: "proper_json v \<Longrightarrow> determines json_text {w. proper_json w} v"
proof (induction v)
  case (JsArray vs)
  show ?case
    unfolding determines_def
  proof (intro ballI allI impI)
    fix w r r' assume w: "w \<in> {w. proper_json w}" and eq: "json_text (JsArray vs) @ r = json_text w @ r'"
    then obtain ws where ws: "w = JsArray ws"
      using number_head by (cases w) (fastforce simp: json_string_def or_else_def is_digit_def split: if_splits option.splits)+
    have "join '','' (map json_text vs) @ CHR '']'' # r = join '','' (map json_text ws) @ CHR '']'' # r'"
      using eq ws by simp
    then have "vs = ws \<and> r = r'"
      using JsArray w json_text_head unfolding ws
      by (intro join_det [where f = json_text and W = "{w. proper_json w}"]) auto
    then show "JsArray vs = w \<and> r = r'" using ws by simp
  qed
next
  case (JsObject fs)
  show ?case
    unfolding determines_def
  proof (intro ballI allI impI)
    fix w r r' assume w: "w \<in> {w. proper_json w}" and eq: "json_text (JsObject fs) @ r = json_text w @ r'"
    then obtain gs where gs: "w = JsObject gs"
      using number_head by (cases w) (fastforce simp: json_string_def or_else_def is_digit_def split: if_splits option.splits)+
    have "join '','' (map field_text fs) @ CHR ''}'' # r = join '','' (map field_text gs) @ CHR ''}'' # r'"
      using eq unfolding gs json_text_object by simp
    moreover have "determines field_text {p. proper_json (snd p)} p" if "p \<in> set fs" for p
      using JsObject that field_det by (cases p) fastforce
    moreover have "set gs \<subseteq> {p. proper_json (snd p)}" using w gs by auto
    moreover have "field_text p \<noteq> [] \<and> hd (field_text p) \<noteq> CHR ''}''" for p
      by (simp add: field_text_def json_string_def)
    ultimately have "fs = gs \<and> r = r'" by (intro join_det [where f = field_text and W = "{p. proper_json (snd p)}"]) auto
    then show "JsObject fs = w \<and> r = r'" using gs by simp
  qed
next
  case (JsNumber n)
  then obtain t where t: "n = Some t" "number_text t" by (cases n) auto
  obtain c s where cs: "t = c # s" "is_digit c \<or> c = CHR ''-''" using number_head [OF t(2)] by blast
  show ?case
    unfolding determines_def
  proof (intro ballI allI impI)
    fix w r r' assume w: "w \<in> {w. proper_json w}" and ends: "stops r" "stops r'"
      and eq: "json_text (JsNumber n) @ r = json_text w @ r'"
    then obtain t' where "w = JsNumber (Some t')" "number_text t'"
      using cs t by (cases w) (auto simp: json_string_def or_else_def is_digit_def split: if_splits option.splits)
    then show "JsNumber n = w \<and> r = r'" using number_det [OF t(2) _ ends] eq t by (simp add: or_else_def)
  qed
next
  case (JsString s)
  show ?case
    unfolding determines_def
  proof (intro ballI allI impI)
    fix w r r' assume w: "w \<in> {w. proper_json w}" and eq: "json_text (JsString s) @ r = json_text w @ r'"
    then obtain t where "w = JsString t"
      using number_head by (cases w) (fastforce simp: json_string_def or_else_def is_digit_def split: if_splits option.splits)+
    then show "JsString s = w \<and> r = r'" using string_det [of s r t r'] eq by simp
  qed
next
  case JsNull
  then show ?case
    using number_head by (auto simp: determines_def) (rename_tac w r r', case_tac w;
      fastforce simp: json_string_def or_else_def is_digit_def split: if_splits option.splits)+
next
  case (JsBool b)
  then show ?case
    using number_head by (auto simp: determines_def) (rename_tac w r r', case_tac w;
      fastforce simp: json_string_def or_else_def is_digit_def split: if_splits option.splits)+
qed auto

section \<open>Canonical text and sorted values agree\<close>

lemma proper_sorted: "proper_json (JsObject (sort_by le fs)) \<longleftrightarrow> proper_json (JsObject fs)"
  by simp

lemma proper_normal: "proper_json v \<Longrightarrow> proper_json (normal_json v)"
  by (induction v) fastforce+

lemma canonical_json_inj:
  assumes "proper_json v" "proper_json w"
  shows "canonical_json v = canonical_json w \<longleftrightarrow> normal_json v = normal_json w"
proof
  assume "canonical_json v = canonical_json w"
  then have "json_text (normal_json v) @ [] = json_text (normal_json w) @ []"
    using canonical_proper [OF assms(1)] canonical_proper [OF assms(2)] by simp
  moreover have "stops []" by (simp add: stops_def)
  ultimately show "normal_json v = normal_json w"
    using json_text_det [OF proper_normal [OF assms(1)]] proper_normal [OF assms(2)] unfolding determines_def by blast
qed (use canonical_proper [OF assms(1)] canonical_proper [OF assms(2)] in simp)

text \<open>The order in which the keys of an object were inserted does not matter.\<close>

lemma string_le_total: "string_le a b \<or> string_le b a"
proof (induction a b rule: string_le.induct)
  case (3 a as b bs)
  then show ?case by (cases "(of_char a :: nat)" "(of_char b :: nat)" rule: linorder_cases) auto
qed auto

lemma string_le_antisym: "string_le a b \<Longrightarrow> string_le b a \<Longrightarrow> a = b"
proof (induction a b rule: string_le.induct)
  case (1 b)
  then show ?case by (cases b) auto
qed (auto split: if_splits)

lemma string_le_trans: "string_le a b \<Longrightarrow> string_le b c \<Longrightarrow> string_le a c"
proof (induction a b arbitrary: c rule: string_le.induct)
  case (3 a as b bs)
  then show ?case by (cases c) (auto split: if_splits)
qed auto

lemma sorted_insert_by:
  assumes "\<And>x y. le x y \<or> le y x" "\<And>x y z. le x y \<Longrightarrow> le y z \<Longrightarrow> le x z"
  shows "sorted_wrt le xs \<Longrightarrow> sorted_wrt le (insert_by le x xs)"
proof (induction xs)
  case (Cons y ys)
  then show ?case using assms by (auto)
qed simp

lemma sorted_sort_by:
  assumes "\<And>x y. le x y \<or> le y x" "\<And>x y z. le x y \<Longrightarrow> le y z \<Longrightarrow> le x z"
  shows "sorted_wrt le (sort_by le xs)"
  by (induction xs) (auto intro!: sorted_insert_by [of le, OF assms])

lemma sorted_unique:
  assumes "\<And>x y. x \<in> set xs \<Longrightarrow> y \<in> set xs \<Longrightarrow> le x y \<Longrightarrow> le y x \<Longrightarrow> x = y"
  shows "sorted_wrt le xs \<Longrightarrow> sorted_wrt le ys \<Longrightarrow> mset xs = mset ys \<Longrightarrow> xs = ys"
  using assms
proof (induction xs arbitrary: ys)
  case (Cons x xs)
  then obtain y ys' where ys: "ys = y # ys'" by (cases ys) auto
  have sets: "set (x # xs) = set (y # ys')" using Cons.prems(3) unfolding ys by (rule mset_eq_setD)
  have "x = y"
  proof (rule ccontr)
    assume "x \<noteq> y"
    then have "y \<in> set xs" "x \<in> set ys'" using sets by auto
    then have "le x y" "le y x" using Cons.prems(1,2) ys by auto
    then show False using Cons.prems(4) \<open>y \<in> set xs\<close> \<open>x \<noteq> y\<close> by auto
  qed
  then show ?case using Cons ys by auto
qed simp

lemma mset_insert_by: "mset (insert_by le x xs) = add_mset x (mset xs)"
  by (induction xs) auto

lemma mset_sort_by: "mset (sort_by le xs) = mset xs"
  by (induction xs) (auto simp: mset_insert_by)

lemma sorted_by_key: "sorted_wrt key_le (sort_by key_le fs)"
  by (rule sorted_sort_by) (use string_le_total string_le_trans in \<open>auto simp: key_le_def\<close>)

lemma normal_fields_order:
  assumes "mset fs = mset gs" "distinct (map fst fs)"
  shows "normal_json (JsObject fs) = normal_json (JsObject gs)"
proof -
  let ?n = "map (\<lambda>(k, v). (k, normal_json v))"
  have "sort_by key_le (?n fs) = sort_by key_le (?n gs)"
  proof (rule sorted_unique [where le = key_le])
    fix x y assume "x \<in> set (sort_by key_le (?n fs))" "y \<in> set (sort_by key_le (?n fs))" "key_le x y" "key_le y x"
    then have "x \<in> set (?n fs)" "y \<in> set (?n fs)" "fst x = fst y" by (auto simp: key_le_def dest: string_le_antisym)
    then show "x = y" using assms(2) by (auto dest: eq_key_imp_eq_value)
  qed (use assms(1) in \<open>auto simp: mset_sort_by sorted_by_key\<close>)
  then show ?thesis by simp
qed

section \<open>The bytes determine the text\<close>

lemma utf8_char_det: "utf8_char c @ r = utf8_char d @ r' \<Longrightarrow> c = d \<and> r = r'"
proof -
  have code: "(of_char c :: nat) < 256" for c by (rule nat_of_char_less_256)
  have quot: "(of_char c :: nat) div 64 < 4" for c by (rule less_mult_imp_div_less) (simp add: code)
  have word: "(of_nat m :: 8 word) = of_nat n \<longleftrightarrow> m = n" if "m < 256" "n < 256" for m n
    using that by (simp add: word_of_nat_eq_iff take_bit_eq_mod)
  have split: "64 * (n div 64) + n mod 64 = n" for n :: nat by simp
  assume eq: "utf8_char c @ r = utf8_char d @ r'"
  show ?thesis
  proof (cases "(of_char c :: nat) < 128"; cases "(of_char d :: nat) < 128")
    assume "(of_char c :: nat) < 128" "(of_char d :: nat) < 128"
    then show ?thesis using eq by (simp add: utf8_char_def word)
  next
    assume "(of_char c :: nat) < 128" "\<not> (of_char d :: nat) < 128"
    moreover have "192 + (of_char d :: nat) div 64 < 256" using quot [of d] by simp
    ultimately show ?thesis using eq word [of "of_char c" "192 + of_char d div 64"] by (simp add: utf8_char_def Let_def)
  next
    assume "\<not> (of_char c :: nat) < 128" "(of_char d :: nat) < 128"
    moreover have "192 + (of_char c :: nat) div 64 < 256" using quot [of c] by simp
    ultimately show ?thesis using eq word [of "192 + of_char c div 64" "of_char d"] by (simp add: utf8_char_def Let_def)
  next
    assume big: "\<not> (of_char c :: nat) < 128" "\<not> (of_char d :: nat) < 128"
    have "192 + (of_char c :: nat) div 64 < 256" "192 + (of_char d :: nat) div 64 < 256"
      "128 + (of_char c :: nat) mod 64 < 256" "128 + (of_char d :: nat) mod 64 < 256"
      using quot [of c] quot [of d] by auto
    then have "(of_char c :: nat) div 64 = of_char d div 64" "(of_char c :: nat) mod 64 = of_char d mod 64" "r = r'"
      using eq big word [of "192 + of_char c div 64" "192 + of_char d div 64"]
        word [of "128 + of_char c mod 64" "128 + of_char d mod 64"] by (simp_all add: utf8_char_def Let_def)
    then have "(of_char c :: nat) = of_char d" by (metis split)
    then show ?thesis using \<open>r = r'\<close> by simp
  qed
qed

lemma utf8_char_nonempty: "utf8_char c \<noteq> []"
  by (simp add: utf8_char_def Let_def)

lemma utf8_inj: "utf8 s = utf8 t \<longleftrightarrow> s = t"
proof
  show "utf8 s = utf8 t \<Longrightarrow> s = t"
  proof (induction s arbitrary: t)
    case Nil
    then show ?case using utf8_char_nonempty by (cases t) (auto simp: utf8_def)
  next
    case (Cons c s)
    show ?case
    proof (cases t)
      case Nil
      then show ?thesis using Cons.prems utf8_char_nonempty by (auto simp: utf8_def)
    next
      case (Cons d t')
      then have "utf8_char c @ utf8 s = utf8_char d @ utf8 t'" using Cons.prems by (simp add: utf8_def)
      from utf8_char_det [OF this] show ?thesis using Cons.IH Cons by simp
    qed
  qed
qed simp

end
