(* ===== verification/Idempotency.thy ===== *)
theory Idempotency
  imports Canonical_Json Model Js_Date Record_Store
begin

text \<open>
  Request fingerprints, the write coordinator and the PostgreSQL store of
  packages/core/src/idempotency.ts on the table of packages/core/sql/002_idempotency.sql. SHA-256 is
  a parameter: the hexadecimal digest of a byte sequence. Responses are values of any type. The table
  is a list of its records, whose fields the other columns repeat; the timestamps written are those
  of \<open>toISOString\<close>, which the database converts.
\<close>

type_synonym sha256 = "8 word list \<Rightarrow> string"

definition request_fingerprint :: "sha256 \<Rightarrow> json \<Rightarrow> string result" where
  "request_fingerprint sha request =
     bind_result (canonical_json request) (\<lambda>t. Inr (''sha256:'' @ sha (utf8 t)))"

text \<open>\<open>/^[A-Za-z0-9][A-Za-z0-9._:-]{7,127}$/\<close>\<close>

definition alphanumeric :: "char \<Rightarrow> bool" where
  "alphanumeric c \<longleftrightarrow> (let n = of_char c :: nat in 65 \<le> n \<and> n \<le> 90 \<or> 97 \<le> n \<and> n \<le> 122 \<or> 48 \<le> n \<and> n \<le> 57)"

definition safe_key :: "string \<Rightarrow> bool" where
  "safe_key key \<longleftrightarrow>
     (case key of [] \<Rightarrow> False
      | c # cs \<Rightarrow> alphanumeric c \<and> 7 \<le> length cs \<and> length cs \<le> 127
          \<and> list_all (\<lambda>c. alphanumeric c \<or> c \<in> set ''._:-'') cs)"

definition assert_idempotency_key :: "string \<Rightarrow> unit result" where
  "assert_idempotency_key key =
     (if \<not> safe_key key
      then Inl (RegistryError INVALID_ARGUMENT ''idempotency key must be 8-128 safe characters'') else Inr ())"

datatype idem_status = IDEM_IN_PROGRESS | IDEM_COMPLETED | IDEM_FAILED

record 'r idem_record =
  ir_scope :: string
  ir_key :: string
  ir_requestHash :: string
  ir_status :: idem_status
  ir_operationId :: interweave_id
  ir_response :: "'r option"
  ir_errorCode :: "string option"
  ir_createdAt :: iso_timestamp
  ir_updatedAt :: iso_timestamp

datatype claim_outcome = CLAIMED | REPLAY | CLAIM_IN_PROGRESS | CLAIM_CONFLICT

type_synonym 'r idem_db = "'r idem_record list"

section \<open>The PostgreSQL store\<close>

definition idem_find :: "string \<times> string \<Rightarrow> 'r idem_db \<Rightarrow> 'r idem_record option" where
  "idem_find k db = find (\<lambda>r. (ir_scope r, ir_key r) = k) db"

definition idem_update :: "'r idem_record \<Rightarrow> 'r idem_db \<Rightarrow> 'r idem_db" where
  "idem_update r db = map (\<lambda>x. if (ir_scope x, ir_key x) = (ir_scope r, ir_key r) then r else x) db"

definition store_claim :: "'r idem_record \<Rightarrow> ('r idem_db, claim_outcome \<times> 'r idem_record) comp" where
  "store_claim r = transaction (\<lambda>db.
     case idem_find (ir_scope r, ir_key r) db of
       None \<Rightarrow> (Inr (CLAIMED, r), db @ [r])
     | Some existing \<Rightarrow>
         if ir_requestHash existing \<noteq> ir_requestHash r \<or> ir_operationId existing \<noteq> ir_operationId r
         then (Inr (CLAIM_CONFLICT, existing), db)
         else if ir_status existing = IDEM_FAILED
         then let retry = \<lparr>ir_scope = ir_scope existing, ir_key = ir_key existing,
                ir_requestHash = ir_requestHash existing, ir_status = IDEM_IN_PROGRESS,
                ir_operationId = ir_operationId existing, ir_response = None, ir_errorCode = None,
                ir_createdAt = ir_createdAt existing, ir_updatedAt = ir_updatedAt r\<rparr>
           in (Inr (CLAIMED, retry), idem_update retry db)
         else (Inr (if ir_status existing = IDEM_COMPLETED then REPLAY else CLAIM_IN_PROGRESS, existing), db))"

definition store_finish ::
  "string \<Rightarrow> string \<Rightarrow> string \<Rightarrow> ('r idem_record \<Rightarrow> 'r idem_record) \<Rightarrow> ('r idem_db, 'r idem_record) comp" where
  "store_finish scope key requestHash patch = transaction (\<lambda>db.
     case idem_find (scope, key) db of
       None \<Rightarrow> (Inl (RegistryError NOT_FOUND ''idempotency record not found''), db)
     | Some existing \<Rightarrow>
         if ir_requestHash existing \<noteq> requestHash
         then (Inl (RegistryError CONFLICT ''idempotency request hash mismatch''), db)
         else if ir_status existing = IDEM_COMPLETED then (Inr existing, db)
         else (Inr (patch existing), idem_update (patch existing) db))"

definition store_complete ::
  "string \<Rightarrow> string \<Rightarrow> string \<Rightarrow> 'r \<Rightarrow> string \<Rightarrow> ('r idem_db, 'r idem_record) comp" where
  "store_complete scope key requestHash response updatedAt =
     store_finish scope key requestHash
       (\<lambda>r. r\<lparr>ir_status := IDEM_COMPLETED, ir_response := Some response, ir_updatedAt := updatedAt\<rparr>)"

definition store_fail ::
  "string \<Rightarrow> string \<Rightarrow> string \<Rightarrow> string \<Rightarrow> string \<Rightarrow> ('r idem_db, 'r idem_record) comp" where
  "store_fail scope key requestHash errorCode updatedAt =
     store_finish scope key requestHash
       (\<lambda>r. r\<lparr>ir_status := IDEM_FAILED, ir_errorCode := Some errorCode, ir_updatedAt := updatedAt\<rparr>)"

section \<open>The coordinator\<close>

record idem_input =
  ii_scope :: string
  ii_key :: string
  ii_operationId :: interweave_id
  ii_request :: json

definition idem_begin ::
  "sha256 \<Rightarrow> js_date \<Rightarrow> idem_input \<Rightarrow> ('r idem_db, claim_outcome \<times> 'r idem_record) comp" where
  "idem_begin sha now i =
     and_then (lift_result (assert_idempotency_key (ii_key i))) (\<lambda>_.
       if blank (ii_scope i) then throw (RegistryError INVALID_ARGUMENT ''idempotency scope is required'')
       else if \<not> has_prefix_id (ii_operationId i) ''IW:BRIDGE:''
       then throw (RegistryError INVALID_ARGUMENT ''immutable bridge operation ID is required'')
       else and_then (iso_string now) (\<lambda>timestamp.
         and_then (lift_result (request_fingerprint sha (ii_request i))) (\<lambda>hash.
           store_claim \<lparr>ir_scope = ii_scope i, ir_key = ii_key i, ir_requestHash = hash,
             ir_status = IDEM_IN_PROGRESS, ir_operationId = ii_operationId i, ir_response = None,
             ir_errorCode = None, ir_createdAt = timestamp, ir_updatedAt = timestamp\<rparr>)))"

definition idem_complete :: "js_date \<Rightarrow> 'r idem_record \<Rightarrow> 'r \<Rightarrow> ('r idem_db, 'r idem_record) comp" where
  "idem_complete now claim response =
     and_then (iso_string now) (\<lambda>t. store_complete (ir_scope claim) (ir_key claim) (ir_requestHash claim) response t)"

definition idem_fail :: "js_date \<Rightarrow> 'r idem_record \<Rightarrow> string \<Rightarrow> ('r idem_db, 'r idem_record) comp" where
  "idem_fail now claim errorCode =
     (if blank errorCode then throw (RegistryError INVALID_ARGUMENT ''error code is required'')
      else and_then (iso_string now) (\<lambda>t. store_fail (ir_scope claim) (ir_key claim) (ir_requestHash claim) errorCode t))"

section \<open>The replay-protected destination\<close>

datatype destination_effect = EFFECT_MINT | EFFECT_RELEASE | EFFECT_PAYMENT | EFFECT_SETTLEMENT

record destination_request =
  de_operationId :: interweave_id
  de_effect :: destination_effect
  de_payloadHash :: string

definition destination_execute ::
  "(destination_request \<Rightarrow> ('s, 'a) comp) \<Rightarrow> destination_request \<Rightarrow> ('s, 'a) comp" where
  "destination_execute executeOnce request =
     (if \<not> starts_with (de_operationId request) ''IW:BRIDGE:'' \<or> blank (de_payloadHash request)
      then throw (RegistryError INVALID_ARGUMENT ''operation ID and payload hash are required'')
      else executeOnce request)"

section \<open>Calls\<close>

datatype 'r idem_call =
    Begin js_date idem_input
  | Complete js_date "'r idem_record" 'r
  | Fail js_date "'r idem_record" string

fun idem_serve :: "sha256 \<Rightarrow> 'r idem_call \<Rightarrow> ('r idem_db, claim_outcome \<times> 'r idem_record) comp" where
  "idem_serve sha (Begin now i) = idem_begin sha now i"
| "idem_serve sha (Complete now claim response) = and_then (idem_complete now claim response) (\<lambda>r. ret (REPLAY, r))"
| "idem_serve sha (Fail now claim code) = and_then (idem_fail now claim code) (\<lambda>r. ret (REPLAY, r))"

text \<open>What a call may do to the record of a key.\<close>

definition idem_moves :: "'r idem_record option \<Rightarrow> 'r idem_record option \<Rightarrow> bool" where
  "idem_moves old new \<longleftrightarrow>
     new = old
     \<or> old = None \<and> (\<exists>r. new = Some r \<and> ir_status r = IDEM_IN_PROGRESS)
     \<or> (\<exists>r r'. old = Some r \<and> new = Some r' \<and> ir_status r \<noteq> IDEM_COMPLETED
          \<and> ir_scope r' = ir_scope r \<and> ir_key r' = ir_key r \<and> ir_requestHash r' = ir_requestHash r
          \<and> ir_operationId r' = ir_operationId r \<and> ir_createdAt r' = ir_createdAt r)"

lemma idem_find_key: "idem_find k db = Some r \<Longrightarrow> (ir_scope r, ir_key r) = k"
  by (auto simp: idem_find_def find_Some_iff)

lemma idem_find_snoc:
  "idem_find k (db @ [r]) = (case idem_find k db of Some x \<Rightarrow> Some x | None \<Rightarrow> if (ir_scope r, ir_key r) = k then Some r else None)"
  by (induction db) (auto simp: idem_find_def)

lemma idem_find_update:
  "idem_find k (idem_update r db) =
     (if k = (ir_scope r, ir_key r) then map_option (\<lambda>_. r) (idem_find k db) else idem_find k db)"
  by (induction db) (auto simp: idem_find_def idem_update_def)

lemma store_claim_run:
  "store_claim r db =
     (case idem_find (ir_scope r, ir_key r) db of
       None \<Rightarrow> (Inr (CLAIMED, r), db @ [r])
     | Some x \<Rightarrow>
         if ir_requestHash x \<noteq> ir_requestHash r \<or> ir_operationId x \<noteq> ir_operationId r then (Inr (CLAIM_CONFLICT, x), db)
         else if ir_status x = IDEM_FAILED
         then (let y = \<lparr>ir_scope = ir_scope x, ir_key = ir_key x, ir_requestHash = ir_requestHash x,
             ir_status = IDEM_IN_PROGRESS, ir_operationId = ir_operationId x, ir_response = None,
             ir_errorCode = None, ir_createdAt = ir_createdAt x, ir_updatedAt = ir_updatedAt r\<rparr>
           in (Inr (CLAIMED, y), idem_update y db))
         else (Inr (if ir_status x = IDEM_COMPLETED then REPLAY else CLAIM_IN_PROGRESS, x), db))"
  by (simp add: store_claim_def transaction_def Let_def split: option.split)

lemma store_claim_moves:
  assumes "store_claim r db = (res, db')" "ir_status r = IDEM_IN_PROGRESS"
  shows "idem_moves (idem_find k db) (idem_find k db')"
proof (cases "idem_find (ir_scope r, ir_key r) db")
  case None
  then show ?thesis
    using assms by (cases "idem_find k db") (auto simp: store_claim_run idem_moves_def idem_find_snoc)
next
  case (Some x)
  then show ?thesis
    using assms idem_find_key [OF Some]
    by (auto simp: store_claim_run idem_moves_def idem_find_update Let_def split: if_splits)
qed

lemma store_finish_moves:
  assumes "store_finish scope key hash patch db = (res, db')"
    and "\<And>x. ir_scope (patch x) = ir_scope x \<and> ir_key (patch x) = ir_key x \<and> ir_requestHash (patch x) = ir_requestHash x
      \<and> ir_operationId (patch x) = ir_operationId x \<and> ir_createdAt (patch x) = ir_createdAt x"
  shows "idem_moves (idem_find k db) (idem_find k db')"
proof (cases "idem_find (scope, key) db")
  case (Some x)
  then show ?thesis
    using assms idem_find_key [OF Some]
    by (auto simp: store_finish_def transaction_def idem_moves_def idem_find_update split: if_splits)
qed (use assms in \<open>auto simp: store_finish_def transaction_def idem_moves_def\<close>)

lemma idem_begin_run:
  assumes "idem_begin sha now i db = (res, db')"
  shows "(\<exists>e. res = Inl e \<and> db' = db)
    \<or> (\<exists>hash t. request_fingerprint sha (ii_request i) = Inr hash \<and> now = Some t
        \<and> store_claim \<lparr>ir_scope = ii_scope i, ir_key = ii_key i, ir_requestHash = hash,
             ir_status = IDEM_IN_PROGRESS, ir_operationId = ii_operationId i, ir_response = None,
             ir_errorCode = None, ir_createdAt = to_iso_string t, ir_updatedAt = to_iso_string t\<rparr> db = (res, db'))"
  using assms
  by (cases now; cases "assert_idempotency_key (ii_key i)"; cases "request_fingerprint sha (ii_request i)")
    (auto simp: idem_begin_def and_then_def iso_string_def split: if_splits)

lemma idem_serve_moves:
  assumes "idem_serve sha c db = (res, db')"
  shows "idem_moves (idem_find k db) (idem_find k db')"
proof -
  have refl: "idem_moves x x" for x :: "'a idem_record option" by (simp add: idem_moves_def)
  show ?thesis
  proof (cases c)
    case (Begin now i)
    then show ?thesis
      using idem_begin_run [of sha now i db res db'] assms store_claim_moves refl by fastforce
  next
    case (Complete now claim response)
    then show ?thesis
      using assms refl
      by (cases now) (auto simp: idem_complete_def store_complete_def and_then_def iso_string_def split: sum.splits prod.splits
          intro: store_finish_moves)
  next
    case (Fail now claim code)
    then show ?thesis
      using assms refl
      by (cases now) (auto simp: idem_fail_def store_fail_def and_then_def iso_string_def split: sum.splits prod.splits if_splits
          intro: store_finish_moves)
  qed
qed

text \<open>A completed record is not changed any more.\<close>

lemma completed_kept:
  assumes "served (idem_serve sha) db db'" "idem_find k db = Some r" "ir_status r = IDEM_COMPLETED"
  shows "idem_find k db' = Some r"
  using assms
proof (induction rule: served.induct)
  case (served_step db db' c res db'')
  then show ?case using idem_serve_moves [OF served_step.hyps(2), of k] by (auto simp: idem_moves_def)
qed

text \<open>The fields that bind a record to its request never change.\<close>

lemma binding_kept:
  assumes "served (idem_serve sha) db db'" "idem_find k db = Some r"
  shows "\<exists>r'. idem_find k db' = Some r' \<and> ir_requestHash r' = ir_requestHash r \<and> ir_operationId r' = ir_operationId r"
  using assms
proof (induction rule: served.induct)
  case (served_step db db' c res db'')
  then show ?case using idem_serve_moves [OF served_step.hyps(2), of k] by (auto simp: idem_moves_def)
qed auto

lemma idem_begin_found:
  assumes "idem_begin sha now i db = (Inr (out, r), db')"
  shows "idem_find (ii_scope i, ii_key i) db' = Some r
    \<and> (out \<noteq> CLAIM_CONFLICT \<longrightarrow> request_fingerprint sha (ii_request i) = Inr (ir_requestHash r)
        \<and> ir_operationId r = ii_operationId i \<and> ir_status r \<noteq> IDEM_FAILED)
    \<and> (out = CLAIMED \<longrightarrow> idem_find (ii_scope i, ii_key i) db = None
        \<or> (\<exists>r'. idem_find (ii_scope i, ii_key i) db = Some r' \<and> ir_status r' = IDEM_FAILED))"
proof -
  obtain hash t where run: "request_fingerprint sha (ii_request i) = Inr hash"
    "store_claim \<lparr>ir_scope = ii_scope i, ir_key = ii_key i, ir_requestHash = hash,
       ir_status = IDEM_IN_PROGRESS, ir_operationId = ii_operationId i, ir_response = None,
       ir_errorCode = None, ir_createdAt = to_iso_string t, ir_updatedAt = to_iso_string t\<rparr> db = (Inr (out, r), db')"
    using idem_begin_run [OF assms] by auto
  show ?thesis
  proof (cases "idem_find (ii_scope i, ii_key i) db")
    case None
    then show ?thesis using run by (auto simp: store_claim_run idem_find_snoc)
  next
    case (Some x)
    then show ?thesis
      using run idem_find_key [OF Some] by (auto simp: store_claim_run idem_find_update Let_def split: if_splits)
  qed
qed

lemma idem_begin_again:
  assumes "safe_key (ii_key i)" "\<not> blank (ii_scope i)" "has_prefix_id (ii_operationId i) ''IW:BRIDGE:''"
    and "request_fingerprint sha (ii_request i) = Inr hash"
    and "idem_find (ii_scope i, ii_key i) db = Some r" "ir_status r = IDEM_COMPLETED"
  shows "idem_begin sha (Some t) i db =
    (Inr (if hash = ir_requestHash r \<and> ii_operationId i = ir_operationId r then REPLAY else CLAIM_CONFLICT, r), db)"
  using assms by (auto simp: idem_begin_def assert_idempotency_key_def and_then_def iso_string_def store_claim_run)

text \<open>Calls none of which records the failure of a key.\<close>

fun fails_key :: "string \<times> string \<Rightarrow> 'r idem_call \<Rightarrow> bool" where
  "fails_key k (Fail now claim code) = ((ir_scope claim, ir_key claim) = k)"
| "fails_key k _ = False"

definition idem_serve_but ::
  "string \<times> string \<Rightarrow> sha256 \<Rightarrow> 'r idem_call \<Rightarrow> ('r idem_db, claim_outcome \<times> 'r idem_record) comp" where
  "idem_serve_but k sha c = (if fails_key k c then throw (Error []) else idem_serve sha c)"

definition held :: "string \<times> string \<Rightarrow> 'r idem_db \<Rightarrow> bool" where
  "held k db \<longleftrightarrow> (\<exists>r. idem_find k db = Some r \<and> ir_status r \<noteq> IDEM_FAILED)"

lemma finish_held:
  assumes "held k db" "store_finish scope key hash patch db = (res, db')"
    and "\<And>x. ir_scope (patch x) = ir_scope x \<and> ir_key (patch x) = ir_key x"
    and "(scope, key) = k \<Longrightarrow> (\<And>x. ir_status (patch x) \<noteq> IDEM_FAILED)"
  shows "held k db'"
proof (cases "idem_find (scope, key) db")
  case (Some x)
  then show ?thesis
    using assms idem_find_key [OF Some]
    by (auto simp: store_finish_def transaction_def held_def idem_find_update split: if_splits)
qed (use assms in \<open>auto simp: store_finish_def transaction_def\<close>)

lemma claim_held:
  assumes "held k db" "store_claim r db = (res, db')" "ir_status r = IDEM_IN_PROGRESS"
  shows "held k db'"
proof (cases "idem_find (ir_scope r, ir_key r) db")
  case None
  then show ?thesis using assms by (auto simp: store_claim_run held_def idem_find_snoc)
next
  case (Some x)
  then show ?thesis
    using assms idem_find_key [OF Some]
    by (auto simp: store_claim_run held_def idem_find_update Let_def split: if_splits)
qed

lemma serve_but_held:
  assumes "held k db" "idem_serve_but k sha c db = (res, db')"
  shows "held k db'"
proof (cases c)
  case (Begin now i)
  then show ?thesis
    using assms idem_begin_run [of sha now i db res db'] claim_held [OF assms(1)]
    by (fastforce simp: idem_serve_but_def)
next
  case (Complete now claim response)
  then show ?thesis
    using assms
    by (cases now) (auto simp: idem_serve_but_def idem_complete_def store_complete_def and_then_def iso_string_def
        split: sum.splits prod.splits intro: finish_held)
next
  case (Fail now claim code)
  then show ?thesis
    using assms
    by (cases now) (auto simp: idem_serve_but_def idem_fail_def store_fail_def and_then_def iso_string_def
        split: sum.splits prod.splits if_splits intro: finish_held)
qed

lemma served_held: "served (idem_serve_but k sha) db db' \<Longrightarrow> held k db \<Longrightarrow> held k db'"
  by (induction rule: served.induct) (auto dest: serve_but_held)

section \<open>Properties\<close>

text \<open>
  Once a request is completed its record never changes: after any further calls the same request
  under the same key is answered REPLAY with the stored response, and any other one CONFLICT.
\<close>

lemma completed_request_replays:
  assumes "idem_find (ii_scope i, ii_key i) db = Some r" "ir_status r = IDEM_COMPLETED"
    and "served (idem_serve sha) db db'"
    and "safe_key (ii_key i)" "\<not> blank (ii_scope i)" "has_prefix_id (ii_operationId i) ''IW:BRIDGE:''"
    and "request_fingerprint sha (ii_request i) = Inr hash"
  shows "idem_begin sha (Some t) i db' =
    (Inr (if hash = ir_requestHash r \<and> ii_operationId i = ir_operationId r then REPLAY else CLAIM_CONFLICT, r), db')"
  using idem_begin_again [OF assms(4-7) completed_kept [OF assms(3,1,2)] assms(2)] .

text \<open>
  Two answers under one key other than CONFLICT were for the same operation and the same request,
  up to the order of object keys, provided SHA-256 does not collide on the two texts.
\<close>

lemma claim_binds_request:
  assumes first: "idem_begin sha now i db = (Inr (out, r), db1)" and out: "out \<noteq> CLAIM_CONFLICT"
    and between: "served (idem_serve sha) db1 db2"
    and second: "idem_begin sha now' i' db2 = (Inr (out', r'), db3)" "out' \<noteq> CLAIM_CONFLICT"
    and same: "ii_scope i' = ii_scope i" "ii_key i' = ii_key i"
    and proper: "proper_json (ii_request i)" "proper_json (ii_request i')"
    and sha: "\<And>t t'. canonical_json (ii_request i) = Inr t \<Longrightarrow> canonical_json (ii_request i') = Inr t' \<Longrightarrow>
      sha (utf8 t) = sha (utf8 t') \<Longrightarrow> utf8 t = utf8 t'"
  shows "ii_operationId i' = ii_operationId i \<and> normal_json (ii_request i') = normal_json (ii_request i)"
proof -
  have r: "idem_find (ii_scope i, ii_key i) db1 = Some r" "request_fingerprint sha (ii_request i) = Inr (ir_requestHash r)"
    "ir_operationId r = ii_operationId i"
    using idem_begin_found [OF first] out by auto
  obtain r2 where r2: "idem_find (ii_scope i, ii_key i) db2 = Some r2" "ir_requestHash r2 = ir_requestHash r"
    "ir_operationId r2 = ir_operationId r"
    using binding_kept [OF between r(1)] by blast
  have "served (idem_serve sha) db2 db3"
    using served_one [of "idem_serve sha" "Begin now' i'" db2] second(1) by simp
  then obtain r3 where r3: "idem_find (ii_scope i, ii_key i) db3 = Some r3" "ir_requestHash r3 = ir_requestHash r2"
    "ir_operationId r3 = ir_operationId r2"
    using binding_kept [OF _ r2(1)] by blast
  have r': "r3 = r'" "request_fingerprint sha (ii_request i') = Inr (ir_requestHash r')" "ir_operationId r' = ii_operationId i'"
    using idem_begin_found [OF second(1)] second(2) same r3(1) by auto
  note texts = canonical_proper [OF proper(1)] canonical_proper [OF proper(2)]
  have "request_fingerprint sha (ii_request i) = request_fingerprint sha (ii_request i')"
    using r(2) r'(1,2) r2(2) r3(2) by simp
  then have "sha (utf8 (json_text (normal_json (ii_request i)))) = sha (utf8 (json_text (normal_json (ii_request i'))))"
    by (simp add: request_fingerprint_def texts)
  then have "canonical_json (ii_request i) = canonical_json (ii_request i')"
    using sha [OF texts] texts by (simp add: utf8_inj)
  then show ?thesis using canonical_json_inj [OF proper] r(3) r2(3) r3(3) r'(1,3) by simp
qed

text \<open>
  C18. A claim is exclusive: after one caller was answered CLAIMED, no caller is answered CLAIMED under
  the same key until a failure of that key is recorded.
\<close>

theorem claim_is_exclusive:
  assumes "idem_begin sha now i db = (Inr (CLAIMED, r), db1)"
    and "served (idem_serve_but (ii_scope i, ii_key i) sha) db1 db2"
    and "idem_begin sha now' i' db2 = (Inr (out, r'), db3)" "ii_scope i' = ii_scope i" "ii_key i' = ii_key i"
  shows "out \<noteq> CLAIMED"
proof -
  have "held (ii_scope i, ii_key i) db1"
    using idem_begin_found [OF assms(1)] by (auto simp: held_def)
  from served_held [OF assms(2) this] show ?thesis
    using idem_begin_found [OF assms(3)] assms(4,5) by (auto simp: held_def)
qed

section \<open>Concrete calls\<close>

definition sample_idem :: "json \<Rightarrow> idem_input" where
  "sample_idem request = \<lparr>ii_scope = ''s'', ii_key = ''key-0001'', ii_operationId = ''IW:BRIDGE:1'', ii_request = request\<rparr>"

definition sample_sha :: sha256 where
  "sample_sha bytes = map (\<lambda>b. char_of (unat b)) bytes"

definition claimed_record :: "json \<Rightarrow> nat idem_record" where
  "claimed_record request = \<lparr>ir_scope = ''s'', ir_key = ''key-0001'',
     ir_requestHash = ''sha256:'' @ sample_sha (utf8 (json_text (normal_json request))),
     ir_status = IDEM_IN_PROGRESS, ir_operationId = ''IW:BRIDGE:1'', ir_response = None, ir_errorCode = None,
     ir_createdAt = to_iso_string 0, ir_updatedAt = to_iso_string 0\<rparr>"

lemma sample_idem_valid [simp]:
  "safe_key (ii_key (sample_idem q))" "\<not> blank (ii_scope (sample_idem q))"
  "has_prefix_id (ii_operationId (sample_idem q)) ''IW:BRIDGE:''"
proof -
  have "safe_key ''key-0001''" by code_simp
  moreover have "\<not> blank ''s''" by code_simp
  moreover have "has_prefix_id ''IW:BRIDGE:1'' ''IW:BRIDGE:''" by code_simp
  ultimately show "safe_key (ii_key (sample_idem q))" "\<not> blank (ii_scope (sample_idem q))"
    "has_prefix_id (ii_operationId (sample_idem q)) ''IW:BRIDGE:''" by (simp_all add: sample_idem_def)
qed

lemma sample_fingerprint:
  "proper_json q \<Longrightarrow> request_fingerprint sample_sha (ii_request (sample_idem q)) = Inr (ir_requestHash (claimed_record q))"
  by (simp add: request_fingerprint_def canonical_proper sample_idem_def claimed_record_def)

lemma sample_claim:
  assumes "proper_json q"
  shows "idem_begin sample_sha (Some 0) (sample_idem q) [] = (Inr (CLAIMED, claimed_record q), [claimed_record q])"
proof -
  have "idem_begin sample_sha (Some 0) (sample_idem q) [] = store_claim (claimed_record q) []"
    using sample_idem_valid [of q] sample_fingerprint [OF assms]
    by (simp add: idem_begin_def assert_idempotency_key_def and_then_def iso_string_def)
      (simp add: sample_idem_def claimed_record_def)
  then show ?thesis by (simp add: store_claim_run idem_find_def)
qed

lemma sample_found [simp]: "idem_find (''s'', ''key-0001'') [claimed_record q] = Some (claimed_record q)"
  by (simp add: idem_find_def claimed_record_def)

lemma sample_begin_again:
  assumes "proper_json q"
  shows "idem_begin sample_sha (Some 0) (sample_idem q) [claimed_record q]
    = (Inr (CLAIM_IN_PROGRESS, claimed_record q), [claimed_record q])"
proof -
  have "idem_begin sample_sha (Some 0) (sample_idem q) [claimed_record q] = store_claim (claimed_record q) [claimed_record q]"
    using sample_idem_valid [of q] sample_fingerprint [OF assms]
    by (simp add: idem_begin_def assert_idempotency_key_def and_then_def iso_string_def)
      (simp add: sample_idem_def claimed_record_def)
  then show ?thesis by (simp add: store_claim_run idem_find_def claimed_record_def)
qed

theorem claim_is_exclusive_witness:
  "\<exists>out r db. idem_begin sample_sha (Some 0) (sample_idem JsNull) [claimed_record JsNull] = (Inr (out, r), db) \<and> out \<noteq> CLAIMED"
proof -
  have "proper_json JsNull" by simp
  from claim_is_exclusive [OF sample_claim [OF this] served_refl sample_begin_again [OF this]] sample_begin_again [OF this]
  show ?thesis by (simp only: prod.inject sum.inject) blast
qed

end
