(* ===== verification/Attestation_Protocol.thy ===== *)
theory Attestation_Protocol
  imports Idempotency Invariants
begin

text \<open>
  The attestation statement of packages/core/src/attestation-protocol.ts: its checks, canonical bytes,
  digest and replay key, and signing, verifying and attaching a signature. An unsigned attestation is
  an attestation whose signatures are not looked at. Outside the program are the signer, the signature
  verifier, SHA-256, and the order of \<open>localeCompare\<close>; they are arguments.
\<close>

definition network_type_text :: "network_type \<Rightarrow> string" where
  "network_type_text t = (case t of CANTON \<Rightarrow> ''CANTON'' | EVM \<Rightarrow> ''EVM'' | OtherNetworkType s \<Rightarrow> s)"

record attestation_signer =
  sg_validatorId :: string
  sg_algorithm :: string
  sg_publicKeyId :: string
  sg_sign :: "8 word list \<Rightarrow> string result"

record signature_input =
  si_algorithm :: string
  si_publicKeyId :: string
  si_signature :: string
  si_bytes :: "8 word list"

type_synonym signature_verifier = "signature_input \<Rightarrow> bool result"

section \<open>Checks\<close>

definition assert_id :: "string \<Rightarrow> string \<Rightarrow> string \<Rightarrow> unit result" where
  "assert_id v pre name =
     (if \<not> has_prefix_id v pre then Inl (RegistryError INVALID_ARGUMENT (''invalid '' @ name @ '' ID'')) else Inr ())"

definition at_timestamp :: "string \<Rightarrow> string \<Rightarrow> int result" where
  "at_timestamp v name =
     (case date_parse v of
        None \<Rightarrow> Inl (RegistryError INVALID_ARGUMENT (''invalid '' @ name @ '' timestamp'')) | Some t \<Rightarrow> Inr t)"

text \<open>\<open>/^[A-Za-z0-9_-]{16,256}$/\<close>\<close>

definition safe_nonce :: "string \<Rightarrow> bool" where
  "safe_nonce s \<longleftrightarrow> 16 \<le> length s \<and> length s \<le> 256 \<and> list_all (\<lambda>c. alphanumeric c \<or> c \<in> set ''_-'') s"

definition required_texts :: "attestation \<Rightarrow> (string \<times> string) list" where
  "required_texts a =
     [(''source network type'', network_type_text (at_sourceNetworkType a)),
      (''destination network type'', network_type_text (at_destinationNetworkType a)),
      (''source transaction'', at_sourceTransactionId a), (''source event position'', at_sourceEventPosition a),
      (''event type'', at_eventType a), (''observed state position'', at_observedStatePosition a),
      (''policy version'', at_policyVersion a)]"

definition assert_unsigned :: "attestation \<Rightarrow> unit result" where
  "assert_unsigned a =
     (if at_version a \<noteq> ''1''
      then Inl (RegistryError INVALID_ARGUMENT (''unsupported attestation version: '' @ at_version a))
      else bind_result (assert_id (at_id a) ''IW:ATTESTATION:'' ''attestation'') (\<lambda>_.
        bind_result (assert_id (at_operationId a) ''IW:BRIDGE:'' ''operation'') (\<lambda>_.
        bind_result (assert_id (at_assetId a) ''IW:ASSET:'' ''asset'') (\<lambda>_.
        bind_result (assert_id (at_sender a) ''IW:IDENTITY:'' ''sender'') (\<lambda>_.
        bind_result (assert_id (at_receiver a) ''IW:IDENTITY:'' ''receiver'') (\<lambda>_.
        bind_result (assert_id (at_sourceNetworkId a) ''IW:NETWORK:'' ''source network'') (\<lambda>_.
        bind_result (assert_id (at_destinationNetworkId a) ''IW:NETWORK:'' ''destination network'') (\<lambda>_.
        if at_sourceNetworkId a = at_destinationNetworkId a
        then Inl (RegistryError INVALID_ARGUMENT ''attestation networks must differ'')
        else bind_result (for_each (\<lambda>(name, v). if blank v then Inl (RegistryError INVALID_ARGUMENT (name @ '' is required''))
            else Inr ()) (required_texts a)) (\<lambda>_.
        if \<not> safe_nonce (at_nonce a)
        then Inl (RegistryError INVALID_ARGUMENT ''attestation nonce must contain 16-256 safe random characters'')
        else bind_result (parse_atomic_amount (at_amount a)) (\<lambda>amount.
        if amount \<le> 0 then Inl (RegistryError INVALID_ARGUMENT ''attestation amount must be positive'')
        else bind_result (at_timestamp (at_observedAt a) ''observedAt'') (\<lambda>observed.
        bind_result (at_timestamp (at_validFrom a) ''validFrom'') (\<lambda>valid.
        bind_result (at_timestamp (at_expiresAt a) ''expiresAt'') (\<lambda>expires.
        if observed > valid \<or> valid \<ge> expires
        then Inl (RegistryError INVALID_ARGUMENT ''attestation requires observedAt <= validFrom < expiresAt'')
        else Inr ())))))))))))))"

section \<open>Canonical bytes\<close>

definition canonical_attestation_object :: "attestation \<Rightarrow> (string \<times> json) list result" where
  "canonical_attestation_object a =
     bind_result (assert_unsigned a) (\<lambda>_. Inr
      [(''amount'', JsString (at_amount a)), (''assetId'', JsString (at_assetId a)),
       (''attestationId'', JsString (at_id a)), (''destinationNetworkId'', JsString (at_destinationNetworkId a)),
       (''destinationNetworkType'', JsString (network_type_text (at_destinationNetworkType a))),
       (''eventType'', JsString (at_eventType a)), (''expiresAt'', JsString (at_expiresAt a)),
       (''nonce'', JsString (at_nonce a)), (''observedAt'', JsString (at_observedAt a)),
       (''observedStatePosition'', JsString (at_observedStatePosition a)),
       (''operationId'', JsString (at_operationId a)), (''policyVersion'', JsString (at_policyVersion a)),
       (''receiver'', JsString (at_receiver a)), (''sender'', JsString (at_sender a)),
       (''sourceEventPosition'', JsString (at_sourceEventPosition a)),
       (''sourceNetworkId'', JsString (at_sourceNetworkId a)),
       (''sourceNetworkType'', JsString (network_type_text (at_sourceNetworkType a))),
       (''sourceTransactionId'', JsString (at_sourceTransactionId a)),
       (''validFrom'', JsString (at_validFrom a)), (''version'', JsString (at_version a))])"

definition attestation_domain :: "attestation \<Rightarrow> string" where
  "attestation_domain a =
     ''INTERWEAVE_ATTESTATION|'' @ at_version a @ ''|'' @ at_sourceNetworkId a @ ''|'' @ at_destinationNetworkId a"

definition canonical_attestation_bytes :: "attestation \<Rightarrow> 8 word list result" where
  "canonical_attestation_bytes a =
     bind_result (canonical_attestation_object a) (\<lambda>fields.
     bind_result (canonical_json (JsObject fields)) (\<lambda>payload.
       Inr (utf8 (attestation_domain a @ [CHR 0x00] @ payload))))"

definition attestation_digest :: "sha256 \<Rightarrow> attestation \<Rightarrow> string result" where
  "attestation_digest sha a = bind_result (canonical_attestation_bytes a) (\<lambda>bytes. Inr (''sha256:'' @ sha bytes))"

definition attestation_replay_key :: "sha256 \<Rightarrow> attestation \<Rightarrow> string" where
  "attestation_replay_key sha a =
     sha (utf8 (at_version a @ ''|'' @ at_operationId a @ ''|'' @ at_nonce a @ ''|'' @ at_destinationNetworkId a))"

section \<open>Signatures\<close>

definition sign_attestation :: "attestation \<Rightarrow> attestation_signer \<Rightarrow> string \<Rightarrow> validator_signature result" where
  "sign_attestation a signer signedAt =
     bind_result (at_timestamp signedAt ''signedAt'') (\<lambda>time.
     if before_time time (at_observedAt a) \<or> reached time (at_expiresAt a)
     then Inl (RegistryError INVALID_ARGUMENT ''signature time is outside the attestation validity window'')
     else if blank (sg_validatorId signer) \<or> blank (sg_algorithm signer) \<or> blank (sg_publicKeyId signer)
     then Inl (RegistryError INVALID_ARGUMENT ''signer identity, algorithm, and key ID are required'')
     else bind_result (canonical_attestation_bytes a) (\<lambda>bytes.
     bind_result (sg_sign signer bytes) (\<lambda>signature.
       Inr \<lparr>vs_validatorId = sg_validatorId signer, vs_algorithm = sg_algorithm signer,
         vs_publicKeyId = sg_publicKeyId signer, vs_signature = signature, vs_signedAt = signedAt\<rparr>)))"

definition verify_attestation_signature :: "attestation \<Rightarrow> validator_signature \<Rightarrow> signature_verifier \<Rightarrow> bool result" where
  "verify_attestation_signature a s verify =
     bind_result (assert_unsigned a) (\<lambda>_.
     bind_result (at_timestamp (vs_signedAt s) ''signedAt'') (\<lambda>signedAt.
     if before_time signedAt (at_observedAt a) \<or> reached signedAt (at_expiresAt a) then Inr False
     else bind_result (canonical_attestation_bytes a) (\<lambda>bytes.
       verify \<lparr>si_algorithm = vs_algorithm s, si_publicKeyId = vs_publicKeyId s,
         si_signature = vs_signature s, si_bytes = bytes\<rparr>)))"

definition attach_signature ::
  "(string \<Rightarrow> string \<Rightarrow> bool) \<Rightarrow> attestation \<Rightarrow> validator_signature \<Rightarrow> attestation result" where
  "attach_signature locale_le a s =
     bind_result (assert_unsigned a) (\<lambda>_.
     if \<exists>item \<in> set (at_signatures a). vs_validatorId item = vs_validatorId s
     then Inl (RegistryError CONFLICT (''validator already signed attestation: '' @ vs_validatorId s))
     else Inr (a\<lparr>at_signatures := sort_by (\<lambda>x y. locale_le (vs_validatorId x) (vs_validatorId y))
       (at_signatures a @ [s])\<rparr>))"

section \<open>The bytes bind the statement\<close>

definition statement_keys :: "string list" where
  "statement_keys = [''amount'', ''assetId'', ''attestationId'', ''destinationNetworkId'', ''destinationNetworkType'',
     ''eventType'', ''expiresAt'', ''nonce'', ''observedAt'', ''observedStatePosition'', ''operationId'',
     ''policyVersion'', ''receiver'', ''sender'', ''sourceEventPosition'', ''sourceNetworkId'', ''sourceNetworkType'',
     ''sourceTransactionId'', ''validFrom'', ''version'']"

definition statement_values :: "attestation \<Rightarrow> string list" where
  "statement_values a = [at_amount a, at_assetId a, at_id a, at_destinationNetworkId a,
     network_type_text (at_destinationNetworkType a), at_eventType a, at_expiresAt a, at_nonce a, at_observedAt a,
     at_observedStatePosition a, at_operationId a, at_policyVersion a, at_receiver a, at_sender a,
     at_sourceEventPosition a, at_sourceNetworkId a, network_type_text (at_sourceNetworkType a),
     at_sourceTransactionId a, at_validFrom a, at_version a]"

definition statement_fields :: "attestation \<Rightarrow> (string \<times> json) list" where
  "statement_fields a = zip statement_keys (map JsString (statement_values a))"

lemma canonical_object_fields:
  "canonical_attestation_object a = bind_result (assert_unsigned a) (\<lambda>_. Inr (statement_fields a))"
  by (simp add: canonical_attestation_object_def statement_fields_def statement_keys_def statement_values_def)

lemma distinct_statement_keys: "distinct statement_keys"
  by code_simp

lemma zip_values:
  "distinct ks \<Longrightarrow> length vs = length ks \<Longrightarrow> length ws = length ks \<Longrightarrow> set (zip ks vs) = set (zip ks ws) \<Longrightarrow> vs = ws"
proof (rule nth_equalityI)
  fix i assume a: "distinct ks" "length vs = length ks" "length ws = length ks" "set (zip ks vs) = set (zip ks ws)" "i < length vs"
  then have "(ks ! i, vs ! i) \<in> set (zip ks vs)" using nth_mem [of i "zip ks vs"] by simp
  then have "(ks ! i, vs ! i) \<in> set (zip ks ws)" using a(4) by simp
  then show "vs ! i = ws ! i" using a by (auto simp: in_set_zip nth_eq_iff_index_eq)
qed simp

lemma statement_proper: "proper_json (JsObject (statement_fields a))"
  by (auto simp: statement_fields_def elim!: in_set_zipE)

lemma statement_fields_inj:
  assumes "normal_json (JsObject (statement_fields a)) = normal_json (JsObject (statement_fields b))"
  shows "statement_values a = statement_values b"
proof -
  have strings: "map (\<lambda>(k, v). (k, normal_json v)) (statement_fields x) = statement_fields x" for x
    by (rule map_idI) (auto simp: statement_fields_def elim!: in_set_zipE)
  have "set (sort_by key_le (statement_fields a)) = set (sort_by key_le (statement_fields b))"
    using assms by (simp add: strings)
  then have "map JsString (statement_values a) = map JsString (statement_values b)"
    unfolding set_sort_by statement_fields_def
    by (rule zip_values [OF distinct_statement_keys, rotated 2]) (simp_all add: statement_keys_def statement_values_def)
  then show ?thesis by (simp add: inj_map_eq_map inj_def)
qed

text \<open>No text of a proper value holds a NUL, so the domain and the payload are told apart.\<close>

lemma escape_no_nul: "CHR 0x00 \<notin> set (escape_char c)"
proof (cases "(of_char c :: nat) \<in> {34, 92, 8, 9, 10, 12, 13} \<or> (of_char c :: nat) < 32")
  case True
  have hex: "hex_digit n \<noteq> CHR 0x00" if "n < 16" for n
  proof
    assume "hex_digit n = CHR 0x00"
    then have "(of_char (hex_digit n) :: nat) = 0" by simp
    then show False using that by (simp add: hex_digit_def split: if_splits)
  qed
  have "(of_char c :: nat) < 256" by (rule nat_of_char_less_256)
  then have "(of_char c :: nat) div 16 < 16" by (intro less_mult_imp_div_less) simp
  then have "hex_digit (of_char c div 16) \<noteq> CHR 0x00" "hex_digit (of_char c mod 16) \<noteq> CHR 0x00"
    using hex by auto
  then show ?thesis using True unfolding escape_char_def Let_def insert_iff empty_iff by (elim disjE) auto
next
  case False
  then have "c \<noteq> CHR 0x00" by auto
  then show ?thesis using False unfolding escape_char_def Let_def by simp
qed

lemma json_string_no_nul: "CHR 0x00 \<notin> set (json_string s)"
  using escape_no_nul by (auto simp: json_string_def)

lemma join_chars: "set (join sep xs) \<subseteq> set sep \<union> (\<Union>x \<in> set xs. set x)"
  by (induction sep xs rule: join.induct) auto

lemma json_text_no_nul: "proper_json v \<Longrightarrow> CHR 0x00 \<notin> set (json_text v)"
proof (induction v)
  case (JsArray vs)
  then show ?case using join_chars [of "'',''" "map json_text vs"] by auto
next
  case (JsObject fs)
  have "CHR 0x00 \<notin> set (field_text p)" if "p \<in> set fs" for p
    using JsObject that json_string_no_nul by (cases p) (fastforce simp: field_text_def)
  then have "CHR 0x00 \<notin> set (join '','' (map field_text fs))"
    using join_chars [of "'',''" "map field_text fs"] by auto
  then show ?case unfolding json_text_object by simp
next
  case (JsNumber n)
  then show ?case by (auto simp: or_else_def number_text_def list_all_iff number_char_def is_digit_def split: option.splits)
qed (auto simp: json_string_no_nul)

lemma attestation_bytes:
  "canonical_attestation_bytes a = bind_result (assert_unsigned a) (\<lambda>_.
     Inr (utf8 (attestation_domain a @ CHR 0x00 # json_text (normal_json (JsObject (statement_fields a))))))"
  by (cases "assert_unsigned a")
    (simp_all add: canonical_attestation_bytes_def canonical_object_fields canonical_proper [OF statement_proper]
      del: normal_json.simps canonical_json.simps)

text \<open>
  C19. Equal canonical bytes, and so equal signed messages, come only from statements that agree in
  every field.
\<close>

theorem attestation_bytes_bind:
  assumes "canonical_attestation_bytes a = Inr bytes" "canonical_attestation_bytes b = Inr bytes"
  shows "statement_values a = statement_values b"
proof -
  let ?text = "\<lambda>x. json_text (normal_json (JsObject (statement_fields x)))"
  have "utf8 (attestation_domain a @ CHR 0x00 # ?text a) = utf8 (attestation_domain b @ CHR 0x00 # ?text b)"
    using assms by (simp add: attestation_bytes del: normal_json.simps)
  then have "attestation_domain a @ CHR 0x00 # ?text a = attestation_domain b @ CHR 0x00 # ?text b"
    by (simp only: utf8_inj)
  moreover have nul: "CHR 0x00 \<notin> set (?text x)" for x
    by (rule json_text_no_nul) (rule proper_normal [OF statement_proper])
  ultimately have "?text a = ?text b" using separator_inject [OF nul nul] by blast
  then have "canonical_json (JsObject (statement_fields a)) = canonical_json (JsObject (statement_fields b))"
    by (simp only: canonical_proper [OF statement_proper])
  then show ?thesis
    by (intro statement_fields_inj) (simp only: canonical_json_inj [OF statement_proper statement_proper])
qed

definition sample_attestation :: attestation where
  "sample_attestation = \<lparr>at_version = ''1'', at_id = ''IW:ATTESTATION:1'', at_operationId = ''IW:BRIDGE:1'',
     at_sourceNetworkType = EVM, at_sourceNetworkId = ''IW:NETWORK:e'', at_sourceTransactionId = ''0xab'',
     at_sourceEventPosition = ''0'', at_eventType = ''LOCK'', at_assetId = ''IW:ASSET:gold'', at_amount = ''5'',
     at_sender = ''IW:IDENTITY:s'', at_receiver = ''IW:IDENTITY:r'', at_destinationNetworkType = CANTON,
     at_destinationNetworkId = ''IW:NETWORK:c'', at_nonce = ''nonce-0123456789'', at_observedStatePosition = ''7'',
     at_observedAt = ''2025-01-01T00:00:00Z'', at_validFrom = ''2025-01-01T00:00:00Z'',
     at_expiresAt = ''2025-01-02T00:00:00Z'', at_policyVersion = ''1'', at_signatures = []\<rparr>"

lemma sample_unsigned: "assert_unsigned sample_attestation = Inr ()"
  by code_simp

lemma unsigned_signatures: "assert_unsigned (a\<lparr>at_signatures := s\<rparr>) = assert_unsigned a"
  by (simp add: assert_unsigned_def required_texts_def cong: if_cong)

definition one_signature :: validator_signature where
  "one_signature = \<lparr>vs_validatorId = ''v'', vs_algorithm = ''ed25519'', vs_publicKeyId = ''k'', vs_signature = ''sig'',
     vs_signedAt = ''2025-01-01T00:00:00.000Z''\<rparr>"

theorem attestation_bytes_bind_witness:
  "statement_values (sample_attestation\<lparr>at_signatures := [one_signature]\<rparr>) = statement_values sample_attestation"
proof -
  have "canonical_attestation_bytes (sample_attestation\<lparr>at_signatures := [one_signature]\<rparr>) =
      canonical_attestation_bytes sample_attestation"
    by (simp add: attestation_bytes unsigned_signatures statement_fields_def statement_values_def attestation_domain_def
        del: normal_json.simps)
  moreover obtain bytes where "canonical_attestation_bytes sample_attestation = Inr bytes"
    by (simp add: attestation_bytes sample_unsigned del: normal_json.simps)
  ultimately show ?thesis by (intro attestation_bytes_bind) simp_all
qed

end
