(* ===== verification/Threshold.thy ===== *)
theory Threshold
  imports Attestation_Protocol
begin

text \<open>
  Validator sets and threshold verification of packages/core/src/threshold-attestation.ts. A time in a
  comparison is a finite time value, \<open>NaN\<close> or infinity, as in JavaScript.
\<close>

record validator_member =
  vm_validatorId :: string
  vm_algorithm :: string
  vm_publicKeyId :: string
  vm_enabledFrom :: iso_timestamp
  vm_disabledAt :: "iso_timestamp option"

record validator_set =
  va_id :: string
  va_version :: string
  va_threshold :: js_number
  va_validFrom :: iso_timestamp
  va_validUntil :: "iso_timestamp option"
  va_members :: "validator_member list"

section \<open>Times\<close>

datatype ext_time = NotTime | At int | Never

fun ext_less :: "ext_time \<Rightarrow> ext_time \<Rightarrow> bool" where
  "ext_less (At a) (At b) = (a < b)"
| "ext_less (At a) Never = True"
| "ext_less _ _ = False"

definition parsed_time :: "string \<Rightarrow> ext_time" where
  "parsed_time s = (case date_parse s of None \<Rightarrow> NotTime | Some t \<Rightarrow> At t)"

definition end_time :: "string option \<Rightarrow> ext_time" where
  "end_time s = (if truthy s then parsed_time (the s) else Never)"

definition parse_time :: "string \<Rightarrow> string \<Rightarrow> int result" where
  "parse_time v name =
     (case date_parse v of
        None \<Rightarrow> Inl (RegistryError INVALID_ARGUMENT (name @ '' must be a valid timestamp'')) | Some t \<Rightarrow> Inr t)"

definition intervals_overlap :: "string \<Rightarrow> string option \<Rightarrow> string \<Rightarrow> string option \<Rightarrow> bool" where
  "intervals_overlap aFrom aUntil bFrom bUntil \<longleftrightarrow>
     ext_less (parsed_time aFrom) (end_time bUntil) \<and> ext_less (parsed_time bFrom) (end_time aUntil)"

section \<open>Validator sets\<close>

fun assert_members :: "string list \<Rightarrow> string list \<Rightarrow> validator_member list \<Rightarrow> unit result" where
  "assert_members ids keys [] = Inr ()"
| "assert_members ids keys (m # ms) =
     (if blank (vm_validatorId m) \<or> blank (vm_algorithm m) \<or> blank (vm_publicKeyId m)
      then Inl (RegistryError INVALID_ARGUMENT ''validator member identity, algorithm, and key are required'')
      else if vm_validatorId m \<in> set ids
      then Inl (RegistryError INVALID_ARGUMENT (''duplicate validator member: '' @ vm_validatorId m))
      else let key = vm_algorithm m @ ''|'' @ vm_publicKeyId m in
        if key \<in> set keys
        then Inl (RegistryError INVALID_ARGUMENT (''validator key is shared by multiple members: '' @ vm_publicKeyId m))
        else bind_result (parse_time (vm_enabledFrom m) ''member enabledFrom'') (\<lambda>enabled.
          bind_result (if truthy (vm_disabledAt m)
              then bind_result (parse_time (the (vm_disabledAt m)) ''member disabledAt'') (\<lambda>disabled.
                if enabled \<ge> disabled
                then Inl (RegistryError INVALID_ARGUMENT (''invalid member interval: '' @ vm_validatorId m)) else Inr ())
              else Inr ()) (\<lambda>_.
            assert_members (vm_validatorId m # ids) (key # keys) ms)))"

definition member_enabled :: "int \<Rightarrow> validator_member \<Rightarrow> bool" where
  "member_enabled time m \<longleftrightarrow>
     (case date_parse (vm_enabledFrom m) of None \<Rightarrow> False | Some t \<Rightarrow> t \<le> time)
     \<and> (\<not> truthy (vm_disabledAt m) \<or> ext_less (At time) (end_time (vm_disabledAt m)))"

definition set_boundaries :: "int \<Rightarrow> validator_set \<Rightarrow> int list" where
  "set_boundaries start s =
     concat (map (\<lambda>x. case x of
         At t \<Rightarrow> if t \<ge> start \<and> (\<not> truthy (va_validUntil s) \<or> ext_less (At t) (end_time (va_validUntil s))) then [t] else []
       | _ \<Rightarrow> [])
       (At start # concat (map (\<lambda>m. [parsed_time (vm_enabledFrom m), end_time (vm_disabledAt m)]) (va_members s))))"

definition assert_validator_set :: "validator_set \<Rightarrow> unit result" where
  "assert_validator_set s =
     (if blank (va_id s) \<or> blank (va_version s)
      then Inl (RegistryError INVALID_ARGUMENT ''validator set ID and version are required'')
      else bind_result (parse_time (va_validFrom s) ''validator set validFrom'') (\<lambda>start.
        bind_result (if truthy (va_validUntil s)
            then bind_result (parse_time (the (va_validUntil s)) ''validator set validUntil'') (\<lambda>until.
              if start \<ge> until then Inl (RegistryError INVALID_ARGUMENT ''validator set interval is empty'') else Inr ())
            else Inr ()) (\<lambda>_.
        if not_safe_at_least (va_threshold s) 1 \<or> num_val (va_threshold s) > int (length (va_members s))
        then Inl (RegistryError INVALID_ARGUMENT ''validator threshold must be between one and member count'')
        else bind_result (assert_members [] [] (va_members s)) (\<lambda>_.
          for_each (\<lambda>time. if int (length (filter (member_enabled time) (va_members s))) < num_val (va_threshold s)
              then Inl (RegistryError INVALID_ARGUMENT ''validator threshold is not achievable throughout the set interval'')
              else Inr ()) (set_boundaries start s)))))"

type_synonym validator_registry = "(string, validator_set) js_map"

definition register_set :: "validator_set \<Rightarrow> (validator_registry, validator_set) comp" where
  "register_set s reg =
     (case assert_validator_set s of
        Inl e \<Rightarrow> (Inl e, reg)
      | Inr _ \<Rightarrow>
          if map_has reg (va_id s) then (Inl (RegistryError CONFLICT (''validator set is immutable: '' @ va_id s)), reg)
          else case find (\<lambda>x. intervals_overlap (va_validFrom s) (va_validUntil s) (va_validFrom x) (va_validUntil x))
              (map_values reg) of
            Some x \<Rightarrow> (Inl (RegistryError CONFLICT (''validator set validity overlaps: '' @ va_id x)), reg)
          | None \<Rightarrow> (Inr s, map_set (va_id s) s reg))"

definition get_set :: "string \<Rightarrow> validator_registry \<Rightarrow> validator_set option" where
  "get_set i reg = map_get reg i"

definition resolve_set :: "validator_registry \<Rightarrow> string \<Rightarrow> iso_timestamp \<Rightarrow> validator_set result" where
  "resolve_set reg i attestationValidFrom =
     (case map_get reg i of
        None \<Rightarrow> Inl (RegistryError NOT_FOUND (''validator set not found: '' @ i))
      | Some s \<Rightarrow>
          bind_result (parse_time attestationValidFrom ''attestation validFrom'') (\<lambda>time.
          bind_result (parse_time (va_validFrom s) ''validator set validFrom'') (\<lambda>start.
          let outside = Inl (RegistryError INVALID_ARGUMENT (''validator set is not valid for attestation time: '' @ i)) in
          if time < start then outside
          else if truthy (va_validUntil s)
          then bind_result (parse_time (the (va_validUntil s)) ''validator set validUntil'') (\<lambda>until.
            if time \<ge> until then outside else Inr s)
          else Inr s)))"

section \<open>Checking signatures\<close>

datatype signature_rejection = DUPLICATE_VALIDATOR | NOT_A_MEMBER | MEMBER_DISABLED | KEY_MISMATCH | INVALID_SIGNATURE

datatype threshold_reason = INSUFFICIENT_THRESHOLD | INVALID_SIGNATURES | ATTESTATION_EXPIRED

datatype threshold_verification =
    Satisfied string js_number "string list"
  | Rejected string js_number "string list" "(string \<times> signature_rejection) list" threshold_reason

definition members_map :: "validator_member list \<Rightarrow> (string, validator_member) js_map" where
  "members_map ms = fold (\<lambda>m acc. map_set (vm_validatorId m) m acc) ms []"

fun check_loop ::
  "(string, validator_member) js_map \<Rightarrow> signature_verifier \<Rightarrow> attestation \<Rightarrow> string list
     \<Rightarrow> validator_signature list \<Rightarrow> (string \<times> signature_rejection) list \<Rightarrow> validator_signature list
     \<Rightarrow> validator_signature list \<times> (string \<times> signature_rejection) list" where
  "check_loop members verify a seen valid rejected [] = (valid, rejected)"
| "check_loop members verify a seen valid rejected (s # ss) =
     (let v = vs_validatorId s;
          reject = (\<lambda>reason seen. check_loop members verify a seen valid (rejected @ [(v, reason)]) ss)
      in if v \<in> set seen then reject DUPLICATE_VALIDATOR seen
      else case map_get members v of
        None \<Rightarrow> reject NOT_A_MEMBER (v # seen)
      | Some m \<Rightarrow>
          (case date_parse (vs_signedAt s) of
            None \<Rightarrow> reject INVALID_SIGNATURE (v # seen)
          | Some signedAt \<Rightarrow>
              if before_time signedAt (vm_enabledFrom m)
                \<or> truthy (vm_disabledAt m) \<and> reached signedAt (the (vm_disabledAt m))
              then reject MEMBER_DISABLED (v # seen)
              else if vs_algorithm s \<noteq> vm_algorithm m \<or> vs_publicKeyId s \<noteq> vm_publicKeyId m
              then reject KEY_MISMATCH (v # seen)
              else case verify_attestation_signature a s verify of
                Inr True \<Rightarrow> check_loop members verify a (v # seen) (valid @ [s]) rejected ss
              | _ \<Rightarrow> reject INVALID_SIGNATURE (v # seen)))"

definition check_signatures ::
  "(string \<Rightarrow> string \<Rightarrow> bool) \<Rightarrow> signature_verifier \<Rightarrow> attestation \<Rightarrow> validator_set \<Rightarrow> validator_signature list
     \<Rightarrow> validator_signature list \<times> (string \<times> signature_rejection) list" where
  "check_signatures locale_le verify a s signatures =
     (case check_loop (members_map (va_members s)) verify a [] [] [] signatures of
        (valid, rejected) \<Rightarrow> (sort_by (\<lambda>x y. locale_le (vs_validatorId x) (vs_validatorId y)) valid, rejected))"

definition threshold_result ::
  "validator_set \<Rightarrow> validator_signature list \<times> (string \<times> signature_rejection) list \<Rightarrow> bool \<Rightarrow> threshold_verification" where
  "threshold_result s checked is_expired =
     (case checked of (valid, rejected) \<Rightarrow>
        let ids = map vs_validatorId valid in
        if is_expired then Rejected (va_id s) (va_threshold s) ids rejected ATTESTATION_EXPIRED
        else if rejected \<noteq> [] then Rejected (va_id s) (va_threshold s) ids rejected INVALID_SIGNATURES
        else if int (length valid) < num_val (va_threshold s)
        then Rejected (va_id s) (va_threshold s) ids [] INSUFFICIENT_THRESHOLD
        else Satisfied (va_id s) (va_threshold s) ids)"

fun attach_all :: "(string \<Rightarrow> string \<Rightarrow> bool) \<Rightarrow> attestation \<Rightarrow> validator_signature list \<Rightarrow> attestation result" where
  "attach_all locale_le a [] = Inr a"
| "attach_all locale_le a (s # ss) = bind_result (attach_signature locale_le a s) (\<lambda>a'. attach_all locale_le a' ss)"

definition aggregate ::
  "(string \<Rightarrow> string \<Rightarrow> bool) \<Rightarrow> signature_verifier \<Rightarrow> js_date \<Rightarrow> validator_registry \<Rightarrow> attestation \<Rightarrow> string
     \<Rightarrow> validator_signature list \<Rightarrow> (attestation \<times> threshold_verification) result" where
  "aggregate locale_le verify now reg statement validatorSetId signatures =
     bind_result (assert_unsigned statement) (\<lambda>_.
     bind_result (resolve_set reg validatorSetId (at_validFrom statement)) (\<lambda>s.
     let checked = check_signatures locale_le verify statement s signatures in
     bind_result (attach_all locale_le (statement\<lparr>at_signatures := []\<rparr>) (fst checked)) (\<lambda>a.
       Inr (a, threshold_result s checked (date_reached now (at_expiresAt statement))))))"

definition verify_threshold ::
  "(string \<Rightarrow> string \<Rightarrow> bool) \<Rightarrow> signature_verifier \<Rightarrow> js_date \<Rightarrow> validator_registry \<Rightarrow> attestation \<Rightarrow> string
     \<Rightarrow> threshold_verification result" where
  "verify_threshold locale_le verify now reg a validatorSetId =
     bind_result (assert_unsigned a) (\<lambda>_.
     bind_result (resolve_set reg validatorSetId (at_validFrom a)) (\<lambda>s.
       Inr (threshold_result s (check_signatures locale_le verify a s (at_signatures a))
         (date_reached now (at_expiresAt a)))))"

section \<open>What a registered set guarantees\<close>

lemma parse_time_Inr: "parse_time v name = Inr t \<longleftrightarrow> date_parse v = Some t"
  by (auto simp: parse_time_def split: option.splits)

lemma parsed_time_At: "parsed_time v = At t \<longleftrightarrow> date_parse v = Some t"
  by (auto simp: parsed_time_def split: option.splits)

lemma assert_members_Inr:
  "assert_members ids keys ms = Inr () \<Longrightarrow>
     distinct (map vm_validatorId ms) \<and> (\<forall>m \<in> set ms. vm_validatorId m \<notin> set ids
       \<and> (\<exists>e. date_parse (vm_enabledFrom m) = Some e)
       \<and> (truthy (vm_disabledAt m) \<longrightarrow> (\<exists>d. date_parse (the (vm_disabledAt m)) = Some d)))"
proof (induction ids keys ms rule: assert_members.induct)
  case (2 ids keys m ms)
  then show ?case by (auto simp: Let_def parse_time_Inr split: if_splits)
qed simp

lemma assert_set_Inr:
  assumes "assert_validator_set s = Inr ()"
  obtains start where "date_parse (va_validFrom s) = Some start" "1 \<le> num_val (va_threshold s)"
    "assert_members [] [] (va_members s) = Inr ()" "ext_less (At start) (end_time (va_validUntil s))"
    "\<forall>time \<in> set (set_boundaries start s). num_val (va_threshold s) \<le> int (length (filter (member_enabled time) (va_members s)))"
proof -
  obtain start where start: "date_parse (va_validFrom s) = Some start"
    using assms by (auto simp: assert_validator_set_def parse_time_Inr split: if_splits)
  then have pf: "parse_time (va_validFrom s) ''validator set validFrom'' = Inr start" by (simp add: parse_time_Inr)
  have "ext_less (At start) (end_time (va_validUntil s))"
    using assms by (auto simp: assert_validator_set_def pf end_time_def parse_time_Inr parsed_time_def split: if_splits)
  moreover have "1 \<le> num_val (va_threshold s)" "assert_members [] [] (va_members s) = Inr ()"
    "\<forall>time \<in> set (set_boundaries start s). num_val (va_threshold s) \<le> int (length (filter (member_enabled time) (va_members s)))"
    using assms by (auto simp: assert_validator_set_def pf not_safe_at_least_def for_each_Inr_iff split: if_splits)
  ultimately show thesis using start that by blast
qed

text \<open>The set is valid at a time.\<close>

definition in_interval :: "int \<Rightarrow> validator_set \<Rightarrow> bool" where
  "in_interval time s \<longleftrightarrow> (\<exists>start. date_parse (va_validFrom s) = Some start \<and> start \<le> time)
     \<and> ext_less (At time) (end_time (va_validUntil s))"

lemma ext_less_le: "a \<le> b \<Longrightarrow> ext_less (At b) x \<Longrightarrow> ext_less (At a) x"
  by (cases x) auto

lemma overlap_sym: "intervals_overlap aFrom aUntil bFrom bUntil \<longleftrightarrow> intervals_overlap bFrom bUntil aFrom aUntil"
  by (auto simp: intervals_overlap_def)

lemma in_both_overlap:
  "in_interval time a \<Longrightarrow> in_interval time b \<Longrightarrow>
     intervals_overlap (va_validFrom a) (va_validUntil a) (va_validFrom b) (va_validUntil b)"
  by (auto simp: in_interval_def intervals_overlap_def parsed_time_def intro: ext_less_le)

lemma filter_length_mono: "(\<And>x. x \<in> set xs \<Longrightarrow> P x \<Longrightarrow> Q x) \<Longrightarrow> length (filter P xs) \<le> length (filter Q xs)"
  by (induction xs) (auto intro: le_SucI)

lemma boundary_iff:
  "t \<in> set (set_boundaries start s) \<longleftrightarrow> start \<le> t \<and> ext_less (At t) (end_time (va_validUntil s))
     \<and> (t = start \<or> (\<exists>m \<in> set (va_members s). parsed_time (vm_enabledFrom m) = At t \<or> end_time (vm_disabledAt m) = At t))"
proof -
  have "(\<not> truthy u \<or> ext_less (At t) (end_time u)) \<longleftrightarrow> ext_less (At t) (end_time u)" for u
    by (simp add: end_time_def)
  then show ?thesis
    by (auto simp: set_boundaries_def split: ext_time.splits if_splits; metis)
qed

text \<open>
  The check at the boundaries is enough: between two of them no member is enabled or disabled, so at
  every time of the interval enough members are enabled.
\<close>

lemma threshold_achievable:
  assumes "assert_validator_set s = Inr ()" "in_interval time s"
  shows "num_val (va_threshold s) \<le> int (length (filter (member_enabled time) (va_members s)))"
proof -
  obtain start where start: "date_parse (va_validFrom s) = Some start" "ext_less (At start) (end_time (va_validUntil s))"
    and members: "assert_members [] [] (va_members s) = Inr ()"
    and enough: "\<forall>time \<in> set (set_boundaries start s).
      num_val (va_threshold s) \<le> int (length (filter (member_enabled time) (va_members s)))"
    by (rule assert_set_Inr [OF assms(1)])
  have inside: "start \<le> time" "ext_less (At time) (end_time (va_validUntil s))"
    using assms(2) start by (auto simp: in_interval_def)
  define B where "B = {t \<in> set (set_boundaries start s). t \<le> time}"
  have "start \<in> B" using start inside by (simp add: B_def boundary_iff)
  then have B: "finite B" "B \<noteq> {}" by (auto simp: B_def)
  have last: "Max B \<in> set (set_boundaries start s)" "Max B \<le> time" using Max_in [OF B] by (auto simp: B_def)
  have "member_enabled time m" if m: "m \<in> set (va_members s)" "member_enabled (Max B) m" for m
  proof -
    have "ext_less (At time) (end_time (vm_disabledAt m))" if t: "truthy (vm_disabledAt m)"
    proof -
      obtain d where d: "date_parse (the (vm_disabledAt m)) = Some d"
        using assert_members_Inr [OF members] m(1) t by blast
      then have "end_time (vm_disabledAt m) = At d" using t by (simp add: end_time_def parsed_time_def)
      moreover have "Max B < d" using m(2) t calculation by (auto simp: member_enabled_def)
      moreover have "time < d"
      proof (rule ccontr)
        assume "\<not> time < d"
        then have "d \<le> time" by simp
        have "start \<le> Max B" using \<open>start \<in> B\<close> B by simp
        then have "start \<le> d" using \<open>Max B < d\<close> by simp
        moreover have "ext_less (At d) (end_time (va_validUntil s))" using ext_less_le \<open>d \<le> time\<close> inside(2) by blast
        ultimately have "d \<in> B"
          using \<open>end_time (vm_disabledAt m) = At d\<close> m(1) \<open>d \<le> time\<close>
          unfolding B_def mem_Collect_eq boundary_iff by blast
        then show False using \<open>Max B < d\<close> B by (simp add: leD)
      qed
      ultimately show ?thesis by simp
    qed
    then show ?thesis using m(2) last(2) by (auto simp: member_enabled_def split: option.splits)
  qed
  then have "length (filter (member_enabled (Max B)) (va_members s)) \<le> length (filter (member_enabled time) (va_members s))"
    by (rule filter_length_mono)
  then show ?thesis using enough last(1) by force
qed

section \<open>The registry\<close>

definition registry_ok :: "validator_registry \<Rightarrow> bool" where
  "registry_ok reg \<longleftrightarrow> (\<forall>i s. map_get reg i = Some s \<longrightarrow> va_id s = i \<and> assert_validator_set s = Inr ())
     \<and> (\<forall>i j s s'. map_get reg i = Some s \<longrightarrow> map_get reg j = Some s' \<longrightarrow> i \<noteq> j \<longrightarrow>
          \<not> intervals_overlap (va_validFrom s) (va_validUntil s) (va_validFrom s') (va_validUntil s'))
     \<and> distinct (map fst reg)"

lemma register_ok:
  assumes "registry_ok reg" "register_set s reg = (res, reg')"
  shows "registry_ok reg'"
proof (cases "assert_validator_set s = Inr () \<and> \<not> map_has reg (va_id s)
    \<and> find (\<lambda>x. intervals_overlap (va_validFrom s) (va_validUntil s) (va_validFrom x) (va_validUntil x)) (map_values reg) = None")
  case True
  then have reg': "reg' = map_set (va_id s) s reg" using assms(2) by (auto simp: register_set_def)
  have none: "\<not> intervals_overlap (va_validFrom s) (va_validUntil s) (va_validFrom x) (va_validUntil x)"
    if "map_get reg i = Some x" for i x
    using True map_of_SomeD [OF that] by (force simp: find_None_iff)
  show ?thesis
    using assms(1) True none unfolding reg' registry_ok_def
    by (auto simp: distinct_update overlap_sym [of "va_validFrom s"] split: if_splits)
next
  case False
  then show ?thesis using assms by (auto simp: register_set_def split: sum.splits if_splits option.splits)
qed

lemma served_registry_ok: "served register_set reg reg' \<Longrightarrow> registry_ok reg \<Longrightarrow> registry_ok reg'"
  by (induction rule: served.induct) (auto dest: register_ok)

lemma empty_registry_ok: "registry_ok []"
  by (simp add: registry_ok_def)

lemma resolve_Inr:
  "resolve_set reg i v = Inr s \<longleftrightarrow> map_get reg i = Some s \<and> (\<exists>t. date_parse v = Some t \<and> in_interval t s)
     \<and> date_parse (va_validFrom s) \<noteq> None"
proof (cases "map_get reg i")
  case (Some x)
  show ?thesis
  proof (cases "date_parse v")
    case t: (Some t)
    show ?thesis
    proof (cases "date_parse (va_validFrom x)")
      case (Some start)
      then show ?thesis
        using \<open>map_get reg i = Some x\<close> t
        by (cases "truthy (va_validUntil x)"; cases "date_parse (the (va_validUntil x))")
          (auto simp: resolve_set_def parse_time_def in_interval_def end_time_def parsed_time_def Let_def)
    qed (use Some t in \<open>auto simp: resolve_set_def parse_time_def\<close>)
  qed (use Some in \<open>auto simp: resolve_set_def parse_time_def\<close>)
qed (simp add: resolve_set_def)

section \<open>The signature loop\<close>

text \<open>What the loop accepts: a valid signature of a member, made with its key while it was enabled.\<close>

definition good_signature :: "signature_verifier \<Rightarrow> attestation \<Rightarrow> validator_set \<Rightarrow> validator_signature \<Rightarrow> bool" where
  "good_signature verify a vset s \<longleftrightarrow>
     (\<exists>m \<in> set (va_members vset). vm_validatorId m = vs_validatorId s \<and> vm_algorithm m = vs_algorithm s
        \<and> vm_publicKeyId m = vs_publicKeyId s
        \<and> (\<exists>t. date_parse (vs_signedAt s) = Some t \<and> member_enabled t m)
        \<and> verify_attestation_signature a s verify = Inr True)"

lemma fold_map_get:
  "distinct (map vm_validatorId ms) \<Longrightarrow>
   map_get (fold (\<lambda>m acc. map_set (vm_validatorId m) m acc) ms acc) v =
     (case find (\<lambda>m. vm_validatorId m = v) ms of Some m \<Rightarrow> Some m | None \<Rightarrow> map_get acc v)"
proof (induction ms arbitrary: acc)
  case (Cons m ms)
  show ?case
  proof (cases "vm_validatorId m = v")
    case True
    then have "find (\<lambda>m. vm_validatorId m = v) ms = None" using Cons.prems by (simp add: find_None_iff) (metis image_eqI)
    then show ?thesis using Cons.IH Cons.prems True by simp
  qed (use Cons in \<open>simp split: option.split\<close>)
qed simp

lemma members_map_get:
  assumes "distinct (map vm_validatorId ms)"
  shows "map_get (members_map ms) v = Some m \<longleftrightarrow> m \<in> set ms \<and> vm_validatorId m = v"
proof -
  have "map_get (members_map ms) v = find (\<lambda>m. vm_validatorId m = v) ms"
    using fold_map_get [OF assms, of "[]" v] by (simp add: members_map_def split: option.split)
  moreover have "find (\<lambda>m. vm_validatorId m = v) ms = Some m \<longleftrightarrow> m \<in> set ms \<and> vm_validatorId m = v"
  proof
    assume "find (\<lambda>m. vm_validatorId m = v) ms = Some m"
    then show "m \<in> set ms \<and> vm_validatorId m = v" by (auto simp: find_Some_iff)
  next
    assume "m \<in> set ms \<and> vm_validatorId m = v"
    then show "find (\<lambda>m. vm_validatorId m = v) ms = Some m"
      using assms by (intro find_by_key [where f = vm_validatorId]) auto
  qed
  ultimately show ?thesis by simp
qed

lemma check_step:
  assumes ok: "assert_members [] [] (va_members vset) = Inr ()"
  shows "\<exists>reason seen'. set seen' = insert (vs_validatorId s) (set seen)
    \<and> check_loop (members_map (va_members vset)) verify a seen valid rejected (s # ss) =
      (if vs_validatorId s \<notin> set seen \<and> good_signature verify a vset s
       then check_loop (members_map (va_members vset)) verify a seen' (valid @ [s]) rejected ss
       else check_loop (members_map (va_members vset)) verify a seen' valid
         (rejected @ [(vs_validatorId s, reason)]) ss)"
proof (cases "vs_validatorId s \<in> set seen")
  case True
  then show ?thesis by (intro exI [of _ DUPLICATE_VALIDATOR] exI [of _ seen]) (auto simp: Let_def)
next
  case False
  let ?M = "members_map (va_members vset)"
  note ms = assert_members_Inr [OF ok]
  have get: "map_get ?M (vs_validatorId s) = Some m \<longleftrightarrow> m \<in> set (va_members vset) \<and> vm_validatorId m = vs_validatorId s" for m
    using ms members_map_get by blast
  show ?thesis
  proof (cases "map_get ?M (vs_validatorId s)")
    case None
    then have "\<not> good_signature verify a vset s" using get by (auto simp: good_signature_def)
    then show ?thesis
      using False None by (intro exI [of _ NOT_A_MEMBER] exI [of _ "vs_validatorId s # seen"]) (auto simp: Let_def)
  next
    case (Some m)
    then have m: "m \<in> set (va_members vset)" "vm_validatorId m = vs_validatorId s" using get by blast+
    obtain e where e: "date_parse (vm_enabledFrom m) = Some e" using ms m(1) by blast
    have only: "m' = m" if "m' \<in> set (va_members vset)" "vm_validatorId m' = vs_validatorId s" for m'
      using get [of m'] Some that by simp
    have enabled: "before_time t (vm_enabledFrom m) \<or> truthy (vm_disabledAt m) \<and> reached t (the (vm_disabledAt m))
        \<longleftrightarrow> \<not> member_enabled t m" for t
      using ms m(1) e
      by (auto simp: member_enabled_def before_time_def reached_def end_time_def parsed_time_def)
    have good: "good_signature verify a vset s \<longleftrightarrow> (\<exists>t. date_parse (vs_signedAt s) = Some t \<and> member_enabled t m)
        \<and> vs_algorithm s = vm_algorithm m \<and> vs_publicKeyId s = vm_publicKeyId m
        \<and> verify_attestation_signature a s verify = Inr True"
      using m only unfolding good_signature_def by metis
    define reason where "reason = (if date_parse (vs_signedAt s) = None then INVALID_SIGNATURE
      else if \<not> member_enabled (the (date_parse (vs_signedAt s))) m then MEMBER_DISABLED
      else if vs_algorithm s \<noteq> vm_algorithm m \<or> vs_publicKeyId s \<noteq> vm_publicKeyId m then KEY_MISMATCH
      else INVALID_SIGNATURE)"
    show ?thesis
    proof (intro exI [of _ reason] exI [of _ "vs_validatorId s # seen"] conjI)
      show "check_loop ?M verify a seen valid rejected (s # ss) =
        (if vs_validatorId s \<notin> set seen \<and> good_signature verify a vset s
         then check_loop ?M verify a (vs_validatorId s # seen) (valid @ [s]) rejected ss
         else check_loop ?M verify a (vs_validatorId s # seen) valid (rejected @ [(vs_validatorId s, reason)]) ss)"
      proof (cases "date_parse (vs_signedAt s)")
        case None
        then show ?thesis using False Some by (simp add: Let_def good reason_def)
      next
        case signed: (Some t)
        show ?thesis
        proof (cases "member_enabled t m \<and> vs_algorithm s = vm_algorithm m \<and> vs_publicKeyId s = vm_publicKeyId m")
          case True
          then show ?thesis
            using False Some signed
            by (cases "verify_attestation_signature a s verify")
              (auto simp: Let_def good reason_def enabled split: bool.split)
        next
          case bad: False
          then show ?thesis using False Some signed by (simp add: Let_def good reason_def enabled)
        qed
      qed
    qed simp
  qed
qed

lemma check_loop_spec:
  assumes ok: "assert_members [] [] (va_members vset) = Inr ()"
  shows "\<exists>picked bad. check_loop (members_map (va_members vset)) verify a seen valid rejected ss = (valid @ picked, rejected @ bad)
    \<and> distinct (map vs_validatorId picked) \<and> vs_validatorId ` set picked \<inter> set seen = {}
    \<and> (\<forall>s \<in> set picked. s \<in> set ss \<and> good_signature verify a vset s)
    \<and> (bad = [] \<longleftrightarrow> distinct (map vs_validatorId ss) \<and> vs_validatorId ` set ss \<inter> set seen = {}
        \<and> (\<forall>s \<in> set ss. good_signature verify a vset s))
    \<and> (bad = [] \<longrightarrow> picked = ss)"
proof (induction ss arbitrary: seen valid rejected)
  case (Cons s ss)
  obtain reason seen' where seen': "set seen' = insert (vs_validatorId s) (set seen)"
    and step: "check_loop (members_map (va_members vset)) verify a seen valid rejected (s # ss) =
      (if vs_validatorId s \<notin> set seen \<and> good_signature verify a vset s
       then check_loop (members_map (va_members vset)) verify a seen' (valid @ [s]) rejected ss
       else check_loop (members_map (va_members vset)) verify a seen' valid (rejected @ [(vs_validatorId s, reason)]) ss)"
    using check_step [OF ok] by blast
  show ?case
  proof (cases "vs_validatorId s \<notin> set seen \<and> good_signature verify a vset s")
    case True
    obtain picked bad where IH: "check_loop (members_map (va_members vset)) verify a seen' (valid @ [s]) rejected ss
        = ((valid @ [s]) @ picked, rejected @ bad)"
      "distinct (map vs_validatorId picked)" "vs_validatorId ` set picked \<inter> set seen' = {}"
      "\<forall>s \<in> set picked. s \<in> set ss \<and> good_signature verify a vset s"
      "bad = [] \<longleftrightarrow> distinct (map vs_validatorId ss) \<and> vs_validatorId ` set ss \<inter> set seen' = {}
        \<and> (\<forall>s \<in> set ss. good_signature verify a vset s)" "bad = [] \<longrightarrow> picked = ss"
      using Cons.IH [of seen' "valid @ [s]" rejected] by (elim exE conjE) (rule that)
    have "check_loop (members_map (va_members vset)) verify a seen valid rejected (s # ss) = (valid @ s # picked, rejected @ bad)"
      unfolding step using True IH(1) by simp
    moreover have "distinct (map vs_validatorId (s # picked))" "vs_validatorId ` set (s # picked) \<inter> set seen = {}"
      using IH(2,3) True unfolding seen' by auto
    moreover have "\<forall>x \<in> set (s # picked). x \<in> set (s # ss) \<and> good_signature verify a vset x" using IH(4) True by simp
    moreover have "bad = [] \<longleftrightarrow> distinct (map vs_validatorId (s # ss)) \<and> vs_validatorId ` set (s # ss) \<inter> set seen = {}
        \<and> (\<forall>x \<in> set (s # ss). good_signature verify a vset x)"
      unfolding IH(5) seen' using True by auto
    moreover have "bad = [] \<longrightarrow> s # picked = s # ss" using IH(6) by simp
    ultimately show ?thesis by (intro exI [of _ "s # picked"] exI [of _ bad] conjI)
  next
    case False
    obtain picked bad where IH: "check_loop (members_map (va_members vset)) verify a seen' valid
        (rejected @ [(vs_validatorId s, reason)]) ss = (valid @ picked, (rejected @ [(vs_validatorId s, reason)]) @ bad)"
      "distinct (map vs_validatorId picked)" "vs_validatorId ` set picked \<inter> set seen' = {}"
      "\<forall>s \<in> set picked. s \<in> set ss \<and> good_signature verify a vset s"
      using Cons.IH [of seen' valid "rejected @ [(vs_validatorId s, reason)]"] by (elim exE conjE) (rule that)
    have "check_loop (members_map (va_members vset)) verify a seen valid rejected (s # ss)
        = (valid @ picked, rejected @ (vs_validatorId s, reason) # bad)"
      unfolding step if_not_P [OF False] using IH(1) by simp
    moreover have "vs_validatorId ` set picked \<inter> set seen = {}" using IH(3) unfolding seen' by auto
    moreover have "\<forall>x \<in> set picked. x \<in> set (s # ss) \<and> good_signature verify a vset x" using IH(4) by simp
    moreover have "(vs_validatorId s, reason) # bad = [] \<longleftrightarrow> distinct (map vs_validatorId (s # ss))
        \<and> vs_validatorId ` set (s # ss) \<inter> set seen = {} \<and> (\<forall>x \<in> set (s # ss). good_signature verify a vset x)"
      using False by auto
    moreover have "(vs_validatorId s, reason) # bad = [] \<longrightarrow> picked = s # ss" by simp
    ultimately show ?thesis using IH(2) by (intro exI [of _ picked] exI [of _ "(vs_validatorId s, reason) # bad"] conjI)
  qed
qed simp

text \<open>The verdict on a list of signatures.\<close>

definition sound_signatures :: "signature_verifier \<Rightarrow> attestation \<Rightarrow> validator_set \<Rightarrow> validator_signature list \<Rightarrow> bool" where
  "sound_signatures verify a vset ss \<longleftrightarrow>
     distinct (map vs_validatorId ss) \<and> (\<forall>s \<in> set ss. good_signature verify a vset s)"

lemma check_signatures_spec:
  assumes "assert_members [] [] (va_members vset) = Inr ()"
  shows "\<exists>valid rejected. check_signatures locale_le verify a vset ss = (valid, rejected)
    \<and> sound_signatures verify a vset valid \<and> set valid \<subseteq> set ss
    \<and> (rejected = [] \<longleftrightarrow> sound_signatures verify a vset ss) \<and> (rejected = [] \<longrightarrow> length valid = length ss)"
proof -
  obtain picked bad where run: "check_loop (members_map (va_members vset)) verify a [] [] [] ss = ([] @ picked, [] @ bad)"
    and f: "distinct (map vs_validatorId picked)" "\<forall>s \<in> set picked. s \<in> set ss \<and> good_signature verify a vset s"
    "bad = [] \<longleftrightarrow> distinct (map vs_validatorId ss) \<and> vs_validatorId ` set ss \<inter> set [] = {}
      \<and> (\<forall>s \<in> set ss. good_signature verify a vset s)"
    "bad = [] \<longrightarrow> picked = ss"
    using check_loop_spec [OF assms, of verify a "[]" "[]" "[]" ss] by (elim exE conjE) (rule that)
  let ?valid = "sort_by (\<lambda>x y. locale_le (vs_validatorId x) (vs_validatorId y)) picked"
  have "check_signatures locale_le verify a vset ss = (?valid, bad)" using run by (simp add: check_signatures_def)
  moreover have "sound_signatures verify a vset ?valid" "set ?valid \<subseteq> set ss"
    using f(1,2) by (auto simp: sound_signatures_def)
  moreover have "bad = [] \<longleftrightarrow> sound_signatures verify a vset ss" using f(3) by (simp add: sound_signatures_def)
  moreover have "bad = [] \<longrightarrow> length ?valid = length ss" using f(4) by simp
  ultimately show ?thesis by blast
qed

lemma threshold_result_satisfied:
  "(\<exists>i t ids. threshold_result s (valid, rejected) ex = Satisfied i t ids) \<longleftrightarrow>
     \<not> ex \<and> rejected = [] \<and> num_val (va_threshold s) \<le> int (length valid)"
  by (auto simp: threshold_result_def Let_def)

end
