(* ===== verification/Threshold_Properties.thy ===== *)
theory Threshold_Properties
  imports Threshold
begin

text \<open>What threshold verification means and what the registry of validator sets guarantees.\<close>

section \<open>Aggregation\<close>

lemma verify_ignores_signatures [simp]:
  "verify_attestation_signature (a\<lparr>at_signatures := ss\<rparr>) s v = verify_attestation_signature a s v"
proof -
  have "canonical_attestation_bytes (a\<lparr>at_signatures := ss\<rparr>) = canonical_attestation_bytes a"
    by (simp add: attestation_bytes unsigned_signatures statement_fields_def statement_values_def attestation_domain_def
        del: normal_json.simps)
  then show ?thesis by (simp add: verify_attestation_signature_def unsigned_signatures cong: if_cong)
qed

lemma registry_members:
  "registry_ok reg \<Longrightarrow> map_get reg i = Some s \<Longrightarrow> assert_members [] [] (va_members s) = Inr ()"
  by (meson assert_set_Inr registry_ok_def)

lemma sound_ignores_signatures [simp]:
  "sound_signatures v (a\<lparr>at_signatures := ss\<rparr>) vset qs = sound_signatures v a vset qs"
  by (simp add: sound_signatures_def good_signature_def)

lemma attach_all_distinct:
  assumes "assert_unsigned a = Inr ()"
    and "distinct (map vs_validatorId (at_signatures a @ ss))"
  shows "\<exists>rs. attach_all le a ss = Inr (a\<lparr>at_signatures := rs\<rparr>) \<and> set rs = set (at_signatures a @ ss)
    \<and> distinct (map vs_validatorId rs) \<and> length rs = length (at_signatures a @ ss)"
  using assms
proof (induction ss arbitrary: a)
  case Nil
  then show ?case by (intro exI [of _ "at_signatures a"]) simp
next
  case (Cons s ss)
  let ?le = "\<lambda>x y. le (vs_validatorId x) (vs_validatorId y)"
  let ?a = "a\<lparr>at_signatures := sort_by ?le (at_signatures a @ [s])\<rparr>"
  have "vs_validatorId s \<notin> vs_validatorId ` set (at_signatures a)" using Cons.prems(2) by simp
  then have "\<not> (\<exists>item \<in> set (at_signatures a). vs_validatorId item = vs_validatorId s)" by (metis image_eqI)
  then have attach: "attach_signature le a s = Inr ?a"
    using Cons.prems(1) by (simp add: attach_signature_def)
  have "assert_unsigned ?a = Inr ()" using Cons.prems(1) by (simp add: unsigned_signatures)
  moreover have "distinct (map vs_validatorId (at_signatures ?a @ ss))"
    using Cons.prems(2) distinct_map_sort_by [of vs_validatorId ?le "at_signatures a @ [s]"]
    by (auto simp: image_Un)
  ultimately obtain rs where "attach_all le ?a ss = Inr (?a\<lparr>at_signatures := rs\<rparr>)" "set rs = set (at_signatures ?a @ ss)"
    "distinct (map vs_validatorId rs)" "length rs = length (at_signatures ?a @ ss)"
    using Cons.IH [of ?a] by blast
  then show ?case using attach by (intro exI [of _ rs]) auto
qed

section \<open>Properties\<close>

text \<open>
  C20. Threshold verification answers SATISFIED exactly if the attestation has not expired, no
  validator signed twice, every signature is a valid signature of a member with its own key made while
  the member was enabled, and there are at least as many as the threshold of the set.
\<close>

theorem threshold_satisfied_iff:
  assumes "served register_set [] reg" "verify_threshold le verify now reg a i = Inr v"
  shows "\<exists>s. map_get reg i = Some s \<and> ((\<exists>j t ids. v = Satisfied j t ids) \<longleftrightarrow>
    \<not> date_reached now (at_expiresAt a) \<and> sound_signatures verify a s (at_signatures a)
    \<and> num_val (va_threshold s) \<le> int (card (vs_validatorId ` set (at_signatures a))))"
proof -
  have ok: "registry_ok reg" using served_registry_ok [OF assms(1) empty_registry_ok] .
  obtain s where s: "map_get reg i = Some s"
    "v = threshold_result s (check_signatures le verify a s (at_signatures a)) (date_reached now (at_expiresAt a))"
    using assms(2) by (auto simp: verify_threshold_def resolve_Inr)
  note members = registry_members [OF ok s(1)]
  obtain valid rejected where c: "check_signatures le verify a s (at_signatures a) = (valid, rejected)"
    "rejected = [] \<longleftrightarrow> sound_signatures verify a s (at_signatures a)" "rejected = [] \<longrightarrow> length valid = length (at_signatures a)"
    using check_signatures_spec [OF members] by blast
  have "card (vs_validatorId ` set (at_signatures a)) = length (at_signatures a)" if "sound_signatures verify a s (at_signatures a)"
    using that distinct_card [of "map vs_validatorId (at_signatures a)"] by (simp add: sound_signatures_def)
  then show ?thesis using s c threshold_result_satisfied [of s valid rejected] by auto
qed

text \<open>
  An aggregated attestation carries only sound signatures of distinct validators, whatever was
  submitted, and verifying it again answers SATISFIED as soon as they reach the threshold, for as long
  as it has not expired.
\<close>

lemma aggregate_verifies:
  assumes "served register_set [] reg" "aggregate le verify now reg statement i submitted = Inr (a, v)"
  shows "\<exists>s. map_get reg i = Some s \<and> sound_signatures verify a s (at_signatures a)
    \<and> set (at_signatures a) \<subseteq> set submitted
    \<and> (\<exists>v'. verify_threshold le verify later reg a i = Inr v' \<and> ((\<exists>j t ids. v' = Satisfied j t ids) \<longleftrightarrow>
        \<not> date_reached later (at_expiresAt statement) \<and> num_val (va_threshold s) \<le> int (length (at_signatures a))))"
proof -
  have ok: "registry_ok reg" using served_registry_ok [OF assms(1) empty_registry_ok] .
  obtain s where s: "assert_unsigned statement = Inr ()" "resolve_set reg i (at_validFrom statement) = Inr s"
    "attach_all le (statement\<lparr>at_signatures := []\<rparr>) (fst (check_signatures le verify statement s submitted)) = Inr a"
    using assms(2) by (auto simp: aggregate_def Let_def)
  then have found: "map_get reg i = Some s" by (simp add: resolve_Inr)
  note members = registry_members [OF ok found]
  obtain valid rejected where c: "check_signatures le verify statement s submitted = (valid, rejected)"
    "sound_signatures verify statement s valid" "set valid \<subseteq> set submitted"
    using check_signatures_spec [OF members] by blast
  obtain rs where "attach_all le (statement\<lparr>at_signatures := []\<rparr>) valid = Inr (statement\<lparr>at_signatures := rs\<rparr>)"
    "set rs = set valid" "distinct (map vs_validatorId rs)"
    using attach_all_distinct [of "statement\<lparr>at_signatures := []\<rparr>" valid le] s(1) c(2)
    by (auto simp: unsigned_signatures sound_signatures_def)
  then have a: "a = statement\<lparr>at_signatures := rs\<rparr>" and sound: "sound_signatures verify statement s rs"
    using s(3) c by (auto simp: sound_signatures_def)
  obtain valid' rejected' where c': "check_signatures le verify a s rs = (valid', rejected')"
    "rejected' = [] \<longleftrightarrow> sound_signatures verify a s rs" "rejected' = [] \<longrightarrow> length valid' = length rs"
    using check_signatures_spec [OF members] by blast
  have "verify_threshold le verify later reg a i
      = Inr (threshold_result s (valid', rejected') (date_reached later (at_expiresAt statement)))"
    using s(1,2) c'(1) by (simp add: verify_threshold_def a unsigned_signatures)
  moreover have "rejected' = []" "length valid' = length rs" using c' sound by (auto simp: a)
  ultimately show ?thesis
    using found c(3) sound \<open>set rs = set valid\<close> threshold_result_satisfied [of s valid' rejected']
    by (auto simp: a)
qed

text \<open>
  C21. At every time at most one registered set can be resolved, and at every time of its interval the
  members enabled then can reach its threshold, though registration looked only at the times at which
  some member is enabled or disabled.
\<close>

theorem resolved_set_is_live:
  assumes "served register_set [] reg" "resolve_set reg i v = Inr s" "date_parse v = Some time"
  shows "num_val (va_threshold s) \<le> int (length (filter (member_enabled time) (va_members s)))
    \<and> (\<forall>j s'. resolve_set reg j v = Inr s' \<longrightarrow> j = i \<and> s' = s)"
proof -
  have ok: "registry_ok reg" using served_registry_ok [OF assms(1) empty_registry_ok] .
  have here: "map_get reg i = Some s" "in_interval time s" using assms(2,3) by (auto simp: resolve_Inr)
  then have "num_val (va_threshold s) \<le> int (length (filter (member_enabled time) (va_members s)))"
    using ok threshold_achievable by (auto simp: registry_ok_def)
  moreover have "j = i \<and> s' = s" if "resolve_set reg j v = Inr s'" for j s'
  proof -
    have there: "map_get reg j = Some s'" "in_interval time s'" using that assms(3) by (auto simp: resolve_Inr)
    show ?thesis
    proof (cases "j = i")
      case False
      then show ?thesis using ok here there in_both_overlap unfolding registry_ok_def by blast
    qed (use here there in simp)
  qed
  ultimately show ?thesis by blast
qed

section \<open>A concrete validator set\<close>

definition sample_member :: "string \<Rightarrow> string \<Rightarrow> validator_member" where
  "sample_member v k = \<lparr>vm_validatorId = v, vm_algorithm = ''ed25519'', vm_publicKeyId = k,
     vm_enabledFrom = ''2024-01-01T00:00:00Z'', vm_disabledAt = None\<rparr>"

definition sample_set :: validator_set where
  "sample_set = \<lparr>va_id = ''set'', va_version = ''1'', va_threshold = JInt 2, va_validFrom = ''2024-06-01T00:00:00Z'',
     va_validUntil = Some ''2026-01-01T00:00:00Z'',
     va_members = [sample_member ''v1'' ''k1'', sample_member ''v2'' ''k2'', sample_member ''v3'' ''k3'']\<rparr>"

definition sample_registry :: validator_registry where
  "sample_registry = [(''set'', sample_set)]"

lemma sample_registered: "served register_set [] sample_registry"
proof -
  have "assert_validator_set sample_set = Inr ()" by code_simp
  then have "register_set sample_set [] = (Inr sample_set, sample_registry)"
    by (simp add: register_set_def map_has_def sample_registry_def) (simp add: sample_set_def)
  then show ?thesis by (rule served_one)
qed

definition sample_signature :: "string \<Rightarrow> string \<Rightarrow> validator_signature" where
  "sample_signature v k = \<lparr>vs_validatorId = v, vs_algorithm = ''ed25519'', vs_publicKeyId = k, vs_signature = ''s'',
     vs_signedAt = ''2025-01-01T00:00:00Z''\<rparr>"

definition signed_attestation :: attestation where
  "signed_attestation = sample_attestation\<lparr>at_signatures := [sample_signature ''v1'' ''k1'', sample_signature ''v2'' ''k2'']\<rparr>"

abbreviation trusting_verifier :: signature_verifier where
  "trusting_verifier \<equiv> \<lambda>_. Inr True"

lemma sample_good:
  "good_signature trusting_verifier sample_attestation sample_set (sample_signature ''v1'' ''k1'')"
  "good_signature trusting_verifier sample_attestation sample_set (sample_signature ''v2'' ''k2'')"
proof -
  have times: "date_parse ''2025-01-01T00:00:00Z'' = Some 1735689600000" "date_parse ''2024-01-01T00:00:00Z'' = Some 1704067200000"
    "date_parse ''2025-01-02T00:00:00Z'' = Some 1735776000000"
    by code_simp+
  obtain bytes where "canonical_attestation_bytes sample_attestation = Inr bytes"
    by (simp add: attestation_bytes sample_unsigned del: normal_json.simps)
  then have "verify_attestation_signature sample_attestation (sample_signature v k) trusting_verifier = Inr True" for v k
    by (simp add: verify_attestation_signature_def sample_unsigned at_timestamp_def sample_signature_def times before_time_def
        reached_def) (simp add: sample_attestation_def times)
  then show "good_signature trusting_verifier sample_attestation sample_set (sample_signature ''v1'' ''k1'')"
    "good_signature trusting_verifier sample_attestation sample_set (sample_signature ''v2'' ''k2'')"
    by (simp_all add: good_signature_def sample_set_def sample_member_def sample_signature_def member_enabled_def times truthy_def)
qed

lemma sample_sound:
  "sound_signatures trusting_verifier sample_attestation sample_set [sample_signature ''v1'' ''k1'', sample_signature ''v2'' ''k2'']"
  using sample_good by (simp add: sound_signatures_def) (simp add: sample_signature_def)

lemma sample_resolved: "resolve_set sample_registry ''set'' (at_validFrom sample_attestation) = Inr sample_set"
  by code_simp

theorem threshold_satisfied_iff_witness:
  "\<exists>j t ids. verify_threshold string_le trusting_verifier (Some 0) sample_registry signed_attestation ''set''
     = Inr (Satisfied j t ids)"
proof -
  have unexpired: "\<not> date_reached (Some 0) (at_expiresAt signed_attestation)" by code_simp
  obtain v where v: "verify_threshold string_le trusting_verifier (Some 0) sample_registry signed_attestation ''set'' = Inr v"
    using sample_resolved by (simp add: verify_threshold_def signed_attestation_def unsigned_signatures sample_unsigned)
  from threshold_satisfied_iff [OF sample_registered v] show ?thesis
    using v unexpired sample_sound
    by (auto simp: sample_registry_def signed_attestation_def) (simp_all add: sample_signature_def sample_set_def)
qed

theorem resolved_set_is_live_witness:
  "2 \<le> length (filter (member_enabled 1735689600000) (va_members sample_set))"
proof -
  have "date_parse (at_validFrom sample_attestation) = Some 1735689600000" by code_simp
  from resolved_set_is_live [OF sample_registered sample_resolved this] show ?thesis by (simp add: sample_set_def)
qed

end
