(* ===== verification/Validator_Service.thy ===== *)
theory Validator_Service
  imports Attestation_Protocol
begin

text \<open>
  The validator of packages/core/src/validator-service.ts, which signs an attestation only after it
  has observed the source event itself. The provider factory, the providers it makes, the signer and
  the clock, which is read twice, are outside the program.
\<close>

datatype source_asset_locator = EVM_CONTRACT string | CANTON_INSTRUMENT string

datatype source_status = SOURCE_SUCCEEDED | SOURCE_TX_FAILED

record source_observation =
  so_networkId :: interweave_id
  so_networkType :: network_type
  so_transactionId :: string
  so_transactionStatus :: source_status
  so_eventPosition :: string
  so_eventType :: string
  so_sourceAsset :: source_asset_locator
  so_assetId :: string
  so_operationId :: string
  so_amount :: string
  so_sender :: string
  so_receiver :: string
  so_canonical :: bool
  so_finalitySatisfied :: bool
  so_observedStatePosition :: string
  so_observedAt :: string
  so_finalityEvidence :: "string list"

record observe_input =
  oi_sourceTransactionId :: string
  oi_sourceEventPosition :: string
  oi_expectedSourceAsset :: source_asset_locator

record validator_network =
  vn_networkId :: interweave_id
  vn_networkType :: network_type
  vn_endpoints :: "string list"
  vn_enabled :: bool
  vn_sourceAssets :: "(string \<times> source_asset_locator) list"
  vn_allowedPolicyVersions :: "string list option"

datatype validator_rejection =
    NETWORK_DISABLED | POLICY_NOT_ALLOWED | NOT_YET_VALID | VALIDATION_EXPIRED | SOURCE_NOT_FOUND
  | NETWORK_MISMATCH | TRANSACTION_FAILED | EVENT_NOT_CANONICAL | SOURCE_ASSET_MISMATCH
  | EVENT_MISMATCH | ASSET_MISMATCH | OPERATION_MISMATCH | AMOUNT_MISMATCH | SENDER_MISMATCH
  | RECEIVER_MISMATCH | FINALITY_NOT_SATISFIED | OBSERVED_POSITION_MISMATCH | OBSERVATION_TIME_MISMATCH
  | PROVIDER_ERROR

datatype validator_decision =
    Signed string string validator_signature source_observation
  | NotSigned "validator_rejection list" "source_observation option"

section \<open>Configuration\<close>

type_synonym validator_networks = "(interweave_id, validator_network) js_map"

fun configure_validator :: "validator_networks \<Rightarrow> validator_network list \<Rightarrow> validator_networks result" where
  "configure_validator m [] = Inr m"
| "configure_validator m (n # ns) =
     (if map_has m (vn_networkId n)
      then Inl (RegistryError CONFLICT (''duplicate validator network: '' @ vn_networkId n))
      else if vn_endpoints n = [] \<or> (\<exists>e \<in> set (vn_endpoints n). blank e)
      then Inl (RegistryError INVALID_ARGUMENT (''validator network requires independent endpoints: '' @ vn_networkId n))
      else configure_validator (map_set (vn_networkId n) n m) ns)"

definition same_locator :: "source_asset_locator \<Rightarrow> source_asset_locator \<Rightarrow> bool" where
  "same_locator l r \<longleftrightarrow>
     (case (l, r) of
        (EVM_CONTRACT a, EVM_CONTRACT b) \<Rightarrow> lower a = lower b
      | (CANTON_INSTRUMENT a, CANTON_INSTRUMENT b) \<Rightarrow> a = b
      | _ \<Rightarrow> False)"

section \<open>Verification and signing\<close>

text \<open>The environment of one call: the factory, the answers of providers, the signer, two clock reads.\<close>

record 'p validator_env =
  ve_create :: "validator_network \<Rightarrow> 'p result"
  ve_observe :: "'p \<Rightarrow> observe_input \<Rightarrow> source_observation option result"
  ve_signer :: attestation_signer
  ve_now :: js_date
  ve_sign_now :: js_date

type_synonym 'p providers = "(interweave_id, 'p) js_map"

definition preliminary_reasons :: "js_date \<Rightarrow> validator_network \<Rightarrow> attestation \<Rightarrow> validator_rejection list" where
  "preliminary_reasons now c a =
     (if vn_networkType c \<noteq> at_sourceNetworkType a then [NETWORK_MISMATCH] else [])
     @ (case vn_allowedPolicyVersions c of
          Some allowed \<Rightarrow> if at_policyVersion a \<notin> set allowed then [POLICY_NOT_ALLOWED] else []
        | None \<Rightarrow> [])
     @ (if map_get (vn_sourceAssets c) (at_assetId a) = None then [SOURCE_ASSET_MISMATCH] else [])
     @ (if date_before now (at_validFrom a) then [NOT_YET_VALID] else [])
     @ (if date_reached now (at_expiresAt a) then [VALIDATION_EXPIRED] else [])"

definition observation_reasons :: "source_asset_locator \<Rightarrow> attestation \<Rightarrow> source_observation \<Rightarrow> validator_rejection list" where
  "observation_reasons expected a ob =
     (if so_networkId ob \<noteq> at_sourceNetworkId a \<or> so_networkType ob \<noteq> at_sourceNetworkType a then [NETWORK_MISMATCH] else [])
     @ (if so_transactionId ob \<noteq> at_sourceTransactionId a \<or> so_transactionStatus ob \<noteq> SOURCE_SUCCEEDED
        then [TRANSACTION_FAILED] else [])
     @ (if \<not> so_canonical ob then [EVENT_NOT_CANONICAL] else [])
     @ (if \<not> same_locator (so_sourceAsset ob) expected then [SOURCE_ASSET_MISMATCH] else [])
     @ (if so_eventPosition ob \<noteq> at_sourceEventPosition a \<or> so_eventType ob \<noteq> at_eventType a then [EVENT_MISMATCH] else [])
     @ (if so_assetId ob \<noteq> at_assetId a then [ASSET_MISMATCH] else [])
     @ (if so_operationId ob \<noteq> at_operationId a then [OPERATION_MISMATCH] else [])
     @ (if so_amount ob \<noteq> at_amount a then [AMOUNT_MISMATCH] else [])
     @ (if so_sender ob \<noteq> at_sender a then [SENDER_MISMATCH] else [])
     @ (if so_receiver ob \<noteq> at_receiver a then [RECEIVER_MISMATCH] else [])
     @ (if \<not> so_finalitySatisfied ob \<or> so_finalityEvidence ob = [] then [FINALITY_NOT_SATISFIED] else [])
     @ (if so_observedStatePosition ob \<noteq> at_observedStatePosition a then [OBSERVED_POSITION_MISMATCH] else [])
     @ (if so_observedAt ob \<noteq> at_observedAt a then [OBSERVATION_TIME_MISMATCH] else [])"

text \<open>The provider of a network is made once; the \<open>try\<close> block turns every error into a rejection.\<close>

definition provider_for :: "'p validator_env \<Rightarrow> validator_network \<Rightarrow> ('p providers, 'p) comp" where
  "provider_for env c providers =
     (case map_get providers (vn_networkId c) of
        Some p \<Rightarrow> (Inr p, providers)
      | None \<Rightarrow> (case ve_create env c of
          Inl e \<Rightarrow> (Inl e, providers) | Inr p \<Rightarrow> (Inr p, map_set (vn_networkId c) p providers)))"

definition observe_source ::
  "'p validator_env \<Rightarrow> validator_network \<Rightarrow> source_asset_locator \<Rightarrow> attestation
     \<Rightarrow> ('p providers, source_observation option option) comp" where
  "observe_source env c expected a = try_catch
     (and_then (provider_for env c) (\<lambda>p.
      and_then (lift_result (ve_observe env p \<lparr>oi_sourceTransactionId = at_sourceTransactionId a,
          oi_sourceEventPosition = at_sourceEventPosition a, oi_expectedSourceAsset = expected\<rparr>)) (\<lambda>ob. ret (Some ob))))
     (\<lambda>_. ret None)"

definition verify_and_sign ::
  "sha256 \<Rightarrow> validator_networks \<Rightarrow> 'p validator_env \<Rightarrow> attestation \<Rightarrow> ('p providers, validator_decision) comp" where
  "verify_and_sign sha networks env a =
     and_then (lift_result (assert_unsigned a)) (\<lambda>_.
       case map_get networks (at_sourceNetworkId a) of
         None \<Rightarrow> ret (NotSigned [NETWORK_DISABLED] None)
       | Some c \<Rightarrow>
           if \<not> vn_enabled c then ret (NotSigned [NETWORK_DISABLED] None)
           else let preliminary = preliminary_reasons (ve_now env) c a in
             if preliminary \<noteq> [] then ret (NotSigned preliminary None)
             else let expected = the (map_get (vn_sourceAssets c) (at_assetId a)) in
               and_then (observe_source env c expected a) (\<lambda>observed.
                 case observed of
                   None \<Rightarrow> ret (NotSigned [PROVIDER_ERROR] None)
                 | Some None \<Rightarrow> ret (NotSigned [SOURCE_NOT_FOUND] None)
                 | Some (Some ob) \<Rightarrow>
                     let reasons = observation_reasons expected a ob in
                     if reasons \<noteq> [] then ret (NotSigned reasons (Some ob))
                     else and_then (iso_string (ve_sign_now env)) (\<lambda>signedAt.
                       and_then (lift_result (sign_attestation a (ve_signer env) signedAt)) (\<lambda>signature.
                       and_then (lift_result (attestation_digest sha a)) (\<lambda>digest.
                         ret (Signed (sg_validatorId (ve_signer env)) digest signature ob))))))"

section \<open>What a signature means\<close>

text \<open>The observation says what the statement says.\<close>

definition observation_agrees :: "source_asset_locator \<Rightarrow> attestation \<Rightarrow> source_observation \<Rightarrow> bool" where
  "observation_agrees expected a ob \<longleftrightarrow>
     so_networkId ob = at_sourceNetworkId a \<and> so_networkType ob = at_sourceNetworkType a
     \<and> so_transactionId ob = at_sourceTransactionId a \<and> so_transactionStatus ob = SOURCE_SUCCEEDED
     \<and> so_canonical ob \<and> same_locator (so_sourceAsset ob) expected
     \<and> so_eventPosition ob = at_sourceEventPosition a \<and> so_eventType ob = at_eventType a
     \<and> so_assetId ob = at_assetId a \<and> so_operationId ob = at_operationId a \<and> so_amount ob = at_amount a
     \<and> so_sender ob = at_sender a \<and> so_receiver ob = at_receiver a
     \<and> so_finalitySatisfied ob \<and> so_finalityEvidence ob \<noteq> []
     \<and> so_observedStatePosition ob = at_observedStatePosition a \<and> so_observedAt ob = at_observedAt a"

lemma no_reasons: "observation_reasons expected a ob = [] \<longleftrightarrow> observation_agrees expected a ob"
proof -
  have one: "(if P then [x] else []) = [] \<longleftrightarrow> \<not> P" for P and x :: validator_rejection by simp
  show ?thesis unfolding observation_reasons_def append_is_Nil_conv one observation_agrees_def by blast
qed

lemma no_preliminary:
  "preliminary_reasons now c a = [] \<longleftrightarrow> vn_networkType c = at_sourceNetworkType a
     \<and> (\<forall>allowed. vn_allowedPolicyVersions c = Some allowed \<longrightarrow> at_policyVersion a \<in> set allowed)
     \<and> map_get (vn_sourceAssets c) (at_assetId a) \<noteq> None
     \<and> \<not> date_before now (at_validFrom a) \<and> \<not> date_reached now (at_expiresAt a)"
  by (auto simp: preliminary_reasons_def split: option.split if_splits)

lemma observe_source_Some:
  assumes "observe_source env c expected a ps = (Inr (Some ob), ps')"
  shows "\<exists>p. map_get ps' (vn_networkId c) = Some p
    \<and> ve_observe env p \<lparr>oi_sourceTransactionId = at_sourceTransactionId a,
        oi_sourceEventPosition = at_sourceEventPosition a, oi_expectedSourceAsset = expected\<rparr> = Inr ob"
  using assms
  by (auto simp: observe_source_def try_catch_def and_then_def provider_for_def split: option.splits sum.splits prod.splits)

lemma sign_attestation_Inr:
  assumes "sign_attestation a signer signedAt = Inr s"
  shows "\<exists>bytes t. canonical_attestation_bytes a = Inr bytes \<and> sg_sign signer bytes = Inr (vs_signature s)
    \<and> date_parse signedAt = Some t \<and> \<not> before_time t (at_observedAt a) \<and> \<not> reached t (at_expiresAt a)
    \<and> vs_signedAt s = signedAt \<and> vs_validatorId s = sg_validatorId signer"
  using assms
  by (auto simp: sign_attestation_def at_timestamp_def split: option.splits if_splits)

text \<open>
  C22. A validator signs only what it observed itself: the network is configured and enabled, the asset
  and the policy version are allowed there, the provider of that network reported a successful,
  canonical, final event that agrees with the statement in every field, and the signature is one of the
  signer over the canonical bytes, made before the statement expires.
\<close>

theorem validator_signs_only_observed:
  assumes "verify_and_sign sha networks env a ps = (Inr (Signed v digest s ob), ps')"
  shows "\<exists>c expected p bytes t.
    map_get networks (at_sourceNetworkId a) = Some c \<and> vn_enabled c \<and> vn_networkType c = at_sourceNetworkType a
    \<and> (\<forall>allowed. vn_allowedPolicyVersions c = Some allowed \<longrightarrow> at_policyVersion a \<in> set allowed)
    \<and> map_get (vn_sourceAssets c) (at_assetId a) = Some expected
    \<and> map_get ps' (vn_networkId c) = Some p
    \<and> ve_observe env p \<lparr>oi_sourceTransactionId = at_sourceTransactionId a,
        oi_sourceEventPosition = at_sourceEventPosition a, oi_expectedSourceAsset = expected\<rparr> = Inr (Some ob)
    \<and> observation_agrees expected a ob
    \<and> canonical_attestation_bytes a = Inr bytes \<and> sg_sign (ve_signer env) bytes = Inr (vs_signature s)
    \<and> digest = ''sha256:'' @ sha bytes
    \<and> date_parse (vs_signedAt s) = Some t \<and> \<not> before_time t (at_observedAt a) \<and> \<not> reached t (at_expiresAt a)
    \<and> \<not> date_before (ve_now env) (at_validFrom a) \<and> \<not> date_reached (ve_now env) (at_expiresAt a)"
proof -
  obtain c where c: "assert_unsigned a = Inr ()" "map_get networks (at_sourceNetworkId a) = Some c" "vn_enabled c"
    "preliminary_reasons (ve_now env) c a = []"
    using assms by (cases "assert_unsigned a"; cases "map_get networks (at_sourceNetworkId a)")
      (auto simp: verify_and_sign_def and_then_def Let_def split: if_splits)
  then obtain expected where expected: "map_get (vn_sourceAssets c) (at_assetId a) = Some expected"
    by (auto simp: no_preliminary)
  obtain res ps1 where ob: "observe_source env c expected a ps = (res, ps1)" by fastforce
  then obtain observed where observed: "res = Inr observed"
    by (auto simp: observe_source_def try_catch_def split: sum.splits prod.splits)
  have rest: "observed = Some (Some ob)" "observation_reasons expected a ob = []" "ps' = ps1"
    "\<exists>signedAt. sign_attestation a (ve_signer env) signedAt = Inr s" "attestation_digest sha a = Inr digest"
    using assms c ob observed expected
    by (auto simp: verify_and_sign_def and_then_def Let_def iso_string_def split: option.splits sum.splits prod.splits if_splits)
  obtain signedAt where "sign_attestation a (ve_signer env) signedAt = Inr s" using rest(4) by blast
  from sign_attestation_Inr [OF this] obtain bytes t where signed: "canonical_attestation_bytes a = Inr bytes"
    "sg_sign (ve_signer env) bytes = Inr (vs_signature s)" "date_parse (vs_signedAt s) = Some t"
    "\<not> before_time t (at_observedAt a)" "\<not> reached t (at_expiresAt a)"
    by blast
  obtain p where "map_get ps' (vn_networkId c) = Some p"
    "ve_observe env p \<lparr>oi_sourceTransactionId = at_sourceTransactionId a,
        oi_sourceEventPosition = at_sourceEventPosition a, oi_expectedSourceAsset = expected\<rparr> = Inr (Some ob)"
    using observe_source_Some ob observed rest(1,3) by blast
  moreover have "digest = ''sha256:'' @ sha bytes" using rest(5) signed(1) by (simp add: attestation_digest_def)
  ultimately show ?thesis
    using c expected rest(2) signed unfolding no_reasons no_preliminary by blast
qed

definition sample_observation :: source_observation where
  "sample_observation = \<lparr>so_networkId = ''IW:NETWORK:e'', so_networkType = EVM, so_transactionId = ''0xab'',
     so_transactionStatus = SOURCE_SUCCEEDED, so_eventPosition = ''0'', so_eventType = ''LOCK'',
     so_sourceAsset = EVM_CONTRACT ''0xA1'', so_assetId = ''IW:ASSET:gold'', so_operationId = ''IW:BRIDGE:1'',
     so_amount = ''5'', so_sender = ''IW:IDENTITY:s'', so_receiver = ''IW:IDENTITY:r'', so_canonical = True,
     so_finalitySatisfied = True, so_observedStatePosition = ''7'', so_observedAt = ''2025-01-01T00:00:00Z'',
     so_finalityEvidence = [''block'']\<rparr>"

definition sample_network :: validator_network where
  "sample_network = \<lparr>vn_networkId = ''IW:NETWORK:e'', vn_networkType = EVM, vn_endpoints = [''rpc''], vn_enabled = True,
     vn_sourceAssets = [(''IW:ASSET:gold'', EVM_CONTRACT ''0xa1'')], vn_allowedPolicyVersions = Some [''1'']\<rparr>"

definition sample_validator_env :: "unit validator_env" where
  "sample_validator_env = \<lparr>ve_create = \<lambda>_. Inr (), ve_observe = \<lambda>_ _. Inr (Some sample_observation),
     ve_signer = \<lparr>sg_validatorId = ''v'', sg_algorithm = ''ed25519'', sg_publicKeyId = ''k'', sg_sign = \<lambda>_. Inr ''sig''\<rparr>,
     ve_now = Some 1735689600000, ve_sign_now = Some 1735689600000\<rparr>"

definition sample_validator_networks :: validator_networks where
  "sample_validator_networks = [(''IW:NETWORK:e'', sample_network)]"

lemma sample_networks_configured: "configure_validator [] [sample_network] = Inr sample_validator_networks"
  by code_simp

lemma sample_preliminary: "preliminary_reasons (Some 1735689600000) sample_network sample_attestation = []"
  by code_simp

lemma sample_reasons: "observation_reasons (EVM_CONTRACT ''0xa1'') sample_attestation sample_observation = []"
  by code_simp

lemma sample_bytes: "\<exists>bytes. canonical_attestation_bytes sample_attestation = Inr bytes"
  by (simp add: attestation_bytes sample_unsigned del: normal_json.simps)

lemma sample_sign:
  "\<exists>s. sign_attestation sample_attestation (ve_signer sample_validator_env) ''2025-01-01T00:00:00.000Z'' = Inr s"
proof -
  obtain bytes where bytes: "canonical_attestation_bytes sample_attestation = Inr bytes" using sample_bytes by blast
  have time: "at_timestamp ''2025-01-01T00:00:00.000Z'' ''signedAt'' = Inr 1735689600000"
    "\<not> before_time 1735689600000 (at_observedAt sample_attestation)"
    "\<not> reached 1735689600000 (at_expiresAt sample_attestation)"
    by code_simp+
  have signer: "\<not> blank (sg_validatorId (ve_signer sample_validator_env))"
    "\<not> blank (sg_algorithm (ve_signer sample_validator_env))" "\<not> blank (sg_publicKeyId (ve_signer sample_validator_env))"
    by code_simp+
  have "sg_sign (ve_signer sample_validator_env) bytes = Inr ''sig''" by (simp add: sample_validator_env_def)
  then show ?thesis by (simp add: sign_attestation_def time signer bytes)
qed

lemma sample_signed:
  "\<exists>digest s ps'. verify_and_sign sha sample_validator_networks sample_validator_env sample_attestation [] =
     (Inr (Signed ''v'' digest s sample_observation), ps')"
proof -
  obtain bytes where bytes: "canonical_attestation_bytes sample_attestation = Inr bytes" using sample_bytes by blast
  obtain s where s: "sign_attestation sample_attestation (ve_signer sample_validator_env) ''2025-01-01T00:00:00.000Z'' = Inr s"
    using sample_sign by blast
  have net: "map_get sample_validator_networks (at_sourceNetworkId sample_attestation) = Some sample_network"
    "vn_enabled sample_network"
    "map_get (vn_sourceAssets sample_network) (at_assetId sample_attestation) = Some (EVM_CONTRACT ''0xa1'')"
    by code_simp+
  have "to_iso_string 1735689600000 = ''2025-01-01T00:00:00.000Z''" by code_simp
  then have iso: "iso_string (Some 1735689600000) = (ret ''2025-01-01T00:00:00.000Z'' :: (unit providers, string) comp)"
    by (simp add: iso_string_def)
  have env: "ve_now sample_validator_env = Some 1735689600000" "ve_sign_now sample_validator_env = Some 1735689600000"
    "sg_validatorId (ve_signer sample_validator_env) = ''v''"
    by (simp_all add: sample_validator_env_def)
  have observed: "observe_source sample_validator_env sample_network (EVM_CONTRACT ''0xa1'') sample_attestation [] =
      (Inr (Some (Some sample_observation)), [(vn_networkId sample_network, ())])"
    by (simp add: observe_source_def provider_for_def try_catch_def and_then_def sample_validator_env_def)
  show ?thesis
    by (simp add: verify_and_sign_def sample_unsigned net env sample_preliminary and_then_def observed sample_reasons iso s
        attestation_digest_def bytes Let_def)
qed

theorem validator_signs_only_observed_witness:
  "\<exists>bytes. canonical_attestation_bytes sample_attestation = Inr bytes
     \<and> sg_sign (ve_signer sample_validator_env) bytes = Inr ''sig''
     \<and> observation_agrees (EVM_CONTRACT ''0xa1'') sample_attestation sample_observation"
proof -
  have net: "map_get sample_validator_networks (at_sourceNetworkId sample_attestation) = Some sample_network"
    "map_get (vn_sourceAssets sample_network) (at_assetId sample_attestation) = Some (EVM_CONTRACT ''0xa1'')"
    by code_simp+
  obtain digest s ps' where run: "verify_and_sign (\<lambda>_. []) sample_validator_networks sample_validator_env sample_attestation [] =
     (Inr (Signed ''v'' digest s sample_observation), ps')"
    using sample_signed by blast
  obtain bytes where "canonical_attestation_bytes sample_attestation = Inr bytes"
    "sg_sign (ve_signer sample_validator_env) bytes = Inr (vs_signature s)"
    "observation_agrees (EVM_CONTRACT ''0xa1'') sample_attestation sample_observation"
    using validator_signs_only_observed [OF run] net by force
  moreover have "sg_sign (ve_signer sample_validator_env) bytes = Inr ''sig''" by (simp add: sample_validator_env_def)
  ultimately show ?thesis by blast
qed

end
