(* ===== verification/Policy_Engine.thy ===== *)
theory Policy_Engine
  imports Canonical_Json Invariants Js_Date Record_Store
begin

text \<open>
  The policy registry and the policy engine of packages/core/src/policy-engine.ts. A condition reads
  an amount only after the definition was checked, but \<open>conditionMatches\<close> is modelled with the errors
  it could throw. Reading a property of the metadata object also finds what every object inherits.
\<close>

section \<open>Data\<close>

record policy_asset =
  pa_id :: interweave_id
  pa_status :: asset_status
  pa_capabilities :: "asset_capability list"

record policy_input =
  in_asset :: policy_asset
  in_sender :: interweave_id
  in_receiver :: interweave_id
  in_senderHasActiveSourceBinding :: bool
  in_receiverHasActiveDestinationBinding :: bool
  in_amount :: atomic_amount
  in_operation :: string
  in_sourceNetworkId :: interweave_id
  in_destinationNetworkId :: "interweave_id option"
  in_metadata :: string_record
  in_evaluatedAt :: iso_timestamp

datatype binding_side = SENDER | RECEIVER | EITHER

datatype policy_condition =
    ALWAYS
  | AMOUNT_GREATER_THAN atomic_amount
  | AMOUNT_AT_MOST atomic_amount
  | ASSET_STATUS_IN "asset_status list"
  | OPERATION_IN "string list"
  | NETWORK_PAIR_IN "(interweave_id \<times> interweave_id option) list"
  | MISSING_REQUIRED_BINDING binding_side
  | METADATA_EQUALS string string
  | METADATA_MISSING string

record policy_rule =
  rule_id :: string
  rule_when :: policy_condition
  rule_outcome :: policy_outcome
  rule_reasonCode :: string

text \<open>The default outcome is never \<open>ALLOW\<close> by its type.\<close>

datatype default_outcome = DEFAULT_DENY | DEFAULT_REQUIRES_APPROVAL

fun default_as_outcome :: "default_outcome \<Rightarrow> policy_outcome" where
  "default_as_outcome DEFAULT_DENY = DENY"
| "default_as_outcome DEFAULT_REQUIRES_APPROVAL = REQUIRES_APPROVAL"

record policy_definition =
  pol_id :: interweave_id
  pol_version :: string
  pol_status :: policy_status
  pol_documentHash :: string
  pol_createdAt :: iso_timestamp
  pol_defaultOutcome :: default_outcome
  pol_defaultReasonCode :: string
  pol_rules :: "policy_rule list"

section \<open>Checks of a definition\<close>

text \<open>The text between the occurrences of a separator.\<close>

fun split_at :: "char \<Rightarrow> string \<Rightarrow> string list" where
  "split_at d [] = [[]]"
| "split_at d (c # cs) =
     (if c = d then [] # split_at d cs
      else case split_at d cs of [] \<Rightarrow> [[c]] | part # parts \<Rightarrow> (c # part) # parts)"

text \<open>\<open>/^[1-9][0-9]*(\.[0-9]+){0,2}$/\<close>\<close>

definition version_text :: "string \<Rightarrow> bool" where
  "version_text s \<longleftrightarrow>
     (let parts = split_at (CHR ''.'') s in
        length parts \<le> 3 \<and> list_all (\<lambda>part. part \<noteq> [] \<and> list_all is_digit part) parts
        \<and> hd (hd parts) \<noteq> CHR ''0'')"

definition upper_letter :: "char \<Rightarrow> bool" where
  "upper_letter c \<longleftrightarrow> (let n = of_char c :: nat in 65 \<le> n \<and> n \<le> 90)"

definition lower_letter :: "char \<Rightarrow> bool" where
  "lower_letter c \<longleftrightarrow> (let n = of_char c :: nat in 97 \<le> n \<and> n \<le> 122)"

text \<open>\<open>/^[A-Z][A-Z0-9_]{1,63}$/\<close> and \<open>/^[A-Za-z0-9._-]+$/\<close>\<close>

definition reason_code_text :: "string \<Rightarrow> bool" where
  "reason_code_text s \<longleftrightarrow>
     (case s of [] \<Rightarrow> False
      | c # cs \<Rightarrow> upper_letter c \<and> 1 \<le> length cs \<and> length cs \<le> 63
          \<and> list_all (\<lambda>c. upper_letter c \<or> is_digit c \<or> c = CHR ''_'') cs)"

definition rule_id_text :: "string \<Rightarrow> bool" where
  "rule_id_text s \<longleftrightarrow> s \<noteq> []
     \<and> list_all (\<lambda>c. upper_letter c \<or> lower_letter c \<or> is_digit c \<or> c \<in> set ''._-'') s"

definition assert_reason_code :: "string \<Rightarrow> unit result" where
  "assert_reason_code v =
     (if \<not> reason_code_text v then Inl (RegistryError INVALID_ARGUMENT (''invalid policy reason code: '' @ v)) else Inr ())"

definition assert_condition :: "policy_condition \<Rightarrow> unit result" where
  "assert_condition condition =
     (case condition of
        AMOUNT_GREATER_THAN amount \<Rightarrow> bind_result (parse_atomic_amount amount) (\<lambda>_. Inr ())
      | AMOUNT_AT_MOST amount \<Rightarrow> bind_result (parse_atomic_amount amount) (\<lambda>_. Inr ())
      | METADATA_EQUALS key v \<Rightarrow>
          if blank key then Inl (RegistryError INVALID_ARGUMENT ''metadata condition key is required'') else Inr ()
      | METADATA_MISSING key \<Rightarrow>
          if blank key then Inl (RegistryError INVALID_ARGUMENT ''metadata condition key is required'') else Inr ()
      | OPERATION_IN operations \<Rightarrow>
          if operations = [] then Inl (RegistryError INVALID_ARGUMENT ''operation condition cannot be empty'') else Inr ()
      | ASSET_STATUS_IN statuses \<Rightarrow>
          if statuses = [] then Inl (RegistryError INVALID_ARGUMENT ''asset status condition cannot be empty'') else Inr ()
      | NETWORK_PAIR_IN pairs \<Rightarrow>
          if pairs = [] then Inl (RegistryError INVALID_ARGUMENT ''network pair condition cannot be empty'') else Inr ()
      | _ \<Rightarrow> Inr ())"

fun check_rules :: "string list \<Rightarrow> policy_rule list \<Rightarrow> unit result" where
  "check_rules ids [] = Inr ()"
| "check_rules ids (rule # rules) =
     (if \<not> rule_id_text (rule_id rule) \<or> rule_id rule \<in> set ids
      then Inl (RegistryError INVALID_ARGUMENT (''invalid or duplicate rule ID: '' @ rule_id rule))
      else bind_result (assert_reason_code (rule_reasonCode rule)) (\<lambda>_.
        bind_result (assert_condition (rule_when rule)) (\<lambda>_. check_rules (rule_id rule # ids) rules)))"

definition assert_policy_definition :: "policy_definition \<Rightarrow> unit result" where
  "assert_policy_definition policy =
     (if \<not> has_prefix_id (pol_id policy) ''IW:POLICY:'' then Inl (RegistryError INVALID_ARGUMENT ''invalid policy ID'')
      else if \<not> version_text (pol_version policy)
      then Inl (RegistryError INVALID_ARGUMENT ''policy version must be numeric and explicit'')
      else if blank (pol_documentHash policy) then Inl (RegistryError INVALID_ARGUMENT ''policy document hash is required'')
      else bind_result (assert_reason_code (pol_defaultReasonCode policy)) (\<lambda>_.
        if pol_rules policy = []
        then Inl (RegistryError INVALID_ARGUMENT ''a policy must contain at least one explicit rule'')
        else check_rules [] (pol_rules policy)))"

section \<open>Evaluation\<close>

text \<open>\<open>metadata[key]\<close>: an own property, else what the object inherits, which is never a string.\<close>

definition inherited_keys :: "string list" where
  "inherited_keys = [''constructor'', ''toString'', ''toLocaleString'', ''valueOf'', ''hasOwnProperty'',
     ''isPrototypeOf'', ''propertyIsEnumerable'', ''__proto__'', ''__defineGetter__'', ''__defineSetter__'',
     ''__lookupGetter__'', ''__lookupSetter__'']"

definition metadata_missing :: "string_record \<Rightarrow> string \<Rightarrow> bool" where
  "metadata_missing m key \<longleftrightarrow> map_of m key = None \<and> key \<notin> set inherited_keys"

fun condition_matches :: "policy_condition \<Rightarrow> policy_input \<Rightarrow> bool result" where
  "condition_matches ALWAYS i = Inr True"
| "condition_matches (AMOUNT_GREATER_THAN amount) i =
     bind_result (parse_atomic_amount (in_amount i)) (\<lambda>a.
     bind_result (parse_atomic_amount amount) (\<lambda>b. Inr (a > b)))"
| "condition_matches (AMOUNT_AT_MOST amount) i =
     bind_result (parse_atomic_amount (in_amount i)) (\<lambda>a.
     bind_result (parse_atomic_amount amount) (\<lambda>b. Inr (a \<le> b)))"
| "condition_matches (ASSET_STATUS_IN statuses) i = Inr (pa_status (in_asset i) \<in> set statuses)"
| "condition_matches (OPERATION_IN operations) i = Inr (in_operation i \<in> set operations)"
| "condition_matches (NETWORK_PAIR_IN pairs) i =
     Inr (\<exists>(source, destination) \<in> set pairs. source = in_sourceNetworkId i \<and> destination = in_destinationNetworkId i)"
| "condition_matches (MISSING_REQUIRED_BINDING side) i =
     Inr (case side of
        SENDER \<Rightarrow> \<not> in_senderHasActiveSourceBinding i
      | RECEIVER \<Rightarrow> \<not> in_receiverHasActiveDestinationBinding i
      | EITHER \<Rightarrow> \<not> in_senderHasActiveSourceBinding i \<or> \<not> in_receiverHasActiveDestinationBinding i)"
| "condition_matches (METADATA_EQUALS key v) i = Inr (map_of (in_metadata i) key = Some v)"
| "condition_matches (METADATA_MISSING key) i = Inr (metadata_missing (in_metadata i) key)"

fun matching_rules :: "policy_input \<Rightarrow> policy_rule list \<Rightarrow> policy_rule list result" where
  "matching_rules i [] = Inr []"
| "matching_rules i (rule # rules) =
     bind_result (condition_matches (rule_when rule) i) (\<lambda>m.
     bind_result (matching_rules i rules) (\<lambda>rest. Inr (if m then rule # rest else rest)))"

definition strength :: "policy_outcome \<Rightarrow> nat" where
  "strength outcome = (if outcome = DENY then 3 else if outcome = REQUIRES_APPROVAL then 2 else 1)"

definition strongest :: "policy_rule list \<Rightarrow> policy_outcome" where
  "strongest matched =
     foldl (\<lambda>outcome rule. if strength (rule_outcome rule) > strength outcome then rule_outcome rule else outcome) ALLOW matched"

definition decision :: "policy_definition \<Rightarrow> policy_input \<Rightarrow> policy_outcome \<Rightarrow> string list \<Rightarrow> string list \<Rightarrow> policy_decision" where
  "decision policy i outcome reasons rules =
     \<lparr>pd_outcome = outcome, pd_reasonCodes = reasons, pd_policyId = pol_id policy, pd_policyVersion = pol_version policy,
      pd_decidedAt = in_evaluatedAt i, pd_matchedRuleIds = Some rules\<rparr>"

definition policy_evaluate :: "policy_definition \<Rightarrow> policy_input \<Rightarrow> policy_decision result" where
  "policy_evaluate policy i =
     bind_result (assert_policy_definition policy) (\<lambda>_.
     if pol_status policy \<noteq> POLICY_ACTIVE then Inr (decision policy i DENY [''POLICY_NOT_ACTIVE''] [])
     else bind_result (parse_atomic_amount (in_amount i)) (\<lambda>_.
       if date_parse (in_evaluatedAt i) = None
       then Inl (RegistryError INVALID_ARGUMENT ''evaluation timestamp is invalid'')
       else bind_result (matching_rules i (pol_rules policy)) (\<lambda>matched.
         if matched = []
         then Inr (decision policy i (default_as_outcome (pol_defaultOutcome policy)) [pol_defaultReasonCode policy] [])
         else let outcome = strongest matched;
                  decisive = filter (\<lambda>rule. rule_outcome rule = outcome) matched in
           Inr (decision policy i outcome (js_sort (js_set (map rule_reasonCode decisive)))
             (js_sort (map rule_id decisive))))))"

section \<open>The registry\<close>

type_synonym policy_registry = "(string, policy_definition) js_map"

definition policy_key :: "interweave_id \<Rightarrow> string \<Rightarrow> string" where
  "policy_key i version = i @ ''@'' @ version"

definition policy_register :: "policy_definition \<Rightarrow> (policy_registry, policy_definition) comp" where
  "policy_register policy =
     and_then (lift_result (assert_policy_definition policy)) (\<lambda>_.
     and_then (gets (\<lambda>policies. policies)) (\<lambda>policies.
     let key = policy_key (pol_id policy) (pol_version policy) in
     if map_has policies key then throw (RegistryError ALREADY_EXISTS (''policy version already exists: '' @ key))
     else if pol_status policy = POLICY_ACTIVE
       \<and> (\<exists>item \<in> set (map_values policies). pol_id item = pol_id policy \<and> pol_status item = POLICY_ACTIVE)
     then throw (RegistryError CONFLICT (''policy already has an active version: '' @ pol_id policy))
     else and_then (modify (map_set key policy)) (\<lambda>_. ret policy)))"

definition policy_get :: "policy_registry \<Rightarrow> interweave_id \<Rightarrow> string \<Rightarrow> policy_definition option" where
  "policy_get policies i version = map_get policies (policy_key i version)"

definition policy_get_active :: "policy_registry \<Rightarrow> interweave_id \<Rightarrow> policy_definition option" where
  "policy_get_active policies i = find (\<lambda>item. pol_id item = i \<and> pol_status item = POLICY_ACTIVE) (map_values policies)"

text \<open>The loop of \<open>activate\<close> overwrites entries of the map it walks.\<close>

definition retire_active :: "interweave_id \<Rightarrow> policy_registry \<Rightarrow> policy_registry" where
  "retire_active i policies =
     map (\<lambda>(key, policy). (key, if pol_id policy = i \<and> pol_status policy = POLICY_ACTIVE
        then policy\<lparr>pol_status := POLICY_RETIRED\<rparr> else policy)) policies"

definition policy_activate :: "interweave_id \<Rightarrow> string \<Rightarrow> (policy_registry, policy_definition) comp" where
  "policy_activate i version =
     and_then (gets (\<lambda>policies. policies)) (\<lambda>policies.
     let key = policy_key i version in
     case map_get policies key of
       None \<Rightarrow> throw (RegistryError NOT_FOUND (''policy version not found: '' @ key))
     | Some selected \<Rightarrow>
         if pol_status selected = POLICY_RETIRED
         then throw (RegistryError CONFLICT ''retired policy versions cannot be reactivated'')
         else let activated = selected\<lparr>pol_status := POLICY_ACTIVE\<rparr> in
           and_then (modify (\<lambda>m. map_set key activated (retire_active i m))) (\<lambda>_. ret activated))"

text \<open>The facade that transactions use.\<close>

definition can_transfer :: "policy_registry \<Rightarrow> interweave_id \<Rightarrow> policy_input \<Rightarrow> policy_decision result" where
  "can_transfer policies policyId i =
     (case policy_get_active policies policyId of
        None \<Rightarrow> Inr \<lparr>pd_outcome = DENY, pd_reasonCodes = [''NO_ACTIVE_POLICY''], pd_policyId = policyId,
          pd_policyVersion = ''NONE'', pd_decidedAt = in_evaluatedAt i, pd_matchedRuleIds = Some []\<rparr>
      | Some policy \<Rightarrow> policy_evaluate policy i)"

section \<open>What a decision depends on\<close>

definition applies :: "policy_input \<Rightarrow> policy_rule \<Rightarrow> bool" where
  "applies i rule \<longleftrightarrow> condition_matches (rule_when rule) i = Inr True"

lemma matching_rules_Inr:
  "matching_rules i rules = Inr ms \<longleftrightarrow>
     (\<forall>r \<in> set rules. \<exists>b. condition_matches (rule_when r) i = Inr b) \<and> ms = filter (applies i) rules"
proof (induction rules arbitrary: ms)
  case (Cons r rules)
  show ?case
  proof (cases "condition_matches (rule_when r) i")
    case (Inr b)
    then show ?thesis by (cases b) (auto simp: Cons.IH applies_def)
  qed simp
qed auto

lemma strongest_from:
  "foldl (\<lambda>outcome rule. if strength (rule_outcome rule) > strength outcome then rule_outcome rule else outcome) start ms
     = (if DENY \<in> insert start (rule_outcome ` set ms) then DENY
        else if REQUIRES_APPROVAL \<in> insert start (rule_outcome ` set ms) then REQUIRES_APPROVAL else ALLOW)"
proof (induction ms arbitrary: start)
  case Nil
  then show ?case by (cases start) auto
next
  case (Cons r ms)
  then show ?case by (cases start; cases "rule_outcome r") (auto simp: strength_def)
qed

lemma strongest_eq:
  "strongest ms = (if \<exists>r \<in> set ms. rule_outcome r = DENY then DENY
     else if \<exists>r \<in> set ms. rule_outcome r = REQUIRES_APPROVAL then REQUIRES_APPROVAL else ALLOW)"
  unfolding strongest_def strongest_from by (auto simp: image_iff) (metis)+

lemma js_sort_cong: "mset xs = mset ys \<Longrightarrow> js_sort xs = js_sort ys"
  by (rule sorted_unique [where le = string_le])
    (auto simp: mset_sort_by string_le_antisym intro!: sorted_sort_by string_le_total dest: string_le_trans)

lemma js_set_mset: "set xs = set ys \<Longrightarrow> mset (js_set xs) = mset (js_set ys)"
  by (simp add: set_eq_iff_mset_eq_distinct [symmetric])

lemma check_rules_Inr:
  "check_rules ids rules = Inr () \<longleftrightarrow>
     (\<forall>r \<in> set rules. rule_id_text (rule_id r)
        \<and> assert_reason_code (rule_reasonCode r) = Inr () \<and> assert_condition (rule_when r) = Inr ())
     \<and> distinct (map rule_id rules) \<and> set ids \<inter> set (map rule_id rules) = {}"
proof (induction ids rules rule: check_rules.induct)
  case (2 ids rule rules)
  show ?case
  proof (cases "rule_id_text (rule_id rule) \<and> rule_id rule \<notin> set ids \<and> assert_reason_code (rule_reasonCode rule) = Inr ()
      \<and> assert_condition (rule_when rule) = Inr ()")
    case True
    then show ?thesis using 2 by auto
  qed auto
qed simp

lemma check_rules_mset: "mset rs = mset rules \<Longrightarrow> check_rules [] rs = Inr () \<longleftrightarrow> check_rules [] rules = Inr ()"
proof -
  assume eq: "mset rs = mset rules"
  then have "mset (map rule_id rs) = mset (map rule_id rules)" by simp
  then have "distinct (map rule_id rs) \<longleftrightarrow> distinct (map rule_id rules)" by (rule mset_eq_imp_distinct_iff)
  then show ?thesis by (simp add: check_rules_Inr mset_eq_setD [OF eq])
qed

lemma strongest_set: "set ms = set ms' \<Longrightarrow> strongest ms = strongest ms'"
  by (simp add: strongest_eq)

lemma policy_evaluate_order:
  assumes "policy_evaluate p i = Inr d" "mset rs = mset (pol_rules p)"
  shows "policy_evaluate (p\<lparr>pol_rules := rs\<rparr>) i = Inr d"
proof -
  have sets: "set rs = set (pol_rules p)" using assms(2) by (rule mset_eq_setD)
  have ok: "assert_policy_definition p = Inr ()" using assms(1) by (auto simp: policy_evaluate_def)
  have ok': "assert_policy_definition (p\<lparr>pol_rules := rs\<rparr>) = Inr ()"
  proof -
    have "rs \<noteq> []" "check_rules [] rs = Inr ()" "pol_rules p \<noteq> []"
      using ok sets by (auto simp: assert_policy_definition_def check_rules_mset [OF assms(2)] split: if_splits)
    then show ?thesis
      using ok check_rules_mset [OF assms(2)] unfolding assert_policy_definition_def by (simp split: if_splits)
  qed
  have same: "decision (p\<lparr>pol_rules := rs\<rparr>) i = decision p i" by (simp add: decision_def fun_eq_iff)
  show ?thesis
  proof (cases "pol_status p = POLICY_ACTIVE")
    case False
    then show ?thesis using assms(1) ok ok' by (simp add: policy_evaluate_def same)
  next
    case True
    then have total: "\<forall>r \<in> set (pol_rules p). \<exists>b. condition_matches (rule_when r) i = Inr b"
      using assms(1) by (auto simp: policy_evaluate_def matching_rules_Inr split: if_splits)
    let ?m = "filter (applies i) (pol_rules p)" and ?m' = "filter (applies i) rs"
    have runs: "matching_rules i (pol_rules p) = Inr ?m" "matching_rules i rs = Inr ?m'"
      using total sets by (auto simp: matching_rules_Inr)
    have m: "mset ?m' = mset ?m" using assms(2) by simp
    then have empty: "?m' = [] \<longleftrightarrow> ?m = []" by (metis mset_zero_iff)
    have strong: "strongest ?m' = strongest ?m" using m by (intro strongest_set) (rule mset_eq_setD)
    have "mset (filter P ?m') = mset (filter P ?m)" for P
      using arg_cong [OF m, of "filter_mset P"] by (simp only: mset_filter)
    then have ids: "js_sort (map f (filter P ?m')) = js_sort (map f (filter P ?m))"
      and codes: "js_sort (js_set (map f (filter P ?m'))) = js_sort (js_set (map f (filter P ?m)))" for f :: "policy_rule \<Rightarrow> string" and P
      by (auto intro!: js_sort_cong js_set_mset simp: sets)
    have "policy_evaluate (p\<lparr>pol_rules := rs\<rparr>) i = policy_evaluate p i"
      by (simp add: policy_evaluate_def same runs Let_def empty strong ids codes ok ok' del: filter_filter cong: if_cong)
    then show ?thesis using assms(1) by simp
  qed
qed

lemma policy_evaluate_outcome:
  assumes "policy_evaluate p i = Inr d"
  shows "pd_outcome d = (if pol_status p \<noteq> POLICY_ACTIVE then DENY
     else if \<exists>r \<in> set (pol_rules p). applies i r
       then (if \<exists>r \<in> set (pol_rules p). applies i r \<and> rule_outcome r = DENY then DENY
         else if \<exists>r \<in> set (pol_rules p). applies i r \<and> rule_outcome r = REQUIRES_APPROVAL then REQUIRES_APPROVAL else ALLOW)
       else default_as_outcome (pol_defaultOutcome p))"
  using assms
  by (auto simp: policy_evaluate_def matching_rules_Inr decision_def Let_def strongest_eq filter_empty_conv split: if_splits)

lemma default_not_allow: "default_as_outcome x \<noteq> ALLOW"
  by (cases x) auto

text \<open>
  C23. The decision of the engine: it allows exactly if the policy is active, some rule matches and
  every matching rule allows; a matching \<open>DENY\<close> rule of an active policy always wins; and the order of
  the rules never matters, not even for the reason codes and rule IDs reported.
\<close>

theorem policy_decision_exact:
  assumes "policy_evaluate p i = Inr d"
  shows "(pd_outcome d = ALLOW \<longleftrightarrow> pol_status p = POLICY_ACTIVE \<and> (\<exists>r \<in> set (pol_rules p). applies i r)
        \<and> (\<forall>r \<in> set (pol_rules p). applies i r \<longrightarrow> rule_outcome r = ALLOW))
    \<and> ((\<exists>r \<in> set (pol_rules p). applies i r \<and> rule_outcome r = DENY) \<longrightarrow> pd_outcome d = DENY)
    \<and> (\<forall>rs. mset rs = mset (pol_rules p) \<longrightarrow> policy_evaluate (p\<lparr>pol_rules := rs\<rparr>) i = Inr d)"
proof (intro conjI allI impI)
  have "x \<noteq> DENY \<and> x \<noteq> REQUIRES_APPROVAL \<longleftrightarrow> x = ALLOW" for x by (cases x) auto
  then show "pd_outcome d = ALLOW \<longleftrightarrow> pol_status p = POLICY_ACTIVE \<and> (\<exists>r \<in> set (pol_rules p). applies i r)
      \<and> (\<forall>r \<in> set (pol_rules p). applies i r \<longrightarrow> rule_outcome r = ALLOW)"
    unfolding policy_evaluate_outcome [OF assms] using default_not_allow by (auto split: if_splits)
  show "pd_outcome d = DENY" if "\<exists>r \<in> set (pol_rules p). applies i r \<and> rule_outcome r = DENY"
    unfolding policy_evaluate_outcome [OF assms] using that by auto
qed (rule policy_evaluate_order [OF assms])

definition sample_rules :: "policy_rule list" where
  "sample_rules = [\<lparr>rule_id = ''limit'', rule_when = AMOUNT_GREATER_THAN ''100'', rule_outcome = DENY, rule_reasonCode = ''OVER_LIMIT''\<rparr>,
     \<lparr>rule_id = ''any'', rule_when = ALWAYS, rule_outcome = ALLOW, rule_reasonCode = ''OK''\<rparr>]"

definition sample_policy :: policy_definition where
  "sample_policy = \<lparr>pol_id = ''IW:POLICY:p'', pol_version = ''1.0'', pol_status = POLICY_ACTIVE, pol_documentHash = ''h'',
     pol_createdAt = ''2025-01-01'', pol_defaultOutcome = DEFAULT_DENY, pol_defaultReasonCode = ''NO_RULE'',
     pol_rules = sample_rules\<rparr>"

definition sample_input :: policy_input where
  "sample_input = \<lparr>in_asset = \<lparr>pa_id = ''IW:ASSET:gold'', pa_status = ASSET_ACTIVE, pa_capabilities = []\<rparr>,
     in_sender = ''IW:IDENTITY:s'', in_receiver = ''IW:IDENTITY:r'', in_senderHasActiveSourceBinding = True,
     in_receiverHasActiveDestinationBinding = True, in_amount = ''101'', in_operation = ''TRANSFER'',
     in_sourceNetworkId = ''IW:NETWORK:e'', in_destinationNetworkId = None, in_metadata = [],
     in_evaluatedAt = ''2025-01-01''\<rparr>"

theorem policy_decision_exact_witness:
  "policy_evaluate (sample_policy\<lparr>pol_rules := rev sample_rules\<rparr>) sample_input =
     Inr (decision sample_policy sample_input DENY [''OVER_LIMIT''] [''limit''])"
proof -
  have "policy_evaluate sample_policy sample_input = Inr (decision sample_policy sample_input DENY [''OVER_LIMIT''] [''limit''])"
    by code_simp
  moreover have "mset (rev sample_rules) = mset (pol_rules sample_policy)" by (simp add: sample_policy_def)
  ultimately show ?thesis using policy_decision_exact by blast
qed

section \<open>One active version\<close>

inductive policy_reachable :: "policy_registry \<Rightarrow> bool" where
  reach_empty: "policy_reachable []"
| reach_register: "policy_reachable m \<Longrightarrow> policy_register p m = (res, m') \<Longrightarrow> policy_reachable m'"
| reach_activate: "policy_reachable m \<Longrightarrow> CHR ''@'' \<notin> set version \<Longrightarrow> policy_activate i version m = (res, m')
    \<Longrightarrow> policy_reachable m'"

definition policies_ok :: "policy_registry \<Rightarrow> bool" where
  "policies_ok m \<longleftrightarrow> distinct (map fst m)
     \<and> (\<forall>(k, p) \<in> set m. k = policy_key (pol_id p) (pol_version p) \<and> CHR ''@'' \<notin> set (pol_version p))
     \<and> (\<forall>(k, p) \<in> set m. \<forall>(k', p') \<in> set m. pol_status p = POLICY_ACTIVE \<longrightarrow> pol_status p' = POLICY_ACTIVE
          \<longrightarrow> pol_id p = pol_id p' \<longrightarrow> k = k')"

lemma split_at_chars: "x \<in> set s \<Longrightarrow> x \<noteq> d \<Longrightarrow> \<exists>part \<in> set (split_at d s). x \<in> set part"
proof (induction s)
  case (Cons c s)
  then show ?case by (cases "split_at d s") auto
qed simp

lemma version_text_plain: "version_text v \<Longrightarrow> CHR ''@'' \<notin> set v"
proof
  assume "version_text v" "CHR ''@'' \<in> set v"
  moreover have "CHR ''@'' \<noteq> CHR ''.''" by simp
  ultimately obtain part where "part \<in> set (split_at (CHR ''.'') v)" "CHR ''@'' \<in> set part"
    using split_at_chars [of "CHR ''@''" v "CHR ''.''"] by auto
  then have "is_digit (CHR ''@'')" using \<open>version_text v\<close> by (auto simp: version_text_def Let_def list_all_iff)
  then show False by (simp add: is_digit_def)
qed

lemma policy_key_inject:
  "CHR ''@'' \<notin> set v \<Longrightarrow> CHR ''@'' \<notin> set v' \<Longrightarrow> policy_key i v = policy_key i' v' \<longleftrightarrow> i = i' \<and> v = v'"
  using separator_inject [of "CHR ''@''" v v' i i'] by (simp add: policy_key_def)

lemma policies_entry:
  assumes "policies_ok m" "map_get m k = Some p"
  shows "k = policy_key (pol_id p) (pol_version p)" "CHR ''@'' \<notin> set (pol_version p)"
  using assms map_of_SomeD [OF assms(2)] by (auto simp: policies_ok_def)

lemma policies_ok_I:
  assumes "distinct (map fst m)"
    and "\<And>k p. map_get m k = Some p \<Longrightarrow> k = policy_key (pol_id p) (pol_version p) \<and> CHR ''@'' \<notin> set (pol_version p)"
    and "\<And>k p k' p'. map_get m k = Some p \<Longrightarrow> map_get m k' = Some p' \<Longrightarrow> pol_status p = POLICY_ACTIVE
      \<Longrightarrow> pol_status p' = POLICY_ACTIVE \<Longrightarrow> pol_id p = pol_id p' \<Longrightarrow> k = k'"
  shows "policies_ok m"
  using assms by (auto simp: policies_ok_def)

lemma find_unique:
  "x \<in> set xs \<Longrightarrow> P x \<Longrightarrow> (\<And>y. y \<in> set xs \<Longrightarrow> P y \<Longrightarrow> y = x) \<Longrightarrow> find P xs = Some x"
proof (induction xs)
  case (Cons a xs)
  show ?case
  proof (cases "P a")
    case True
    then have "a = x" by (intro Cons.prems(3)) simp_all
    then show ?thesis using True by simp
  next
    case False
    then have "x \<in> set xs" using Cons.prems(1,2) by auto
    then have "find P xs = Some x" 
      by (rule Cons.IH [OF _ Cons.prems(2)]) (rule Cons.prems(3), rule list.set_intros)
    then show ?thesis using False by simp
  qed
qed simp

lemma policies_one:
  assumes "policies_ok m" "map_get m k = Some p" "map_get m k' = Some p'" "pol_status p = POLICY_ACTIVE"
    "pol_status p' = POLICY_ACTIVE" "pol_id p = pol_id p'"
  shows "k = k'"
  using assms(1) map_of_SomeD [OF assms(2)] map_of_SomeD [OF assms(3)] assms(4-6) unfolding policies_ok_def by blast

lemma register_policies_ok:
  assumes "policies_ok m" "policy_register p m = (res, m')"
  shows "policies_ok m'"
proof (cases "m' = m")
  case False
  then have p: "assert_policy_definition p = Inr ()" "\<not> map_has m (policy_key (pol_id p) (pol_version p))"
    "pol_status p = POLICY_ACTIVE \<Longrightarrow> \<forall>item \<in> set (map_values m). \<not> (pol_id item = pol_id p \<and> pol_status item = POLICY_ACTIVE)"
    and m': "m' = map_set (policy_key (pol_id p) (pol_version p)) p m"
    using assms(2) by (auto simp: policy_register_def and_then_def Let_def split: sum.splits if_splits)
  have plain: "CHR ''@'' \<notin> set (pol_version p)"
    using p(1) by (intro version_text_plain) (auto simp: assert_policy_definition_def split: if_splits)
  show ?thesis
  proof (rule policies_ok_I)
    show "distinct (map fst m')" using assms(1) by (simp add: m' policies_ok_def distinct_update)
  next
    fix k q assume "map_get m' k = Some q"
    then show "k = policy_key (pol_id q) (pol_version q) \<and> CHR ''@'' \<notin> set (pol_version q)"
      using policies_entry [OF assms(1)] plain by (auto simp: m' split: if_splits)
  next
    fix k q k' q' assume q: "map_get m' k = Some q" "map_get m' k' = Some q'" "pol_status q = POLICY_ACTIVE"
      "pol_status q' = POLICY_ACTIVE" "pol_id q = pol_id q'"
    have clash: False if "map_get m k0 = Some r" "pol_status r = POLICY_ACTIVE" "pol_id r = pol_id p" "pol_status p = POLICY_ACTIVE" for k0 r
    proof -
      have "r \<in> set (map_values m)" using map_of_SomeD [OF that(1)] by force
      then show False using p(3) that by blast
    qed
    let ?key = "policy_key (pol_id p) (pol_version p)"
    consider "k = ?key" "k' = ?key" | "k = ?key" "k' \<noteq> ?key" | "k \<noteq> ?key" "k' = ?key" | "k \<noteq> ?key" "k' \<noteq> ?key" by blast
    then show "k = k'"
    proof cases
      case 2
      then show ?thesis using clash [of k' q'] q by (simp add: m')
    next
      case 3
      then show ?thesis using clash [of k q] q by (simp add: m')
    next
      case 4
      then show ?thesis using policies_one [OF assms(1)] q by (simp add: m')
    qed simp
  qed
qed (use assms in simp)

lemma map_of_retire:
  "map_get (retire_active i m) k = map_option (\<lambda>p. if pol_id p = i \<and> pol_status p = POLICY_ACTIVE
     then p\<lparr>pol_status := POLICY_RETIRED\<rparr> else p) (map_get m k)"
  unfolding retire_active_def map_of_map by simp

lemma retired_entry:
  assumes "map_get (retire_active i m) k = Some q"
  shows "pol_id q \<noteq> i \<or> pol_status q \<noteq> POLICY_ACTIVE" "pol_status q = POLICY_ACTIVE \<Longrightarrow> map_get m k = Some q"
    "\<exists>p. map_get m k = Some p \<and> pol_id q = pol_id p \<and> pol_version q = pol_version p"
proof -
  obtain p where p: "map_get m k = Some p" "q = (if pol_id p = i \<and> pol_status p = POLICY_ACTIVE
      then p\<lparr>pol_status := POLICY_RETIRED\<rparr> else p)"
    using assms unfolding map_of_retire by (cases "map_get m k") simp_all
  show "pol_id q \<noteq> i \<or> pol_status q \<noteq> POLICY_ACTIVE" "pol_status q = POLICY_ACTIVE \<Longrightarrow> map_get m k = Some q"
    "\<exists>p. map_get m k = Some p \<and> pol_id q = pol_id p \<and> pol_version q = pol_version p"
    using p by (cases "pol_id p = i \<and> pol_status p = POLICY_ACTIVE"; simp)+
qed

lemma activate_policies_ok:
  assumes "policies_ok m" "CHR ''@'' \<notin> set version" "policy_activate i version m = (res, m')"
  shows "policies_ok m'"
proof (cases "m' = m")
  case False
  then obtain s where s: "map_get m (policy_key i version) = Some s"
    and m': "m' = map_set (policy_key i version) (s\<lparr>pol_status := POLICY_ACTIVE\<rparr>) (retire_active i m)"
  proof (cases "map_get m (policy_key i version)")
    case None
    then show ?thesis using assms(3) False by (simp add: policy_activate_def and_then_def)
  next
    case (Some s)
    then show ?thesis using assms(3) False that [OF Some]
      by (cases "pol_status s = POLICY_RETIRED") (auto simp: policy_activate_def and_then_def Let_def)
  qed
  have key: "pol_id s = i" "pol_version s = version"
    using policies_entry [OF assms(1) s] assms(2) by (auto simp: policy_key_inject)
  show ?thesis
  proof (rule policies_ok_I)
    show "distinct (map fst m')"
      using assms(1) by (simp add: m' policies_ok_def distinct_update retire_active_def case_prod_beta comp_def)
  next
    fix k q assume "map_get m' k = Some q"
    then show "k = policy_key (pol_id q) (pol_version q) \<and> CHR ''@'' \<notin> set (pol_version q)"
    proof (cases "k = policy_key i version")
      case True
      then show ?thesis using \<open>map_get m' k = Some q\<close> key assms(2) by (auto simp: m')
    next
      case False
      then have "map_get (retire_active i m) k = Some q" using \<open>map_get m' k = Some q\<close> by (simp add: m')
      then obtain p where "map_get m k = Some p" "pol_id q = pol_id p" "pol_version q = pol_version p"
        using retired_entry(3) by blast
      then show ?thesis using policies_entry [OF assms(1)] by simp
    qed
  next
    fix k q k' q' assume q: "map_get m' k = Some q" "map_get m' k' = Some q'" "pol_status q = POLICY_ACTIVE"
      "pol_status q' = POLICY_ACTIVE" "pol_id q = pol_id q'"
    let ?key = "policy_key i version"
    consider "k = ?key" "k' = ?key" | "k = ?key" "k' \<noteq> ?key" | "k \<noteq> ?key" "k' = ?key" | "k \<noteq> ?key" "k' \<noteq> ?key" by blast
    then show "k = k'"
    proof cases
      case 2
      then have "pol_id q' = i" "map_get (retire_active i m) k' = Some q'" using q key by (auto simp: m')
      then show ?thesis using retired_entry(1) q(4) by blast
    next
      case 3
      then have "pol_id q = i" "map_get (retire_active i m) k = Some q" using q key by (auto simp: m')
      then show ?thesis using retired_entry(1) q(3) by blast
    next
      case 4
      then have "map_get m k = Some q" "map_get m k' = Some q'" using q by (auto simp: m' intro: retired_entry(2))
      then show ?thesis using policies_one [OF assms(1)] q(3-5) by blast
    qed simp
  qed
qed (use assms in simp)

lemma reachable_policies_ok: "policy_reachable m \<Longrightarrow> policies_ok m"
proof (induction rule: policy_reachable.induct)
  case reach_empty
  then show ?case by (simp add: policies_ok_def)
qed (blast intro: register_policies_ok activate_policies_ok)+

lemma single_element: "distinct xs \<Longrightarrow> (\<And>x y. x \<in> set xs \<Longrightarrow> y \<in> set xs \<Longrightarrow> x = y) \<Longrightarrow> length xs \<le> 1"
  using distinct_card [of xs] card_le_Suc0_iff_eq [of "set xs"] by simp

abbreviation active_under :: "interweave_id \<Rightarrow> policy_definition \<Rightarrow> bool" where
  "active_under i p \<equiv> pol_id p = i \<and> pol_status p = POLICY_ACTIVE"

lemma active_entry_unique:
  assumes ok: "policies_ok m" and e: "e \<in> set m" "e' \<in> set m" "active_under i (snd e)" "active_under i (snd e')"
  shows "e = e'"
proof -
  have get: "map_get m (fst e) = Some (snd e)" "map_get m (fst e') = Some (snd e')"
    using ok e(1,2) by (simp_all add: policies_ok_def)
  have keys: "fst e = fst e'" using policies_one [OF ok get] e(3,4) by simp
  then have "snd e = snd e'" using get by simp
  with keys show ?thesis by (rule prod_eqI)
qed

lemma active_count:
  assumes ok: "policies_ok m"
  shows "length (filter (active_under i) (map_values m)) \<le> 1"
proof -
  have "length (filter (\<lambda>e. active_under i (snd e)) m) \<le> 1"
  proof (rule single_element)
    have "distinct m" using ok by (auto simp: policies_ok_def distinct_map)
    then show "distinct (filter (\<lambda>e. active_under i (snd e)) m)" by simp
  qed (use active_entry_unique [OF ok] in auto)
  then show ?thesis by (simp add: filter_map comp_def)
qed

lemma active_is_got:
  assumes ok: "policies_ok m" and p: "policy_get m i version = Some p" "CHR ''@'' \<notin> set version" "pol_status p = POLICY_ACTIVE"
  shows "policy_get_active m i = Some p"
proof -
  have get: "map_get m (policy_key i version) = Some p" using p(1) by (simp add: policy_get_def)
  have entry: "(policy_key i version, p) \<in> set m" using get by (rule map_of_SomeD)
  have i: "pol_id p = i" using policies_entry [OF ok get] p(2) by (simp add: policy_key_inject)
  have mem: "p \<in> set (map_values m)" "active_under i p" using entry i p(3) by (auto intro: rev_image_eqI)
  have "q = p" if q: "q \<in> set (map_values m)" "active_under i q" for q
  proof -
    obtain e where e: "e \<in> set m" "q = snd e" using q(1) by auto
    have "e = (policy_key i version, p)"
      by (rule active_entry_unique [OF ok e(1) entry, of i]) (use q(2) mem(2) e(2) in simp_all)
    then show ?thesis using e(2) by simp
  qed
  with mem show ?thesis unfolding policy_get_active_def by (rule find_unique)
qed

text \<open>
  C24. However policies are registered and activated, by versions without an \<open>@\<close>, at most one
  version of a policy is active, and it is the one \<open>getActive\<close> finds.
\<close>

theorem one_active_version:
  assumes "policy_reachable m"
  shows "length (filter (\<lambda>p. pol_id p = i \<and> pol_status p = POLICY_ACTIVE) (map_values m)) \<le> 1
    \<and> (\<forall>version p. policy_get m i version = Some p \<longrightarrow> CHR ''@'' \<notin> set version \<longrightarrow> pol_status p = POLICY_ACTIVE
         \<longrightarrow> policy_get_active m i = Some p)"
  using reachable_policies_ok [OF assms] active_count active_is_got by blast

theorem one_active_version_witness:
  "policy_get_active (snd (policy_activate ''IW:POLICY:p'' ''2'' (snd (policy_register (sample_policy\<lparr>pol_version := ''2'',
       pol_status := DRAFT\<rparr>) (snd (policy_register sample_policy [])))))) ''IW:POLICY:p''
     = Some (sample_policy\<lparr>pol_version := ''2''\<rparr>)"
proof -
  let ?m1 = "snd (policy_register sample_policy [])"
  let ?m2 = "snd (policy_register (sample_policy\<lparr>pol_version := ''2'', pol_status := DRAFT\<rparr>) ?m1)"
  let ?m3 = "snd (policy_activate ''IW:POLICY:p'' ''2'' ?m2)"
  have "policy_reachable ?m1" by (rule reach_register [OF reach_empty prod.collapse [symmetric]])
  then have "policy_reachable ?m2" by (rule reach_register [OF _ prod.collapse [symmetric]])
  then have "policy_reachable ?m3" by (rule reach_activate [OF _ _ prod.collapse [symmetric]]) simp
  moreover have get: "policy_get ?m3 ''IW:POLICY:p'' ''2'' = Some (sample_policy\<lparr>pol_version := ''2''\<rparr>)" by code_simp
  moreover have "CHR ''@'' \<notin> set ''2''" "pol_status (sample_policy\<lparr>pol_version := ''2''\<rparr>) = POLICY_ACTIVE" by code_simp+
  ultimately show ?thesis by (rule one_active_version [THEN conjunct2, rule_format])
qed

text \<open>A policy whose id ends like a version can be activated through another id, and then two versions are active.\<close>

definition confusing_policy :: policy_definition where
  "confusing_policy = sample_policy\<lparr>pol_id := ''IW:POLICY:p@1'', pol_version := ''2'', pol_status := DRAFT\<rparr>"

lemma two_active_versions:
  "length (filter (\<lambda>p. pol_id p = ''IW:POLICY:p@1'' \<and> pol_status p = POLICY_ACTIVE) (map_values
     (snd (policy_activate ''IW:POLICY:p'' ''1@2'' (snd (policy_register confusing_policy
       (snd (policy_register (confusing_policy\<lparr>pol_version := ''1'', pol_status := POLICY_ACTIVE\<rparr>) []))))))))  = 2"
  by code_simp

end
