(* ===== verification/Same_Settlement.thy ===== *)
theory Same_Settlement
  imports Idempotency Invariants
begin

text \<open>
  Asset-for-asset settlement on one network, packages/core/src/same-network-settlement.ts, on the
  table of packages/core/sql/008_same_network_settlements.sql. The native executor of a network is
  outside the program: an answer of it is a value, or \<open>None\<close> if it threw. The claim of a request, the
  call of the executor and the recording of its answer are three steps, so runs of the service may
  interleave between them.
\<close>

record same_leg =
  sl_id :: string
  sl_assetId :: interweave_id
  sl_sender :: interweave_id
  sl_receiver :: interweave_id
  sl_amount :: atomic_amount

record same_request =
  st_id :: interweave_id
  st_idempotencyKey :: string
  st_networkId :: interweave_id
  st_networkType :: string
  st_legs :: "same_leg list"
  st_expiresAt :: iso_timestamp
  st_createdAt :: iso_timestamp

record native_evidence =
  ne_externalTransactionId :: string
  ne_observedPosition :: string
  ne_evidence :: "string list"
  ne_finalizedAt :: iso_timestamp

datatype native_result =
    COMMITTED native_evidence
  | ALREADY_COMMITTED native_evidence
  | NATIVE_REJECTED string "string list"
  | NATIVE_UNCERTAIN string "string list"

datatype same_status = SAME_IN_PROGRESS | SAME_COMPLETED | SAME_FAILED | SAME_MANUAL_REVIEW

record same_record =
  sr_request :: same_request
  sr_requestHash :: string
  sr_status :: same_status
  sr_result :: "native_result option"
  sr_recordedAt :: iso_timestamp

section \<open>Checks\<close>

definition invalid_settlement :: "string \<Rightarrow> 'a result" where
  "invalid_settlement m = Inl (RegistryError INVALID_ARGUMENT m)"

definition assert_same_request :: "same_request \<Rightarrow> unit result" where
  "assert_same_request r =
     (if \<not> starts_with (st_id r) ''IW:SETTLEMENT:'' \<or> \<not> starts_with (st_networkId r) ''IW:NETWORK:'' \<or> blank (st_idempotencyKey r)
      then invalid_settlement ''settlement, network, and idempotency identifiers are required''
      else case (date_parse (st_createdAt r), date_parse (st_expiresAt r)) of
        (Some created, Some expires) \<Rightarrow>
          if expires \<le> created then invalid_settlement ''settlement validity interval is invalid''
          else (case st_legs r of
            delivery # payment # _ \<Rightarrow>
              if blank (sl_id delivery) \<or> blank (sl_id payment) \<or> sl_id delivery = sl_id payment
              then invalid_settlement ''exactly two unique settlement legs are required''
              else if sl_assetId delivery = sl_assetId payment
              then invalid_settlement ''same-network asset-for-asset settlement requires distinct assets''
              else if sl_sender delivery \<noteq> sl_receiver payment \<or> sl_receiver delivery \<noteq> sl_sender payment
                \<or> sl_sender delivery = sl_receiver delivery
              then invalid_settlement ''settlement legs must have reciprocal distinct counterparties''
              else for_each (\<lambda>leg. bind_result (parse_atomic_amount (sl_amount leg)) (\<lambda>n.
                if n \<le> 0 then invalid_settlement ''settlement leg amounts must be positive'' else Inr ())) (st_legs r)
          | _ \<Rightarrow> invalid_settlement ''exactly two unique settlement legs are required'')
      | _ \<Rightarrow> invalid_settlement ''settlement validity interval is invalid'')"

definition assert_committed :: "native_evidence \<Rightarrow> unit result" where
  "assert_committed e =
     (if blank (ne_externalTransactionId e) \<or> blank (ne_observedPosition e) \<or> ne_evidence e = []
        \<or> date_parse (ne_finalizedAt e) = None
      then invalid_settlement ''committed atomic settlement requires finality evidence'' else Inr ())"

fun assert_native_result :: "native_result \<Rightarrow> unit result" where
  "assert_native_result (COMMITTED e) = assert_committed e"
| "assert_native_result (ALREADY_COMMITTED e) = assert_committed e"
| "assert_native_result (NATIVE_REJECTED reason _) =
     (if blank reason then invalid_settlement ''non-committed atomic settlement requires a reason code'' else Inr ())"
| "assert_native_result (NATIVE_UNCERTAIN reason _) =
     (if blank reason then invalid_settlement ''non-committed atomic settlement requires a reason code'' else Inr ())"

fun same_status_of :: "native_result \<Rightarrow> same_status" where
  "same_status_of (COMMITTED _) = SAME_COMPLETED"
| "same_status_of (ALREADY_COMMITTED _) = SAME_COMPLETED"
| "same_status_of (NATIVE_REJECTED _ _) = SAME_FAILED"
| "same_status_of (NATIVE_UNCERTAIN _ _) = SAME_MANUAL_REVIEW"

section \<open>The store\<close>

type_synonym same_db = "same_record list"

definition same_find :: "interweave_id \<Rightarrow> same_db \<Rightarrow> same_record option" where
  "same_find i db = table_find (\<lambda>r. st_id (sr_request r)) i db"

datatype settlement_claim = SettlementClaimed same_record | SettlementReplay same_record | SettlementConflict same_record

definition same_claim :: "same_request \<Rightarrow> string \<Rightarrow> iso_timestamp \<Rightarrow> (same_db, settlement_claim) comp" where
  "same_claim request hash recordedAt = transaction (\<lambda>db.
     let r = \<lparr>sr_request = request, sr_requestHash = hash, sr_status = SAME_IN_PROGRESS, sr_result = None,
       sr_recordedAt = recordedAt\<rparr> in
     case same_find (st_id request) db of
       None \<Rightarrow> (Inr (SettlementClaimed r), db @ [r])
     | Some existing \<Rightarrow>
         (Inr (if sr_requestHash existing = hash then SettlementReplay existing else SettlementConflict existing), db))"

definition same_finish ::
  "interweave_id \<Rightarrow> string \<Rightarrow> same_status \<Rightarrow> native_result \<Rightarrow> iso_timestamp \<Rightarrow> (same_db, same_record) comp" where
  "same_finish i hash status r recordedAt = transaction (\<lambda>db.
     case same_find i db of
       None \<Rightarrow> (Inl (RegistryError CONFLICT (''settlement claim does not match: '' @ i)), db)
     | Some existing \<Rightarrow>
         if sr_requestHash existing \<noteq> hash
         then (Inl (RegistryError CONFLICT (''settlement claim does not match: '' @ i)), db)
         else if sr_status existing \<noteq> SAME_IN_PROGRESS then (Inr existing, db)
         else let new = existing\<lparr>sr_status := status, sr_result := Some r, sr_recordedAt := recordedAt\<rparr> in
           (Inr new, map (\<lambda>x. if st_id (sr_request x) = i then new else x) db))"

section \<open>The service\<close>

text \<open>The executors by network ID, each with the type of its network.\<close>

type_synonym executors = "(interweave_id, string) js_map"

fun configure_executors :: "executors \<Rightarrow> (interweave_id \<times> string) list \<Rightarrow> executors result" where
  "configure_executors m [] = Inr m"
| "configure_executors m ((network, type) # rest) =
     (if map_has m network then Inl (RegistryError CONFLICT (''duplicate settlement executor: '' @ network))
      else configure_executors (map_set network type m) rest)"

definition leg_json :: "same_leg \<Rightarrow> json" where
  "leg_json l = JsObject [(''id'', JsString (sl_id l)), (''assetId'', JsString (sl_assetId l)),
     (''sender'', JsString (sl_sender l)), (''receiver'', JsString (sl_receiver l)), (''amount'', JsString (sl_amount l))]"

definition same_request_json :: "same_request \<Rightarrow> json" where
  "same_request_json r = JsObject [(''id'', JsString (st_id r)), (''idempotencyKey'', JsString (st_idempotencyKey r)),
     (''networkId'', JsString (st_networkId r)), (''networkType'', JsString (st_networkType r)),
     (''legs'', JsArray (map leg_json (st_legs r))), (''expiresAt'', JsString (st_expiresAt r)),
     (''createdAt'', JsString (st_createdAt r))]"

text \<open>What is left to do after the claim: nothing, or the rest under the fingerprint.\<close>

datatype settlement_start = AlreadyDone same_record | Proceed string

definition settle_begin ::
  "sha256 \<Rightarrow> executors \<Rightarrow> js_date \<Rightarrow> same_request \<Rightarrow> (same_db, settlement_start) comp" where
  "settle_begin sha execs now request =
     and_then (lift_result (assert_same_request request)) (\<lambda>_.
     if map_get execs (st_networkId request) \<noteq> Some (st_networkType request)
     then throw (RegistryError NOT_FOUND (''native atomic settlement executor not configured: '' @ st_networkId request))
     else and_then (lift_result (request_fingerprint sha (same_request_json request))) (\<lambda>hash.
       and_then (iso_string now) (\<lambda>recordedAt.
       and_then (same_claim request hash recordedAt) (\<lambda>claim.
       case claim of
         SettlementConflict _ \<Rightarrow>
           throw (RegistryError CONFLICT (''settlement ID was reused with different content: '' @ st_id request))
       | SettlementClaimed r \<Rightarrow> ret (if sr_status r \<noteq> SAME_IN_PROGRESS then AlreadyDone r else Proceed hash)
       | SettlementReplay r \<Rightarrow> ret (if sr_status r \<noteq> SAME_IN_PROGRESS then AlreadyDone r else Proceed hash)))))"

definition settlement_expired :: native_result where
  "settlement_expired = NATIVE_REJECTED ''SETTLEMENT_EXPIRED'' []"

definition settle_expire :: "js_date \<Rightarrow> same_request \<Rightarrow> string \<Rightarrow> (same_db, same_record) comp" where
  "settle_expire now request hash =
     and_then (iso_string now) (\<lambda>t. same_finish (st_id request) hash SAME_FAILED settlement_expired t)"

definition executor_result :: "native_result option \<Rightarrow> native_result" where
  "executor_result answer = (case answer of Some r \<Rightarrow> r | None \<Rightarrow> NATIVE_UNCERTAIN ''EXECUTOR_ERROR'' [])"

definition settle_conclude :: "js_date \<Rightarrow> same_request \<Rightarrow> string \<Rightarrow> native_result \<Rightarrow> (same_db, same_record) comp" where
  "settle_conclude now request hash r =
     and_then (lift_result (assert_native_result r)) (\<lambda>_.
     and_then (iso_string now) (\<lambda>t. same_finish (st_id request) hash (same_status_of r) r t))"

text \<open>
  One run of \<open>execute\<close> without interference: the clock is read at the claim, at the expiry check and
  at the end, and the executor is called at most once.
\<close>

definition settle_execute ::
  "sha256 \<Rightarrow> executors \<Rightarrow> js_date \<Rightarrow> js_date \<Rightarrow> js_date \<Rightarrow> (same_request \<Rightarrow> native_result option)
     \<Rightarrow> same_request \<Rightarrow> (same_db, same_record) comp" where
  "settle_execute sha execs claimed checked finished executor request =
     and_then (settle_begin sha execs claimed request) (\<lambda>start.
       case start of
         AlreadyDone r \<Rightarrow> ret r
       | Proceed hash \<Rightarrow>
           if date_reached checked (st_expiresAt request) then settle_expire finished request hash
           else settle_conclude finished request hash (executor_result (executor request)))"

section \<open>Interleaved runs\<close>

datatype settle_phase = AwaitExecutor same_request string | AwaitFinish same_request string native_result

record settle_system =
  sy_rows :: same_db
  sy_answers :: "(same_request \<times> native_result option) list"
  sy_running :: "settle_phase list"

inductive settle_step :: "sha256 \<Rightarrow> executors \<Rightarrow> settle_system \<Rightarrow> settle_system \<Rightarrow> bool" for sha execs where
  step_begin: "settle_begin sha execs now request (sy_rows s) = (res, rows) \<Longrightarrow>
     settle_step sha execs s (s\<lparr>sy_rows := rows, sy_running := (case res of
       Inr (Proceed hash) \<Rightarrow> [AwaitExecutor request hash] | _ \<Rightarrow> []) @ sy_running s\<rparr>)"
| step_expire: "AwaitExecutor request hash \<in> set (sy_running s) \<Longrightarrow> date_reached checked (st_expiresAt request) \<Longrightarrow>
     settle_expire now request hash (sy_rows s) = (res, rows) \<Longrightarrow>
     settle_step sha execs s (s\<lparr>sy_rows := rows, sy_running := remove1 (AwaitExecutor request hash) (sy_running s)\<rparr>)"
| step_call: "AwaitExecutor request hash \<in> set (sy_running s) \<Longrightarrow> \<not> date_reached checked (st_expiresAt request) \<Longrightarrow>
     settle_step sha execs s (s\<lparr>sy_answers := sy_answers s @ [(request, answer)],
       sy_running := AwaitFinish request hash (executor_result answer) # remove1 (AwaitExecutor request hash) (sy_running s)\<rparr>)"
| step_finish: "AwaitFinish request hash r \<in> set (sy_running s) \<Longrightarrow>
     settle_conclude now request hash r (sy_rows s) = (res, rows) \<Longrightarrow>
     settle_step sha execs s (s\<lparr>sy_rows := rows, sy_running := remove1 (AwaitFinish request hash r) (sy_running s)\<rparr>)"
| step_crash: "settle_step sha execs s (s\<lparr>sy_running := remove1 p (sy_running s)\<rparr>)"

inductive settle_reachable :: "sha256 \<Rightarrow> executors \<Rightarrow> settle_system \<Rightarrow> bool" for sha execs where
  settle_init: "settle_reachable sha execs \<lparr>sy_rows = [], sy_answers = [], sy_running = []\<rparr>"
| settle_more: "settle_reachable sha execs s \<Longrightarrow> settle_step sha execs s s' \<Longrightarrow> settle_reachable sha execs s'"

text \<open>A claimed request, a justified answer, and a record that says what was answered.\<close>

definition bound_request :: "sha256 \<Rightarrow> executors \<Rightarrow> same_request \<Rightarrow> string \<Rightarrow> bool" where
  "bound_request sha execs q hash \<longleftrightarrow> assert_same_request q = Inr ()
     \<and> map_get execs (st_networkId q) = Some (st_networkType q)
     \<and> request_fingerprint sha (same_request_json q) = Inr hash"

definition answered :: "settle_system \<Rightarrow> same_request \<Rightarrow> native_result \<Rightarrow> bool" where
  "answered s q r \<longleftrightarrow> (\<exists>answer. (q, answer) \<in> set (sy_answers s) \<and> r = executor_result answer)"

definition record_sound :: "sha256 \<Rightarrow> executors \<Rightarrow> settle_system \<Rightarrow> same_record \<Rightarrow> bool" where
  "record_sound sha execs s x \<longleftrightarrow> bound_request sha execs (sr_request x) (sr_requestHash x)
     \<and> (case sr_result x of
          None \<Rightarrow> sr_status x = SAME_IN_PROGRESS
        | Some r \<Rightarrow> sr_status x = same_status_of r \<and> assert_native_result r = Inr ()
            \<and> (r = settlement_expired \<or> (\<exists>q. st_id q = st_id (sr_request x) \<and> bound_request sha execs q (sr_requestHash x) \<and> answered s q r)))"

definition phase_sound :: "sha256 \<Rightarrow> executors \<Rightarrow> settle_system \<Rightarrow> settle_phase \<Rightarrow> bool" where
  "phase_sound sha execs s p = (case p of
     AwaitExecutor q hash \<Rightarrow> bound_request sha execs q hash
   | AwaitFinish q hash r \<Rightarrow> bound_request sha execs q hash \<and> answered s q r)"

definition settle_inv :: "sha256 \<Rightarrow> executors \<Rightarrow> settle_system \<Rightarrow> bool" where
  "settle_inv sha execs s \<longleftrightarrow>
     (\<forall>i x. same_find i (sy_rows s) = Some x \<longrightarrow> record_sound sha execs s x)
     \<and> (\<forall>p \<in> set (sy_running s). phase_sound sha execs s p)
     \<and> (\<forall>(q, answer) \<in> set (sy_answers s). \<exists>hash. bound_request sha execs q hash)"

lemma same_find_id: "same_find i db = Some x \<Longrightarrow> st_id (sr_request x) = i"
  by (auto simp: same_find_def dest: table_find_key)

lemma same_find_update:
  assumes "same_find i db = Some x" "sr_request new = sr_request x"
  shows "same_find j (map (\<lambda>y. if st_id (sr_request y) = i then new else y) db) = (if j = i then Some new else same_find j db)"
proof -
  have i: "st_id (sr_request new) = i" using same_find_id [OF assms(1)] assms(2) by simp
  have other: "j \<noteq> i \<Longrightarrow> same_find j (map (\<lambda>y. if st_id (sr_request y) = i then new else y) db) = same_find j db" for db
    using i by (induction db) (auto simp: same_find_def table_find_def)
  have "same_find i (map (\<lambda>y. if st_id (sr_request y) = i then new else y) db) = Some new" if "same_find i db \<noteq> None" for db
    using i that by (induction db) (auto simp: same_find_def table_find_def)
  then show ?thesis using other assms(1) by auto
qed

text \<open>What one transaction can do to the rows.\<close>

lemma same_finish_rows:
  assumes "same_finish i hash status r t db = (res, db')"
  shows "db' = db \<or> (\<exists>x. same_find i db = Some x \<and> sr_requestHash x = hash \<and> sr_status x = SAME_IN_PROGRESS
    \<and> (\<forall>j. same_find j db' = (if j = i then Some (x\<lparr>sr_status := status, sr_result := Some r, sr_recordedAt := t\<rparr>) else same_find j db)))"
proof (cases "same_find i db")
  case None
  then show ?thesis using assms by (auto simp: same_finish_def transaction_def)
next
  case (Some x)
  show ?thesis
  proof (cases "sr_requestHash x = hash \<and> sr_status x = SAME_IN_PROGRESS")
    case True
    then show ?thesis using assms Some same_find_update [OF Some, of "x\<lparr>sr_status := status, sr_result := Some r, sr_recordedAt := t\<rparr>"]
      by (auto simp: same_finish_def transaction_def Let_def)
  next
    case False
    then show ?thesis using assms Some by (auto simp: same_finish_def transaction_def Let_def split: if_splits)
  qed
qed

lemma settle_begin_rows:
  assumes "settle_begin sha execs now q db = (res, db')"
  shows "(db' = db \<or> (\<exists>hash t. bound_request sha execs q hash \<and> same_find (st_id q) db = None
      \<and> (\<forall>j. same_find j db' = (if j = st_id q then Some \<lparr>sr_request = q, sr_requestHash = hash,
          sr_status = SAME_IN_PROGRESS, sr_result = None, sr_recordedAt = t\<rparr> else same_find j db))))
    \<and> (\<forall>hash. res = Inr (Proceed hash) \<longrightarrow> bound_request sha execs q hash)"
proof (cases "assert_same_request q = Inr () \<and> map_get execs (st_networkId q) = Some (st_networkType q)")
  case False
  then show ?thesis using assms by (cases "assert_same_request q") (auto simp: settle_begin_def and_then_def)
next
  case True
  show ?thesis
  proof (cases "request_fingerprint sha (same_request_json q)")
    case (Inl e)
    then show ?thesis using assms True by (auto simp: settle_begin_def and_then_def)
  next
    case (Inr hash)
    have bound: "bound_request sha execs q hash" using True Inr by (simp add: bound_request_def)
    show ?thesis
    proof (cases now)
      case None
      then show ?thesis using assms True Inr by (auto simp: settle_begin_def and_then_def iso_string_def)
    next
      case (Some t)
      show ?thesis
      proof (cases "same_find (st_id q) db")
        case None
        then show ?thesis using assms True Inr Some bound
          by (intro conjI disjI2 exI [of _ hash] exI [of _ "to_iso_string t"])
            (auto simp: settle_begin_def and_then_def iso_string_def same_claim_def transaction_def Let_def
              same_find_def table_find_snoc split: option.split)
      next
        case (Some x)
        then show ?thesis using assms True Inr \<open>now = Some t\<close> bound
          by (auto simp: settle_begin_def and_then_def iso_string_def same_claim_def transaction_def Let_def split: if_splits)
      qed
    qed
  qed
qed

lemma settle_invD:
  assumes "settle_inv sha execs s"
  shows "same_find i (sy_rows s) = Some x \<Longrightarrow> record_sound sha execs s x"
    and "p \<in> set (sy_running s) \<Longrightarrow> phase_sound sha execs s p"
    and "(q, answer) \<in> set (sy_answers s) \<Longrightarrow> \<exists>hash. bound_request sha execs q hash"
  using assms unfolding settle_inv_def by auto

lemma sound_mono:
  assumes "set (sy_answers s) \<subseteq> set (sy_answers s')"
  shows "record_sound sha execs s x \<Longrightarrow> record_sound sha execs s' x"
    and "phase_sound sha execs s p \<Longrightarrow> phase_sound sha execs s' p"
proof -
  have more: "answered s q r \<Longrightarrow> answered s' q r" for q r using assms by (auto simp: answered_def)
  show "record_sound sha execs s x \<Longrightarrow> record_sound sha execs s' x"
    unfolding record_sound_def by (cases "sr_result x") (auto intro: more)
  show "phase_sound sha execs s p \<Longrightarrow> phase_sound sha execs s' p"
    unfolding phase_sound_def by (cases p) (auto intro: more)
qed

lemma settle_inv_next:
  assumes "settle_inv sha execs s" "\<And>i x. same_find i (sy_rows s') = Some x \<Longrightarrow> record_sound sha execs s x"
    and "sy_answers s' = sy_answers s" "set (sy_running s') \<subseteq> set (sy_running s)"
  shows "settle_inv sha execs s'"
proof -
  have sub: "set (sy_answers s) \<subseteq> set (sy_answers s')" using assms(3) by simp
  show ?thesis unfolding settle_inv_def
    using assms settle_invD [OF assms(1)] sound_mono [OF sub] by (auto dest: subsetD)
qed

lemma finish_sound:
  assumes inv: "settle_inv sha execs s" and run: "same_finish (st_id q) hash (same_status_of r) r t (sy_rows s) = (res, rows)"
    and ok: "assert_native_result r = Inr ()" and bound: "bound_request sha execs q hash"
    and r: "r = settlement_expired \<or> answered s q r" and find: "same_find i rows = Some x"
  shows "record_sound sha execs s x"
proof -
  consider "rows = sy_rows s" | y where "same_find (st_id q) (sy_rows s) = Some y" "sr_requestHash y = hash"
    "\<forall>j. same_find j rows = (if j = st_id q then Some (y\<lparr>sr_status := same_status_of r, sr_result := Some r, sr_recordedAt := t\<rparr>)
      else same_find j (sy_rows s))"
    using same_finish_rows [OF run] by blast
  then show ?thesis
  proof cases
    case 2
    show ?thesis
    proof (cases "i = st_id q")
      case True
      then have x: "x = y\<lparr>sr_status := same_status_of r, sr_result := Some r, sr_recordedAt := t\<rparr>" using find 2(3) by simp
      moreover have "record_sound sha execs s y" by (rule settle_invD(1) [OF inv 2(1)])
      moreover have "st_id (sr_request y) = st_id q" by (rule same_find_id [OF 2(1)])
      ultimately show ?thesis using ok bound r 2(2) by (auto simp: record_sound_def)
    next
      case False
      then show ?thesis using find 2(3) settle_invD(1) [OF inv] by simp
    qed
  qed (use find settle_invD(1) [OF inv] in simp)
qed

lemma settle_step_inv:
  assumes "settle_step sha execs s s'" "settle_inv sha execs s"
  shows "settle_inv sha execs s'"
  using assms
proof (induction rule: settle_step.induct)
  case (step_begin now q s res rows)
  note start = settle_begin_rows [OF step_begin.hyps]
  have "record_sound sha execs s x" if "same_find i rows = Some x" for i x
  proof -
    consider "rows = sy_rows s" | hash t where "bound_request sha execs q hash"
      "\<forall>j. same_find j rows = (if j = st_id q then Some \<lparr>sr_request = q, sr_requestHash = hash,
          sr_status = SAME_IN_PROGRESS, sr_result = None, sr_recordedAt = t\<rparr> else same_find j (sy_rows s))"
      using start by blast
    then show ?thesis
    proof cases
      case 2
      show ?thesis
      proof (cases "i = st_id q")
        case True
        then show ?thesis using 2 that by (auto simp: record_sound_def)
      next
        case False
        then show ?thesis using 2(2) that settle_invD(1) [OF step_begin.prems] by simp
      qed
    qed (use that settle_invD(1) [OF step_begin.prems] in simp)
  qed
  moreover have "phase_sound sha execs s (AwaitExecutor q hash)" if "res = Inr (Proceed hash)" for hash
    using start that by (simp add: phase_sound_def)
  ultimately show ?case using step_begin.prems
    by (auto simp: settle_inv_def intro: sound_mono [where s = s] split: sum.splits settlement_start.splits)
next
  case (step_expire q hash s checked now res rows)
  have bound: "bound_request sha execs q hash"
    using settle_invD(2) [OF step_expire.prems step_expire.hyps(1)] by (simp add: phase_sound_def)
  have "record_sound sha execs s x" if x: "same_find i rows = Some x" for i x
  proof (cases now)
    case None
    then show ?thesis using step_expire.hyps(3) x settle_invD(1) [OF step_expire.prems]
      by (auto simp: settle_expire_def and_then_def iso_string_def)
  next
    case (Some t)
    have run: "same_finish (st_id q) hash (same_status_of settlement_expired) settlement_expired (to_iso_string t) (sy_rows s) = (res, rows)"
      using step_expire.hyps(3) Some by (simp add: settle_expire_def and_then_def iso_string_def settlement_expired_def)
    show ?thesis by (rule finish_sound [OF step_expire.prems run _ bound _ x]) (simp_all add: settlement_expired_def)
  qed
  then show ?case by (intro settle_inv_next [OF step_expire.prems]) (simp_all add: set_remove1_subset)
next
  case (step_call q hash s checked answer)
  have bound: "bound_request sha execs q hash"
    using settle_invD(2) [OF step_call.prems step_call.hyps(1)] by (simp add: phase_sound_def)
  let ?s' = "s\<lparr>sy_answers := sy_answers s @ [(q, answer)],
    sy_running := AwaitFinish q hash (executor_result answer) # remove1 (AwaitExecutor q hash) (sy_running s)\<rparr>"
  have "set (sy_answers s) \<subseteq> set (sy_answers ?s')" by auto
  note mono = sound_mono [OF this]
  have "phase_sound sha execs ?s' (AwaitFinish q hash (executor_result answer))"
    using bound by (auto simp: phase_sound_def answered_def)
  moreover have "phase_sound sha execs ?s' p" if "p \<in> set (remove1 (AwaitExecutor q hash) (sy_running s))" for p
    by (rule mono(2) [OF settle_invD(2) [OF step_call.prems subsetD [OF set_remove1_subset that]]])
  moreover have "record_sound sha execs ?s' x" if "same_find i (sy_rows s) = Some x" for i x
    using settle_invD(1) [OF step_call.prems that] by (rule mono(1))
  ultimately have "\<forall>i x. same_find i (sy_rows ?s') = Some x \<longrightarrow> record_sound sha execs ?s' x"
    "\<forall>p \<in> set (sy_running ?s'). phase_sound sha execs ?s' p"
    by simp_all
  moreover have "\<forall>(q', a) \<in> set (sy_answers ?s'). \<exists>hash. bound_request sha execs q' hash"
    using bound settle_invD(3) [OF step_call.prems] by auto
  ultimately show ?case unfolding settle_inv_def by (intro conjI)
next
  case (step_finish q hash r s now res rows)
  have phase: "bound_request sha execs q hash" "answered s q r"
    using settle_invD(2) [OF step_finish.prems step_finish.hyps(1)] by (simp_all add: phase_sound_def)
  have "record_sound sha execs s x" if x: "same_find i rows = Some x" for i x
  proof (cases "assert_native_result r = Inr () \<and> now \<noteq> None")
    case False
    then have "rows = sy_rows s" using step_finish.hyps(2)
      by (cases "assert_native_result r") (auto simp: settle_conclude_def and_then_def iso_string_def)
    then show ?thesis using x settle_invD(1) [OF step_finish.prems] by simp
  next
    case True
    then obtain t where "now = Some t" by auto
    then have run: "same_finish (st_id q) hash (same_status_of r) r (to_iso_string t) (sy_rows s) = (res, rows)"
      using step_finish.hyps(2) True by (simp add: settle_conclude_def and_then_def iso_string_def)
    show ?thesis using True phase by (intro finish_sound [OF step_finish.prems run _ phase(1) _ x]) simp_all
  qed
  then show ?case by (intro settle_inv_next [OF step_finish.prems]) (simp_all add: set_remove1_subset)
next
  case (step_crash s p)
  then show ?case using settle_invD(1) by (intro settle_inv_next [OF step_crash]) (simp_all add: set_remove1_subset)
qed

lemma settle_reachable_inv: "settle_reachable sha execs s \<Longrightarrow> settle_inv sha execs s"
proof (induction rule: settle_reachable.induct)
  case settle_init
  then show ?case by (simp add: settle_inv_def same_find_def table_find_def)
qed (rule settle_step_inv)

text \<open>A record that is not in progress never changes again.\<close>

lemma settle_step_keeps:
  assumes "settle_step sha execs s s'" "same_find i (sy_rows s) = Some x" "sr_status x \<noteq> SAME_IN_PROGRESS"
  shows "same_find i (sy_rows s') = Some x"
  using assms
proof (induction rule: settle_step.induct)
  case (step_begin now q s res rows)
  then show ?case using settle_begin_rows [OF step_begin.hyps] by auto
next
  case (step_expire q hash s checked now res rows)
  then show ?case
    by (cases now) (auto simp: settle_expire_def and_then_def iso_string_def dest!: same_finish_rows)
next
  case (step_finish q hash r s now res rows)
  then show ?case
    by (cases now; cases "assert_native_result r") (auto simp: settle_conclude_def and_then_def iso_string_def dest!: same_finish_rows)
qed simp_all

lemma settle_steps_keep:
  assumes "(settle_step sha execs)\<^sup>*\<^sup>* s s'" "same_find i (sy_rows s) = Some x" "sr_status x \<noteq> SAME_IN_PROGRESS"
  shows "same_find i (sy_rows s') = Some x"
  using assms by (induction rule: rtranclp_induct) (auto intro: settle_step_keeps)

lemma settle_execute_steps:
  assumes "settle_execute sha execs claimed checked finished executor q (sy_rows s) = (res, rows)"
  shows "\<exists>s'. (settle_step sha execs)\<^sup>*\<^sup>* s s' \<and> sy_rows s' = rows"
proof -
  obtain res1 rows1 where start: "settle_begin sha execs claimed q (sy_rows s) = (res1, rows1)" by fastforce
  show ?thesis
  proof (cases "\<exists>hash. res1 = Inr (Proceed hash)")
    case False
    then have rows: "rows = rows1"
      using assms start by (auto simp: settle_execute_def and_then_def split: sum.splits settlement_start.splits)
    show ?thesis
    proof (intro exI conjI)
      show "(settle_step sha execs)\<^sup>*\<^sup>* s (s\<lparr>sy_rows := rows1, sy_running := (case res1 of
          Inr (Proceed hash) \<Rightarrow> [AwaitExecutor q hash] | _ \<Rightarrow> []) @ sy_running s\<rparr>)"
        by (rule r_into_rtranclp) (rule step_begin [OF start])
    qed (simp add: rows)
  next
    case True
    then obtain hash where hash: "res1 = Inr (Proceed hash)" by blast
    let ?s1 = "s\<lparr>sy_rows := rows1, sy_running := AwaitExecutor q hash # sy_running s\<rparr>"
    have one: "settle_step sha execs s ?s1" using step_begin [OF start] hash by simp
    show ?thesis
    proof (cases "date_reached checked (st_expiresAt q)")
      case True
      then have run: "settle_expire finished q hash (sy_rows ?s1) = (res, rows)"
        using assms start hash by (simp add: settle_execute_def and_then_def)
      have "\<exists>s3. settle_step sha execs ?s1 s3 \<and> sy_rows s3 = rows"
        by (intro exI conjI, rule step_expire [OF _ True run]) simp_all
      then show ?thesis using one by (blast intro: rtranclp.rtrancl_into_rtrancl rtranclp.rtrancl_refl)
    next
      case False
      let ?r = "executor_result (executor q)"
      let ?s2 = "?s1\<lparr>sy_answers := sy_answers ?s1 @ [(q, executor q)],
        sy_running := AwaitFinish q hash ?r # remove1 (AwaitExecutor q hash) (sy_running ?s1)\<rparr>"
      have two: "settle_step sha execs ?s1 ?s2" by (rule step_call [OF _ False]) simp
      have run: "settle_conclude finished q hash ?r (sy_rows ?s2) = (res, rows)"
        using assms start hash False by (simp add: settle_execute_def and_then_def)
      have "\<exists>s3. settle_step sha execs ?s2 s3 \<and> sy_rows s3 = rows"
        by (intro exI conjI, rule step_finish [OF _ run]) simp_all
      then show ?thesis using one two by (blast intro: rtranclp.rtrancl_into_rtrancl rtranclp.rtrancl_refl)
    qed
  qed
qed

text \<open>
  C25. However runs interleave and crash, a settlement that is no longer in progress says what the
  executor answered to a valid request with its ID and fingerprint, or that it expired, a completed one
  carries finality evidence, and nothing changes it afterwards.
\<close>

theorem settlement_outcome_sound:
  assumes "settle_reachable sha execs s" "same_find i (sy_rows s) = Some x" "sr_status x \<noteq> SAME_IN_PROGRESS"
  shows "(\<exists>r. sr_result x = Some r \<and> sr_status x = same_status_of r \<and> assert_native_result r = Inr ()
      \<and> (r = settlement_expired
         \<or> (\<exists>q answer. (q, answer) \<in> set (sy_answers s) \<and> r = executor_result answer \<and> st_id q = i
              \<and> assert_same_request q = Inr () \<and> map_get execs (st_networkId q) = Some (st_networkType q)
              \<and> request_fingerprint sha (same_request_json q) = Inr (sr_requestHash x))))
    \<and> (\<forall>s'. (settle_step sha execs)\<^sup>*\<^sup>* s s' \<longrightarrow> same_find i (sy_rows s') = Some x)"
proof
  have "record_sound sha execs s x" using settle_invD(1) [OF settle_reachable_inv [OF assms(1)] assms(2)] .
  moreover have "st_id (sr_request x) = i" by (rule same_find_id [OF assms(2)])
  moreover obtain r where "sr_result x = Some r" using calculation(1) assms(3) by (auto simp: record_sound_def split: option.splits)
  ultimately show "\<exists>r. sr_result x = Some r \<and> sr_status x = same_status_of r \<and> assert_native_result r = Inr ()
      \<and> (r = settlement_expired
         \<or> (\<exists>q answer. (q, answer) \<in> set (sy_answers s) \<and> r = executor_result answer \<and> st_id q = i
              \<and> assert_same_request q = Inr () \<and> map_get execs (st_networkId q) = Some (st_networkType q)
              \<and> request_fingerprint sha (same_request_json q) = Inr (sr_requestHash x)))"
    unfolding record_sound_def bound_request_def answered_def by auto
qed (use settle_steps_keep [OF _ assms(2,3)] in blast)

definition sample_trade :: same_request where
  "sample_trade = \<lparr>st_id = ''IW:SETTLEMENT:t'', st_idempotencyKey = ''t'', st_networkId = ''IW:NETWORK:c'', st_networkType = ''CANTON'',
     st_legs = [\<lparr>sl_id = ''d'', sl_assetId = ''IW:ASSET:bond'', sl_sender = ''IW:IDENTITY:a'', sl_receiver = ''IW:IDENTITY:b'', sl_amount = ''1''\<rparr>,
       \<lparr>sl_id = ''p'', sl_assetId = ''IW:ASSET:cash'', sl_sender = ''IW:IDENTITY:b'', sl_receiver = ''IW:IDENTITY:a'', sl_amount = ''9''\<rparr>],
     st_expiresAt = ''2025-01-02'', st_createdAt = ''2025-01-01''\<rparr>"

definition sample_executors :: executors where
  "sample_executors = [(''IW:NETWORK:c'', ''CANTON'')]"

definition sample_commit :: native_result where
  "sample_commit = COMMITTED \<lparr>ne_externalTransactionId = ''x'', ne_observedPosition = ''1'', ne_evidence = [''e''],
     ne_finalizedAt = ''2025-01-01''\<rparr>"

abbreviation trade_hash :: string where
  "trade_hash \<equiv> ''sha256:'' @ ''h''"

definition claimed_trade :: same_record where
  "claimed_trade = \<lparr>sr_request = sample_trade, sr_requestHash = trade_hash, sr_status = SAME_IN_PROGRESS, sr_result = None,
     sr_recordedAt = to_iso_string 0\<rparr>"

lemma sample_trade_ok:
  "assert_same_request sample_trade = Inr ()" "map_get sample_executors (st_networkId sample_trade) = Some (st_networkType sample_trade)"
  "assert_native_result sample_commit = Inr ()" "date_reached (Some 1735862400000) (st_expiresAt sample_trade)"
  "\<not> date_reached (Some 0) (st_expiresAt sample_trade)"
  by code_simp+

lemma sample_trade_hash: "request_fingerprint (\<lambda>_. ''h'') (same_request_json sample_trade) = Inr trade_hash"
proof -
  have "proper_json (same_request_json sample_trade)"
    by (simp add: same_request_json_def leg_json_def sample_trade_def)
  then show ?thesis by (simp add: request_fingerprint_def canonical_proper)
qed

lemma sample_trade_begin:
  "settle_begin (\<lambda>_. ''h'') sample_executors (Some 0) sample_trade [] = (Inr (Proceed trade_hash), [claimed_trade])"
  "settle_begin (\<lambda>_. ''h'') sample_executors (Some 0) sample_trade [claimed_trade] = (Inr (Proceed trade_hash), [claimed_trade])"
  by (simp_all add: settle_begin_def sample_trade_ok sample_trade_hash and_then_def iso_string_def same_claim_def
      transaction_def Let_def same_find_def table_find_def claimed_trade_def)

definition trade_called :: "settle_phase list \<Rightarrow> settle_system" where
  "trade_called running = \<lparr>sy_rows = [claimed_trade], sy_answers = [(sample_trade, Some sample_commit)], sy_running = running\<rparr>"

lemma trade_called_reachable:
  "settle_reachable (\<lambda>_. ''h'') sample_executors (trade_called [AwaitFinish sample_trade trade_hash sample_commit])"
proof -
  let ?s0 = "\<lparr>sy_rows = [], sy_answers = [], sy_running = []\<rparr> :: settle_system"
  let ?s1 = "\<lparr>sy_rows = [claimed_trade], sy_answers = [], sy_running = [AwaitExecutor sample_trade trade_hash]\<rparr> :: settle_system"
  have "settle_step (\<lambda>_. ''h'') sample_executors ?s0 ?s1"
    using step_begin [of "\<lambda>_. ''h''" sample_executors "Some 0" sample_trade ?s0] sample_trade_begin by simp
  moreover have "settle_step (\<lambda>_. ''h'') sample_executors ?s1 (trade_called [AwaitFinish sample_trade trade_hash sample_commit])"
    using step_call [of sample_trade trade_hash ?s1 "Some 0" "\<lambda>_. ''h''" sample_executors "Some sample_commit"] sample_trade_ok
    by (simp add: trade_called_def executor_result_def)
  ultimately show ?thesis by (blast intro: settle_reachable.intros)
qed

definition finished_trade :: "same_status \<Rightarrow> native_result \<Rightarrow> same_record" where
  "finished_trade status r = claimed_trade\<lparr>sr_status := status, sr_result := Some r, sr_recordedAt := to_iso_string 0\<rparr>"

theorem settlement_outcome_sound_witness:
  "\<exists>s. settle_reachable (\<lambda>_. ''h'') sample_executors s \<and> (\<forall>s'. (settle_step (\<lambda>_. ''h'') sample_executors)\<^sup>*\<^sup>* s s' \<longrightarrow>
     same_find ''IW:SETTLEMENT:t'' (sy_rows s') = Some (finished_trade SAME_COMPLETED sample_commit))"
proof -
  let ?s = "trade_called [AwaitFinish sample_trade trade_hash sample_commit]"
  let ?t = "\<lparr>sy_rows = [finished_trade SAME_COMPLETED sample_commit], sy_answers = [(sample_trade, Some sample_commit)],
    sy_running = []\<rparr> :: settle_system"
  have "settle_conclude (Some 0) sample_trade trade_hash sample_commit [claimed_trade] =
      (Inr (finished_trade SAME_COMPLETED sample_commit), [finished_trade SAME_COMPLETED sample_commit])"
    by (simp add: settle_conclude_def sample_trade_ok and_then_def iso_string_def same_finish_def transaction_def Let_def
        same_find_def table_find_def finished_trade_def claimed_trade_def) (simp add: sample_commit_def)
  then have "settle_step (\<lambda>_. ''h'') sample_executors ?s ?t"
    using step_finish [of sample_trade trade_hash sample_commit ?s "Some 0" _ _ "\<lambda>_. ''h''" sample_executors]
    by (simp add: trade_called_def)
  then have reach: "settle_reachable (\<lambda>_. ''h'') sample_executors ?t"
    using trade_called_reachable by (blast intro: settle_more)
  moreover have "same_find ''IW:SETTLEMENT:t'' (sy_rows ?t) = Some (finished_trade SAME_COMPLETED sample_commit)"
    by (simp add: same_find_def table_find_def finished_trade_def claimed_trade_def sample_trade_def)
  ultimately show ?thesis
    using settlement_outcome_sound [OF reach, of "''IW:SETTLEMENT:t''" "finished_trade SAME_COMPLETED sample_commit"]
    by (intro exI [of _ ?t]) (simp add: finished_trade_def)
qed

text \<open>
  The expiry check of a retry does not ask the executor: a settlement whose legs were committed, but
  whose first run was lost before it recorded that, ends as failed.
\<close>

lemma expired_after_commit:
  "\<exists>s. settle_reachable (\<lambda>_. ''h'') sample_executors s \<and> (sample_trade, Some sample_commit) \<in> set (sy_answers s)
     \<and> same_find (st_id sample_trade) (sy_rows s) = Some (finished_trade SAME_FAILED settlement_expired)"
proof -
  let ?s = "trade_called [AwaitFinish sample_trade trade_hash sample_commit]" and ?p = "AwaitExecutor sample_trade trade_hash"
  let ?t = "\<lparr>sy_rows = [finished_trade SAME_FAILED settlement_expired], sy_answers = [(sample_trade, Some sample_commit)],
    sy_running = []\<rparr> :: settle_system"
  have "settle_step (\<lambda>_. ''h'') sample_executors ?s (trade_called [])"
    using step_crash [of "\<lambda>_. ''h''" sample_executors ?s "AwaitFinish sample_trade trade_hash sample_commit"] by (simp add: trade_called_def)
  moreover have "settle_step (\<lambda>_. ''h'') sample_executors (trade_called []) (trade_called [?p])"
    using step_begin [of "\<lambda>_. ''h''" sample_executors "Some 0" sample_trade "trade_called []"] sample_trade_begin
    by (simp add: trade_called_def)
  moreover have "settle_expire (Some 0) sample_trade trade_hash [claimed_trade] =
      (Inr (finished_trade SAME_FAILED settlement_expired), [finished_trade SAME_FAILED settlement_expired])"
    by (simp add: settle_expire_def and_then_def iso_string_def same_finish_def transaction_def Let_def
        same_find_def table_find_def finished_trade_def claimed_trade_def)
  then have "settle_step (\<lambda>_. ''h'') sample_executors (trade_called [?p]) ?t"
    using step_expire [of sample_trade trade_hash "trade_called [?p]" "Some 1735862400000" "Some 0" _ _ "\<lambda>_. ''h''" sample_executors]
      sample_trade_ok by (simp add: trade_called_def)
  ultimately have "settle_reachable (\<lambda>_. ''h'') sample_executors ?t"
    using trade_called_reachable by (blast intro: settle_more)
  then show ?thesis
    by (intro exI [of _ ?t]) (simp add: same_find_def table_find_def finished_trade_def claimed_trade_def)
qed

end
