(* ===== verification/Cross_Settlement.thy ===== *)
theory Cross_Settlement
  imports Idempotency Invariants
begin

text \<open>
  The saga of packages/core/src/cross-network-settlement.ts: delivery on one network against payment on
  another. A run of the service is a machine that stops wherever the code awaits the store, the policy or
  an action, so any number of runs can interleave there; \<open>saga_execute\<close> is one run on its own. The
  policy, the actions and the clock are outside the program: each step of a run is given what they answer.
\<close>

section \<open>Data\<close>

datatype saga_state =
    X_CREATED | X_POLICY_CHECKED | X_DELIVERY_RESERVED | X_DELIVERY_RESERVATION_VERIFIED | X_PAYMENT_SUBMITTED
  | X_PAYMENT_FINALIZED | X_PAYMENT_ATTESTED | X_DELIVERY_RELEASED | X_DELIVERY_FINALIZED | X_RECONCILED
  | X_COMPLETED | X_COMPENSATED | X_FAILED | X_EXPIRED | X_MANUAL_REVIEW

fun saga_text :: "saga_state \<Rightarrow> string" where
  "saga_text X_CREATED = ''CREATED''"
| "saga_text X_POLICY_CHECKED = ''POLICY_CHECKED''"
| "saga_text X_DELIVERY_RESERVED = ''DELIVERY_RESERVED''"
| "saga_text X_DELIVERY_RESERVATION_VERIFIED = ''DELIVERY_RESERVATION_VERIFIED''"
| "saga_text X_PAYMENT_SUBMITTED = ''PAYMENT_SUBMITTED''"
| "saga_text X_PAYMENT_FINALIZED = ''PAYMENT_FINALIZED''"
| "saga_text X_PAYMENT_ATTESTED = ''PAYMENT_ATTESTED''"
| "saga_text X_DELIVERY_RELEASED = ''DELIVERY_RELEASED''"
| "saga_text X_DELIVERY_FINALIZED = ''DELIVERY_FINALIZED''"
| "saga_text X_RECONCILED = ''RECONCILED''"
| "saga_text X_COMPLETED = ''COMPLETED''"
| "saga_text X_COMPENSATED = ''COMPENSATED''"
| "saga_text X_FAILED = ''FAILED''"
| "saga_text X_EXPIRED = ''EXPIRED''"
| "saga_text X_MANUAL_REVIEW = ''MANUAL_REVIEW''"

record cross_leg =
  cl_assetId :: interweave_id
  cl_networkId :: interweave_id
  cl_sender :: interweave_id
  cl_receiver :: interweave_id
  cl_amount :: atomic_amount

record cross_request =
  cq_id :: interweave_id
  cq_idempotencyKey :: string
  cq_delivery :: cross_leg
  cq_payment :: cross_leg
  cq_policyVersion :: string
  cq_createdAt :: iso_timestamp
  cq_expiresAt :: iso_timestamp

record step_evidence =
  sv_transactionId :: string
  sv_position :: string
  sv_evidence :: "string list"
  sv_observedAt :: iso_timestamp

record cross_transition =
  ct_sequence :: int
  ct_state :: saga_state
  ct_occurredAt :: iso_timestamp
  ct_evidence :: "string list"
  ct_reason :: string

text \<open>The fields \<open>guarantee\<close> and \<open>compensation\<close> of a record are constants.\<close>

record cross_record =
  cr_request :: cross_request
  cr_requestHash :: string
  cr_state :: saga_state
  cr_version :: int
  cr_transitions :: "cross_transition list"

definition saga_terminal :: "saga_state \<Rightarrow> bool" where
  "saga_terminal s \<longleftrightarrow> s \<in> {X_COMPLETED, X_COMPENSATED, X_FAILED, X_EXPIRED, X_MANUAL_REVIEW}"

definition before_payment_finality :: "saga_state \<Rightarrow> bool" where
  "before_payment_finality s \<longleftrightarrow>
     s \<in> {X_CREATED, X_POLICY_CHECKED, X_DELIVERY_RESERVED, X_DELIVERY_RESERVATION_VERIFIED, X_PAYMENT_SUBMITTED}"

definition validate_cross :: "cross_request \<Rightarrow> unit result" where
  "validate_cross q =
     (if \<not> starts_with (cq_id q) ''IW:SETTLEMENT:'' \<or> blank (cq_idempotencyKey q) \<or> blank (cq_policyVersion q)
      then Inl (RegistryError INVALID_ARGUMENT ''settlement ID, idempotency key, and policy version are required'')
      else if cl_networkId (cq_delivery q) = cl_networkId (cq_payment q)
      then Inl (RegistryError INVALID_ARGUMENT ''cross-network settlement requires different networks'')
      else if cl_sender (cq_delivery q) \<noteq> cl_receiver (cq_payment q) \<or> cl_receiver (cq_delivery q) \<noteq> cl_sender (cq_payment q)
        \<or> cl_sender (cq_delivery q) = cl_receiver (cq_delivery q)
      then Inl (RegistryError INVALID_ARGUMENT ''settlement legs must have reciprocal distinct counterparties'')
      else bind_result (parse_atomic_amount (cl_amount (cq_delivery q))) (\<lambda>d.
        let positive = Inl (RegistryError INVALID_ARGUMENT ''settlement amounts must be positive'') in
        if d \<le> 0 then positive
        else bind_result (parse_atomic_amount (cl_amount (cq_payment q))) (\<lambda>p.
          if p \<le> 0 then positive
          else case date_parse (cq_createdAt q) of
              None \<Rightarrow> Inl (RegistryError INVALID_ARGUMENT ''settlement validity interval is invalid'')
            | Some created \<Rightarrow>
                if reached created (cq_expiresAt q)
                then Inl (RegistryError INVALID_ARGUMENT ''settlement validity interval is invalid'') else Inr ())))"

definition validate_evidence :: "step_evidence \<Rightarrow> unit result" where
  "validate_evidence v =
     (if blank (sv_transactionId v) \<or> blank (sv_position v) \<or> sv_evidence v = [] \<or> date_parse (sv_observedAt v) = None
      then Inl (RegistryError INVALID_ARGUMENT ''saga step requires verifiable evidence'') else Inr ())"

definition cross_leg_json :: "cross_leg \<Rightarrow> json" where
  "cross_leg_json l = JsObject [(''assetId'', JsString (cl_assetId l)), (''networkId'', JsString (cl_networkId l)),
     (''sender'', JsString (cl_sender l)), (''receiver'', JsString (cl_receiver l)), (''amount'', JsString (cl_amount l))]"

definition cross_request_json :: "cross_request \<Rightarrow> json" where
  "cross_request_json q = JsObject [(''id'', JsString (cq_id q)), (''idempotencyKey'', JsString (cq_idempotencyKey q)),
     (''delivery'', cross_leg_json (cq_delivery q)), (''payment'', cross_leg_json (cq_payment q)),
     (''policyVersion'', JsString (cq_policyVersion q)), (''createdAt'', JsString (cq_createdAt q)),
     (''expiresAt'', JsString (cq_expiresAt q))]"

section \<open>The stores\<close>

record 's saga_store =
  ss_create :: "cross_request \<Rightarrow> string \<Rightarrow> cross_transition \<Rightarrow> ('s, cross_record) comp"
  ss_get :: "interweave_id \<Rightarrow> 's \<Rightarrow> cross_record option"
  ss_transition :: "interweave_id \<Rightarrow> int \<Rightarrow> cross_transition \<Rightarrow> ('s, cross_record) comp"

definition new_cross_record :: "cross_request \<Rightarrow> string \<Rightarrow> cross_transition \<Rightarrow> cross_record" where
  "new_cross_record q hash t =
     \<lparr>cr_request = q, cr_requestHash = hash, cr_state = X_CREATED, cr_version = 0, cr_transitions = [t]\<rparr>"

definition next_cross_record :: "cross_record \<Rightarrow> int \<Rightarrow> cross_transition \<Rightarrow> cross_record" where
  "next_cross_record r v t =
     r\<lparr>cr_state := ct_state t, cr_version := v + 1, cr_transitions := cr_transitions r @ [t]\<rparr>"

type_synonym memory_sagas = "(interweave_id, cross_record) js_map"

definition memory_create :: "cross_request \<Rightarrow> string \<Rightarrow> cross_transition \<Rightarrow> (memory_sagas, cross_record) comp" where
  "memory_create q hash t m =
     (case map_get m (cq_id q) of
        Some existing \<Rightarrow> (Inr existing, m)
      | None \<Rightarrow> (let v = new_cross_record q hash t in (Inr v, map_set (cq_id q) v m)))"

definition memory_transition :: "interweave_id \<Rightarrow> int \<Rightarrow> cross_transition \<Rightarrow> (memory_sagas, cross_record) comp" where
  "memory_transition i v t m =
     (case map_get m i of
        None \<Rightarrow> (Inl (RegistryError NOT_FOUND (''settlement not found: '' @ i)), m)
      | Some r \<Rightarrow>
          if cr_version r \<noteq> v then (Inl (RegistryError CONFLICT ''stale settlement version''), m)
          else let n = next_cross_record r v t in (Inr n, map_set i n m))"

definition memory_store :: "memory_sagas saga_store" where
  "memory_store = \<lparr>ss_create = memory_create, ss_get = (\<lambda>i m. map_get m i), ss_transition = memory_transition\<rparr>"

text \<open>
  The two tables of PostgreSQL: the columns beside the record repeat its fields, and a transition is
  stored under its settlement and sequence, the primary key.
\<close>

record saga_db =
  db_sagas :: "cross_record list"
  db_transitions :: "(interweave_id \<times> cross_transition) list"

definition pg_find_saga :: "interweave_id \<Rightarrow> saga_db \<Rightarrow> cross_record option" where
  "pg_find_saga i db = table_find (\<lambda>r. cq_id (cr_request r)) i (db_sagas db)"

definition pg_insert_transition :: "interweave_id \<Rightarrow> cross_transition \<Rightarrow> (saga_db, unit) comp" where
  "pg_insert_transition i t db =
     (if \<exists>(j, u) \<in> set (db_transitions db). j = i \<and> ct_sequence u = ct_sequence t
      then (Inl (SqlError ''duplicate key value violates unique constraint''), db)
      else (Inr (), db\<lparr>db_transitions := db_transitions db @ [(i, t)]\<rparr>))"

definition pg_create_saga :: "cross_request \<Rightarrow> string \<Rightarrow> cross_transition \<Rightarrow> (saga_db, cross_record) comp" where
  "pg_create_saga q hash t = transaction (\<lambda>db.
     case pg_find_saga (cq_id q) db of
       Some existing \<Rightarrow> (Inr existing, db)
     | None \<Rightarrow>
         let r = new_cross_record q hash t in
         and_then (modify (\<lambda>d. d\<lparr>db_sagas := db_sagas d @ [r]\<rparr>)) (\<lambda>_.
         and_then (pg_insert_transition (cq_id q) (t\<lparr>ct_sequence := 0, ct_state := X_CREATED\<rparr>)) (\<lambda>_. ret r)) db)"

definition pg_transition_saga :: "interweave_id \<Rightarrow> int \<Rightarrow> cross_transition \<Rightarrow> (saga_db, cross_record) comp" where
  "pg_transition_saga i v t = transaction (\<lambda>db.
     case pg_find_saga i db of
       None \<Rightarrow> (Inl (RegistryError NOT_FOUND (''settlement not found: '' @ i)), db)
     | Some r \<Rightarrow>
         if cr_version r \<noteq> v then (Inl (RegistryError CONFLICT ''stale settlement version''), db)
         else let n = next_cross_record r v t in
           and_then (pg_insert_transition i t) (\<lambda>_.
           and_then (modify (\<lambda>d. d\<lparr>db_sagas := map (\<lambda>x. if cq_id (cr_request x) = i then n else x) (db_sagas d)\<rparr>)) (\<lambda>_.
             ret n)) db)"

definition pg_saga_store :: "saga_db saga_store" where
  "pg_saga_store = \<lparr>ss_create = pg_create_saga, ss_get = pg_find_saga, ss_transition = pg_transition_saga\<rparr>"

section \<open>A run of the service\<close>

datatype saga_action =
    RESERVE_DELIVERY | VERIFY_DELIVERY_RESERVATION | RESERVE_OR_TRANSFER_PAYMENT | VERIFY_PAYMENT_FINALITY
  | ATTEST_PAYMENT | RELEASE_DELIVERY | VERIFY_DELIVERY | CANCEL_DELIVERY_RESERVATION

record policy_answer =
  pa_allow :: bool
  pa_evidence :: "string list"
  pa_reason :: string

text \<open>What the outside answers while a run makes one step; a step looks at the part it asked for.\<close>

record saga_input =
  xi_now :: js_date
  xi_policy :: "policy_answer result"
  xi_step :: "step_evidence result"
  xi_reconcile :: "(bool \<times> string list) result"

datatype saga_call =
    PolicyCall interweave_id "policy_answer result"
  | ActionCall saga_action interweave_id "step_evidence result"
  | ReconcileCall interweave_id "(bool \<times> string list) result"

text \<open>
  Where a run is. What follows a move: in the loop of \<open>execute\<close> an error is handled and a record goes
  around again; outside it both are the answer; and in the \<open>try\<close> block of a compensation an error that
  comes before the call of the store leads to manual review.
\<close>

datatype after_move = CONTINUE | FINISH | OR_REVIEW string

datatype saga_await =
    Starting
  | Creating string
  | Looping cross_record
  | AskingPolicy cross_record
  | Acting saga_action saga_state cross_record
  | Reconciling cross_record
  | Cancelling string string cross_record
  | Moving after_move cross_record saga_state "string list" string

datatype saga_run = Running cross_request saga_await | Ended "cross_record result"

record 's saga_world =
  sw_store :: 's
  sw_calls :: "saga_call list"

fun error_message :: "error \<Rightarrow> string" where
  "error_message (RegistryError _ m) = m"
| "error_message (Error m) = m"
| "error_message (SqlError m) = m"

definition saga_advance :: "cross_record \<Rightarrow> saga_await" where
  "saga_advance r =
     (case cr_state r of
        X_CREATED \<Rightarrow> AskingPolicy r
      | X_POLICY_CHECKED \<Rightarrow> Acting RESERVE_DELIVERY X_DELIVERY_RESERVED r
      | X_DELIVERY_RESERVED \<Rightarrow> Acting VERIFY_DELIVERY_RESERVATION X_DELIVERY_RESERVATION_VERIFIED r
      | X_DELIVERY_RESERVATION_VERIFIED \<Rightarrow> Acting RESERVE_OR_TRANSFER_PAYMENT X_PAYMENT_SUBMITTED r
      | X_PAYMENT_SUBMITTED \<Rightarrow> Acting VERIFY_PAYMENT_FINALITY X_PAYMENT_FINALIZED r
      | X_PAYMENT_FINALIZED \<Rightarrow> Acting ATTEST_PAYMENT X_PAYMENT_ATTESTED r
      | X_PAYMENT_ATTESTED \<Rightarrow> Acting RELEASE_DELIVERY X_DELIVERY_RELEASED r
      | X_DELIVERY_RELEASED \<Rightarrow> Acting VERIFY_DELIVERY X_DELIVERY_FINALIZED r
      | X_DELIVERY_FINALIZED \<Rightarrow> Reconciling r
      | X_RECONCILED \<Rightarrow> Moving CONTINUE r X_COMPLETED [] ''saga completed''
      | _ \<Rightarrow> Looping r)"

definition reservation_may_exist :: "saga_state \<Rightarrow> bool" where
  "reservation_may_exist s \<longleftrightarrow> before_payment_finality s \<and> s \<noteq> X_CREATED \<and> s \<noteq> X_POLICY_CHECKED"

definition expire_or_compensate :: "cross_record \<Rightarrow> saga_await" where
  "expire_or_compensate r =
     (if reservation_may_exist (cr_state r)
      then Cancelling ''expired; delivery reservation cancelled'' ''expiry compensation uncertain'' r
      else Moving FINISH r (if before_payment_finality (cr_state r) then X_EXPIRED else X_MANUAL_REVIEW) []
        (if before_payment_finality (cr_state r) then ''expired before reservation''
         else ''expired after payment finality; automatic reversal prohibited''))"

definition handle_failure :: "cross_record \<Rightarrow> error \<Rightarrow> saga_await" where
  "handle_failure r e =
     (let reason = error_message e in
      if reservation_may_exist (cr_state r)
      then Cancelling (''failure compensated: '' @ reason) (''failure and compensation uncertain: '' @ reason) r
      else Moving FINISH r (if before_payment_finality (cr_state r) then X_FAILED else X_MANUAL_REVIEW) []
        (if before_payment_finality (cr_state r) then reason else ''post-payment-finality failure: '' @ reason))"

definition step_result :: "step_evidence result \<Rightarrow> string list result" where
  "step_result answer =
     bind_result answer (\<lambda>v. bind_result (validate_evidence v) (\<lambda>_. Inr (sv_evidence v @ [sv_transactionId v, sv_position v])))"

definition after_get :: "cross_record \<Rightarrow> cross_request \<Rightarrow> saga_run" where
  "after_get r q = (if saga_terminal (cr_state r) then Ended (Inr r) else Running q (Looping r))"

definition called :: "saga_call \<Rightarrow> 's saga_world \<Rightarrow> 's saga_world" where
  "called c w = w\<lparr>sw_calls := sw_calls w @ [c]\<rparr>"

definition saga_move ::
  "'s saga_store \<Rightarrow> js_date \<Rightarrow> cross_request \<Rightarrow> after_move \<Rightarrow> cross_record \<Rightarrow> saga_state \<Rightarrow> string list \<Rightarrow> string
     \<Rightarrow> 's saga_world \<Rightarrow> saga_run \<times> 's saga_world" where
  "saga_move store now q after r state evidence reason w =
     (case now of
        None \<Rightarrow>
          let e = Error ''Invalid time value'' in
          (case after of
             CONTINUE \<Rightarrow> (Running q (handle_failure r e), w)
           | FINISH \<Rightarrow> (Ended (Inl e), w)
           | OR_REVIEW uncertain \<Rightarrow> (Running q (Moving FINISH r X_MANUAL_REVIEW [] uncertain), w))
      | Some t \<Rightarrow>
          let (res, s) = ss_transition store (cq_id (cr_request r)) (cr_version r)
                \<lparr>ct_sequence = cr_version r + 1, ct_state = state, ct_occurredAt = to_iso_string t,
                 ct_evidence = evidence, ct_reason = reason\<rparr> (sw_store w);
              w' = w\<lparr>sw_store := s\<rparr> in
          (case (res, after) of
             (Inl e, CONTINUE) \<Rightarrow> (Running q (handle_failure r e), w')
           | (Inr r', CONTINUE) \<Rightarrow> (Running q (Looping r'), w')
           | _ \<Rightarrow> (Ended res, w')))"

definition saga_step ::
  "'s saga_store \<Rightarrow> sha256 \<Rightarrow> saga_input \<Rightarrow> saga_run \<Rightarrow> 's saga_world \<Rightarrow> saga_run \<times> 's saga_world" where
  "saga_step store sha inp run w =
     (case run of
        Ended res \<Rightarrow> (Ended res, w)
      | Running q Starting \<Rightarrow>
          (case bind_result (validate_cross q) (\<lambda>_. request_fingerprint sha (cross_request_json q)) of
             Inl e \<Rightarrow> (Ended (Inl e), w)
           | Inr hash \<Rightarrow>
               (case ss_get store (cq_id q) (sw_store w) of
                  None \<Rightarrow> (Running q (Creating hash), w)
                | Some r \<Rightarrow>
                    if cr_requestHash r \<noteq> hash
                    then (Ended (Inl (RegistryError CONFLICT
                      (''settlement ID was reused with different content: '' @ cq_id q))), w)
                    else (after_get r q, w)))
      | Running q (Creating hash) \<Rightarrow>
          let (res, s) = ss_create store q hash \<lparr>ct_sequence = 0, ct_state = X_CREATED,
                ct_occurredAt = cq_createdAt q, ct_evidence = [], ct_reason = ''saga created''\<rparr> (sw_store w);
              w' = w\<lparr>sw_store := s\<rparr> in
          (case res of Inl e \<Rightarrow> (Ended (Inl e), w') | Inr r \<Rightarrow> (after_get r q, w'))
      | Running q (Looping r) \<Rightarrow>
          (if saga_terminal (cr_state r) then Ended (Inr r)
           else if date_reached (xi_now inp) (cq_expiresAt q) then Running q (expire_or_compensate r)
           else Running q (saga_advance r), w)
      | Running q (AskingPolicy r) \<Rightarrow>
          (case xi_policy inp of
             Inl e \<Rightarrow> Running q (handle_failure r e)
           | Inr a \<Rightarrow>
               if \<not> pa_allow a
               then Running q (Moving CONTINUE r X_FAILED (pa_evidence a)
                 (if pa_reason a = [] then ''policy denied'' else pa_reason a))
               else Running q (Moving CONTINUE r X_POLICY_CHECKED (pa_evidence a) ''policy allowed''),
           called (PolicyCall (cq_id (cr_request r)) (xi_policy inp)) w)
      | Running q (Acting action state r) \<Rightarrow>
          (case step_result (xi_step inp) of
             Inl e \<Rightarrow> Running q (handle_failure r e)
           | Inr evidence \<Rightarrow> Running q (Moving CONTINUE r state evidence (''entered '' @ saga_text state)),
           called (ActionCall action (cq_id (cr_request r)) (xi_step inp)) w)
      | Running q (Reconciling r) \<Rightarrow>
          (case xi_reconcile inp of
             Inl e \<Rightarrow> Running q (handle_failure r e)
           | Inr (match, evidence) \<Rightarrow>
               Running q (Moving CONTINUE r (if match then X_RECONCILED else X_MANUAL_REVIEW) evidence
                 (if match then ''reconciled'' else ''reconciliation mismatch'')),
           called (ReconcileCall (cq_id (cr_request r)) (xi_reconcile inp)) w)
      | Running q (Cancelling cancelled uncertain r) \<Rightarrow>
          (case step_result (xi_step inp) of
             Inl e \<Rightarrow> Running q (Moving FINISH r X_MANUAL_REVIEW [] uncertain)
           | Inr evidence \<Rightarrow> Running q (Moving (OR_REVIEW uncertain) r X_COMPENSATED evidence cancelled),
           called (ActionCall CANCEL_DELIVERY_RESERVATION (cq_id (cr_request r)) (xi_step inp)) w)
      | Running q (Moving after r state evidence reason) \<Rightarrow>
          saga_move store (xi_now inp) q after r state evidence reason w)"

text \<open>One call of \<open>execute\<close> on its own: the step number decides what the outside answers.\<close>

fun saga_loop ::
  "nat \<Rightarrow> 's saga_store \<Rightarrow> sha256 \<Rightarrow> (nat \<Rightarrow> saga_input) \<Rightarrow> nat \<Rightarrow> saga_run \<Rightarrow> 's saga_world
     \<Rightarrow> cross_record result option \<times> 's saga_world" where
  "saga_loop 0 store sha inputs n run w = (case run of Ended res \<Rightarrow> (Some res, w) | Running _ _ \<Rightarrow> (None, w))"
| "saga_loop (Suc fuel) store sha inputs n run w =
     (case run of
        Ended res \<Rightarrow> (Some res, w)
      | Running _ _ \<Rightarrow>
          (case saga_step store sha (inputs n) run w of
             (run', w') \<Rightarrow> saga_loop fuel store sha inputs (Suc n) run' w'))"

definition saga_execute ::
  "'s saga_store \<Rightarrow> sha256 \<Rightarrow> (nat \<Rightarrow> saga_input) \<Rightarrow> cross_request \<Rightarrow> 's saga_world \<Rightarrow> cross_record result option \<times> 's saga_world" where
  "saga_execute store sha inputs q w = saga_loop 40 store sha inputs 0 (Running q Starting) w"

end
