(* ===== verification/Cross_Safety.thy ===== *)
theory Cross_Safety
  imports Cross_Settlement
begin

text \<open>
  What holds of the sagas however runs interleave: the history of every stored settlement is a path of
  the state graph whose steps are justified by the answers received. The proofs use only the laws of a
  saga store, a locale that the in-memory store and the PostgreSQL store both interpret.
\<close>

section \<open>The interface of a store\<close>

locale saga_storage =
  fixes store :: "'s saga_store" and ok :: "'s \<Rightarrow> bool"
  assumes create_fresh: "ok s \<Longrightarrow> ss_get store (cq_id q) s = None \<Longrightarrow>
      \<exists>s'. ss_create store q hash t s = (Inr (new_cross_record q hash t), s') \<and> ok s'
        \<and> (\<forall>j. ss_get store j s' = (if j = cq_id q then Some (new_cross_record q hash t) else ss_get store j s))"
    and create_taken: "ok s \<Longrightarrow> ss_get store (cq_id q) s = Some r \<Longrightarrow> ss_create store q hash t s = (Inr r, s)"
    and transition_refused: "ok s \<Longrightarrow> (\<And>r. ss_get store i s = Some r \<Longrightarrow> cr_version r \<noteq> v) \<Longrightarrow>
      \<exists>e. ss_transition store i v t s = (Inl e, s)"
    and transition_current: "ok s \<Longrightarrow> ss_get store i s = Some r \<Longrightarrow> cr_version r = v \<Longrightarrow> ct_sequence t = v + 1 \<Longrightarrow>
      \<exists>s'. ss_transition store i v t s = (Inr (next_cross_record r v t), s') \<and> ok s'
        \<and> (\<forall>j. ss_get store j s' = (if j = i then Some (next_cross_record r v t) else ss_get store j s))"
    and get_id: "ok s \<Longrightarrow> ss_get store i s = Some r \<Longrightarrow> cq_id (cr_request r) = i"
    and get_version: "ok s \<Longrightarrow> ss_get store i s = Some r \<Longrightarrow> 0 \<le> cr_version r"

interpretation memory: saga_storage memory_store "\<lambda>m. \<forall>i r. map_get m i = Some r \<longrightarrow> cq_id (cr_request r) = i \<and> 0 \<le> cr_version r"
  by unfold_locales
    (auto simp: memory_store_def memory_create_def memory_transition_def new_cross_record_def next_cross_record_def Let_def
      split: option.splits)

text \<open>The transition table holds no sequence beyond the version of its settlement.\<close>

definition saga_db_ok :: "saga_db \<Rightarrow> bool" where
  "saga_db_ok db \<longleftrightarrow> (\<forall>r \<in> set (db_sagas db). 0 \<le> cr_version r)
     \<and> (\<forall>(i, t) \<in> set (db_transitions db). \<exists>r. pg_find_saga i db = Some r \<and> ct_sequence t \<le> cr_version r)"

lemma saga_db_okI:
  assumes "\<And>r. r \<in> set (db_sagas db) \<Longrightarrow> 0 \<le> cr_version r"
    and "\<And>i t. (i, t) \<in> set (db_transitions db) \<Longrightarrow> \<exists>r. pg_find_saga i db = Some r \<and> ct_sequence t \<le> cr_version r"
  shows "saga_db_ok db"
  using assms by (auto simp: saga_db_ok_def)

lemma pg_find_update:
  assumes "pg_find_saga i db = Some r" "cr_request n = cr_request r"
  shows "pg_find_saga j (db\<lparr>db_transitions := ts, db_sagas := map (\<lambda>x. if cq_id (cr_request x) = i then n else x) (db_sagas db)\<rparr>)
    = (if j = i then Some n else pg_find_saga j db)"
proof -
  have i: "cq_id (cr_request n) = i"
    using assms by (auto simp: pg_find_saga_def dest: table_find_key)
  let ?f = "map (\<lambda>x. if cq_id (cr_request x) = i then n else x)" and ?get = "table_find (\<lambda>r. cq_id (cr_request r))"
  have "j \<noteq> i \<Longrightarrow> ?get j (?f rows) = ?get j rows" for rows
    using i by (induction rows) (auto simp: table_find_def)
  moreover have "?get i (?f rows) = Some n" if "?get i rows \<noteq> None" for rows
    using i that by (induction rows) (auto simp: table_find_def)
  ultimately show ?thesis using assms(1) by (simp add: pg_find_saga_def)
qed

interpretation pg: saga_storage pg_saga_store saga_db_ok
proof unfold_locales
  fix s :: saga_db and q :: cross_request and hash t
  assume ok: "saga_db_ok s" and none: "ss_get pg_saga_store (cq_id q) s = None"
  have none': "pg_find_saga (cq_id q) s = None" using none by (simp add: pg_saga_store_def)
  then have free: "\<not> (\<exists>(j, u) \<in> set (db_transitions s). j = cq_id q \<and> ct_sequence u = 0)"
    using ok by (fastforce simp: saga_db_ok_def)
  let ?r = "new_cross_record q hash t"
  let ?s' = "s\<lparr>db_sagas := db_sagas s @ [?r], db_transitions := db_transitions s @ [(cq_id q, t\<lparr>ct_sequence := 0, ct_state := X_CREATED\<rparr>)]\<rparr>"
  have find: "pg_find_saga j ?s' = (if j = cq_id q then Some ?r else pg_find_saga j s)" for j
    using none' by (auto simp: pg_find_saga_def table_find_snoc new_cross_record_def split: option.split)
  have "saga_db_ok ?s'"
  proof (rule saga_db_okI)
    show "\<exists>r. pg_find_saga i ?s' = Some r \<and> ct_sequence u \<le> cr_version r" if "(i, u) \<in> set (db_transitions ?s')" for i u
      using that ok none' unfolding find by (auto simp: saga_db_ok_def new_cross_record_def)
  qed (use ok in \<open>auto simp: saga_db_ok_def new_cross_record_def\<close>)
  moreover have "ss_create pg_saga_store q hash t s = (Inr ?r, ?s')"
    using none' free by (simp add: pg_saga_store_def pg_create_saga_def transaction_def and_then_def pg_insert_transition_def Let_def)
  ultimately show "\<exists>s'. ss_create pg_saga_store q hash t s = (Inr ?r, s') \<and> saga_db_ok s'
      \<and> (\<forall>j. ss_get pg_saga_store j s' = (if j = cq_id q then Some ?r else ss_get pg_saga_store j s))"
    using find by (intro exI [of _ ?s']) (simp add: pg_saga_store_def)
next
  fix s :: saga_db and i and r :: cross_record and v and t :: cross_transition
  assume ok: "saga_db_ok s" and get: "ss_get pg_saga_store i s = Some r" and v: "cr_version r = v" and t: "ct_sequence t = v + 1"
  have get': "pg_find_saga i s = Some r" using get by (simp add: pg_saga_store_def)
  then have free: "\<not> (\<exists>(j, u) \<in> set (db_transitions s). j = i \<and> ct_sequence u = v + 1)"
    using ok v by (fastforce simp: saga_db_ok_def)
  let ?n = "next_cross_record r v t"
  let ?s' = "s\<lparr>db_transitions := db_transitions s @ [(i, t)], db_sagas := map (\<lambda>x. if cq_id (cr_request x) = i then ?n else x) (db_sagas s)\<rparr>"
  have find: "pg_find_saga j ?s' = (if j = i then Some ?n else pg_find_saga j s)" for j
    by (rule pg_find_update [OF get']) (simp add: next_cross_record_def)
  have "saga_db_ok ?s'"
  proof (rule saga_db_okI)
    show "\<exists>r. pg_find_saga k ?s' = Some r \<and> ct_sequence u \<le> cr_version r" if "(k, u) \<in> set (db_transitions ?s')" for k u
      using that ok get' v t unfolding find by (fastforce simp: saga_db_ok_def next_cross_record_def)
    have "r \<in> set (db_sagas s)" using get' by (auto simp: pg_find_saga_def dest: table_find_mem)
    then show "0 \<le> cr_version x" if "x \<in> set (db_sagas ?s')" for x
      using that ok v by (auto simp: saga_db_ok_def next_cross_record_def split: if_splits)
  qed
  moreover have "ss_transition pg_saga_store i v t s = (Inr ?n, ?s')"
    using get' free v t by (simp add: pg_saga_store_def pg_transition_saga_def transaction_def and_then_def pg_insert_transition_def Let_def)
  ultimately show "\<exists>s'. ss_transition pg_saga_store i v t s = (Inr ?n, s') \<and> saga_db_ok s'
      \<and> (\<forall>j. ss_get pg_saga_store j s' = (if j = i then Some ?n else ss_get pg_saga_store j s))"
    using find by (intro exI [of _ ?s']) (simp add: pg_saga_store_def)
qed (auto simp: pg_saga_store_def pg_create_saga_def pg_transition_saga_def transaction_def pg_find_saga_def saga_db_ok_def
    split: option.split dest: table_find_key table_find_mem)

section \<open>Interleaved runs\<close>

record 's saga_system =
  sx_world :: "'s saga_world"
  sx_runs :: "saga_run list"

inductive saga_reachable :: "'s saga_store \<Rightarrow> sha256 \<Rightarrow> 's \<Rightarrow> 's saga_system \<Rightarrow> bool" for store sha init where
  saga_begin: "saga_reachable store sha init \<lparr>sx_world = \<lparr>sw_store = init, sw_calls = []\<rparr>, sx_runs = []\<rparr>"
| saga_start: "saga_reachable store sha init s \<Longrightarrow> saga_reachable store sha init (s\<lparr>sx_runs := sx_runs s @ [Running q Starting]\<rparr>)"
| saga_run: "saga_reachable store sha init s \<Longrightarrow> n < length (sx_runs s) \<Longrightarrow>
     saga_step store sha inp (sx_runs s ! n) (sx_world s) = (run, w) \<Longrightarrow>
     saga_reachable store sha init (s\<lparr>sx_world := w, sx_runs := (sx_runs s)[n := run]\<rparr>)"

section \<open>The state graph and what justifies a step\<close>

fun saga_next :: "saga_state \<Rightarrow> saga_state option" where
  "saga_next X_CREATED = Some X_POLICY_CHECKED"
| "saga_next X_POLICY_CHECKED = Some X_DELIVERY_RESERVED"
| "saga_next X_DELIVERY_RESERVED = Some X_DELIVERY_RESERVATION_VERIFIED"
| "saga_next X_DELIVERY_RESERVATION_VERIFIED = Some X_PAYMENT_SUBMITTED"
| "saga_next X_PAYMENT_SUBMITTED = Some X_PAYMENT_FINALIZED"
| "saga_next X_PAYMENT_FINALIZED = Some X_PAYMENT_ATTESTED"
| "saga_next X_PAYMENT_ATTESTED = Some X_DELIVERY_RELEASED"
| "saga_next X_DELIVERY_RELEASED = Some X_DELIVERY_FINALIZED"
| "saga_next X_DELIVERY_FINALIZED = Some X_RECONCILED"
| "saga_next X_RECONCILED = Some X_COMPLETED"
| "saga_next _ = None"

definition saga_edge :: "saga_state \<Rightarrow> saga_state \<Rightarrow> bool" where
  "saga_edge a b \<longleftrightarrow> \<not> saga_terminal a
     \<and> (if b \<in> {X_FAILED, X_EXPIRED} then a \<in> {X_CREATED, X_POLICY_CHECKED}
        else if b = X_COMPENSATED then reservation_may_exist a
        else if b = X_MANUAL_REVIEW then a \<notin> {X_CREATED, X_POLICY_CHECKED}
        else saga_next a = Some b)"

fun action_into :: "saga_state \<Rightarrow> saga_action option" where
  "action_into X_DELIVERY_RESERVED = Some RESERVE_DELIVERY"
| "action_into X_DELIVERY_RESERVATION_VERIFIED = Some VERIFY_DELIVERY_RESERVATION"
| "action_into X_PAYMENT_SUBMITTED = Some RESERVE_OR_TRANSFER_PAYMENT"
| "action_into X_PAYMENT_FINALIZED = Some VERIFY_PAYMENT_FINALITY"
| "action_into X_PAYMENT_ATTESTED = Some ATTEST_PAYMENT"
| "action_into X_DELIVERY_RELEASED = Some RELEASE_DELIVERY"
| "action_into X_DELIVERY_FINALIZED = Some VERIFY_DELIVERY"
| "action_into X_COMPENSATED = Some CANCEL_DELIVERY_RESERVATION"
| "action_into _ = None"

definition justified :: "saga_call list \<Rightarrow> interweave_id \<Rightarrow> saga_state \<Rightarrow> string list \<Rightarrow> bool" where
  "justified calls i state evidence \<longleftrightarrow>
     (state = X_POLICY_CHECKED \<longrightarrow> (\<exists>a. PolicyCall i (Inr a) \<in> set calls \<and> pa_allow a \<and> evidence = pa_evidence a))
     \<and> (state = X_RECONCILED \<longrightarrow> ReconcileCall i (Inr (True, evidence)) \<in> set calls)
     \<and> (\<forall>action. action_into state = Some action \<longrightarrow>
          (\<exists>answer. ActionCall action i answer \<in> set calls \<and> step_result answer = Inr evidence))"

definition saga_states :: "cross_record \<Rightarrow> saga_state list" where
  "saga_states r = map ct_state (cr_transitions r)"

definition saga_history :: "saga_call list \<Rightarrow> cross_record \<Rightarrow> bool" where
  "saga_history calls r \<longleftrightarrow>
     cr_transitions r \<noteq> [] \<and> cr_version r + 1 = int (length (cr_transitions r))
     \<and> map ct_sequence (cr_transitions r) = map int [0..<length (cr_transitions r)]
     \<and> hd (saga_states r) = X_CREATED \<and> last (saga_states r) = cr_state r \<and> successively saga_edge (saga_states r)
     \<and> (\<forall>t \<in> set (cr_transitions r). justified calls (cq_id (cr_request r)) (ct_state t) (ct_evidence t))"

text \<open>A run works on an earlier version of the stored record.\<close>

definition snapshot_of :: "saga_call list \<Rightarrow> cross_record option \<Rightarrow> cross_record \<Rightarrow> bool" where
  "snapshot_of calls stored r \<longleftrightarrow> saga_history calls r
     \<and> (\<exists>x n. stored = Some x \<and> cr_request r = cr_request x \<and> cr_requestHash r = cr_requestHash x
          \<and> cr_transitions r = take n (cr_transitions x))"

fun await_ok :: "saga_call list \<Rightarrow> saga_await \<Rightarrow> bool" where
  "await_ok calls (AskingPolicy r) = (cr_state r = X_CREATED)"
| "await_ok calls (Acting action state r) = (saga_next (cr_state r) = Some state \<and> action_into state = Some action
     \<and> state \<noteq> X_POLICY_CHECKED \<and> state \<noteq> X_RECONCILED \<and> \<not> saga_terminal state)"
| "await_ok calls (Reconciling r) = (cr_state r = X_DELIVERY_FINALIZED)"
| "await_ok calls (Cancelling _ _ r) = reservation_may_exist (cr_state r)"
| "await_ok calls (Moving after r state evidence _) = (saga_edge (cr_state r) state
     \<and> justified calls (cq_id (cr_request r)) state evidence
     \<and> (\<forall>u. after = OR_REVIEW u \<longrightarrow> reservation_may_exist (cr_state r)))"
| "await_ok calls _ = True"

fun await_record :: "saga_await \<Rightarrow> cross_record option" where
  "await_record (Looping r) = Some r"
| "await_record (AskingPolicy r) = Some r"
| "await_record (Acting _ _ r) = Some r"
| "await_record (Reconciling r) = Some r"
| "await_record (Cancelling _ _ r) = Some r"
| "await_record (Moving _ r _ _ _) = Some r"
| "await_record _ = None"

fun run_ok :: "saga_call list \<Rightarrow> (interweave_id \<Rightarrow> cross_record option) \<Rightarrow> saga_run \<Rightarrow> bool" where
  "run_ok calls get (Running q await) = (await_ok calls await
     \<and> (\<forall>r. await_record await = Some r \<longrightarrow> snapshot_of calls (get (cq_id (cr_request r))) r))"
| "run_ok calls get (Ended res) = (\<forall>r. res = Inr r \<longrightarrow> snapshot_of calls (get (cq_id (cr_request r))) r)"

lemma justified_mono: "set calls \<subseteq> set calls' \<Longrightarrow> justified calls i s e \<Longrightarrow> justified calls' i s e"
  unfolding justified_def by blast

lemma history_mono: "set calls \<subseteq> set calls' \<Longrightarrow> saga_history calls r \<Longrightarrow> saga_history calls' r"
  unfolding saga_history_def using justified_mono by blast

lemma snapshot_mono: "set calls \<subseteq> set calls' \<Longrightarrow> snapshot_of calls x r \<Longrightarrow> snapshot_of calls' x r"
  unfolding snapshot_of_def using history_mono by blast

lemma await_mono: "set calls \<subseteq> set calls' \<Longrightarrow> await_ok calls a \<Longrightarrow> await_ok calls' a"
  by (cases a) (auto intro: justified_mono)

lemma run_mono: "set calls \<subseteq> set calls' \<Longrightarrow> run_ok calls get run \<Longrightarrow> run_ok calls' get run"
  by (cases run) (auto intro: snapshot_mono await_mono)

lemma history_next:
  assumes "saga_history calls r" "saga_edge (cr_state r) (ct_state t)" "ct_sequence t = cr_version r + 1"
    "justified calls (cq_id (cr_request r)) (ct_state t) (ct_evidence t)"
  shows "saga_history calls (next_cross_record r (cr_version r) t)"
  using assms by (auto simp: saga_history_def saga_states_def next_cross_record_def successively_append_iff last_map)

lemma snapshot_self: "saga_history calls x \<Longrightarrow> snapshot_of calls (Some x) x"
  unfolding snapshot_of_def by (metis order_refl take_all)

lemma snapshot_next:
  assumes "snapshot_of calls (Some x) r"
  shows "snapshot_of calls (Some (next_cross_record x v t)) r"
proof -
  obtain n where n: "saga_history calls r" "cr_request r = cr_request x" "cr_requestHash r = cr_requestHash x"
    "cr_transitions r = take n (cr_transitions x)"
    using assms by (auto simp: snapshot_of_def)
  have "cr_transitions r = take (min n (length (cr_transitions x))) (cr_transitions (next_cross_record x v t))"
    unfolding next_cross_record_def n(4) by (cases "n \<le> length (cr_transitions x)") simp_all
  moreover have "cr_request (next_cross_record x v t) = cr_request x" "cr_requestHash (next_cross_record x v t) = cr_requestHash x"
    by (simp_all add: next_cross_record_def)
  ultimately show ?thesis using n(1-3) unfolding snapshot_of_def by metis
qed

text \<open>A run whose record has the version of the stored one holds the stored one.\<close>

lemma snapshot_current:
  assumes "snapshot_of calls (Some x) r" "saga_history calls' x" "cr_version r = cr_version x"
  shows "r = x"
proof -
  obtain n where n: "cr_request r = cr_request x" "cr_requestHash r = cr_requestHash x" "saga_history calls r"
    "cr_transitions r = take n (cr_transitions x)"
    using assms(1) by (auto simp: snapshot_of_def)
  have "length (cr_transitions r) = length (cr_transitions x)"
    using n(3) assms(2,3) by (simp add: saga_history_def)
  then have "length (cr_transitions x) \<le> n" using n(4) by simp
  then have "cr_transitions r = cr_transitions x" using n(4) by simp
  moreover from this have "cr_state r = cr_state x" using n(3) assms(2) by (simp add: saga_history_def saga_states_def)
  ultimately show ?thesis using n assms(3) by simp
qed

section \<open>What a run asks for\<close>

lemma saga_advance_ok:
  assumes "\<not> saga_terminal (cr_state r)"
  shows "await_ok calls (saga_advance r)" "await_record (saga_advance r) = Some r"
  using assms by (cases "cr_state r"; simp add: saga_advance_def saga_terminal_def saga_edge_def justified_def)+

lemma handle_failure_ok:
  assumes "\<not> saga_terminal (cr_state r)"
  shows "await_ok calls (handle_failure r e)" "await_record (handle_failure r e) = Some r"
  using assms by (cases "cr_state r"; simp add: handle_failure_def Let_def reservation_may_exist_def
      before_payment_finality_def saga_terminal_def saga_edge_def justified_def)+

lemma expire_ok:
  assumes "\<not> saga_terminal (cr_state r)"
  shows "await_ok calls (expire_or_compensate r)" "await_record (expire_or_compensate r) = Some r"
  using assms by (cases "cr_state r"; simp add: expire_or_compensate_def reservation_may_exist_def
      before_payment_finality_def saga_terminal_def saga_edge_def justified_def)+

lemma reservation_not_terminal: "reservation_may_exist s \<Longrightarrow> \<not> saga_terminal s"
  by (cases s) (simp_all add: reservation_may_exist_def before_payment_finality_def saga_terminal_def)

lemma acting_not_terminal: "await_ok calls (Acting action state r) \<Longrightarrow> \<not> saga_terminal (cr_state r)"
  by (cases "cr_state r") (simp_all add: saga_terminal_def)

lemma moving_not_terminal: "await_ok calls (Moving after r state evidence m) \<Longrightarrow> \<not> saga_terminal (cr_state r)"
  by (simp add: saga_edge_def)

lemma acting_ok:
  assumes "await_ok calls (Acting action state r)" "step_result answer = Inr evidence"
  shows "await_ok (calls @ [ActionCall action (cq_id (cr_request r)) answer]) (Moving CONTINUE r state evidence m)"
proof -
  have a: "saga_next (cr_state r) = Some state" "action_into state = Some action" "state \<noteq> X_POLICY_CHECKED"
    "state \<noteq> X_RECONCILED" "\<not> saga_terminal state"
    using assms(1) by simp_all
  have nt: "\<not> saga_terminal (cr_state r)" using assms(1) by (rule acting_not_terminal)
  have "saga_edge (cr_state r) state" using a nt by (auto simp: saga_edge_def saga_terminal_def)
  moreover have "justified (calls @ [ActionCall action (cq_id (cr_request r)) answer]) (cq_id (cr_request r)) state evidence"
    using a assms(2) by (auto simp: justified_def)
  ultimately show "await_ok (calls @ [ActionCall action (cq_id (cr_request r)) answer]) (Moving CONTINUE r state evidence m)"
    by simp
qed

section \<open>The invariant\<close>

definition saga_world_ok :: "'s saga_store \<Rightarrow> ('s \<Rightarrow> bool) \<Rightarrow> 's saga_world \<Rightarrow> bool" where
  "saga_world_ok store ok w \<longleftrightarrow> ok (sw_store w)
     \<and> (\<forall>i x. ss_get store i (sw_store w) = Some x \<longrightarrow> saga_history (sw_calls w) x)"

abbreviation run_in :: "'s saga_store \<Rightarrow> 's saga_world \<Rightarrow> saga_run \<Rightarrow> bool" where
  "run_in store w \<equiv> run_ok (sw_calls w) (\<lambda>i. ss_get store i (sw_store w))"

text \<open>The log grows, and a stored record stays or gets one more transition.\<close>

definition world_extends :: "'s saga_store \<Rightarrow> 's saga_world \<Rightarrow> 's saga_world \<Rightarrow> bool" where
  "world_extends store w w' \<longleftrightarrow> set (sw_calls w) \<subseteq> set (sw_calls w')
     \<and> (\<forall>i x. ss_get store i (sw_store w) = Some x \<longrightarrow>
          (\<exists>y. ss_get store i (sw_store w') = Some y \<and> (y = x \<or> (\<exists>v t. y = next_cross_record x v t))))"

lemma snapshot_extends:
  assumes "world_extends store w w'" "snapshot_of (sw_calls w) (ss_get store i (sw_store w)) r"
  shows "snapshot_of (sw_calls w') (ss_get store i (sw_store w')) r"
proof -
  obtain x where x: "ss_get store i (sw_store w) = Some x" using assms(2) by (auto simp: snapshot_of_def)
  then obtain y where y: "ss_get store i (sw_store w') = Some y" "y = x \<or> (\<exists>v t. y = next_cross_record x v t)"
    using assms(1) unfolding world_extends_def by blast
  have "snapshot_of (sw_calls w') (Some x) r"
    using assms x unfolding world_extends_def by (auto intro: snapshot_mono)
  then show ?thesis using y snapshot_next by auto
qed

lemma run_extends: "world_extends store w w' \<Longrightarrow> run_in store w run \<Longrightarrow> run_in store w' run"
  by (cases run) (auto intro: snapshot_extends await_mono simp: world_extends_def)

lemma called_extends: "world_extends store w (called c w)"
  by (auto simp: world_extends_def called_def)

lemma called_world: "saga_world_ok store ok w \<Longrightarrow> saga_world_ok store ok (called c w)"
  using history_mono [of "sw_calls w" "sw_calls w @ [c]"] by (auto simp: saga_world_ok_def called_def)

lemma world_refl: "world_extends store w w"
  by (auto simp: world_extends_def)

lemma new_history: "saga_history calls (new_cross_record q hash
    \<lparr>ct_sequence = 0, ct_state = X_CREATED, ct_occurredAt = at, ct_evidence = [], ct_reason = m\<rparr>)"
  by (simp add: saga_history_def new_cross_record_def saga_states_def justified_def)

context saga_storage
begin

lemma create_step:
  assumes w: "saga_world_ok store ok w"
    and run: "ss_create store q hash \<lparr>ct_sequence = 0, ct_state = X_CREATED, ct_occurredAt = at, ct_evidence = [],
      ct_reason = m\<rparr> (sw_store w) = (res, s)"
  shows "\<exists>r. res = Inr r \<and> saga_world_ok store ok (w\<lparr>sw_store := s\<rparr>) \<and> world_extends store w (w\<lparr>sw_store := s\<rparr>)
    \<and> cq_id (cr_request r) = cq_id q \<and> snapshot_of (sw_calls w) (ss_get store (cq_id q) s) r"
proof (cases "ss_get store (cq_id q) (sw_store w)")
  case None
  let ?r = "new_cross_record q hash \<lparr>ct_sequence = 0, ct_state = X_CREATED, ct_occurredAt = at, ct_evidence = [], ct_reason = m\<rparr>"
  have okw: "ok (sw_store w)" using w by (simp add: saga_world_ok_def)
  obtain s' where s': "ss_create store q hash \<lparr>ct_sequence = 0, ct_state = X_CREATED, ct_occurredAt = at, ct_evidence = [],
      ct_reason = m\<rparr> (sw_store w) = (Inr ?r, s')" "ok s'"
    "\<And>j. ss_get store j s' = (if j = cq_id q then Some ?r else ss_get store j (sw_store w))"
    using create_fresh [OF okw None] by blast
  then have "res = Inr ?r" "s = s'" using run by auto
  moreover have "cr_request ?r = q" by (simp add: new_cross_record_def)
  ultimately show ?thesis using w s'(2,3) None new_history snapshot_self [OF new_history]
    by (intro exI [of _ ?r]) (auto simp: saga_world_ok_def world_extends_def)
next
  case (Some r)
  have okw: "ok (sw_store w)" using w by (simp add: saga_world_ok_def)
  have "res = Inr r" "s = sw_store w" using run create_taken [OF okw Some] by auto
  moreover have "cq_id (cr_request r) = cq_id q" by (rule get_id [OF okw Some])
  ultimately show ?thesis using w Some snapshot_self by (auto simp: saga_world_ok_def world_extends_def)
qed

lemma transition_step:
  assumes w: "saga_world_ok store ok w" and snap: "snapshot_of (sw_calls w) (ss_get store (cq_id (cr_request r)) (sw_store w)) r"
    and edge: "saga_edge (cr_state r) (ct_state t)" "justified (sw_calls w) (cq_id (cr_request r)) (ct_state t) (ct_evidence t)"
    and seq: "ct_sequence t = cr_version r + 1"
    and run: "ss_transition store (cq_id (cr_request r)) (cr_version r) t (sw_store w) = (res, s)"
  shows "saga_world_ok store ok (w\<lparr>sw_store := s\<rparr>) \<and> world_extends store w (w\<lparr>sw_store := s\<rparr>)
    \<and> (\<forall>r'. res = Inr r' \<longrightarrow> cq_id (cr_request r') = cq_id (cr_request r)
        \<and> snapshot_of (sw_calls w) (ss_get store (cq_id (cr_request r)) s) r')"
proof -
  let ?i = "cq_id (cr_request r)"
  have okw: "ok (sw_store w)" using w by (simp add: saga_world_ok_def)
  obtain x where x: "ss_get store ?i (sw_store w) = Some x" using snap by (auto simp: snapshot_of_def)
  have hist: "saga_history (sw_calls w) x" using w x by (simp add: saga_world_ok_def)
  show ?thesis
  proof (cases "cr_version x = cr_version r")
    case True
    then have "r = x" using snapshot_current [OF _ hist] snap x by simp
    then obtain s' where s': "ss_transition store ?i (cr_version r) t (sw_store w) = (Inr (next_cross_record r (cr_version r) t), s')"
      "ok s'" "\<And>j. ss_get store j s' = (if j = ?i then Some (next_cross_record r (cr_version r) t) else ss_get store j (sw_store w))"
      using transition_current [OF okw x True seq] by blast
    have "res = Inr (next_cross_record r (cr_version r) t)" "s = s'" using s'(1) run by auto
    moreover have "saga_history (sw_calls w) (next_cross_record r (cr_version r) t)"
      using history_next [OF _ edge(1) seq edge(2)] hist \<open>r = x\<close> by simp
    moreover have "cr_request (next_cross_record r (cr_version r) t) = cr_request r" by (simp add: next_cross_record_def)
    ultimately show ?thesis using w s'(2,3) x \<open>r = x\<close> snapshot_self by (auto simp: saga_world_ok_def world_extends_def)
  next
    case False
    then obtain e where "ss_transition store ?i (cr_version r) t (sw_store w) = (Inl e, sw_store w)"
      using transition_refused [OF okw, of ?i "cr_version r" t] x by auto
    then show ?thesis using run w by (auto simp: world_refl)
  qed
qed

lemma snapshot_history: "snapshot_of calls x r \<Longrightarrow> saga_history calls r"
  by (simp add: snapshot_of_def)

text \<open>After a call of the outside, the run goes on with the same record.\<close>

lemma called_run:
  assumes "saga_world_ok store ok w" "snapshot_of (sw_calls w) (ss_get store (cq_id (cr_request r)) (sw_store w)) r"
    and "await_ok (sw_calls w @ [c]) a" "await_record a = Some r"
  shows "saga_world_ok store ok (called c w) \<and> world_extends store w (called c w) \<and> run_in store (called c w) (Running q a)"
proof -
  have "snapshot_of (sw_calls (called c w)) (ss_get store (cq_id (cr_request r)) (sw_store (called c w))) r"
    by (rule snapshot_extends [OF called_extends assms(2)])
  then show ?thesis using called_world [OF assms(1)] called_extends [of store w c] assms(3,4) by (auto simp: called_def)
qed

lemma moving_step:
  assumes w: "saga_world_ok store ok w" and run: "run_in store w (Running q (Moving after r state evidence reason))"
    and step: "saga_move store now q after r state evidence reason w = (run', w')"
  shows "saga_world_ok store ok w' \<and> world_extends store w w' \<and> run_in store w' run'"
proof -
  have aw: "await_ok (sw_calls w) (Moving after r state evidence reason)"
    and snap: "snapshot_of (sw_calls w) (ss_get store (cq_id (cr_request r)) (sw_store w)) r"
    using run by simp_all
  have nt: "\<not> saga_terminal (cr_state r)" by (rule moving_not_terminal [OF aw])
  have failure: "run_in store w (Running q (handle_failure r e))" for e
    using handle_failure_ok [OF nt] snap by simp
  show ?thesis
  proof (cases now)
    case None
    have review: "run_in store w (Running q (Moving FINISH r X_MANUAL_REVIEW [] u))" if "after = OR_REVIEW u" for u
    proof -
      have "reservation_may_exist (cr_state r)" using aw that by simp
      then have "saga_edge (cr_state r) X_MANUAL_REVIEW"
        using nt by (auto simp: saga_edge_def reservation_may_exist_def)
      then show ?thesis using snap by (simp add: justified_def)
    qed
    show ?thesis using step None w failure review world_refl
      by (cases after) (auto simp: saga_move_def Let_def simp del: run_ok.simps(1))
  next
    case (Some t)
    let ?t = "\<lparr>ct_sequence = cr_version r + 1, ct_state = state, ct_occurredAt = to_iso_string t,
      ct_evidence = evidence, ct_reason = reason\<rparr>"
    obtain res s where trans: "ss_transition store (cq_id (cr_request r)) (cr_version r) ?t (sw_store w) = (res, s)" by fastforce
    let ?w = "w\<lparr>sw_store := s\<rparr>"
    have ok': "saga_world_ok store ok ?w" "world_extends store w ?w"
      "\<And>r'. res = Inr r' \<Longrightarrow> cq_id (cr_request r') = cq_id (cr_request r)
        \<and> snapshot_of (sw_calls w) (ss_get store (cq_id (cr_request r)) s) r'"
      using transition_step [OF w snap _ _ _ trans] aw by simp_all
    have ended: "run_in store ?w (Ended res)" using ok'(3) by auto
    have fail': "run_in store ?w (Running q (handle_failure r e))" for e by (rule run_extends [OF ok'(2) failure])
    have loop: "run_in store ?w (Running q (Looping r'))" if "res = Inr r'" for r' using ok'(3) [OF that] by simp
    show ?thesis
    proof (cases "after = CONTINUE")
      case True
      then show ?thesis using step Some trans ok'(1,2) fail' loop
        by (cases res) (auto simp: saga_move_def Let_def simp del: run_ok.simps(1))
    next
      case False
      then have "run' = Ended res" "w' = ?w" using step Some trans
        by (cases after; cases res; simp add: saga_move_def Let_def)+
      then show ?thesis using ok'(1,2) ended by simp
    qed
  qed
qed

lemma saga_step_ok:
  assumes w: "saga_world_ok store ok w" and run: "run_in store w run" and step: "saga_step store sha inp run w = (run', w')"
  shows "saga_world_ok store ok w' \<and> world_extends store w w' \<and> run_in store w' run'"
proof (cases run)
  case (Ended res)
  then have "run' = run" "w' = w" using step by (simp_all add: saga_step_def)
  then show ?thesis using w run world_refl [of store w] by simp
next
  case (Running q await)
  have okw: "ok (sw_store w)" using w by (simp add: saga_world_ok_def)
  have stored: "snapshot_of (sw_calls w) (Some x) x" if "ss_get store i (sw_store w) = Some x" for i x
    using w that by (auto simp: saga_world_ok_def intro: snapshot_self)
  show ?thesis
  proof (cases await)
    case Starting
    show ?thesis
    proof (cases "bind_result (validate_cross q) (\<lambda>_. request_fingerprint sha (cross_request_json q))")
      case (Inl e)
      then show ?thesis using w run step world_refl [of store w] Running Starting by (auto simp: saga_step_def)
    next
      case (Inr hash)
      show ?thesis
      proof (cases "ss_get store (cq_id q) (sw_store w)")
        case None
        then show ?thesis using w step world_refl [of store w] Running Starting Inr by (auto simp: saga_step_def)
      next
        case (Some r)
        have "cq_id (cr_request r) = cq_id q" by (rule get_id [OF okw Some])
        then have "run_in store w (after_get r q)" using stored [OF Some] Some by (simp add: after_get_def)
        then show ?thesis using w step world_refl [of store w] Running Starting Inr Some
          by (cases "cr_requestHash r = hash") (auto simp: saga_step_def)
      qed
    qed
  next
    case (Creating hash)
    obtain res s where create: "ss_create store q hash \<lparr>ct_sequence = 0, ct_state = X_CREATED,
        ct_occurredAt = cq_createdAt q, ct_evidence = [], ct_reason = ''saga created''\<rparr> (sw_store w) = (res, s)" by fastforce
    obtain r where r: "res = Inr r" "saga_world_ok store ok (w\<lparr>sw_store := s\<rparr>)" "world_extends store w (w\<lparr>sw_store := s\<rparr>)"
      "cq_id (cr_request r) = cq_id q" "snapshot_of (sw_calls w) (ss_get store (cq_id q) s) r"
      using create_step [OF w create] by blast
    then have "run_in store (w\<lparr>sw_store := s\<rparr>) (after_get r q)" by (simp add: after_get_def)
    moreover have eqs: "run' = after_get r q" "w' = w\<lparr>sw_store := s\<rparr>"
      using step Running Creating create r(1) by (auto simp: saga_step_def)
    ultimately show ?thesis using r(2,3) unfolding eqs by (intro conjI)
  next
    case (Looping r)
    have snap: "snapshot_of (sw_calls w) (ss_get store (cq_id (cr_request r)) (sw_store w)) r" using run Running Looping by simp
    show ?thesis
    proof (cases "saga_terminal (cr_state r)")
      case True
      then show ?thesis using w step world_refl [of store w] Running Looping snap by (auto simp: saga_step_def)
    next
      case False
      then have "run_in store w (Running q (expire_or_compensate r))" "run_in store w (Running q (saga_advance r))"
        using expire_ok saga_advance_ok snap by simp_all
      then show ?thesis using w step world_refl [of store w] Running Looping False
        by (cases "date_reached (xi_now inp) (cq_expiresAt q)") (auto simp: saga_step_def simp del: run_ok.simps(1))
    qed
  next
    case (AskingPolicy r)
    have snap: "snapshot_of (sw_calls w) (ss_get store (cq_id (cr_request r)) (sw_store w)) r" and created: "cr_state r = X_CREATED"
      using run Running AskingPolicy by simp_all
    let ?c = "PolicyCall (cq_id (cr_request r)) (xi_policy inp)"
    have nt: "\<not> saga_terminal (cr_state r)" using created by (simp add: saga_terminal_def)
    show ?thesis
    proof (cases "xi_policy inp")
      case (Inl e)
      have "run' = Running q (handle_failure r e)" "w' = called ?c w" using step Running AskingPolicy Inl by (auto simp: saga_step_def)
      then show ?thesis using called_run [OF w snap, of ?c "handle_failure r e" q] handle_failure_ok [OF nt] by (simp del: run_ok.simps(1))
    next
      case (Inr p)
      let ?a = "if \<not> pa_allow p then Moving CONTINUE r X_FAILED (pa_evidence p) (if pa_reason p = [] then ''policy denied'' else pa_reason p)
        else Moving CONTINUE r X_POLICY_CHECKED (pa_evidence p) ''policy allowed''"
      have "run' = Running q ?a" "w' = called ?c w" using step Running AskingPolicy Inr by (auto simp: saga_step_def)
      moreover have "await_ok (sw_calls w @ [?c]) ?a" "await_record ?a = Some r"
        using created Inr by (auto simp: saga_edge_def saga_terminal_def justified_def)
      ultimately show ?thesis using called_run [OF w snap, of ?c ?a q] by (simp del: run_ok.simps(1) await_ok.simps)
    qed
  next
    case (Acting action state r)
    have snap: "snapshot_of (sw_calls w) (ss_get store (cq_id (cr_request r)) (sw_store w)) r"
      and aw: "await_ok (sw_calls w) (Acting action state r)"
      using run Running Acting by simp_all
    let ?c = "ActionCall action (cq_id (cr_request r)) (xi_step inp)"
    show ?thesis
    proof (cases "step_result (xi_step inp)")
      case (Inl e)
      have "run' = Running q (handle_failure r e)" "w' = called ?c w" using step Running Acting Inl by (auto simp: saga_step_def)
      then show ?thesis using called_run [OF w snap, of ?c "handle_failure r e" q] handle_failure_ok [OF acting_not_terminal [OF aw]] by (simp del: run_ok.simps(1))
    next
      case (Inr evidence)
      let ?a = "Moving CONTINUE r state evidence (''entered '' @ saga_text state)"
      have "run' = Running q ?a" "w' = called ?c w" using step Running Acting Inr by (auto simp: saga_step_def)
      then show ?thesis using called_run [OF w snap acting_ok [OF aw Inr], where q = q] by (simp del: run_ok.simps(1))
    qed
  next
    case (Reconciling r)
    have snap: "snapshot_of (sw_calls w) (ss_get store (cq_id (cr_request r)) (sw_store w)) r"
      and state: "cr_state r = X_DELIVERY_FINALIZED"
      using run Running Reconciling by simp_all
    let ?c = "ReconcileCall (cq_id (cr_request r)) (xi_reconcile inp)"
    have nt: "\<not> saga_terminal (cr_state r)" using state by (simp add: saga_terminal_def)
    show ?thesis
    proof (cases "xi_reconcile inp")
      case (Inl e)
      have "run' = Running q (handle_failure r e)" "w' = called ?c w" using step Running Reconciling Inl by (auto simp: saga_step_def)
      then show ?thesis using called_run [OF w snap, of ?c "handle_failure r e" q] handle_failure_ok [OF nt] by (simp del: run_ok.simps(1))
    next
      case (Inr p)
      let ?a = "Moving CONTINUE r (if fst p then X_RECONCILED else X_MANUAL_REVIEW) (snd p)
        (if fst p then ''reconciled'' else ''reconciliation mismatch'')"
      have "run' = Running q ?a" "w' = called ?c w" using step Running Reconciling Inr by (auto simp: saga_step_def split: prod.splits)
      moreover have "await_ok (sw_calls w @ [?c]) ?a" "await_record ?a = Some r"
        using state Inr by (cases p; auto simp: saga_edge_def saga_terminal_def justified_def)+
      ultimately show ?thesis using called_run [OF w snap, of ?c ?a q] by (simp del: run_ok.simps(1) await_ok.simps)
    qed
  next
    case (Cancelling cancelled uncertain r)
    have snap: "snapshot_of (sw_calls w) (ss_get store (cq_id (cr_request r)) (sw_store w)) r"
      and may: "reservation_may_exist (cr_state r)"
      using run Running Cancelling by simp_all
    let ?c = "ActionCall CANCEL_DELIVERY_RESERVATION (cq_id (cr_request r)) (xi_step inp)"
    have edges: "saga_edge (cr_state r) X_COMPENSATED" "saga_edge (cr_state r) X_MANUAL_REVIEW"
      using may reservation_not_terminal [OF may] by (auto simp: saga_edge_def reservation_may_exist_def)
    show ?thesis
    proof (cases "step_result (xi_step inp)")
      case (Inl e)
      let ?a = "Moving FINISH r X_MANUAL_REVIEW [] uncertain"
      have "run' = Running q ?a" "w' = called ?c w" using step Running Cancelling Inl by (auto simp: saga_step_def)
      then show ?thesis using called_run [OF w snap, of ?c ?a q] edges by (simp add: justified_def del: run_ok.simps(1))
    next
      case (Inr evidence)
      let ?a = "Moving (OR_REVIEW uncertain) r X_COMPENSATED evidence cancelled"
      have "run' = Running q ?a" "w' = called ?c w" using step Running Cancelling Inr by (auto simp: saga_step_def)
      moreover have "await_ok (sw_calls w @ [?c]) ?a" "await_record ?a = Some r"
        using edges may Inr by (auto simp: justified_def)
      ultimately show ?thesis using called_run [OF w snap, of ?c ?a q] by (simp del: run_ok.simps(1) await_ok.simps)
    qed
  next
    case (Moving after r state evidence reason)
    then show ?thesis using moving_step [OF w] run step Running by (simp add: saga_step_def del: run_ok.simps(1))
  qed
qed

definition system_ok :: "'s saga_system \<Rightarrow> bool" where
  "system_ok s \<longleftrightarrow> saga_world_ok store ok (sx_world s) \<and> (\<forall>run \<in> set (sx_runs s). run_in store (sx_world s) run)"

lemma reachable_ok:
  assumes "saga_reachable store sha init s" "ok init" "\<And>i. ss_get store i init = None"
  shows "system_ok s"
  using assms(1)
proof (induction rule: saga_reachable.induct)
  case saga_begin
  then show ?case using assms(2,3) by (simp add: system_ok_def saga_world_ok_def)
next
  case (saga_start s q)
  then show ?case by (auto simp: system_ok_def)
next
  case (saga_run s n inp run w)
  have mem: "sx_runs s ! n \<in> set (sx_runs s)" using saga_run.hyps(2) by simp
  have after: "saga_world_ok store ok w" "world_extends store (sx_world s) w" "run_in store w run"
    using saga_step_ok [OF _ _ saga_run.hyps(3)] saga_run.IH mem by (simp_all add: system_ok_def)
  have "run_in store w r" if r: "r \<in> set ((sx_runs s)[n := run])" for r
  proof (cases "r = run")
    case False
    then have "r \<in> set (sx_runs s)" using r set_update_subset_insert [of "sx_runs s" n run] by auto
    then show ?thesis using saga_run.IH by (intro run_extends [OF after(2)]) (simp add: system_ok_def)
  qed (use after(3) in simp)
  then show ?case using after(1) by (simp add: system_ok_def)
qed

end

end
