(* ===== verification/Cross_Properties.thy ===== *)
theory Cross_Properties
  imports Cross_Safety
begin

text \<open>
  The properties of the saga: what the history of a stored settlement says, that every run ends, that a
  run nobody disturbs completes, and two schedules in which the code does what its design rules out.
\<close>

section \<open>Paths\<close>

definition saga_stages :: "saga_state list" where
  "saga_stages = [X_CREATED, X_POLICY_CHECKED, X_DELIVERY_RESERVED, X_DELIVERY_RESERVATION_VERIFIED, X_PAYMENT_SUBMITTED,
     X_PAYMENT_FINALIZED, X_PAYMENT_ATTESTED, X_DELIVERY_RELEASED, X_DELIVERY_FINALIZED, X_RECONCILED, X_COMPLETED]"

fun saga_rank :: "saga_state \<Rightarrow> nat" where
  "saga_rank X_CREATED = 0"
| "saga_rank X_POLICY_CHECKED = 1"
| "saga_rank X_DELIVERY_RESERVED = 2"
| "saga_rank X_DELIVERY_RESERVATION_VERIFIED = 3"
| "saga_rank X_PAYMENT_SUBMITTED = 4"
| "saga_rank X_PAYMENT_FINALIZED = 5"
| "saga_rank X_PAYMENT_ATTESTED = 6"
| "saga_rank X_DELIVERY_RELEASED = 7"
| "saga_rank X_DELIVERY_FINALIZED = 8"
| "saga_rank X_RECONCILED = 9"
| "saga_rank X_COMPLETED = 10"
| "saga_rank _ = 11"

lemma stage_rank: "saga_rank s < 11 \<Longrightarrow> s = saga_stages ! saga_rank s"
  by (cases s) (simp_all add: saga_stages_def)

lemma edge_rank: "saga_edge a b \<Longrightarrow> saga_rank a < 10 \<and> (saga_rank b = Suc (saga_rank a) \<or> saga_rank b = 11)"
  by (cases a; cases b; simp add: saga_edge_def saga_terminal_def)

lemma edge_compensated: "saga_edge a X_COMPENSATED \<Longrightarrow> saga_rank a < 5"
  by (cases a) (simp_all add: saga_edge_def reservation_may_exist_def before_payment_finality_def)

lemma path_rank:
  assumes "successively saga_edge ss" "ss \<noteq> []" "hd ss = X_CREATED"
  shows "n < length ss \<Longrightarrow> saga_rank (ss ! n) = n \<or> saga_rank (ss ! n) = 11 \<and> Suc n = length ss"
proof (induction n)
  case 0
  then show ?case using assms(2,3) by (simp add: hd_conv_nth)
next
  case (Suc n)
  have edge: "saga_edge (ss ! n) (ss ! Suc n)" using assms(1) Suc.prems by (simp add: successively_conv_nth)
  then have "saga_rank (ss ! n) = n" using Suc.IH Suc.prems edge_rank [OF edge] by auto
  moreover have "Suc (Suc n) = length ss" if "saga_rank (ss ! Suc n) = 11"
  proof (rule ccontr)
    assume "Suc (Suc n) \<noteq> length ss"
    then have "saga_edge (ss ! Suc n) (ss ! Suc (Suc n))" using assms(1) Suc.prems by (simp add: successively_conv_nth)
    then show False using edge_rank that by fastforce
  qed
  ultimately show ?case using edge_rank [OF edge] by auto
qed

lemma path_completed:
  assumes "successively saga_edge ss" "ss \<noteq> []" "hd ss = X_CREATED" "last ss = X_COMPLETED"
  shows "ss = saga_stages"
proof (rule nth_equalityI)
  have "saga_rank (last ss) = length ss - 1"
    using path_rank [OF assms(1-3), of "length ss - 1"] assms(2,4) by (auto simp: last_conv_nth)
  then show len: "length ss = length saga_stages" using assms(2,4) by (cases ss) (simp_all add: saga_stages_def)
  fix n assume n: "n < length ss"
  have "saga_rank (ss ! n) = n"
  proof (cases "Suc n = length ss")
    case True
    then have "ss ! n = last ss" using assms(2) by (simp add: last_conv_nth flip: True)
    then show ?thesis using True len assms(4) by (simp add: saga_stages_def)
  qed (use path_rank [OF assms(1-3) n] in blast)
  moreover have "n < 11" using n len by (simp add: saga_stages_def)
  ultimately show "ss ! n = saga_stages ! n" using stage_rank [of "ss ! n"] by simp
qed

lemma path_compensated:
  assumes "successively saga_edge ss" "ss \<noteq> []" "hd ss = X_CREATED" "last ss = X_COMPENSATED"
  shows "X_PAYMENT_FINALIZED \<notin> set ss"
proof
  assume "X_PAYMENT_FINALIZED \<in> set ss"
  then obtain m where m: "m < length ss" "ss ! m = X_PAYMENT_FINALIZED" by (auto simp: in_set_conv_nth)
  then have "m = 5" using path_rank [OF assms(1-3), of m] by auto
  have "length ss \<noteq> 6" using m \<open>m = 5\<close> assms(2,4) by (auto simp: last_conv_nth)
  then have l: "7 \<le> length ss" using m \<open>m = 5\<close> by simp
  have last: "Suc (length ss - 2) = length ss - 1" "Suc (length ss - 2) < length ss" using l by simp_all
  have "saga_edge (ss ! (length ss - 2)) (ss ! Suc (length ss - 2))"
    using assms(1) last(2) unfolding successively_conv_nth by blast
  moreover note last(1)
  ultimately have "saga_rank (ss ! (length ss - 2)) < 5"
    using assms(2,4) by (intro edge_compensated) (simp add: last_conv_nth)
  moreover have "saga_rank (ss ! (length ss - 2)) = length ss - 2 \<or> Suc (length ss - 2) = length ss"
    using path_rank [OF assms(1-3), of "length ss - 2"] l by fastforce
  ultimately show False using l by auto
qed

section \<open>What the history says\<close>

definition empty_saga_db :: saga_db where
  "empty_saga_db = \<lparr>db_sagas = [], db_transitions = []\<rparr>"

lemma empty_saga_db_ok: "saga_db_ok empty_saga_db" "ss_get pg_saga_store i empty_saga_db = None"
  by (simp_all add: empty_saga_db_def saga_db_ok_def pg_saga_store_def pg_find_saga_def table_find_def)

lemma pg_history:
  assumes "saga_reachable pg_saga_store sha empty_saga_db s" "pg_find_saga i (sw_store (sx_world s)) = Some r"
  shows "saga_history (sw_calls (sx_world s)) r" "cq_id (cr_request r) = i"
proof -
  have w: "saga_world_ok pg_saga_store saga_db_ok (sx_world s)"
    using pg.reachable_ok [OF assms(1) empty_saga_db_ok] by (simp add: pg.system_ok_def)
  then show "saga_history (sw_calls (sx_world s)) r" using assms(2) by (simp add: saga_world_ok_def pg_saga_store_def)
  show "cq_id (cr_request r) = i" using w assms(2) by (intro pg.get_id) (simp_all add: saga_world_ok_def pg_saga_store_def)
qed

text \<open>
  C26. However runs interleave, the stored history of a settlement is unbroken; a completed one went
  through every stage, the policy allowed it, every action answered with evidence and the reconciliation
  matched; a compensated one was cancelled with evidence and never reached payment finality.
\<close>

theorem saga_history_sound:
  assumes "saga_reachable pg_saga_store sha empty_saga_db s" "pg_find_saga i (sw_store (sx_world s)) = Some r"
  shows "map ct_sequence (cr_transitions r) = map int [0..<length (cr_transitions r)]
    \<and> cr_version r + 1 = int (length (cr_transitions r)) \<and> last (saga_states r) = cr_state r
    \<and> successively saga_edge (saga_states r)
    \<and> (\<forall>t \<in> set (cr_transitions r). justified (sw_calls (sx_world s)) i (ct_state t) (ct_evidence t))
    \<and> (cr_state r = X_COMPLETED \<longrightarrow> saga_states r = saga_stages)
    \<and> (cr_state r = X_COMPENSATED \<longrightarrow> X_PAYMENT_FINALIZED \<notin> set (saga_states r))"
proof -
  have h: "saga_history (sw_calls (sx_world s)) r" "cq_id (cr_request r) = i" using pg_history [OF assms] .
  then have path: "successively saga_edge (saga_states r)" "saga_states r \<noteq> []" "hd (saga_states r) = X_CREATED"
    by (simp_all add: saga_history_def saga_states_def)
  show ?thesis using h path_completed [OF path] path_compensated [OF path] by (simp add: saga_history_def)
qed

section \<open>Every run ends\<close>

text \<open>A bound on the steps a run can still make, whatever the others do.\<close>

fun run_measure :: "saga_run \<Rightarrow> nat" where
  "run_measure (Ended _) = 0"
| "run_measure (Running _ Starting) = 39"
| "run_measure (Running _ (Creating _)) = 38"
| "run_measure (Running _ (Looping r)) = 4 + 3 * (11 - saga_rank (cr_state r))"
| "run_measure (Running _ (AskingPolicy r)) = 3 + 3 * (11 - saga_rank (cr_state r))"
| "run_measure (Running _ (Acting _ _ r)) = 3 + 3 * (11 - saga_rank (cr_state r))"
| "run_measure (Running _ (Reconciling r)) = 3 + 3 * (11 - saga_rank (cr_state r))"
| "run_measure (Running _ (Cancelling _ _ _)) = 3"
| "run_measure (Running _ (Moving after r _ _ _)) =
     (case after of CONTINUE \<Rightarrow> 2 + 3 * (11 - saga_rank (cr_state r)) | OR_REVIEW _ \<Rightarrow> 2 | FINISH \<Rightarrow> 1)"

lemma rank_nonterminal: "\<not> saga_terminal s \<Longrightarrow> saga_rank s < 10"
  by (cases s) (simp_all add: saga_terminal_def)

lemma handle_failure_measure: "run_measure (Running q (handle_failure r e)) \<le> 3"
  by (simp add: handle_failure_def Let_def)

lemma expire_measure: "run_measure (Running q (expire_or_compensate r)) \<le> 3"
  by (simp add: expire_or_compensate_def)

lemma advance_measure:
  "\<not> saga_terminal (cr_state r) \<Longrightarrow> run_measure (Running q (saga_advance r)) < run_measure (Running q (Looping r))"
  by (cases "cr_state r") (simp_all add: saga_advance_def saga_terminal_def)

lemma after_get_measure: "run_measure (after_get r q) \<le> 37"
  by (simp add: after_get_def)

context saga_storage
begin

lemma transition_state:
  assumes "saga_world_ok store ok w" "ss_transition store i v t (sw_store w) = (Inr r', s)" "ct_sequence t = v + 1"
  shows "cr_state r' = ct_state t"
proof -
  have okw: "ok (sw_store w)" using assms(1) by (simp add: saga_world_ok_def)
  show ?thesis
  proof (cases "\<exists>r. ss_get store i (sw_store w) = Some r \<and> cr_version r = v")
    case True
    then obtain r where "ss_get store i (sw_store w) = Some r" "cr_version r = v" by blast
    then show ?thesis using transition_current [OF okw, of i r v t] assms(2,3) by (auto simp: next_cross_record_def)
  next
    case False
    then show ?thesis using transition_refused [OF okw, of i v t] assms(2) by auto
  qed
qed

lemma move_measure:
  assumes w: "saga_world_ok store ok w" and edge: "saga_edge (cr_state r) state"
    and step: "saga_move store now q after r state evidence reason w = (run', w')"
  shows "run_measure run' < run_measure (Running q (Moving after r state evidence reason))"
proof -
  have rank: "saga_rank (cr_state r) < 10" using edge_rank [OF edge] by simp
  have fail: "run_measure (Running q (handle_failure r e)) < 2 + 3 * (11 - saga_rank (cr_state r))" for e
    using handle_failure_measure [of q r e] rank by simp
  show ?thesis
  proof (cases now)
    case None
    then show ?thesis using step fail by (cases after) (auto simp: saga_move_def Let_def)
  next
    case (Some t)
    let ?t = "\<lparr>ct_sequence = cr_version r + 1, ct_state = state, ct_occurredAt = to_iso_string t,
      ct_evidence = evidence, ct_reason = reason\<rparr>"
    obtain res s where trans: "ss_transition store (cq_id (cr_request r)) (cr_version r) ?t (sw_store w) = (res, s)" by fastforce
    show ?thesis
    proof (cases "after = CONTINUE")
      case True
      show ?thesis
      proof (cases res)
        case (Inl e)
        then show ?thesis using step Some trans True fail by (auto simp: saga_move_def Let_def)
      next
        case (Inr r')
        have "cr_state r' = state" using transition_state [OF w] trans Inr by fastforce
        then show ?thesis using step Some trans True Inr edge_rank [OF edge] by (auto simp: saga_move_def Let_def)
      qed
    next
      case False
      then show ?thesis using step Some trans by (cases after; cases res) (auto simp: saga_move_def Let_def)
    qed
  qed
qed

lemma step_measure:
  assumes w: "saga_world_ok store ok w" and run: "run_in store w (Running q await)"
    and step: "saga_step store sha inp (Running q await) w = (run', w')"
  shows "run_measure run' < run_measure (Running q await)"
proof (cases await)
  case Starting
  show ?thesis
  proof (cases "bind_result (validate_cross q) (\<lambda>_. request_fingerprint sha (cross_request_json q))")
    case (Inl e)
    then show ?thesis using step Starting by (auto simp: saga_step_def)
  next
    case (Inr hash)
    show ?thesis
    proof (cases "ss_get store (cq_id q) (sw_store w)")
      case None
      then show ?thesis using step Starting Inr by (auto simp: saga_step_def)
    next
      case (Some r)
      then show ?thesis using step Starting Inr after_get_measure [of r q]
        by (cases "cr_requestHash r = hash") (auto simp: saga_step_def)
    qed
  qed
next
  case (Creating hash)
  then have "run_measure run' \<le> 37"
    using step after_get_measure by (auto simp: saga_step_def Let_def split: prod.splits sum.splits)
  then show ?thesis using Creating by simp
next
  case (Looping r)
  have "run_measure run' < run_measure (Running q (Looping r))"
  proof (cases "saga_terminal (cr_state r)")
    case False
    show ?thesis
    proof (cases "date_reached (xi_now inp) (cq_expiresAt q)")
      case True
      then have "run' = Running q (expire_or_compensate r)" using step Looping False by (auto simp: saga_step_def)
      then show ?thesis using expire_measure [of q r] by simp
    next
      case F2: False
      then have "run' = Running q (saga_advance r)" using step Looping False by (auto simp: saga_step_def)
      then show ?thesis using advance_measure [OF False] by simp
    qed
  qed (use step Looping in \<open>auto simp: saga_step_def\<close>)
  then show ?thesis using Looping by simp
next
  case (AskingPolicy r)
  then have rank: "saga_rank (cr_state r) = 0" using run by simp
  show ?thesis
  proof (cases "xi_policy inp")
    case (Inl e)
    then have "run' = Running q (handle_failure r e)" using step AskingPolicy by (auto simp: saga_step_def)
    then show ?thesis using handle_failure_measure [of q r e] AskingPolicy rank by simp
  qed (use step AskingPolicy rank in \<open>auto simp: saga_step_def split: if_splits\<close>)
next
  case (Acting action state r)
  have "await_ok (sw_calls w) (Acting action state r)" using run Acting by simp
  then have "\<not> saga_terminal (cr_state r)" by (rule acting_not_terminal)
  then have rank: "saga_rank (cr_state r) < 10" by (rule rank_nonterminal)
  show ?thesis
  proof (cases "step_result (xi_step inp)")
    case (Inl e)
    then have "run' = Running q (handle_failure r e)" using step Acting by (auto simp: saga_step_def)
    then show ?thesis using handle_failure_measure [of q r e] Acting rank by simp
  qed (use step Acting rank in \<open>auto simp: saga_step_def\<close>)
next
  case (Reconciling r)
  then have rank: "saga_rank (cr_state r) = 8" using run by simp
  show ?thesis
  proof (cases "xi_reconcile inp")
    case (Inl e)
    then have "run' = Running q (handle_failure r e)" using step Reconciling by (auto simp: saga_step_def)
    then show ?thesis using handle_failure_measure [of q r e] Reconciling rank by simp
  qed (use step Reconciling rank in \<open>auto simp: saga_step_def split: prod.splits\<close>)
next
  case (Cancelling cancelled uncertain r)
  then show ?thesis using step by (auto simp: saga_step_def split: sum.splits)
next
  case (Moving after r state evidence reason)
  then show ?thesis using move_measure [OF w, of r state] run step by (auto simp: saga_step_def)
qed

lemma loop_ends:
  assumes "saga_world_ok store ok w" "run_in store w run" "run_measure run \<le> fuel"
  shows "\<exists>res w'. saga_loop fuel store sha inputs n run w = (Some res, w')"
  using assms
proof (induction fuel arbitrary: n run w)
  case 0
  have "\<exists>res. run = Ended res"
  proof (cases run)
    case (Running q a)
    then show ?thesis using 0(3) by (cases a) (auto split: after_move.splits)
  qed simp
  then show ?case by auto
next
  case (Suc fuel)
  show ?case
  proof (cases run)
    case (Running q a)
    obtain run' w' where step: "saga_step store sha (inputs n) run w = (run', w')" by fastforce
    have "run_measure run' < run_measure run" using step_measure [OF Suc.prems(1)] Suc.prems(2) step Running by blast
    then show ?thesis
      using Suc.IH [of w' run' "Suc n"] saga_step_ok [OF Suc.prems(1,2) step] Suc.prems(3) step Running by simp
  qed simp
qed

end

text \<open>
  A call of \<open>execute\<close> returns whatever the policy, the actions, the clock and the other runs did
  before it: at most 39 steps are left, and each step of a run brings it nearer to its end.
\<close>

lemma saga_execute_ends:
  assumes "saga_reachable pg_saga_store sha empty_saga_db s"
  shows "\<exists>res w. saga_execute pg_saga_store sha inputs q (sx_world s) = (Some res, w)"
proof -
  have "saga_world_ok pg_saga_store saga_db_ok (sx_world s)"
    using pg.reachable_ok [OF assms empty_saga_db_ok] by (simp add: pg.system_ok_def)
  then show ?thesis unfolding saga_execute_def by (rule pg.loop_ends) simp_all
qed

section \<open>A run nobody disturbs completes\<close>

definition good_input :: "cross_request \<Rightarrow> saga_input \<Rightarrow> bool" where
  "good_input q inp \<longleftrightarrow> (\<exists>t. xi_now inp = Some t \<and> \<not> reached t (cq_expiresAt q))
     \<and> (\<exists>a. xi_policy inp = Inr a \<and> pa_allow a) \<and> (\<exists>evidence. step_result (xi_step inp) = Inr evidence)
     \<and> (\<exists>evidence. xi_reconcile inp = Inr (True, evidence))"

lemma good_inputE:
  assumes "good_input q inp"
  obtains t a ev rev where "xi_now inp = Some t" "\<not> date_reached (xi_now inp) (cq_expiresAt q)" "xi_policy inp = Inr a" "pa_allow a"
    "step_result (xi_step inp) = Inr ev" "xi_reconcile inp = Inr (True, rev)"
  using assms by (auto simp: good_input_def date_reached_def)

text \<open>The move the loop makes next when everything goes well.\<close>

lemma good_advance:
  assumes "good_input q inp" "\<not> saga_terminal (cr_state r)" "cr_state r \<noteq> X_RECONCILED" "saga_next (cr_state r) = Some state"
  shows "\<exists>evidence reason c. saga_step store sha inp (Running q (saga_advance r)) w =
    (Running q (Moving CONTINUE r state evidence reason), called c w)"
proof -
  obtain t a ev rev where good: "xi_policy inp = Inr a" "pa_allow a" "step_result (xi_step inp) = Inr ev" "xi_reconcile inp = Inr (True, rev)"
    using assms(1) by (rule good_inputE)
  show ?thesis using assms(2-4) good
    by (cases "cr_state r") (auto simp: saga_step_def saga_advance_def saga_terminal_def)
qed

context saga_storage
begin

lemma good_move:
  assumes get: "ok (sw_store w)" "ss_get store (cq_id (cr_request r)) (sw_store w) = Some r" and now: "now = Some t"
  shows "\<exists>r' s'. saga_move store now q CONTINUE r state evidence reason w = (Running q (Looping r'), w\<lparr>sw_store := s'\<rparr>)
    \<and> ok s' \<and> cr_state r' = state \<and> ss_get store (cq_id (cr_request r')) s' = Some r'"
proof -
  let ?t = "\<lparr>ct_sequence = cr_version r + 1, ct_state = state, ct_occurredAt = to_iso_string t,
    ct_evidence = evidence, ct_reason = reason\<rparr>"
  obtain s' where "ss_transition store (cq_id (cr_request r)) (cr_version r) ?t (sw_store w) = (Inr (next_cross_record r (cr_version r) ?t), s')"
    "ok s'" "ss_get store (cq_id (cr_request r)) s' = Some (next_cross_record r (cr_version r) ?t)"
    using transition_current [OF get refl, of ?t] by auto
  moreover have "cr_request (next_cross_record r (cr_version r) ?t) = cr_request r"
    "cr_state (next_cross_record r (cr_version r) ?t) = state"
    by (simp_all add: next_cross_record_def)
  ultimately show ?thesis using now
    by (intro exI [of _ "next_cross_record r (cr_version r) ?t"] exI [of _ s']) (simp add: saga_move_def Let_def)
qed

lemma good_loop:
  assumes "\<And>k. good_input q (inputs k)" "ok (sw_store w)" "ss_get store (cq_id (cr_request r)) (sw_store w) = Some r"
    and "saga_rank (cr_state r) + m = 10" "3 * m + 1 \<le> fuel"
  shows "\<exists>r' w'. saga_loop fuel store sha inputs n (Running q (Looping r)) w = (Some (Inr r'), w') \<and> cr_state r' = X_COMPLETED"
  using assms(2-5)
proof (induction m arbitrary: r w n fuel)
  case 0
  have "cr_state r = X_COMPLETED" using 0(3) by (cases "cr_state r") simp_all
  moreover obtain f where "fuel = Suc f" using 0(4) by (cases fuel) simp_all
  ultimately show ?case by (cases f) (simp_all add: saga_step_def saga_terminal_def)
next
  case (Suc m)
  have nt: "\<not> saga_terminal (cr_state r)" using Suc.prems(3) by (cases "cr_state r") (simp_all add: saga_terminal_def)
  then obtain state where state: "saga_next (cr_state r) = Some state" by (cases "cr_state r") (simp_all add: saga_terminal_def)
  have rank: "saga_rank state = Suc (saga_rank (cr_state r))" using state by (cases "cr_state r") auto
  have "fuel = Suc (Suc (Suc (fuel - 3))) \<and> 3 * m + 1 \<le> fuel - 3" using Suc.prems(4) by arith
  then obtain f where f: "fuel = Suc (Suc (Suc f))" "3 * m + 1 \<le> f" by blast
  have one: "saga_step store sha (inputs n) (Running q (Looping r)) w = (Running q (saga_advance r), w)" for n
    using assms(1) [of n] nt by (auto simp: saga_step_def elim: good_inputE)
  show ?case
  proof (cases "cr_state r = X_RECONCILED")
    case True
    have adv: "saga_advance r = Moving CONTINUE r X_COMPLETED [] ''saga completed''" using True by (simp add: saga_advance_def)
    obtain t where "xi_now (inputs (Suc n)) = Some t" using assms(1) by (blast elim: good_inputE)
    from good_move [OF Suc.prems(1,2) this, of q X_COMPLETED "[]" "''saga completed''"]
    obtain r' s' where move: "saga_step store sha (inputs (Suc n)) (Running q (saga_advance r)) w = (Running q (Looping r'), w\<lparr>sw_store := s'\<rparr>)"
      "ok s'" "cr_state r' = X_COMPLETED" "ss_get store (cq_id (cr_request r')) s' = Some r'"
      by (auto simp: adv saga_step_def)
    have "m = 0" using Suc.prems(3) True by simp
    then show ?thesis
      using Suc.IH [of "w\<lparr>sw_store := s'\<rparr>" r' "Suc f" "Suc (Suc n)"] move one f by simp
  next
    case False
    obtain evidence reason c where two: "saga_step store sha (inputs (Suc n)) (Running q (saga_advance r)) w =
        (Running q (Moving CONTINUE r state evidence reason), called c w)"
      using good_advance [OF assms(1) nt False state] by blast
    obtain t where "xi_now (inputs (Suc (Suc n))) = Some t" using assms(1) by (blast elim: good_inputE)
    moreover have "ok (sw_store (called c w))" "ss_get store (cq_id (cr_request r)) (sw_store (called c w)) = Some r"
      using Suc.prems(1,2) by (simp_all add: called_def)
    ultimately have "\<exists>r' s'. saga_move store (xi_now (inputs (Suc (Suc n)))) q CONTINUE r state evidence reason (called c w) =
        (Running q (Looping r'), (called c w)\<lparr>sw_store := s'\<rparr>) \<and> ok s' \<and> cr_state r' = state \<and> ss_get store (cq_id (cr_request r')) s' = Some r'"
      by (intro good_move)
    then
    obtain r' s' where three: "saga_step store sha (inputs (Suc (Suc n))) (Running q (Moving CONTINUE r state evidence reason)) (called c w) =
        (Running q (Looping r'), (called c w)\<lparr>sw_store := s'\<rparr>)"
      "ok s'" "cr_state r' = state" "ss_get store (cq_id (cr_request r')) s' = Some r'"
      by (auto simp: saga_step_def)
    then show ?thesis
      using Suc.IH [of "(called c w)\<lparr>sw_store := s'\<rparr>" r' f "Suc (Suc (Suc n))"] one two f rank Suc.prems(3)
      by simp
  qed
qed

lemma good_execute:
  assumes "\<And>k. good_input q (inputs k)" "ok (sw_store w)" "ss_get store (cq_id q) (sw_store w) = None"
    and "validate_cross q = Inr ()" "request_fingerprint sha (cross_request_json q) = Inr hash"
  shows "\<exists>r w'. saga_execute store sha inputs q w = (Some (Inr r), w') \<and> cr_state r = X_COMPLETED"
proof -
  let ?t = "\<lparr>ct_sequence = 0, ct_state = X_CREATED, ct_occurredAt = cq_createdAt q, ct_evidence = [], ct_reason = ''saga created''\<rparr>"
  let ?r = "new_cross_record q hash ?t"
  obtain s where s: "ss_create store q hash ?t (sw_store w) = (Inr ?r, s)" "ok s" "ss_get store (cq_id q) s = Some ?r"
    using create_fresh [OF assms(2,3), of hash ?t] by auto
  have one: "saga_step store sha (inputs 0) (Running q Starting) w = (Running q (Creating hash), w)"
    using assms(3-5) by (simp add: saga_step_def)
  have two: "saga_step store sha (inputs 1) (Running q (Creating hash)) w = (Running q (Looping ?r), w\<lparr>sw_store := s\<rparr>)"
    using s by (simp add: saga_step_def after_get_def saga_terminal_def new_cross_record_def)
  have "\<exists>r w'. saga_loop 38 store sha inputs 2 (Running q (Looping ?r)) (w\<lparr>sw_store := s\<rparr>) = (Some (Inr r), w') \<and> cr_state r = X_COMPLETED"
    by (rule good_loop [OF assms(1), where m = 10]) (use s in \<open>simp_all add: new_cross_record_def\<close>)
  moreover have "saga_loop (Suc (Suc n)) store sha inputs 0 (Running q Starting) w =
      saga_loop n store sha inputs 2 (Running q (Looping ?r)) (w\<lparr>sw_store := s\<rparr>)" for n
    using one two by (simp add: numeral_2_eq_2)
  from this [of 38] have "saga_execute store sha inputs q w =
      saga_loop 38 store sha inputs 2 (Running q (Looping ?r)) (w\<lparr>sw_store := s\<rparr>)"
    by (simp add: saga_execute_def)
  ultimately show ?thesis by simp
qed

end

text \<open>
  C27. A valid new settlement completes in one call of \<open>execute\<close> if the policy allows it, every action
  answers with evidence, the reconciliation matches and the clock stays before the expiry.
\<close>

theorem saga_completes:
  assumes "saga_reachable pg_saga_store sha empty_saga_db s" "pg_find_saga (cq_id q) (sw_store (sx_world s)) = None"
    and "validate_cross q = Inr ()" "request_fingerprint sha (cross_request_json q) = Inr hash" "\<And>k. good_input q (inputs k)"
  shows "\<exists>r w. saga_execute pg_saga_store sha inputs q (sx_world s) = (Some (Inr r), w) \<and> cr_state r = X_COMPLETED"
proof (rule pg.good_execute [OF assms(5) _ _ assms(3,4)])
  show "saga_db_ok (sw_store (sx_world s))"
    using pg.reachable_ok [OF assms(1) empty_saga_db_ok] by (simp add: pg.system_ok_def saga_world_ok_def)
qed (use assms(2) in \<open>simp add: pg_saga_store_def\<close>)

section \<open>Schedules\<close>

text \<open>A schedule names the run that makes each step and what the outside answers it.\<close>

definition saga_launch :: "cross_request \<Rightarrow> 's saga_system \<Rightarrow> 's saga_system" where
  "saga_launch q s = s\<lparr>sx_runs := sx_runs s @ [Running q Starting]\<rparr>"

fun saga_play :: "'s saga_store \<Rightarrow> sha256 \<Rightarrow> (nat \<times> saga_input) list \<Rightarrow> 's saga_system \<Rightarrow> 's saga_system" where
  "saga_play store sha [] s = s"
| "saga_play store sha ((n, inp) # rest) s =
     (if n < length (sx_runs s)
      then case saga_step store sha inp (sx_runs s ! n) (sx_world s) of
        (run, w) \<Rightarrow> saga_play store sha rest (s\<lparr>sx_world := w, sx_runs := (sx_runs s)[n := run]\<rparr>)
      else s)"

lemma launch_reachable: "saga_reachable store sha init s \<Longrightarrow> saga_reachable store sha init (saga_launch q s)"
  unfolding saga_launch_def by (rule saga_start)

lemma play_reachable: "saga_reachable store sha init s \<Longrightarrow> saga_reachable store sha init (saga_play store sha plan s)"
proof (induction store sha plan s rule: saga_play.induct)
  case (2 store sha n inp rest s)
  obtain run w where "saga_step store sha inp (sx_runs s ! n) (sx_world s) = (run, w)" by fastforce
  then show ?case using 2 saga_run [OF 2(2)] by simp
qed simp

definition sample_leg :: "string \<Rightarrow> string \<Rightarrow> string \<Rightarrow> cross_leg" where
  "sample_leg network sender receiver = \<lparr>cl_assetId = ''IW:ASSET:a'', cl_networkId = network, cl_sender = sender,
     cl_receiver = receiver, cl_amount = ''1''\<rparr>"

definition sample_saga :: cross_request where
  "sample_saga = \<lparr>cq_id = ''IW:SETTLEMENT:x'', cq_idempotencyKey = ''x'', cq_delivery = sample_leg ''IW:NETWORK:c'' ''s'' ''b'',
     cq_payment = sample_leg ''IW:NETWORK:e'' ''b'' ''s'', cq_policyVersion = ''1'', cq_createdAt = ''1970-01-01'',
     cq_expiresAt = ''1970-01-02''\<rparr>"

definition step_answer :: step_evidence where
  "step_answer = \<lparr>sv_transactionId = ''t'', sv_position = ''p'', sv_evidence = [''e''], sv_observedAt = ''1970-01-01''\<rparr>"

definition happy :: saga_input where
  "happy = \<lparr>xi_now = Some 0, xi_policy = Inr \<lparr>pa_allow = True, pa_evidence = [], pa_reason = []\<rparr>,
     xi_step = Inr step_answer, xi_reconcile = Inr (True, [])\<rparr>"

lemma happy_facts:
  "validate_cross sample_saga = Inr ()" "\<not> date_reached (Some 0) (cq_expiresAt sample_saga)" "validate_evidence step_answer = Inr ()"
  by code_simp+

lemma sample_saga_hash: "request_fingerprint (\<lambda>_. []) (cross_request_json sample_saga) = Inr ''sha256:''"
proof -
  have "proper_json (cross_request_json sample_saga)"
    by (simp add: cross_request_json_def cross_leg_json_def sample_saga_def sample_leg_def)
  then show ?thesis by (simp add: request_fingerprint_def canonical_proper)
qed

definition first_run :: "saga_db saga_system" where
  "first_run = saga_launch sample_saga \<lparr>sx_world = \<lparr>sw_store = empty_saga_db, sw_calls = []\<rparr>, sx_runs = []\<rparr>"

lemma first_run_reachable: "saga_reachable pg_saga_store sha empty_saga_db first_run"
  unfolding first_run_def by (rule launch_reachable) (rule saga_begin)

lemmas play_defs = saga_step_def saga_move_def saga_advance_def after_get_def called_def step_result_def happy_def
  pg_saga_store_def pg_create_saga_def pg_transition_saga_def pg_insert_transition_def pg_find_saga_def table_find_def
  new_cross_record_def next_cross_record_def transaction_def and_then_def Let_def saga_terminal_def handle_failure_def
  reservation_may_exist_def before_payment_finality_def

lemmas happy_play = play_defs happy_facts [unfolded happy_def] sample_saga_hash numeral_eq_Suc first_run_def saga_launch_def
  empty_saga_db_def

text \<open>
  A second run that loads the settlement while the first goes on loses its transition to the version
  check, takes that for a failure of the saga and cancels the delivery reservation of the running first.
\<close>

definition contended :: "saga_db saga_system" where
  "contended = saga_play pg_saga_store (\<lambda>_. []) (replicate 9 (0, happy) @ replicate 3 (1, happy) @ replicate 14 (0, happy))
     (saga_play pg_saga_store (\<lambda>_. []) (replicate 2 (1, happy))
       (saga_launch sample_saga (saga_play pg_saga_store (\<lambda>_. []) (replicate 8 (0, happy)) first_run)))"

text \<open>What is looked at in the last world of this schedule.\<close>

definition cancelled_though_completed :: "saga_db saga_world \<Rightarrow> bool" where
  "cancelled_though_completed w \<longleftrightarrow>
     map (\<lambda>r. (cr_state r, cq_id (cr_request r))) (db_sagas (sw_store w)) = [(X_COMPLETED, cq_id sample_saga)]
     \<and> ActionCall CANCEL_DELIVERY_RESERVATION (cq_id sample_saga) (Inr step_answer) \<in> set (sw_calls w)"

lemma contended_world: "cancelled_though_completed (sx_world contended)"
  by (simp add: contended_def happy_play) (simp add: cancelled_though_completed_def happy_play)

lemma stale_run_cancels:
  "saga_reachable pg_saga_store (\<lambda>_. []) empty_saga_db contended
   \<and> map cr_state (db_sagas (sw_store (sx_world contended))) = [X_COMPLETED]
   \<and> ActionCall CANCEL_DELIVERY_RESERVATION (cq_id sample_saga) (Inr step_answer) \<in> set (sw_calls (sx_world contended))"
proof (intro conjI)
  show "saga_reachable pg_saga_store (\<lambda>_. []) empty_saga_db contended"
    unfolding contended_def by (intro play_reachable launch_reachable first_run_reachable)
qed (use contended_world in \<open>auto simp: cancelled_though_completed_def\<close>)

text \<open>
  A reservation whose answer is not accepted as evidence may exist, but the saga, still in the state
  before it, fails without cancelling it.
\<close>

definition unproven :: saga_input where
  "unproven = happy\<lparr>xi_step := Inr (step_answer\<lparr>sv_position := []\<rparr>)\<rparr>"

definition leaked :: "saga_db saga_system" where
  "leaked = saga_play pg_saga_store (\<lambda>_. []) (replicate 6 (0, happy) @ [(0, unproven), (0, happy)]) first_run"

lemma reservation_leaked:
  "saga_reachable pg_saga_store (\<lambda>_. []) empty_saga_db leaked
   \<and> map cr_state (db_sagas (sw_store (sx_world leaked))) = [X_FAILED]
   \<and> filter (\<lambda>c. \<exists>action i v. c = ActionCall action i (Inr v)) (sw_calls (sx_world leaked)) =
       [ActionCall RESERVE_DELIVERY (cq_id sample_saga) (Inr (step_answer\<lparr>sv_position := []\<rparr>))]"
proof (intro conjI)
  show "saga_reachable pg_saga_store (\<lambda>_. []) empty_saga_db leaked"
    unfolding leaked_def by (intro play_reachable launch_reachable first_run_reachable)
qed (simp_all add: leaked_def unproven_def happy_play validate_evidence_def [of "step_answer\<lparr>sv_position := _\<rparr>"])

section \<open>Witnesses\<close>

lemma happy_good: "good_input sample_saga happy"
proof -
  have "\<not> reached 0 (cq_expiresAt sample_saga)" using happy_facts(2) by (simp add: date_reached_def)
  then show ?thesis by (simp add: good_input_def happy_def step_result_def happy_facts)
qed

definition start_system :: "saga_db saga_system" where
  "start_system = \<lparr>sx_world = \<lparr>sw_store = empty_saga_db, sw_calls = []\<rparr>, sx_runs = []\<rparr>"

lemma start_reachable: "saga_reachable pg_saga_store sha empty_saga_db start_system"
  unfolding start_system_def by (rule saga_begin)

theorem saga_completes_witness:
  "\<exists>r w. saga_execute pg_saga_store (\<lambda>_. []) (\<lambda>_. happy) sample_saga (sx_world start_system) = (Some (Inr r), w)
     \<and> cr_state r = X_COMPLETED"
proof (rule saga_completes [OF start_reachable _ happy_facts(1) sample_saga_hash happy_good])
  show "pg_find_saga (cq_id sample_saga) (sw_store (sx_world start_system)) = None"
    by (simp add: start_system_def empty_saga_db_def pg_find_saga_def table_find_def)
qed

theorem saga_history_sound_witness:
  "\<exists>r. pg_find_saga (cq_id sample_saga) (sw_store (sx_world contended)) = Some r \<and> saga_states r = saga_stages"
proof -
  have "\<exists>r. pg_find_saga (cq_id sample_saga) (sw_store (sx_world contended)) = Some r \<and> cr_state r = X_COMPLETED"
    using contended_world by (auto simp: cancelled_though_completed_def pg_find_saga_def table_find_def map_eq_Cons_conv)
  then obtain r where r: "pg_find_saga (cq_id sample_saga) (sw_store (sx_world contended)) = Some r" "cr_state r = X_COMPLETED" by blast
  have "saga_states r = saga_stages"
    using saga_history_sound [OF _ r(1)] stale_run_cancels r(2) by blast
  then show ?thesis using r(1) by blast
qed

end
