(* ===== verification/Evm_Adapter.thy ===== *)
theory Evm_Adapter
  imports Invariants
begin

text \<open>
  The EVM adapter and the ERC-20 adapter of packages/core/src/evm-adapter.ts. The transport and the
  gateway are outside the program: records of the answers they give at the time of a call. The client
  keeps the connection it made; a \<open>bigint\<close> is an integer, a hex string a string.
\<close>

record evm_connection =
  ec_chainId :: string
  ec_clientVersion :: string
  ec_connectedAt :: iso_timestamp

datatype evm_health_status = EVM_HEALTHY | EVM_DEGRADED | EVM_UNAVAILABLE

record evm_health =
  eh_status :: evm_health_status
  eh_chainId :: "string option"
  eh_latestBlock :: "int option"
  eh_checkedAt :: iso_timestamp
  eh_details :: string_record

datatype evm_block_tag = LATEST | SAFE | FINALIZED_BLOCK | PENDING | EARLIEST | BlockNumber int | BlockHash string

record evm_block =
  eb_hash :: string
  eb_number :: int
  eb_parentHash :: string
  eb_timestamp :: int
  eb_transactionHashes :: "string list"

record evm_transaction =
  et_hash :: string
  et_chainId :: "string option"
  et_from :: string
  et_to :: "string option"
  et_nonce :: int
  et_value :: int
  et_input :: string
  et_blockNumber :: "int option"

record evm_log =
  el_address :: string
  el_topics :: "string list"
  el_data :: string
  el_blockNumber :: int
  el_blockHash :: string
  el_transactionHash :: string
  el_logIndex :: int
  el_removed :: bool

datatype evm_receipt_status = RECEIPT_SUCCESS | RECEIPT_REVERTED

record evm_receipt =
  er_transactionHash :: string
  er_blockHash :: string
  er_blockNumber :: int
  er_from :: string
  er_to :: "string option"
  er_status :: evm_receipt_status
  er_logs :: "evm_log list"

record evm_call =
  ev_from :: "string option"
  ev_to :: string
  ev_data :: string
  ev_value :: "int option"

record prepared_evm_transaction = evm_call +
  pe_chainId :: string
  pe_nonce :: "int option"
  pe_gasLimit :: "int option"
  pe_maxFeePerGas :: "int option"
  pe_maxPriorityFeePerGas :: "int option"

record parsed_evm_event =
  px_name :: string
  px_signature :: string
  px_address :: string
  px_arguments :: string_record
  px_log :: evm_log

record evm_confirmation =
  ef_receipt :: evm_receipt
  ef_confirmations :: int
  ef_observedHead :: int
  ef_observedAt :: iso_timestamp

datatype evm_finality_kind = FINALIZED_TAG | CONFIRMATIONS

record evm_finality =
  fy_receipt :: evm_receipt
  fy_kind :: evm_finality_kind
  fy_observedBlock :: int
  fy_requiredConfirmations :: "js_number option"
  fy_observedAt :: iso_timestamp

datatype finality_request = WaitForTag | WaitForConfirmations js_number

record evm_transport =
  tp_connect :: "evm_connection result"
  tp_health :: "evm_health result"
  tp_getChainId :: "string result"
  tp_getBlock :: "evm_block_tag \<Rightarrow> evm_block option result"
  tp_getTransaction :: "string \<Rightarrow> evm_transaction option result"
  tp_getReceipt :: "string \<Rightarrow> evm_receipt option result"
  tp_getBalance :: "string \<Rightarrow> evm_block_tag option \<Rightarrow> int result"
  tp_callContract :: "evm_call \<Rightarrow> evm_block_tag option \<Rightarrow> string result"
  tp_estimateAndPrepare :: "prepared_evm_transaction \<Rightarrow> prepared_evm_transaction result"
  tp_submitTransaction :: "prepared_evm_transaction \<Rightarrow> string result"
  tp_waitForConfirmation :: "string \<Rightarrow> js_number \<Rightarrow> evm_confirmation result"
  tp_waitForFinalizedTag :: "string \<Rightarrow> evm_finality result"

section \<open>Checks\<close>

definition hex_digit_char :: "char \<Rightarrow> bool" where
  "hex_digit_char c \<longleftrightarrow> (let n = of_char c :: nat in 48 \<le> n \<and> n \<le> 57 \<or> 97 \<le> n \<and> n \<le> 102 \<or> 65 \<le> n \<and> n \<le> 70)"

text \<open>\<open>/^0x[0-9a-fA-F]{40}$/\<close> and \<open>/^[1-9][0-9]*$/\<close>\<close>

definition evm_address_text :: "string \<Rightarrow> bool" where
  "evm_address_text s \<longleftrightarrow> take 2 s = ''0x'' \<and> length s = 42 \<and> list_all hex_digit_char (drop 2 s)"

definition assert_evm_address :: "string \<Rightarrow> unit result" where
  "assert_evm_address address =
     (if \<not> evm_address_text address then Inl (Error (''invalid EVM address: '' @ address)) else Inr ())"

definition chain_id_text :: "string \<Rightarrow> bool" where
  "chain_id_text s \<longleftrightarrow> s \<noteq> [] \<and> list_all is_digit s \<and> hd s \<noteq> CHR ''0''"

definition assert_chain_id :: "string \<Rightarrow> unit result" where
  "assert_chain_id chainId =
     (if \<not> chain_id_text chainId then Inl (Error (''invalid EVM chain ID: '' @ chainId)) else Inr ())"

section \<open>The client\<close>

record evm_client =
  cc_expectedChainId :: string
  cc_connection :: "evm_connection option"

definition new_evm_client :: "string \<Rightarrow> evm_client result" where
  "new_evm_client expected =
     bind_result (assert_chain_id expected) (\<lambda>_. Inr \<lparr>cc_expectedChainId = expected, cc_connection = None\<rparr>)"

definition evm_connect :: "evm_transport \<Rightarrow> (evm_client, evm_connection) comp" where
  "evm_connect tp =
     and_then (lift_result (tp_connect tp)) (\<lambda>connection.
     and_then (gets cc_expectedChainId) (\<lambda>expected.
     if ec_chainId connection \<noteq> expected
     then throw (Error (''connected chain '' @ ec_chainId connection @ '' does not match configured chain '' @ expected))
     else and_then (modify (\<lambda>c. c\<lparr>cc_connection := Some connection\<rparr>)) (\<lambda>_. ret connection)))"

definition evm_get_chain_id :: "evm_transport \<Rightarrow> evm_client \<Rightarrow> string result" where
  "evm_get_chain_id tp c =
     bind_result (tp_getChainId tp) (\<lambda>chainId.
       if chainId \<noteq> cc_expectedChainId c then Inl (Error ''provider chain ID changed'') else Inr chainId)"

definition evm_get_balance :: "evm_transport \<Rightarrow> string \<Rightarrow> evm_block_tag option \<Rightarrow> atomic_amount result" where
  "evm_get_balance tp address block =
     bind_result (assert_evm_address address) (\<lambda>_.
     bind_result (tp_getBalance tp address block) (\<lambda>balance. Inr (int_to_string balance)))"

definition evm_call_contract :: "evm_transport \<Rightarrow> evm_call \<Rightarrow> evm_block_tag option \<Rightarrow> string result" where
  "evm_call_contract tp call block =
     bind_result (assert_evm_address (ev_to call)) (\<lambda>_. tp_callContract tp call block)"

definition assert_connected :: "evm_client \<Rightarrow> unit result" where
  "assert_connected c = (if cc_connection c = None then Inl (Error ''EVM adapter is not connected'') else Inr ())"

definition assert_evm_transaction :: "evm_client \<Rightarrow> prepared_evm_transaction \<Rightarrow> unit result" where
  "assert_evm_transaction c t =
     (if pe_chainId t \<noteq> cc_expectedChainId c
      then Inl (Error ''transaction chain ID does not match configured chain'')
      else bind_result (assert_evm_address (ev_to t)) (\<lambda>_.
        case ev_from t of
          Some sender \<Rightarrow> if sender = [] then Inr () else assert_evm_address sender
        | None \<Rightarrow> Inr ()))"

definition evm_prepare :: "evm_transport \<Rightarrow> evm_client \<Rightarrow> prepared_evm_transaction \<Rightarrow> prepared_evm_transaction result" where
  "evm_prepare tp c t =
     bind_result (assert_connected c) (\<lambda>_. bind_result (assert_evm_transaction c t) (\<lambda>_. tp_estimateAndPrepare tp t))"

definition evm_submit :: "evm_transport \<Rightarrow> evm_client \<Rightarrow> prepared_evm_transaction \<Rightarrow> string result" where
  "evm_submit tp c t =
     bind_result (assert_connected c) (\<lambda>_. bind_result (assert_evm_transaction c t) (\<lambda>_. tp_submitTransaction tp t))"

definition assert_confirmations :: "js_number \<Rightarrow> unit result" where
  "assert_confirmations v =
     (if not_safe_at_least v 1 then Inl (Error ''confirmations must be a positive safe integer'') else Inr ())"

definition evm_wait_confirmation :: "evm_transport \<Rightarrow> string \<Rightarrow> js_number \<Rightarrow> evm_confirmation result" where
  "evm_wait_confirmation tp hash n = bind_result (assert_confirmations n) (\<lambda>_. tp_waitForConfirmation tp hash n)"

definition evm_wait_finality :: "evm_transport \<Rightarrow> string \<Rightarrow> finality_request \<Rightarrow> evm_finality result" where
  "evm_wait_finality tp hash policy =
     (case policy of
        WaitForTag \<Rightarrow> tp_waitForFinalizedTag tp hash
      | WaitForConfirmations n \<Rightarrow>
          bind_result (assert_confirmations n) (\<lambda>_.
          bind_result (tp_waitForConfirmation tp hash n) (\<lambda>x.
            Inr \<lparr>fy_receipt = ef_receipt x, fy_kind = CONFIRMATIONS, fy_observedBlock = ef_observedHead x,
              fy_requiredConfirmations = Some n, fy_observedAt = ef_observedAt x\<rparr>)))"

type_synonym evm_parser = "evm_log \<Rightarrow> parsed_evm_event option"

fun evm_parse_event :: "evm_log \<Rightarrow> evm_parser list \<Rightarrow> parsed_evm_event option" where
  "evm_parse_event log [] = None"
| "evm_parse_event log (parser # parsers) =
     (case parser log of Some event \<Rightarrow> Some event | None \<Rightarrow> evm_parse_event log parsers)"

section \<open>ERC-20\<close>

record erc20_metadata =
  em_name :: "string option"
  em_symbol :: "string option"
  em_decimals :: "js_number option"

record erc20_transfer =
  tf_from :: string
  tf_to :: string
  tf_amount :: atomic_amount

record erc20_gateway =
  gw_metadata :: "string \<Rightarrow> evm_block_tag option \<Rightarrow> erc20_metadata result"
  gw_totalSupply :: "string \<Rightarrow> evm_block_tag option \<Rightarrow> int result"
  gw_balanceOf :: "string \<Rightarrow> string \<Rightarrow> evm_block_tag option \<Rightarrow> int result"
  gw_allowance :: "string \<Rightarrow> string \<Rightarrow> string \<Rightarrow> evm_block_tag option \<Rightarrow> int result"
  gw_simulateTransfer :: "string \<Rightarrow> erc20_transfer \<Rightarrow> evm_block_tag option \<Rightarrow> bool result"
  gw_encodeTransfer :: "string \<Rightarrow> erc20_transfer \<Rightarrow> string \<Rightarrow> prepared_evm_transaction result"
  gw_simulateApprove :: "string \<Rightarrow> string \<Rightarrow> string \<Rightarrow> nat \<Rightarrow> evm_block_tag option \<Rightarrow> bool result"
  gw_encodeApprove :: "string \<Rightarrow> string \<Rightarrow> string \<Rightarrow> nat \<Rightarrow> string \<Rightarrow> prepared_evm_transaction result"
  gw_parse :: evm_parser

record erc20_adapter =
  ad_contract :: string
  ad_chainId :: string

definition new_erc20_adapter :: "string \<Rightarrow> string \<Rightarrow> erc20_adapter result" where
  "new_erc20_adapter contract chainId =
     bind_result (assert_evm_address contract) (\<lambda>_. bind_result (assert_chain_id chainId) (\<lambda>_.
       Inr \<lparr>ad_contract = contract, ad_chainId = chainId\<rparr>))"

definition erc20_read_metadata :: "erc20_gateway \<Rightarrow> erc20_adapter \<Rightarrow> evm_block_tag option \<Rightarrow> erc20_metadata result" where
  "erc20_read_metadata gw a block = gw_metadata gw (ad_contract a) block"

definition erc20_total_supply :: "erc20_gateway \<Rightarrow> erc20_adapter \<Rightarrow> evm_block_tag option \<Rightarrow> atomic_amount result" where
  "erc20_total_supply gw a block = bind_result (gw_totalSupply gw (ad_contract a) block) (\<lambda>n. Inr (int_to_string n))"

definition erc20_balance_of :: "erc20_gateway \<Rightarrow> erc20_adapter \<Rightarrow> string \<Rightarrow> evm_block_tag option \<Rightarrow> atomic_amount result" where
  "erc20_balance_of gw a owner block =
     bind_result (assert_evm_address owner) (\<lambda>_.
     bind_result (gw_balanceOf gw (ad_contract a) owner block) (\<lambda>n. Inr (int_to_string n)))"

definition erc20_allowance ::
  "erc20_gateway \<Rightarrow> erc20_adapter \<Rightarrow> string \<Rightarrow> string \<Rightarrow> evm_block_tag option \<Rightarrow> atomic_amount result" where
  "erc20_allowance gw a owner spender block =
     bind_result (assert_evm_address owner) (\<lambda>_. bind_result (assert_evm_address spender) (\<lambda>_.
     bind_result (gw_allowance gw (ad_contract a) owner spender block) (\<lambda>n. Inr (int_to_string n))))"

definition erc20_prepare_transfer ::
  "erc20_gateway \<Rightarrow> erc20_adapter \<Rightarrow> erc20_transfer \<Rightarrow> evm_block_tag option \<Rightarrow> prepared_evm_transaction result" where
  "erc20_prepare_transfer gw a transfer block =
     bind_result (assert_evm_address (tf_from transfer)) (\<lambda>_. bind_result (assert_evm_address (tf_to transfer)) (\<lambda>_.
     bind_result (parse_atomic_amount (tf_amount transfer)) (\<lambda>_.
     bind_result (gw_simulateTransfer gw (ad_contract a) transfer block) (\<lambda>success.
       if \<not> success then Inl (Error ''ERC-20 transfer simulation returned false'')
       else gw_encodeTransfer gw (ad_contract a) transfer (ad_chainId a)))))"

definition erc20_prepare_approve ::
  "erc20_gateway \<Rightarrow> erc20_adapter \<Rightarrow> string \<Rightarrow> string \<Rightarrow> atomic_amount \<Rightarrow> evm_block_tag option
     \<Rightarrow> prepared_evm_transaction result" where
  "erc20_prepare_approve gw a owner spender amount block =
     bind_result (assert_evm_address owner) (\<lambda>_. bind_result (assert_evm_address spender) (\<lambda>_.
     bind_result (parse_atomic_amount amount) (\<lambda>parsed.
     bind_result (gw_simulateApprove gw (ad_contract a) owner spender parsed block) (\<lambda>success.
       if \<not> success then Inl (Error ''ERC-20 approval simulation returned false'')
       else gw_encodeApprove gw (ad_contract a) owner spender parsed (ad_chainId a)))))"

definition erc20_discover_capabilities ::
  "erc20_gateway \<Rightarrow> erc20_adapter \<Rightarrow> evm_block_tag option \<Rightarrow> asset_capability list result" where
  "erc20_discover_capabilities gw a block =
     bind_result (gw_totalSupply gw (ad_contract a) block) (\<lambda>_. Inr [TRANSFER])"

definition erc20_parse :: "erc20_gateway \<Rightarrow> erc20_adapter \<Rightarrow> evm_parser" where
  "erc20_parse gw a log = (if lower (el_address log) = lower (ad_contract a) then gw_parse gw log else None)"

section \<open>What reaches the network\<close>

text \<open>A client is connected only to the chain it was configured for.\<close>

definition client_ok :: "evm_client \<Rightarrow> bool" where
  "client_ok c \<longleftrightarrow> chain_id_text (cc_expectedChainId c)
     \<and> (\<forall>connection. cc_connection c = Some connection \<longrightarrow> ec_chainId connection = cc_expectedChainId c)"

lemma new_client_ok: "new_evm_client expected = Inr c \<Longrightarrow> client_ok c \<and> cc_expectedChainId c = expected"
  by (auto simp: new_evm_client_def assert_chain_id_def client_ok_def split: if_splits)

lemma connect_ok: "evm_connect tp c = (res, c') \<Longrightarrow> client_ok c \<Longrightarrow> client_ok c' \<and> cc_expectedChainId c' = cc_expectedChainId c"
  by (auto simp: evm_connect_def and_then_def client_ok_def split: sum.splits if_splits)

definition sendable :: "evm_client \<Rightarrow> prepared_evm_transaction \<Rightarrow> bool" where
  "sendable c t \<longleftrightarrow> cc_connection c \<noteq> None \<and> pe_chainId t = cc_expectedChainId c \<and> evm_address_text (ev_to t)
     \<and> (\<forall>sender. ev_from t = Some sender \<longrightarrow> sender = [] \<or> evm_address_text sender)"

lemma submit_reaches_transport:
  assumes "evm_submit tp c t = Inr hash"
  shows "sendable c t \<and> tp_submitTransaction tp t = Inr hash"
  using assms
  by (cases "sendable c t")
    (auto simp: evm_submit_def sendable_def assert_connected_def assert_evm_transaction_def assert_evm_address_def
      split: if_splits option.splits)

text \<open>Round trip: balances read as non-negative integers parse back to the number the gateway answered.\<close>

lemma evm_balance_roundtrip:
  assumes "evm_get_balance tp address block = Inr amount" "tp_getBalance tp address block = Inr n" "0 \<le> n"
  shows "parse_atomic_amount amount = Inr (nat n)"
  using assms by (auto simp: evm_get_balance_def int_to_string_def parse_atomic_amount_Inr_iff)

end
