(* ===== verification/Network_Registry.thy ===== *)
theory Network_Registry
  imports Model
begin

text \<open>
  The network registry of packages/core/src/network-registry.ts. The registry's \<open>Map\<close> is an
  association list in insertion order; the URL parser of the host is a parameter: the scheme and the
  credentials it reads off an endpoint, or nothing when it throws. The registry is the provider of the
  interface \<open>network_lookup\<close> on which the asset and the identity registries rely: a network that is
  registered stays registered, with the type and the chain it has.
\<close>

record url =
  url_protocol :: string
  url_username :: string
  url_password :: string

type_synonym url_parser = "string \<Rightarrow> url option"

text \<open>\<open>/^(0|[1-9][0-9]*)$/\<close>\<close>

definition decimal_chain_id :: "string \<Rightarrow> bool" where
  "decimal_chain_id s \<longleftrightarrow> s = ''0'' \<or> s \<noteq> [] \<and> list_all is_digit s \<and> hd s \<noteq> CHR ''0''"

definition assert_endpoint :: "url_parser \<Rightarrow> string \<Rightarrow> unit result" where
  "assert_endpoint parse_url endpoint =
     (case parse_url endpoint of
        None \<Rightarrow> Inl (RegistryError INVALID_ARGUMENT (''invalid endpoint: '' @ endpoint))
      | Some u \<Rightarrow>
          if url_protocol u \<noteq> ''http:'' \<and> url_protocol u \<noteq> ''https:'' \<and> url_protocol u \<noteq> ''ws:''
            \<and> url_protocol u \<noteq> ''wss:''
          then Inl (RegistryError INVALID_ARGUMENT (''unsupported endpoint protocol: '' @ url_protocol u))
          else if url_username u \<noteq> [] \<or> url_password u \<noteq> []
          then Inl (RegistryError INVALID_ARGUMENT ''endpoint credentials must not be stored in the registry'')
          else Inr ())"

definition blank_type :: "network_type \<Rightarrow> bool" where
  "blank_type t = (case t of OtherNetworkType s \<Rightarrow> blank s | _ \<Rightarrow> False)"

definition bad_confirmations :: "finality_policy \<Rightarrow> bool" where
  "bad_confirmations p = (case p of EVM_CONFIRMATIONS n _ \<Rightarrow> not_safe_at_least n 0 | _ \<Rightarrow> False)"

definition assert_network_configuration :: "url_parser \<Rightarrow> network \<Rightarrow> unit result" where
  "assert_network_configuration parse_url n =
     (if \<not> has_prefix_id (net_id n) ''IW:NETWORK:'' then Inl (RegistryError INVALID_ARGUMENT ''invalid network ID'')
      else if blank (net_name n) then Inl (RegistryError INVALID_ARGUMENT ''network name is required'')
      else if blank_type (net_type n) then Inl (RegistryError INVALID_ARGUMENT ''network type is required'')
      else if net_endpoints n = []
      then Inl (RegistryError INVALID_ARGUMENT ''at least one network endpoint is required'')
      else bind_result (for_each (assert_endpoint parse_url) (net_endpoints n)) (\<lambda>_.
        if net_type n = EVM \<and> (case net_chainId n of None \<Rightarrow> True | Some c \<Rightarrow> c = [] \<or> \<not> decimal_chain_id c)
        then Inl (RegistryError INVALID_ARGUMENT ''EVM networks require a decimal chain ID'')
        else if net_type n = CANTON \<and> net_chainId n \<noteq> None
        then Inl (RegistryError INVALID_ARGUMENT ''Canton networks do not use an EVM chain ID'')
        else if bad_confirmations (net_finalityPolicy n)
        then Inl (RegistryError INVALID_ARGUMENT ''confirmations must be a non-negative safe integer'')
        else Inr ()))"

type_synonym networks = "(interweave_id, network) js_map"

definition network_register :: "url_parser \<Rightarrow> network \<Rightarrow> (networks, network) comp" where
  "network_register parse_url n =
     and_then (lift_result (assert_network_configuration parse_url n)) (\<lambda>_.
     and_then (gets id) (\<lambda>nets.
     if map_has nets (net_id n)
     then throw (RegistryError ALREADY_EXISTS (''network already exists: '' @ net_id n))
     else if list_ex (\<lambda>item. net_type item = EVM \<and> net_type n = EVM \<and> net_chainId item = net_chainId n) (map_values nets)
     then throw (RegistryError CONFLICT (''EVM chain ID already registered: '' @ or_else (net_chainId n) ''undefined''))
     else and_then (modify (map_set (net_id n) n)) (\<lambda>_. ret n)))"

definition network_get :: "networks \<Rightarrow> interweave_id \<Rightarrow> network option" where
  "network_get nets i = map_get nets i"

record network_filter =
  nf_type :: "network_type option"
  nf_environment :: "string option"
  nf_enabled :: "bool option"

definition network_list :: "network_filter \<Rightarrow> networks \<Rightarrow> network list" where
  "network_list f nets = filter (\<lambda>n.
     (nf_type f = None \<or> nf_type f = Some (net_type n))
     \<and> (nf_environment f = None \<or> nf_environment f = Some (net_environment n))
     \<and> (nf_enabled f = None \<or> nf_enabled f = Some (net_enabled n))) (map_values nets)"

definition network_set_enabled :: "interweave_id \<Rightarrow> bool \<Rightarrow> (networks, network) comp" where
  "network_set_enabled i enabled =
     and_then (gets (\<lambda>nets. network_get nets i)) (\<lambda>existing.
     case existing of
       None \<Rightarrow> throw (RegistryError NOT_FOUND (''network not found: '' @ i))
     | Some n \<Rightarrow>
         let updated = n\<lparr>net_enabled := enabled\<rparr> in
         and_then (modify (map_set i updated)) (\<lambda>_. ret updated))"

section \<open>What a registered network satisfies\<close>

definition network_ok :: "url_parser \<Rightarrow> network \<Rightarrow> bool" where
  "network_ok parse_url n \<longleftrightarrow> assert_network_configuration parse_url n = Inr ()"

lemma network_ok_enabled [simp]: "network_ok parse_url (n\<lparr>net_enabled := b\<rparr>) = network_ok parse_url n"
proof -
  have "assert_network_configuration parse_url (n\<lparr>net_enabled := b\<rparr>) = assert_network_configuration parse_url n"
    by (cases n) (simp only: assert_network_configuration_def network.simps)
  then show ?thesis by (simp add: network_ok_def)
qed

definition evm_chain :: "network \<Rightarrow> string option" where
  "evm_chain n = (if net_type n = EVM then net_chainId n else None)"

lemma evm_chain_enabled [simp]: "evm_chain (n\<lparr>net_enabled := b\<rparr>) = evm_chain n"
  by (simp add: evm_chain_def)

lemma evm_chain_decimal:
  assumes "network_ok parse_url n" "net_type n = EVM"
  obtains c where "net_chainId n = Some c" "evm_chain n = Some c" "decimal_chain_id c"
proof -
  have "\<exists>c. net_chainId n = Some c \<and> decimal_chain_id c"
    using assms(1) assms(2)
    by (cases "net_chainId n")
      (simp_all add: network_ok_def assert_network_configuration_def bind_result_def split: if_splits sum.splits)
  then show thesis
    using that assms(2) by (auto simp: evm_chain_def)
qed

text \<open>Every network passed the checks, and no two share an EVM chain.\<close>

definition networks_ok :: "url_parser \<Rightarrow> networks \<Rightarrow> bool" where
  "networks_ok parse_url nets \<longleftrightarrow>
     (\<forall>i n. network_get nets i = Some n \<longrightarrow> net_id n = i \<and> network_ok parse_url n)
     \<and> (\<forall>i j n m. network_get nets i = Some n \<and> network_get nets j = Some m \<and> evm_chain n \<noteq> None
          \<and> evm_chain n = evm_chain m \<longrightarrow> i = j)"

inductive network_step :: "url_parser \<Rightarrow> networks \<Rightarrow> networks \<Rightarrow> bool" for parse_url where
  register: "network_register parse_url n nets = (res, nets') \<Longrightarrow> network_step parse_url nets nets'"
| set_enabled: "network_set_enabled i b nets = (res, nets') \<Longrightarrow> network_step parse_url nets nets'"

inductive_cases network_stepE: "network_step parse_url nets nets'"

lemma register_cases:
  assumes "network_register parse_url n nets = (res, nets')"
  shows "nets' = nets \<and> (\<exists>e. res = Inl e)
    \<or> res = Inr n \<and> nets' = map_set (net_id n) n nets \<and> network_ok parse_url n \<and> network_get nets (net_id n) = None
      \<and> (\<forall>i m. network_get nets i = Some m \<longrightarrow> evm_chain n \<noteq> None \<longrightarrow> evm_chain m \<noteq> evm_chain n)"
proof -
  have mem: "network_get nets i = Some m \<Longrightarrow> m \<in> set (map_values nets)" for i m
    by (auto simp: network_get_def dest!: map_of_SomeD intro: rev_image_eqI)
  show ?thesis
    using assms mem
    by (fastforce simp: network_register_def and_then_def network_ok_def map_has_def network_get_def evm_chain_def
        list_ex_iff split: sum.splits if_splits)
qed

lemma set_enabled_cases:
  assumes "network_set_enabled i b nets = (res, nets')"
  shows "nets' = nets \<and> (\<exists>e. res = Inl e)
    \<or> (\<exists>n. network_get nets i = Some n \<and> res = Inr (n\<lparr>net_enabled := b\<rparr>) \<and> nets' = map_set i (n\<lparr>net_enabled := b\<rparr>) nets)"
  using assms by (auto simp: network_set_enabled_def and_then_def Let_def split: option.splits)

lemma networks_ok_empty: "networks_ok parse_url []"
  by (simp add: networks_ok_def network_get_def)

lemma networks_ok_register:
  assumes "networks_ok parse_url nets" "network_ok parse_url n" "network_get nets (net_id n) = None"
    and "\<forall>i m. network_get nets i = Some m \<longrightarrow> evm_chain n \<noteq> None \<longrightarrow> evm_chain m \<noteq> evm_chain n"
  shows "networks_ok parse_url (map_set (net_id n) n nets)"
  using assms unfolding networks_ok_def network_get_def by (auto split: if_splits) metis+

lemma networks_ok_enabled:
  assumes "networks_ok parse_url nets" "network_get nets i = Some n"
  shows "networks_ok parse_url (map_set i (n\<lparr>net_enabled := b\<rparr>) nets)"
proof -
  let ?nets' = "map_set i (n\<lparr>net_enabled := b\<rparr>) nets"
  have old: "\<exists>m'. network_get nets k = Some m' \<and> evm_chain m' = evm_chain m \<and> net_id m' = net_id m
      \<and> network_ok parse_url m' = network_ok parse_url m" if "network_get ?nets' k = Some m" for k m
    using that assms(2) by (auto simp: network_get_def split: if_splits)
  show ?thesis
    unfolding networks_ok_def
  proof (intro conjI allI impI)
    fix k m assume "network_get ?nets' k = Some m"
    then show "net_id m = k" "network_ok parse_url m"
      using old assms(1) unfolding networks_ok_def by metis+
  next
    fix k j m m'
    assume *: "network_get ?nets' k = Some m \<and> network_get ?nets' j = Some m' \<and> evm_chain m \<noteq> None \<and> evm_chain m = evm_chain m'"
    obtain a where "network_get nets k = Some a" "evm_chain a = evm_chain m" using old * by blast
    moreover obtain c where "network_get nets j = Some c" "evm_chain c = evm_chain m'" using old * by blast
    ultimately show "k = j" using assms(1) * unfolding networks_ok_def by metis
  qed
qed

lemma networks_ok_step: "network_step parse_url nets nets' \<Longrightarrow> networks_ok parse_url nets \<Longrightarrow> networks_ok parse_url nets'"
  by (elim network_stepE) (auto dest!: register_cases set_enabled_cases intro: networks_ok_register networks_ok_enabled)

section \<open>The interface the other registries use\<close>

text \<open>A network that is found stays found, with its type and its chain.\<close>

definition same_chain :: "network \<Rightarrow> network \<Rightarrow> bool" where
  "same_chain n m \<longleftrightarrow> net_id m = net_id n \<and> net_type m = net_type n \<and> net_chainId m = net_chainId n"

locale network_lookup =
  fixes lookup :: "'n \<Rightarrow> interweave_id \<Rightarrow> network option"
    and step :: "'n \<Rightarrow> 'n \<Rightarrow> bool"
  assumes step_keeps: "step s s' \<Longrightarrow> lookup s i = Some n \<Longrightarrow> \<exists>m. lookup s' i = Some m \<and> same_chain n m"
begin

lemma steps_keep:
  assumes "step\<^sup>*\<^sup>* s s'" "lookup s i = Some n"
  shows "\<exists>m. lookup s' i = Some m \<and> same_chain n m"
  using assms
proof (induction rule: rtranclp_induct)
  case base
  then show ?case by (simp add: same_chain_def)
next
  case (step t t')
  then show ?case
    using step_keeps [of t t' i] by (fastforce simp: same_chain_def)
qed

lemma keeps_predicate:
  assumes "step s s'" "lookup s i = Some n" "P n" "\<And>m. same_chain n m \<Longrightarrow> P m"
  shows "\<exists>m. lookup s' i = Some m \<and> P m"
  using step_keeps [OF assms(1,2)] assms(4) by blast

end

lemma network_step_keeps:
  assumes "network_step parse_url nets nets'" "network_get nets i = Some n"
  shows "\<exists>m. network_get nets' i = Some m \<and> same_chain n m"
  using assms(1)
proof cases
  case (register m res)
  show ?thesis
    using register_cases [OF register] assms(2) by (auto simp: network_get_def same_chain_def)
next
  case (set_enabled j b res)
  show ?thesis
    using set_enabled_cases [OF set_enabled] assms(2) by (auto simp: network_get_def same_chain_def split: if_splits)
qed

interpretation nl: network_lookup network_get "network_step parse_url" for parse_url
  by unfold_locales (rule network_step_keeps)

end
