(* ===== verification/Asset_Registry.thy ===== *)
theory Asset_Registry
  imports Network_Registry
begin

text \<open>
  The asset registry of packages/core/src/asset-registry.ts: logical assets, their representations on
  networks and the capability evidence a discoverer returned for a representation. The networks are
  those of the network registry, read through \<open>network_get\<close>; the discoverer's answer to a call is an
  argument of the operation that makes it. No operation removes an entry and only a discovery replaces
  one, so an operation whose \<open>await\<close> lets another run reads the same values after it.
\<close>

record asset_registry =
  ar_assets :: "(interweave_id, asset) js_map"
  ar_representations :: "(interweave_id, asset_representation) js_map"
  ar_evidence :: "(interweave_id, capability_evidence list) js_map"

definition empty_asset_registry :: asset_registry where
  "empty_asset_registry = \<lparr>ar_assets = [], ar_representations = [], ar_evidence = []\<rparr>"

definition decimals_ok :: "js_number \<Rightarrow> bool" where
  "decimals_ok d \<longleftrightarrow> \<not> (not_safe_at_least d 0 \<or> num_val d > 255)"

definition check_asset :: "networks \<Rightarrow> asset \<Rightarrow> unit result" where
  "check_asset nets a =
     (if \<not> has_prefix_id (as_id a) ''IW:ASSET:'' then Inl (RegistryError INVALID_ARGUMENT ''invalid asset ID'')
      else if blank (as_name a) \<or> blank (as_symbol a)
      then Inl (RegistryError INVALID_ARGUMENT ''asset name and symbol are required'')
      else if \<not> decimals_ok (as_decimals a)
      then Inl (RegistryError INVALID_ARGUMENT ''asset decimals must be an integer from 0 to 255'')
      else if length (js_set (as_capabilities a)) \<noteq> length (as_capabilities a)
      then Inl (RegistryError INVALID_ARGUMENT ''asset capabilities must be unique'')
      else if truthy (as_canonicalNetworkId a) \<and> network_get nets (the (as_canonicalNetworkId a)) = None
      then Inl (RegistryError NOT_FOUND (''canonical network not found: '' @ the (as_canonicalNetworkId a)))
      else Inr ())"

definition register_asset :: "networks \<Rightarrow> asset \<Rightarrow> (asset_registry, asset) comp" where
  "register_asset nets a =
     and_then (lift_result (check_asset nets a)) (\<lambda>_.
     and_then (gets ar_assets) (\<lambda>assets.
     if map_has assets (as_id a)
     then throw (RegistryError ALREADY_EXISTS (''asset already exists: '' @ as_id a))
     else and_then (modify (\<lambda>s. s\<lparr>ar_assets := map_set (as_id a) a (ar_assets s)\<rparr>)) (\<lambda>_. ret a)))"

definition get_asset :: "asset_registry \<Rightarrow> interweave_id \<Rightarrow> asset option" where
  "get_asset s i = map_get (ar_assets s) i"

definition list_assets :: "asset_status option \<Rightarrow> asset_registry \<Rightarrow> asset list" where
  "list_assets status s = filter (\<lambda>a. status = None \<or> status = Some (as_status a)) (map_values (ar_assets s))"

fun locator_kind :: "representation_locator \<Rightarrow> network_type" where
  "locator_kind (EvmRepresentation _ _ _) = EVM"
| "locator_kind (CantonRepresentation _ _ _ _) = CANTON"

fun wrong_chain :: "representation_locator \<Rightarrow> network \<Rightarrow> bool" where
  "wrong_chain (EvmRepresentation chainId _ _) network = (Some chainId \<noteq> net_chainId network)"
| "wrong_chain (CantonRepresentation _ _ _ _) network = False"

definition check_representation :: "networks \<Rightarrow> asset_registry \<Rightarrow> asset_representation \<Rightarrow> unit result" where
  "check_representation nets s r =
     (if \<not> has_prefix_id (rep_id r) ''IW:REPRESENTATION:''
      then Inl (RegistryError INVALID_ARGUMENT ''invalid representation ID'')
      else if \<not> map_has (ar_assets s) (rep_assetId r)
      then Inl (RegistryError NOT_FOUND (''asset not found: '' @ rep_assetId r))
      else case network_get nets (rep_networkId r) of
        None \<Rightarrow> Inl (RegistryError NOT_FOUND (''network not found: '' @ rep_networkId r))
      | Some network \<Rightarrow>
          if net_type network \<noteq> locator_kind (rep_locator r)
          then Inl (RegistryError INVALID_ARGUMENT ''representation locator does not match network type'')
          else if wrong_chain (rep_locator r) network
          then Inl (RegistryError INVALID_ARGUMENT ''representation chain ID does not match network'')
          else Inr ())"

definition register_representation ::
  "networks \<Rightarrow> asset_representation \<Rightarrow> (asset_registry, asset_representation) comp" where
  "register_representation nets r =
     and_then (gets (\<lambda>s. check_representation nets s r)) (\<lambda>check.
     and_then (lift_result check) (\<lambda>_.
     and_then (gets ar_representations) (\<lambda>representations.
     if map_has representations (rep_id r)
     then throw (RegistryError ALREADY_EXISTS (''representation already exists: '' @ rep_id r))
     else and_then (modify (\<lambda>s. s\<lparr>ar_representations := map_set (rep_id r) r (ar_representations s)\<rparr>)) (\<lambda>_.
       ret r))))"

definition get_representation :: "asset_registry \<Rightarrow> interweave_id \<Rightarrow> asset_representation option" where
  "get_representation s i = map_get (ar_representations s) i"

definition list_representations ::
  "interweave_id \<Rightarrow> interweave_id option \<Rightarrow> asset_registry \<Rightarrow> asset_representation list" where
  "list_representations assetId networkId s =
     filter (\<lambda>r. rep_assetId r = assetId \<and> (networkId = None \<or> networkId = Some (rep_networkId r)))
       (map_values (ar_representations s))"

definition discover_capabilities ::
  "capability_evidence list result \<Rightarrow> interweave_id \<Rightarrow> (asset_registry, capability_evidence list) comp" where
  "discover_capabilities answer i =
     and_then (gets (\<lambda>s. get_representation s i)) (\<lambda>found.
     case found of
       None \<Rightarrow> throw (RegistryError NOT_FOUND (''representation not found: '' @ i))
     | Some r \<Rightarrow>
         and_then (lift_result answer) (\<lambda>evidence.
         let capabilities = map ce_capability evidence in
         if length (js_set capabilities) \<noteq> length capabilities
         then throw (RegistryError INVALID_ARGUMENT ''discoverer returned duplicate capability evidence'')
         else and_then (modify (\<lambda>s. s
                \<lparr>ar_representations := map_set i (r\<lparr>rep_discoveredCapabilities := capabilities\<rparr>) (ar_representations s),
                 ar_evidence := map_set i evidence (ar_evidence s)\<rparr>)) (\<lambda>_. ret evidence)))"

definition effective_capabilities ::
  "asset_registry \<Rightarrow> interweave_id \<Rightarrow> interweave_id \<Rightarrow> asset_capability list result" where
  "effective_capabilities s assetId representationId =
     (case get_asset s assetId of
        None \<Rightarrow> Inl (RegistryError NOT_FOUND (''asset not found: '' @ assetId))
      | Some a \<Rightarrow>
        (case get_representation s representationId of
          None \<Rightarrow> Inl (RegistryError NOT_FOUND (''representation not found for asset: '' @ representationId))
        | Some r \<Rightarrow>
            if rep_assetId r \<noteq> assetId
            then Inl (RegistryError NOT_FOUND (''representation not found for asset: '' @ representationId))
            else if \<not> rep_enabled r \<or> as_status a \<noteq> ASSET_ACTIVE \<or> \<not> map_has (ar_evidence s) representationId
            then Inr []
            else Inr (filter (\<lambda>c. c \<in> set (rep_discoveredCapabilities r)) (as_capabilities a))))"

section \<open>Well-typed entries\<close>

text \<open>An entry is stored under its ID with the fields its registration demanded.\<close>

definition asset_ok :: "networks \<Rightarrow> asset \<Rightarrow> bool" where
  "asset_ok nets a \<longleftrightarrow> has_prefix_id (as_id a) ''IW:ASSET:'' \<and> \<not> blank (as_name a) \<and> \<not> blank (as_symbol a)
     \<and> (\<exists>n. as_decimals a = JInt n \<and> 0 \<le> n \<and> n \<le> 255) \<and> distinct (as_capabilities a)
     \<and> (\<forall>i. as_canonicalNetworkId a = Some i \<and> i \<noteq> [] \<longrightarrow> network_get nets i \<noteq> None)"

definition located :: "representation_locator \<Rightarrow> network \<Rightarrow> bool" where
  "located l n \<longleftrightarrow> net_type n = locator_kind l
     \<and> (case l of EvmRepresentation chainId _ _ \<Rightarrow> net_chainId n = Some chainId | _ \<Rightarrow> True)"

definition representation_ok :: "networks \<Rightarrow> asset_registry \<Rightarrow> asset_representation \<Rightarrow> bool" where
  "representation_ok nets s r \<longleftrightarrow> has_prefix_id (rep_id r) ''IW:REPRESENTATION:'' \<and> get_asset s (rep_assetId r) \<noteq> None
     \<and> (\<exists>n. network_get nets (rep_networkId r) = Some n \<and> located (rep_locator r) n)"

definition evidence_ok :: "asset_registry \<Rightarrow> interweave_id \<Rightarrow> capability_evidence list \<Rightarrow> bool" where
  "evidence_ok s i evidence \<longleftrightarrow> distinct (map ce_capability evidence)
     \<and> (\<exists>r. get_representation s i = Some r \<and> rep_discoveredCapabilities r = map ce_capability evidence)"

definition assets_ok :: "networks \<Rightarrow> asset_registry \<Rightarrow> bool" where
  "assets_ok nets s \<longleftrightarrow> (\<forall>i a. get_asset s i = Some a \<longrightarrow> as_id a = i \<and> asset_ok nets a)
     \<and> (\<forall>i r. get_representation s i = Some r \<longrightarrow> rep_id r = i \<and> representation_ok nets s r)
     \<and> (\<forall>i e. map_get (ar_evidence s) i = Some e \<longrightarrow> evidence_ok s i e)"

lemma assets_ok_asset_D: "assets_ok nets s \<Longrightarrow> get_asset s i = Some a \<Longrightarrow> as_id a = i \<and> asset_ok nets a"
  by (simp add: assets_ok_def)

lemma assets_ok_representation_D:
  "assets_ok nets s \<Longrightarrow> get_representation s i = Some r \<Longrightarrow> rep_id r = i \<and> representation_ok nets s r"
  by (simp add: assets_ok_def)

lemma assets_ok_evidence_D: "assets_ok nets s \<Longrightarrow> map_get (ar_evidence s) i = Some e \<Longrightarrow> evidence_ok s i e"
  by (simp add: assets_ok_def)

inductive asset_step :: "networks \<Rightarrow> asset_registry \<Rightarrow> asset_registry \<Rightarrow> bool" for nets where
  register_asset: "register_asset nets a s = (res, s') \<Longrightarrow> asset_step nets s s'"
| register_representation: "register_representation nets r s = (res', s') \<Longrightarrow> asset_step nets s s'"
| discover: "discover_capabilities answer i s = (res'', s') \<Longrightarrow> asset_step nets s s'"

inductive_cases asset_stepE: "asset_step nets s s'"

lemma located_iff: "located l n \<longleftrightarrow> net_type n = locator_kind l \<and> \<not> wrong_chain l n"
  by (cases l; simp add: located_def eq_commute [of "Some _"])

lemma check_asset_ok: "check_asset nets a = Inr () \<Longrightarrow> asset_ok nets a"
  by (cases "as_decimals a")
    (auto simp: check_asset_def asset_ok_def decimals_ok_def not_safe_at_least_def truthy_def length_js_set_eq_iff
      split: if_splits)

lemma check_representation_ok: "check_representation nets s r = Inr () \<Longrightarrow> representation_ok nets s r"
  by (cases "rep_locator r")
    (auto simp: check_representation_def representation_ok_def located_def map_has_def get_asset_def
      split: if_splits option.splits)

lemma register_asset_cases:
  assumes "register_asset nets a s = (res, s')"
  shows "s' = s \<or> s' = s\<lparr>ar_assets := map_set (as_id a) a (ar_assets s)\<rparr> \<and> asset_ok nets a \<and> get_asset s (as_id a) = None"
  using assms check_asset_ok [of nets a]
  by (auto simp: register_asset_def and_then_def map_has_def get_asset_def split: sum.splits if_splits)

lemma register_representation_cases:
  assumes "register_representation nets r s = (res, s')"
  shows "s' = s \<or> s' = s\<lparr>ar_representations := map_set (rep_id r) r (ar_representations s)\<rparr>
    \<and> representation_ok nets s r \<and> get_representation s (rep_id r) = None"
  using assms check_representation_ok [of nets s r]
  by (auto simp: register_representation_def and_then_def map_has_def get_representation_def split: sum.splits if_splits)

lemma discover_cases:
  assumes "discover_capabilities answer i s = (res, s')"
  shows "s' = s \<or> (\<exists>r evidence. get_representation s i = Some r \<and> answer = Inr evidence
    \<and> distinct (map ce_capability evidence)
    \<and> s' = s\<lparr>ar_representations := map_set i (r\<lparr>rep_discoveredCapabilities := map ce_capability evidence\<rparr>) (ar_representations s),
             ar_evidence := map_set i evidence (ar_evidence s)\<rparr>)"
  using assms
  by (auto simp: discover_capabilities_def and_then_def length_js_set_eq_iff [of "map _ _", simplified] Let_def
      split: sum.splits if_splits option.splits)

lemma assets_ok_empty: "assets_ok nets empty_asset_registry"
  by (simp add: assets_ok_def empty_asset_registry_def get_asset_def get_representation_def)

lemma assets_ok_asset:
  assumes "assets_ok nets s" "asset_ok nets a"
  shows "assets_ok nets (s\<lparr>ar_assets := map_set (as_id a) a (ar_assets s)\<rparr>)"
  using assms unfolding assets_ok_def
  by (auto simp: get_asset_def get_representation_def representation_ok_def evidence_ok_def)

lemma assets_ok_representation:
  assumes "assets_ok nets s" "representation_ok nets s r" "get_representation s (rep_id r) = None"
  shows "assets_ok nets (s\<lparr>ar_representations := map_set (rep_id r) r (ar_representations s)\<rparr>)"
proof -
  have "map_get (ar_evidence s) (rep_id r) = None"
    using assets_ok_evidence_D [OF assms(1), of "rep_id r"] assms(3)
    by (cases "map_get (ar_evidence s) (rep_id r)") (auto simp: evidence_ok_def)
  then show ?thesis
    using assms unfolding assets_ok_def
    by (auto simp: get_asset_def get_representation_def representation_ok_def evidence_ok_def)
qed

lemma assets_ok_discover:
  assumes "assets_ok nets s" "get_representation s i = Some r" "distinct (map ce_capability evidence)"
  shows "assets_ok nets (s\<lparr>ar_representations := map_set i (r\<lparr>rep_discoveredCapabilities := map ce_capability evidence\<rparr>)
      (ar_representations s), ar_evidence := map_set i evidence (ar_evidence s)\<rparr>)"
  using assms unfolding assets_ok_def
  by (auto simp: get_asset_def get_representation_def representation_ok_def evidence_ok_def)

lemma assets_ok_step: "asset_step nets s s' \<Longrightarrow> assets_ok nets s \<Longrightarrow> assets_ok nets s'"
  by (elim asset_stepE)
    (auto dest!: register_asset_cases register_representation_cases discover_cases
      intro: assets_ok_asset assets_ok_representation assets_ok_discover)

section \<open>Both registries together\<close>

text \<open>A step of the network registry keeps the assets well typed: a network stays, with its type and chain.\<close>

lemma located_same: "same_chain n m \<Longrightarrow> located l n \<Longrightarrow> located l m"
  by (cases l) (auto simp: same_chain_def located_def)

lemma assets_ok_network:
  assumes step: "network_step parse_url nets nets'" and ok: "assets_ok nets s"
  shows "assets_ok nets' s"
proof -
  have a: "asset_ok nets' a" if "asset_ok nets a" for a
    using that nl.step_keeps [OF step] unfolding asset_ok_def by fastforce
  have r: "representation_ok nets' s r" if "representation_ok nets s r" for r
    using that nl.step_keeps [OF step] located_same unfolding representation_ok_def by metis
  show ?thesis
    using ok a r unfolding assets_ok_def by blast
qed

inductive registries_reachable :: "url_parser \<Rightarrow> networks \<Rightarrow> asset_registry \<Rightarrow> bool" for parse_url where
  registries_start: "registries_reachable parse_url [] empty_asset_registry"
| registries_network:
    "registries_reachable parse_url nets s \<Longrightarrow> network_step parse_url nets nets' \<Longrightarrow> registries_reachable parse_url nets' s"
| registries_asset:
    "registries_reachable parse_url nets s \<Longrightarrow> asset_step nets s s' \<Longrightarrow> registries_reachable parse_url nets s'"

lemma registries_reachable_ok: "registries_reachable parse_url nets s \<Longrightarrow> networks_ok parse_url nets \<and> assets_ok nets s"
  by (induction rule: registries_reachable.induct)
    (auto intro: networks_ok_empty assets_ok_empty networks_ok_step assets_ok_step assets_ok_network)

section \<open>What the registries guarantee\<close>

text \<open>
  C28. In every state the two registries reach, by any mix of registrations, enabling of networks and
  discoveries, a registered asset has 0 to 255 decimals and distinct capabilities, a representation
  belongs to a registered asset and its locator fits a registered network in kind and, for EVM, in chain
  ID, and every capability the registry calls effective was declared for the asset and evidenced by the
  discoverer.
\<close>

theorem registries_well_typed:
  assumes "registries_reachable parse_url nets s"
  shows "(\<forall>i a. get_asset s i = Some a \<longrightarrow>
            (\<exists>n. as_decimals a = JInt n \<and> 0 \<le> n \<and> n \<le> 255) \<and> distinct (as_capabilities a))
    \<and> (\<forall>i r. get_representation s i = Some r \<longrightarrow>
            get_asset s (rep_assetId r) \<noteq> None
            \<and> (\<exists>n. network_get nets (rep_networkId r) = Some n \<and> network_ok parse_url n
                 \<and> net_type n = locator_kind (rep_locator r) \<and> \<not> wrong_chain (rep_locator r) n))
    \<and> (\<forall>i j cs c. effective_capabilities s i j = Inr cs \<and> c \<in> set cs \<longrightarrow>
            (\<exists>a e. get_asset s i = Some a \<and> as_status a = ASSET_ACTIVE \<and> c \<in> set (as_capabilities a)
               \<and> map_get (ar_evidence s) j = Some e \<and> c \<in> ce_capability ` set e))"
proof -
  have nets: "networks_ok parse_url nets" and ok: "assets_ok nets s"
    using registries_reachable_ok [OF assms] by simp_all
  have reps: "get_asset s (rep_assetId r) \<noteq> None
      \<and> (\<exists>n. network_get nets (rep_networkId r) = Some n \<and> network_ok parse_url n
           \<and> net_type n = locator_kind (rep_locator r) \<and> \<not> wrong_chain (rep_locator r) n)"
    if get: "get_representation s i = Some r" for i r
  proof -
    obtain n where n: "network_get nets (rep_networkId r) = Some n" "located (rep_locator r) n"
      using assets_ok_representation_D [OF ok get] unfolding representation_ok_def by blast
    have "network_ok parse_url n"
      using nets n(1) unfolding networks_ok_def by blast
    then show ?thesis
      using n assets_ok_representation_D [OF ok get] unfolding representation_ok_def located_iff by blast
  qed
  have evidence: "c \<in> ce_capability ` set e"
    if "map_get (ar_evidence s) j = Some e" "get_representation s j = Some r" "c \<in> set (rep_discoveredCapabilities r)" for j e r c
    using that(2,3) assets_ok_evidence_D [OF ok that(1)] by (auto simp: evidence_ok_def)
  have effective: "\<exists>a e. get_asset s i = Some a \<and> as_status a = ASSET_ACTIVE \<and> c \<in> set (as_capabilities a)
      \<and> map_get (ar_evidence s) j = Some e \<and> c \<in> ce_capability ` set e"
    if "effective_capabilities s i j = Inr cs" "c \<in> set cs" for i j cs c
    using that evidence by (auto simp: effective_capabilities_def map_has_def split: option.splits if_splits)
  show ?thesis
    using assets_ok_asset_D [OF ok] reps effective unfolding asset_ok_def by blast
qed

definition sample_network :: network where
  "sample_network = \<lparr>net_id = ''IW:NETWORK:n'', net_type = EVM, net_name = ''n'', net_environment = ''TESTNET'',
     net_endpoints = [''u''], net_chainId = Some ''1'', net_finalityPolicy = EVM_CONFIRMATIONS (JInt 12) True,
     net_adapterConfiguration = [], net_enabled = True\<rparr>"

definition sample_parse_url :: url_parser where
  "sample_parse_url e = Some \<lparr>url_protocol = ''https:'', url_username = [], url_password = []\<rparr>"

definition sample_asset :: asset where
  "sample_asset = \<lparr>as_id = ''IW:ASSET:a'', as_name = ''A'', as_symbol = ''A'', as_issuerIdentityId = ''IW:IDENTITY:i'',
     as_decimals = JInt 6, as_tokenType = FUNGIBLE, as_canonicalNetworkId = Some ''IW:NETWORK:n'',
     as_supplyModel = ISSUER_MANAGED, as_bridgeModel = LOCK_MINT_BURN_RELEASE, as_capabilities = [TRANSFER, MINT],
     as_metadata = [], as_status = ASSET_ACTIVE, as_createdAt = ''t''\<rparr>"

definition sample_representation :: asset_representation where
  "sample_representation = \<lparr>rep_id = ''IW:REPRESENTATION:r'', rep_assetId = ''IW:ASSET:a'',
     rep_networkId = ''IW:NETWORK:n'', rep_locator = EvmRepresentation ''1'' ''0x1'' ''ERC20'',
     rep_discoveredCapabilities = [], rep_enabled = True\<rparr>"

definition sample_evidence :: "capability_evidence list" where
  "sample_evidence = [\<lparr>ce_capability = TRANSFER, ce_source = ''probe'', ce_observedAt = ''t'', ce_evidence = []\<rparr>]"

definition sample_registries :: "networks \<times> asset_registry" where
  "sample_registries =
     (let nets = snd (network_register sample_parse_url sample_network []);
          s1 = snd (register_asset nets sample_asset empty_asset_registry);
          s2 = snd (register_representation nets sample_representation s1)
      in (nets, snd (discover_capabilities (Inr sample_evidence) ''IW:REPRESENTATION:r'' s2)))"

lemma sample_registries_reachable:
  "registries_reachable sample_parse_url (fst sample_registries) (snd sample_registries)"
  unfolding sample_registries_def Let_def fst_conv snd_conv
  by (rule registries_asset [OF registries_asset [OF registries_asset [OF registries_network [OF registries_start]]]])
    (rule network_step.register asset_step.intros, rule prod.collapse [symmetric])+

lemma sample_effective:
  "effective_capabilities (snd sample_registries) ''IW:ASSET:a'' ''IW:REPRESENTATION:r'' = Inr [TRANSFER]"
  by code_simp

theorem registries_well_typed_witness:
  "registries_reachable sample_parse_url (fst sample_registries) (snd sample_registries)
    \<and> (\<exists>e. map_get (ar_evidence (snd sample_registries)) ''IW:REPRESENTATION:r'' = Some e \<and> TRANSFER \<in> ce_capability ` set e)"
  using registries_well_typed [OF sample_registries_reachable] sample_registries_reachable sample_effective by fastforce

end
