(* ===== verification/Identity_Registry.thy ===== *)
theory Identity_Registry
  imports Network_Registry Evm_Adapter Js_Date
begin

text \<open>
  The identity registry of packages/core/src/identity-registry.ts: identities, the challenges issued
  for their network locators, the bindings a verified proof makes and the audit trail. The clock and the
  random IDs of a call are arguments of the operation, the proof verifiers a map from the kind of proof
  to the answer the verifier gives. \<open>verifyChallenge\<close> waits for its verifier between its checks and its
  writes, so it is modelled as the two parts before and after that wait, and as their composition.
\<close>

datatype identity_proof_kind = EVM_PERSONAL_SIGN | CANTON_AUTHORIZED_COMMAND

record identity_challenge_base =
  ch_id :: interweave_id
  ch_identityId :: interweave_id
  ch_networkId :: interweave_id
  ch_locator :: network_identity_locator
  ch_proofKind :: identity_proof_kind
  ch_nonce :: string
  ch_issuedAt :: iso_timestamp
  ch_expiresAt :: iso_timestamp

record identity_challenge = identity_challenge_base +
  ch_message :: string
  ch_consumedAt :: "iso_timestamp option"

record identity_proof =
  ip_kind :: identity_proof_kind
  ip_proof :: string
  ip_keyId :: "string option"

record verified_identity_proof =
  vp_method :: string
  vp_proofFingerprint :: string

type_synonym identity_verifiers =
  "(identity_proof_kind, identity_challenge \<Rightarrow> identity_proof \<Rightarrow> verified_identity_proof option result) js_map"

datatype identity_action = IDENTITY_CREATED | CHALLENGE_ISSUED | BINDING_VERIFIED | BINDING_REVOKED

record identity_event =
  ie_eventId :: interweave_id
  ie_identityId :: interweave_id
  ie_bindingId :: "interweave_id option"
  ie_challengeId :: "interweave_id option"
  ie_action :: identity_action
  ie_actor :: string
  ie_occurredAt :: iso_timestamp
  ie_proofFingerprint :: "string option"

record identity_registry =
  ir_identities :: "(interweave_id, identity) js_map"
  ir_challenges :: "(interweave_id, identity_challenge) js_map"
  ir_audit :: "identity_event list"

definition empty_identity_registry :: identity_registry where
  "empty_identity_registry = \<lparr>ir_identities = [], ir_challenges = [], ir_audit = []\<rparr>"

section \<open>Locators and messages\<close>

fun locator_type :: "network_identity_locator \<Rightarrow> network_type" where
  "locator_type (EvmAddress _) = EVM"
| "locator_type (CantonParty _) = CANTON"

fun locator_text :: "network_identity_locator \<Rightarrow> string" where
  "locator_text (EvmAddress address) = ''EVM:'' @ lower address"
| "locator_text (CantonParty party) = ''CANTON:'' @ party"

definition identity_challenge_message :: "'a identity_challenge_base_scheme \<Rightarrow> string" where
  "identity_challenge_message c =
     join [CHR 0x0A] [''InterWeave Identity Binding'', ''Version: 1'', ''Challenge: '' @ ch_id c,
       ''Identity: '' @ ch_identityId c, ''Network: '' @ ch_networkId c, ''Locator: '' @ locator_text (ch_locator c),
       ''Nonce: '' @ ch_nonce c, ''Issued At: '' @ ch_issuedAt c, ''Expires At: '' @ ch_expiresAt c]"

fun normalize_locator :: "network_identity_locator \<Rightarrow> network_identity_locator result" where
  "normalize_locator (EvmAddress address) =
     bind_result (assert_evm_address address) (\<lambda>_. Inr (EvmAddress (lower address)))"
| "normalize_locator (CantonParty party) =
     (if blank party then Inl (RegistryError INVALID_ARGUMENT ''Canton party is required'') else Inr (CantonParty party))"

fun locator_suffix :: "network_identity_locator \<Rightarrow> string" where
  "locator_suffix (EvmAddress address) = ''EVM|'' @ lower address"
| "locator_suffix (CantonParty party) = ''CANTON|'' @ party"

definition locator_key :: "interweave_id \<Rightarrow> network_identity_locator \<Rightarrow> string" where
  "locator_key networkId locator = networkId @ ''|'' @ locator_suffix locator"

section \<open>Operations\<close>

definition assert_actor :: "string \<Rightarrow> unit result" where
  "assert_actor actor =
     (if blank actor then Inl (RegistryError INVALID_ARGUMENT ''audit actor is required'') else Inr ())"

definition record_event :: "string \<Rightarrow> identity_event \<Rightarrow> (identity_registry, unit) comp" where
  "record_event random e =
     and_then (lift_result (assert_actor (ie_actor e))) (\<lambda>_.
       modify (\<lambda>s. s\<lparr>ir_audit := ir_audit s @ [e\<lparr>ie_eventId := ''IW:IDENTITY_AUDIT:'' @ random\<rparr>]\<rparr>))"

definition identity_event_of ::
  "interweave_id \<Rightarrow> interweave_id option \<Rightarrow> interweave_id option \<Rightarrow> identity_action \<Rightarrow> string \<Rightarrow> iso_timestamp
     \<Rightarrow> string option \<Rightarrow> identity_event" where
  "identity_event_of identity binding challenge action actor occurredAt fingerprint =
     \<lparr>ie_eventId = [], ie_identityId = identity, ie_bindingId = binding, ie_challengeId = challenge,
      ie_action = action, ie_actor = actor, ie_occurredAt = occurredAt, ie_proofFingerprint = fingerprint\<rparr>"

definition create_identity ::
  "js_date \<Rightarrow> string \<Rightarrow> interweave_id \<Rightarrow> string option \<Rightarrow> string \<Rightarrow> (identity_registry, identity) comp" where
  "create_identity now random i displayName actor =
     (if \<not> has_prefix_id i ''IW:IDENTITY:'' then throw (RegistryError INVALID_ARGUMENT ''invalid identity ID'')
      else if blank actor then throw (RegistryError INVALID_ARGUMENT ''audit actor is required'')
      else if displayName \<noteq> None \<and> blank (the displayName)
      then throw (RegistryError INVALID_ARGUMENT ''display name cannot be blank'')
      else and_then (gets ir_identities) (\<lambda>identities.
        if map_has identities i then throw (RegistryError ALREADY_EXISTS (''identity already exists: '' @ i))
        else and_then (iso_string now) (\<lambda>createdAt.
          let identity = \<lparr>id_id = i, id_displayName = displayName, id_bindings = [], id_createdAt = createdAt\<rparr> in
          and_then (modify (\<lambda>s. s\<lparr>ir_identities := map_set i identity (ir_identities s)\<rparr>)) (\<lambda>_.
          and_then (record_event random (identity_event_of i None None IDENTITY_CREATED actor createdAt None)) (\<lambda>_.
          ret identity)))))"

definition get_identity :: "identity_registry \<Rightarrow> interweave_id \<Rightarrow> identity option" where
  "get_identity s i = map_get (ir_identities s) i"

text \<open>\<open>new Date(now.getTime() + seconds * 1000)\<close>\<close>

definition date_plus :: "js_date \<Rightarrow> int \<Rightarrow> js_date" where
  "date_plus now seconds =
     (case now of None \<Rightarrow> None
      | Some t \<Rightarrow> if \<bar>t + seconds * 1000\<bar> \<le> 8640000000000000 then Some (t + seconds * 1000) else None)"

record challenge_input =
  ci_identityId :: interweave_id
  ci_networkId :: interweave_id
  ci_locator :: network_identity_locator
  ci_ttlSeconds :: js_number

definition check_challenge :: "networks \<Rightarrow> identity_registry \<Rightarrow> challenge_input \<Rightarrow> network_identity_locator result" where
  "check_challenge nets s input =
     (if \<not> map_has (ir_identities s) (ci_identityId input)
      then Inl (RegistryError NOT_FOUND (''identity not found: '' @ ci_identityId input))
      else case network_get nets (ci_networkId input) of
        None \<Rightarrow> Inl (RegistryError NOT_FOUND (''enabled network not found: '' @ ci_networkId input))
      | Some network \<Rightarrow>
          if \<not> net_enabled network
          then Inl (RegistryError NOT_FOUND (''enabled network not found: '' @ ci_networkId input))
          else if net_type network \<noteq> locator_type (ci_locator input)
          then Inl (RegistryError INVALID_ARGUMENT ''identity locator does not match network type'')
          else if not_safe_at_least (ci_ttlSeconds input) 1 \<or> num_val (ci_ttlSeconds input) > 900
          then Inl (RegistryError INVALID_ARGUMENT ''challenge TTL must be from 1 to 900 seconds'')
          else normalize_locator (ci_locator input))"

definition proof_kind_of :: "network_identity_locator \<Rightarrow> identity_proof_kind" where
  "proof_kind_of l = (case l of EvmAddress _ \<Rightarrow> EVM_PERSONAL_SIGN | CantonParty _ \<Rightarrow> CANTON_AUTHORIZED_COMMAND)"

definition issue_challenge ::
  "networks \<Rightarrow> js_date \<Rightarrow> string \<Rightarrow> string \<Rightarrow> string \<Rightarrow> challenge_input \<Rightarrow> string
     \<Rightarrow> (identity_registry, identity_challenge) comp" where
  "issue_challenge nets now random nonce eventRandom input actor =
     and_then (lift_result (assert_actor actor)) (\<lambda>_.
     and_then (gets (\<lambda>s. check_challenge nets s input)) (\<lambda>checked.
     and_then (lift_result checked) (\<lambda>locator.
     and_then (iso_string now) (\<lambda>issuedAt.
     and_then (iso_string (date_plus now (num_val (ci_ttlSeconds input)))) (\<lambda>expiresAt.
     let i = ''IW:IDENTITY_CHALLENGE:'' @ random;
         challenge = \<lparr>ch_id = i, ch_identityId = ci_identityId input, ch_networkId = ci_networkId input,
           ch_locator = locator, ch_proofKind = proof_kind_of locator, ch_nonce = nonce, ch_issuedAt = issuedAt,
           ch_expiresAt = expiresAt, ch_message = [], ch_consumedAt = None\<rparr>;
         challenge = challenge\<lparr>ch_message := identity_challenge_message challenge\<rparr> in
     and_then (modify (\<lambda>s. s\<lparr>ir_challenges := map_set i challenge (ir_challenges s)\<rparr>)) (\<lambda>_.
     and_then (record_event eventRandom
       (identity_event_of (ci_identityId input) None (Some i) CHALLENGE_ISSUED actor issuedAt None)) (\<lambda>_.
     ret challenge)))))))"

definition binding_active :: "js_date \<Rightarrow> network_identity \<Rightarrow> bool" where
  "binding_active now b \<longleftrightarrow> \<not> truthy (ni_revokedAt b)
     \<and> (\<not> truthy (ni_expiresAt b) \<or> date_before now (the (ni_expiresAt b)))"

definition binding_key :: "network_identity \<Rightarrow> string" where
  "binding_key b = locator_key (ni_networkId b) (ni_locator b)"

text \<open>The checks of \<open>verifyChallenge\<close> up to its call of the verifier.\<close>

definition proof_kind_text :: "identity_proof_kind \<Rightarrow> string" where
  "proof_kind_text k = (case k of EVM_PERSONAL_SIGN \<Rightarrow> ''EVM_PERSONAL_SIGN'' | CANTON_AUTHORIZED_COMMAND \<Rightarrow> ''CANTON_AUTHORIZED_COMMAND'')"

definition verify_begin ::
  "identity_verifiers \<Rightarrow> js_date \<Rightarrow> interweave_id \<Rightarrow> identity_proof \<Rightarrow> iso_timestamp option \<Rightarrow> string
     \<Rightarrow> identity_registry \<Rightarrow> identity_challenge result" where
  "verify_begin verifiers now challengeId proof bindingExpiresAt actor s =
     bind_result (assert_actor actor) (\<lambda>_.
     case map_get (ir_challenges s) challengeId of
       None \<Rightarrow> Inl (RegistryError NOT_FOUND (''challenge not found: '' @ challengeId))
     | Some challenge \<Rightarrow>
         if truthy (ch_consumedAt challenge) then Inl (RegistryError CONFLICT ''challenge has already been consumed'')
         else if date_reached now (ch_expiresAt challenge) then Inl (RegistryError CONFLICT ''challenge has expired'')
         else if ip_kind proof \<noteq> ch_proofKind challenge
         then Inl (RegistryError INVALID_ARGUMENT ''proof kind does not match challenge'')
         else if bindingExpiresAt \<noteq> None \<and> (\<not> valid_time (the bindingExpiresAt) \<or> date_reached now (the bindingExpiresAt))
         then Inl (RegistryError INVALID_ARGUMENT ''binding expiry must be a valid future timestamp'')
         else if \<not> map_has verifiers (ip_kind proof)
         then Inl (RegistryError INVALID_ARGUMENT (''no verifier configured for '' @ proof_kind_text (ip_kind proof)))
         else Inr challenge)"

definition all_bindings :: "(interweave_id, identity) js_map \<Rightarrow> network_identity list" where
  "all_bindings identities = concat (map id_bindings (map_values identities))"

text \<open>Its writes, once the verifier has answered: the challenge and the clock are those read before.\<close>

definition verify_finish ::
  "js_date \<Rightarrow> string \<Rightarrow> string \<Rightarrow> interweave_id \<Rightarrow> identity_challenge \<Rightarrow> iso_timestamp option \<Rightarrow> string
     \<Rightarrow> verified_identity_proof option \<Rightarrow> (identity_registry, network_identity) comp" where
  "verify_finish now random eventRandom challengeId challenge bindingExpiresAt actor answer =
     (case answer of
        None \<Rightarrow> throw (RegistryError INVALID_ARGUMENT ''proof of control verification failed'')
      | Some verified \<Rightarrow>
        and_then (gets (\<lambda>s. get_identity s (ch_identityId challenge))) (\<lambda>found.
        case found of
          None \<Rightarrow> throw (RegistryError NOT_FOUND (''identity not found: '' @ ch_identityId challenge))
        | Some identity \<Rightarrow>
          let key = locator_key (ch_networkId challenge) (ch_locator challenge) in
          and_then (gets (\<lambda>s. list_ex (\<lambda>b. binding_active now b \<and> binding_key b = key) (all_bindings (ir_identities s)))) (\<lambda>conflict.
          if conflict then throw (RegistryError CONFLICT ''network identity already has an active binding'')
          else and_then (iso_string now) (\<lambda>verifiedAt.
            let bindingId = ''IW:BINDING:'' @ random;
                binding = \<lparr>ni_bindingId = bindingId, ni_networkId = ch_networkId challenge, ni_locator = ch_locator challenge,
                  ni_proofMethod = vp_method verified, ni_verifiedAt = verifiedAt, ni_expiresAt = bindingExpiresAt,
                  ni_revokedAt = None\<rparr> in
            and_then (modify (\<lambda>s. s\<lparr>
              ir_identities := map_set (id_id identity) (identity\<lparr>id_bindings := id_bindings identity @ [binding]\<rparr>) (ir_identities s),
              ir_challenges := map_set challengeId (challenge\<lparr>ch_consumedAt := Some verifiedAt\<rparr>) (ir_challenges s)\<rparr>)) (\<lambda>_.
            and_then (record_event eventRandom (identity_event_of (id_id identity) (Some bindingId) (Some challengeId)
              BINDING_VERIFIED actor verifiedAt (Some (vp_proofFingerprint verified)))) (\<lambda>_.
            ret binding))))))"

text \<open>A call that no other call interleaves with.\<close>

definition verify_challenge ::
  "identity_verifiers \<Rightarrow> js_date \<Rightarrow> string \<Rightarrow> string \<Rightarrow> interweave_id \<Rightarrow> identity_proof \<Rightarrow> iso_timestamp option \<Rightarrow> string
     \<Rightarrow> (identity_registry, network_identity) comp" where
  "verify_challenge verifiers now random eventRandom challengeId proof bindingExpiresAt actor =
     and_then (gets (verify_begin verifiers now challengeId proof bindingExpiresAt actor)) (\<lambda>begun.
     and_then (lift_result begun) (\<lambda>challenge.
     and_then (lift_result (the (map_get verifiers (ip_kind proof)) challenge proof)) (\<lambda>answer.
     verify_finish now random eventRandom challengeId challenge bindingExpiresAt actor answer)))"

definition revoke_binding ::
  "js_date \<Rightarrow> string \<Rightarrow> interweave_id \<Rightarrow> interweave_id \<Rightarrow> string \<Rightarrow> (identity_registry, network_identity) comp" where
  "revoke_binding now eventRandom identityId bindingId actor =
     and_then (lift_result (assert_actor actor)) (\<lambda>_.
     and_then (gets (\<lambda>s. get_identity s identityId)) (\<lambda>found.
     case found of
       None \<Rightarrow> throw (RegistryError NOT_FOUND (''identity not found: '' @ identityId))
     | Some identity \<Rightarrow>
       (case find (\<lambda>b. ni_bindingId b = bindingId) (id_bindings identity) of
          None \<Rightarrow> throw (RegistryError NOT_FOUND (''binding not found: '' @ bindingId))
        | Some binding \<Rightarrow>
          if truthy (ni_revokedAt binding) then throw (RegistryError CONFLICT ''binding is already revoked'')
          else and_then (iso_string now) (\<lambda>occurredAt.
            let revoked = binding\<lparr>ni_revokedAt := Some occurredAt\<rparr> in
            and_then (modify (\<lambda>s. s\<lparr>ir_identities := map_set identityId (identity\<lparr>id_bindings :=
                map (\<lambda>b. if ni_bindingId b = bindingId then revoked else b) (id_bindings identity)\<rparr>) (ir_identities s)\<rparr>)) (\<lambda>_.
            and_then (record_event eventRandom
              (identity_event_of identityId (Some bindingId) None BINDING_REVOKED actor occurredAt None)) (\<lambda>_.
            ret revoked))))))"

definition active_bindings ::
  "js_date \<Rightarrow> interweave_id \<Rightarrow> interweave_id option \<Rightarrow> identity_registry \<Rightarrow> network_identity list result" where
  "active_bindings now identityId networkId s =
     (case get_identity s identityId of
        None \<Rightarrow> Inl (RegistryError NOT_FOUND (''identity not found: '' @ identityId))
      | Some identity \<Rightarrow> Inr (filter (\<lambda>b. binding_active now b
          \<and> (networkId = None \<or> networkId = Some (ni_networkId b))) (id_bindings identity)))"

definition audit_trail :: "interweave_id \<Rightarrow> identity_registry \<Rightarrow> identity_event list" where
  "audit_trail identityId s = filter (\<lambda>e. ie_identityId e = identityId) (ir_audit s)"

section \<open>At most one active binding\<close>

definition active_count :: "js_date \<Rightarrow> string \<Rightarrow> identity_registry \<Rightarrow> nat" where
  "active_count now key s = length (filter (\<lambda>b. binding_active now b \<and> binding_key b = key) (all_bindings (ir_identities s)))"

lemma active_later:
  assumes "binding_active (Some t) b" "u \<le> t"
  shows "binding_active (Some u) b"
  using assms by (auto simp: binding_active_def date_before_def before_time_def split: option.splits)

lemma map_set_split:
  "map_get m k = Some v \<Longrightarrow> \<exists>xs ys. m = xs @ (k, v) # ys \<and> (\<forall>w. map_set k w m = xs @ (k, w) # ys)"
proof (induction m)
  case (Cons p m)
  show ?case
  proof (cases "fst p = k")
    case True
    then show ?thesis using Cons.prems by (intro exI [of _ "[]"] exI [of _ m]) (cases p, auto)
  next
    case False
    then obtain xs ys where "m = xs @ (k, v) # ys" "\<forall>w. map_set k w m = xs @ (k, w) # ys"
      using Cons by (cases p) auto
    then show ?thesis using False by (intro exI [of _ "p # xs"] exI [of _ ys]) (cases p, auto)
  qed
qed simp

lemma all_bindings_set:
  assumes "map_get m k = Some v"
  shows "\<exists>xs ys. all_bindings m = xs @ id_bindings v @ ys \<and> (\<forall>w. all_bindings (map_set k w m) = xs @ id_bindings w @ ys)"
proof -
  obtain xs ys where "m = xs @ (k, v) # ys" "\<forall>w. map_set k w m = xs @ (k, w) # ys"
    using map_set_split [OF assms] by blast
  then show ?thesis
    by (intro exI [of _ "all_bindings xs"] exI [of _ "all_bindings ys"]) (simp add: all_bindings_def)
qed

lemma all_bindings_fresh: "map_get m k = None \<Longrightarrow> all_bindings (map_set k v m) = all_bindings m @ id_bindings v"
  by (simp add: all_bindings_def map_set_fresh)

text \<open>What each operation does to the audit trail and the identities.\<close>

lemma record_event_audit:
  "record_event random e s = (res, s') \<Longrightarrow> (\<exists>es. ir_audit s' = ir_audit s @ es) \<and> ir_challenges s' = ir_challenges s"
  by (cases "blank (ie_actor e)") (clarsimp simp: record_event_def and_then_def assert_actor_def)+

lemma issue_challenge_D:
  assumes "issue_challenge nets now random nonce event input actor s = (res, s')"
  shows "s' = s \<or> (\<exists>c e. ie_action e = CHALLENGE_ISSUED \<and> ie_challengeId e = Some (''IW:IDENTITY_CHALLENGE:'' @ random)
      \<and> ir_challenges s' = map_set (''IW:IDENTITY_CHALLENGE:'' @ random) c (ir_challenges s) \<and> ir_audit s' = ir_audit s @ [e])"
proof (cases "blank actor")
  case True
  then show ?thesis using assms by (simp add: issue_challenge_def and_then_def assert_actor_def)
next
  case False
  then show ?thesis
    using assms
    by (cases "check_challenge nets s input"; cases now; cases "date_plus now (num_val (ci_ttlSeconds input))")
      (clarsimp simp: issue_challenge_def and_then_def Let_def record_event_def assert_actor_def identity_event_of_def
        iso_string_def, blast?)+
qed

lemma record_event_identities [simp]:
  "record_event random e s = (res, s') \<Longrightarrow> ir_identities s' = ir_identities s \<and> ir_challenges s' = ir_challenges s"
  by (auto simp: record_event_def and_then_def split: sum.splits)

lemma iso_string_cases:
  "iso_string now s = (res, s') \<Longrightarrow> s' = s \<and> (\<forall>x. res = Inr x \<longrightarrow> (\<exists>t. now = Some t \<and> x = to_iso_string t))"
  by (cases now) (auto simp: iso_string_def)

lemma create_identity_cases:
  assumes "create_identity now random i displayName actor s = (res, s')"
  shows "ir_identities s' = ir_identities s \<or> get_identity s i = None
    \<and> (\<exists>createdAt. ir_identities s' = map_set i
         \<lparr>id_id = i, id_displayName = displayName, id_bindings = [], id_createdAt = createdAt\<rparr> (ir_identities s))"
  using assms
  by (auto simp: create_identity_def and_then_def Let_def map_has_def get_identity_def
      split: if_splits prod.splits sum.splits dest!: record_event_identities iso_string_cases)

lemma issue_challenge_identities:
  assumes "issue_challenge nets now random nonce eventRandom input actor s = (res, s')"
  shows "ir_identities s' = ir_identities s"
  using assms
  by (auto simp: issue_challenge_def and_then_def Let_def
      split: prod.splits sum.splits dest!: record_event_identities iso_string_cases)

text \<open>A finished verification adds one binding, at a locator that had none active at its clock.\<close>

lemma verify_finish_cases:
  assumes "verify_finish now random eventRandom challengeId challenge expires actor answer s = (res, s')"
  shows "s' = s \<or> (\<exists>identity t verified. get_identity s (ch_identityId challenge) = Some identity \<and> now = Some t
    \<and> answer = Some verified
    \<and> active_count now (locator_key (ch_networkId challenge) (ch_locator challenge)) s = 0
    \<and> ir_identities s' = map_set (id_id identity) (identity\<lparr>id_bindings := id_bindings identity @
        [\<lparr>ni_bindingId = ''IW:BINDING:'' @ random, ni_networkId = ch_networkId challenge, ni_locator = ch_locator challenge,
          ni_proofMethod = vp_method verified, ni_verifiedAt = to_iso_string t, ni_expiresAt = expires, ni_revokedAt = None\<rparr>]\<rparr>)
        (ir_identities s)
    \<and> ir_challenges s' = map_set challengeId (challenge\<lparr>ch_consumedAt := Some (to_iso_string t)\<rparr>) (ir_challenges s))"
  using assms
  by (auto simp: verify_finish_def and_then_def Let_def active_count_def list_ex_iff filter_empty_conv
      split: option.splits if_splits prod.splits sum.splits dest!: record_event_identities iso_string_cases)

lemma revoke_binding_cases:
  assumes "revoke_binding now eventRandom identityId bindingId actor s = (res, s')"
  shows "ir_identities s' = ir_identities s \<or> (\<exists>identity binding t. get_identity s identityId = Some identity
    \<and> ir_identities s' = map_set identityId (identity\<lparr>id_bindings :=
        map (\<lambda>b. if ni_bindingId b = bindingId then binding\<lparr>ni_revokedAt := Some (to_iso_string t)\<rparr> else b)
          (id_bindings identity)\<rparr>) (ir_identities s))"
  using assms
  by (auto simp: revoke_binding_def and_then_def Let_def
      split: option.splits if_splits prod.splits sum.splits dest!: record_event_identities iso_string_cases)

section \<open>Runs\<close>

text \<open>
  A verification that has called its verifier and waits for the answer, and the states that any
  interleaving of calls reaches, \<open>T\<close> being at or after every reading of the clock so far.
\<close>

record pending_verification =
  pv_now :: js_date
  pv_challengeId :: interweave_id
  pv_challenge :: identity_challenge
  pv_expires :: "iso_timestamp option"
  pv_actor :: string

inductive identity_from ::
  "(pending_verification list \<Rightarrow> identity_registry \<Rightarrow> bool) \<Rightarrow> int \<Rightarrow> pending_verification list \<Rightarrow> identity_registry \<Rightarrow> bool"
  for start where
  ir_start: "start P s \<Longrightarrow> identity_from start T P s"
| ir_clock: "identity_from start T P s \<Longrightarrow> T \<le> T' \<Longrightarrow> identity_from start T' P s"
| ir_create: "identity_from start T P s \<Longrightarrow> create_identity now random i name actor s = (res, s') \<Longrightarrow> identity_from start T P s'"
| ir_issue: "identity_from start T P s \<Longrightarrow> issue_challenge nets now random nonce event input actor s = (res', s')
    \<Longrightarrow> identity_from start T P s'"
| ir_begin: "identity_from start T P s \<Longrightarrow> \<forall>t. now = Some t \<longrightarrow> t \<le> T
    \<Longrightarrow> verify_begin verifiers now challengeId proof expires actor s = Inr challenge
    \<Longrightarrow> identity_from start T (\<lparr>pv_now = now, pv_challengeId = challengeId, pv_challenge = challenge, pv_expires = expires,
          pv_actor = actor\<rparr> # P) s"
| ir_finish: "identity_from start T P s \<Longrightarrow> p \<in> set P
    \<Longrightarrow> verify_finish (pv_now p) random event (pv_challengeId p) (pv_challenge p) (pv_expires p) (pv_actor p) answer s = (res'', s')
    \<Longrightarrow> identity_from start T (remove1 p P) s'"
| ir_revoke: "identity_from start T P s \<Longrightarrow> revoke_binding now event identityId bindingId actor s = (res'', s')
    \<Longrightarrow> identity_from start T P s'"

abbreviation identity_reachable :: "int \<Rightarrow> pending_verification list \<Rightarrow> identity_registry \<Rightarrow> bool" where
  "identity_reachable \<equiv> identity_from (\<lambda>P s. P = [] \<and> s = empty_identity_registry)"

text \<open>The states that calls make of a registry, whatever verifications were already waiting.\<close>

abbreviation identity_later :: "identity_registry \<Rightarrow> identity_registry \<Rightarrow> bool" where
  "identity_later s s' \<equiv> \<exists>T P. identity_from (\<lambda>_ x. x = s) T P s'"

lemma to_iso_string_truthy [simp]: "truthy (Some (to_iso_string t))"
  by (simp add: truthy_def to_iso_string_def Let_def)

lemma active_count_later: "u \<le> t \<Longrightarrow> active_count (Some t) key s \<le> active_count (Some u) key s"
  unfolding active_count_def
proof (induction "all_bindings (ir_identities s)" arbitrary: s)
qed (auto simp: length_filter_conv_card intro!: card_mono dest: active_later)

lemma active_count_cong: "ir_identities s' = ir_identities s \<Longrightarrow> active_count now key s' = active_count now key s"
  by (simp add: active_count_def)

lemma active_count_map:
  assumes "get_identity s i = Some v" "ir_identities s' = map_set i (v\<lparr>id_bindings := map f (id_bindings v)\<rparr>) (ir_identities s)"
    and "\<And>b. b \<in> set (id_bindings v) \<Longrightarrow> binding_active now (f b) \<Longrightarrow> f b = b"
  shows "active_count now key s' \<le> active_count now key s"
proof -
  have "length (filter (\<lambda>b. binding_active now b \<and> binding_key b = key) (map f bs))
      \<le> length (filter (\<lambda>b. binding_active now b \<and> binding_key b = key) bs)"
    if "set bs \<subseteq> set (id_bindings v)" for bs
    using that assms(3) by (induction bs) (auto, metis+)
  then show ?thesis
    using all_bindings_set [of "ir_identities s" i v] assms(1,2) by (fastforce simp: active_count_def get_identity_def)
qed

lemma active_count_snoc:
  assumes "get_identity s i = Some v" "ir_identities s' = map_set i (v\<lparr>id_bindings := id_bindings v @ [b]\<rparr>) (ir_identities s)"
  shows "active_count now key s' = active_count now key s + (if binding_active now b \<and> binding_key b = key then 1 else 0)"
  using all_bindings_set [of "ir_identities s" i v] assms by (fastforce simp: active_count_def get_identity_def)

definition identities_ok :: "int \<Rightarrow> pending_verification list \<Rightarrow> identity_registry \<Rightarrow> bool" where
  "identities_ok T P s \<longleftrightarrow> (\<forall>i v. get_identity s i = Some v \<longrightarrow> id_id v = i)
     \<and> (\<forall>p \<in> set P. \<forall>t. pv_now p = Some t \<longrightarrow> t \<le> T)
     \<and> (\<forall>t key. T \<le> t \<longrightarrow> active_count (Some t) key s \<le> 1)"

lemma identities_ok_cong: "ir_identities s' = ir_identities s \<Longrightarrow> identities_ok T P s \<Longrightarrow> identities_ok T P s'"
  by (simp add: identities_ok_def get_identity_def active_count_def)

lemma identities_ok_create:
  assumes "identities_ok T P s" "create_identity now random i name actor s = (res, s')"
  shows "identities_ok T P s'"
proof (cases "ir_identities s' = ir_identities s")
  case False
  then obtain c where "get_identity s i = None"
    "ir_identities s' = map_set i \<lparr>id_id = i, id_displayName = name, id_bindings = [], id_createdAt = c\<rparr> (ir_identities s)"
    using create_identity_cases [OF assms(2)] by blast
  then show ?thesis
    using assms(1) all_bindings_fresh [of "ir_identities s" i]
    by (auto simp: identities_ok_def get_identity_def active_count_def)
qed (rule identities_ok_cong [OF _ assms(1)])

lemma identities_ok_revoke:
  assumes "identities_ok T P s" "revoke_binding now event i bindingId actor s = (res, s')"
  shows "identities_ok T P s'"
proof (cases "ir_identities s' = ir_identities s")
  case False
  then obtain v b t where v: "get_identity s i = Some v"
    and s': "ir_identities s' = map_set i (v\<lparr>id_bindings := map (\<lambda>x. if ni_bindingId x = bindingId
        then b\<lparr>ni_revokedAt := Some (to_iso_string t)\<rparr> else x) (id_bindings v)\<rparr>) (ir_identities s)"
    using revoke_binding_cases [OF assms(2)] by blast
  have "active_count (Some u) key s' \<le> active_count (Some u) key s" for u key
    by (rule active_count_map [OF v s']) (auto simp: binding_active_def split: if_splits)
  then have "active_count (Some u) key s' \<le> 1" if "T \<le> u" for u key
    using assms(1) that unfolding identities_ok_def by (meson order_trans)
  then show ?thesis
    using assms(1) v s' unfolding identities_ok_def get_identity_def by auto
qed (rule identities_ok_cong [OF _ assms(1)])

lemma identities_ok_finish:
  assumes ok: "identities_ok T P s" and p: "p \<in> set P"
    and run: "verify_finish (pv_now p) random event (pv_challengeId p) (pv_challenge p) (pv_expires p) (pv_actor p) answer s = (res, s')"
  shows "identities_ok T (remove1 p P) s'"
proof -
  have P: "\<forall>q \<in> set (remove1 p P). \<forall>t. pv_now q = Some t \<longrightarrow> t \<le> T"
    using ok set_remove1_subset [of p P] unfolding identities_ok_def by blast
  have same: ?thesis if "s' = s"
    using ok P that unfolding identities_ok_def by simp
  have bound: ?thesis if v: "get_identity s i = Some v" "id_id v = i" and now: "pv_now p = Some t"
    and none: "active_count (Some t) (binding_key b) s = 0"
    and s': "ir_identities s' = map_set i (v\<lparr>id_bindings := id_bindings v @ [b]\<rparr>) (ir_identities s)" for v i b t
  proof -
    have "active_count (Some u) key s' \<le> 1" if "T \<le> u" for u key
    proof -
      have "t \<le> u" using ok p now that unfolding identities_ok_def by fastforce
      then have "active_count (Some u) (binding_key b) s = 0"
        using active_count_later [of t u "binding_key b" s] none by simp
      moreover have "active_count (Some u) key s \<le> 1" using ok that unfolding identities_ok_def by blast
      ultimately show ?thesis using active_count_snoc [OF v(1) s', of "Some u" key] by auto
    qed
    then show ?thesis
      using ok P v s' unfolding identities_ok_def get_identity_def by auto
  qed
  show ?thesis
    using verify_finish_cases [OF run]
  proof (elim disjE exE conjE)
    fix v t verified
    assume v: "get_identity s (ch_identityId (pv_challenge p)) = Some v" and now: "pv_now p = Some t"
      and none: "active_count (pv_now p) (locator_key (ch_networkId (pv_challenge p)) (ch_locator (pv_challenge p))) s = 0"
      and s': "ir_identities s' = map_set (id_id v) (v\<lparr>id_bindings := id_bindings v @
        [\<lparr>ni_bindingId = ''IW:BINDING:'' @ random, ni_networkId = ch_networkId (pv_challenge p),
          ni_locator = ch_locator (pv_challenge p), ni_proofMethod = vp_method verified,
          ni_verifiedAt = to_iso_string t, ni_expiresAt = pv_expires p, ni_revokedAt = None\<rparr>]\<rparr>) (ir_identities s)"
    have "id_id v = ch_identityId (pv_challenge p)" using ok v unfolding identities_ok_def by blast
    then have i: "get_identity s (id_id v) = Some v" using v by simp
    show ?thesis
      by (rule bound [OF i refl now _ s']) (simp add: binding_key_def none flip: now)
  qed (rule same)
qed

lemma identity_reachable_ok: "identity_reachable T P s \<Longrightarrow> identities_ok T P s"
proof (induction rule: identity_from.induct)
  case (ir_start P s T)
  then show ?case
    by (simp add: identities_ok_def empty_identity_registry_def get_identity_def active_count_def all_bindings_def)
next
  case (ir_clock T P s T')
  then show ?case unfolding identities_ok_def by (meson order_trans)
next
  case (ir_begin T P s now verifiers challengeId pf expires actor challenge)
  then show ?case unfolding identities_ok_def by simp
qed (auto intro: identities_ok_create identities_ok_revoke identities_ok_finish identities_ok_cong issue_challenge_identities)

lemma finish_uses:
  assumes "verify_finish now random event i challenge expires actor answer s = (Inr b, s')"
  shows "answer \<noteq> None" "active_count now (binding_key b) s = 0"
    "\<exists>c. map_get (ir_challenges s') i = Some c \<and> truthy (ch_consumedAt c)"
  using assms
  by (auto simp: verify_finish_def and_then_def Let_def active_count_def binding_key_def list_ex_iff filter_empty_conv
      split: option.splits if_splits prod.splits sum.splits dest!: record_event_identities iso_string_cases)

section \<open>A consumed challenge stays consumed\<close>

definition consumed :: "interweave_id \<Rightarrow> identity_registry \<Rightarrow> bool" where
  "consumed i s \<longleftrightarrow> (\<exists>c. map_get (ir_challenges s) i = Some c \<and> truthy (ch_consumedAt c))"

text \<open>What a call adds to the audit trail: nothing is taken away, and only a new challenge of the same ID revives one.\<close>

definition issued_again :: "interweave_id \<Rightarrow> identity_event list \<Rightarrow> bool" where
  "issued_again i es \<longleftrightarrow> (\<exists>e \<in> set es. ie_action e = CHALLENGE_ISSUED \<and> ie_challengeId e = Some i)"

definition uses_up :: "interweave_id \<Rightarrow> identity_registry \<Rightarrow> identity_registry \<Rightarrow> bool" where
  "uses_up i s s' \<longleftrightarrow> (\<exists>es. ir_audit s' = ir_audit s @ es \<and> (consumed i s \<longrightarrow> issued_again i es \<or> consumed i s'))"

lemma uses_up_refl: "uses_up i s s"
  by (simp add: uses_up_def)

lemma uses_up_trans:
  assumes "uses_up i s s'" "uses_up i s' s''"
  shows "uses_up i s s''"
proof -
  obtain es fs where "ir_audit s' = ir_audit s @ es" "consumed i s \<longrightarrow> issued_again i es \<or> consumed i s'"
    "ir_audit s'' = ir_audit s' @ fs" "consumed i s' \<longrightarrow> issued_again i fs \<or> consumed i s''"
    using assms unfolding uses_up_def by blast
  then show ?thesis
    unfolding uses_up_def by (intro exI [of _ "es @ fs"]) (auto simp: issued_again_def)
qed

lemma uses_up_same: "ir_challenges s' = ir_challenges s \<Longrightarrow> ir_audit s' = ir_audit s @ es \<Longrightarrow> uses_up i s s'"
  by (auto simp: uses_up_def consumed_def)

lemma create_uses_up: "create_identity now random k name actor s = (res, s') \<Longrightarrow> uses_up i s s'"
  by (auto simp: create_identity_def and_then_def Let_def uses_up_refl
      split: if_splits prod.splits sum.splits dest!: record_event_audit iso_string_cases intro: uses_up_same)

lemma revoke_uses_up: "revoke_binding now event k bindingId actor s = (res, s') \<Longrightarrow> uses_up i s s'"
  by (auto simp: revoke_binding_def and_then_def Let_def uses_up_refl
      split: option.splits if_splits prod.splits sum.splits dest!: record_event_audit iso_string_cases intro: uses_up_same)

lemma finish_uses_up:
  assumes "verify_finish now random event k challenge expires actor answer s = (res, s')"
  shows "uses_up i s s'"
proof -
  have "(\<exists>es. ir_audit s' = ir_audit s @ es)" "consumed i s \<longrightarrow> consumed i s'"
    using assms
    by (auto simp: verify_finish_def and_then_def Let_def consumed_def
        split: option.splits if_splits prod.splits sum.splits dest!: record_event_audit iso_string_cases)
  then show ?thesis by (auto simp: uses_up_def)
qed

lemma issue_uses_up:
  assumes "issue_challenge nets now random nonce event input actor s = (res, s')"
  shows "uses_up i s s'"
  using issue_challenge_D [OF assms]
proof -
  assume "s' = s \<or> (\<exists>c e. ie_action e = CHALLENGE_ISSUED \<and> ie_challengeId e = Some (''IW:IDENTITY_CHALLENGE:'' @ random)
      \<and> ir_challenges s' = map_set (''IW:IDENTITY_CHALLENGE:'' @ random) c (ir_challenges s) \<and> ir_audit s' = ir_audit s @ [e])"
  then show ?thesis
  proof (elim disjE exE conjE)
    fix c e
    assume "ie_action e = CHALLENGE_ISSUED" "ie_challengeId e = Some (''IW:IDENTITY_CHALLENGE:'' @ random)"
      "ir_challenges s' = map_set (''IW:IDENTITY_CHALLENGE:'' @ random) c (ir_challenges s)" "ir_audit s' = ir_audit s @ [e]"
    then show ?thesis
      unfolding uses_up_def by (intro exI [of _ "[e]"]) (auto simp: issued_again_def consumed_def)
  qed (simp add: uses_up_refl)
qed

lemma later_uses_up: "identity_from (\<lambda>_ x. x = s) T P s' \<Longrightarrow> uses_up i s s'"
proof (induction rule: identity_from.induct)
  case (ir_start P s' T)
  then show ?case by (simp add: uses_up_refl)
qed (auto intro: uses_up_trans create_uses_up revoke_uses_up finish_uses_up issue_uses_up)

lemma consumed_refused: "consumed i s \<Longrightarrow> \<exists>e. verify_begin verifiers now i p expires actor s = Inl e"
  by (auto simp: verify_begin_def assert_actor_def consumed_def)

section \<open>What the registry guarantees\<close>

text \<open>
  C29. However calls interleave, also while verifiers are being waited for, at no time from the last
  reading of the clock on do two bindings of the registry, of one identity or of two, hold the same
  network locator actively. A verification binds only with the verifier's approval and where nothing is
  active at its own reading of the clock. Whatever calls follow, the audit trail only grows, and a verification of the
  same challenge that is begun afterwards is refused, unless a new challenge was issued under the same
  ID. Verifications begun before are not covered: see \<open>finish_ignores_consumption\<close> below.
\<close>

theorem one_active_binding:
  assumes "identity_reachable T P s"
  shows "(\<forall>t key. T \<le> t \<longrightarrow> active_count (Some t) key s \<le> 1)
    \<and> (\<forall>now random event i challenge expires actor answer b s'.
         verify_finish now random event i challenge expires actor answer s = (Inr b, s') \<longrightarrow>
           answer \<noteq> None \<and> active_count now (binding_key b) s = 0
           \<and> (\<forall>s''. identity_later s' s'' \<longrightarrow> (\<exists>es. ir_audit s'' = ir_audit s' @ es
                \<and> (issued_again i es \<or> (\<forall>verifiers now' proof expires' actor'.
                     \<exists>e. verify_begin verifiers now' i proof expires' actor' s'' = Inl e)))))"
proof (intro conjI allI impI)
  show "active_count (Some t) key s \<le> 1" if "T \<le> t" for t key
    using identity_reachable_ok [OF assms] that unfolding identities_ok_def by blast
next
  fix now random event i challenge expires actor answer b s' s''
  assume fin: "verify_finish now random event i challenge expires actor answer s = (Inr b, s')" and "identity_later s' s''"
  then obtain es where "ir_audit s'' = ir_audit s' @ es" "consumed i s' \<longrightarrow> issued_again i es \<or> consumed i s''"
    using later_uses_up unfolding uses_up_def by blast
  moreover have "consumed i s'" using finish_uses(3) [OF fin] by (simp add: consumed_def)
  ultimately show "\<exists>es. ir_audit s'' = ir_audit s' @ es
      \<and> (issued_again i es \<or> (\<forall>verifiers now' proof expires' actor'.
           \<exists>e. verify_begin verifiers now' i proof expires' actor' s'' = Inl e))"
    using consumed_refused by blast
qed (erule finish_uses, erule finish_uses)

text \<open>
  Single use holds of calls that do not overlap. The second part of a verification does not look at the
  challenge in the registry again: one that was begun before another consumed the challenge still makes
  its binding, once no active binding is in its way (the first may have been revoked meanwhile).
\<close>

lemma record_event_ok:
  "\<not> blank actor \<Longrightarrow> record_event random (identity_event_of i b c a actor t f) s =
     (Inr (), s\<lparr>ir_audit := ir_audit s @ [(identity_event_of i b c a actor t f)\<lparr>ie_eventId := ''IW:IDENTITY_AUDIT:'' @ random\<rparr>]\<rparr>)"
  by (simp add: record_event_def and_then_def assert_actor_def identity_event_of_def)

lemma finish_ignores_consumption:
  assumes "get_identity s (ch_identityId challenge) = Some v" "\<not> blank actor"
    and "active_count (Some t) (locator_key (ch_networkId challenge) (ch_locator challenge)) s = 0"
  shows "\<not> isl (fst (verify_finish (Some t) random event i challenge expires actor (Some verified) s))"
proof -
  have "\<not> list_ex (\<lambda>b. binding_active (Some t) b \<and> binding_key b = locator_key (ch_networkId challenge) (ch_locator challenge))
      (all_bindings (ir_identities s))"
    using assms(3) by (simp add: active_count_def filter_empty_conv list_ex_iff)
  then show ?thesis
    using assms(1,2) by (simp add: verify_finish_def and_then_def iso_string_def record_event_ok Let_def split del: if_split)
qed

section \<open>A run\<close>

definition run_network :: network where
  "run_network = \<lparr>net_id = ''IW:NETWORK:n'', net_type = CANTON, net_name = ''n'', net_environment = ''TESTNET'',
     net_endpoints = [''u''], net_chainId = None, net_finalityPolicy = CANTON_COMPLETION None,
     net_adapterConfiguration = [], net_enabled = True\<rparr>"

definition run_input :: challenge_input where
  "run_input = \<lparr>ci_identityId = ''IW:IDENTITY:a'', ci_networkId = ''IW:NETWORK:n'', ci_locator = CantonParty ''p'',
     ci_ttlSeconds = JInt 60\<rparr>"

definition run_proof :: identity_proof where
  "run_proof = \<lparr>ip_kind = CANTON_AUTHORIZED_COMMAND, ip_proof = ''s'', ip_keyId = None\<rparr>"

definition run_verified :: verified_identity_proof where
  "run_verified = \<lparr>vp_method = ''M'', vp_proofFingerprint = ''f''\<rparr>"

definition run_verifiers :: identity_verifiers where
  "run_verifiers = [(CANTON_AUTHORIZED_COMMAND, \<lambda>c p. Inr (Some run_verified))]"

definition run_start :: identity_registry where
  "run_start = snd (issue_challenge [(''IW:NETWORK:n'', run_network)] (Some 0) ''c'' ''x'' ''2'' run_input ''admin''
     (snd (create_identity (Some 0) ''1'' ''IW:IDENTITY:a'' None ''admin'' empty_identity_registry)))"

definition run_challenge :: identity_challenge where
  "run_challenge = the (map_get (ir_challenges run_start) ''IW:IDENTITY_CHALLENGE:c'')"

definition run_pending :: pending_verification where
  "run_pending = \<lparr>pv_now = Some 1000, pv_challengeId = ''IW:IDENTITY_CHALLENGE:c'', pv_challenge = run_challenge,
     pv_expires = None, pv_actor = ''a''\<rparr>"

text \<open>Two verifications of one challenge wait for their verifiers; the first finishes, its binding is revoked.\<close>

definition run_first :: "network_identity result \<times> identity_registry" where
  "run_first = verify_finish (Some 1000) ''b1'' ''3'' ''IW:IDENTITY_CHALLENGE:c'' run_challenge None ''a'' (Some run_verified) run_start"

definition run_revoked :: "network_identity result \<times> identity_registry" where
  "run_revoked = revoke_binding (Some 2000) ''4'' ''IW:IDENTITY:a'' ''IW:BINDING:b1'' ''admin'' (snd run_first)"

definition run_second :: "network_identity result \<times> identity_registry" where
  "run_second = verify_finish (Some 1000) ''b2'' ''5'' ''IW:IDENTITY_CHALLENGE:c'' run_challenge None ''a'' (Some run_verified) (snd run_revoked)"

lemma run_start_challenge: "\<exists>c. map_get (ir_challenges run_start) ''IW:IDENTITY_CHALLENGE:c'' = Some c
    \<and> ch_proofKind c = CANTON_AUTHORIZED_COMMAND \<and> ch_expiresAt c = to_iso_string 60000 \<and> ch_consumedAt c = None"
  unfolding run_start_def
  by (simp add: create_identity_def issue_challenge_def and_then_def Let_def record_event_ok
      iso_string_def check_challenge_def assert_actor_def empty_identity_registry_def run_input_def run_network_def map_has_def
      network_get_def not_safe_at_least_def has_prefix_id_def starts_with_def date_plus_def blank_iff js_space_def proof_kind_of_def
      split del: if_split)

lemma run_begin:
  "verify_begin run_verifiers (Some 1000) ''IW:IDENTITY_CHALLENGE:c'' run_proof None ''a'' run_start = Inr run_challenge"
proof -
  obtain c where c: "map_get (ir_challenges run_start) ''IW:IDENTITY_CHALLENGE:c'' = Some c"
    "ch_proofKind c = CANTON_AUTHORIZED_COMMAND" "ch_expiresAt c = to_iso_string 60000" "ch_consumedAt c = None"
    using run_start_challenge by blast
  then have "\<not> date_reached (Some 1000) (ch_expiresAt c)"
    by (simp add: date_reached_def reached_def date_parse_to_iso_string)
  then show ?thesis
    using c by (simp add: verify_begin_def run_challenge_def assert_actor_def blank_iff js_space_def run_proof_def
        run_verifiers_def map_has_def truthy_def)
qed

lemma run_reachable: "identity_reachable 2000 [] (snd run_second)"
proof -
  have 1: "identity_reachable 2000 [] run_start"
    unfolding run_start_def by (rule ir_issue [OF ir_create [OF ir_start]]) (simp, rule prod.collapse [symmetric], rule prod.collapse [symmetric])
  have 2: "identity_reachable 2000 [run_pending] run_start"
    using ir_begin [OF 1 _ run_begin] by (simp add: run_pending_def)
  have 3: "identity_reachable 2000 [run_pending, run_pending] run_start"
    using ir_begin [OF 2 _ run_begin] by (simp add: run_pending_def)
  have "verify_finish (pv_now run_pending) ''b1'' ''3'' (pv_challengeId run_pending) (pv_challenge run_pending)
      (pv_expires run_pending) (pv_actor run_pending) (Some run_verified) run_start = (fst run_first, snd run_first)"
    by (simp add: run_first_def run_pending_def)
  from ir_finish [OF 3 _ this] have 4: "identity_reachable 2000 [run_pending] (snd run_first)"
    by simp
  have 5: "identity_reachable 2000 [run_pending] (snd run_revoked)"
    unfolding run_revoked_def by (rule ir_revoke [OF 4 prod.collapse [symmetric]])
  have "verify_finish (pv_now run_pending) ''b2'' ''5'' (pv_challengeId run_pending) (pv_challenge run_pending)
      (pv_expires run_pending) (pv_actor run_pending) (Some run_verified) (snd run_revoked) = (fst run_second, snd run_second)"
    by (simp add: run_second_def run_pending_def)
  from ir_finish [OF 5 _ this] show ?thesis
    by simp
qed

theorem one_active_binding_witness:
  "identity_reachable 2000 [] (snd run_second)
    \<and> active_count (Some 2000) ''IW:NETWORK:n|CANTON|p'' (snd run_second) \<le> 1"
  using one_active_binding [OF run_reachable] run_reachable by blast

end
