(* ===== verification/Canton_Adapter.thy ===== *)
theory Canton_Adapter
  imports Invariants Canonical_Json
begin

text \<open>
  The Canton adapter of packages/core/src/canton-adapter.ts. The Ledger API transport and the token
  gateways are outside the program: records of the answers they give at the time of a call. The client
  keeps the connection it made, whose authorised parties bound every party scope it lets through; a value
  the source leaves \<open>unknown\<close> is a JSON value.
\<close>

record canton_connection =
  cn_networkId :: interweave_id
  cn_participantId :: string
  cn_authorizedParties :: "string list"
  cn_connectedAt :: iso_timestamp

datatype canton_health_status = CANTON_HEALTHY | CANTON_DEGRADED | CANTON_UNAVAILABLE

record canton_health =
  hl_status :: canton_health_status
  hl_participantId :: "string option"
  hl_ledgerEnd :: "string option"
  hl_checkedAt :: iso_timestamp
  hl_details :: string_record

datatype canton_standard = CIP0056 | CIP0112

record canton_asset_metadata =
  cm_representationId :: interweave_id
  cm_name :: string
  cm_symbol :: string
  cm_decimals :: js_number
  cm_issuerParty :: string
  cm_registryId :: string
  cm_tokenStandard :: canton_standard
  cm_capabilities :: "asset_capability list"

record canton_holding =
  ho_holdingId :: string
  ho_representationId :: interweave_id
  ho_owner :: string
  ho_amount :: atomic_amount
  ho_locked :: bool
  ho_visibleAt :: string

record canton_transfer_request =
  rq_representationId :: interweave_id
  rq_sender :: string
  rq_receiver :: string
  rq_amount :: atomic_amount
  rq_idempotencyKey :: string
  rq_metadata :: string_record

record prepared_canton_transfer =
  pt_request :: canton_transfer_request
  pt_commandId :: string
  pt_requiredActAs :: "string list"
  pt_expiresAt :: iso_timestamp
  pt_opaqueCommand :: json

datatype canton_submission_status = CANTON_SUBMITTED | CANTON_REJECTED

record canton_submission =
  sm_commandId :: string
  sm_externalTransactionId :: "string option"
  sm_status :: canton_submission_status
  sm_rejectionReason :: "string option"

datatype canton_transaction_status = COMMITTED | OBSERVED_REJECTED | OBSERVED_UNKNOWN

record canton_transaction_observation =
  to_externalTransactionId :: string
  to_status :: canton_transaction_status
  to_completionOffset :: "string option"
  to_synchronizerId :: "string option"
  to_observedByParticipant :: string
  to_observedAt :: iso_timestamp

datatype canton_event_kind = EVENT_CREATED | EVENT_ARCHIVED | EVENT_REASSIGNED

record canton_event =
  cv_offset :: string
  cv_transactionId :: string
  cv_kind :: canton_event_kind
  cv_templateOrInterfaceId :: string
  cv_payload :: json
  cv_witnessedBy :: "string list"

record canton_state_query =
  qy_parties :: "string list"
  qy_interfaceId :: string
  qy_activeAtOffset :: "string option"
  qy_predicate :: "string_record option"

record canton_token_adapter =
  ct_getAssetMetadata :: "interweave_id \<Rightarrow> string list \<Rightarrow> canton_asset_metadata result"
  ct_getHoldings :: "interweave_id \<Rightarrow> string list \<Rightarrow> canton_holding list result"
  ct_prepareTransfer :: "canton_transfer_request \<Rightarrow> prepared_canton_transfer result"

record canton_transport =
  tr_connect :: "canton_connection result"
  tr_resolveParty :: "string \<Rightarrow> string option result"
  tr_submit :: "prepared_canton_transfer \<Rightarrow> canton_submission result"
  tr_observeTransaction :: "string \<Rightarrow> string list \<Rightarrow> canton_transaction_observation result"
  tr_queryState :: "canton_state_query \<Rightarrow> canton_event list result"

section \<open>The client\<close>

record canton_client =
  cl_connection :: "canton_connection option"
  cl_tokens :: "(canton_standard, canton_token_adapter) js_map"

text \<open>\<open>new Map(tokens.map(..))\<close>: a later adapter of a standard replaces an earlier one.\<close>

definition new_canton_client :: "(canton_standard \<times> canton_token_adapter) list \<Rightarrow> canton_client" where
  "new_canton_client tokens = \<lparr>cl_connection = None, cl_tokens = fold (\<lambda>(k, v). map_set k v) tokens []\<rparr>"

definition canton_connect :: "canton_transport \<Rightarrow> (canton_client, canton_connection) comp" where
  "canton_connect tp =
     and_then (lift_result (tr_connect tp)) (\<lambda>connection.
     and_then (modify (\<lambda>c. c\<lparr>cl_connection := Some connection\<rparr>)) (\<lambda>_. ret connection))"

definition resolve_party :: "canton_transport \<Rightarrow> string \<Rightarrow> string option result" where
  "resolve_party tp hint =
     (if blank hint then Inl (Error ''party hint is required'') else tr_resolveParty tp hint)"

text \<open>A \<open>CantonAuthorizationError\<close> is an \<open>Error\<close> with its message.\<close>

definition assert_party_scope :: "canton_client \<Rightarrow> string list \<Rightarrow> unit result" where
  "assert_party_scope c parties =
     (case cl_connection c of
        None \<Rightarrow> Inl (Error ''Canton adapter is not connected'')
      | Some connection \<Rightarrow>
          if parties = [] then Inl (Error ''an explicit party scope is required'')
          else for_each (\<lambda>party.
            if party \<notin> set (cn_authorizedParties connection)
            then Inl (Error (''party is not authorized by this connection: '' @ party)) else Inr ()) parties)"

definition standard_text :: "canton_standard \<Rightarrow> string" where
  "standard_text s = (case s of CIP0056 \<Rightarrow> ''CIP0056'' | CIP0112 \<Rightarrow> ''CIP0112'')"

definition canton_token :: "canton_client \<Rightarrow> canton_standard \<Rightarrow> canton_token_adapter result" where
  "canton_token c standard =
     (case map_get (cl_tokens c) standard of
        None \<Rightarrow> Inl (Error (''unsupported Canton token standard: '' @ standard_text standard))
      | Some token \<Rightarrow> Inr token)"

definition canton_get_asset_metadata ::
  "canton_client \<Rightarrow> canton_standard \<Rightarrow> interweave_id \<Rightarrow> string list \<Rightarrow> canton_asset_metadata result" where
  "canton_get_asset_metadata c standard i parties =
     bind_result (assert_party_scope c parties) (\<lambda>_.
     bind_result (canton_token c standard) (\<lambda>token. ct_getAssetMetadata token i parties))"

definition canton_get_holdings ::
  "canton_client \<Rightarrow> canton_standard \<Rightarrow> interweave_id \<Rightarrow> string list \<Rightarrow> canton_holding list result" where
  "canton_get_holdings c standard i parties =
     bind_result (assert_party_scope c parties) (\<lambda>_.
     bind_result (canton_token c standard) (\<lambda>token. ct_getHoldings token i parties))"

text \<open>The \<open>reduce\<close> over the amounts: it throws at the first one that does not parse.\<close>

fun sum_amounts :: "nat \<Rightarrow> atomic_amount list \<Rightarrow> nat result" where
  "sum_amounts acc [] = Inr acc"
| "sum_amounts acc (a # as) = bind_result (parse_atomic_amount a) (\<lambda>n. sum_amounts (acc + n) as)"

definition canton_get_balance ::
  "canton_client \<Rightarrow> canton_standard \<Rightarrow> interweave_id \<Rightarrow> string \<Rightarrow> atomic_amount result" where
  "canton_get_balance c standard i owner =
     bind_result (assert_party_scope c [owner]) (\<lambda>_.
     bind_result (canton_token c standard) (\<lambda>token.
     bind_result (ct_getHoldings token i [owner]) (\<lambda>holdings.
     bind_result (sum_amounts 0 (map ho_amount (filter (\<lambda>h. ho_owner h = owner \<and> \<not> ho_locked h) holdings))) (\<lambda>sum.
       Inr (nat_to_string sum)))))"

definition canton_prepare_transfer ::
  "canton_client \<Rightarrow> canton_standard \<Rightarrow> canton_transfer_request \<Rightarrow> prepared_canton_transfer result" where
  "canton_prepare_transfer c standard request =
     bind_result (assert_party_scope c [rq_sender request]) (\<lambda>_.
     bind_result (parse_atomic_amount (rq_amount request)) (\<lambda>amount.
       if amount \<le> 0 then Inl (Error ''transfer amount must be positive'')
       else if blank (rq_idempotencyKey request) then Inl (Error ''idempotency key is required'')
       else bind_result (canton_token c standard) (\<lambda>token. ct_prepareTransfer token request)))"

definition canton_execute_transfer ::
  "canton_transport \<Rightarrow> canton_client \<Rightarrow> prepared_canton_transfer \<Rightarrow> canton_submission result" where
  "canton_execute_transfer tp c prepared =
     bind_result (assert_party_scope c (pt_requiredActAs prepared)) (\<lambda>_.
       if rq_sender (pt_request prepared) \<notin> set (pt_requiredActAs prepared)
       then Inl (Error ''prepared transfer must act as sender'')
       else tr_submit tp prepared)"

definition canton_observe_transaction ::
  "canton_transport \<Rightarrow> canton_client \<Rightarrow> string \<Rightarrow> string list \<Rightarrow> canton_transaction_observation result" where
  "canton_observe_transaction tp c i parties =
     bind_result (assert_party_scope c parties) (\<lambda>_. tr_observeTransaction tp i parties)"

definition canton_query_state :: "canton_transport \<Rightarrow> canton_client \<Rightarrow> canton_state_query \<Rightarrow> canton_event list result" where
  "canton_query_state tp c query =
     bind_result (assert_party_scope c (qy_parties query)) (\<lambda>_. tr_queryState tp query)"

record cip56_gateway =
  cg_metadata :: "interweave_id \<Rightarrow> string list \<Rightarrow> canton_asset_metadata result"
  cg_holdings :: "interweave_id \<Rightarrow> string list \<Rightarrow> canton_holding list result"
  cg_transfer :: "canton_transfer_request \<Rightarrow> prepared_canton_transfer result"

definition cip56_adapter :: "cip56_gateway \<Rightarrow> canton_standard \<times> canton_token_adapter" where
  "cip56_adapter gw = (CIP0056, \<lparr>ct_getAssetMetadata = cg_metadata gw, ct_getHoldings = cg_holdings gw,
     ct_prepareTransfer = cg_transfer gw\<rparr>)"

section \<open>What passes the client\<close>

lemma party_scope_iff:
  "assert_party_scope c parties = Inr () \<longleftrightarrow>
     parties \<noteq> [] \<and> (\<exists>connection. cl_connection c = Some connection \<and> set parties \<subseteq> set (cn_authorizedParties connection))"
  by (auto simp: assert_party_scope_def for_each_Inr_iff split: option.split)

text \<open>A transfer reaches the ledger only with every acting party authorised and the sender among them.\<close>

lemma execute_reaches_transport:
  assumes "canton_execute_transfer tp c prepared = Inr x"
  shows "tr_submit tp prepared = Inr x \<and> rq_sender (pt_request prepared) \<in> set (pt_requiredActAs prepared)
    \<and> (\<exists>connection. cl_connection c = Some connection
         \<and> set (pt_requiredActAs prepared) \<subseteq> set (cn_authorizedParties connection))"
  using assms party_scope_iff [of c "pt_requiredActAs prepared"]
  by (auto simp: canton_execute_transfer_def split: if_splits)

lemma sum_amounts_Inr:
  "sum_amounts acc as = Inr n \<longleftrightarrow>
     (\<exists>ns. list_all2 (\<lambda>a m. parse_atomic_amount a = Inr m) as ns \<and> n = acc + sum_list ns)"
proof (induction as arbitrary: acc)
  case Nil
  then show ?case by auto
next
  case (Cons a as)
  show ?case
    by (auto simp: Cons.IH list_all2_Cons1 add.assoc) (metis add.assoc sum_list.Cons)
qed

text \<open>The balance is the sum of the owner's unlocked holdings, and reads back as that number.\<close>

lemma canton_balance_sum:
  assumes "canton_get_balance c standard i owner = Inr balance"
  shows "\<exists>token holdings ns. canton_token c standard = Inr token \<and> ct_getHoldings token i [owner] = Inr holdings
    \<and> list_all2 (\<lambda>a m. parse_atomic_amount a = Inr m)
        (map ho_amount (filter (\<lambda>h. ho_owner h = owner \<and> \<not> ho_locked h) holdings)) ns
    \<and> parse_atomic_amount balance = Inr (sum_list ns)"
  using assms by (auto simp: canton_get_balance_def sum_amounts_Inr parse_atomic_amount_Inr_iff)

end
