(* ===== verification/Domain_Events.thy ===== *)
theory Domain_Events
  imports Canton_Adapter Evm_Adapter Idempotency Network_Registry
begin

text \<open>
  Normalised events, the event store and the checkpointed processor of
  packages/core/src/domain-events.ts, with the tables of sql/003_normalized_events.sql. The decoders of
  ledger payloads, SHA-256 and the clock are arguments. The processor is the loop of \<open>process\<close>; the
  states a crash can leave are those between its writes.
\<close>

datatype domain_event_type =
    AssetIssued | AssetBurned | AssetTransferred | AssetLocked | AssetReleased | SettlementCreated
  | SettlementCompleted | SettlementFailed | AttestationCreated | BridgeCompleted

datatype event_position =
    CANTON_OFFSET (ps_offset: string) (ps_eventIndex: string)
  | EVM_LOG (ps_blockNumber: string) (ps_blockHash: string) (ps_logIndex: string)

datatype event_observation = CANONICAL | REMOVED

record normalized_event =
  ne_id :: interweave_id
  ne_type :: domain_event_type
  ne_networkId :: interweave_id
  ne_networkType :: network_type
  ne_networkTransactionId :: string
  ne_assetId :: interweave_id
  ne_position :: event_position
  ne_sourceEventKey :: string
  ne_eventTimestamp :: iso_timestamp
  ne_payload :: "(string \<times> json) list"
  ne_ingestionTimestamp :: iso_timestamp
  ne_observation :: event_observation
  ne_provenance :: string_record

record decoded_event =
  de_type :: domain_event_type
  de_assetId :: interweave_id
  de_payload :: "(string \<times> json) list"

section \<open>Normalisation\<close>

definition stable_event_id :: "sha256 \<Rightarrow> interweave_id \<Rightarrow> string \<Rightarrow> interweave_id" where
  "stable_event_id sha networkId key = ''IW:EVENT:'' @ sha (utf8 (networkId @ ''|'' @ key))"

definition assert_timestamp :: "string \<Rightarrow> string \<Rightarrow> unit result" where
  "assert_timestamp value name =
     (if valid_time value then Inr () else Inl (RegistryError INVALID_ARGUMENT (name @ '' must be a valid timestamp'')))"

definition assert_decoded :: "decoded_event \<Rightarrow> unit result" where
  "assert_decoded d =
     (if \<not> starts_with (de_assetId d) ''IW:ASSET:'' \<or> de_payload d = []
      then Inl (RegistryError INVALID_ARGUMENT ''decoded events require a logical asset and non-empty payload'')
      else Inr ())"

record canton_event_input =
  cz_eventIndex :: string
  cz_eventTimestamp :: iso_timestamp
  cz_ingestionTimestamp :: iso_timestamp
  cz_participantId :: string

definition canton_event_key :: "canton_event \<Rightarrow> string \<Rightarrow> string" where
  "canton_event_key e index = ''canton:'' @ cv_transactionId e @ '':'' @ cv_offset e @ '':'' @ index"

definition canton_normalize ::
  "sha256 \<Rightarrow> interweave_id \<Rightarrow> (canton_event \<Rightarrow> decoded_event option) \<Rightarrow> canton_event \<Rightarrow> canton_event_input
     \<Rightarrow> normalized_event option result" where
  "canton_normalize sha networkId decode e input =
     (case decode e of None \<Rightarrow> Inr None
      | Some d \<Rightarrow>
        bind_result (assert_decoded d) (\<lambda>_.
        bind_result (assert_timestamp (cz_eventTimestamp input) ''event timestamp'') (\<lambda>_.
        bind_result (assert_timestamp (cz_ingestionTimestamp input) ''ingestion timestamp'') (\<lambda>_.
        if blank (cv_transactionId e) \<or> blank (cv_offset e) \<or> blank (cz_eventIndex input)
        then Inl (RegistryError INVALID_ARGUMENT ''Canton event transaction, offset, and event index are required'')
        else let key = canton_event_key e (cz_eventIndex input) in
          Inr (Some \<lparr>ne_id = stable_event_id sha networkId key, ne_type = de_type d, ne_networkId = networkId,
            ne_networkType = CANTON, ne_networkTransactionId = cv_transactionId e, ne_assetId = de_assetId d,
            ne_position = CANTON_OFFSET (cv_offset e) (cz_eventIndex input), ne_sourceEventKey = key,
            ne_eventTimestamp = cz_eventTimestamp input, ne_payload = de_payload d,
            ne_ingestionTimestamp = cz_ingestionTimestamp input, ne_observation = CANONICAL,
            ne_provenance = [(''participantId'', cz_participantId input),
              (''templateOrInterfaceId'', cv_templateOrInterfaceId e),
              (''witnessedBy'', join '','' (sort_by string_le (cv_witnessedBy e)))]\<rparr>)))))"

record evm_event_input =
  ez_blockTimestamp :: iso_timestamp
  ez_ingestionTimestamp :: iso_timestamp
  ez_chainId :: string

definition evm_event_key :: "evm_log \<Rightarrow> string" where
  "evm_event_key log = ''evm:'' @ lower (el_transactionHash log) @ '':'' @ int_to_string (el_logIndex log)"

definition evm_normalize ::
  "sha256 \<Rightarrow> interweave_id \<Rightarrow> (parsed_evm_event \<Rightarrow> decoded_event option) \<Rightarrow> parsed_evm_event \<Rightarrow> evm_event_input
     \<Rightarrow> normalized_event option result" where
  "evm_normalize sha networkId decode e input =
     (case decode e of None \<Rightarrow> Inr None
      | Some d \<Rightarrow>
        bind_result (assert_decoded d) (\<lambda>_.
        bind_result (assert_timestamp (ez_blockTimestamp input) ''block timestamp'') (\<lambda>_.
        bind_result (assert_timestamp (ez_ingestionTimestamp input) ''ingestion timestamp'') (\<lambda>_.
        let log = px_log e; key = evm_event_key log in
          Inr (Some \<lparr>ne_id = stable_event_id sha networkId key, ne_type = de_type d, ne_networkId = networkId,
            ne_networkType = EVM, ne_networkTransactionId = el_transactionHash log, ne_assetId = de_assetId d,
            ne_position = EVM_LOG (int_to_string (el_blockNumber log)) (el_blockHash log) (int_to_string (el_logIndex log)),
            ne_sourceEventKey = key, ne_eventTimestamp = ez_blockTimestamp input, ne_payload = de_payload d,
            ne_ingestionTimestamp = ez_ingestionTimestamp input,
            ne_observation = (if el_removed log then REMOVED else CANONICAL),
            ne_provenance = [(''chainId'', ez_chainId input), (''contractAddress'', px_address e),
              (''eventSignature'', px_signature e)]\<rparr>)))))"

section \<open>The store\<close>

record indexer_checkpoint =
  ck_indexerId :: string
  ck_networkId :: interweave_id
  ck_cursor :: string
  ck_sequence :: string
  ck_updatedAt :: iso_timestamp

record event_store =
  es_events :: "normalized_event list"
  es_checkpoints :: "(string \<times> interweave_id, indexer_checkpoint) js_map"

datatype ingestion = INSERTED | DUPLICATE

definition event_key :: "normalized_event \<Rightarrow> interweave_id \<times> string" where
  "event_key e = (ne_networkId e, ne_sourceEventKey e)"

definition event_known :: "event_store \<Rightarrow> interweave_id \<times> string \<Rightarrow> bool" where
  "event_known s k \<longleftrightarrow> k \<in> event_key ` set (es_events s)"

text \<open>\<open>ON CONFLICT (network_id, source_event_key) DO NOTHING\<close>: a clash of the primary key alone raises.\<close>

definition ingest :: "normalized_event \<Rightarrow> (event_store, ingestion) comp" where
  "ingest e s =
     (if event_known s (event_key e) then (Inr DUPLICATE, s)
      else if ne_id e \<in> ne_id ` set (es_events s)
      then (Inl (SqlError ''duplicate key value violates unique constraint''), s)
      else (Inr INSERTED, s\<lparr>es_events := es_events s @ [e]\<rparr>))"

definition get_event :: "event_store \<Rightarrow> interweave_id \<Rightarrow> normalized_event option" where
  "get_event s i = find (\<lambda>e. ne_id e = i) (es_events s)"

definition load_checkpoint :: "event_store \<Rightarrow> string \<Rightarrow> interweave_id \<Rightarrow> indexer_checkpoint option" where
  "load_checkpoint s indexerId networkId = map_get (es_checkpoints s) (indexerId, networkId)"

definition sequence_of :: "indexer_checkpoint \<Rightarrow> nat" where
  "sequence_of c = digits_to_nat 0 (ck_sequence c)"

definition check_sequence :: "indexer_checkpoint \<Rightarrow> unit result" where
  "check_sequence c =
     (if \<not> decimal_chain_id (ck_sequence c)
      then Inl (RegistryError INVALID_ARGUMENT ''checkpoint sequence must be a non-negative integer string'')
      else assert_timestamp (ck_updatedAt c) ''checkpoint timestamp'')"

text \<open>What the transaction decides on the row it selected, and the upsert that follows.\<close>

definition check_advance :: "indexer_checkpoint option \<Rightarrow> indexer_checkpoint \<Rightarrow> string option \<Rightarrow> unit result" where
  "check_advance current c expected =
     (if expected \<noteq> None \<and> map_option ck_sequence current \<noteq> expected
      then Inl (RegistryError CONFLICT ''stale checkpoint sequence'')
      else if current \<noteq> None \<and> sequence_of c < sequence_of (the current)
      then Inl (RegistryError CONFLICT ''checkpoint cannot move backwards'')
      else Inr ())"

definition put_checkpoint :: "indexer_checkpoint \<Rightarrow> (event_store, unit) comp" where
  "put_checkpoint c s =
     (if 10 ^ 78 \<le> sequence_of c then (Inl (SqlError ''numeric field overflow''), s)
      else (Inr (), s\<lparr>es_checkpoints := map_set (ck_indexerId c, ck_networkId c) c (es_checkpoints s)\<rparr>))"

definition save_checkpoint :: "indexer_checkpoint \<Rightarrow> string option \<Rightarrow> (event_store, indexer_checkpoint) comp" where
  "save_checkpoint c expected =
     and_then (lift_result (check_sequence c)) (\<lambda>_.
     transaction
       (and_then (gets (\<lambda>s. load_checkpoint s (ck_indexerId c) (ck_networkId c))) (\<lambda>current.
        and_then (lift_result (check_advance current c expected)) (\<lambda>_.
        and_then (put_checkpoint c) (\<lambda>_. ret c)))))"

section \<open>The processor\<close>

text \<open>
  The processor works on any store with the three operations it calls; the table store is the one the
  module offers.
\<close>

record 's event_operations =
  eo_ingest :: "normalized_event \<Rightarrow> ('s, ingestion) comp"
  eo_load :: "string \<Rightarrow> interweave_id \<Rightarrow> ('s, indexer_checkpoint option) comp"
  eo_save :: "indexer_checkpoint \<Rightarrow> string option \<Rightarrow> ('s, indexer_checkpoint) comp"

definition event_tables :: "event_store event_operations" where
  "event_tables = \<lparr>eo_ingest = ingest, eo_load = (\<lambda>i n. gets (\<lambda>s. load_checkpoint s i n)), eo_save = save_checkpoint\<rparr>"

record 'src batch_item =
  bi_source :: 'src
  bi_sequence :: string

record 'src event_processor =
  ep_indexerId :: string
  ep_networkId :: interweave_id
  ep_normalize :: "'src \<Rightarrow> normalized_event option result"
  ep_now :: "'src batch_item \<Rightarrow> js_date"

text \<open>The reading of the clock for an item, as an argument that names the item.\<close>

definition covered :: "indexer_checkpoint option \<Rightarrow> 'src batch_item \<Rightarrow> bool" where
  "covered cp item \<longleftrightarrow> (case cp of None \<Rightarrow> False | Some c \<Rightarrow> digits_to_nat 0 (bi_sequence item) \<le> sequence_of c)"

definition ingest_with ::
  "'s event_operations \<Rightarrow> 'src event_processor \<Rightarrow> 'src \<Rightarrow> ('s, (normalized_event \<times> ingestion) option) comp" where
  "ingest_with st p source =
     and_then (lift_result (ep_normalize p source)) (\<lambda>event.
     case event of
       None \<Rightarrow> ret None
     | Some e \<Rightarrow> and_then (eo_ingest st e) (\<lambda>r. ret (Some (e, r))))"

definition next_checkpoint ::
  "'src event_processor \<Rightarrow> 'src batch_item \<Rightarrow> (normalized_event \<times> ingestion) option \<Rightarrow> iso_timestamp \<Rightarrow> indexer_checkpoint" where
  "next_checkpoint p item r updatedAt =
     \<lparr>ck_indexerId = ep_indexerId p, ck_networkId = ep_networkId p,
      ck_cursor = (case r of None \<Rightarrow> ''skipped:'' @ bi_sequence item | Some (e, _) \<Rightarrow> ne_sourceEventKey e),
      ck_sequence = bi_sequence item, ck_updatedAt = updatedAt\<rparr>"

fun process_with ::
  "'s event_operations \<Rightarrow> 'src event_processor \<Rightarrow> indexer_checkpoint option \<Rightarrow> nat \<Rightarrow> nat \<Rightarrow> 'src batch_item list
     \<Rightarrow> ('s, nat \<times> nat \<times> indexer_checkpoint option) comp" where
  "process_with st p cp inserted duplicates [] = ret (inserted, duplicates, cp)"
| "process_with st p cp inserted duplicates (item # items) =
     (if \<not> decimal_chain_id (bi_sequence item)
      then throw (RegistryError INVALID_ARGUMENT ''event sequence must be an integer string'')
      else if covered cp item then process_with st p cp inserted duplicates items
      else and_then (ingest_with st p (bi_source item)) (\<lambda>r.
        and_then (iso_string (ep_now p item)) (\<lambda>updatedAt.
        and_then (eo_save st (next_checkpoint p item r updatedAt) (map_option ck_sequence cp)) (\<lambda>cp'.
        process_with st p (Some cp')
          (case r of Some (_, INSERTED) \<Rightarrow> Suc inserted | _ \<Rightarrow> inserted)
          (case r of Some (_, DUPLICATE) \<Rightarrow> Suc duplicates | _ \<Rightarrow> duplicates) items))))"

definition batch_with ::
  "'s event_operations \<Rightarrow> 'src event_processor \<Rightarrow> 'src batch_item list \<Rightarrow> ('s, nat \<times> nat \<times> indexer_checkpoint option) comp" where
  "batch_with st p items =
     and_then (eo_load st (ep_indexerId p) (ep_networkId p)) (\<lambda>cp. process_with st p cp 0 0 items)"

abbreviation process_batch ::
  "'src event_processor \<Rightarrow> 'src batch_item list \<Rightarrow> (event_store, nat \<times> nat \<times> indexer_checkpoint option) comp" where
  "process_batch \<equiv> batch_with event_tables"

text \<open>
  A process that dies: of the calls it makes of its store the first \<open>n\<close> take effect, and none after them. The
  number that is left is part of the state.
\<close>

definition mortal :: "('s, 'a) comp \<Rightarrow> ('s \<times> nat, 'a) comp" where
  "mortal m = (\<lambda>(s, n). case n of
     0 \<Rightarrow> (Inl (Error ''terminated''), (s, 0))
   | Suc k \<Rightarrow> (let (r, s') = m s in (r, (s', k))))"

definition mortal_store :: "'s event_operations \<Rightarrow> ('s \<times> nat) event_operations" where
  "mortal_store st = \<lparr>eo_ingest = (\<lambda>e. mortal (eo_ingest st e)), eo_load = (\<lambda>i n. mortal (eo_load st i n)),
     eo_save = (\<lambda>c x. mortal (eo_save st c x))\<rparr>"

definition dies_after :: "nat \<Rightarrow> 'src event_processor \<Rightarrow> 'src batch_item list \<Rightarrow> event_store \<Rightarrow> event_store" where
  "dies_after n p items s = fst (snd (batch_with (mortal_store event_tables) p items (s, n)))"

text \<open>The two halves on the tables.\<close>

abbreviation ingest_source ::
  "'src event_processor \<Rightarrow> 'src \<Rightarrow> (event_store, (normalized_event \<times> ingestion) option) comp" where
  "ingest_source \<equiv> ingest_with event_tables"

abbreviation process_items ::
  "'src event_processor \<Rightarrow> indexer_checkpoint option \<Rightarrow> nat \<Rightarrow> nat \<Rightarrow> 'src batch_item list
     \<Rightarrow> (event_store, nat \<times> nat \<times> indexer_checkpoint option) comp" where
  "process_items \<equiv> process_with event_tables"

lemma event_tables_simps [simp]:
  "eo_ingest event_tables = ingest" "eo_save event_tables = save_checkpoint"
  "eo_load event_tables i n = gets (\<lambda>s. load_checkpoint s i n)"
  by (simp_all add: event_tables_def)

lemmas ingest_source_def = ingest_with_def
lemmas process_batch_def = batch_with_def

section \<open>What the operations change\<close>

lemma ingest_cases:
  assumes "ingest e s = (Inr r, s')"
  shows "r = DUPLICATE \<and> s' = s \<and> event_known s (event_key e)
    \<or> r = INSERTED \<and> s' = s\<lparr>es_events := es_events s @ [e]\<rparr> \<and> \<not> event_known s (event_key e)"
  using assms by (auto simp: ingest_def split: if_splits)

lemma ingest_known: "ingest e s = (Inr r, s') \<Longrightarrow> event_known s' (event_key e) \<and> es_checkpoints s' = es_checkpoints s"
  by (auto dest!: ingest_cases simp: event_known_def)

lemma ingest_again: "ingest e s = (Inr r, s') \<Longrightarrow> ingest e s' = (Inr DUPLICATE, s')"
  using ingest_known [of e s r s'] by (simp add: ingest_def)

text \<open>
  A log that a reorganisation removed has the source key of the log it was: once the log is stored its
  removal is a duplicate and leaves the stored event canonical.
\<close>

lemma removal_dropped:
  assumes "evm_normalize sha networkId decode e input = Inr (Some n)"
    and "evm_normalize sha networkId decode (e\<lparr>px_log := (px_log e)\<lparr>el_removed := True\<rparr>\<rparr>) input' = Inr (Some m)"
    and "ingest n s = (Inr r, s1)"
  shows "ne_observation m = REMOVED \<and> ingest m s1 = (Inr DUPLICATE, s1)"
proof -
  have "event_key m = event_key n" "ne_observation m = REMOVED"
    using assms(1,2) by (auto simp: evm_normalize_def event_key_def evm_event_key_def Let_def split: option.splits)
  then show ?thesis
    using ingest_known [OF assms(3)] by (simp add: ingest_def)
qed

lemma save_checkpoint_Inr:
  assumes "save_checkpoint c expected s = (Inr c', s')"
  shows "c' = c \<and> check_sequence c = Inr () \<and> sequence_of c < 10 ^ 78
    \<and> check_advance (load_checkpoint s (ck_indexerId c) (ck_networkId c)) c expected = Inr ()
    \<and> s' = s\<lparr>es_checkpoints := map_set (ck_indexerId c, ck_networkId c) c (es_checkpoints s)\<rparr>"
  using assms
  by (auto simp: save_checkpoint_def and_then_def transaction_def put_checkpoint_def split: sum.splits if_splits prod.splits)

lemma save_checkpoint_Inl: "save_checkpoint c expected s = (Inl e, s') \<Longrightarrow> s' = s"
  by (auto simp: save_checkpoint_def and_then_def transaction_def put_checkpoint_def split: sum.splits if_splits prod.splits)

lemma save_checkpoint_accepts:
  assumes "check_sequence c = Inr ()" "sequence_of c < 10 ^ 78"
    and "check_advance (load_checkpoint s (ck_indexerId c) (ck_networkId c)) c expected = Inr ()"
  shows "save_checkpoint c expected s =
    (Inr c, s\<lparr>es_checkpoints := map_set (ck_indexerId c, ck_networkId c) c (es_checkpoints s)\<rparr>)"
  using assms by (simp add: save_checkpoint_def and_then_def transaction_def put_checkpoint_def)

lemma load_put: "load_checkpoint (s\<lparr>es_checkpoints := map_set (a, b) c m\<rparr>) i n =
    (if (i, n) = (a, b) then Some c else map_get m (i, n))"
  by (simp add: load_checkpoint_def)

text \<open>A checkpoint never moves backwards: every transaction that commits leaves it where it was or ahead.\<close>

definition advances :: "event_store \<Rightarrow> event_store \<Rightarrow> bool" where
  "advances s s' \<longleftrightarrow> (\<forall>i n c. load_checkpoint s i n = Some c \<longrightarrow>
     (\<exists>c'. load_checkpoint s' i n = Some c' \<and> sequence_of c \<le> sequence_of c'))"

lemma save_advances: "save_checkpoint c expected s = (res, s') \<Longrightarrow> advances s s'"
proof (cases res)
  case (Inl e)
  moreover assume "save_checkpoint c expected s = (res, s')"
  ultimately show ?thesis by (auto simp: advances_def dest!: save_checkpoint_Inl)
next
  case (Inr c')
  moreover assume "save_checkpoint c expected s = (res, s')"
  ultimately show ?thesis
    using save_checkpoint_Inr [of c expected s c' s']
    by (auto simp: advances_def load_put check_advance_def load_checkpoint_def split: if_splits)
qed

text \<open>
  The row lock of the transaction serialises writers of a row that exists. Before the first one is
  written there is no row to lock: two transactions can both select nothing and both upsert.
\<close>

lemma first_save_race:
  assumes "load_checkpoint s i n = None" "sequence_of low < sequence_of high" "sequence_of high < 10 ^ 78"
    and "(ck_indexerId low, ck_networkId low) = (i, n)" "(ck_indexerId high, ck_networkId high) = (i, n)"
  shows "check_advance (load_checkpoint s i n) high None = Inr () \<and> check_advance (load_checkpoint s i n) low None = Inr ()
    \<and> load_checkpoint (snd (put_checkpoint low (snd (put_checkpoint high s)))) i n = Some low"
  using assms by (auto simp: check_advance_def put_checkpoint_def load_checkpoint_def)

section \<open>Replays\<close>

text \<open>Two stores with the same events and the same positions; the rest of a checkpoint may differ.\<close>

definition same_progress :: "event_store \<Rightarrow> event_store \<Rightarrow> bool" where
  "same_progress s t \<longleftrightarrow> es_events s = es_events t
     \<and> (\<forall>i n. map_option ck_sequence (load_checkpoint s i n) = map_option ck_sequence (load_checkpoint t i n))"

lemma same_progress_refl [simp]: "same_progress s s"
  by (simp add: same_progress_def)

definition usable_clock :: "'src event_processor \<Rightarrow> bool" where
  "usable_clock p \<longleftrightarrow> (\<forall>item. \<exists>t. ep_now p item = Some t \<and> \<bar>t\<bar> \<le> 8640000000000000)"

lemma ingest_same:
  assumes "ingest_source p source s = (Inr r, s')" "same_progress s t" "ep_normalize q = ep_normalize p"
  shows "\<exists>t'. ingest_source q source t = (Inr r, t') \<and> same_progress s' t'"
  using assms
  by (auto simp: ingest_source_def and_then_def ingest_def event_known_def same_progress_def load_checkpoint_def
      split: sum.splits option.splits if_splits prod.splits)

lemma map_ck_sequence: "map_option ck_sequence a = map_option ck_sequence b \<Longrightarrow> map_option sequence_of a = map_option sequence_of b"
  by (cases a; cases b) (auto simp: sequence_of_def)

lemma check_advance_same:
  assumes "map_option ck_sequence a = map_option ck_sequence b" "ck_sequence c = ck_sequence d"
  shows "check_advance a c expected = check_advance b d expected"
  using assms by (cases a; cases b) (auto simp: check_advance_def sequence_of_def)

lemma save_same:
  assumes "save_checkpoint c expected s = (Inr c', s')" "same_progress s t"
    and "ck_indexerId d = ck_indexerId c" "ck_networkId d = ck_networkId c" "ck_sequence d = ck_sequence c"
    and "valid_time (ck_updatedAt d)"
  shows "\<exists>t'. save_checkpoint d expected t = (Inr d, t') \<and> same_progress s' t'"
proof -
  note c = save_checkpoint_Inr [OF assms(1)]
  have "check_sequence d = Inr ()"
    using c assms(5,6) by (auto simp: check_sequence_def assert_timestamp_def split: if_splits)
  moreover have "sequence_of d < 10 ^ 78"
    using c assms(5) by (simp add: sequence_of_def)
  moreover have "check_advance (load_checkpoint t (ck_indexerId d) (ck_networkId d)) d expected = Inr ()"
    using c assms(2-5) check_advance_same unfolding same_progress_def by metis
  ultimately have "save_checkpoint d expected t = (Inr d, t\<lparr>es_checkpoints := map_set (ck_indexerId d, ck_networkId d) d (es_checkpoints t)\<rparr>)"
    by (rule save_checkpoint_accepts)
  then show ?thesis
    using c assms(2-5) by (auto simp: same_progress_def load_checkpoint_def)
qed

definition same_work :: "'src event_processor \<Rightarrow> 'src event_processor \<Rightarrow> bool" where
  "same_work p q \<longleftrightarrow> ep_indexerId q = ep_indexerId p \<and> ep_networkId q = ep_networkId p \<and> ep_normalize q = ep_normalize p
     \<and> usable_clock q"

lemma covered_cong: "map_option ck_sequence cp = map_option ck_sequence cp' \<Longrightarrow> covered cp item = covered cp' item"
  by (cases cp; cases cp') (auto simp: covered_def sequence_of_def)

text \<open>One uncovered item: its event is ingested, then its checkpoint is saved.\<close>

lemma process_step:
  assumes "process_items p cp a b (item # items) s = (Inr r, s')" "\<not> covered cp item"
  shows "\<exists>e s1 t c s2 a' b'. decimal_chain_id (bi_sequence item) \<and> ingest_source p (bi_source item) s = (Inr e, s1)
    \<and> ep_now p item = Some t \<and> c = next_checkpoint p item e (to_iso_string t)
    \<and> save_checkpoint c (map_option ck_sequence cp) s1 = (Inr c, s2) \<and> process_items p (Some c) a' b' items s2 = (Inr r, s')"
proof -
  have decimal: "decimal_chain_id (bi_sequence item)"
    using assms by (cases "decimal_chain_id (bi_sequence item)") simp_all
  obtain e s1 u s1' c s2 where *: "ingest_source p (bi_source item) s = (Inr e, s1)" "iso_string (ep_now p item) s1 = (Inr u, s1')"
    "save_checkpoint (next_checkpoint p item e u) (map_option ck_sequence cp) s1' = (Inr c, s2)"
    "\<exists>a' b'. process_items p (Some c) a' b' items s2 = (Inr r, s')"
    using assms decimal by (fastforce simp: and_then_Inr_iff)
  obtain t where "ep_now p item = Some t" "u = to_iso_string t" "s1' = s1"
    using *(2) by (cases "ep_now p item") (auto simp: iso_string_def)
  then show ?thesis
    using * decimal save_checkpoint_Inr [OF *(3)] by metis
qed

lemma process_skip:
  assumes "\<forall>item \<in> set items. decimal_chain_id (bi_sequence item) \<and> covered cp item"
  shows "process_items p cp a b items s = (Inr (a, b, cp), s)"
  using assms by (induction items) auto

lemma process_covered:
  assumes "process_items p cp a b (item # items) s = (Inr r, s')" "covered cp item"
  shows "decimal_chain_id (bi_sequence item)" "process_items p cp a b items s = (Inr r, s')"
proof -
  show "decimal_chain_id (bi_sequence item)"
    using assms(1) by (cases "decimal_chain_id (bi_sequence item)") simp_all
  then show "process_items p cp a b items s = (Inr r, s')"
    using assms by simp
qed

lemma process_append:
  "process_items p cp a b (xs @ ys) s =
     and_then (process_items p cp a b xs) (\<lambda>(a', b', cp'). process_items p cp' a' b' ys) s"
proof (induction xs arbitrary: cp a b s)
  case Nil
  then show ?case by (simp add: and_then_def)
next
  case (Cons x xs)
  show ?case
    by (auto simp: and_then_def Cons.IH split: prod.splits sum.splits)
qed

lemma ingest_source_checkpoints: "ingest_source p source s = (Inr e, s') \<Longrightarrow> load_checkpoint s' i n = load_checkpoint s i n"
  by (auto simp: ingest_source_def and_then_def load_checkpoint_def ingest_def split: sum.splits option.splits prod.splits if_splits)

text \<open>The loop's checkpoint is the stored one, it only advances, and in the end it covers every item.\<close>

lemma process_end:
  fixes p :: "'src event_processor"
  assumes "process_items p cp a b items s = (Inr (a', b', cp'), s')"
    and "load_checkpoint s (ep_indexerId p) (ep_networkId p) = cp"
  shows "load_checkpoint s' (ep_indexerId p) (ep_networkId p) = cp'
    \<and> (\<forall>x :: 'src batch_item. covered cp x \<longrightarrow> covered cp' x)
    \<and> (\<forall>item \<in> set items. decimal_chain_id (bi_sequence item) \<and> covered cp' item)"
  using assms
proof (induction items arbitrary: cp a b s)
  case Nil
  then show ?case by simp
next
  case (Cons item items)
  show ?case
  proof (cases "covered cp item")
    case True
    note step = process_covered [OF Cons.prems(1) True]
    show ?thesis using Cons.IH [OF step(2) Cons.prems(2)] True step(1) by (metis set_ConsD)
  next
    case False
    obtain e s1 t c s2 x y where *: "decimal_chain_id (bi_sequence item)" "ingest_source p (bi_source item) s = (Inr e, s1)"
      "c = next_checkpoint p item e (to_iso_string t)"
      "save_checkpoint c (map_option ck_sequence cp) s1 = (Inr c, s2)" "process_items p (Some c) x y items s2 = (Inr (a', b', cp'), s')"
      using process_step [OF Cons.prems(1) False] by metis
    have s2: "load_checkpoint s2 (ep_indexerId p) (ep_networkId p) = Some c"
      using save_checkpoint_Inr [OF *(4)] *(3) by (simp add: load_checkpoint_def next_checkpoint_def)
    have own: "covered (Some c) item"
      using *(3) by (simp add: covered_def sequence_of_def next_checkpoint_def)
    have grow: "covered cp x \<Longrightarrow> covered (Some c) x" for x :: "'src batch_item"
      using False *(3) by (auto simp: covered_def sequence_of_def next_checkpoint_def split: option.splits)
    have "load_checkpoint s' (ep_indexerId p) (ep_networkId p) = cp'" "\<And>x :: 'src batch_item. covered (Some c) x \<Longrightarrow> covered cp' x"
      "\<forall>item \<in> set items. decimal_chain_id (bi_sequence item) \<and> covered cp' item"
      using Cons.IH [OF *(5) s2] by blast+
    then show ?thesis
      using own grow *(1) by (metis set_ConsD)
  qed
qed

lemma process_same:
  assumes "process_items p cp a b items s = (Inr r, s')" "same_progress s t" "same_work p q"
    and "map_option ck_sequence cp' = map_option ck_sequence cp"
  shows "\<exists>r' t'. process_items q cp' a' b' items t = (Inr r', t') \<and> same_progress s' t'"
  using assms
proof (induction items arbitrary: cp cp' a b a' b' s t)
  case Nil
  then show ?case by auto
next
  case (Cons item items)
  have same: "covered cp' item = covered cp item" by (rule covered_cong [OF Cons.prems(4)])
  show ?case
  proof (cases "covered cp item")
    case True
    note step = process_covered [OF Cons.prems(1) True]
    show ?thesis using Cons.IH [OF step(2) Cons.prems(2-4)] True same step(1) by simp
  next
    case False
    obtain e s1 u c s2 x y where *: "decimal_chain_id (bi_sequence item)" "ingest_source p (bi_source item) s = (Inr e, s1)"
      "c = next_checkpoint p item e (to_iso_string u)"
      "save_checkpoint c (map_option ck_sequence cp) s1 = (Inr c, s2)" "process_items p (Some c) x y items s2 = (Inr r, s')"
      using process_step [OF Cons.prems(1) False] by metis
    obtain t1 where t1: "ingest_source q (bi_source item) t = (Inr e, t1)" "same_progress s1 t1"
      using ingest_same [OF *(2) Cons.prems(2)] Cons.prems(3) unfolding same_work_def by metis
    obtain v where v: "ep_now q item = Some v" "\<bar>v\<bar> \<le> 8640000000000000"
      using Cons.prems(3) unfolding same_work_def usable_clock_def by blast
    define d where "d = next_checkpoint q item e (to_iso_string v)"
    have d: "ck_indexerId d = ck_indexerId c" "ck_networkId d = ck_networkId c" "ck_sequence d = ck_sequence c"
      "valid_time (ck_updatedAt d)"
      using *(3) v Cons.prems(3) by (simp_all add: d_def next_checkpoint_def same_work_def valid_time_def date_parse_to_iso_string)
    obtain t2 where t2: "save_checkpoint d (map_option ck_sequence cp) t1 = (Inr d, t2)" "same_progress s2 t2"
      using save_same [OF *(4) t1(2) d] by blast
    have "\<exists>r' t'. process_items q (Some d) x' y' items t2 = (Inr r', t') \<and> same_progress s' t'" for x' y'
      by (rule Cons.IH [OF *(5) t2(2) Cons.prems(3)]) (simp add: d)
    then show ?thesis
      using False same *(1) t1(1) v(1) t2(1) Cons.prems(4)
      by (simp add: and_then_def iso_string_def flip: d_def)
  qed
qed

lemma process_batch_run: "process_batch p items s = process_items p (load_checkpoint s (ep_indexerId p) (ep_networkId p)) 0 0 items s"
  by (simp add: process_batch_def and_then_def)

text \<open>A batch that was processed is skipped as a whole when it comes again.\<close>

lemma replay_skips:
  assumes "process_batch p items s = (Inr (a, b, cp), s')" "same_work p q"
  shows "process_batch q items s' = (Inr (0, 0, cp), s')"
proof -
  have "load_checkpoint s' (ep_indexerId p) (ep_networkId p) = cp"
    "\<forall>item \<in> set items. decimal_chain_id (bi_sequence item) \<and> covered cp item"
    using process_end [OF assms(1) [unfolded process_batch_run] refl] by blast+
  then show ?thesis
    using assms(2) process_skip [of items cp q 0 0 s'] by (simp add: process_batch_run same_work_def)
qed

text \<open>The state after a prefix of the batch, and the state when the next event was stored but not its checkpoint.\<close>

lemma replay_prefix:
  assumes whole: "process_batch p (xs @ ys) s = (Inr r, s')" and part: "process_batch p xs s = (Inr (a, b, cp), s1)"
  shows "process_items p cp a b ys s1 = (Inr r, s')"
    and "load_checkpoint s1 (ep_indexerId p) (ep_networkId p) = cp"
    and "\<forall>item \<in> set xs. decimal_chain_id (bi_sequence item) \<and> covered cp item"
  using whole part process_end [OF part [unfolded process_batch_run] refl]
  by (simp_all add: process_batch_run process_append and_then_def)

lemma process_append_skip:
  assumes "\<forall>item \<in> set xs. decimal_chain_id (bi_sequence item) \<and> covered cp item"
  shows "process_items p cp a b (xs @ ys) s = process_items p cp a b ys s"
  by (simp add: process_append and_then_def process_skip [OF assms])

lemma ingest_source_again:
  assumes "ingest_source p source s = (Inr e, t)"
  shows "\<exists>e'. ingest_source p source t = (Inr e', t) \<and> (\<forall>item u. next_checkpoint p item e' u = next_checkpoint p item e u)"
  using assms
  by (auto simp: ingest_source_def and_then_def next_checkpoint_def split: sum.splits option.splits prod.splits
      dest: ingest_again)

lemma process_counts:
  assumes "process_items p cp a b items s = (Inr r, s')"
  shows "\<exists>r'. process_items p cp a' b' items s = (Inr r', s')"
  using assms
proof (induction items arbitrary: cp a b a' b' s)
  case (Cons item items)
  show ?case
  proof (cases "covered cp item")
    case True
    note step = process_covered [OF Cons.prems True]
    show ?thesis using Cons.IH [OF step(2)] True step(1) by simp
  next
    case False
    obtain e s1 u c s2 x y where "decimal_chain_id (bi_sequence item)" "ingest_source p (bi_source item) s = (Inr e, s1)"
      "ep_now p item = Some u" "c = next_checkpoint p item e (to_iso_string u)"
      "save_checkpoint c (map_option ck_sequence cp) s1 = (Inr c, s2)" "process_items p (Some c) x y items s2 = (Inr r, s')"
      using process_step [OF Cons.prems False] by metis
    then show ?thesis
      using Cons.IH False by (simp add: and_then_def iso_string_def)
  qed
qed simp

lemma crash_inside:
  assumes run: "process_items p cp a b (y # ys) s1 = (Inr r, s')" and new: "\<not> covered cp y"
    and crash: "ingest_source p (bi_source y) s1 = (Inr e, t)"
  shows "\<exists>r'. process_items p cp a b (y # ys) t = (Inr r', s')"
proof -
  obtain u c s2 a' b' where *: "decimal_chain_id (bi_sequence y)" "ep_now p y = Some u" "c = next_checkpoint p y e (to_iso_string u)"
    "save_checkpoint c (map_option ck_sequence cp) t = (Inr c, s2)" "process_items p (Some c) a' b' ys s2 = (Inr r, s')"
    using process_step [OF run new] crash by fastforce
  obtain e' where e': "ingest_source p (bi_source y) t = (Inr e', t)" "next_checkpoint p y e' (to_iso_string u) = c"
    using ingest_source_again [OF crash] *(3) by blast
  have "\<exists>r'. process_items p (Some c) x z ys s2 = (Inr r', s')" for x z
    using process_counts [OF *(5)] by blast
  then show ?thesis
    using new * e' by (simp add: and_then_def iso_string_def)
qed

text \<open>Rows are only added, each under a source key of its own.\<close>

definition one_row_per_key :: "event_store \<Rightarrow> bool" where
  "one_row_per_key s \<longleftrightarrow> distinct (map event_key (es_events s))"

lemma ingest_source_rows: "ingest_source p source s = (Inr e, s') \<Longrightarrow> one_row_per_key s \<Longrightarrow> one_row_per_key s'"
  by (auto simp: ingest_source_def and_then_def ingest_def one_row_per_key_def event_known_def
      split: sum.splits option.splits prod.splits if_splits)

lemma process_rows: "process_items p cp a b items s = (Inr r, s') \<Longrightarrow> one_row_per_key s \<Longrightarrow> one_row_per_key s'"
proof (induction items arbitrary: cp a b s)
  case (Cons item items)
  show ?case
  proof (cases "covered cp item")
    case True
    then show ?thesis using process_covered(2) [OF Cons.prems(1) True] Cons by blast
  next
    case False
    obtain e s1 c s2 x y where *: "ingest_source p (bi_source item) s = (Inr e, s1)"
      "save_checkpoint c (map_option ck_sequence cp) s1 = (Inr c, s2)" "process_items p (Some c) x y items s2 = (Inr r, s')"
      using process_step [OF Cons.prems(1) False] by metis
    have "one_row_per_key s2"
      using ingest_source_rows [OF *(1) Cons.prems(2)] save_checkpoint_Inr [OF *(2)] by (simp add: one_row_per_key_def)
    then show ?thesis using Cons.IH [OF *(3)] by blast
  qed
qed simp

text \<open>A process that dies at any of its calls leaves a state from which the batch ends as it would have.\<close>

lemma mortal_ingest:
  assumes "ingest_source p source s = (Inr e, s1)"
  shows "(\<exists>x. ingest_with (mortal_store event_tables) p source (s, n) = (Inl x, (s, 0)))
    \<or> (\<exists>k. ingest_with (mortal_store event_tables) p source (s, n) = (Inr e, (s1, k)))"
proof (cases "ep_normalize p source")
  case (Inr event)
  then show ?thesis
    using assms
    by (cases event; cases n)
      (auto simp: ingest_with_def and_then_def mortal_store_def mortal_def split: sum.splits prod.splits)
qed (use assms in \<open>simp add: ingest_with_def and_then_def\<close>)

lemma mortal_save:
  assumes "save_checkpoint c x s = (Inr c', s1)"
  shows "eo_save (mortal_store event_tables) c x (s, n) = (case n of 0 \<Rightarrow> (Inl (Error ''terminated''), (s, 0)) | Suc k \<Rightarrow> (Inr c', (s1, k)))"
  using assms by (simp add: mortal_store_def mortal_def split: nat.split)

lemma dies_inside:
  fixes p :: "'src event_processor"
  assumes "process_items p cp a b items s = (Inr r, s')" and "load_checkpoint s (ep_indexerId p) (ep_networkId p) = cp"
    and "process_with (mortal_store event_tables) p cp x y items (s, n) = (res, (u, m))"
  shows "\<exists>cp' r'. load_checkpoint u (ep_indexerId p) (ep_networkId p) = cp' \<and> (\<forall>z :: 'src batch_item. covered cp z \<longrightarrow> covered cp' z)
    \<and> process_items p cp' 0 0 items u = (Inr r', s')"
  using assms
proof (induction items arbitrary: cp a b x y s n)
  case Nil
  then show ?case by (auto simp: ret_def)
next
  case (Cons item items)
  have whole: "\<exists>r'. process_items p cp 0 0 (item # items) s = (Inr r', s')"
    by (rule process_counts [OF Cons.prems(1)])
  show ?case
  proof (cases "covered cp item")
    case True
    note step = process_covered [OF Cons.prems(1) True]
    have "process_with (mortal_store event_tables) p cp x y items (s, n) = (res, (u, m))"
      using Cons.prems(3) True step(1) by simp
    from Cons.IH [OF step(2) Cons.prems(2) this] show ?thesis using True step(1) by auto
  next
    case False
    obtain e s1 t c s2 a' b' where *: "decimal_chain_id (bi_sequence item)" "ingest_source p (bi_source item) s = (Inr e, s1)"
      "ep_now p item = Some t" "c = next_checkpoint p item e (to_iso_string t)"
      "save_checkpoint c (map_option ck_sequence cp) s1 = (Inr c, s2)" "process_items p (Some c) a' b' items s2 = (Inr r, s')"
      using process_step [OF Cons.prems(1) False] by metis
    from mortal_ingest [OF *(2), of n] show ?thesis
    proof (elim disjE exE)
      fix err assume "ingest_with (mortal_store event_tables) p (bi_source item) (s, n) = (Inl err, (s, 0))"
      then have "u = s" using Cons.prems(3) False *(1) by (simp add: and_then_def)
      then show ?thesis using whole Cons.prems(2) by blast
    next
      fix k assume k: "ingest_with (mortal_store event_tables) p (bi_source item) (s, n) = (Inr e, (s1, k))"
      show ?thesis
      proof (cases k)
        case 0
        then have "u = s1"
          using Cons.prems(3) False k *(1,3) mortal_save [OF *(5), of k] by (simp add: and_then_def iso_string_def flip: *(4))
        moreover have "\<exists>r'. process_items p cp a b (item # items) s1 = (Inr r', s')"
          by (rule crash_inside [OF Cons.prems(1) False *(2)])
        then have "\<exists>r'. process_items p cp 0 0 (item # items) s1 = (Inr r', s')" using process_counts by blast
        moreover have "load_checkpoint s1 (ep_indexerId p) (ep_networkId p) = cp"
          using ingest_source_checkpoints [OF *(2)] Cons.prems(2) by simp
        ultimately show ?thesis by blast
      next
        case (Suc j)
        then obtain x' y' where rest: "process_with (mortal_store event_tables) p (Some c) x' y' items (s2, j) = (res, (u, m))"
          using Cons.prems(3) False k *(1,3) mortal_save [OF *(5), of k] by (simp add: and_then_def iso_string_def flip: *(4))
        have "load_checkpoint s2 (ep_indexerId p) (ep_networkId p) = Some c"
          using save_checkpoint_Inr [OF *(5)] *(4) by (simp add: load_checkpoint_def next_checkpoint_def)
        from Cons.IH [OF *(6) this rest] obtain cp' r' where ih: "load_checkpoint u (ep_indexerId p) (ep_networkId p) = cp'"
          "\<forall>z :: 'src batch_item. covered (Some c) z \<longrightarrow> covered cp' z" "process_items p cp' 0 0 items u = (Inr r', s')"
          by blast
        have "covered (Some c) item" "covered cp z \<Longrightarrow> covered (Some c) z" for z :: "'src batch_item"
          using False *(4) by (auto simp: covered_def sequence_of_def next_checkpoint_def split: option.splits)
        then show ?thesis using ih *(1) by (intro exI [of _ cp'] exI [of _ r']) simp
      qed
    qed
  qed
qed

lemma dies_after_resumes:
  assumes "process_batch p items s = (Inr r, s')"
  shows "\<exists>r'. process_batch p items (dies_after n p items s) = (Inr r', s')"
proof (cases n)
  case 0
  then have "dies_after n p items s = s"
    by (simp add: dies_after_def batch_with_def and_then_def mortal_store_def mortal_def)
  then show ?thesis using assms by metis
next
  case (Suc k)
  let ?cp = "load_checkpoint s (ep_indexerId p) (ep_networkId p)"
  obtain res u m where run: "process_with (mortal_store event_tables) p ?cp 0 0 items (s, k) = (res, (u, m))"
    by (metis prod.exhaust)
  moreover have "eo_load (mortal_store event_tables) (ep_indexerId p) (ep_networkId p) (s, n) = (Inr ?cp, (s, k))"
    by (simp add: Suc mortal_store_def mortal_def)
  ultimately have "dies_after n p items s = u"
    by (simp add: dies_after_def batch_with_def and_then_def)
  then show ?thesis
    using dies_inside [OF assms [unfolded process_batch_run] refl run] by (auto simp: process_batch_run)
qed

lemma same_progress_trans: "same_progress s t \<Longrightarrow> same_progress t u \<Longrightarrow> same_progress s u"
  by (simp add: same_progress_def)

lemma batch_same:
  assumes "process_batch p items s = (Inr r, s')" "same_work p q"
  shows "\<exists>r' t'. process_batch q items s = (Inr r', t') \<and> same_progress s' t'"
  using process_same [OF assms(1) [unfolded process_batch_run] same_progress_refl assms(2) refl] assms(2)
  by (simp add: process_batch_run same_work_def)

lemma deaths_resume:
  assumes "\<forall>q. same_work p q \<longrightarrow> (\<exists>r t'. process_batch q items s = (Inr r, t') \<and> same_progress s' t')"
    and "\<forall>(q, n) \<in> set deaths. same_work p q"
  shows "\<forall>q. same_work p q \<longrightarrow>
    (\<exists>r t'. process_batch q items (fold (\<lambda>(q, n). dies_after n q items) deaths s) = (Inr r, t') \<and> same_progress s' t')"
  using assms
proof (induction deaths arbitrary: s)
  case (Cons d deaths)
  obtain q n where d: "d = (q, n)" by (cases d)
  then have q: "same_work p q" using Cons.prems(2) by simp
  obtain r t' where t': "process_batch q items s = (Inr r, t')" "same_progress s' t'" using Cons.prems(1) q by blast
  obtain r' where again: "process_batch q items (dies_after n q items s) = (Inr r', t')"
    using dies_after_resumes [OF t'(1)] by blast
  have "\<exists>r t''. process_batch q' items (dies_after n q items s) = (Inr r, t'') \<and> same_progress s' t''" if "same_work p q'" for q'
  proof -
    have "same_work q q'" using q that by (simp add: same_work_def)
    then show ?thesis using batch_same [OF again] same_progress_trans [OF t'(2)] by blast
  qed
  then show ?case using Cons.IH [of "dies_after n q items s"] Cons.prems(2) by (simp add: d)
qed simp

text \<open>
  C30. A batch survives crashes. However often the process dies while it works on the batch, each time at whichever
  call of its store, and however its clock goes on, the next run ends with the events and positions that one
  uninterrupted run would have reached: no event is lost and none is stored twice, there is one row for each source key, and a further
  run of the batch changes nothing.
\<close>

theorem replay_after_crash:
  assumes whole: "process_batch p items s = (Inr r, s')"
    and deaths: "\<forall>(d, n) \<in> set deaths. same_work p d" and restart: "same_work p q" and rows: "one_row_per_key s"
  shows "\<exists>n m c t'. process_batch q items (fold (\<lambda>(d, n). dies_after n d items) deaths s) = (Inr (n, m, c), t')
    \<and> same_progress s' t' \<and> one_row_per_key t' \<and> process_batch q items t' = (Inr (0, 0, c), t')"
proof -
  let ?t = "fold (\<lambda>(d, n). dies_after n d items) deaths s"
  have "\<forall>q. same_work p q \<longrightarrow> (\<exists>r t'. process_batch q items s = (Inr r, t') \<and> same_progress s' t')"
    using batch_same [OF whole] by blast
  from deaths_resume [OF this deaths] restart obtain n m c t'
    where run: "process_batch q items ?t = (Inr (n, m, c), t')" and same: "same_progress s' t'"
    by (metis prod_cases3)
  have "one_row_per_key s'" using process_rows [OF whole [unfolded process_batch_run] rows] .
  then have "one_row_per_key t'" using same by (simp add: one_row_per_key_def same_progress_def)
  moreover have "same_work q q" using restart by (simp add: same_work_def)
  ultimately show ?thesis using run same replay_skips [OF run] by blast
qed

definition sample_event :: "nat \<Rightarrow> normalized_event" where
  "sample_event n = \<lparr>ne_id = ''IW:EVENT:'' @ [digit_char n], ne_type = AssetTransferred, ne_networkId = ''IW:NETWORK:n'',
     ne_networkType = EVM, ne_networkTransactionId = ''t'', ne_assetId = ''IW:ASSET:a'', ne_position = EVM_LOG ''1'' ''h'' ''0'',
     ne_sourceEventKey = ''evm:t:'' @ [digit_char n], ne_eventTimestamp = ''t'', ne_payload = [], ne_ingestionTimestamp = ''t'',
     ne_observation = CANONICAL, ne_provenance = []\<rparr>"

definition sample_processor :: "nat event_processor" where
  "sample_processor = \<lparr>ep_indexerId = ''i'', ep_networkId = ''IW:NETWORK:n'', ep_normalize = (\<lambda>n. Inr (Some (sample_event n))),
     ep_now = (\<lambda>_. Some 0)\<rparr>"

definition sample_item :: "nat \<Rightarrow> nat batch_item" where
  "sample_item n = \<lparr>bi_source = n, bi_sequence = [digit_char n]\<rparr>"

definition empty_event_store :: event_store where
  "empty_event_store = \<lparr>es_events = [], es_checkpoints = []\<rparr>"

lemmas sample_run_defs = process_batch_run sample_processor_def sample_item_def sample_event_def empty_event_store_def
  load_checkpoint_def decimal_chain_id_def covered_def ingest_source_def and_then_def ingest_def event_known_def event_key_def
  iso_string_def next_checkpoint_def save_checkpoint_def check_sequence_def assert_timestamp_def valid_time_def
  date_parse_to_iso_string transaction_def check_advance_def put_checkpoint_def sequence_of_def digit_val_def is_digit_def

lemma sample_whole:
  "\<exists>r s'. process_batch sample_processor ([sample_item 1] @ sample_item 2 # [sample_item 3]) empty_event_store = (Inr r, s')"
  by (simp add: sample_run_defs split del: if_split)

definition later_processor :: "nat event_processor" where
  "later_processor = sample_processor\<lparr>ep_now := (\<lambda>_. Some 60000)\<rparr>"

text \<open>The first run dies with the second event stored and its checkpoint not, the second before its first write.\<close>

definition sample_batch :: "nat batch_item list" where
  "sample_batch = [sample_item 1, sample_item 2, sample_item 3]"

lemma sample_dies:
  assumes "n = Suc (Suc (Suc (Suc 0)))"
  shows "map ne_id (es_events (dies_after n sample_processor sample_batch empty_event_store)) = [''IW:EVENT:1'', ''IW:EVENT:2'']"
    and "map_option ck_sequence (load_checkpoint (dies_after n sample_processor sample_batch empty_event_store) ''i'' ''IW:NETWORK:n'') = Some ''1''"
  unfolding assms
  by (simp_all add: dies_after_def batch_with_def mortal_store_def mortal_def sample_batch_def ingest_with_def sample_run_defs
      split del: if_split)

theorem replay_after_crash_witness:
  "\<exists>r s' n m c t'. process_batch sample_processor sample_batch empty_event_store = (Inr r, s')
     \<and> process_batch later_processor sample_batch
         (dies_after 1 later_processor sample_batch (dies_after 4 sample_processor sample_batch empty_event_store)) = (Inr (n, m, c), t')
     \<and> same_progress s' t'"
proof -
  obtain r s' where whole: "process_batch sample_processor sample_batch empty_event_store = (Inr r, s')"
    using sample_whole by (auto simp: sample_batch_def)
  have work: "same_work sample_processor later_processor" "same_work sample_processor sample_processor"
    by (simp_all add: same_work_def usable_clock_def later_processor_def sample_processor_def)
  then have deaths: "\<forall>(d, n) \<in> set [(sample_processor, 4), (later_processor, 1)]. same_work sample_processor d" by simp
  have "one_row_per_key empty_event_store"
    by (simp add: one_row_per_key_def empty_event_store_def)
  from replay_after_crash [OF whole deaths work(1) this] show ?thesis using whole by fastforce
qed

end
