(* ===== verification/Generic_Attestation.thy ===== *)
theory Generic_Attestation
  imports Attestation_Protocol Record_Store
begin

text \<open>
  Generic state attestations of packages/core/src/generic-attestation.ts: validators observe a source
  event, the service makes an artifact of their signatures when enough of them agree, and a consumer
  verifies it. The validators' observations and signatures, SHA-256, the signature verifier, the clock
  readings and the order of \<open>localeCompare\<close> are arguments. The records are immutable: both stores of
  the source behave as a table with a key.
\<close>

text \<open>A claim is a scalar: a string, a number, a boolean or null.\<close>

type_synonym claims = "(string \<times> json) list"

record generic_request =
  gr_id :: interweave_id
  gr_idempotencyKey :: string
  gr_sourceNetworkId :: interweave_id
  gr_sourceNetworkType :: network_type
  gr_sourceTransactionId :: string
  gr_sourceEventPosition :: string
  gr_predicateType :: string
  gr_claims :: claims
  gr_nonce :: string
  gr_policyVersion :: string
  gr_validatorSetId :: string
  gr_threshold :: js_number
  gr_validFrom :: iso_timestamp
  gr_expiresAt :: iso_timestamp
  gr_createdAt :: iso_timestamp

record generic_observation =
  go_networkId :: interweave_id
  go_networkType :: network_type
  go_transactionId :: string
  go_eventPosition :: string
  go_predicateType :: string
  go_claims :: claims
  go_canonical :: bool
  go_finalitySatisfied :: bool
  go_observedStatePosition :: string
  go_observedAt :: iso_timestamp
  go_finalityEvidence :: "string list"

record generic_statement = generic_request +
  gs_version :: string
  gs_observedStatePosition :: string
  gs_observedAt :: iso_timestamp

record generic_validator =
  gv_validatorId :: string
  gv_algorithm :: string
  gv_publicKeyId :: string
  gv_observe :: "generic_request \<Rightarrow> generic_observation option result"
  gv_sign :: "8 word list \<Rightarrow> string result"

record generic_attestation =
  ga_statement :: generic_statement
  ga_signatures :: "validator_signature list"
  ga_validatorEvidence :: "(string, generic_observation) js_map"
  ga_digest :: string
  ga_status :: string
  ga_destinationMutationAuthorized :: bool
  ga_recordedAt :: iso_timestamp

datatype generic_outcome = GENERIC_VERIFIED | GENERIC_REJECTED

record generic_record =
  gd_request :: generic_request
  gd_requestHash :: string
  gd_outcome :: generic_outcome
  gd_attestation :: "generic_attestation option"
  gd_reasons :: "string list"
  gd_recordedAt :: iso_timestamp

section \<open>Checks\<close>

definition check_generic_request :: "'a generic_request_scheme \<Rightarrow> unit result" where
  "check_generic_request v =
     (if \<not> starts_with (gr_id v) ''IW:ATTESTATION:'' \<or> blank (gr_idempotencyKey v)
        \<or> \<not> starts_with (gr_sourceNetworkId v) ''IW:NETWORK:'' \<or> blank (network_type_text (gr_sourceNetworkType v))
      then Inl (RegistryError INVALID_ARGUMENT ''attestation and network identifiers are required'')
      else if list_ex blank [gr_sourceTransactionId v, gr_sourceEventPosition v, gr_predicateType v, gr_policyVersion v,
          gr_validatorSetId v]
      then Inl (RegistryError INVALID_ARGUMENT ''attestation source, predicate, policy, and validator set are required'')
      else if \<not> safe_nonce (gr_nonce v)
      then Inl (RegistryError INVALID_ARGUMENT ''attestation nonce must contain 16-256 safe random characters'')
      else if not_safe_at_least (gr_threshold v) 1
      then Inl (RegistryError INVALID_ARGUMENT ''threshold must be positive'')
      else if gr_claims v = [] \<or> list_ex (\<lambda>(k, _). blank k) (gr_claims v)
      then Inl (RegistryError INVALID_ARGUMENT ''typed claims are required'')
      else case (date_parse (gr_createdAt v), date_parse (gr_validFrom v), date_parse (gr_expiresAt v)) of
          (Some created, Some valid, Some expires) \<Rightarrow>
            if created > valid \<or> valid \<ge> expires
            then Inl (RegistryError INVALID_ARGUMENT ''attestation validity interval is invalid'') else Inr ()
        | _ \<Rightarrow> Inl (RegistryError INVALID_ARGUMENT ''attestation validity interval is invalid''))"

definition check_generic_statement :: "generic_statement \<Rightarrow> unit result" where
  "check_generic_statement v =
     bind_result (check_generic_request v) (\<lambda>_.
       if gs_version v \<noteq> ''1'' \<or> blank (gs_observedStatePosition v) \<or> \<not> valid_time (gs_observedAt v)
       then Inl (RegistryError INVALID_ARGUMENT ''generic attestation statement is invalid'') else Inr ())"

text \<open>\<open>Number.prototype.toString\<close> of a threshold that passed the check.\<close>

definition number_json :: "js_number \<Rightarrow> json" where
  "number_json n = (case n of JInt i \<Rightarrow> JsNumber (Some (int_to_string i)) | JOther \<Rightarrow> JsNumber None)"

definition generic_fields :: "'a generic_request_scheme \<Rightarrow> (string \<times> json) list" where
  "generic_fields v =
     [(''id'', JsString (gr_id v)), (''idempotencyKey'', JsString (gr_idempotencyKey v)),
      (''sourceNetworkId'', JsString (gr_sourceNetworkId v)),
      (''sourceNetworkType'', JsString (network_type_text (gr_sourceNetworkType v))),
      (''sourceTransactionId'', JsString (gr_sourceTransactionId v)),
      (''sourceEventPosition'', JsString (gr_sourceEventPosition v)),
      (''predicateType'', JsString (gr_predicateType v)), (''claims'', JsObject (gr_claims v)),
      (''nonce'', JsString (gr_nonce v)), (''policyVersion'', JsString (gr_policyVersion v)),
      (''validatorSetId'', JsString (gr_validatorSetId v)), (''threshold'', number_json (gr_threshold v)),
      (''validFrom'', JsString (gr_validFrom v)), (''expiresAt'', JsString (gr_expiresAt v)),
      (''createdAt'', JsString (gr_createdAt v))]"

definition generic_statement_fields :: "generic_statement \<Rightarrow> (string \<times> json) list" where
  "generic_statement_fields v = generic_fields v @
     [(''version'', JsString (gs_version v)), (''observedStatePosition'', JsString (gs_observedStatePosition v)),
      (''observedAt'', JsString (gs_observedAt v))]"

definition generic_bytes :: "generic_statement \<Rightarrow> 8 word list result" where
  "generic_bytes v =
     bind_result (check_generic_statement v) (\<lambda>_.
     bind_result (canonical_json (JsObject (generic_statement_fields v))) (\<lambda>payload.
       Inr (utf8 (''INTERWEAVE_GENERIC_STATE_ATTESTATION|'' @ gs_version v @ ''|'' @ gr_sourceNetworkId v @ [CHR 0x00] @ payload))))"

definition generic_digest :: "sha256 \<Rightarrow> generic_statement \<Rightarrow> string result" where
  "generic_digest sha v = bind_result (generic_bytes v) (\<lambda>bytes. Inr (''sha256:'' @ sha bytes))"

definition observation_mismatch :: "generic_request \<Rightarrow> generic_observation \<Rightarrow> string option result" where
  "observation_mismatch i v =
     (if go_networkId v \<noteq> gr_sourceNetworkId i \<or> go_networkType v \<noteq> gr_sourceNetworkType i then Inr (Some ''NETWORK_MISMATCH'')
      else if go_transactionId v \<noteq> gr_sourceTransactionId i \<or> go_eventPosition v \<noteq> gr_sourceEventPosition i
        \<or> go_predicateType v \<noteq> gr_predicateType i then Inr (Some ''EVENT_MISMATCH'')
      else bind_result (canonical_json (JsObject (go_claims v))) (\<lambda>observed.
        bind_result (canonical_json (JsObject (gr_claims i))) (\<lambda>claimed.
        if observed \<noteq> claimed then Inr (Some ''CLAIMS_MISMATCH'')
        else if \<not> go_canonical v then Inr (Some ''EVENT_NOT_CANONICAL'')
        else if \<not> go_finalitySatisfied v \<or> go_finalityEvidence v = [] then Inr (Some ''FINALITY_NOT_SATISFIED'')
        else if blank (go_observedStatePosition v) \<or> \<not> valid_time (go_observedAt v) then Inr (Some ''INVALID_OBSERVATION'')
        else Inr None)))"

section \<open>The service\<close>

fun configure_generic :: "string list \<Rightarrow> string list \<Rightarrow> generic_validator list \<Rightarrow> unit result" where
  "configure_generic identities keys [] = Inr ()"
| "configure_generic identities keys (v # vs) =
     (let key = gv_algorithm v @ ''|'' @ gv_publicKeyId v in
      if blank (gv_validatorId v) \<or> blank (gv_algorithm v) \<or> blank (gv_publicKeyId v)
      then Inl (RegistryError INVALID_ARGUMENT ''validator identity, algorithm, and key are required'')
      else if gv_validatorId v \<in> set identities
      then Inl (RegistryError CONFLICT (''duplicate validator identity: '' @ gv_validatorId v))
      else if key \<in> set keys then Inl (RegistryError CONFLICT (''validator key is shared: '' @ gv_publicKeyId v))
      else configure_generic (gv_validatorId v # identities) (key # keys) vs)"

text \<open>The body of the loop over the validators: its \<open>catch\<close> turns every error into a reason.\<close>

definition observe_one :: "generic_request \<Rightarrow> generic_validator \<Rightarrow> generic_observation + string" where
  "observe_one i v =
     (case gv_observe v i of
        Inl _ \<Rightarrow> Inr (gv_validatorId v @ '':PROVIDER_ERROR'')
      | Inr None \<Rightarrow> Inr (gv_validatorId v @ '':SOURCE_NOT_FOUND'')
      | Inr (Some ob) \<Rightarrow>
          (case observation_mismatch i ob of
             Inl _ \<Rightarrow> Inr (gv_validatorId v @ '':PROVIDER_ERROR'')
           | Inr (Some mismatch) \<Rightarrow> Inr (gv_validatorId v @ '':'' @ mismatch)
           | Inr None \<Rightarrow> Inl ob))"

fun observe_all ::
  "generic_request \<Rightarrow> generic_validator list \<Rightarrow> (generic_validator \<times> generic_observation) list \<times> string list" where
  "observe_all i [] = ([], [])"
| "observe_all i (v # vs) =
     (let (accepted, reasons) = observe_all i vs in
      case observe_one i v of
        Inl ob \<Rightarrow> ((v, ob) # accepted, reasons)
      | Inr reason \<Rightarrow> (accepted, reason # reasons))"

text \<open>The readings of the clock in one call, in their order.\<close>

record generic_clock =
  gc_from :: js_date
  gc_until :: js_date
  gc_signed :: "string \<Rightarrow> js_date"
  gc_attested :: js_date
  gc_recorded :: js_date

definition iso_result :: "js_date \<Rightarrow> string result" where
  "iso_result d = (case d of None \<Rightarrow> Inl (Error ''Invalid time value'') | Some t \<Rightarrow> Inr (to_iso_string t))"

fun sign_all :: "generic_clock \<Rightarrow> 8 word list \<Rightarrow> (generic_validator \<times> generic_observation) list \<Rightarrow> validator_signature list result" where
  "sign_all clock bytes [] = Inr []"
| "sign_all clock bytes ((v, _) # vs) =
     bind_result (gv_sign v bytes) (\<lambda>signature.
     bind_result (iso_result (gc_signed clock (gv_validatorId v))) (\<lambda>signedAt.
     bind_result (sign_all clock bytes vs) (\<lambda>rest.
       Inr (\<lparr>vs_validatorId = gv_validatorId v, vs_algorithm = gv_algorithm v, vs_publicKeyId = gv_publicKeyId v,
         vs_signature = signature, vs_signedAt = signedAt\<rparr> # rest))))"

record generic_service =
  gx_sha :: sha256
  gx_locale_le :: "string \<Rightarrow> string \<Rightarrow> bool"
  gx_validators :: "generic_validator list"

definition position_key :: "generic_validator \<times> generic_observation \<Rightarrow> string" where
  "position_key p = go_observedStatePosition (snd p) @ ''|'' @ go_observedAt (snd p)"

definition generic_request_hash :: "sha256 \<Rightarrow> generic_request \<Rightarrow> string result" where
  "generic_request_hash sha i = request_fingerprint sha (JsObject (generic_fields i))"

type_synonym generic_rows = "generic_record list"

definition generic_id :: "generic_record \<Rightarrow> interweave_id" where
  "generic_id r = gr_id (gd_request r)"

definition generic_find :: "interweave_id \<Rightarrow> generic_rows \<Rightarrow> generic_record option" where
  "generic_find = table_find generic_id"

definition generic_save :: "generic_record \<Rightarrow> (generic_rows, unit) comp" where
  "generic_save = table_insert generic_id (\<lambda>_. RegistryError CONFLICT ''attestation record is immutable'')"

definition generic_persist ::
  "generic_clock \<Rightarrow> generic_request \<Rightarrow> string \<Rightarrow> string list \<Rightarrow> (generic_rows, generic_record) comp" where
  "generic_persist clock i hash reasons =
     and_then (iso_string (gc_recorded clock)) (\<lambda>recordedAt.
     let r = \<lparr>gd_request = i, gd_requestHash = hash, gd_outcome = GENERIC_REJECTED, gd_attestation = None,
       gd_reasons = reasons, gd_recordedAt = recordedAt\<rparr> in
     and_then (generic_save r) (\<lambda>_. ret r))"

definition generic_statement_of :: "generic_request \<Rightarrow> generic_observation \<Rightarrow> generic_statement" where
  "generic_statement_of i ob = generic_request.extend i
     \<lparr>gs_version = ''1'', gs_observedStatePosition = go_observedStatePosition ob, gs_observedAt = go_observedAt ob\<rparr>"

definition generic_attest ::
  "generic_service \<Rightarrow> generic_clock \<Rightarrow> generic_request \<Rightarrow> (generic_validator \<times> generic_observation) list
     \<Rightarrow> generic_attestation result" where
  "generic_attest svc clock i accepted =
     (let statement = generic_statement_of i (snd (hd accepted)) in
      bind_result (generic_bytes statement) (\<lambda>bytes.
      bind_result (sign_all clock bytes accepted) (\<lambda>signatures.
      bind_result (generic_digest (gx_sha svc) statement) (\<lambda>digest.
      bind_result (iso_result (gc_attested clock)) (\<lambda>recordedAt.
        Inr \<lparr>ga_statement = statement,
          ga_signatures = sort_by (\<lambda>a b. gx_locale_le svc (vs_validatorId a) (vs_validatorId b)) signatures,
          ga_validatorEvidence = fold (\<lambda>(v, ob). map_set (gv_validatorId v) ob) accepted [],
          ga_digest = digest, ga_status = ''VERIFIED_EVIDENCE_ONLY'', ga_destinationMutationAuthorized = False,
          ga_recordedAt = recordedAt\<rparr>)))))"

text \<open>A request whose ID is new.\<close>

definition generic_new ::
  "generic_service \<Rightarrow> generic_clock \<Rightarrow> generic_request \<Rightarrow> string \<Rightarrow> (generic_rows, generic_record) comp" where
  "generic_new svc clock i hash =
     (if date_before (gc_from clock) (gr_validFrom i) \<or> date_reached (gc_until clock) (gr_expiresAt i)
      then generic_persist clock i hash [''OUTSIDE_VALIDITY_WINDOW'']
      else if num_val (gr_threshold i) > int (length (gx_validators svc))
      then generic_persist clock i hash [''INSUFFICIENT_CONFIGURED_VALIDATORS'']
      else let accepted = fst (observe_all i (gx_validators svc)); reasons = snd (observe_all i (gx_validators svc)) in
        if int (length accepted) < num_val (gr_threshold i)
        then generic_persist clock i hash (reasons @ [''INSUFFICIENT_THRESHOLD''])
        else if length (js_set (map position_key accepted)) \<noteq> 1
        then generic_persist clock i hash (reasons @ [''VALIDATOR_OBSERVATION_DISAGREEMENT''])
        else and_then (lift_result (generic_attest svc clock i accepted)) (\<lambda>attestation.
          and_then (iso_string (gc_recorded clock)) (\<lambda>recordedAt.
          let r = \<lparr>gd_request = i, gd_requestHash = hash, gd_outcome = GENERIC_VERIFIED,
            gd_attestation = Some attestation, gd_reasons = reasons, gd_recordedAt = recordedAt\<rparr> in
          and_then (generic_save r) (\<lambda>_. ret r))))"

definition generic_serve ::
  "generic_service \<Rightarrow> generic_clock \<Rightarrow> generic_request \<Rightarrow> (generic_rows, generic_record) comp" where
  "generic_serve svc clock i =
     and_then (lift_result (check_generic_request i)) (\<lambda>_.
     and_then (lift_result (generic_request_hash (gx_sha svc) i)) (\<lambda>hash.
     and_then (gets (generic_find (gr_id i))) (\<lambda>existing.
     case existing of
       Some r \<Rightarrow>
         if gd_requestHash r \<noteq> hash
         then throw (RegistryError CONFLICT (''attestation ID was reused with different content: '' @ gr_id i))
         else ret r
     | None \<Rightarrow> generic_new svc clock i hash)))"

section \<open>Verification by a consumer\<close>

fun count_valid :: "signature_verifier \<Rightarrow> 8 word list \<Rightarrow> string list \<Rightarrow> validator_signature list \<Rightarrow> nat result" where
  "count_valid verify bytes seen [] = Inr 0"
| "count_valid verify bytes seen (s # ss) =
     (if vs_validatorId s \<in> set seen then count_valid verify bytes seen ss
      else bind_result (verify \<lparr>si_algorithm = vs_algorithm s, si_publicKeyId = vs_publicKeyId s,
          si_signature = vs_signature s, si_bytes = bytes\<rparr>) (\<lambda>ok.
        bind_result (count_valid verify bytes (vs_validatorId s # seen) ss) (\<lambda>n.
          Inr (if ok then Suc n else n))))"

definition verify_generic ::
  "sha256 \<Rightarrow> signature_verifier \<Rightarrow> js_date \<Rightarrow> generic_attestation \<Rightarrow> int \<Rightarrow> bool result" where
  "verify_generic sha verify now a threshold =
     bind_result (check_generic_statement (ga_statement a)) (\<lambda>_.
     if ga_status a \<noteq> ''VERIFIED_EVIDENCE_ONLY'' \<or> ga_destinationMutationAuthorized a
       \<or> date_reached now (gr_expiresAt (ga_statement a)) \<or> threshold < 1 then Inr False
     else bind_result (generic_bytes (ga_statement a)) (\<lambda>bytes.
       bind_result (count_valid verify bytes [] (ga_signatures a)) (\<lambda>valid.
       if int valid \<ge> threshold
       then bind_result (generic_digest sha (ga_statement a)) (\<lambda>digest. Inr (digest = ga_digest a))
       else Inr False)))"

section \<open>What a call stores\<close>

text \<open>A service is made from its validators, then asked: a call is both.\<close>

definition generic_call ::
  "generic_service \<Rightarrow> generic_clock \<Rightarrow> generic_request \<Rightarrow> (generic_rows, generic_record) comp" where
  "generic_call svc clock i =
     and_then (lift_result (configure_generic [] [] (gx_validators svc))) (\<lambda>_. generic_serve svc clock i)"

lemma configure_distinct:
  "configure_generic identities keys vs = Inr () \<Longrightarrow>
     distinct (map gv_validatorId vs) \<and> set (map gv_validatorId vs) \<inter> set identities = {}"
proof (induction vs arbitrary: identities keys)
  case (Cons v vs)
  then have "gv_validatorId v \<notin> set identities"
    and rest: "configure_generic (gv_validatorId v # identities) ((gv_algorithm v @ ''|'' @ gv_publicKeyId v) # keys) vs = Inr ()"
    by (auto simp: Let_def split: if_splits)
  then show ?case
    using Cons.IH [OF rest] by auto
qed simp

lemma observe_all_mem: "(v, ob) \<in> set (fst (observe_all i vs)) \<longleftrightarrow> v \<in> set vs \<and> observe_one i v = Inl ob"
  by (induction vs) (auto split: prod.splits sum.splits)

lemma observe_all_ids: "set (map (gv_validatorId \<circ> fst) (fst (observe_all i vs))) \<subseteq> set (map gv_validatorId vs)"
  by (auto simp: observe_all_mem)

lemma observe_all_distinct:
  "distinct (map gv_validatorId vs) \<Longrightarrow> distinct (map (gv_validatorId \<circ> fst) (fst (observe_all i vs)))"
proof (induction vs)
  case (Cons v vs)
  have "gv_validatorId v \<notin> set (map (gv_validatorId \<circ> fst) (fst (observe_all i vs)))"
    using Cons.prems observe_all_ids [of i vs] by auto
  then show ?case
    using Cons by (auto split: prod.splits sum.splits)
qed simp

text \<open>What an accepted observation says: the event of the request, canonical and final.\<close>

definition generic_agrees :: "generic_request \<Rightarrow> generic_observation \<Rightarrow> bool" where
  "generic_agrees i ob \<longleftrightarrow> go_networkId ob = gr_sourceNetworkId i \<and> go_networkType ob = gr_sourceNetworkType i
     \<and> go_transactionId ob = gr_sourceTransactionId i \<and> go_eventPosition ob = gr_sourceEventPosition i
     \<and> go_predicateType ob = gr_predicateType i
     \<and> canonical_json (JsObject (go_claims ob)) = canonical_json (JsObject (gr_claims i))
     \<and> go_canonical ob \<and> go_finalitySatisfied ob \<and> go_finalityEvidence ob \<noteq> []
     \<and> \<not> blank (go_observedStatePosition ob) \<and> valid_time (go_observedAt ob)"

lemma observe_one_Inl:
  "observe_one i v = Inl ob \<Longrightarrow> gv_observe v i = Inr (Some ob) \<and> generic_agrees i ob"
  by (auto simp: observe_one_def observation_mismatch_def generic_agrees_def split: sum.splits option.splits if_splits)

lemma sign_all_Inr:
  "sign_all clock bytes acc = Inr sigs \<Longrightarrow>
     list_all2 (\<lambda>p s. vs_validatorId s = gv_validatorId (fst p) \<and> vs_algorithm s = gv_algorithm (fst p)
       \<and> vs_publicKeyId s = gv_publicKeyId (fst p) \<and> gv_sign (fst p) bytes = Inr (vs_signature s)) acc sigs"
  by (induction acc arbitrary: sigs) auto

lemma fold_map_set_other:
  "k \<notin> f ` set acc \<Longrightarrow> map_get (fold (\<lambda>p. map_set (f p) (g p)) acc m) k = map_get m k"
  by (induction acc arbitrary: m) auto

lemma fold_map_set_get:
  "distinct (map f acc) \<Longrightarrow> p \<in> set acc \<Longrightarrow> map_get (fold (\<lambda>p. map_set (f p) (g p)) acc m) (f p) = Some (g p)"
  by (induction acc arbitrary: m) (auto simp: fold_map_set_other)

text \<open>The evidence behind an artifact: the accepted observations of distinct validators, and their signatures.\<close>

definition artifact_sound ::
  "generic_service \<Rightarrow> generic_request \<Rightarrow> generic_attestation \<Rightarrow> (generic_validator \<times> generic_observation) list \<Rightarrow> bool" where
  "artifact_sound svc i a acc \<longleftrightarrow>
     distinct (map (gv_validatorId \<circ> fst) acc) \<and> num_val (gr_threshold i) \<le> int (length acc)
     \<and> (\<forall>(v, ob) \<in> set acc. v \<in> set (gx_validators svc) \<and> gv_observe v i = Inr (Some ob) \<and> generic_agrees i ob
          \<and> map_get (ga_validatorEvidence a) (gv_validatorId v) = Some ob)
     \<and> (\<exists>ob \<in> snd ` set acc. ga_statement a = generic_statement_of i ob)
     \<and> (\<forall>p \<in> set acc. \<forall>q \<in> set acc. position_key p = position_key q)
     \<and> ga_status a = ''VERIFIED_EVIDENCE_ONLY'' \<and> \<not> ga_destinationMutationAuthorized a
     \<and> generic_digest (gx_sha svc) (ga_statement a) = Inr (ga_digest a)
     \<and> (\<exists>bytes sigs. generic_bytes (ga_statement a) = Inr bytes
          \<and> list_all2 (\<lambda>p s. vs_validatorId s = gv_validatorId (fst p) \<and> vs_algorithm s = gv_algorithm (fst p)
              \<and> vs_publicKeyId s = gv_publicKeyId (fst p) \<and> gv_sign (fst p) bytes = Inr (vs_signature s)) acc sigs
          \<and> set (ga_signatures a) = set sigs \<and> length (ga_signatures a) = length sigs
          \<and> distinct (map vs_validatorId (ga_signatures a)))"

lemma one_position:
  assumes "length (js_set (map position_key acc)) = 1"
  shows "acc \<noteq> []" "\<forall>p \<in> set acc. \<forall>q \<in> set acc. position_key p = position_key q"
proof -
  have "card (position_key ` set acc) = 1"
    using assms by (simp add: length_js_set)
  then obtain k where k: "position_key ` set acc = {k}"
    by (auto simp: card_1_singleton_iff)
  then show "acc \<noteq> []" by auto
  show "\<forall>p \<in> set acc. \<forall>q \<in> set acc. position_key p = position_key q"
    using k by (metis imageI singletonD)
qed

lemma generic_attest_sound:
  assumes a: "generic_attest svc clock i acc = Inr a" and acc: "acc = fst (observe_all i (gx_validators svc))"
    and conf: "configure_generic [] [] (gx_validators svc) = Inr ()"
    and enough: "num_val (gr_threshold i) \<le> int (length acc)" and one: "length (js_set (map position_key acc)) = 1"
  shows "artifact_sound svc i a acc"
proof -
  have distinct: "distinct (map (gv_validatorId \<circ> fst) acc)"
    unfolding acc using configure_distinct [OF conf] by (intro observe_all_distinct) simp
  obtain bytes sigs where *: "generic_bytes (ga_statement a) = Inr bytes" "sign_all clock bytes acc = Inr sigs"
    "generic_digest (gx_sha svc) (ga_statement a) = Inr (ga_digest a)" "ga_statement a = generic_statement_of i (snd (hd acc))"
    "ga_status a = ''VERIFIED_EVIDENCE_ONLY''" "\<not> ga_destinationMutationAuthorized a"
    "set (ga_signatures a) = set sigs" "length (ga_signatures a) = length sigs"
    "ga_validatorEvidence a = fold (\<lambda>(v, ob). map_set (gv_validatorId v) ob) acc []"
    using a by (auto simp: generic_attest_def Let_def)
  have "map vs_validatorId sigs = map (gv_validatorId \<circ> fst) acc"
    using sign_all_Inr [OF *(2)] by (induction rule: list_all2_induct) auto
  moreover have "distinct (map vs_validatorId (ga_signatures a)) = distinct (map vs_validatorId sigs)"
    using a *(1,2) by (auto simp: generic_attest_def Let_def generic_statement_of_def)
  ultimately have ids: "distinct (map vs_validatorId (ga_signatures a))"
    using distinct by simp
  have evidence: "map_get (ga_validatorEvidence a) (gv_validatorId v) = Some ob" if "(v, ob) \<in> set acc" for v ob
    using fold_map_set_get [OF distinct that, where g = snd and m = "[]"] by (simp add: *(9) case_prod_beta' comp_def)
  have "\<exists>ob \<in> snd ` set acc. ga_statement a = generic_statement_of i ob"
    using *(4) one_position(1) [OF one] by (intro bexI [of _ "snd (hd acc)"]) auto
  moreover have "\<forall>(v, ob) \<in> set acc. v \<in> set (gx_validators svc) \<and> gv_observe v i = Inr (Some ob) \<and> generic_agrees i ob
      \<and> map_get (ga_validatorEvidence a) (gv_validatorId v) = Some ob"
    using evidence observe_all_mem observe_one_Inl unfolding acc by fast
  ultimately show ?thesis
    unfolding artifact_sound_def using distinct enough one_position(2) [OF one] * ids sign_all_Inr [OF *(2)] by blast
qed

interpretation gn: record_store generic_save generic_find generic_id
  unfolding generic_save_def generic_find_def by (rule table_store)

text \<open>A verified record, made by a service for a request.\<close>

definition sound_record :: "generic_service \<Rightarrow> generic_request \<Rightarrow> generic_record \<Rightarrow> bool" where
  "sound_record svc i r \<longleftrightarrow> gd_request r = i \<and> (gd_outcome r = GENERIC_VERIFIED \<longrightarrow> (\<exists>a. gd_attestation r = Some a
     \<and> configure_generic [] [] (gx_validators svc) = Inr () \<and> check_generic_request i = Inr ()
     \<and> generic_request_hash (gx_sha svc) i = Inr (gd_requestHash r)
     \<and> artifact_sound svc i a (fst (observe_all i (gx_validators svc)))))"

text \<open>A call stores nothing, or one record for its request, which it returns.\<close>

definition stores :: "generic_rows \<Rightarrow> generic_rows \<Rightarrow> generic_record \<Rightarrow> bool" where
  "stores rows rows' r \<longleftrightarrow> generic_save r rows = (Inr (), rows')"

lemma store_new: "and_then (generic_save r) (\<lambda>_. ret r) rows = (res, rows') \<Longrightarrow>
    rows' = rows \<or> stores rows rows' r \<and> res = Inr r"
  by (auto simp: and_then_def stores_def generic_save_def table_insert_def split: if_splits)

lemma and_then_ret: "and_then (ret x) f = f x"
  by (rule ext) (simp add: and_then_def)

lemma and_then_lift: "and_then (lift_result (Inr x)) f = f x"
  by (rule ext) (simp add: and_then_def)

lemma persist_cases:
  assumes "generic_persist clock i hash reasons rows = (res, rows')"
  shows "rows' = rows \<or> (\<exists>r. stores rows rows' r \<and> res = Inr r \<and> sound_record svc i r)"
proof (cases "gc_recorded clock")
  case None
  then show ?thesis using assms by (simp add: generic_persist_def and_then_def iso_string_def)
next
  case (Some t)
  let ?r = "\<lparr>gd_request = i, gd_requestHash = hash, gd_outcome = GENERIC_REJECTED, gd_attestation = None,
    gd_reasons = reasons, gd_recordedAt = to_iso_string t\<rparr>"
  have "and_then (generic_save ?r) (\<lambda>_. ret ?r) rows = (res, rows')"
    using assms Some by (simp add: generic_persist_def iso_string_def and_then_ret Let_def)
  moreover have "sound_record svc i ?r" by (simp add: sound_record_def)
  ultimately show ?thesis using store_new by blast
qed

lemma new_cases:
  assumes run: "generic_new svc clock i hash rows = (res, rows')" and conf: "configure_generic [] [] (gx_validators svc) = Inr ()"
    and check: "check_generic_request i = Inr ()" and hash: "generic_request_hash (gx_sha svc) i = Inr hash"
  shows "rows' = rows \<or> (\<exists>r. stores rows rows' r \<and> res = Inr r \<and> sound_record svc i r)"
proof -
  define acc where "acc = fst (observe_all i (gx_validators svc))"
  show ?thesis
  proof (cases "(\<exists>reasons. generic_persist clock i hash reasons rows = (res, rows')) \<or> rows' = rows")
    case True
    then show ?thesis using persist_cases by blast
  next
    case False
    have enough: "num_val (gr_threshold i) \<le> int (length acc)" and one: "length (js_set (map position_key acc)) = 1"
      using run False by (auto simp: generic_new_def Let_def acc_def split: if_splits)
    obtain a t where a: "generic_attest svc clock i acc = Inr a" "gc_recorded clock = Some t"
      using run False by (cases "generic_attest svc clock i acc"; cases "gc_recorded clock")
        (auto simp: generic_new_def Let_def acc_def and_then_def iso_string_def split: if_splits)
    let ?r = "\<lparr>gd_request = i, gd_requestHash = hash, gd_outcome = GENERIC_VERIFIED, gd_attestation = Some a,
      gd_reasons = snd (observe_all i (gx_validators svc)), gd_recordedAt = to_iso_string t\<rparr>"
    have "and_then (generic_save ?r) (\<lambda>_. ret ?r) rows = (res, rows')"
      using run False a
      by (auto simp: generic_new_def Let_def iso_string_def and_then_ret and_then_lift simp flip: acc_def split: if_splits)
    moreover have "sound_record svc i ?r"
      using a conf check hash generic_attest_sound [OF a(1) acc_def conf enough one] unfolding sound_record_def acc_def by auto
    ultimately show ?thesis using store_new False by blast
  qed
qed

lemma generic_call_cases:
  assumes run: "generic_call svc clock i rows = (res, rows')"
  shows "rows' = rows \<or> (\<exists>r. stores rows rows' r \<and> res = Inr r \<and> sound_record svc i r)"
proof (cases "configure_generic [] [] (gx_validators svc) = Inr () \<and> check_generic_request i = Inr ()
    \<and> (\<exists>hash. generic_request_hash (gx_sha svc) i = Inr hash) \<and> generic_find (gr_id i) rows = None")
  case False
  then show ?thesis
    using run by (auto simp: generic_call_def generic_serve_def and_then_def split: sum.splits option.splits if_splits)
next
  case True
  then obtain hash where *: "configure_generic [] [] (gx_validators svc) = Inr ()" "check_generic_request i = Inr ()"
    "generic_request_hash (gx_sha svc) i = Inr hash" "generic_find (gr_id i) rows = None"
    by blast
  then have "generic_new svc clock i hash rows = (res, rows')"
    using run by (simp add: generic_call_def generic_serve_def and_then_def)
  then show ?thesis by (rule new_cases [OF _ *(1-3)])
qed

interpretation gs: record_service generic_save generic_find generic_id
  "\<lambda>(svc, clock, i). generic_call svc clock i" "\<lambda>(svc, clock, i). gr_id i"
proof unfold_locales
  fix x :: "generic_service \<times> generic_clock \<times> generic_request" and rows rows' :: generic_rows and res :: "generic_record result"
  obtain svc clock i where x: "x = (svc, clock, i)" by (metis prod.exhaust)
  assume "(case x of (svc, clock, i) \<Rightarrow> generic_call svc clock i) rows = (res, rows')"
  then have run: "generic_call svc clock i rows = (res, rows')" by (simp add: x)
  show "(\<forall>k. generic_find k rows' = generic_find k rows)
    \<or> generic_find (case x of (svc, clock, i) \<Rightarrow> gr_id i) rows = None
      \<and> (\<exists>r. \<forall>k. generic_find k rows' = (if k = (case x of (svc, clock, i) \<Rightarrow> gr_id i) then Some r else generic_find k rows))"
    using generic_call_cases [OF run] gn.insert_Inr unfolding stores_def sound_record_def x by (fastforce simp: generic_id_def)
qed

text \<open>The call of a log that stored a record: it was made in a state without the record's ID, and returned the record.\<close>

type_synonym generic_calls = "(generic_service \<times> generic_clock \<times> generic_request) list"

abbreviation generic_log :: "generic_rows \<Rightarrow> generic_calls \<Rightarrow> generic_rows \<Rightarrow> bool" where
  "generic_log \<equiv> served_log (\<lambda>(svc, clock, i). generic_call svc clock i)"

definition made_by :: "generic_calls \<Rightarrow> generic_record \<Rightarrow> generic_service \<Rightarrow> generic_clock \<Rightarrow> generic_request \<Rightarrow> bool" where
  "made_by calls r svc clock i \<longleftrightarrow> (\<exists>before after rows rows'. calls = before @ (svc, clock, i) # after
     \<and> generic_log [] before rows \<and> generic_find (gr_id i) rows = None \<and> generic_call svc clock i rows = (Inr r, rows'))"

lemma made_by_more: "made_by calls r svc clock i \<Longrightarrow> made_by (calls @ [c]) r svc clock i"
  unfolding made_by_def by fastforce

lemma log_sound:
  "generic_log [] calls rows \<Longrightarrow> r \<in> set rows \<Longrightarrow> \<exists>svc clock i. made_by calls r svc clock i \<and> sound_record svc i r"
proof (induction "[] :: generic_rows" calls rows rule: served_log.induct)
  case (log_step calls rows c res rows')
  obtain svc clock i where c: "c = (svc, clock, i)" by (metis prod.exhaust)
  then have run: "generic_call svc clock i rows = (res, rows')" using log_step(3) by simp
  show ?case
  proof (cases "r \<in> set rows")
    case True
    then show ?thesis using log_step(2) made_by_more by blast
  next
    case False
    then obtain x where x: "stores rows rows' x" "res = Inr x" "sound_record svc i x"
      using generic_call_cases [OF run] log_step(4) by blast
    then have new: "generic_find (generic_id x) rows = None" "rows' = rows @ [x]"
      by (auto simp: stores_def generic_save_def table_insert_def generic_find_def split: if_splits)
    then have "x = r" "generic_find (gr_id i) rows = None"
      using False log_step(4) x(3) by (auto simp: sound_record_def generic_id_def)
    then have "made_by (calls @ [c]) r svc clock i"
      unfolding made_by_def using log_step(1) run x(2) c by fastforce
    then show ?thesis using x(3) \<open>x = r\<close> by blast
  qed
qed simp

section \<open>What a consumer accepts\<close>

lemma count_valid_all:
  assumes "distinct (map vs_validatorId ss)" "set (map vs_validatorId ss) \<inter> set seen = {}"
    and "\<forall>s \<in> set ss. verify \<lparr>si_algorithm = vs_algorithm s, si_publicKeyId = vs_publicKeyId s,
      si_signature = vs_signature s, si_bytes = bytes\<rparr> = Inr True"
  shows "count_valid verify bytes seen ss = Inr (length ss)"
  using assms
proof (induction ss arbitrary: seen)
  case (Cons s ss)
  have "count_valid verify bytes (vs_validatorId s # seen) ss = Inr (length ss)"
    by (rule Cons.IH) (use Cons.prems in auto)
  then show ?case using Cons.prems by simp
qed simp

text \<open>A verifier that accepts what the validators of the artifact sign.\<close>

definition accepts_signers :: "signature_verifier \<Rightarrow> 8 word list \<Rightarrow> (generic_validator \<times> generic_observation) list \<Rightarrow> bool" where
  "accepts_signers verify bytes acc \<longleftrightarrow> (\<forall>p \<in> set acc. \<forall>s. gv_sign (fst p) bytes = Inr s \<longrightarrow>
     verify \<lparr>si_algorithm = gv_algorithm (fst p), si_publicKeyId = gv_publicKeyId (fst p), si_signature = s, si_bytes = bytes\<rparr> = Inr True)"

lemma artifact_verifies:
  assumes sound: "artifact_sound svc i a acc" and bytes: "generic_bytes (ga_statement a) = Inr bytes"
    and honest: "accepts_signers verify bytes acc" and "\<not> date_reached now (gr_expiresAt i)"
    and "1 \<le> threshold" "threshold \<le> int (length acc)"
  shows "verify_generic (gx_sha svc) verify now a threshold = Inr True"
proof -
  obtain sigs where sigs: "list_all2 (\<lambda>p s. vs_validatorId s = gv_validatorId (fst p) \<and> vs_algorithm s = gv_algorithm (fst p)
        \<and> vs_publicKeyId s = gv_publicKeyId (fst p) \<and> gv_sign (fst p) bytes = Inr (vs_signature s)) acc sigs"
    "set (ga_signatures a) = set sigs" "length (ga_signatures a) = length sigs" "distinct (map vs_validatorId (ga_signatures a))"
    using sound bytes unfolding artifact_sound_def by fastforce
  have "verify \<lparr>si_algorithm = vs_algorithm s, si_publicKeyId = vs_publicKeyId s, si_signature = vs_signature s, si_bytes = bytes\<rparr> = Inr True"
    if "s \<in> set sigs" for s
    using that sigs(1) honest unfolding list_all2_conv_all_nth in_set_conv_nth accepts_signers_def by (metis nth_mem)
  then have "count_valid verify bytes [] (ga_signatures a) = Inr (length acc)"
    using count_valid_all [of "ga_signatures a" "[]" verify bytes] sigs list_all2_lengthD [OF sigs(1)] by simp
  moreover obtain ob where "ga_statement a = generic_statement_of i ob"
    using sound unfolding artifact_sound_def by blast
  then have "gr_expiresAt (ga_statement a) = gr_expiresAt i"
    by (simp add: generic_statement_of_def generic_request.defs)
  moreover have "check_generic_statement (ga_statement a) = Inr ()"
    using bytes by (auto simp: generic_bytes_def)
  ultimately show ?thesis
    using sound assms(4-6) bytes unfolding artifact_sound_def by (simp add: verify_generic_def)
qed

text \<open>
  The count is of the identities that the signatures carry, which are not part of the signed bytes and
  are not checked against any validator set: one key under \<open>n\<close> invented identities meets threshold \<open>n\<close>.
\<close>

lemma one_key_meets_any_threshold:
  assumes bytes: "generic_bytes (ga_statement a) = Inr bytes"
    and key: "verify \<lparr>si_algorithm = vs_algorithm s, si_publicKeyId = vs_publicKeyId s, si_signature = vs_signature s, si_bytes = bytes\<rparr> = Inr True"
    and "ga_status a = ''VERIFIED_EVIDENCE_ONLY''" "\<not> ga_destinationMutationAuthorized a"
    and "\<not> date_reached now (gr_expiresAt (ga_statement a))" "generic_digest sha (ga_statement a) = Inr (ga_digest a)" "1 \<le> n"
  shows "verify_generic sha verify now (a\<lparr>ga_signatures := map (\<lambda>k. s\<lparr>vs_validatorId := nat_to_string k\<rparr>) [0..<n]\<rparr>) (int n) = Inr True"
proof -
  have "inj nat_to_string"
    by (metis digits_to_nat_string injI)
  then have "count_valid verify bytes [] (map (\<lambda>k. s\<lparr>vs_validatorId := nat_to_string k\<rparr>) [0..<n]) = Inr n"
    using key by (subst count_valid_all) (auto simp: comp_def distinct_map inj_on_def dest: injD)
  moreover have "check_generic_statement (ga_statement a) = Inr ()"
    using bytes by (auto simp: generic_bytes_def)
  ultimately show ?thesis using assms by (simp add: verify_generic_def)
qed

text \<open>
  C31. A verified record rests on the validators of the very call that made it: whatever calls of whatever services were
  made, a verified record was made and returned by one of them, for its request, which passed the checks.
  At least as many of the validators that service was configured with as the threshold asks observed exactly the
  requested event in that call, canonical and final, at one position; every signature is the answer of one of them to
  the canonical bytes of the statement made of the request and that position. The record never changes, and a
  consumer whose verifier knows the keys accepts it until it expires.
\<close>

theorem generic_evidence_sound:
  assumes run: "generic_log [] calls rows"
    and found: "generic_find k rows = Some r" and verified: "gd_outcome r = GENERIC_VERIFIED"
  shows "\<exists>svc clock i a. made_by calls r svc clock i \<and> gd_request r = i \<and> gr_id i = k \<and> gd_attestation r = Some a
    \<and> configure_generic [] [] (gx_validators svc) = Inr () \<and> check_generic_request i = Inr ()
    \<and> generic_request_hash (gx_sha svc) i = Inr (gd_requestHash r)
    \<and> artifact_sound svc i a (fst (observe_all i (gx_validators svc)))
    \<and> (\<forall>more rows'. generic_log rows more rows' \<longrightarrow> generic_find k rows' = Some r)
    \<and> (\<forall>bytes verify now threshold. generic_bytes (ga_statement a) = Inr bytes
         \<and> accepts_signers verify bytes (fst (observe_all i (gx_validators svc))) \<and> \<not> date_reached now (gr_expiresAt i)
         \<and> 1 \<le> threshold \<and> threshold \<le> int (length (fst (observe_all i (gx_validators svc))))
         \<longrightarrow> verify_generic (gx_sha svc) verify now a threshold = Inr True)"
proof -
  have "r \<in> set rows" using found by (simp add: generic_find_def table_find_mem)
  then obtain svc clock i where made: "made_by calls r svc clock i" and sound: "sound_record svc i r"
    using log_sound [OF run] by blast
  then obtain a where *: "gd_attestation r = Some a" "configure_generic [] [] (gx_validators svc) = Inr ()"
    "check_generic_request i = Inr ()" "generic_request_hash (gx_sha svc) i = Inr (gd_requestHash r)"
    "artifact_sound svc i a (fst (observe_all i (gx_validators svc)))" "gd_request r = i"
    using verified unfolding sound_record_def by blast
  have "gr_id i = k" using gn.find_key [OF found] *(6) by (simp add: generic_id_def)
  then show ?thesis
    using made * gs.served_keeps [OF served_log_served found] artifact_verifies [OF *(5)] by blast
qed

section \<open>An example\<close>

definition example_request :: generic_request where
  "example_request = \<lparr>gr_id = ''IW:ATTESTATION:1'', gr_idempotencyKey = ''k'', gr_sourceNetworkId = ''IW:NETWORK:e'',
     gr_sourceNetworkType = EVM, gr_sourceTransactionId = ''0xt'', gr_sourceEventPosition = ''7'',
     gr_predicateType = ''CollateralDeposited'', gr_claims = [(''amount'', JsString ''5'')], gr_nonce = ''nonce-0123456789'',
     gr_policyVersion = ''1'', gr_validatorSetId = ''set'', gr_threshold = JInt 2, gr_validFrom = to_iso_string 0,
     gr_expiresAt = to_iso_string 60000, gr_createdAt = to_iso_string 0\<rparr>"

definition example_observation :: generic_observation where
  "example_observation = \<lparr>go_networkId = ''IW:NETWORK:e'', go_networkType = EVM, go_transactionId = ''0xt'',
     go_eventPosition = ''7'', go_predicateType = ''CollateralDeposited'', go_claims = [(''amount'', JsString ''5'')],
     go_canonical = True, go_finalitySatisfied = True, go_observedStatePosition = ''100'', go_observedAt = to_iso_string 1000,
     go_finalityEvidence = [''finalized'']\<rparr>"

definition example_validator :: "string \<Rightarrow> generic_validator" where
  "example_validator n = \<lparr>gv_validatorId = n, gv_algorithm = ''ed25519'', gv_publicKeyId = n,
     gv_observe = (\<lambda>_. Inr (Some example_observation)), gv_sign = (\<lambda>_. Inr ''s'')\<rparr>"

definition example_service :: generic_service where
  "example_service = \<lparr>gx_sha = (\<lambda>_. ''h''), gx_locale_le = (\<lambda>_ _. True), gx_validators = [example_validator ''a'', example_validator ''b'']\<rparr>"

definition example_clock :: generic_clock where
  "example_clock = \<lparr>gc_from = Some 2000, gc_until = Some 2000, gc_signed = (\<lambda>_. Some 2000), gc_attested = Some 2000, gc_recorded = Some 2000\<rparr>"

lemma example_checks: "check_generic_request example_request = Inr ()"
  by (simp add: check_generic_request_def example_request_def starts_with_def blank_iff js_space_def network_type_text_def
      safe_nonce_def alphanumeric_def not_safe_at_least_def date_parse_to_iso_string)

lemma example_accepted: "observe_all example_request (gx_validators example_service)
    = ([(example_validator ''a'', example_observation), (example_validator ''b'', example_observation)], [])"
  by (simp add: example_service_def example_validator_def observe_one_def observation_mismatch_def example_observation_def
      example_request_def blank_iff js_space_def valid_time_def date_parse_to_iso_string)

lemma number_text_two: "number_text (int_to_string 2)"
  by code_simp

lemma example_proper: "proper_json (JsObject (generic_fields example_request))"
  "proper_json (JsObject (generic_statement_fields (generic_statement_of example_request example_observation)))"
  by (simp_all add: generic_fields_def generic_statement_fields_def generic_statement_of_def generic_request.defs
      example_request_def example_observation_def number_json_def number_text_two)

lemma example_hash: "\<exists>h. generic_request_hash sha example_request = Inr h"
  unfolding generic_request_hash_def request_fingerprint_def canonical_proper [OF example_proper(1)] by simp

lemma check_statement_of: "check_generic_request (generic_statement_of i ob) = check_generic_request i"
  unfolding check_generic_request_def generic_statement_of_def generic_request.defs by (simp only: generic_request.simps)

lemma example_bytes: "\<exists>b. generic_bytes (generic_statement_of example_request example_observation) = Inr b"
proof -
  have "check_generic_statement (generic_statement_of example_request example_observation) = Inr ()"
    using example_checks unfolding check_generic_statement_def check_statement_of
    by (simp add: generic_statement_of_def generic_request.defs example_observation_def blank_iff js_space_def valid_time_def
        date_parse_to_iso_string)
  then show ?thesis
    unfolding generic_bytes_def canonical_proper [OF example_proper(2)] by simp
qed

lemma example_run:
  "\<exists>r. generic_call example_service example_clock example_request [] = (Inr r, [r]) \<and> gd_outcome r = GENERIC_VERIFIED
    \<and> gd_request r = example_request"
proof -
  obtain h where h: "generic_request_hash (gx_sha example_service) example_request = Inr h"
    using example_hash by blast
  obtain b where b: "generic_bytes (generic_statement_of example_request example_observation) = Inr b"
    using example_bytes by blast
  have conf: "configure_generic [] [] (gx_validators example_service) = Inr ()"
    by (simp add: example_service_def example_validator_def blank_iff js_space_def)
  have window: "\<not> (date_before (gc_from example_clock) (gr_validFrom example_request)
      \<or> date_reached (gc_until example_clock) (gr_expiresAt example_request))"
    by (simp add: example_clock_def example_request_def date_before_def before_time_def date_reached_def reached_def
        date_parse_to_iso_string)
  have "\<exists>a. generic_attest example_service example_clock example_request
      [(example_validator ''a'', example_observation), (example_validator ''b'', example_observation)] = Inr a"
    by (simp add: generic_attest_def b generic_digest_def iso_result_def example_clock_def example_validator_def)
  then obtain a where a: "generic_attest example_service example_clock example_request
      [(example_validator ''a'', example_observation), (example_validator ''b'', example_observation)] = Inr a" ..
  have "num_val (gr_threshold example_request) = 2" "length (gx_validators example_service) = 2" "gc_recorded example_clock = Some 2000"
    by (simp_all add: example_request_def example_service_def example_clock_def)
  then have "\<exists>r. generic_new example_service example_clock example_request h [] = (Inr r, [r]) \<and> gd_outcome r = GENERIC_VERIFIED
      \<and> gd_request r = example_request"
    unfolding generic_new_def example_accepted fst_conv snd_conv Let_def using window a
    by (simp add: position_key_def js_set_def and_then_def iso_string_def generic_save_def table_insert_def table_find_def)
  then show ?thesis
    by (simp add: generic_call_def generic_serve_def and_then_def conf example_checks h generic_find_def table_find_def)
qed

theorem generic_evidence_sound_witness:
  "\<exists>r svc clock a. made_by [(example_service, example_clock, example_request)] r svc clock example_request
     \<and> gd_outcome r = GENERIC_VERIFIED \<and> gd_attestation r = Some a
     \<and> artifact_sound svc example_request a (fst (observe_all example_request (gx_validators svc)))"
proof -
  obtain r where r: "generic_call example_service example_clock example_request [] = (Inr r, [r])" "gd_outcome r = GENERIC_VERIFIED"
    "gd_request r = example_request"
    using example_run by blast
  have log: "generic_log [] [(example_service, example_clock, example_request)] [r]"
    by (rule served_log_one) (simp add: r(1))
  have found: "generic_find ''IW:ATTESTATION:1'' [r] = Some r"
    using r(3) by (simp add: generic_find_def table_find_def generic_id_def example_request_def)
  obtain svc clock a where "made_by [(example_service, example_clock, example_request)] r svc clock (gd_request r)"
    "gd_attestation r = Some a" "artifact_sound svc (gd_request r) a (fst (observe_all (gd_request r) (gx_validators svc)))"
    using generic_evidence_sound [OF log found r(2)] by (elim exE conjE) simp
  then show ?thesis using r(2) unfolding r(3) by blast
qed

end
