(* ===== verification/Workflow_Engine.thy ===== *)
theory Workflow_Engine
  imports Generic_Attestation
begin

text \<open>
  The permissioned workflow engine of packages/core/src/workflow-engine.ts: versioned workflow
  definitions, the durable claim of an execution, and the checks between a generic attestation and the
  dispatch of an action. The attestation verifier, the policy and the action handlers are outside the
  program. A call of \<open>execute\<close> is cut where it awaits them, so that calls interleave and crash there;
  the world also keeps a log of the actions dispatched, which the program does not have.
\<close>

datatype action_type = RECORD_CANTON_COLLATERAL | INITIATE_EVM_PAYMENT | RECORD_CANTON_ELIGIBILITY

record workflow_definition =
  wd_id :: interweave_id
  wd_version :: string
  wd_enabled :: bool
  wd_sourceNetworkId :: interweave_id
  wd_predicateType :: string
  wd_claimEquals :: claims
  wd_policyId :: interweave_id
  wd_policyVersion :: string
  wd_actionType :: action_type
  wd_actionConfiguration :: claims
  wd_createdAt :: iso_timestamp

record policy_answer =
  pa_outcome :: policy_outcome
  pa_policyId :: interweave_id
  pa_policyVersion :: string
  pa_reasons :: "string list"

record action_evidence =
  ax_externalTransactionId :: string
  ax_observedPosition :: string
  ax_evidence :: "string list"
  ax_finalizedAt :: iso_timestamp

datatype action_result =
    ACTION_APPLIED action_evidence
  | ACTION_ALREADY_APPLIED action_evidence
  | ACTION_REJECTED string "string list"
  | ACTION_UNCERTAIN string "string list"

datatype execution_status = EXEC_IN_PROGRESS | EXEC_COMPLETED | EXEC_REJECTED | EXEC_MANUAL_REVIEW

record execution_record =
  ex_id :: string
  ex_idempotencyKey :: string
  ex_workflowId :: interweave_id
  ex_workflowVersion :: string
  ex_attestationId :: interweave_id
  ex_requestHash :: string
  ex_status :: execution_status
  ex_policyEvidence :: "string list option"
  ex_actionResult :: "action_result option"
  ex_createdAt :: iso_timestamp
  ex_updatedAt :: iso_timestamp

record execute_request =
  xr_id :: string
  xr_idempotencyKey :: string
  xr_workflowId :: interweave_id
  xr_workflowVersion :: string
  xr_attestation :: generic_attestation
  xr_createdAt :: iso_timestamp

section \<open>Definitions of workflows\<close>

text \<open>\<open>/^[1-9][0-9]*(\.[0-9]+){0,2}$/\<close>\<close>

definition workflow_version_text :: "string \<Rightarrow> bool" where
  "workflow_version_text s \<longleftrightarrow> (let parts = split_on (CHR ''.'') s in
     length parts \<le> 3 \<and> list_all (\<lambda>p. p \<noteq> [] \<and> list_all is_digit p) parts \<and> hd (hd parts) \<noteq> CHR ''0'')"

fun scalar_json :: "json \<Rightarrow> bool" where
  "scalar_json (JsArray _) = False"
| "scalar_json (JsObject _) = False"
| "scalar_json JsUndefined = False"
| "scalar_json (JsOther _) = False"
| "scalar_json _ = True"

definition check_definition :: "workflow_definition \<Rightarrow> unit result" where
  "check_definition v =
     (if \<not> starts_with (wd_id v) ''IW:WORKFLOW:'' \<or> \<not> workflow_version_text (wd_version v)
        \<or> \<not> starts_with (wd_sourceNetworkId v) ''IW:NETWORK:'' \<or> blank (wd_predicateType v)
        \<or> \<not> starts_with (wd_policyId v) ''IW:POLICY:'' \<or> blank (wd_policyVersion v) \<or> \<not> valid_time (wd_createdAt v)
      then Inl (RegistryError INVALID_ARGUMENT ''workflow definition is invalid'')
      else if list_ex (\<lambda>(k, _). blank k) (wd_claimEquals v) \<or> list_ex (\<lambda>(k, _). blank k) (wd_actionConfiguration v)
      then Inl (RegistryError INVALID_ARGUMENT ''workflow claim and action configuration keys must be non-empty'')
      else if list_ex (\<lambda>(_, x). \<not> scalar_json x) (wd_claimEquals v @ wd_actionConfiguration v)
      then Inl (RegistryError INVALID_ARGUMENT ''workflow definitions accept scalar data only'')
      else Inr ())"

definition definition_key :: "workflow_definition \<Rightarrow> interweave_id \<times> string" where
  "definition_key v = (wd_id v, wd_version v)"

text \<open>The tables, and the log: the actions dispatched with the answers that let them through.\<close>

record dispatch =
  di_request :: execute_request
  di_workflow :: workflow_definition
  di_decision :: policy_answer

record workflow_world =
  ww_definitions :: "workflow_definition list"
  ww_executions :: "(string, execution_record) js_map"
  ww_dispatched :: "dispatch list"

definition find_definition :: "interweave_id \<times> string \<Rightarrow> workflow_world \<Rightarrow> workflow_definition option" where
  "find_definition k w = table_find definition_key k (ww_definitions w)"

definition register_workflow :: "workflow_definition \<Rightarrow> (workflow_world, workflow_definition) comp" where
  "register_workflow v =
     and_then (lift_result (check_definition v)) (\<lambda>_.
     and_then (gets (find_definition (definition_key v))) (\<lambda>found.
     if found \<noteq> None then throw (RegistryError ALREADY_EXISTS ''workflow version is immutable'')
     else and_then (modify (\<lambda>w. w\<lparr>ww_definitions := ww_definitions w @ [v]\<rparr>)) (\<lambda>_. ret v)))"

section \<open>The execution store\<close>

definition get_execution :: "string \<Rightarrow> workflow_world \<Rightarrow> execution_record option" where
  "get_execution i w = map_get (ww_executions w) i"

definition put_execution :: "execution_record \<Rightarrow> workflow_world \<Rightarrow> workflow_world" where
  "put_execution r w = w\<lparr>ww_executions := map_set (ex_id r) r (ww_executions w)\<rparr>"

datatype execution_claim = EXEC_CLAIMED | EXEC_REPLAY | EXEC_CONFLICT

definition claim_execution :: "execution_record \<Rightarrow> (workflow_world, execution_claim \<times> execution_record) comp" where
  "claim_execution r w =
     (case get_execution (ex_id r) w of
        Some found \<Rightarrow> (Inr (if ex_requestHash found = ex_requestHash r then EXEC_REPLAY else EXEC_CONFLICT, found), w)
      | None \<Rightarrow> (Inr (EXEC_CLAIMED, r), put_execution r w))"

definition finish_execution ::
  "string \<Rightarrow> string \<Rightarrow> execution_status \<Rightarrow> string list option \<Rightarrow> action_result option \<Rightarrow> iso_timestamp
     \<Rightarrow> (workflow_world, execution_record) comp" where
  "finish_execution i hash status evidence answer updatedAt w =
     (case get_execution i w of
        None \<Rightarrow> (Inl (RegistryError CONFLICT ''workflow claim mismatch''), w)
      | Some found \<Rightarrow>
          if ex_requestHash found \<noteq> hash then (Inl (RegistryError CONFLICT ''workflow claim mismatch''), w)
          else if ex_status found \<noteq> EXEC_IN_PROGRESS then (Inr found, w)
          else let next = found\<lparr>ex_status := status, ex_updatedAt := updatedAt,
                 ex_policyEvidence := (case evidence of None \<Rightarrow> ex_policyEvidence found | Some e \<Rightarrow> Some e),
                 ex_actionResult := (case answer of None \<Rightarrow> ex_actionResult found | Some a \<Rightarrow> Some a)\<rparr> in
            (Inr next, put_execution next w))"

section \<open>The engine\<close>

type_synonym action_handler = "string \<Rightarrow> workflow_definition \<Rightarrow> generic_attestation \<Rightarrow> action_result result"
type_synonym action_handlers = "(action_type, action_handler) js_map"

fun configure_handlers :: "action_handlers \<Rightarrow> (action_type \<times> action_handler) list \<Rightarrow> action_handlers result" where
  "configure_handlers m [] = Inr m"
| "configure_handlers m ((t, h) # hs) =
     (if map_has m t then Inl (RegistryError CONFLICT ''duplicate workflow action handler'')
      else configure_handlers (map_set t h m) hs)"

definition check_execution :: "execute_request \<Rightarrow> unit result" where
  "check_execution v =
     (if \<not> starts_with (xr_id v) ''IW:WORKFLOW_EXECUTION:'' \<or> blank (xr_idempotencyKey v)
        \<or> \<not> starts_with (xr_workflowId v) ''IW:WORKFLOW:'' \<or> blank (xr_workflowVersion v) \<or> \<not> valid_time (xr_createdAt v)
      then Inl (RegistryError INVALID_ARGUMENT ''valid workflow execution identifiers and timestamp are required'')
      else Inr ())"

definition execution_hash :: "sha256 \<Rightarrow> execute_request \<Rightarrow> string result" where
  "execution_hash sha i = request_fingerprint sha (JsObject
     [(''id'', JsString (xr_id i)), (''idempotencyKey'', JsString (xr_idempotencyKey i)),
      (''workflowId'', JsString (xr_workflowId i)), (''workflowVersion'', JsString (xr_workflowVersion i)),
      (''attestationDigest'', JsString (ga_digest (xr_attestation i)))])"

definition initial_execution :: "execute_request \<Rightarrow> string \<Rightarrow> execution_record" where
  "initial_execution i hash =
     \<lparr>ex_id = xr_id i, ex_idempotencyKey = xr_idempotencyKey i, ex_workflowId = xr_workflowId i,
      ex_workflowVersion = xr_workflowVersion i, ex_attestationId = gr_id (ga_statement (xr_attestation i)),
      ex_requestHash = hash, ex_status = EXEC_IN_PROGRESS, ex_policyEvidence = None, ex_actionResult = None,
      ex_createdAt = xr_createdAt i, ex_updatedAt = xr_createdAt i\<rparr>"

text \<open>A claimed run: the workflow it loaded, its request and the hash of it.\<close>

record workflow_run =
  wr_workflow :: workflow_definition
  wr_request :: execute_request
  wr_hash :: string

text \<open>Up to the claim. The left answer is a record to return at once, the right one a run to go on with.\<close>

definition begin_execution :: "sha256 \<Rightarrow> execute_request \<Rightarrow> (workflow_world, execution_record + workflow_run) comp" where
  "begin_execution sha i =
     and_then (lift_result (check_execution i)) (\<lambda>_.
     and_then (gets (find_definition (xr_workflowId i, xr_workflowVersion i))) (\<lambda>found.
     case found of
       None \<Rightarrow> throw (RegistryError NOT_FOUND ''workflow version not found'')
     | Some workflow \<Rightarrow>
         and_then (lift_result (execution_hash sha i)) (\<lambda>hash.
         and_then (claim_execution (initial_execution i hash)) (\<lambda>(outcome, r).
         if outcome = EXEC_CONFLICT
         then throw (RegistryError CONFLICT (''workflow execution ID was reused: '' @ xr_id i))
         else if ex_status r \<noteq> EXEC_IN_PROGRESS then ret (Inl r)
         else ret (Inr \<lparr>wr_workflow = workflow, wr_request = i, wr_hash = hash\<rparr>)))))"

definition strict_equal :: "json option \<Rightarrow> json \<Rightarrow> bool" where
  "strict_equal a b \<longleftrightarrow> a = Some b \<and> b \<noteq> JsNumber None"

definition matches_workflow :: "workflow_definition \<Rightarrow> generic_attestation \<Rightarrow> bool" where
  "matches_workflow w a \<longleftrightarrow> gr_sourceNetworkId (ga_statement a) = wd_sourceNetworkId w
     \<and> gr_predicateType (ga_statement a) = wd_predicateType w
     \<and> list_all (\<lambda>(k, v). strict_equal (map_of (gr_claims (ga_statement a)) k) v) (wd_claimEquals w)"

definition outcome_text :: "policy_outcome \<Rightarrow> string" where
  "outcome_text p = (case p of ALLOW \<Rightarrow> ''ALLOW'' | DENY \<Rightarrow> ''DENY'' | REQUIRES_APPROVAL \<Rightarrow> ''REQUIRES_APPROVAL'')"

text \<open>The outside of one call: the verifier, the policy with the time it is asked at, the handlers, the clock.\<close>

record workflow_env =
  we_verify :: "generic_attestation \<Rightarrow> bool result"
  we_authorize :: "workflow_definition \<Rightarrow> generic_attestation \<Rightarrow> iso_timestamp \<Rightarrow> policy_answer result"
  we_handlers :: action_handlers
  we_policy_now :: js_date
  we_finish_now :: js_date

text \<open>The checks between the claim and the dispatch: the evidence of a rejection, or the decision and the handler.\<close>

definition authorize_run :: "workflow_env \<Rightarrow> workflow_run \<Rightarrow> (string list + policy_answer \<times> action_handler) result" where
  "authorize_run env run =
     (let w = wr_workflow run; a = xr_attestation (wr_request run) in
      if \<not> wd_enabled w then Inr (Inl [''WORKFLOW_DISABLED''])
      else if \<not> matches_workflow w a then Inr (Inl [''WORKFLOW_PREDICATE_MISMATCH''])
      else bind_result (we_verify env a) (\<lambda>verified.
        if \<not> verified then Inr (Inl [''ATTESTATION_VERIFICATION_FAILED''])
        else bind_result (iso_result (we_policy_now env)) (\<lambda>evaluatedAt.
        bind_result (we_authorize env w a evaluatedAt) (\<lambda>decision.
        if pa_policyId decision \<noteq> wd_policyId w \<or> pa_policyVersion decision \<noteq> wd_policyVersion w
        then Inr (Inl [''POLICY_VERSION_MISMATCH''])
        else if pa_outcome decision \<noteq> ALLOW
        then Inr (Inl (if pa_reasons decision \<noteq> [] then pa_reasons decision else [outcome_text (pa_outcome decision)]))
        else case map_get (we_handlers env) (wd_actionType w) of
            None \<Rightarrow> Inr (Inl [''ACTION_HANDLER_NOT_CONFIGURED''])
          | Some handler \<Rightarrow> Inr (Inr (decision, handler))))))"

definition reject_run :: "workflow_env \<Rightarrow> workflow_run \<Rightarrow> string list \<Rightarrow> (workflow_world, execution_record) comp" where
  "reject_run env run evidence =
     and_then (iso_string (we_finish_now env)) (\<lambda>updatedAt.
     finish_execution (xr_id (wr_request run)) (wr_hash run) EXEC_REJECTED (Some evidence) None updatedAt)"

definition log_dispatch :: "workflow_run \<Rightarrow> policy_answer \<Rightarrow> (workflow_world, unit) comp" where
  "log_dispatch run decision = modify (\<lambda>w. w\<lparr>ww_dispatched := ww_dispatched w @
     [\<lparr>di_request = wr_request run, di_workflow = wr_workflow run, di_decision = decision\<rparr>]\<rparr>)"

text \<open>The \<open>try\<close> around the handler.\<close>

definition dispatched_result :: "action_handler \<Rightarrow> workflow_run \<Rightarrow> action_result" where
  "dispatched_result handler run =
     (case handler (xr_id (wr_request run)) (wr_workflow run) (xr_attestation (wr_request run)) of
        Inl _ \<Rightarrow> ACTION_UNCERTAIN ''ACTION_HANDLER_ERROR'' [] | Inr r \<Rightarrow> r)"

definition evidenced :: "action_evidence \<Rightarrow> bool" where
  "evidenced e \<longleftrightarrow> \<not> (blank (ax_externalTransactionId e) \<or> blank (ax_observedPosition e) \<or> ax_evidence e = []
     \<or> \<not> valid_time (ax_finalizedAt e))"

fun check_action_result :: "action_result \<Rightarrow> unit result" where
  "check_action_result (ACTION_APPLIED e) =
     (if \<not> evidenced e then Inl (RegistryError INVALID_ARGUMENT ''applied workflow action requires finality evidence'') else Inr ())"
| "check_action_result (ACTION_ALREADY_APPLIED e) =
     (if \<not> evidenced e then Inl (RegistryError INVALID_ARGUMENT ''applied workflow action requires finality evidence'') else Inr ())"
| "check_action_result (ACTION_REJECTED reason _) =
     (if blank reason then Inl (RegistryError INVALID_ARGUMENT ''non-applied workflow action requires a reason'') else Inr ())"
| "check_action_result (ACTION_UNCERTAIN reason _) =
     (if blank reason then Inl (RegistryError INVALID_ARGUMENT ''non-applied workflow action requires a reason'') else Inr ())"

fun action_status :: "action_result \<Rightarrow> execution_status" where
  "action_status (ACTION_APPLIED _) = EXEC_COMPLETED"
| "action_status (ACTION_ALREADY_APPLIED _) = EXEC_COMPLETED"
| "action_status (ACTION_REJECTED _ _) = EXEC_REJECTED"
| "action_status (ACTION_UNCERTAIN _ _) = EXEC_MANUAL_REVIEW"

text \<open>From the handler's answer on.\<close>

definition record_result ::
  "workflow_env \<Rightarrow> workflow_run \<Rightarrow> policy_answer \<Rightarrow> action_result \<Rightarrow> (workflow_world, execution_record) comp" where
  "record_result env run decision r =
     and_then (lift_result (check_action_result r)) (\<lambda>_.
     and_then (iso_string (we_finish_now env)) (\<lambda>updatedAt.
     finish_execution (xr_id (wr_request run)) (wr_hash run) (action_status r) (Some (pa_reasons decision)) (Some r) updatedAt))"

text \<open>A call that nothing interleaves with.\<close>

definition workflow_execute ::
  "sha256 \<Rightarrow> workflow_env \<Rightarrow> execute_request \<Rightarrow> (workflow_world, execution_record) comp" where
  "workflow_execute sha env i =
     and_then (begin_execution sha i) (\<lambda>begun.
     case begun of
       Inl r \<Rightarrow> ret r
     | Inr run \<Rightarrow>
         and_then (lift_result (authorize_run env run)) (\<lambda>authorized.
         case authorized of
           Inl evidence \<Rightarrow> reject_run env run evidence
         | Inr (decision, handler) \<Rightarrow>
             and_then (log_dispatch run decision) (\<lambda>_.
             record_result env run decision (dispatched_result handler run))))"


section \<open>Interleaved calls\<close>

text \<open>
  A system is the world and the calls that wait: each stands where its last await left it. Any of them may
  go on next, and one that never does has crashed. The verifier and the policy may answer differently from
  call to call; \<open>V\<close> and \<open>G\<close> bound what they ever accept.
\<close>

datatype workflow_call =
    CALL_CLAIMED workflow_run
  | CALL_REJECTING workflow_run "string list"
  | CALL_ALLOWED workflow_run policy_answer action_handler
  | CALL_DISPATCHED workflow_run policy_answer action_result
  | CALL_DONE

record workflow_system =
  sy_world :: workflow_world
  sy_calls :: "workflow_call list"

definition env_within ::
  "(generic_attestation \<Rightarrow> bool) \<Rightarrow> (workflow_definition \<Rightarrow> generic_attestation \<Rightarrow> policy_answer \<Rightarrow> bool)
     \<Rightarrow> action_handlers \<Rightarrow> workflow_env \<Rightarrow> bool" where
  "env_within V G hs env \<longleftrightarrow> we_handlers env = hs \<and> (\<forall>a. we_verify env a = Inr True \<longrightarrow> V a)
     \<and> (\<forall>w a t d. we_authorize env w a t = Inr d \<longrightarrow> G w a d)"

inductive workflow_step ::
  "sha256 \<Rightarrow> (generic_attestation \<Rightarrow> bool) \<Rightarrow> (workflow_definition \<Rightarrow> generic_attestation \<Rightarrow> policy_answer \<Rightarrow> bool)
     \<Rightarrow> action_handlers \<Rightarrow> workflow_system \<Rightarrow> workflow_system \<Rightarrow> bool"
  for sha V G hs where
  step_register: "register_workflow v w = (res, w') \<Longrightarrow> workflow_step sha V G hs \<lparr>sy_world = w, sy_calls = cs\<rparr> \<lparr>sy_world = w', sy_calls = cs\<rparr>"
| step_begin: "begin_execution sha i w = (Inr (Inr run), w') \<Longrightarrow>
    workflow_step sha V G hs \<lparr>sy_world = w, sy_calls = cs\<rparr> \<lparr>sy_world = w', sy_calls = cs @ [CALL_CLAIMED run]\<rparr>"
| step_refused: "begin_execution sha i w = (res, w') \<Longrightarrow> (\<And>run. res \<noteq> Inr (Inr run)) \<Longrightarrow>
    workflow_step sha V G hs \<lparr>sy_world = w, sy_calls = cs\<rparr> \<lparr>sy_world = w', sy_calls = cs\<rparr>"
| step_reject: "n < length cs \<Longrightarrow> cs ! n = CALL_CLAIMED run \<Longrightarrow> env_within V G hs env \<Longrightarrow> authorize_run env run = Inr (Inl ev) \<Longrightarrow>
    workflow_step sha V G hs \<lparr>sy_world = w, sy_calls = cs\<rparr> \<lparr>sy_world = w, sy_calls = cs[n := CALL_REJECTING run ev]\<rparr>"
| step_allow: "n < length cs \<Longrightarrow> cs ! n = CALL_CLAIMED run \<Longrightarrow> env_within V G hs env \<Longrightarrow> authorize_run env run = Inr (Inr (d, h)) \<Longrightarrow>
    workflow_step sha V G hs \<lparr>sy_world = w, sy_calls = cs\<rparr> \<lparr>sy_world = w, sy_calls = cs[n := CALL_ALLOWED run d h]\<rparr>"
| step_rejected: "n < length cs \<Longrightarrow> cs ! n = CALL_REJECTING run ev \<Longrightarrow> reject_run env run ev w = (res, w') \<Longrightarrow>
    workflow_step sha V G hs \<lparr>sy_world = w, sy_calls = cs\<rparr> \<lparr>sy_world = w', sy_calls = cs[n := CALL_DONE]\<rparr>"
| step_dispatch: "n < length cs \<Longrightarrow> cs ! n = CALL_ALLOWED run d h \<Longrightarrow> log_dispatch run d w = (Inr (), w') \<Longrightarrow>
    workflow_step sha V G hs \<lparr>sy_world = w, sy_calls = cs\<rparr>
      \<lparr>sy_world = w', sy_calls = cs[n := CALL_DISPATCHED run d (dispatched_result h run)]\<rparr>"
| step_record: "n < length cs \<Longrightarrow> cs ! n = CALL_DISPATCHED run d r \<Longrightarrow> record_result env run d r w = (res, w') \<Longrightarrow>
    workflow_step sha V G hs \<lparr>sy_world = w, sy_calls = cs\<rparr> \<lparr>sy_world = w', sy_calls = cs[n := CALL_DONE]\<rparr>"

abbreviation workflow_start :: workflow_system where
  "workflow_start \<equiv> \<lparr>sy_world = \<lparr>ww_definitions = [], ww_executions = [], ww_dispatched = []\<rparr>, sy_calls = []\<rparr>"

section \<open>Records never move again\<close>

definition execution_grows :: "execution_record \<Rightarrow> execution_record \<Rightarrow> bool" where
  "execution_grows r r' \<longleftrightarrow> ex_requestHash r' = ex_requestHash r \<and> (ex_status r \<noteq> EXEC_IN_PROGRESS \<longrightarrow> r' = r)"

definition world_grows :: "workflow_world \<Rightarrow> workflow_world \<Rightarrow> bool" where
  "world_grows w w' \<longleftrightarrow> set (ww_definitions w) \<subseteq> set (ww_definitions w') \<and> set (ww_dispatched w) \<subseteq> set (ww_dispatched w')
     \<and> (\<forall>k r. get_execution k w = Some r \<longrightarrow> (\<exists>r'. get_execution k w' = Some r' \<and> execution_grows r r'))"

lemma world_grows_refl [simp]: "world_grows w w"
  by (simp add: world_grows_def execution_grows_def)

lemma world_grows_trans: "world_grows w w' \<Longrightarrow> world_grows w' w'' \<Longrightarrow> world_grows w w''"
  unfolding world_grows_def execution_grows_def by (metis subset_trans)

lemma get_put [simp]: "get_execution k (put_execution r w) = (if k = ex_id r then Some r else get_execution k w)"
  by (simp add: get_execution_def put_execution_def)

lemma put_definitions [simp]:
  "ww_definitions (put_execution r w) = ww_definitions w" "ww_dispatched (put_execution r w) = ww_dispatched w"
  by (simp_all add: put_execution_def)

definition executions_ok :: "workflow_world \<Rightarrow> bool" where
  "executions_ok w \<longleftrightarrow> (\<forall>k r. get_execution k w = Some r \<longrightarrow> ex_id r = k)"

lemma finish_cases:
  assumes "finish_execution i hash status evidence answer t w = (res, w')"
  shows "w' = w \<or> (\<exists>found. get_execution i w = Some found \<and> ex_requestHash found = hash \<and> ex_status found = EXEC_IN_PROGRESS
    \<and> w' = put_execution (found\<lparr>ex_status := status, ex_updatedAt := t,
        ex_policyEvidence := (case evidence of None \<Rightarrow> ex_policyEvidence found | Some e \<Rightarrow> Some e),
        ex_actionResult := (case answer of None \<Rightarrow> ex_actionResult found | Some a \<Rightarrow> Some a)\<rparr>) w)"
  using assms unfolding finish_execution_def by (auto simp: Let_def split: option.splits if_splits)

lemma begin_cases:
  assumes "begin_execution sha i w = (res, w')"
  shows "w' = w \<and> (\<forall>run. res \<noteq> Inr (Inr run))
    \<or> (\<exists>workflow hash. check_execution i = Inr () \<and> find_definition (xr_workflowId i, xr_workflowVersion i) w = Some workflow
        \<and> execution_hash sha i = Inr hash
        \<and> (w' = w \<and> (\<exists>r. get_execution (xr_id i) w = Some r \<and> ex_requestHash r = hash)
           \<or> w' = put_execution (initial_execution i hash) w \<and> get_execution (xr_id i) w = None)
        \<and> (\<forall>run. res = Inr (Inr run) \<longrightarrow> run = \<lparr>wr_workflow = workflow, wr_request = i, wr_hash = hash\<rparr>))"
proof (cases "check_execution i = Inr () \<and> find_definition (xr_workflowId i, xr_workflowVersion i) w \<noteq> None
    \<and> (\<exists>hash. execution_hash sha i = Inr hash)")
  case False
  then show ?thesis
    using assms by (auto simp: begin_execution_def and_then_def split: sum.splits option.splits if_splits)
next
  case True
  then obtain workflow hash where *: "find_definition (xr_workflowId i, xr_workflowVersion i) w = Some workflow"
    "execution_hash sha i = Inr hash" "check_execution i = Inr ()"
    by auto
  show ?thesis
  proof (cases "get_execution (xr_id i) w")
    case None
    then show ?thesis
      using assms * by (auto simp: begin_execution_def and_then_def claim_execution_def initial_execution_def)
  next
    case (Some r)
    then show ?thesis
      using assms * by (auto simp: begin_execution_def and_then_def claim_execution_def initial_execution_def split: if_splits)
  qed
qed

lemma finish_grows:
  assumes "finish_execution i hash status evidence answer t w = (res, w')" "executions_ok w"
  shows "world_grows w w' \<and> executions_ok w'"
  using finish_cases [OF assms(1)] assms(2) by (auto simp: world_grows_def execution_grows_def executions_ok_def split: if_splits)


lemma begin_grows:
  assumes "begin_execution sha i w = (res, w')" "executions_ok w"
  shows "world_grows w w' \<and> executions_ok w'"
  using begin_cases [OF assms(1)] assms(2)
  by (auto simp: world_grows_def execution_grows_def executions_ok_def initial_execution_def split: if_splits)

lemma workflow_register_cases:
  assumes "register_workflow v w = (res, w')"
  shows "w' = w \<or> check_definition v = Inr () \<and> find_definition (definition_key v) w = None
    \<and> w' = w\<lparr>ww_definitions := ww_definitions w @ [v]\<rparr>"
  using assms by (auto simp: register_workflow_def and_then_def split: sum.splits if_splits)

lemma register_grows:
  assumes "register_workflow v w = (res, w')" "executions_ok w"
  shows "world_grows w w' \<and> executions_ok w'"
  using workflow_register_cases [OF assms(1)] assms(2)
  by (auto simp: world_grows_def execution_grows_def executions_ok_def get_execution_def)

lemma log_grows: "log_dispatch run d w = (Inr (), w') \<Longrightarrow> executions_ok w \<Longrightarrow> world_grows w w' \<and> executions_ok w'"
  by (auto simp: log_dispatch_def world_grows_def execution_grows_def executions_ok_def get_execution_def)

lemma reject_run_grows:
  assumes "reject_run env run ev w = (res, w')" "executions_ok w"
  shows "world_grows w w' \<and> executions_ok w'"
proof (cases "iso_result (we_finish_now env)")
  case (Inl e)
  then show ?thesis using assms by (auto simp: reject_run_def and_then_def iso_string_def iso_result_def split: option.splits)
next
  case (Inr t)
  then show ?thesis using assms finish_grows
    by (auto simp: reject_run_def and_then_def iso_string_def iso_result_def split: option.splits)
qed

lemma record_run_grows:
  assumes "record_result env run d r w = (res, w')" "executions_ok w"
  shows "world_grows w w' \<and> executions_ok w'"
  using assms finish_grows
  by (fastforce simp: record_result_def and_then_def iso_string_def split: option.splits sum.splits)

lemma step_grows:
  "workflow_step sha V G hs s s' \<Longrightarrow> executions_ok (sy_world s) \<Longrightarrow> world_grows (sy_world s) (sy_world s') \<and> executions_ok (sy_world s')"
  by (induction rule: workflow_step.induct)
    (auto dest: register_grows begin_grows reject_run_grows record_run_grows log_grows)

lemma steps_grow:
  "(workflow_step sha V G hs)\<^sup>*\<^sup>* s s' \<Longrightarrow> executions_ok (sy_world s) \<Longrightarrow> world_grows (sy_world s) (sy_world s') \<and> executions_ok (sy_world s')"
  by (induction rule: rtranclp_induct) (auto dest: step_grows intro: world_grows_trans)

section \<open>What a dispatch and a completed record rest on\<close>

text \<open>A run that was claimed: its workflow is registered under the name and version it asked for, and the store has its record.\<close>

definition run_ok :: "sha256 \<Rightarrow> workflow_world \<Rightarrow> workflow_run \<Rightarrow> bool" where
  "run_ok sha w run \<longleftrightarrow> wr_workflow run \<in> set (ww_definitions w)
     \<and> definition_key (wr_workflow run) = (xr_workflowId (wr_request run), xr_workflowVersion (wr_request run))
     \<and> check_execution (wr_request run) = Inr () \<and> execution_hash sha (wr_request run) = Inr (wr_hash run)
     \<and> (\<exists>r. get_execution (xr_id (wr_request run)) w = Some r \<and> ex_requestHash r = wr_hash run)"

text \<open>What stands between a claim and an action.\<close>

definition permitted ::
  "(generic_attestation \<Rightarrow> bool) \<Rightarrow> (workflow_definition \<Rightarrow> generic_attestation \<Rightarrow> policy_answer \<Rightarrow> bool)
     \<Rightarrow> action_handlers \<Rightarrow> workflow_definition \<Rightarrow> generic_attestation \<Rightarrow> policy_answer \<Rightarrow> bool" where
  "permitted V G hs wk a d \<longleftrightarrow> wd_enabled wk \<and> matches_workflow wk a \<and> V a \<and> G wk a d \<and> pa_outcome d = ALLOW
     \<and> pa_policyId d = wd_policyId wk \<and> pa_policyVersion d = wd_policyVersion wk \<and> map_has hs (wd_actionType wk)"

definition dispatch_ok where
  "dispatch_ok sha V G hs w x \<longleftrightarrow> permitted V G hs (di_workflow x) (xr_attestation (di_request x)) (di_decision x)
     \<and> (\<exists>hash. run_ok sha w \<lparr>wr_workflow = di_workflow x, wr_request = di_request x, wr_hash = hash\<rparr>)"

definition record_ok where
  "record_ok sha w r \<longleftrightarrow> (ex_status r = EXEC_COMPLETED \<longrightarrow> (\<exists>x \<in> set (ww_dispatched w). \<exists>a.
     xr_id (di_request x) = ex_id r \<and> execution_hash sha (di_request x) = Inr (ex_requestHash r)
     \<and> ex_policyEvidence r = Some (pa_reasons (di_decision x)) \<and> ex_actionResult r = Some a
     \<and> action_status a = EXEC_COMPLETED \<and> check_action_result a = Inr ()))"

fun call_ok where
  "call_ok sha V G hs w (CALL_CLAIMED run) \<longleftrightarrow> run_ok sha w run"
| "call_ok sha V G hs w (CALL_REJECTING run _) \<longleftrightarrow> run_ok sha w run"
| "call_ok sha V G hs w (CALL_ALLOWED run d h) \<longleftrightarrow> run_ok sha w run \<and> permitted V G hs (wr_workflow run) (xr_attestation (wr_request run)) d"
| "call_ok sha V G hs w (CALL_DISPATCHED run d r) \<longleftrightarrow> run_ok sha w run
     \<and> \<lparr>di_request = wr_request run, di_workflow = wr_workflow run, di_decision = d\<rparr> \<in> set (ww_dispatched w)"
| "call_ok sha V G hs w CALL_DONE \<longleftrightarrow> True"

definition system_ok where
  "system_ok sha V G hs s \<longleftrightarrow> executions_ok (sy_world s)
     \<and> list_all (\<lambda>v. check_definition v = Inr ()) (ww_definitions (sy_world s))
     \<and> distinct (map definition_key (ww_definitions (sy_world s)))
     \<and> (\<forall>x \<in> set (ww_dispatched (sy_world s)). dispatch_ok sha V G hs (sy_world s) x)
     \<and> (\<forall>k r. get_execution k (sy_world s) = Some r \<longrightarrow> record_ok sha (sy_world s) r)
     \<and> (\<forall>c \<in> set (sy_calls s). call_ok sha V G hs (sy_world s) c)"

lemma run_ok_grows: "run_ok sha w run \<Longrightarrow> world_grows w w' \<Longrightarrow> run_ok sha w' run"
  unfolding run_ok_def world_grows_def execution_grows_def by (metis subset_iff)

lemma dispatch_ok_grows: "dispatch_ok sha V G hs w x \<Longrightarrow> world_grows w w' \<Longrightarrow> dispatch_ok sha V G hs w' x"
  unfolding dispatch_ok_def using run_ok_grows by blast

lemma record_ok_grows: "record_ok sha w r \<Longrightarrow> world_grows w w' \<Longrightarrow> record_ok sha w' r"
  unfolding record_ok_def world_grows_def by blast

lemma call_ok_grows: "call_ok sha V G hs w c \<Longrightarrow> world_grows w w' \<Longrightarrow> call_ok sha V G hs w' c"
  by (cases c) (auto dest: run_ok_grows simp: world_grows_def)


lemma system_ok_grown:
  assumes "system_ok sha V G hs \<lparr>sy_world = w, sy_calls = cs\<rparr>" "world_grows w w' \<and> executions_ok w'"
    and "ww_definitions w' = ww_definitions w" "\<And>x. x \<in> set (ww_dispatched w') \<Longrightarrow> x \<notin> set (ww_dispatched w) \<Longrightarrow> dispatch_ok sha V G hs w' x"
    and "\<And>k r. get_execution k w' = Some r \<Longrightarrow> get_execution k w = Some r \<or> record_ok sha w' r"
    and "\<And>c. c \<in> set cs' \<Longrightarrow> c \<in> set cs \<or> call_ok sha V G hs w' c"
  shows "system_ok sha V G hs \<lparr>sy_world = w', sy_calls = cs'\<rparr>"
  unfolding system_ok_def workflow_system.simps
proof (intro conjI ballI allI impI)
  fix x assume "x \<in> set (ww_dispatched w')"
  then show "dispatch_ok sha V G hs w' x"
    using assms(1,2,4) dispatch_ok_grows unfolding system_ok_def workflow_system.simps by blast
next
  fix k r assume "get_execution k w' = Some r"
  then show "record_ok sha w' r"
    using assms(1,2,5) record_ok_grows unfolding system_ok_def workflow_system.simps by blast
next
  fix c assume "c \<in> set cs'"
  then show "call_ok sha V G hs w' c"
    using assms(1,2,6) call_ok_grows unfolding system_ok_def workflow_system.simps by blast
qed (use assms(1,2,3) in \<open>simp_all add: system_ok_def\<close>)

lemma authorize_permits:
  assumes "authorize_run env run = Inr (Inr (d, h))" "env_within V G hs env"
  shows "permitted V G hs (wr_workflow run) (xr_attestation (wr_request run)) d"
  using assms unfolding authorize_run_def permitted_def env_within_def map_has_def
  by (auto simp: Let_def split: if_splits option.splits)

lemma finish_record_ok:
  assumes "finish_execution i hash status evidence answer t w = (res, w')" "executions_ok w"
    and "\<And>r. get_execution k w = Some r \<Longrightarrow> record_ok sha w r" and "get_execution k w' = Some r"
    and "status = EXEC_COMPLETED \<Longrightarrow> \<exists>x \<in> set (ww_dispatched w). \<exists>a. xr_id (di_request x) = i \<and> execution_hash sha (di_request x) = Inr hash
      \<and> evidence = Some (pa_reasons (di_decision x)) \<and> answer = Some a \<and> action_status a = EXEC_COMPLETED \<and> check_action_result a = Inr ()"
  shows "get_execution k w = Some r \<or> record_ok sha w' r"
proof (cases "w' = w \<or> k \<noteq> i")
  case True
  then show ?thesis
    using finish_cases [OF assms(1)] assms(2,4) by (auto simp: executions_ok_def)
next
  case False
  then obtain found where found: "get_execution i w = Some found" "ex_requestHash found = hash"
    "w' = put_execution (found\<lparr>ex_status := status, ex_updatedAt := t,
        ex_policyEvidence := (case evidence of None \<Rightarrow> ex_policyEvidence found | Some e \<Rightarrow> Some e),
        ex_actionResult := (case answer of None \<Rightarrow> ex_actionResult found | Some a \<Rightarrow> Some a)\<rparr>) w"
    using finish_cases [OF assms(1)] by blast
  moreover have "ex_id found = i" using found(1) assms(2) by (simp add: executions_ok_def)
  ultimately have "r = found\<lparr>ex_status := status, ex_updatedAt := t,
        ex_policyEvidence := (case evidence of None \<Rightarrow> ex_policyEvidence found | Some e \<Rightarrow> Some e),
        ex_actionResult := (case answer of None \<Rightarrow> ex_actionResult found | Some a \<Rightarrow> Some a)\<rparr>"
    using assms(4) False by simp
  then have "record_ok sha w' r"
    using assms(5) found \<open>ex_id found = i\<close> unfolding record_ok_def by fastforce
  then show ?thesis ..
qed

lemma find_definition_D: "find_definition k w = Some v \<Longrightarrow> v \<in> set (ww_definitions w) \<and> definition_key v = k"
  by (auto simp: find_definition_def dest: table_find_mem table_find_key)

lemma begin_record:
  assumes "begin_execution sha i w = (res, w')" "get_execution k w' = Some r"
  shows "get_execution k w = Some r \<or> record_ok sha w' r"
  using begin_cases [OF assms(1)] assms(2) by (auto simp: record_ok_def initial_execution_def split: if_splits)

lemma begin_same:
  assumes "begin_execution sha i w = (res, w')"
  shows "ww_definitions w' = ww_definitions w \<and> ww_dispatched w' = ww_dispatched w"
  using begin_cases [OF assms] by auto

lemma begin_run_ok:
  assumes "begin_execution sha i w = (Inr (Inr run), w')"
  shows "run_ok sha w' run"
  using begin_cases [OF assms] find_definition_D unfolding run_ok_def
  by (fastforce simp: initial_execution_def)

lemma finish_same:
  assumes "finish_execution i hash status evidence answer t w = (res, w')"
  shows "ww_definitions w' = ww_definitions w \<and> ww_dispatched w' = ww_dispatched w"
  using finish_cases [OF assms] by auto

lemma reject_run_D:
  assumes "reject_run env run ev w = (res, w')"
  shows "w' = w \<or> (\<exists>t. finish_execution (xr_id (wr_request run)) (wr_hash run) EXEC_REJECTED (Some ev) None t w = (res, w'))"
  using assms by (auto simp: reject_run_def and_then_def iso_string_def split: option.splits)

lemma record_result_D:
  assumes "record_result env run d r w = (res, w')"
  shows "w' = w \<or> check_action_result r = Inr () \<and> (\<exists>t. finish_execution (xr_id (wr_request run)) (wr_hash run) (action_status r)
    (Some (pa_reasons d)) (Some r) t w = (res, w'))"
  using assms by (auto simp: record_result_def and_then_def iso_string_def split: option.splits sum.splits)

lemma in_set_update: "c \<in> set (cs[n := x]) \<Longrightarrow> c \<in> set cs \<or> c = x"
  using set_update_subset_insert by fastforce

lemma register_system_ok:
  assumes reg: "register_workflow v w = (res, w')" and ok: "system_ok sha V G hs \<lparr>sy_world = w, sy_calls = cs\<rparr>"
  shows "system_ok sha V G hs \<lparr>sy_world = w', sy_calls = cs\<rparr>"
proof (cases "w' = w")
  case False
  then have new: "check_definition v = Inr ()" "find_definition (definition_key v) w = None"
      "w' = w\<lparr>ww_definitions := ww_definitions w @ [v]\<rparr>"
    using workflow_register_cases [OF reg] by auto
  have grows: "world_grows w w'" "executions_ok w'"
    using register_grows [OF reg] ok by (auto simp: system_ok_def)
  have "definition_key v \<notin> definition_key ` set (ww_definitions w)"
    using new(2) by (simp add: find_definition_def table_find_None)
  moreover have "\<forall>x \<in> set (ww_dispatched w'). dispatch_ok sha V G hs w' x" "\<forall>c \<in> set cs. call_ok sha V G hs w' c"
    "\<forall>k r. get_execution k w' = Some r \<longrightarrow> record_ok sha w' r"
    using ok grows dispatch_ok_grows call_ok_grows record_ok_grows by (fastforce simp: system_ok_def new(3) get_execution_def)+
  ultimately show ?thesis
    using ok grows(2) new(1) by (simp add: system_ok_def new(3))
qed (use ok in simp)


lemma system_ok_executions: "system_ok sha V G hs \<lparr>sy_world = w, sy_calls = cs\<rparr> \<Longrightarrow> executions_ok w"
  by (simp add: system_ok_def)

lemma system_ok_record:
  "system_ok sha V G hs \<lparr>sy_world = w, sy_calls = cs\<rparr> \<Longrightarrow> get_execution k w = Some r \<Longrightarrow> record_ok sha w r"
  by (simp add: system_ok_def)

lemma system_ok_call:
  "system_ok sha V G hs \<lparr>sy_world = w, sy_calls = cs\<rparr> \<Longrightarrow> n < length cs \<Longrightarrow> call_ok sha V G hs w (cs ! n)"
  by (simp add: system_ok_def)

lemma rejected_system_ok:
  assumes ok: "system_ok sha V G hs \<lparr>sy_world = w, sy_calls = cs\<rparr>" and run: "reject_run env run ev w = (res, w')"
  shows "system_ok sha V G hs \<lparr>sy_world = w', sy_calls = cs[n := CALL_DONE]\<rparr>"
proof (rule system_ok_grown [OF ok])
  show "world_grows w w' \<and> executions_ok w'"
    using reject_run_grows [OF run] system_ok_executions [OF ok] by simp
  show "get_execution k w = Some r \<or> record_ok sha w' r" if "get_execution k w' = Some r" for k r
    using reject_run_D [OF run] finish_record_ok [OF _ system_ok_executions [OF ok] _ that] system_ok_record [OF ok] that
    by blast
qed (use reject_run_D [OF run] finish_same in_set_update in \<open>fastforce+\<close>)

lemma recorded_system_ok:
  assumes ok: "system_ok sha V G hs \<lparr>sy_world = w, sy_calls = cs\<rparr>" and run: "record_result env run d r w = (res, w')"
    and n: "n < length cs" "cs ! n = CALL_DISPATCHED run d r"
  shows "system_ok sha V G hs \<lparr>sy_world = w', sy_calls = cs[n := CALL_DONE]\<rparr>"
proof (rule system_ok_grown [OF ok])
  show "world_grows w w' \<and> executions_ok w'"
    using record_run_grows [OF run] system_ok_executions [OF ok] by simp
  have call: "run_ok sha w run" "\<lparr>di_request = wr_request run, di_workflow = wr_workflow run, di_decision = d\<rparr> \<in> set (ww_dispatched w)"
    using system_ok_call [OF ok n(1)] n(2) by simp_all
  then have justified: "action_status r = EXEC_COMPLETED \<Longrightarrow> check_action_result r = Inr () \<Longrightarrow>
      \<exists>x \<in> set (ww_dispatched w). \<exists>a. xr_id (di_request x) = xr_id (wr_request run)
        \<and> execution_hash sha (di_request x) = Inr (wr_hash run) \<and> Some (pa_reasons d) = Some (pa_reasons (di_decision x))
        \<and> Some r = Some a \<and> action_status a = EXEC_COMPLETED \<and> check_action_result a = Inr ()"
    unfolding run_ok_def by (intro bexI [OF _ call(2)]) simp
  show "get_execution k w = Some x \<or> record_ok sha w' x" if get: "get_execution k w' = Some x" for k x
  proof (cases "w' = w")
    case False
    then obtain t where t: "check_action_result r = Inr ()" "finish_execution (xr_id (wr_request run)) (wr_hash run)
        (action_status r) (Some (pa_reasons d)) (Some r) t w = (res, w')"
      using record_result_D [OF run] by blast
    show ?thesis
      by (rule finish_record_ok [OF t(2) system_ok_executions [OF ok] system_ok_record [OF ok] get justified [OF _ t(1)]])
  qed (use get in simp)
qed (use record_result_D [OF run] finish_same in_set_update in \<open>fastforce+\<close>)

lemma dispatched_system_ok:
  assumes ok: "system_ok sha V G hs \<lparr>sy_world = w, sy_calls = cs\<rparr>" and run: "log_dispatch run d w = (Inr (), w')"
    and n: "n < length cs" "cs ! n = CALL_ALLOWED run d h"
  shows "system_ok sha V G hs \<lparr>sy_world = w', sy_calls = cs[n := CALL_DISPATCHED run d r]\<rparr>"
proof (rule system_ok_grown [OF ok])
  have w': "w' = w\<lparr>ww_dispatched := ww_dispatched w @ [\<lparr>di_request = wr_request run, di_workflow = wr_workflow run, di_decision = d\<rparr>]\<rparr>"
    using run by (simp add: log_dispatch_def)
  show grows: "world_grows w w' \<and> executions_ok w'"
    using log_grows [OF run] system_ok_executions [OF ok] by simp
  have "run_ok sha w run" and permit: "permitted V G hs (wr_workflow run) (xr_attestation (wr_request run)) d"
    using system_ok_call [OF ok n(1)] n(2) by simp_all
  then have run': "run_ok sha w' run" using grows run_ok_grows by blast
  then have "run_ok sha w' \<lparr>wr_workflow = wr_workflow run, wr_request = wr_request run, wr_hash = wr_hash run\<rparr>"
    by (simp add: run_ok_def)
  then show "dispatch_ok sha V G hs w' x" if "x \<in> set (ww_dispatched w')" "x \<notin> set (ww_dispatched w)" for x
    using that permit unfolding dispatch_ok_def by (auto simp: w')
  show "get_execution k w = Some x \<or> record_ok sha w' x" if "get_execution k w' = Some x" for k x
    using that by (simp add: w' get_execution_def)
  show "c \<in> set cs \<or> call_ok sha V G hs w' c" if "c \<in> set (cs[n := CALL_DISPATCHED run d r])" for c
    using in_set_update [OF that] run' by (auto simp: w')
qed (use run in \<open>auto simp: log_dispatch_def\<close>)

lemma step_system_ok: "workflow_step sha V G hs s s' \<Longrightarrow> system_ok sha V G hs s \<Longrightarrow> system_ok sha V G hs s'"
proof (induction rule: workflow_step.induct)
  case (step_register v w res w' cs)
  then show ?case by (rule register_system_ok)
next
  case (step_begin i w run w' cs)
  then show ?case
    using begin_grows [OF step_begin(1)] begin_same [OF step_begin(1)] begin_record [OF step_begin(1)] begin_run_ok [OF step_begin(1)]
    by (intro system_ok_grown [OF step_begin(2)]) (auto dest: system_ok_executions)
next
  case (step_refused i w res w' cs)
  then show ?case
    using begin_grows [OF step_refused(1)] begin_same [OF step_refused(1)] begin_record [OF step_refused(1)]
    by (intro system_ok_grown [OF step_refused(3)]) (auto dest: system_ok_executions)
next
  case (step_reject n cs run env ev w)
  then show ?case
    using system_ok_call [OF step_reject(5,1)]
    by (intro system_ok_grown [OF step_reject(5)]) (auto dest: system_ok_executions in_set_update)
next
  case (step_allow n cs run env d h w)
  then show ?case
    using system_ok_call [OF step_allow(5,1)] authorize_permits [OF step_allow(4,3)]
    by (intro system_ok_grown [OF step_allow(5)]) (auto dest: system_ok_executions in_set_update)
next
  case (step_rejected n cs run ev env w res w')
  then show ?case using rejected_system_ok by blast
next
  case (step_dispatch n cs run d h w w')
  then show ?case using dispatched_system_ok by blast
next
  case (step_record n cs run d r env w res w')
  then show ?case using recorded_system_ok by blast
qed

lemma start_system_ok: "system_ok sha V G hs workflow_start"
  by (simp add: system_ok_def executions_ok_def get_execution_def)

lemma reachable_system_ok: "(workflow_step sha V G hs)\<^sup>*\<^sup>* workflow_start s \<Longrightarrow> system_ok sha V G hs s"
  by (induction rule: rtranclp_induct) (auto intro: step_system_ok start_system_ok)

text \<open>
  C32. An action is only dispatched on authority. In every state that interleaved and crashing calls
  reach, each dispatched action belongs to a registered, enabled workflow of exactly the name and version
  its request asked for, whose network, predicate and claims the attestation has; the verifier accepted the
  attestation, the policy of exactly the workflow's identity and version allowed it, and a handler of its type
  is configured. A completed execution has such a dispatch, whose request hashes to the record's, and a
  result with finality evidence; and no execution that has ended ever changes.
\<close>

theorem workflow_action_authorised:
  assumes "(workflow_step sha V G hs)\<^sup>*\<^sup>* workflow_start s"
  shows "(\<forall>x \<in> set (ww_dispatched (sy_world s)). di_workflow x \<in> set (ww_definitions (sy_world s))
           \<and> definition_key (di_workflow x) = (xr_workflowId (di_request x), xr_workflowVersion (di_request x))
           \<and> check_definition (di_workflow x) = Inr ()
           \<and> permitted V G hs (di_workflow x) (xr_attestation (di_request x)) (di_decision x))
         \<and> (\<forall>i r. get_execution i (sy_world s) = Some r \<and> ex_status r = EXEC_COMPLETED \<longrightarrow>
           (\<exists>x \<in> set (ww_dispatched (sy_world s)). \<exists>a. xr_id (di_request x) = i \<and> execution_hash sha (di_request x) = Inr (ex_requestHash r)
              \<and> ex_actionResult r = Some a \<and> action_status a = EXEC_COMPLETED \<and> check_action_result a = Inr ()))
         \<and> (\<forall>s' i r. (workflow_step sha V G hs)\<^sup>*\<^sup>* s s' \<and> get_execution i (sy_world s) = Some r \<and> ex_status r \<noteq> EXEC_IN_PROGRESS
           \<longrightarrow> get_execution i (sy_world s') = Some r)"
proof (intro conjI)
  have ok: "system_ok sha V G hs s" by (rule reachable_system_ok [OF assms])
  show "\<forall>x \<in> set (ww_dispatched (sy_world s)). di_workflow x \<in> set (ww_definitions (sy_world s))
      \<and> definition_key (di_workflow x) = (xr_workflowId (di_request x), xr_workflowVersion (di_request x))
      \<and> check_definition (di_workflow x) = Inr ()
      \<and> permitted V G hs (di_workflow x) (xr_attestation (di_request x)) (di_decision x)"
    using ok by (auto simp: system_ok_def dispatch_ok_def run_ok_def list_all_iff)
  show "\<forall>i r. get_execution i (sy_world s) = Some r \<and> ex_status r = EXEC_COMPLETED \<longrightarrow>
      (\<exists>x \<in> set (ww_dispatched (sy_world s)). \<exists>a. xr_id (di_request x) = i \<and> execution_hash sha (di_request x) = Inr (ex_requestHash r)
        \<and> ex_actionResult r = Some a \<and> action_status a = EXEC_COMPLETED \<and> check_action_result a = Inr ())"
    using ok unfolding system_ok_def record_ok_def executions_ok_def by blast
  show "\<forall>s' i r. (workflow_step sha V G hs)\<^sup>*\<^sup>* s s' \<and> get_execution i (sy_world s) = Some r \<and> ex_status r \<noteq> EXEC_IN_PROGRESS
      \<longrightarrow> get_execution i (sy_world s') = Some r"
    using steps_grow [of sha V G hs s] ok unfolding system_ok_def world_grows_def execution_grows_def by metis
qed


section \<open>An example\<close>

definition example_workflow :: workflow_definition where
  "example_workflow = \<lparr>wd_id = ''IW:WORKFLOW:w'', wd_version = ''1'', wd_enabled = True, wd_sourceNetworkId = ''IW:NETWORK:e'',
     wd_predicateType = ''CollateralDeposited'', wd_claimEquals = [(''amount'', JsString ''5'')], wd_policyId = ''IW:POLICY:p'',
     wd_policyVersion = ''1'', wd_actionType = RECORD_CANTON_COLLATERAL, wd_actionConfiguration = [], wd_createdAt = to_iso_string 0\<rparr>"

definition example_artifact :: generic_attestation where
  "example_artifact = \<lparr>ga_statement = generic_statement_of example_request example_observation, ga_signatures = [],
     ga_validatorEvidence = [], ga_digest = ''h'', ga_status = ''VERIFIED_EVIDENCE_ONLY'',
     ga_destinationMutationAuthorized = False, ga_recordedAt = to_iso_string 2000\<rparr>"

definition example_execution :: execute_request where
  "example_execution = \<lparr>xr_id = ''IW:WORKFLOW_EXECUTION:x'', xr_idempotencyKey = ''k'', xr_workflowId = ''IW:WORKFLOW:w'',
     xr_workflowVersion = ''1'', xr_attestation = example_artifact, xr_createdAt = to_iso_string 0\<rparr>"

definition example_answer :: policy_answer where
  "example_answer = \<lparr>pa_outcome = ALLOW, pa_policyId = ''IW:POLICY:p'', pa_policyVersion = ''1'', pa_reasons = [''WITHIN_LIMIT'']\<rparr>"

definition example_result :: action_result where
  "example_result = ACTION_APPLIED \<lparr>ax_externalTransactionId = ''t'', ax_observedPosition = ''9'', ax_evidence = [''final''],
     ax_finalizedAt = to_iso_string 3000\<rparr>"

definition example_handler :: action_handler where
  "example_handler = (\<lambda>_ _ _. Inr example_result)"

definition example_env :: workflow_env where
  "example_env = \<lparr>we_verify = (\<lambda>_. Inr True), we_authorize = (\<lambda>_ _ _. Inr example_answer),
     we_handlers = [(RECORD_CANTON_COLLATERAL, example_handler)], we_policy_now = Some 2000, we_finish_now = Some 4000\<rparr>"

lemma example_definition: "check_definition example_workflow = Inr ()"
  by (simp add: check_definition_def example_workflow_def starts_with_def workflow_version_text_def blank_iff js_space_def
      valid_time_def date_parse_to_iso_string is_digit_def)

lemma example_execution_checks: "check_execution example_execution = Inr ()"
  by (simp add: check_execution_def example_execution_def starts_with_def blank_iff js_space_def valid_time_def date_parse_to_iso_string)

lemma example_execution_hash: "execution_hash (\<lambda>_. []) example_execution = Inr ''sha256:''"
proof -
  have "proper_json (JsObject [(''id'', JsString (xr_id example_execution)), (''idempotencyKey'', JsString (xr_idempotencyKey example_execution)),
      (''workflowId'', JsString (xr_workflowId example_execution)), (''workflowVersion'', JsString (xr_workflowVersion example_execution)),
      (''attestationDigest'', JsString (ga_digest (xr_attestation example_execution)))])"
    by (simp add: example_execution_def)
  note canon = canonical_proper [OF this]
  show ?thesis unfolding execution_hash_def request_fingerprint_def canon by (simp only: bind_result_simps append_Nil2)
qed

abbreviation example_started :: workflow_world where
  "example_started \<equiv> \<lparr>ww_definitions = [example_workflow],
     ww_executions = [(''IW:WORKFLOW_EXECUTION:x'', initial_execution example_execution ''sha256:'')], ww_dispatched = []\<rparr>"

abbreviation example_workflow_run :: workflow_run where
  "example_workflow_run \<equiv> \<lparr>wr_workflow = example_workflow, wr_request = example_execution, wr_hash = ''sha256:''\<rparr>"

lemma example_register:
  "register_workflow example_workflow \<lparr>ww_definitions = [], ww_executions = [], ww_dispatched = []\<rparr>
     = (Inr example_workflow, \<lparr>ww_definitions = [example_workflow], ww_executions = [], ww_dispatched = []\<rparr>)"
  by (simp add: register_workflow_def and_then_def example_definition find_definition_def table_find_def)

lemma example_begin:
  "begin_execution (\<lambda>_. []) example_execution \<lparr>ww_definitions = [example_workflow], ww_executions = [], ww_dispatched = []\<rparr>
     = (Inr (Inr example_workflow_run), example_started)"
  by (simp add: begin_execution_def and_then_def example_execution_checks example_execution_hash find_definition_def table_find_def
      definition_key_def claim_execution_def get_execution_def put_execution_def initial_execution_def)
    (simp add: example_execution_def example_workflow_def)

lemma example_authorize: "authorize_run example_env example_workflow_run = Inr (Inr (example_answer, example_handler))"
  by (simp add: authorize_run_def example_env_def example_workflow_def matches_workflow_def strict_equal_def example_execution_def
      example_artifact_def generic_statement_of_def generic_request.defs example_request_def iso_result_def example_answer_def)


abbreviation example_dispatch :: dispatch where
  "example_dispatch \<equiv> \<lparr>di_request = example_execution, di_workflow = example_workflow, di_decision = example_answer\<rparr>"

abbreviation example_completed :: execution_record where
  "example_completed \<equiv> (initial_execution example_execution ''sha256:'')\<lparr>ex_status := EXEC_COMPLETED,
     ex_policyEvidence := Some [''WITHIN_LIMIT''], ex_actionResult := Some example_result, ex_updatedAt := to_iso_string 4000\<rparr>"

lemma example_record:
  "record_result example_env example_workflow_run example_answer example_result (example_started\<lparr>ww_dispatched := [example_dispatch]\<rparr>)
     = (Inr example_completed, \<lparr>ww_definitions = [example_workflow],
          ww_executions = [(''IW:WORKFLOW_EXECUTION:x'', example_completed)], ww_dispatched = [example_dispatch]\<rparr>)"
  by (simp add: record_result_def and_then_def iso_string_def example_env_def example_result_def evidenced_def blank_iff js_space_def
      valid_time_def date_parse_to_iso_string finish_execution_def get_execution_def put_execution_def initial_execution_def
      example_execution_def example_answer_def Let_def)

lemma example_steps:
  "(workflow_step (\<lambda>_. []) (\<lambda>_. True) (\<lambda>_ _ d. d = example_answer) [(RECORD_CANTON_COLLATERAL, example_handler)])\<^sup>*\<^sup>* workflow_start
     \<lparr>sy_world = \<lparr>ww_definitions = [example_workflow], ww_executions = [(''IW:WORKFLOW_EXECUTION:x'', example_completed)],
        ww_dispatched = [example_dispatch]\<rparr>, sy_calls = [CALL_DONE]\<rparr>"
  (is "?R\<^sup>*\<^sup>* _ \<lparr>sy_world = ?w, sy_calls = _\<rparr>")
proof -
  have within: "env_within (\<lambda>_. True) (\<lambda>_ _ d. d = example_answer) [(RECORD_CANTON_COLLATERAL, example_handler)] example_env"
    by (simp add: env_within_def example_env_def)
  have "?R\<^sup>*\<^sup>* workflow_start \<lparr>sy_world = \<lparr>ww_definitions = [example_workflow], ww_executions = [], ww_dispatched = []\<rparr>, sy_calls = []\<rparr>"
    by (rule r_into_rtranclp) (rule step_register [OF example_register])
  then have "?R\<^sup>*\<^sup>* workflow_start \<lparr>sy_world = example_started, sy_calls = [CALL_CLAIMED example_workflow_run]\<rparr>"
    by (rule rtranclp.rtrancl_into_rtrancl) (use step_begin [OF example_begin, where cs = "[]"] in simp)
  then have "?R\<^sup>*\<^sup>* workflow_start \<lparr>sy_world = example_started, sy_calls = [CALL_ALLOWED example_workflow_run example_answer example_handler]\<rparr>"
    by (rule rtranclp.rtrancl_into_rtrancl)
      (use step_allow [where n = 0 and cs = "[CALL_CLAIMED example_workflow_run]", OF _ _ within example_authorize] in simp)
  then have "?R\<^sup>*\<^sup>* workflow_start \<lparr>sy_world = example_started\<lparr>ww_dispatched := [example_dispatch]\<rparr>,
      sy_calls = [CALL_DISPATCHED example_workflow_run example_answer example_result]\<rparr>"
    by (rule rtranclp.rtrancl_into_rtrancl)
      (use step_dispatch [where n = 0 and cs = "[CALL_ALLOWED example_workflow_run example_answer example_handler]"
          and run = example_workflow_run and d = example_answer and h = example_handler and w = example_started]
        in \<open>simp add: log_dispatch_def dispatched_result_def example_handler_def\<close>)
  then show ?thesis
    by (rule rtranclp.rtrancl_into_rtrancl)
      (use step_record [where n = 0 and cs = "[CALL_DISPATCHED example_workflow_run example_answer example_result]",
          OF _ _ example_record] in simp)
qed

theorem workflow_action_authorised_witness:
  "\<exists>s :: workflow_system. example_dispatch \<in> set (ww_dispatched (sy_world s)) \<and> permitted (\<lambda>_. True) (\<lambda>_ _ d. d = example_answer) [(RECORD_CANTON_COLLATERAL, example_handler)]
         example_workflow example_artifact example_answer"
proof (rule exI, rule conjI)
  show "example_dispatch \<in> set (ww_dispatched (sy_world \<lparr>sy_world = \<lparr>ww_definitions = [example_workflow],
    ww_executions = [(''IW:WORKFLOW_EXECUTION:x'', example_completed)], ww_dispatched = [example_dispatch]\<rparr>, sy_calls = [CALL_DONE]\<rparr>))"
    by simp
  have "xr_attestation example_execution = example_artifact" by (simp add: example_execution_def)
  then show "permitted (\<lambda>_. True) (\<lambda>_ _ d. d = example_answer) [(RECORD_CANTON_COLLATERAL, example_handler)]
      example_workflow example_artifact example_answer"
    using workflow_action_authorised [OF example_steps] by simp
qed

end
