(* ===== verification/Tenancy.thy ===== *)
theory Tenancy
  imports Canonical_Json Js_Date Model
begin

text \<open>
  Tenants of packages/core/src/tenancy-auth.ts: authentication of a bearer credential against the
  registry of organizations, projects and environments, the scope each REST operation needs, the tenant
  prefix of idempotency keys and the grants of network operations. The OIDC verifier is outside the program.
\<close>

section \<open>Types\<close>

datatype scope = ASSETS_READ | ASSETS_WRITE | IDENTITIES_WRITE | TRANSFERS_CREATE | BRIDGE_CREATE | SETTLEMENTS_CREATE
  | ATTESTATIONS_CREATE | TRANSACTIONS_READ | WEBHOOKS_WRITE | POLICIES_ADMIN | EMERGENCY_READ | EMERGENCY_ADMIN_SCOPE

datatype tenant_status = TENANT_ACTIVE | TENANT_SUSPENDED

record organization =
  og_id :: interweave_id
  og_name :: string
  og_status :: tenant_status
  og_createdAt :: iso_timestamp

record project =
  pj_id :: interweave_id
  pj_organizationId :: interweave_id
  pj_name :: string
  pj_status :: tenant_status
  pj_createdAt :: iso_timestamp

datatype environment_kind = ENV_DEVELOPMENT | ENV_TEST | ENV_PRODUCTION

record tenant_environment =
  te_id :: interweave_id
  te_organizationId :: interweave_id
  te_projectId :: interweave_id
  te_name :: string
  te_kind :: environment_kind
  te_status :: tenant_status
  te_createdAt :: iso_timestamp

datatype credential_kind = API_KEY | OIDC

record credential =
  cd_id :: interweave_id
  cd_organizationId :: interweave_id
  cd_projectId :: interweave_id
  cd_environmentId :: interweave_id
  cd_subjectId :: string
  cd_kind :: credential_kind
  cd_secretHash :: "string option"
  cd_keyPrefix :: "string option"
  cd_scopes :: "scope list"
  cd_expiresAt :: "iso_timestamp option"
  cd_revokedAt :: "iso_timestamp option"
  cd_createdAt :: iso_timestamp

record tenant_context =
  tc_organizationId :: interweave_id
  tc_projectId :: interweave_id
  tc_environmentId :: interweave_id
  tc_credentialId :: interweave_id
  tc_subjectId :: string
  tc_scopes :: "scope list"
  tc_authenticationMethod :: credential_kind

record tenant_registry =
  tn_organizations :: "(interweave_id, organization) js_map"
  tn_projects :: "(interweave_id, project) js_map"
  tn_environments :: "(interweave_id, tenant_environment) js_map"
  tn_credentials :: "(interweave_id, credential) js_map"

definition credentials_by_prefix :: "string \<Rightarrow> tenant_registry \<Rightarrow> credential list" where
  "credentials_by_prefix prefix reg = filter (\<lambda>c. cd_keyPrefix c = Some prefix) (map_values (tn_credentials reg))"

record oidc_identity =
  oi_issuer :: string
  oi_subject :: string
  oi_credentialId :: interweave_id
  oi_audience :: string

type_synonym oidc_verifier = "string \<Rightarrow> oidc_identity option result"

section \<open>Authentication\<close>

text \<open>The text of the SHA-256 digest of UTF-8 bytes is a parameter, as in the other components.\<close>

definition hash_api_key :: "(8 word list \<Rightarrow> string) \<Rightarrow> string \<Rightarrow> string" where
  "hash_api_key sha key = ''sha256:'' @ sha (utf8 key)"

definition tenant_context_of ::
  "tenant_registry \<Rightarrow> js_date \<Rightarrow> credential \<Rightarrow> credential_kind \<Rightarrow> tenant_context result" where
  "tenant_context_of reg now c meth =
     (if truthy (cd_revokedAt c) \<or> truthy (cd_expiresAt c) \<and> date_reached now (the (cd_expiresAt c))
      then Inl (RegistryError CONFLICT ''credential is inactive'')
      else case (map_get (tn_organizations reg) (cd_organizationId c), map_get (tn_projects reg) (cd_projectId c),
          map_get (tn_environments reg) (cd_environmentId c)) of
        (Some og, Some p, Some e) \<Rightarrow>
          if og_status og \<noteq> TENANT_ACTIVE \<or> pj_status p \<noteq> TENANT_ACTIVE \<or> te_status e \<noteq> TENANT_ACTIVE
            \<or> pj_organizationId p \<noteq> og_id og \<or> te_organizationId e \<noteq> og_id og \<or> te_projectId e \<noteq> pj_id p
          then Inl (RegistryError CONFLICT ''tenant hierarchy is inactive or inconsistent'')
          else Inr \<lparr>tc_organizationId = og_id og, tc_projectId = pj_id p, tc_environmentId = te_id e, tc_credentialId = cd_id c,
            tc_subjectId = cd_subjectId c, tc_scopes = cd_scopes c, tc_authenticationMethod = meth\<rparr>
      | _ \<Rightarrow> Inl (RegistryError CONFLICT ''tenant hierarchy is inactive or inconsistent''))"

text \<open>\<open>timingSafeEqual\<close> on buffers of equal length compares the bytes.\<close>

definition same_bytes :: "string \<Rightarrow> string \<Rightarrow> bool" where
  "same_bytes a b \<longleftrightarrow> utf8 a = utf8 b"

fun api_key_loop :: "(credential \<Rightarrow> tenant_context result) \<Rightarrow> string \<Rightarrow> credential list \<Rightarrow> tenant_context result" where
  "api_key_loop ctx hash [] = Inl (RegistryError NOT_FOUND ''credential is invalid'')"
| "api_key_loop ctx hash (c # cs) =
     (if cd_kind c \<noteq> API_KEY \<or> \<not> truthy (cd_secretHash c) then api_key_loop ctx hash cs
      else if same_bytes hash (the (cd_secretHash c)) then ctx c
      else api_key_loop ctx hash cs)"

definition authenticate_api_key ::
  "(8 word list \<Rightarrow> string) \<Rightarrow> tenant_registry \<Rightarrow> js_date \<Rightarrow> string \<Rightarrow> tenant_context result" where
  "authenticate_api_key sha reg now key =
     (let prefix = join ''_'' (take 2 (split_on (CHR ''_'') key)) in
      api_key_loop (\<lambda>c. tenant_context_of reg now c API_KEY) (hash_api_key sha key) (credentials_by_prefix prefix reg))"

definition authenticate_oidc ::
  "tenant_registry \<Rightarrow> oidc_verifier option \<Rightarrow> string \<Rightarrow> js_date \<Rightarrow> string \<Rightarrow> tenant_context result" where
  "authenticate_oidc reg oidc audience now token =
     (case oidc of
        None \<Rightarrow> Inl (RegistryError NOT_FOUND ''OIDC authentication is not configured'')
      | Some verifier \<Rightarrow>
          bind_result (verifier token) (\<lambda>verified.
            case verified of
              None \<Rightarrow> Inl (RegistryError NOT_FOUND ''OIDC token is invalid'')
            | Some v \<Rightarrow>
                if oi_audience v \<noteq> audience then Inl (RegistryError NOT_FOUND ''OIDC token is invalid'')
                else case map_get (tn_credentials reg) (oi_credentialId v) of
                    None \<Rightarrow> Inl (RegistryError NOT_FOUND ''OIDC subject is not authorized'')
                  | Some c \<Rightarrow>
                      if cd_kind c \<noteq> OIDC \<or> cd_subjectId c \<noteq> oi_issuer v @ ''|'' @ oi_subject v
                      then Inl (RegistryError NOT_FOUND ''OIDC subject is not authorized'')
                      else tenant_context_of reg now c OIDC))"

definition authenticate_bearer ::
  "(8 word list \<Rightarrow> string) \<Rightarrow> tenant_registry \<Rightarrow> oidc_verifier option \<Rightarrow> string \<Rightarrow> js_date \<Rightarrow> string \<Rightarrow> tenant_context result" where
  "authenticate_bearer sha reg oidc audience now value =
     (if \<not> starts_with value ''Bearer '' then Inl (RegistryError INVALID_ARGUMENT ''Bearer authentication is required'')
      else let token = trim (drop 7 value) in
        if token = [] then Inl (RegistryError INVALID_ARGUMENT ''credential is required'')
        else if starts_with token ''iw_'' then authenticate_api_key sha reg now token
        else authenticate_oidc reg oidc audience now token)"

text \<open>A new key: the random secret is an argument. Only the digest is stored.\<close>

record issued_key =
  ik_key :: string
  ik_prefix :: string
  ik_secretHash :: string

definition issue_api_key :: "(8 word list \<Rightarrow> string) \<Rightarrow> string \<Rightarrow> string \<Rightarrow> issued_key" where
  "issue_api_key sha prefix secret = (let key = prefix @ ''_'' @ secret in
     \<lparr>ik_key = key, ik_prefix = prefix, ik_secretHash = hash_api_key sha key\<rparr>)"

section \<open>Authorisation\<close>

datatype rest_operation = NETWORKS_LIST | ASSETS_CREATE | ASSETS_GET | ASSETS_BALANCE | IDENTITIES_CREATE | IDENTITIES_BIND
  | TRANSFERS_CREATE_OP | TRANSFERS_GET | BRIDGE_CREATE_OP | BRIDGE_GET | SETTLEMENTS_CREATE_OP | SETTLEMENTS_GET
  | ATTESTATIONS_CREATE_OP | ATTESTATIONS_GET | TRANSACTIONS_GET | WEBHOOKS_CREATE | EMERGENCY_LIST | EMERGENCY_CREATE
  | EMERGENCY_LIFT

record rest_command =
  rc_operation :: rest_operation
  rc_path :: "(string, string) js_map"
  rc_query :: "(string, string) js_map"
  rc_body :: "json option"
  rc_idempotencyKey :: "string option"
  rc_requestId :: string

fun required_scope :: "rest_operation \<Rightarrow> scope" where
  "required_scope NETWORKS_LIST = ASSETS_READ"
| "required_scope ASSETS_CREATE = ASSETS_WRITE"
| "required_scope ASSETS_GET = ASSETS_READ"
| "required_scope ASSETS_BALANCE = ASSETS_READ"
| "required_scope IDENTITIES_CREATE = IDENTITIES_WRITE"
| "required_scope IDENTITIES_BIND = IDENTITIES_WRITE"
| "required_scope TRANSFERS_CREATE_OP = TRANSFERS_CREATE"
| "required_scope TRANSFERS_GET = ASSETS_READ"
| "required_scope BRIDGE_CREATE_OP = BRIDGE_CREATE"
| "required_scope BRIDGE_GET = ASSETS_READ"
| "required_scope SETTLEMENTS_CREATE_OP = SETTLEMENTS_CREATE"
| "required_scope SETTLEMENTS_GET = ASSETS_READ"
| "required_scope ATTESTATIONS_CREATE_OP = ATTESTATIONS_CREATE"
| "required_scope ATTESTATIONS_GET = ASSETS_READ"
| "required_scope TRANSACTIONS_GET = TRANSACTIONS_READ"
| "required_scope WEBHOOKS_CREATE = WEBHOOKS_WRITE"
| "required_scope EMERGENCY_LIST = EMERGENCY_READ"
| "required_scope EMERGENCY_CREATE = EMERGENCY_ADMIN_SCOPE"
| "required_scope EMERGENCY_LIFT = EMERGENCY_ADMIN_SCOPE"

fun scope_text :: "scope \<Rightarrow> string" where
  "scope_text ASSETS_READ = ''assets:read''"
| "scope_text ASSETS_WRITE = ''assets:write''"
| "scope_text IDENTITIES_WRITE = ''identities:write''"
| "scope_text TRANSFERS_CREATE = ''transfers:create''"
| "scope_text BRIDGE_CREATE = ''bridge:create''"
| "scope_text SETTLEMENTS_CREATE = ''settlements:create''"
| "scope_text ATTESTATIONS_CREATE = ''attestations:create''"
| "scope_text TRANSACTIONS_READ = ''transactions:read''"
| "scope_text WEBHOOKS_WRITE = ''webhooks:write''"
| "scope_text POLICIES_ADMIN = ''policies:admin''"
| "scope_text EMERGENCY_READ = ''emergency:read''"
| "scope_text EMERGENCY_ADMIN_SCOPE = ''emergency:admin''"

text \<open>The key under which a write of a tenant is made idempotent.\<close>

definition tenant_key :: "tenant_context \<Rightarrow> string \<Rightarrow> string" where
  "tenant_key ctx key = tc_organizationId ctx @ '':'' @ tc_projectId ctx @ '':'' @ tc_environmentId ctx @ '':'' @ key"

definition tenant_execute ::
  "(rest_command \<Rightarrow> tenant_context \<Rightarrow> ('s, 'a) comp) \<Rightarrow> tenant_context \<Rightarrow> rest_command \<Rightarrow> ('s, 'a) comp" where
  "tenant_execute inner ctx command =
     (if required_scope (rc_operation command) \<notin> set (tc_scopes ctx)
      then throw (RegistryError CONFLICT (''missing required scope: '' @ scope_text (required_scope (rc_operation command))))
      else inner (command\<lparr>rc_idempotencyKey :=
          (if truthy (rc_idempotencyKey command) then Some (tenant_key ctx (the (rc_idempotencyKey command))) else None)\<rparr>) ctx)"

record network_grant =
  ng_organizationId :: interweave_id
  ng_projectId :: interweave_id
  ng_environmentId :: interweave_id
  ng_networkId :: interweave_id
  ng_operationId :: string
  ng_allowedAction :: string
  ng_expiresAt :: iso_timestamp

definition authorize_network :: "tenant_context \<Rightarrow> network_grant \<Rightarrow> interweave_id \<Rightarrow> string \<Rightarrow> string \<Rightarrow> js_date \<Rightarrow> unit result" where
  "authorize_network ctx g networkId operationId action now =
     (if ng_organizationId g \<noteq> tc_organizationId ctx \<or> ng_projectId g \<noteq> tc_projectId ctx
        \<or> ng_environmentId g \<noteq> tc_environmentId ctx \<or> ng_networkId g \<noteq> networkId \<or> ng_operationId g \<noteq> operationId
        \<or> ng_allowedAction g \<noteq> action \<or> date_reached now (ng_expiresAt g)
      then Inl (RegistryError CONFLICT ''network operation is not authorized for tenant'')
      else Inr ())"

section \<open>What an authenticated call rests on\<close>

text \<open>A credential that is in force: not revoked, not past its expiry, in a hierarchy that is active and consistent.\<close>

definition credential_in_force :: "tenant_registry \<Rightarrow> js_date \<Rightarrow> credential \<Rightarrow> tenant_context \<Rightarrow> bool" where
  "credential_in_force reg now c ctx \<longleftrightarrow> \<not> truthy (cd_revokedAt c) \<and> (truthy (cd_expiresAt c) \<longrightarrow> \<not> date_reached now (the (cd_expiresAt c)))
     \<and> (\<exists>og p e. map_get (tn_organizations reg) (cd_organizationId c) = Some og \<and> map_get (tn_projects reg) (cd_projectId c) = Some p
         \<and> map_get (tn_environments reg) (cd_environmentId c) = Some e
         \<and> og_status og = TENANT_ACTIVE \<and> pj_status p = TENANT_ACTIVE \<and> te_status e = TENANT_ACTIVE
         \<and> pj_organizationId p = og_id og \<and> te_organizationId e = og_id og \<and> te_projectId e = pj_id p
         \<and> tc_organizationId ctx = og_id og \<and> tc_projectId ctx = pj_id p \<and> tc_environmentId ctx = te_id e
         \<and> tc_credentialId ctx = cd_id c \<and> tc_subjectId ctx = cd_subjectId c \<and> tc_scopes ctx = cd_scopes c)"

text \<open>What the caller showed.\<close>

definition presented ::
  "(8 word list \<Rightarrow> string) \<Rightarrow> tenant_registry \<Rightarrow> oidc_verifier option \<Rightarrow> string \<Rightarrow> string \<Rightarrow> credential \<Rightarrow> credential_kind \<Rightarrow> bool" where
  "presented sha reg oidc audience token c meth \<longleftrightarrow> cd_kind c = meth \<and> (case meth of
       API_KEY \<Rightarrow> starts_with token ''iw_'' \<and> c \<in> set (map_values (tn_credentials reg)) \<and> cd_secretHash c = Some (hash_api_key sha token)
     | OIDC \<Rightarrow> \<not> starts_with token ''iw_'' \<and> (\<exists>verifier v. oidc = Some verifier \<and> verifier token = Inr (Some v)
         \<and> oi_audience v = audience \<and> map_get (tn_credentials reg) (oi_credentialId v) = Some c
         \<and> cd_subjectId c = oi_issuer v @ ''|'' @ oi_subject v))"

lemma tenant_context_of_Inr:
  assumes "tenant_context_of reg now c meth = Inr ctx"
  shows "credential_in_force reg now c ctx \<and> tc_authenticationMethod ctx = meth"
  using assms by (auto simp: tenant_context_of_def credential_in_force_def split: if_splits option.splits)

lemma api_key_loop_Inr:
  assumes "api_key_loop ctx hash cs = Inr x"
  shows "\<exists>c \<in> set cs. cd_kind c = API_KEY \<and> cd_secretHash c = Some hash \<and> ctx c = Inr x"
  using assms
proof (induction cs)
  case (Cons c cs)
  then show ?case by (auto simp: same_bytes_def utf8_inj truthy_def split: if_splits)
qed simp

lemma authenticate_oidc_Inr:
  assumes "authenticate_oidc reg oidc audience now token = Inr ctx"
  shows "\<exists>verifier v c. oidc = Some verifier \<and> verifier token = Inr (Some v) \<and> oi_audience v = audience
    \<and> map_get (tn_credentials reg) (oi_credentialId v) = Some c \<and> cd_kind c = OIDC \<and> cd_subjectId c = oi_issuer v @ ''|'' @ oi_subject v
    \<and> tenant_context_of reg now c OIDC = Inr ctx"
proof -
  obtain verifier where verifier: "oidc = Some verifier" using assms by (cases oidc) (auto simp: authenticate_oidc_def)
  then obtain v where v: "verifier token = Inr (Some v)" "oi_audience v = audience"
    using assms by (cases "verifier token") (auto simp: authenticate_oidc_def split: option.splits if_splits)
  then show ?thesis
    using assms verifier by (cases "map_get (tn_credentials reg) (oi_credentialId v)") (auto simp: authenticate_oidc_def split: if_splits)
qed

lemma authenticate_bearer_Inr:
  assumes "authenticate_bearer sha reg oidc audience now value = Inr ctx"
  shows "\<exists>c. credential_in_force reg now c ctx
    \<and> presented sha reg oidc audience (trim (drop 7 value)) c (tc_authenticationMethod ctx)"
proof (cases "starts_with (trim (drop 7 value)) ''iw_''")
  case True
  then have "authenticate_api_key sha reg now (trim (drop 7 value)) = Inr ctx"
    using assms by (auto simp: authenticate_bearer_def Let_def split: if_splits)
  then obtain c where "c \<in> set (map_values (tn_credentials reg))" "cd_kind c = API_KEY"
    "cd_secretHash c = Some (hash_api_key sha (trim (drop 7 value)))" "tenant_context_of reg now c API_KEY = Inr ctx"
    unfolding authenticate_api_key_def Let_def credentials_by_prefix_def by (force dest!: api_key_loop_Inr)
  then show ?thesis using True tenant_context_of_Inr [of reg now c API_KEY ctx] by (auto simp: presented_def)
next
  case False
  then have "authenticate_oidc reg oidc audience now (trim (drop 7 value)) = Inr ctx"
    using assms by (auto simp: authenticate_bearer_def Let_def split: if_splits)
  then obtain verifier v c where "oidc = Some verifier" "verifier (trim (drop 7 value)) = Inr (Some v)" "oi_audience v = audience"
    "map_get (tn_credentials reg) (oi_credentialId v) = Some c" "cd_kind c = OIDC" "cd_subjectId c = oi_issuer v @ ''|'' @ oi_subject v"
    "tenant_context_of reg now c OIDC = Inr ctx"
    using authenticate_oidc_Inr by metis
  then show ?thesis using False tenant_context_of_Inr [of reg now c OIDC ctx] by (auto simp: presented_def)
qed


text \<open>A key that was issued with a prefix of two parts is looked up under that prefix; with another prefix it is not.\<close>

lemma split_on_head: "c \<notin> set xs \<Longrightarrow> split_on c (xs @ c # ys) = xs # split_on c ys"
  by (induction xs) auto

lemma issued_key_prefix:
  assumes "CHR ''_'' \<notin> set a" "CHR ''_'' \<notin> set b"
  shows "join ''_'' (take 2 (split_on (CHR ''_'') (ik_key (issue_api_key sha (a @ ''_'' @ b) secret)))) = a @ ''_'' @ b"
  using assms split_on_head [of "CHR ''_''" a "b @ CHR ''_'' # secret"] split_on_head [of "CHR ''_''" b secret]
  by (simp add: issue_api_key_def Let_def eval_nat_numeral)

lemma longer_prefix_lost:
  "join ''_'' (take 2 (split_on (CHR ''_'') (ik_key (issue_api_key sha ''iw_live_eu'' secret)))) \<noteq> ik_prefix (issue_api_key sha ''iw_live_eu'' secret)"
  by (simp add: issue_api_key_def Let_def eval_nat_numeral)

section \<open>Keys of different tenants\<close>

text \<open>Identifiers whose part after the prefix has no colon.\<close>

definition plain_id :: "string \<Rightarrow> string \<Rightarrow> bool" where
  "plain_id prefix i \<longleftrightarrow> (\<exists>a. i = prefix @ a \<and> CHR '':'' \<notin> set a)"

definition plain_tenant :: "tenant_context \<Rightarrow> bool" where
  "plain_tenant ctx \<longleftrightarrow> plain_id ''IW:ORGANIZATION:'' (tc_organizationId ctx) \<and> plain_id ''IW:PROJECT:'' (tc_projectId ctx)
     \<and> plain_id ''IW:ENVIRONMENT:'' (tc_environmentId ctx)"

definition same_tenant :: "tenant_context \<Rightarrow> tenant_context \<Rightarrow> bool" where
  "same_tenant a b \<longleftrightarrow> tc_organizationId a = tc_organizationId b \<and> tc_projectId a = tc_projectId b
     \<and> tc_environmentId a = tc_environmentId b"

lemma plain_id_append:
  "plain_id p i \<Longrightarrow> plain_id p j \<Longrightarrow> i @ CHR '':'' # xs = j @ CHR '':'' # ys \<longleftrightarrow> i = j \<and> xs = ys"
  by (auto simp: plain_id_def separator_first)

lemma tenant_key_inject:
  assumes "plain_tenant a" "plain_tenant b"
  shows "tenant_key a k = tenant_key b l \<longleftrightarrow> same_tenant a b \<and> k = l"
  using assms by (auto simp: tenant_key_def plain_tenant_def same_tenant_def plain_id_append)

text \<open>Without that, the key of one tenant can be the key of another.\<close>

lemma tenant_keys_clash:
  assumes "tc_environmentId a = ''IW:ENVIRONMENT:acme''" "tc_environmentId b = ''IW:ENVIRONMENT:acme:prod''"
    and "tc_organizationId a = tc_organizationId b" "tc_projectId a = tc_projectId b"
  shows "\<not> same_tenant a b \<and> tenant_key a (''prod:'' @ k) = tenant_key b k"
  using assms by (simp add: tenant_key_def same_tenant_def)

text \<open>An expiry that is no date never comes: of a credential, and of a grant.\<close>

lemma unparsable_expiry_never_comes: "date_parse t = None \<Longrightarrow> \<not> date_reached now t"
  by (simp add: date_reached_def reached_def split: option.split)

text \<open>
  C33. A call is authorised by what it showed. An authenticated context is that of a registered credential,
  whose API key has the stored digest or whose OIDC subject the verifier confirmed for the audience; the
  credential is neither revoked nor past its expiry, and organization, project and environment are active and
  belong together. A command whose scope the credential lacks does not reach the backend, the idempotency key
  it reaches it with belongs to no other tenant with plain identifiers, and a network operation needs a grant
  in force that names the tenant, the network, the operation and the action.
\<close>

theorem tenant_call_authorised:
  assumes auth: "authenticate_bearer sha reg oidc audience now value = Inr ctx"
  shows "(\<exists>c. credential_in_force reg now c ctx
           \<and> presented sha reg oidc audience (trim (drop 7 value)) c (tc_authenticationMethod ctx)
           \<and> (\<forall>(inner :: rest_command \<Rightarrow> tenant_context \<Rightarrow> ('s, 'a) comp) command s.
                required_scope (rc_operation command) \<notin> set (cd_scopes c) \<longrightarrow> (\<exists>e. tenant_execute inner ctx command s = (Inl e, s))))
         \<and> (\<forall>ctx' (inner :: rest_command \<Rightarrow> tenant_context \<Rightarrow> ('s, 'a) comp) command k.
           required_scope (rc_operation command) \<in> set (tc_scopes ctx) \<and> rc_idempotencyKey command = Some k \<and> k \<noteq> []
           \<longrightarrow> tenant_execute inner ctx command = inner (command\<lparr>rc_idempotencyKey := Some (tenant_key ctx k)\<rparr>) ctx
             \<and> (plain_tenant ctx \<and> plain_tenant ctx' \<longrightarrow> (\<forall>k'. tenant_key ctx k = tenant_key ctx' k' \<longleftrightarrow> same_tenant ctx ctx' \<and> k = k')))
         \<and> (\<forall>g networkId operationId action at. authorize_network ctx g networkId operationId action at = Inr () \<longleftrightarrow>
           ng_organizationId g = tc_organizationId ctx \<and> ng_projectId g = tc_projectId ctx \<and> ng_environmentId g = tc_environmentId ctx
           \<and> ng_networkId g = networkId \<and> ng_operationId g = operationId \<and> ng_allowedAction g = action \<and> \<not> date_reached at (ng_expiresAt g))"
proof (intro conjI)
  obtain c where c: "credential_in_force reg now c ctx"
      "presented sha reg oidc audience (trim (drop 7 value)) c (tc_authenticationMethod ctx)"
    using authenticate_bearer_Inr [OF auth] by blast
  then have "tc_scopes ctx = cd_scopes c" by (auto simp: credential_in_force_def)
  then show "\<exists>c. credential_in_force reg now c ctx
           \<and> presented sha reg oidc audience (trim (drop 7 value)) c (tc_authenticationMethod ctx)
           \<and> (\<forall>(inner :: rest_command \<Rightarrow> tenant_context \<Rightarrow> ('s, 'a) comp) command s.
                required_scope (rc_operation command) \<notin> set (cd_scopes c) \<longrightarrow> (\<exists>e. tenant_execute inner ctx command s = (Inl e, s)))"
    using c by (intro exI [of _ c]) (simp add: tenant_execute_def)
qed (auto simp: tenant_execute_def truthy_def tenant_key_inject authorize_network_def)

section \<open>An example\<close>

definition example_credential :: credential where
  "example_credential = \<lparr>cd_id = ''IW:CREDENTIAL:c'', cd_organizationId = ''IW:ORGANIZATION:o'', cd_projectId = ''IW:PROJECT:p'',
     cd_environmentId = ''IW:ENVIRONMENT:e'', cd_subjectId = ''IW:SERVICE_ACCOUNT:s'', cd_kind = API_KEY,
     cd_secretHash = Some ''sha256:h'', cd_keyPrefix = Some ''iw_live'', cd_scopes = [BRIDGE_CREATE], cd_expiresAt = None,
     cd_revokedAt = None, cd_createdAt = to_iso_string 0\<rparr>"

definition example_tenants :: tenant_registry where
  "example_tenants = \<lparr>
     tn_organizations = [(''IW:ORGANIZATION:o'', \<lparr>og_id = ''IW:ORGANIZATION:o'', og_name = ''o'', og_status = TENANT_ACTIVE,
        og_createdAt = to_iso_string 0\<rparr>)],
     tn_projects = [(''IW:PROJECT:p'', \<lparr>pj_id = ''IW:PROJECT:p'', pj_organizationId = ''IW:ORGANIZATION:o'', pj_name = ''p'',
        pj_status = TENANT_ACTIVE, pj_createdAt = to_iso_string 0\<rparr>)],
     tn_environments = [(''IW:ENVIRONMENT:e'', \<lparr>te_id = ''IW:ENVIRONMENT:e'', te_organizationId = ''IW:ORGANIZATION:o'',
        te_projectId = ''IW:PROJECT:p'', te_name = ''e'', te_kind = ENV_TEST, te_status = TENANT_ACTIVE, te_createdAt = to_iso_string 0\<rparr>)],
     tn_credentials = [(''IW:CREDENTIAL:c'', example_credential)]\<rparr>"

definition example_context :: tenant_context where
  "example_context = \<lparr>tc_organizationId = ''IW:ORGANIZATION:o'', tc_projectId = ''IW:PROJECT:p'', tc_environmentId = ''IW:ENVIRONMENT:e'',
     tc_credentialId = ''IW:CREDENTIAL:c'', tc_subjectId = ''IW:SERVICE_ACCOUNT:s'', tc_scopes = [BRIDGE_CREATE],
     tc_authenticationMethod = API_KEY\<rparr>"

lemma example_authenticated:
  "authenticate_bearer (\<lambda>_. ''h'') example_tenants None ''aud'' (Some 0) ''Bearer iw_live_x'' = Inr example_context"
proof -
  have token: "trim (drop 7 ''Bearer iw_live_x'') = ''iw_live_x''" "starts_with ''Bearer iw_live_x'' ''Bearer ''"
      "starts_with ''iw_live_x'' ''iw_''" "join ''_'' (take 2 (split_on (CHR ''_'') ''iw_live_x'')) = ''iw_live''"
    by code_simp+
  have "authenticate_api_key (\<lambda>_. ''h'') example_tenants (Some 0) ''iw_live_x'' = Inr example_context"
    unfolding authenticate_api_key_def token Let_def
    by (simp add: credentials_by_prefix_def example_tenants_def example_credential_def hash_api_key_def same_bytes_def truthy_def
        tenant_context_of_def example_context_def)
  then show ?thesis unfolding authenticate_bearer_def Let_def token by (simp add: token)
qed

theorem tenant_call_authorised_witness:
  "\<exists>c. credential_in_force example_tenants (Some 0) c example_context \<and> BRIDGE_CREATE \<in> set (cd_scopes c)
     \<and> (\<forall>(inner :: rest_command \<Rightarrow> tenant_context \<Rightarrow> (nat, nat) comp) command s.
          required_scope (rc_operation command) \<noteq> BRIDGE_CREATE \<longrightarrow> (\<exists>e. tenant_execute inner example_context command s = (Inl e, s)))"
proof -
  obtain c where c: "credential_in_force example_tenants (Some 0) c example_context"
    "\<forall>(inner :: rest_command \<Rightarrow> tenant_context \<Rightarrow> (nat, nat) comp) command s.
       required_scope (rc_operation command) \<notin> set (cd_scopes c) \<longrightarrow> (\<exists>e. tenant_execute inner example_context command s = (Inl e, s))"
    using tenant_call_authorised [OF example_authenticated, where ?'s = nat and ?'a = nat] by (elim exE conjE) (rule that)
  then have "cd_scopes c = [BRIDGE_CREATE]" by (auto simp: credential_in_force_def example_context_def)
  then show ?thesis using c by auto
qed

end
