(* ===== verification/Audit_Trail.thy ===== *)
theory Audit_Trail
  imports Tenancy Attestation_Protocol
begin

text \<open>
  The audit trail of packages/core/src/audit-service.ts on its PostgreSQL table: records chained by their
  digests per tenant and transaction, and the reconstruction that verifies the chain. Appends to one chain
  are serialised by an advisory lock. The hexadecimal SHA-256 digest is a parameter. A payload is any JavaScript value: what
  the digests are taken of (\<open>canonicalJson\<close>, which sees the own keys of an object) and what the \<open>jsonb\<close> column gives back
  (\<open>JSON.stringify\<close>, which calls \<open>toJSON\<close>) are two functions of it.
\<close>

section \<open>Payload values\<close>

text \<open>
  An object has its own enumerable fields and, if it inherits a \<open>toJSON\<close> such as that of \<open>Date\<close>, the JSON that this
  answers with, \<open>JsUndefined\<close> for none.
\<close>

datatype payload_value = PvNull | PvString string | PvBool bool | PvNumber "string option" | PvUndefined | PvOther string
  | PvArray "payload_value list" | PvObject "(string \<times> payload_value) list" "json option"

text \<open>What \<open>canonicalJson\<close> and \<open>Object.entries\<close> see.\<close>

fun own_view :: "payload_value \<Rightarrow> json" where
  "own_view PvNull = JsNull"
| "own_view (PvString s) = JsString s"
| "own_view (PvBool b) = JsBool b"
| "own_view (PvNumber n) = JsNumber n"
| "own_view PvUndefined = JsUndefined"
| "own_view (PvOther t) = JsOther t"
| "own_view (PvArray vs) = JsArray (map own_view vs)"
| "own_view (PvObject fs to_json) = JsObject (map (\<lambda>(k, v). (k, own_view v)) fs)"

text \<open>What \<open>JSON.parse(JSON.stringify(v))\<close> gives.\<close>

fun printed :: "payload_value \<Rightarrow> json" where
  "printed PvNull = JsNull"
| "printed (PvString s) = JsString s"
| "printed (PvBool b) = JsBool b"
| "printed (PvNumber n) = (case n of None \<Rightarrow> JsNull | Some t \<Rightarrow> JsNumber (Some t))"
| "printed PvUndefined = JsUndefined"
| "printed (PvOther t) = JsUndefined"
| "printed (PvArray vs) = JsArray (map (\<lambda>v. let x = printed v in if x = JsUndefined then JsNull else x) vs)"
| "printed (PvObject fs to_json) = (case to_json of
     Some j \<Rightarrow> j
   | None \<Rightarrow> JsObject (filter (\<lambda>(k, x). x \<noteq> JsUndefined) (map (\<lambda>(k, v). (k, printed v)) fs)))"

text \<open>What a \<open>jsonb\<close> column makes of it: the keys of an object come back by length, then by their bytes.\<close>

definition jsonb_le :: "string \<times> 'a \<Rightarrow> string \<times> 'a \<Rightarrow> bool" where
  "jsonb_le a b = (let m = length (utf8 (fst a)); n = length (utf8 (fst b)) in m < n \<or> m = n \<and> string_le (fst a) (fst b))"

fun jsonb :: "json \<Rightarrow> json" where
  "jsonb (JsArray vs) = JsArray (map jsonb vs)"
| "jsonb (JsObject fs) = JsObject (sort_by jsonb_le (map (\<lambda>(k, v). (k, jsonb v)) fs))"
| "jsonb v = v"

text \<open>A string with a NUL has no \<open>jsonb\<close>: the driver raises.\<close>

fun has_nul :: "json \<Rightarrow> bool" where
  "has_nul (JsString s) = (CHR 0x00 \<in> set s)"
| "has_nul (JsArray vs) = (\<exists>v \<in> set vs. has_nul v)"
| "has_nul (JsObject fs) = (\<exists>(k, v) \<in> set fs. CHR 0x00 \<in> set k \<or> has_nul v)"
| "has_nul v = False"

type_synonym payload = "(string \<times> payload_value) list"

definition own_fields :: "payload \<Rightarrow> (string \<times> json) list" where
  "own_fields fs = map (\<lambda>(k, v). (k, own_view v)) fs"

definition stored_fields :: "payload \<Rightarrow> (string \<times> json) list" where
  "stored_fields fs = (case jsonb (printed (PvObject fs None)) of JsObject gs \<Rightarrow> gs | _ \<Rightarrow> [])"

section \<open>Records\<close>

datatype audit_category = AUDIT_REQUEST | AUDIT_POLICY_DECISION | AUDIT_SOURCE_TRANSACTION | AUDIT_SOURCE_FINALITY
  | AUDIT_ATTESTATION | AUDIT_VALIDATOR_SIGNATURES | AUDIT_DESTINATION_TRANSACTION | AUDIT_DESTINATION_FINALITY
  | AUDIT_RECONCILIATION | AUDIT_ADMINISTRATOR_INTERVENTION | AUDIT_STATE_TRANSITION

fun category_text :: "audit_category \<Rightarrow> string" where
  "category_text AUDIT_REQUEST = ''REQUEST''"
| "category_text AUDIT_POLICY_DECISION = ''POLICY_DECISION''"
| "category_text AUDIT_SOURCE_TRANSACTION = ''SOURCE_TRANSACTION''"
| "category_text AUDIT_SOURCE_FINALITY = ''SOURCE_FINALITY''"
| "category_text AUDIT_ATTESTATION = ''ATTESTATION''"
| "category_text AUDIT_VALIDATOR_SIGNATURES = ''VALIDATOR_SIGNATURES''"
| "category_text AUDIT_DESTINATION_TRANSACTION = ''DESTINATION_TRANSACTION''"
| "category_text AUDIT_DESTINATION_FINALITY = ''DESTINATION_FINALITY''"
| "category_text AUDIT_RECONCILIATION = ''RECONCILIATION''"
| "category_text AUDIT_ADMINISTRATOR_INTERVENTION = ''ADMINISTRATOR_INTERVENTION''"
| "category_text AUDIT_STATE_TRANSITION = ''STATE_TRANSITION''"

record audit_input =
  an_id :: interweave_id
  an_transactionId :: interweave_id
  an_operationId :: string
  an_category :: audit_category
  an_actor :: string
  an_action :: string
  an_payload :: payload
  an_occurredAt :: iso_timestamp

text \<open>A record of the table has JSON for its payload, one that is being made the caller's.\<close>

record 'p audit_entry =
  au_id :: interweave_id
  au_organizationId :: interweave_id
  au_projectId :: interweave_id
  au_environmentId :: interweave_id
  au_transactionId :: interweave_id
  au_operationId :: string
  au_sequence :: int
  au_category :: audit_category
  au_actor :: string
  au_action :: string
  au_payload :: 'p
  au_payloadHash :: string
  au_previousHash :: string
  au_recordHash :: string
  au_occurredAt :: iso_timestamp

type_synonym audit_record = "(string \<times> json) list audit_entry"

definition map_payload :: "('p \<Rightarrow> 'q) \<Rightarrow> 'p audit_entry \<Rightarrow> 'q audit_entry" where
  "map_payload f r = \<lparr>au_id = au_id r, au_organizationId = au_organizationId r, au_projectId = au_projectId r,
     au_environmentId = au_environmentId r, au_transactionId = au_transactionId r, au_operationId = au_operationId r,
     au_sequence = au_sequence r, au_category = au_category r, au_actor = au_actor r, au_action = au_action r,
     au_payload = f (au_payload r), au_payloadHash = au_payloadHash r, au_previousHash = au_previousHash r,
     au_recordHash = au_recordHash r, au_occurredAt = au_occurredAt r\<rparr>"

definition required_categories :: "audit_category list" where
  "required_categories = [AUDIT_REQUEST, AUDIT_POLICY_DECISION, AUDIT_SOURCE_TRANSACTION, AUDIT_SOURCE_FINALITY, AUDIT_ATTESTATION,
     AUDIT_VALIDATOR_SIGNATURES, AUDIT_DESTINATION_TRANSACTION, AUDIT_DESTINATION_FINALITY, AUDIT_RECONCILIATION]"

section \<open>Checks and digests\<close>

definition check_audit_input :: "audit_input \<Rightarrow> unit result" where
  "check_audit_input v =
     (if \<not> starts_with (an_id v) ''IW:AUDIT:'' \<or> \<not> starts_with (an_transactionId v) ''IW:TRANSACTION:'' \<or> blank (an_operationId v)
        \<or> blank (an_actor v) \<or> blank (an_action v) \<or> date_parse (an_occurredAt v) = None
      then Inl (RegistryError INVALID_ARGUMENT ''audit identity, actor, action, and timestamp are required'')
      else Inr ())"

text \<open>\<open>/secret|password|private.?key|api.?key|authorization|bearer/i\<close>\<close>

definition opt_char_key :: "string \<Rightarrow> bool" where
  "opt_char_key t \<longleftrightarrow> starts_with t ''key''
     \<or> t \<noteq> [] \<and> hd t \<noteq> char_of (10 :: nat) \<and> hd t \<noteq> char_of (13 :: nat) \<and> starts_with (tl t) ''key''"

definition secret_key :: "string \<Rightarrow> bool" where
  "secret_key k \<longleftrightarrow> (let s = lower k in
     has_substring s ''secret'' \<or> has_substring s ''password''
     \<or> any_suffix (\<lambda>t. starts_with t ''private'' \<and> opt_char_key (drop 7 t)) s
     \<or> any_suffix (\<lambda>t. starts_with t ''api'' \<and> opt_char_key (drop 3 t)) s
     \<or> has_substring s ''authorization'' \<or> has_substring s ''bearer'')"

fun reject_secrets :: "json \<Rightarrow> string \<Rightarrow> unit result"
  and reject_items :: "json list \<Rightarrow> string \<Rightarrow> nat \<Rightarrow> unit result"
  and reject_fields :: "(string \<times> json) list \<Rightarrow> string \<Rightarrow> unit result" where
  "reject_secrets (JsArray vs) path = reject_items vs path 0"
| "reject_secrets (JsObject fs) path = reject_fields fs path"
| "reject_secrets _ path = Inr ()"
| "reject_items [] path i = Inr ()"
| "reject_items (v # vs) path i =
     bind_result (reject_secrets v (path @ ''['' @ nat_to_string i @ '']'')) (\<lambda>_. reject_items vs path (Suc i))"
| "reject_fields [] path = Inr ()"
| "reject_fields ((k, v) # fs) path =
     (if secret_key k
      then Inl (RegistryError INVALID_ARGUMENT (''secret material is prohibited in audit payload: '' @ path @ ''.'' @ k))
      else bind_result (reject_secrets v (path @ ''.'' @ k)) (\<lambda>_. reject_fields fs path))"

definition audit_digest :: "(8 word list \<Rightarrow> string) \<Rightarrow> json \<Rightarrow> string result" where
  "audit_digest sha v = bind_result (canonical_json v) (\<lambda>t. Inr (''sha256:'' @ sha (utf8 t)))"

text \<open>The record without \<open>recordHash\<close>.\<close>

definition audit_fields :: "audit_record \<Rightarrow> (string \<times> json) list" where
  "audit_fields r =
     [(''id'', JsString (au_id r)), (''transactionId'', JsString (au_transactionId r)), (''operationId'', JsString (au_operationId r)),
      (''category'', JsString (category_text (au_category r))), (''actor'', JsString (au_actor r)), (''action'', JsString (au_action r)),
      (''payload'', JsObject (au_payload r)), (''occurredAt'', JsString (au_occurredAt r)),
      (''organizationId'', JsString (au_organizationId r)), (''projectId'', JsString (au_projectId r)),
      (''environmentId'', JsString (au_environmentId r)), (''payloadHash'', JsString (au_payloadHash r)),
      (''sequence'', JsNumber (Some (int_to_string (au_sequence r)))), (''previousHash'', JsString (au_previousHash r))]"

definition record_digest :: "(8 word list \<Rightarrow> string) \<Rightarrow> audit_record \<Rightarrow> string result" where
  "record_digest sha r = audit_digest sha (JsObject (audit_fields r))"

section \<open>The table\<close>

type_synonym audit_rows = "audit_record list"
type_synonym audit_scope = "interweave_id \<times> interweave_id \<times> interweave_id \<times> interweave_id"

definition audit_scope :: "audit_record \<Rightarrow> audit_scope" where
  "audit_scope r = (au_organizationId r, au_projectId r, au_environmentId r, au_transactionId r)"

definition context_scope :: "tenant_context \<Rightarrow> interweave_id \<Rightarrow> audit_scope" where
  "context_scope ctx i = (tc_organizationId ctx, tc_projectId ctx, tc_environmentId ctx, i)"

text \<open>\<open>ORDER BY sequence DESC LIMIT 1\<close>\<close>

definition latest :: "audit_rows \<Rightarrow> audit_record option" where
  "latest rs = foldl (\<lambda>m r. case m of None \<Rightarrow> Some r | Some x \<Rightarrow> if au_sequence x < au_sequence r then Some r else m) None rs"

text \<open>
  The insert stores the JSON of the record; it does nothing when a row has the same id, or the same sequence in
  the same chain.
\<close>

definition audit_insert :: "payload audit_entry \<Rightarrow> (audit_rows, payload audit_entry) comp" where
  "audit_insert r rows =
     (let row = map_payload stored_fields r in
      if has_nul (JsObject (audit_fields row @ [(''recordHash'', JsString (au_recordHash row))])) then (Inl (SqlError ''unsupported Unicode escape sequence''), rows)
      else if list_ex (\<lambda>x. au_id x = au_id row \<or> audit_scope x = audit_scope row \<and> au_sequence x = au_sequence row) rows
      then (Inl (RegistryError CONFLICT ''audit sequence or ID already exists''), rows)
      else (Inr r, rows @ [row]))"

definition audit_append ::
  "(8 word list \<Rightarrow> string) \<Rightarrow> tenant_context \<Rightarrow> audit_input \<Rightarrow> string \<Rightarrow> (audit_rows, payload audit_entry) comp" where
  "audit_append sha ctx i payloadHash = transaction (\<lambda>rows.
     let prior = latest (filter (\<lambda>r. audit_scope r = context_scope ctx (an_transactionId i)) rows);
         draft = \<lparr>au_id = an_id i, au_organizationId = tc_organizationId ctx, au_projectId = tc_projectId ctx,
           au_environmentId = tc_environmentId ctx, au_transactionId = an_transactionId i, au_operationId = an_operationId i,
           au_sequence = (case prior of None \<Rightarrow> - 1 | Some r \<Rightarrow> au_sequence r) + 1, au_category = an_category i,
           au_actor = an_actor i, au_action = an_action i, au_payload = an_payload i, au_payloadHash = payloadHash,
           au_previousHash = (case prior of None \<Rightarrow> ''GENESIS'' | Some r \<Rightarrow> au_recordHash r), au_recordHash = [],
           au_occurredAt = an_occurredAt i\<rparr>
     in case record_digest sha (map_payload own_fields draft) of
       Inl e \<Rightarrow> (Inl e, rows)
     | Inr h \<Rightarrow> audit_insert (draft\<lparr>au_recordHash := h\<rparr>) rows)"

definition audit_call ::
  "(8 word list \<Rightarrow> string) \<Rightarrow> tenant_context \<Rightarrow> audit_input \<Rightarrow> (audit_rows, payload audit_entry) comp" where
  "audit_call sha ctx i =
     and_then (lift_result (check_audit_input i)) (\<lambda>_.
     and_then (lift_result (reject_secrets (JsObject (own_fields (an_payload i))) ''payload'')) (\<lambda>_.
     and_then (lift_result (audit_digest sha (JsObject (own_fields (an_payload i))))) (\<lambda>payloadHash.
     audit_append sha ctx i payloadHash)))"

definition audit_list :: "tenant_context \<Rightarrow> interweave_id \<Rightarrow> audit_rows \<Rightarrow> audit_rows" where
  "audit_list ctx i rows =
     sort_by (\<lambda>a b. au_sequence a \<le> au_sequence b) (filter (\<lambda>r. audit_scope r = context_scope ctx i) rows)"

section \<open>Reconstruction\<close>

record reconstruction =
  rx_transactionId :: interweave_id
  rx_operationId :: string
  rx_records :: audit_rows
  rx_actors :: "string list"
  rx_categories :: "audit_category list"
  rx_complete :: bool
  rx_missing :: "audit_category list"
  rx_startedAt :: iso_timestamp
  rx_lastActivityAt :: iso_timestamp

definition chain_failed :: "audit_record \<Rightarrow> unit result" where
  "chain_failed r = Inl (RegistryError CONFLICT (''audit chain verification failed at sequence '' @ int_to_string (au_sequence r)))"

fun verify_chain :: "(8 word list \<Rightarrow> string) \<Rightarrow> int \<Rightarrow> string \<Rightarrow> audit_rows \<Rightarrow> unit result" where
  "verify_chain sha i previous [] = Inr ()"
| "verify_chain sha i previous (r # rs) =
     (if au_sequence r \<noteq> i \<or> au_previousHash r \<noteq> previous then chain_failed r
      else bind_result (audit_digest sha (JsObject (au_payload r))) (\<lambda>payloadHash.
        if au_payloadHash r \<noteq> payloadHash then chain_failed r
        else bind_result (record_digest sha r) (\<lambda>recordHash.
          if au_recordHash r \<noteq> recordHash then chain_failed r
          else verify_chain sha (i + 1) (au_recordHash r) rs)))"

definition reconstruct :: "(8 word list \<Rightarrow> string) \<Rightarrow> tenant_context \<Rightarrow> interweave_id \<Rightarrow> audit_rows \<Rightarrow> reconstruction result" where
  "reconstruct sha ctx i rows =
     (let records = sort_by (\<lambda>a b. au_sequence a \<le> au_sequence b) (audit_list ctx i rows) in
      if records = [] then Inl (RegistryError NOT_FOUND (''audit history not found: '' @ i))
      else bind_result (verify_chain sha 0 ''GENESIS'' records) (\<lambda>_.
        let categories = js_set (map au_category records);
            missing = filter (\<lambda>c. c \<notin> set categories) required_categories
        in Inr \<lparr>rx_transactionId = i, rx_operationId = au_operationId (hd records), rx_records = records,
          rx_actors = js_sort (js_set (map au_actor records)), rx_categories = categories, rx_complete = (missing = []),
          rx_missing = missing, rx_startedAt = au_occurredAt (hd records), rx_lastActivityAt = au_occurredAt (last records)\<rparr>))"


section \<open>Chains that calls build\<close>

definition chain_of :: "audit_scope \<Rightarrow> audit_rows \<Rightarrow> audit_rows" where
  "chain_of k rows = filter (\<lambda>r. audit_scope r = k) rows"

text \<open>Records in sequence, each with the hash of the one before.\<close>

fun chained :: "int \<Rightarrow> string \<Rightarrow> audit_rows \<Rightarrow> bool" where
  "chained i previous [] = True"
| "chained i previous (r # rs) \<longleftrightarrow> au_sequence r = i \<and> au_previousHash r = previous \<and> chained (i + 1) (au_recordHash r) rs"

text \<open>A record whose stored payload still has the digests that were taken of it.\<close>

definition intact :: "(8 word list \<Rightarrow> string) \<Rightarrow> audit_record \<Rightarrow> bool" where
  "intact sha r \<longleftrightarrow> audit_digest sha (JsObject (au_payload r)) = Inr (au_payloadHash r) \<and> record_digest sha r = Inr (au_recordHash r)"

definition chains_ok :: "audit_rows \<Rightarrow> bool" where
  "chains_ok rows \<longleftrightarrow> (\<forall>k. chained 0 ''GENESIS'' (chain_of k rows)) \<and> (\<forall>r \<in> set rows. proper_json (JsObject (au_payload r)))"

lemma chained_snoc:
  "chained i previous (rs @ [r]) \<longleftrightarrow> chained i previous rs \<and> au_sequence r = i + int (length rs)
     \<and> au_previousHash r = (if rs = [] then previous else au_recordHash (last rs))"
  by (induction rs arbitrary: i previous) (auto simp: algebra_simps)

lemma chained_nth: "chained i previous rs \<Longrightarrow> n < length rs \<Longrightarrow> au_sequence (rs ! n) = i + int n"
proof (induction rs arbitrary: i previous n)
  case (Cons r rs)
  then show ?case by (cases n) auto
qed simp

lemma verified_chained: "verify_chain sha i previous rs = Inr () \<Longrightarrow> chained i previous rs"
  by (induction rs arbitrary: i previous) (auto simp: chain_failed_def split: if_splits)

lemmas verify_chain_nth = chained_nth [OF verified_chained]

lemma latest_chained:
  "chained i previous rs \<Longrightarrow> latest rs = (if rs = [] then None else Some (last rs))"
proof (induction rs rule: rev_induct)
  case (snoc r rs)
  then have ok: "chained i previous rs" by (simp add: chained_snoc)
  show ?case
  proof (cases rs rule: rev_cases)
    case Nil
    then show ?thesis by (simp add: latest_def)
  next
    case (snoc ys y)
    have "au_sequence y = i + int (length ys)" "au_sequence r = i + int (length rs)"
      using chained_nth [OF ok, of "length ys"] chained_nth [OF snoc.prems(1), of "length rs"] snoc
      by (simp_all add: nth_append)
    then have "au_sequence y < au_sequence r" using snoc by simp
    then show ?thesis using snoc.IH [OF ok] snoc by (simp add: latest_def)
  qed
qed (simp add: latest_def)



section \<open>Payloads that the column gives back\<close>

text \<open>A JavaScript value: the keys of an object are distinct, numbers are the texts that are printed for them, a \<open>toJSON\<close> answers JSON.\<close>

fun js_value :: "payload_value \<Rightarrow> bool" where
  "js_value (PvNumber n) = (case n of None \<Rightarrow> True | Some t \<Rightarrow> number_text t)"
| "js_value (PvArray vs) = (\<forall>v \<in> set vs. js_value v)"
| "js_value (PvObject fs to_json) = (distinct (map fst fs) \<and> (\<forall>(k, v) \<in> set fs. js_value v)
     \<and> (case to_json of None \<Rightarrow> True | Some j \<Rightarrow> j = JsUndefined \<or> proper_json j))"
| "js_value v = True"

text \<open>Without an object that has a \<open>toJSON\<close>.\<close>

fun plain :: "payload_value \<Rightarrow> bool" where
  "plain (PvArray vs) = (\<forall>v \<in> set vs. plain v)"
| "plain (PvObject fs to_json) = (to_json = None \<and> (\<forall>(k, v) \<in> set fs. plain v))"
| "plain v = True"

abbreviation js_payload :: "payload \<Rightarrow> bool" where "js_payload fs \<equiv> js_value (PvObject fs None)"
abbreviation plain_payload :: "payload \<Rightarrow> bool" where "plain_payload fs \<equiv> plain (PvObject fs None)"

fun distinct_keys :: "json \<Rightarrow> bool" where
  "distinct_keys (JsArray vs) = (\<forall>v \<in> set vs. distinct_keys v)"
| "distinct_keys (JsObject fs) = (distinct (map fst fs) \<and> (\<forall>(k, v) \<in> set fs. distinct_keys v))"
| "distinct_keys v = True"

lemma fst_values: "map fst (map (\<lambda>(k, v). (k, f v)) fs) = map fst fs"
  by (induction fs) auto

lemma map_values: "(\<And>k v. (k, v) \<in> set fs \<Longrightarrow> f v = g v) \<Longrightarrow> map (\<lambda>(k, v). (k, f v)) fs = map (\<lambda>(k, v). (k, g v)) fs"
  by (rule map_cong) auto

lemma proper_printed: "js_value v \<Longrightarrow> printed v = JsUndefined \<or> proper_json (printed v)"
proof (induction v)
  case (PvArray vs)
  then show ?case by (auto simp: Let_def)
next
  case (PvObject fs to_json)
  then show ?case by (cases to_json) fastforce+
qed (auto split: option.splits)

lemma proper_jsonb: "proper_json j \<Longrightarrow> proper_json (jsonb j)"
proof (induction j)
  case (JsObject fs)
  then show ?case by fastforce
qed auto

lemma jsonb_normal: "distinct_keys j \<Longrightarrow> normal_json (jsonb j) = normal_json j"
proof (induction j)
  case (JsArray vs)
  then show ?case by simp
next
  case (JsObject fs)
  let ?js = "map (\<lambda>(k, v). (k, jsonb v)) fs"
  have "normal_json (jsonb (JsObject fs)) = normal_json (JsObject ?js)"
    unfolding jsonb.simps
    by (rule normal_fields_order [where gs = ?js])
      (use JsObject.prems in \<open>simp_all add: mset_sort_by fst_values del: map_map\<close>)
  also have "map (\<lambda>(k, v). (k, normal_json v)) ?js = map (\<lambda>(k, v). (k, normal_json v)) fs"
    using JsObject by fastforce
  then have "normal_json (JsObject ?js) = normal_json (JsObject fs)" by (simp del: map_map map_eq_conv)
  finally show ?case .
qed simp_all

lemma canonical_own_proper: "js_value v \<Longrightarrow> canonical_json (own_view v) = Inr t \<Longrightarrow> proper_json (own_view v)"
proof (induction v arbitrary: t)
  case (PvArray vs)
  then obtain ts where "map canonical_json (map own_view vs) = map Inr ts"
    by (auto simp: canonical_list_map collect_Inr split: sum.splits)
  then have "\<exists>t. canonical_json (own_view v) = Inr t" if "v \<in> set vs" for v
    using that by (metis (no_types, lifting) imageE image_eqI list.set_map map_map comp_def)
  then show ?case using PvArray by auto
next
  case (PvObject fs to_json)
  let ?gs = "canonical_fields (map (\<lambda>(k, v). (k, own_view v)) fs)"
  obtain ts where "map (\<lambda>(k, r). bind_result r (\<lambda>t. Inr (json_string k @ '':'' @ t))) (sort_by key_le ?gs) = map Inr ts"
    using PvObject.prems(2) by (auto simp: collect_Inr split: sum.splits if_splits)
  from arg_cong [OF this, of set]
  have all: "(case p of (k, r) \<Rightarrow> bind_result r (\<lambda>t. Inr (json_string k @ '':'' @ t))) \<in> range Inr" if "p \<in> set ?gs" for p
    using that by auto
  have "\<exists>t. canonical_json (own_view v) = Inr t" if "(k, v) \<in> set fs" for k v
  proof -
    have "(k, canonical_json (own_view v)) \<in> set ?gs" using that by (force simp: canonical_fields_map)
    then show ?thesis using all by (cases "canonical_json (own_view v)") fastforce+
  qed
  then show ?case using PvObject by fastforce
qed (auto split: option.splits)

lemma printed_plain: "plain v \<Longrightarrow> proper_json (own_view v) \<Longrightarrow> printed v = own_view v"
proof (induction v)
  case (PvArray vs)
  then show ?case by (auto simp: Let_def)
next
  case (PvObject fs to_json)
  have "map (\<lambda>(k, v). (k, printed v)) fs = map (\<lambda>(k, v). (k, own_view v)) fs"
    by (rule map_values) (use PvObject in fastforce)
  moreover have "filter (\<lambda>(k, x). x \<noteq> JsUndefined) (map (\<lambda>(k, v). (k, own_view v)) fs) = map (\<lambda>(k, v). (k, own_view v)) fs"
    using PvObject.prems(2) by (auto simp: filter_id_conv)
  ultimately show ?case using PvObject.prems(1) by (simp del: map_eq_conv)
qed (auto split: option.splits)

lemma distinct_own_view: "js_value v \<Longrightarrow> distinct_keys (own_view v)"
proof (induction v)
  case (PvObject fs to_json)
  then show ?case by (fastforce simp: fst_values simp del: map_map)
qed auto

lemma stored_object: "JsObject (stored_fields fs) = jsonb (printed (PvObject fs None))"
  by (simp add: stored_fields_def)

lemma own_object: "JsObject (own_fields fs) = own_view (PvObject fs None)"
  by (simp add: own_fields_def)

lemma stored_proper: "js_payload fs \<Longrightarrow> proper_json (JsObject (stored_fields fs))"
  unfolding stored_object using proper_printed [of "PvObject fs None"] by (intro proper_jsonb) auto

lemma stored_plain:
  assumes "js_payload fs" "plain_payload fs" "canonical_json (JsObject (own_fields fs)) = Inr t"
  shows "normal_json (JsObject (stored_fields fs)) = normal_json (JsObject (own_fields fs))"
    "proper_json (JsObject (own_fields fs))"
proof -
  show proper: "proper_json (JsObject (own_fields fs))"
    using canonical_own_proper [OF assms(1)] assms(3) unfolding own_object by blast
  have "printed (PvObject fs None) = own_view (PvObject fs None)"
    using printed_plain [OF assms(2)] proper unfolding own_object by blast
  then show "normal_json (JsObject (stored_fields fs)) = normal_json (JsObject (own_fields fs))"
    unfolding stored_object own_object using jsonb_normal [OF distinct_own_view [OF assms(1)]] by simp
qed

lemma number_text_int: "number_text (int_to_string n)"
proof -
  have "list_all number_char (nat_to_string m) \<and> is_digit (hd (nat_to_string m))" for m
    using nat_to_string_digits [of m] hd_in_set [OF nat_to_string_not_Nil [of m]] by (auto simp: list_all_iff number_char_def)
  then show ?thesis by (auto simp: int_to_string_def number_text_def number_char_def)
qed

lemma audit_proper: "proper_json (JsObject (au_payload r)) \<Longrightarrow> proper_json (JsObject (audit_fields r))"
  by (simp add: audit_fields_def number_text_int)

lemma audit_digest_proper: "proper_json v \<Longrightarrow> \<exists>h. audit_digest sha v = Inr h"
  by (simp add: audit_digest_def canonical_proper)

lemma same_digest:
  assumes "proper_json v" "proper_json w" "normal_json v = normal_json w"
  shows "audit_digest sha v = audit_digest sha w"
proof -
  have "canonical_json v = canonical_json w" using canonical_json_inj [OF assms(1,2)] assms(3) by blast
  then show ?thesis by (simp add: audit_digest_def del: canonical_json.simps)
qed

section \<open>What calls append\<close>

abbreviation kept :: "payload audit_entry \<Rightarrow> audit_record" where "kept \<equiv> map_payload stored_fields"

text \<open>The record of an input: its payload as the column gives it back.\<close>

definition appended :: "tenant_context \<Rightarrow> audit_input \<Rightarrow> audit_record \<Rightarrow> bool" where
  "appended ctx i r \<longleftrightarrow> au_id r = an_id i \<and> audit_scope r = context_scope ctx (an_transactionId i) \<and> au_operationId r = an_operationId i
     \<and> au_category r = an_category i \<and> au_actor r = an_actor i \<and> au_action r = an_action i
     \<and> au_payload r = stored_fields (an_payload i) \<and> au_occurredAt r = an_occurredAt i"

lemma record_digest_hash: "record_digest sha (map_payload f (r\<lparr>au_recordHash := h\<rparr>)) = record_digest sha (map_payload f r)"
  by (simp add: record_digest_def audit_fields_def map_payload_def)

lemma audit_append_Inr:
  assumes run: "audit_append sha ctx i payloadHash rows = (Inr r, rows')" and ok: "chains_ok rows"
  shows "rows' = rows @ [kept r]" "appended ctx i (kept r)" "chained 0 ''GENESIS'' (chain_of (audit_scope (kept r)) rows @ [kept r])"
    "au_payload r = an_payload i" "au_payloadHash r = payloadHash"
    "record_digest sha (map_payload own_fields r) = Inr (au_recordHash r)"
proof -
  let ?chain = "chain_of (context_scope ctx (an_transactionId i)) rows"
  have chain: "chained 0 ''GENESIS'' ?chain" using ok unfolding chains_ok_def by blast
  have prior: "latest (filter (\<lambda>r. audit_scope r = context_scope ctx (an_transactionId i)) rows) = (if ?chain = [] then None else Some (last ?chain))"
    using latest_chained [OF chain] by (simp add: chain_of_def)
  have seq: "?chain \<noteq> [] \<Longrightarrow> au_sequence (last ?chain) + 1 = int (length ?chain)"
    using chained_nth [OF chain, of "length ?chain - 1"] by (auto simp: last_conv_nth of_nat_diff Suc_le_eq)
  define draft where "draft = \<lparr>au_id = an_id i, au_organizationId = tc_organizationId ctx, au_projectId = tc_projectId ctx,
     au_environmentId = tc_environmentId ctx, au_transactionId = an_transactionId i, au_operationId = an_operationId i,
     au_sequence = int (length ?chain), au_category = an_category i, au_actor = an_actor i, au_action = an_action i,
     au_payload = an_payload i, au_payloadHash = payloadHash,
     au_previousHash = (if ?chain = [] then ''GENESIS'' else au_recordHash (last ?chain)), au_recordHash = [],
     au_occurredAt = an_occurredAt i\<rparr>"
  have "(case record_digest sha (map_payload own_fields draft) of Inl e \<Rightarrow> (Inl e, rows)
      | Inr h \<Rightarrow> audit_insert (draft\<lparr>au_recordHash := h\<rparr>) rows) = (Inr r, rows')"
    using run seq unfolding audit_append_def transaction_def prior draft_def Let_def
    by (cases "?chain = []") (auto split: sum.splits prod.splits)
  then obtain h where h: "record_digest sha (map_payload own_fields draft) = Inr h" "r = draft\<lparr>au_recordHash := h\<rparr>" "rows' = rows @ [kept r]"
    by (auto simp: audit_insert_def Let_def split: sum.splits if_splits)
  have scope: "audit_scope (kept r) = context_scope ctx (an_transactionId i)"
    by (simp add: h(2) draft_def audit_scope_def context_scope_def map_payload_def)
  show "rows' = rows @ [kept r]" by (rule h(3))
  show "appended ctx i (kept r)" using scope by (simp add: appended_def) (simp add: h(2) draft_def map_payload_def)
  show "chained 0 ''GENESIS'' (chain_of (audit_scope (kept r)) rows @ [kept r])"
    using chain unfolding chained_snoc scope by (simp add: h(2) draft_def map_payload_def)
  show "au_payload r = an_payload i" "au_payloadHash r = payloadHash" by (simp_all add: h(2) draft_def)
  show "record_digest sha (map_payload own_fields r) = Inr (au_recordHash r)"
    using h(1) by (simp add: h(2) record_digest_hash)
qed

lemma audit_append_Inl: "audit_append sha ctx i payloadHash rows = (Inl e, rows') \<Longrightarrow> rows' = rows"
  by (auto simp: audit_append_def transaction_def split: sum.splits prod.splits)

text \<open>The digests of a payload without \<open>toJSON\<close> are those of what the column gives back.\<close>

lemma kept_intact:
  assumes js: "js_payload (au_payload r)" and plain: "plain_payload (au_payload r)"
    and payload: "audit_digest sha (JsObject (own_fields (au_payload r))) = Inr (au_payloadHash r)"
    and digest: "record_digest sha (map_payload own_fields r) = Inr (au_recordHash r)"
  shows "intact sha (kept r)"
proof -
  obtain t where t: "canonical_json (JsObject (own_fields (au_payload r))) = Inr t"
    using payload by (auto simp: audit_digest_def simp del: canonical_json.simps split: sum.splits)
  note same = stored_plain [OF js plain t]
  have "audit_digest sha (JsObject (stored_fields (au_payload r))) = audit_digest sha (JsObject (own_fields (au_payload r)))"
    by (rule same_digest [OF stored_proper [OF js] same(2,1)])
  moreover have "record_digest sha (kept r) = record_digest sha (map_payload own_fields r)"
    unfolding record_digest_def
    by (rule same_digest; (rule audit_proper)?) (use same stored_proper [OF js] in \<open>simp_all add: map_payload_def audit_fields_def\<close>)
  ultimately show ?thesis using payload digest by (simp add: intact_def map_payload_def)
qed

lemma audit_call_cases:
  assumes run: "audit_call sha ctx i rows = (res, rows')" and ok: "chains_ok rows" and js: "js_payload (an_payload i)"
  shows "(\<exists>e. res = Inl e) \<and> rows' = rows \<or> (\<exists>r. res = Inr r \<and> rows' = rows @ [kept r] \<and> appended ctx i (kept r)
    \<and> chained 0 ''GENESIS'' (chain_of (audit_scope (kept r)) rows @ [kept r]) \<and> (plain_payload (an_payload i) \<longrightarrow> intact sha (kept r)))"
proof (cases "check_audit_input i = Inr () \<and> reject_secrets (JsObject (own_fields (an_payload i))) ''payload'' = Inr ()
    \<and> (\<exists>h. audit_digest sha (JsObject (own_fields (an_payload i))) = Inr h)")
  case False
  then show ?thesis
    using run by (auto simp: audit_call_def and_then_def split: sum.splits)
next
  case True
  then obtain h where h: "audit_digest sha (JsObject (own_fields (an_payload i))) = Inr h" "audit_append sha ctx i h rows = (res, rows')"
    using run by (auto simp: audit_call_def and_then_def)
  show ?thesis
  proof (cases res)
    case (Inl e)
    then show ?thesis using audit_append_Inl h(2) by blast
  next
    case (Inr r)
    note kept_facts = audit_append_Inr [OF h(2) [unfolded Inr] ok]
    have "plain_payload (an_payload i) \<longrightarrow> intact sha (kept r)"
      using kept_intact [of r sha] js h(1) kept_facts(4-6) by auto
    then show ?thesis using kept_facts(1-3) Inr by blast
  qed
qed


lemma chains_ok_empty: "chains_ok []"
  by (simp add: chains_ok_def chain_of_def)


lemma verify_chained:
  "chained i previous rs \<Longrightarrow> \<forall>r \<in> set rs. proper_json (JsObject (au_payload r)) \<Longrightarrow>
     verify_chain sha i previous rs = (case find (\<lambda>r. \<not> intact sha r) rs of None \<Rightarrow> Inr () | Some r \<Rightarrow> chain_failed r)"
proof (induction rs arbitrary: i previous)
  case (Cons r rs)
  obtain h h' where "audit_digest sha (JsObject (au_payload r)) = Inr h" "record_digest sha r = Inr h'"
    using Cons.prems(2) audit_digest_proper [of _ sha] audit_proper [of r] unfolding record_digest_def by fastforce
  then show ?case using Cons by (auto simp: intact_def)
qed simp



section \<open>The head commits to the chain\<close>

text \<open>Two records with the same fields, their payloads up to the order of keys.\<close>

definition same_record :: "audit_record \<Rightarrow> audit_record \<Rightarrow> bool" where
  "same_record r x \<longleftrightarrow> r\<lparr>au_payload := []\<rparr> = x\<lparr>au_payload := []\<rparr>
     \<and> normal_json (JsObject (au_payload r)) = normal_json (JsObject (au_payload x))"

definition audit_text :: "audit_record \<Rightarrow> string result" where
  "audit_text r = canonical_json (JsObject (audit_fields r))"

text \<open>Two records with different canonical texts and one digest.\<close>

definition collision :: "(8 word list \<Rightarrow> string) \<Rightarrow> audit_rows \<Rightarrow> audit_rows \<Rightarrow> bool" where
  "collision sha rs xs \<longleftrightarrow> (\<exists>r \<in> set rs. \<exists>x \<in> set xs. audit_text r \<noteq> audit_text x \<and> record_digest sha r = record_digest sha x)"


definition audit_keys :: "string list" where
  "audit_keys = [''id'', ''transactionId'', ''operationId'', ''category'', ''actor'', ''action'', ''payload'', ''occurredAt'',
     ''organizationId'', ''projectId'', ''environmentId'', ''payloadHash'', ''sequence'', ''previousHash'']"

definition audit_values :: "audit_record \<Rightarrow> json list" where
  "audit_values r = [JsString (au_id r), JsString (au_transactionId r), JsString (au_operationId r),
     JsString (category_text (au_category r)), JsString (au_actor r), JsString (au_action r), JsObject (au_payload r),
     JsString (au_occurredAt r), JsString (au_organizationId r), JsString (au_projectId r), JsString (au_environmentId r),
     JsString (au_payloadHash r), JsNumber (Some (int_to_string (au_sequence r))), JsString (au_previousHash r)]"

lemma audit_fields_zip: "audit_fields r = zip audit_keys (audit_values r)"
  by (simp add: audit_fields_def audit_keys_def audit_values_def)

lemma distinct_audit_keys: "distinct audit_keys"
  by code_simp

lemma nat_to_string_inj: "nat_to_string m = nat_to_string n \<longleftrightarrow> m = n"
  by (metis digits_to_nat_string)

lemma category_text_inj: "category_text a = category_text b \<longleftrightarrow> a = b"
  by (cases a; cases b) simp_all

lemma audit_text_same:
  assumes "audit_text r = audit_text x" "proper_json (JsObject (au_payload r))" "proper_json (JsObject (au_payload x))"
    and "0 \<le> au_sequence r" "0 \<le> au_sequence x" "au_recordHash r = au_recordHash x"
  shows "same_record r x"
proof -
  have "normal_json (JsObject (audit_fields r)) = normal_json (JsObject (audit_fields x))"
    using assms(1) canonical_json_inj [OF audit_proper [OF assms(2)] audit_proper [OF assms(3)]] unfolding audit_text_def by blast
  then have "set (sort_by key_le (map (\<lambda>(k, v). (k, normal_json v)) (zip audit_keys (audit_values r))))
      = set (sort_by key_le (map (\<lambda>(k, v). (k, normal_json v)) (zip audit_keys (audit_values x))))"
    by (simp add: audit_fields_zip del: zip_Cons_Cons)
  then have "set (zip audit_keys (map normal_json (audit_values r))) = set (zip audit_keys (map normal_json (audit_values x)))"
    unfolding set_sort_by zip_map2 .
  then have "map normal_json (audit_values r) = map normal_json (audit_values x)"
    by (rule zip_values [OF distinct_audit_keys, rotated 2]) (simp_all add: audit_keys_def audit_values_def)
  then show ?thesis
    using assms(4-6) by (cases r; cases x) (auto simp: audit_values_def same_record_def category_text_inj int_to_string_def nat_to_string_inj)
qed

lemma verify_chain_snoc:
  "verify_chain sha i previous (rs @ [r]) = Inr () \<longleftrightarrow> verify_chain sha i previous rs = Inr ()
     \<and> verify_chain sha (i + int (length rs)) (if rs = [] then previous else au_recordHash (last rs)) [r] = Inr ()"
proof (induction rs arbitrary: i previous)
  case (Cons x rs)
  then show ?case by (auto simp: chain_failed_def algebra_simps)
qed simp

lemma verify_chain_digest:
  assumes "verify_chain sha i previous rs = Inr ()" "r \<in> set rs"
  shows "record_digest sha r = Inr (au_recordHash r)"
  using assms
proof (induction rs arbitrary: i previous)
  case (Cons x rs)
  then show ?case by (auto simp: chain_failed_def split: if_splits)
qed simp

lemma heads_commit:
  assumes "verify_chain sha 0 ''GENESIS'' rs = Inr ()" "verify_chain sha 0 ''GENESIS'' xs = Inr ()"
    and "\<forall>r \<in> set rs \<union> set xs. proper_json (JsObject (au_payload r))" "rs \<noteq> []" "xs \<noteq> []"
    and "au_recordHash (last rs) = au_recordHash (last xs)"
  shows "list_all2 same_record rs xs \<or> collision sha rs xs"
  using assms
proof (induction rs arbitrary: xs rule: rev_induct)
  case (snoc r rs)
  then obtain ys x where xs: "xs = ys @ [x]" by (cases xs rule: rev_cases) auto
  have digests: "record_digest sha r = Inr (au_recordHash r)" "record_digest sha x = Inr (au_recordHash x)"
    using verify_chain_digest snoc.prems(1,2) xs by auto
  have eq: "au_recordHash r = au_recordHash x" using snoc.prems(6) xs by simp
  have seq: "au_sequence r = int (length rs)" "au_sequence x = int (length ys)"
    using verify_chain_nth [OF snoc.prems(1), of "length rs"] verify_chain_nth [OF snoc.prems(2), of "length ys"] xs by simp_all
  show ?case
  proof (cases "audit_text r = audit_text x")
    case False
    then have "collision sha (rs @ [r]) xs" unfolding collision_def using digests eq xs by auto
    then show ?thesis ..
  next
    case True
    have same: "same_record r x"
      by (rule audit_text_same [OF True]) (use snoc.prems(3) xs seq eq in auto)
    then have "length rs = length ys" "au_previousHash r = au_previousHash x"
      using seq by (auto simp: same_record_def dest: arg_cong [where f = au_sequence] arg_cong [where f = au_previousHash])
    show ?thesis
    proof (cases "rs = []")
      case True
      then show ?thesis using same xs \<open>length rs = length ys\<close> by simp
    next
      case False
      then have ne: "rs \<noteq> []" "ys \<noteq> []" using \<open>length rs = length ys\<close> by auto
      have "au_recordHash (last rs) = au_recordHash (last ys)"
        using snoc.prems(1,2) ne \<open>au_previousHash r = au_previousHash x\<close> unfolding xs verify_chain_snoc
        by (auto simp: chain_failed_def split: if_splits)
      moreover have "verify_chain sha 0 ''GENESIS'' rs = Inr ()" "verify_chain sha 0 ''GENESIS'' ys = Inr ()"
        using snoc.prems(1,2) unfolding xs verify_chain_snoc by auto
      ultimately have "list_all2 same_record rs ys \<or> collision sha rs ys"
        using snoc.IH snoc.prems(3) ne xs by auto
      then show ?thesis using same xs by (auto simp: collision_def list_all2_appendI)
    qed
  qed
qed simp


lemma reconstruct_Inr:
  assumes "reconstruct sha ctx i rows = Inr a"
  shows "rx_records a \<noteq> [] \<and> verify_chain sha 0 ''GENESIS'' (rx_records a) = Inr ()
    \<and> set (rx_records a) = {r \<in> set rows. audit_scope r = context_scope ctx i}"
  using assms by (auto simp: reconstruct_def audit_list_def Let_def split: if_splits)

text \<open>
  C35. The digest of the last record commits to the whole history: if two tables, however they were
  changed, both reconstruct for a transaction and the last records have one digest, then the histories agree
  record by record in every field, the payloads up to the order of their keys, or two of their records are a
  collision of the digest function.
\<close>

theorem audit_head_commits:
  assumes "reconstruct sha ctx i rows = Inr a" "reconstruct sha ctx' j rows' = Inr b"
    and "au_recordHash (last (rx_records a)) = au_recordHash (last (rx_records b))"
    and "\<forall>r \<in> set rows \<union> set rows'. proper_json (JsObject (au_payload r))"
  shows "list_all2 same_record (rx_records a) (rx_records b) \<or> collision sha (rx_records a) (rx_records b)"
  using reconstruct_Inr [OF assms(1)] reconstruct_Inr [OF assms(2)] assms(3,4) by (intro heads_commit) auto

section \<open>An example\<close>

definition example_audit :: audit_input where
  "example_audit = \<lparr>an_id = ''IW:AUDIT:1'', an_transactionId = ''IW:TRANSACTION:t'', an_operationId = ''IW:BRIDGE:1'',
     an_category = AUDIT_REQUEST, an_actor = ''a'', an_action = ''submit'',
     an_payload = [(''amount'', PvString ''5''), (''to'', PvString ''b'')], an_occurredAt = to_iso_string 0\<rparr>"

text \<open>The same with a \<open>Date\<close> in the payload.\<close>

definition dated_audit :: audit_input where
  "dated_audit = example_audit\<lparr>an_payload := [(''at'', PvObject [] (Some (JsString (to_iso_string 0))))]\<rparr>"

lemma epoch_text: "to_iso_string 0 = ''1970-01-01T00:00:00.000Z''"
  by code_simp

lemma example_audit_checks:
  "check_audit_input example_audit = Inr ()" "check_audit_input dated_audit = Inr ()"
  "reject_secrets (JsObject (own_fields (an_payload example_audit))) ''payload'' = Inr ()"
  "reject_secrets (JsObject (own_fields (an_payload dated_audit))) ''payload'' = Inr ()"
proof -
  show "check_audit_input example_audit = Inr ()" "check_audit_input dated_audit = Inr ()"
    by (simp_all add: check_audit_input_def dated_audit_def example_audit_def starts_with_def blank_iff js_space_def date_parse_to_iso_string)
  have "\<not> secret_key ''amount''" "\<not> secret_key ''to''" "\<not> secret_key ''at''" by code_simp+
  then show "reject_secrets (JsObject (own_fields (an_payload example_audit))) ''payload'' = Inr ()"
      "reject_secrets (JsObject (own_fields (an_payload dated_audit))) ''payload'' = Inr ()"
    by (simp_all add: dated_audit_def example_audit_def own_fields_def)
qed

lemma example_stored:
  "stored_fields (an_payload example_audit) = [(''to'', JsString ''b''), (''amount'', JsString ''5'')]"
  "stored_fields (an_payload dated_audit) = [(''at'', JsString (to_iso_string 0))]"
  by (simp_all add: stored_fields_def dated_audit_def example_audit_def jsonb_le_def utf8_def utf8_char_def)

lemma example_own:
  "proper_json (JsObject (own_fields (an_payload example_audit)))" "proper_json (JsObject (own_fields (an_payload dated_audit)))"
  by (simp_all add: own_fields_def example_audit_def dated_audit_def)

lemma digest_determines:
  assumes "audit_digest sha v = audit_digest sha w" "proper_json v" "proper_json w" "inj sha"
  shows "normal_json v = normal_json w"
proof -
  have "json_text (normal_json v) = json_text (normal_json w)"
    using assms(1,4) by (simp add: audit_digest_def canonical_proper [OF assms(2)] canonical_proper [OF assms(3)] inj_eq utf8_inj)
  then show ?thesis
    using canonical_json_inj [OF assms(2,3)] by (simp add: canonical_proper [OF assms(2)] canonical_proper [OF assms(3)])
qed

lemma first_audit:
  assumes input: "i = example_audit \<or> i = dated_audit" and hex: "\<And>b. CHR 0x00 \<notin> set (sha b)"
  shows "\<exists>r. audit_call sha example_context i [] = (Inr r, [kept r])"
proof -
  obtain p where p: "audit_digest sha (JsObject (own_fields (an_payload i))) = Inr p"
    using audit_digest_proper [of "JsObject (own_fields (an_payload i))" sha] example_own input by blast
  have no_nul: "CHR 0x00 \<notin> set h" if "audit_digest sha v = Inr h" for v h
    using that hex by (auto simp: audit_digest_def split: sum.splits)
  define draft where "draft = \<lparr>au_id = an_id i, au_organizationId = tc_organizationId example_context,
        au_projectId = tc_projectId example_context, au_environmentId = tc_environmentId example_context,
        au_transactionId = an_transactionId i, au_operationId = an_operationId i, au_sequence = 0,
        au_category = an_category i, au_actor = an_actor i, au_action = an_action i,
        au_payload = an_payload i, au_payloadHash = p, au_previousHash = ''GENESIS'', au_recordHash = [],
        au_occurredAt = an_occurredAt i\<rparr>"
  have "proper_json (JsObject (au_payload (map_payload own_fields draft)))"
    using input example_own by (simp add: draft_def map_payload_def del: proper_json.simps) blast
  then obtain h where h: "record_digest sha (map_payload own_fields draft) = Inr h"
    using audit_digest_proper [OF audit_proper] unfolding record_digest_def by blast
  have "\<not> has_nul (JsObject (stored_fields (an_payload i)))"
    using input by (auto simp: example_stored epoch_text)
  then have "\<not> has_nul (JsObject (audit_fields (kept (draft\<lparr>au_recordHash := h\<rparr>)) @ [(''recordHash'', JsString h)]))"
    using input no_nul [OF p] no_nul [OF h [unfolded record_digest_def]]
    by (auto simp: audit_fields_def map_payload_def draft_def example_context_def example_audit_def dated_audit_def epoch_text)
  then have "audit_append sha example_context i p [] = (Inr (draft\<lparr>au_recordHash := h\<rparr>), [kept (draft\<lparr>au_recordHash := h\<rparr>)])"
    using h unfolding draft_def by (simp add: audit_append_def transaction_def audit_insert_def latest_def) (simp add: map_payload_def)
  then show ?thesis
    using input by (auto simp add: audit_call_def and_then_def example_audit_checks p simp del: reject_secrets.simps)
qed

lemma example_plain: "js_payload (an_payload example_audit)" "plain_payload (an_payload example_audit)" "js_payload (an_payload dated_audit)"
  by (simp_all add: example_audit_def dated_audit_def)

lemma example_audit_run:
  "(\<And>b. CHR 0x00 \<notin> set (sha b)) \<Longrightarrow>
     \<exists>r. audit_call sha example_context example_audit [] = (Inr r, [kept r]) \<and> appended example_context example_audit (kept r)
       \<and> verify_chain sha 0 ''GENESIS'' [kept r] = Inr ()"
proof -
  assume hex: "\<And>b. CHR 0x00 \<notin> set (sha b)"
  obtain r where run: "audit_call sha example_context example_audit [] = (Inr r, [kept r])" using first_audit [OF disjI1 [OF refl], of sha, OF hex] by auto
  from audit_call_cases [OF run chains_ok_empty example_plain(1)]
  have r: "appended example_context example_audit (kept r)" "chained 0 ''GENESIS'' [kept r]" "intact sha (kept r)"
    using example_plain(2) by (auto simp: chain_of_def)
  then have "verify_chain sha 0 ''GENESIS'' [kept r] = Inr ()" by (simp add: intact_def)
  then show ?thesis using run r(1) by blast
qed

text \<open>
  A payload that is altered: a \<open>Date\<close> has no keys of its own, so its digest is taken of \<open>{}\<close>, and the column gives back its
  text. The call succeeds, and reconstruction throws from then on, unless the two texts collide.
\<close>

lemma date_payload_altered:
  assumes hex: "\<And>b. CHR 0x00 \<notin> set (sha b)" and inj: "inj sha"
  shows "\<exists>r rows. audit_call sha example_context dated_audit [] = (Inr r, rows)
    \<and> reconstruct sha example_context ''IW:TRANSACTION:t'' rows = Inl (RegistryError CONFLICT ''audit chain verification failed at sequence 0'')"
proof -
  obtain r where run: "audit_call sha example_context dated_audit [] = (Inr r, [kept r])" using first_audit [OF disjI2 [OF refl], of sha, OF hex] by auto
  have r: "appended example_context dated_audit (kept r)" "au_sequence (kept r) = 0"
    using audit_call_cases [OF run chains_ok_empty example_plain(3)] by (auto simp: chain_of_def)
  have "audit_digest sha (JsObject (own_fields (an_payload dated_audit))) = Inr (au_payloadHash (kept r))"
    using run audit_append_Inr(5) [OF _ chains_ok_empty, of sha example_context dated_audit _ r]
    by (auto simp: audit_call_def and_then_def example_audit_checks map_payload_def simp del: reject_secrets.simps split: sum.splits)
  moreover have "audit_digest sha (JsObject (au_payload (kept r))) \<noteq> audit_digest sha (JsObject (own_fields (an_payload dated_audit)))"
  proof
    assume eq: "audit_digest sha (JsObject (au_payload (kept r))) = audit_digest sha (JsObject (own_fields (an_payload dated_audit)))"
    have payload: "au_payload (kept r) = [(''at'', JsString (to_iso_string 0))]" using r(1) by (simp add: appended_def example_stored)
    have own: "own_fields (an_payload dated_audit) = [(''at'', JsObject [])]" by (simp add: own_fields_def dated_audit_def)
    from digest_determines [OF eq _ _ inj] show False by (simp add: payload own)
  qed
  ultimately have "\<not> intact sha (kept r)" by (simp add: intact_def)
  moreover have "chained 0 ''GENESIS'' [kept r]" "proper_json (JsObject (au_payload (kept r)))"
    using audit_call_cases [OF run chains_ok_empty example_plain(3)] r(1) by (auto simp: chain_of_def appended_def example_stored)
  ultimately have "verify_chain sha 0 ''GENESIS'' [kept r] = chain_failed (kept r)" by (subst verify_chained) simp_all
  moreover have "audit_scope (kept r) = context_scope example_context ''IW:TRANSACTION:t''"
    using r(1) by (simp add: appended_def dated_audit_def example_audit_def)
  ultimately have "reconstruct sha example_context ''IW:TRANSACTION:t'' [kept r]
      = Inl (RegistryError CONFLICT (''audit chain verification failed at sequence '' @ int_to_string 0))"
    using r(2) by (simp add: reconstruct_def audit_list_def chain_failed_def del: verify_chain.simps)
  moreover have "int_to_string 0 = ''0''" by code_simp
  ultimately show ?thesis using run by auto
qed


text \<open>A table that gives the keys of the payload in another order.\<close>

theorem audit_head_commits_witness:
  "\<exists>r x a b. r \<noteq> x \<and> reconstruct (\<lambda>_. ''h'') example_context ''IW:TRANSACTION:t'' [r] = Inr a
     \<and> reconstruct (\<lambda>_. ''h'') example_context ''IW:TRANSACTION:t'' [x] = Inr b
     \<and> list_all2 same_record (rx_records a) (rx_records b)"
proof -
  define sha :: "8 word list \<Rightarrow> string" where "sha = (\<lambda>_. ''h'')"
  obtain r where r: "appended example_context example_audit r" and chain: "verify_chain sha 0 ''GENESIS'' [r] = Inr ()"
    using example_audit_run [of sha] by (auto simp: sha_def)
  let ?x = "r\<lparr>au_payload := rev (au_payload r)\<rparr>"
  have proper: "proper_json (JsObject (au_payload r))" "proper_json (JsObject (au_payload ?x))"
    using r by (simp_all add: appended_def example_stored)
  have payload: "canonical_json (JsObject (au_payload ?x)) = canonical_json (JsObject (au_payload r))"
    unfolding canonical_json_inj [OF proper(2,1)]
    by (rule normal_fields_order) (use r in \<open>simp_all add: appended_def example_stored\<close>)
  then have "normal_json (JsObject (au_payload ?x)) = normal_json (JsObject (au_payload r))"
    using canonical_json_inj [OF proper(2,1)] by blast
  then have "normal_json (JsObject (audit_fields ?x)) = normal_json (JsObject (audit_fields r))"
    by (simp add: audit_fields_def)
  then have canonical: "canonical_json (JsObject (audit_fields ?x)) = canonical_json (JsObject (audit_fields r))"
    using canonical_json_inj [OF audit_proper [OF proper(2)] audit_proper [OF proper(1)]] by blast
  have "record_digest sha ?x = record_digest sha r" "audit_digest sha (JsObject (au_payload ?x)) = audit_digest sha (JsObject (au_payload r))"
    using payload canonical unfolding record_digest_def audit_digest_def by simp_all
  then have "verify_chain sha 0 ''GENESIS'' [?x] = Inr ()"
    using chain by (auto simp: chain_failed_def simp del: canonical_json.simps split: if_splits)
  moreover have "audit_scope r = context_scope example_context ''IW:TRANSACTION:t''"
    using r by (simp add: appended_def example_audit_def)
  moreover from this have "audit_scope ?x = context_scope example_context ''IW:TRANSACTION:t''" by (simp add: audit_scope_def)
  ultimately obtain a b where ab: "reconstruct sha example_context ''IW:TRANSACTION:t'' [r] = Inr a" "rx_records a = [r]"
      "reconstruct sha example_context ''IW:TRANSACTION:t'' [?x] = Inr b" "rx_records b = [?x]"
    using chain by (auto simp: reconstruct_def audit_list_def Let_def simp del: verify_chain.simps)
  have "r \<noteq> ?x"
  proof
    assume "r = ?x"
    then have "au_payload r = rev (au_payload r)" by (cases r) simp
    then show False using r by (simp add: appended_def example_stored)
  qed
  moreover have "\<not> collision sha [r] [?x]"
    using canonical by (simp add: collision_def audit_text_def del: canonical_json.simps)
  then have "list_all2 same_record (rx_records a) (rx_records b)"
    using audit_head_commits [OF ab(1,3)] ab(2,4) proper by auto
  ultimately show ?thesis using ab(1,3) unfolding sha_def by blast
qed

end
