(* ===== verification/Key_Management.thy ===== *)
theory Key_Management
  imports Tenancy Attestation_Protocol
begin

text \<open>
  Signing requests, approvals and results of packages/core/src/key-management.ts on its PostgreSQL tables,
  and the signers it offers. The HSM or MPC service, HMAC-SHA-256 and the SHA-256 digest are parameters. A call
  of \<open>execute\<close> is cut where it awaits the signer; the world also logs the requests handed to the signer.
\<close>

section \<open>Types\<close>

datatype signing_purpose = SIGN_ATTESTATION | SIGN_NETWORK_TRANSACTION | SIGN_VALIDATOR_ROTATION | SIGN_PAUSE_PROTOCOL
  | SIGN_POLICY_ADMIN

fun purpose_text :: "signing_purpose \<Rightarrow> string" where
  "purpose_text SIGN_ATTESTATION = ''ATTESTATION''"
| "purpose_text SIGN_NETWORK_TRANSACTION = ''NETWORK_TRANSACTION''"
| "purpose_text SIGN_VALIDATOR_ROTATION = ''VALIDATOR_ROTATION''"
| "purpose_text SIGN_PAUSE_PROTOCOL = ''PAUSE_PROTOCOL''"
| "purpose_text SIGN_POLICY_ADMIN = ''POLICY_ADMIN''"

text \<open>What a caller submits, and the request with the tenant it was submitted for.\<close>

record signing_input =
  sq_id :: interweave_id
  sq_purpose :: signing_purpose
  sq_operationId :: string
  sq_keyReference :: string
  sq_algorithm :: string
  sq_payloadDigest :: string
  sq_policyVersion :: string
  sq_createdAt :: iso_timestamp
  sq_expiresAt :: iso_timestamp

record signing_request = signing_input +
  sq_organizationId :: interweave_id
  sq_projectId :: interweave_id
  sq_environmentId :: interweave_id

datatype approval_decision = APPROVE | REJECT

record signing_approval =
  sv_id :: string
  sv_requestId :: interweave_id
  sv_requestDigest :: string
  sv_approverId :: string
  sv_decision :: approval_decision
  sv_occurredAt :: iso_timestamp

record signing_policy =
  sp_version :: string
  sp_environmentId :: interweave_id
  sp_allowedPurposes :: "signing_purpose list"
  sp_allowedAlgorithms :: "string list"
  sp_allowedKeyPrefixes :: "string list"
  sp_privilegedPurposes :: "signing_purpose list"
  sp_requiredApprovals :: int
  sp_maxValiditySeconds :: int

datatype signer_provider = LOCAL_DEVELOPMENT | HSM | MPC

record signature_result =
  sx_requestId :: interweave_id
  sx_keyReference :: string
  sx_algorithm :: string
  sx_signature :: string
  sx_signedAt :: iso_timestamp
  sx_provider :: signer_provider

type_synonym signer = "signing_request \<Rightarrow> signature_result result"

section \<open>Signers\<close>

text \<open>An external service sees the key reference, the algorithm, the digest and the request id only.\<close>

type_synonym external_client = "string \<Rightarrow> string \<Rightarrow> string \<Rightarrow> string \<Rightarrow> (string \<times> iso_timestamp) result"

definition assert_external_reference :: "string \<Rightarrow> string \<Rightarrow> unit result" where
  "assert_external_reference value prefix =
     (if \<not> starts_with value prefix \<or> has_substring value ''private'' \<or> has_substring value ''secret''
      then Inl (RegistryError INVALID_ARGUMENT (''signer requires an opaque '' @ prefix @ '' key reference''))
      else Inr ())"

definition external_sign :: "signer_provider \<Rightarrow> string \<Rightarrow> external_client \<Rightarrow> signer" where
  "external_sign provider prefix client r =
     bind_result (assert_external_reference (sq_keyReference r) prefix) (\<lambda>_.
     bind_result (client (sq_keyReference r) (sq_algorithm r) (sq_payloadDigest r) (sq_id r)) (\<lambda>(signature, signedAt).
     Inr \<lparr>sx_requestId = sq_id r, sx_keyReference = sq_keyReference r, sx_algorithm = sq_algorithm r,
       sx_signature = signature, sx_signedAt = signedAt, sx_provider = provider\<rparr>))"

definition hsm_sign :: "external_client \<Rightarrow> signer" where
  "hsm_sign = external_sign HSM ''hsm://''"

definition mpc_sign :: "external_client \<Rightarrow> signer" where
  "mpc_sign = external_sign MPC ''mpc://''"

text \<open>The secret is the byte list the constructor was given; its check comes first.\<close>

definition local_signer_new :: "string \<Rightarrow> 8 word list \<Rightarrow> unit result" where
  "local_signer_new keyReference secret =
     (if \<not> starts_with keyReference ''local-dev://'' \<or> length secret < 32
      then Inl (RegistryError INVALID_ARGUMENT ''local signer is restricted to development with an in-memory 256-bit key'')
      else Inr ())"

definition local_sign :: "(8 word list \<Rightarrow> string \<Rightarrow> string) \<Rightarrow> string \<Rightarrow> 8 word list \<Rightarrow> js_date \<Rightarrow> signer" where
  "local_sign hmac keyReference secret now r =
     (if sq_keyReference r \<noteq> keyReference \<or> has_substring (sq_environmentId r) '':prod''
      then Inl (RegistryError CONFLICT ''local development signer cannot sign this request'')
      else case now of
          None \<Rightarrow> Inl (Error ''Invalid time value'')
        | Some t \<Rightarrow> Inr \<lparr>sx_requestId = sq_id r, sx_keyReference = sq_keyReference r, sx_algorithm = sq_algorithm r,
            sx_signature = hmac secret (sq_payloadDigest r), sx_signedAt = to_iso_string t, sx_provider = LOCAL_DEVELOPMENT\<rparr>)"

definition signing_payload_digest :: "sha256 \<Rightarrow> 8 word list \<Rightarrow> string" where
  "signing_payload_digest sha bytes = ''sha256:'' @ sha bytes"

section \<open>Tables\<close>

record signing_world =
  sw_requests :: "signing_request list"
  sw_approvals :: "signing_approval list"
  sw_results :: "signature_result list"
  sw_signed :: "(signing_request \<times> signing_approval list) list"

definition find_request :: "interweave_id \<Rightarrow> signing_world \<Rightarrow> signing_request option" where
  "find_request i w = table_find sq_id i (sw_requests w)"

definition find_result :: "interweave_id \<Rightarrow> signing_world \<Rightarrow> signature_result option" where
  "find_result i w = table_find sx_requestId i (sw_results w)"

definition create_request :: "signing_request \<Rightarrow> (signing_world, signing_request) comp" where
  "create_request r w =
     (case table_insert sq_id (\<lambda>_. RegistryError ALREADY_EXISTS ''signing request is immutable'') r (sw_requests w) of
        (Inl e, _) \<Rightarrow> (Inl e, w)
      | (Inr _, rows) \<Rightarrow> (Inr r, w\<lparr>sw_requests := rows\<rparr>))"

text \<open>One row per request and approver; the foreign key and the primary key fail in the driver.\<close>

definition add_approval :: "signing_approval \<Rightarrow> (signing_world, unit) comp" where
  "add_approval v w =
     (if list_ex (\<lambda>x. sv_requestId x = sv_requestId v \<and> sv_approverId x = sv_approverId v) (sw_approvals w)
      then (Inl (RegistryError CONFLICT ''approver already decided''), w)
      else if list_ex (\<lambda>x. sv_id x = sv_id v) (sw_approvals w) then (Inl (SqlError ''duplicate key''), w)
      else if find_request (sv_requestId v) w = None then (Inl (SqlError ''foreign key''), w)
      else (Inr (), w\<lparr>sw_approvals := sw_approvals w @ [v]\<rparr>))"

text \<open>\<open>ORDER BY id\<close> does not change what is made of the rows.\<close>

definition approvals_for :: "interweave_id \<Rightarrow> signing_world \<Rightarrow> signing_approval list" where
  "approvals_for i w = filter (\<lambda>x. sv_requestId x = i) (sw_approvals w)"

definition save_result :: "signature_result \<Rightarrow> (signing_world, signature_result) comp" where
  "save_result v w =
     (case table_insert sx_requestId (\<lambda>_. RegistryError CONFLICT ''signature result is immutable'') v (sw_results w) of
        (Inl e, _) \<Rightarrow> (Inl e, w)
      | (Inr _, rows) \<Rightarrow>
          if find_request (sx_requestId v) w = None then (Inl (SqlError ''foreign key''), w)
          else (Inr v, w\<lparr>sw_results := rows\<rparr>))"

section \<open>The coordinator\<close>

definition lower_hex :: "char \<Rightarrow> bool" where
  "lower_hex c \<longleftrightarrow> is_digit c \<or> (97 \<le> (of_char c :: nat) \<and> of_char c \<le> (102 :: nat))"

definition digest_text :: "string \<Rightarrow> bool" where
  "digest_text s \<longleftrightarrow> starts_with s ''sha256:'' \<and> length s = 71 \<and> list_all lower_hex (drop 7 s)"

text \<open>The quotient by 1000 is compared exactly.\<close>

definition check_request :: "signing_policy \<Rightarrow> js_date \<Rightarrow> signing_request \<Rightarrow> unit result" where
  "check_request policy now r =
     (if sq_environmentId r \<noteq> sp_environmentId policy \<or> sq_policyVersion r \<noteq> sp_version policy
        \<or> sq_purpose r \<notin> set (sp_allowedPurposes policy) \<or> sq_algorithm r \<notin> set (sp_allowedAlgorithms policy)
        \<or> \<not> list_ex (\<lambda>x. starts_with (sq_keyReference r) x) (sp_allowedKeyPrefixes policy)
      then Inl (RegistryError CONFLICT ''signing policy does not authorize request'')
      else if \<not> starts_with (sq_id r) ''IW:SIGNING_REQUEST:'' \<or> blank (sq_operationId r) \<or> \<not> digest_text (sq_payloadDigest r)
        \<or> (case (date_parse (sq_createdAt r), date_parse (sq_expiresAt r)) of
             (Some created, Some expires) \<Rightarrow> created \<ge> expires \<or> expires - created > 1000 * sp_maxValiditySeconds policy
               \<or> (case now of None \<Rightarrow> False | Some t \<Rightarrow> t \<ge> expires)
           | _ \<Rightarrow> True)
      then Inl (RegistryError INVALID_ARGUMENT ''signing request is invalid or expired'')
      else Inr ())"

definition request_json :: "signing_request \<Rightarrow> json" where
  "request_json r = JsObject
     [(''id'', JsString (sq_id r)), (''purpose'', JsString (purpose_text (sq_purpose r))), (''operationId'', JsString (sq_operationId r)),
      (''keyReference'', JsString (sq_keyReference r)), (''algorithm'', JsString (sq_algorithm r)),
      (''payloadDigest'', JsString (sq_payloadDigest r)), (''policyVersion'', JsString (sq_policyVersion r)),
      (''createdAt'', JsString (sq_createdAt r)), (''expiresAt'', JsString (sq_expiresAt r)),
      (''organizationId'', JsString (sq_organizationId r)), (''projectId'', JsString (sq_projectId r)),
      (''environmentId'', JsString (sq_environmentId r))]"

definition submit_request ::
  "signing_policy \<Rightarrow> js_date \<Rightarrow> tenant_context \<Rightarrow> signing_input \<Rightarrow> (signing_world, signing_request) comp" where
  "submit_request policy now ctx i =
     (let r = signing_input.extend i (signing_request.fields (tc_organizationId ctx) (tc_projectId ctx) (tc_environmentId ctx)) in
      and_then (lift_result (check_request policy now r)) (\<lambda>_. create_request r))"

definition required_request :: "interweave_id \<Rightarrow> (signing_world, signing_request) comp" where
  "required_request i = and_then (gets (find_request i)) (\<lambda>found.
     case found of None \<Rightarrow> throw (RegistryError NOT_FOUND (''signing request not found: '' @ i)) | Some r \<Rightarrow> ret r)"

definition new_approval :: "interweave_id \<Rightarrow> string \<Rightarrow> string \<Rightarrow> approval_decision \<Rightarrow> iso_timestamp \<Rightarrow> signing_approval" where
  "new_approval requestId digest approverId decision occurredAt =
     \<lparr>sv_id = ''IW:SIGNING_APPROVAL:'' @ requestId @ '':'' @ approverId, sv_requestId = requestId, sv_requestDigest = digest,
      sv_approverId = approverId, sv_decision = decision, sv_occurredAt = occurredAt\<rparr>"

definition approve_request ::
  "sha256 \<Rightarrow> js_date \<Rightarrow> tenant_context \<Rightarrow> interweave_id \<Rightarrow> string \<Rightarrow> approval_decision \<Rightarrow> (signing_world, signing_approval) comp" where
  "approve_request sha now ctx requestId approverId decision =
     (if POLICIES_ADMIN \<notin> set (tc_scopes ctx)
      then throw (RegistryError CONFLICT ''administrative approval scope is required'')
      else and_then (required_request requestId) (\<lambda>r.
        and_then (lift_result (request_fingerprint sha (request_json r))) (\<lambda>digest.
        and_then (iso_string now) (\<lambda>occurredAt.
        let v = new_approval requestId digest approverId decision occurredAt
        in and_then (add_approval v) (\<lambda>_. ret v)))))"

definition required_approvals :: "signing_policy \<Rightarrow> signing_purpose \<Rightarrow> int" where
  "required_approvals policy p = (if p \<in> set (sp_privilegedPurposes policy) then sp_requiredApprovals policy else 0)"

definition approvers :: "signing_approval list \<Rightarrow> string list" where
  "approvers vs = js_set (map sv_approverId (filter (\<lambda>x. sv_decision x = APPROVE) vs))"

text \<open>Up to the signer: a stored result is returned at once, otherwise the request that may be signed.\<close>

definition execute_begin ::
  "sha256 \<Rightarrow> signing_policy \<Rightarrow> js_date \<Rightarrow> tenant_context \<Rightarrow> interweave_id \<Rightarrow> (signing_world, signature_result + signing_request) comp" where
  "execute_begin sha policy now ctx i =
     and_then (gets (find_result i)) (\<lambda>existing.
     case existing of
       Some v \<Rightarrow> ret (Inl v)
     | None \<Rightarrow>
         and_then (required_request i) (\<lambda>r.
         and_then (lift_result (check_request policy now r)) (\<lambda>_.
         if sq_organizationId r \<noteq> tc_organizationId ctx \<or> sq_projectId r \<noteq> tc_projectId ctx \<or> sq_environmentId r \<noteq> tc_environmentId ctx
         then throw (RegistryError CONFLICT ''signing request belongs to another tenant'')
         else and_then (gets (approvals_for i)) (\<lambda>approvals.
           and_then (lift_result (request_fingerprint sha (request_json r))) (\<lambda>digest.
           if list_ex (\<lambda>x. sv_requestDigest x \<noteq> digest \<or> sv_decision x = REJECT) approvals
           then throw (RegistryError CONFLICT ''signing request has invalid or rejecting approval'')
           else if int (length (approvers approvals)) < required_approvals policy (sq_purpose r)
           then throw (RegistryError CONFLICT (''signing request requires ''
             @ int_to_string (required_approvals policy (sq_purpose r)) @ '' distinct approvals''))
           else and_then (modify (\<lambda>w. w\<lparr>sw_signed := sw_signed w @ [(r, approvals)]\<rparr>)) (\<lambda>_. ret (Inr r)))))))"

text \<open>From the signer's answer on.\<close>

definition execute_finish :: "signature_result result \<Rightarrow> (signing_world, signature_result) comp" where
  "execute_finish answer =
     and_then (lift_result answer) (\<lambda>v.
     if blank (sx_signature v) \<or> date_parse (sx_signedAt v) = None
     then throw (RegistryError INVALID_ARGUMENT ''signer returned invalid evidence'')
     else save_result v)"

definition signing_execute ::
  "sha256 \<Rightarrow> signing_policy \<Rightarrow> signer \<Rightarrow> js_date \<Rightarrow> tenant_context \<Rightarrow> interweave_id \<Rightarrow> (signing_world, signature_result) comp" where
  "signing_execute sha policy sign now ctx i =
     and_then (execute_begin sha policy now ctx i) (\<lambda>begun.
     case begun of Inl v \<Rightarrow> ret v | Inr r \<Rightarrow> execute_finish (sign r))"


section \<open>Interleaved calls\<close>

text \<open>The signers the module offers, whatever the service behind them answers.\<close>

definition provided_signer :: "signer \<Rightarrow> bool" where
  "provided_signer s \<longleftrightarrow> (\<exists>client. s = hsm_sign client \<or> s = mpc_sign client)
     \<or> (\<exists>hmac keyReference secret now. local_signer_new keyReference secret = Inr () \<and> s = local_sign hmac keyReference secret now)"

record signing_system =
  ss_world :: signing_world
  ss_pending :: "signing_request list"

inductive signing_step :: "sha256 \<Rightarrow> signing_policy \<Rightarrow> signing_system \<Rightarrow> signing_system \<Rightarrow> bool" for sha policy where
  sign_submit: "submit_request policy now ctx i w = (res, w') \<Longrightarrow>
    signing_step sha policy \<lparr>ss_world = w, ss_pending = ps\<rparr> \<lparr>ss_world = w', ss_pending = ps\<rparr>"
| sign_approve: "approve_request sha now ctx i a d w = (res', w') \<Longrightarrow>
    signing_step sha policy \<lparr>ss_world = w, ss_pending = ps\<rparr> \<lparr>ss_world = w', ss_pending = ps\<rparr>"
| sign_begin: "execute_begin sha policy now ctx i w = (Inr (Inr r), w') \<Longrightarrow>
    signing_step sha policy \<lparr>ss_world = w, ss_pending = ps\<rparr> \<lparr>ss_world = w', ss_pending = ps @ [r]\<rparr>"
| sign_refused: "execute_begin sha policy now ctx i w = (res'', w') \<Longrightarrow> (\<And>r. res'' \<noteq> Inr (Inr r)) \<Longrightarrow>
    signing_step sha policy \<lparr>ss_world = w, ss_pending = ps\<rparr> \<lparr>ss_world = w', ss_pending = ps\<rparr>"
| sign_finish: "r \<in> set ps \<Longrightarrow> provided_signer s \<Longrightarrow> execute_finish (s r) w = (answer, w') \<Longrightarrow>
    signing_step sha policy \<lparr>ss_world = w, ss_pending = ps\<rparr> \<lparr>ss_world = w', ss_pending = remove1 r ps\<rparr>"

abbreviation signing_start :: signing_system where
  "signing_start \<equiv> \<lparr>ss_world = \<lparr>sw_requests = [], sw_approvals = [], sw_results = [], sw_signed = []\<rparr>, ss_pending = []\<rparr>"

lemma provided_echo:
  assumes "provided_signer s" "s r = Inr v"
  shows "sx_requestId v = sq_id r \<and> sx_keyReference v = sq_keyReference r \<and> sx_algorithm v = sq_algorithm r"
  using assms by (auto simp: provided_signer_def hsm_sign_def mpc_sign_def external_sign_def local_sign_def split: if_splits option.splits)

lemma submit_D:
  assumes "submit_request policy now ctx i w = (res, w')"
  shows "w' = w \<or> (\<exists>r. check_request policy now r = Inr () \<and> find_request (sq_id r) w = None
    \<and> w' = w\<lparr>sw_requests := sw_requests w @ [r]\<rparr>)"
  using assms
  by (auto simp: submit_request_def Let_def and_then_def create_request_def table_insert_def find_request_def
      split: sum.splits prod.splits if_splits)

lemma approve_D:
  assumes "approve_request sha now ctx i a d w = (res, w')"
  shows "w' = w \<or> (\<exists>v r. find_request (sv_requestId v) w = Some r \<and> request_fingerprint sha (request_json r) = Inr (sv_requestDigest v)
    \<and> w' = w\<lparr>sw_approvals := sw_approvals w @ [v]\<rparr>)"
proof (cases "POLICIES_ADMIN \<in> set (tc_scopes ctx) \<and> find_request i w \<noteq> None")
  case False
  then show ?thesis using assms by (auto simp: approve_request_def and_then_def required_request_def split: option.splits if_splits)
next
  case True
  then obtain r where r: "find_request i w = Some r" by blast
  show ?thesis
  proof (cases "request_fingerprint sha (request_json r)"; cases now)
    fix digest t assume digest: "request_fingerprint sha (request_json r) = Inr digest" and "now = Some t"
    then have "w' = snd (add_approval (new_approval i digest a d (to_iso_string t)) w)"
      using assms True r
      by (auto simp: approve_request_def and_then_def required_request_def iso_string_def Let_def split: sum.splits prod.splits)
    then show ?thesis
      using r digest
      by (auto simp: add_approval_def new_approval_def intro!: exI [of _ "new_approval i digest a d (to_iso_string t)"])
  qed (use assms True r in \<open>auto simp: approve_request_def and_then_def required_request_def iso_string_def\<close>)
qed

text \<open>What stood when a request was handed to the signer.\<close>

definition approved_by :: "sha256 \<Rightarrow> signing_policy \<Rightarrow> signing_request \<Rightarrow> signing_approval list \<Rightarrow> bool" where
  "approved_by sha policy r vs \<longleftrightarrow> (\<exists>now. check_request policy now r = Inr ())
     \<and> (\<forall>v \<in> set vs. sv_requestId v = sq_id r \<and> sv_decision v = APPROVE
          \<and> request_fingerprint sha (request_json r) = Inr (sv_requestDigest v))
     \<and> (sq_purpose r \<in> set (sp_privilegedPurposes policy) \<longrightarrow> sp_requiredApprovals policy \<le> int (card (sv_approverId ` set vs)))"

lemma begin_D:
  assumes run: "execute_begin sha policy now ctx i w = (res, w')"
  shows "w' = w \<and> (\<forall>r. res \<noteq> Inr (Inr r)) \<or> (\<exists>r. res = Inr (Inr r) \<and> find_request i w = Some r \<and> find_result i w = None
    \<and> sq_organizationId r = tc_organizationId ctx \<and> sq_projectId r = tc_projectId ctx \<and> sq_environmentId r = tc_environmentId ctx
    \<and> approved_by sha policy r (approvals_for i w) \<and> w' = w\<lparr>sw_signed := sw_signed w @ [(r, approvals_for i w)]\<rparr>)"
proof (cases "find_result i w = None \<and> find_request i w \<noteq> None")
  case False
  then show ?thesis using run by (auto simp: execute_begin_def and_then_def required_request_def split: option.splits)
next
  case True
  then obtain r where r: "find_request i w = Some r" "sq_id r = i"
    using table_find_key unfolding find_request_def by fastforce
  show ?thesis
  proof (cases "check_request policy now r = Inr () \<and> (\<exists>digest. request_fingerprint sha (request_json r) = Inr digest)")
    case False
    then show ?thesis using run True r
      by (auto simp: execute_begin_def and_then_def required_request_def split: sum.splits if_splits)
  next
    case True
    then obtain digest where digest: "request_fingerprint sha (request_json r) = Inr digest" by blast
    have "approved_by sha policy r (approvals_for i w)"
      if "\<not> list_ex (\<lambda>x. sv_requestDigest x \<noteq> digest \<or> sv_decision x = REJECT) (approvals_for i w)"
        "\<not> int (length (approvers (approvals_for i w))) < required_approvals policy (sq_purpose r)"
    proof -
      have all: "\<forall>x \<in> set (approvals_for i w). sv_requestDigest x = digest \<and> sv_decision x = APPROVE"
        using that(1) approval_decision.exhaust by (auto simp: list_ex_iff)
      then have "filter (\<lambda>x. sv_decision x = APPROVE) (approvals_for i w) = approvals_for i w" by (simp add: filter_id_conv)
      then have "length (approvers (approvals_for i w)) = card (sv_approverId ` set (approvals_for i w))"
        by (simp add: approvers_def length_js_set)
      then show ?thesis
        using that(2) all digest True r(2) by (auto simp: approved_by_def required_approvals_def approvals_for_def)
    qed
    then show ?thesis using run True r digest \<open>find_result i w = None \<and> find_request i w \<noteq> None\<close>
      by (auto simp: execute_begin_def and_then_def required_request_def split: if_splits)
  qed
qed

lemma finish_D:
  assumes "execute_finish answer w = (res, w')"
  shows "w' = w \<or> (\<exists>v. answer = Inr v \<and> \<not> blank (sx_signature v) \<and> find_result (sx_requestId v) w = None
    \<and> w' = w\<lparr>sw_results := sw_results w @ [v]\<rparr>)"
  using assms
  by (auto simp: execute_finish_def and_then_def save_result_def table_insert_def find_result_def split: sum.splits prod.splits if_splits)


section \<open>Nothing that was decided is undone\<close>

definition signing_grows :: "signing_world \<Rightarrow> signing_world \<Rightarrow> bool" where
  "signing_grows w w' \<longleftrightarrow> (\<forall>i r. find_request i w = Some r \<longrightarrow> find_request i w' = Some r)
     \<and> (\<forall>i v. find_result i w = Some v \<longrightarrow> find_result i w' = Some v)
     \<and> set (sw_approvals w) \<subseteq> set (sw_approvals w') \<and> set (sw_signed w) \<subseteq> set (sw_signed w')"

lemma signing_grows_refl [simp]: "signing_grows w w"
  by (simp add: signing_grows_def)

lemma signing_grows_trans: "signing_grows w w' \<Longrightarrow> signing_grows w' w'' \<Longrightarrow> signing_grows w w''"
  by (auto simp: signing_grows_def)

lemma signing_grows_tables:
  "signing_grows w (w\<lparr>sw_requests := sw_requests w @ [r]\<rparr>)"
  "signing_grows w (w\<lparr>sw_approvals := sw_approvals w @ [v]\<rparr>)"
  "signing_grows w (w\<lparr>sw_results := sw_results w @ [x]\<rparr>)"
  "signing_grows w (w\<lparr>sw_signed := sw_signed w @ [e]\<rparr>)"
  by (auto simp: signing_grows_def find_request_def find_result_def table_find_snoc)

lemma signing_step_grows: "signing_step sha policy s s' \<Longrightarrow> signing_grows (ss_world s) (ss_world s')"
proof (induction rule: signing_step.induct)
  case (sign_submit now ctx i w res w' ps)
  then show ?case using submit_D [OF sign_submit] by (elim disjE exE conjE) (simp_all add: signing_grows_tables)
next
  case (sign_approve now ctx i a d w res' w' ps)
  then show ?case using approve_D [OF sign_approve] by (elim disjE exE conjE) (simp_all add: signing_grows_tables)
next
  case (sign_begin now ctx i w r w' ps)
  then show ?case using begin_D [OF sign_begin] by (elim disjE exE conjE) (simp_all add: signing_grows_tables)
next
  case (sign_refused now ctx i w res'' w' ps)
  then show ?case using begin_D [OF sign_refused(1)] by (elim disjE exE conjE) (simp_all add: signing_grows_tables)
next
  case (sign_finish r ps s w answer w')
  then show ?case using finish_D [OF sign_finish(3)] by (elim disjE exE conjE) (simp_all add: signing_grows_tables)
qed

lemma signing_steps_grow: "(signing_step sha policy)\<^sup>*\<^sup>* s s' \<Longrightarrow> signing_grows (ss_world s) (ss_world s')"
  by (induction rule: rtranclp_induct) (auto dest: signing_step_grows intro: signing_grows_trans)

section \<open>Signatures rest on approvals\<close>

definition signed_ok :: "sha256 \<Rightarrow> signing_policy \<Rightarrow> signing_world \<Rightarrow> signing_request \<times> signing_approval list \<Rightarrow> bool" where
  "signed_ok sha policy w e \<longleftrightarrow> approved_by sha policy (fst e) (snd e) \<and> find_request (sq_id (fst e)) w = Some (fst e)
     \<and> set (snd e) \<subseteq> set (sw_approvals w)"

definition result_ok :: "signing_world \<Rightarrow> signature_result \<Rightarrow> bool" where
  "result_ok w v \<longleftrightarrow> \<not> blank (sx_signature v) \<and> (\<exists>e \<in> set (sw_signed w). sq_id (fst e) = sx_requestId v
     \<and> sq_keyReference (fst e) = sx_keyReference v \<and> sq_algorithm (fst e) = sx_algorithm v)"

definition signing_ok :: "sha256 \<Rightarrow> signing_policy \<Rightarrow> signing_system \<Rightarrow> bool" where
  "signing_ok sha policy s \<longleftrightarrow> (\<forall>e \<in> set (sw_signed (ss_world s)). signed_ok sha policy (ss_world s) e)
     \<and> (\<forall>v \<in> set (sw_results (ss_world s)). result_ok (ss_world s) v)
     \<and> (\<forall>r \<in> set (ss_pending s). r \<in> fst ` set (sw_signed (ss_world s)))"

lemma signing_ok_grown:
  assumes "signing_ok sha policy \<lparr>ss_world = w, ss_pending = ps\<rparr>" "signing_grows w w'"
    and "\<And>e. e \<in> set (sw_signed w') \<Longrightarrow> e \<in> set (sw_signed w) \<or> signed_ok sha policy w' e"
    and "\<And>v. v \<in> set (sw_results w') \<Longrightarrow> v \<in> set (sw_results w) \<or> result_ok w' v"
    and "\<And>r. r \<in> set ps' \<Longrightarrow> r \<in> set ps \<or> r \<in> fst ` set (sw_signed w')"
  shows "signing_ok sha policy \<lparr>ss_world = w', ss_pending = ps'\<rparr>"
  unfolding signing_ok_def signing_system.simps
proof (intro conjI ballI)
  fix e assume "e \<in> set (sw_signed w')"
  then show "signed_ok sha policy w' e"
    using assms(1,2,3) unfolding signing_ok_def signed_ok_def signing_grows_def signing_system.simps by blast
next
  fix v assume "v \<in> set (sw_results w')"
  then have "v \<in> set (sw_results w) \<or> result_ok w' v" by (rule assms(4))
  then show "result_ok w' v"
  proof
    assume "v \<in> set (sw_results w)"
    then have "result_ok w v" using assms(1) by (simp add: signing_ok_def)
    then show ?thesis using assms(2) unfolding result_ok_def signing_grows_def by blast
  qed
next
  fix r assume "r \<in> set ps'"
  then show "r \<in> fst ` set (sw_signed w')"
    using assms(1,2,5) unfolding signing_ok_def signing_grows_def signing_system.simps by blast
qed

lemma find_request_id: "find_request i w = Some r \<Longrightarrow> sq_id r = i"
  unfolding find_request_def by (rule table_find_key)

lemma signing_step_ok: "signing_step sha policy s s' \<Longrightarrow> signing_ok sha policy s \<Longrightarrow> signing_ok sha policy s'"
proof (induction rule: signing_step.induct)
  case (sign_submit now ctx i w res w' ps)
  then show ?case
    using submit_D [OF sign_submit(1)] by (elim disjE exE conjE; intro signing_ok_grown [OF sign_submit(2)]; simp add: signing_grows_tables)
next
  case (sign_approve now ctx i a d w res' w' ps)
  then show ?case
    using approve_D [OF sign_approve(1)] by (elim disjE exE conjE; intro signing_ok_grown [OF sign_approve(2)]; simp add: signing_grows_tables)
next
  case (sign_begin now ctx i w r w' ps)
  then have b: "find_request i w = Some r" "approved_by sha policy r (approvals_for i w)"
      "w' = w\<lparr>sw_signed := sw_signed w @ [(r, approvals_for i w)]\<rparr>"
    using begin_D [OF sign_begin(1)] by auto
  then have "signed_ok sha policy w' (r, approvals_for i w)"
    using find_request_id [OF b(1)] by (auto simp: signed_ok_def find_request_def approvals_for_def)
  then show ?case
    using b(3) by (intro signing_ok_grown [OF sign_begin(2)]) (auto simp: signing_grows_tables)
next
  case (sign_refused now ctx i w res'' w' ps)
  then show ?case using begin_D [OF sign_refused(1)] by auto
next
  case (sign_finish r ps s w answer w')
  have sub: "set (remove1 r ps) \<subseteq> set ps" by (rule set_remove1_subset)
  show ?case
  proof (cases "w' = w")
    case True
    then show ?thesis using sub by (intro signing_ok_grown [OF sign_finish(4)]) auto
  next
    case False
    then obtain v where v: "s r = Inr v" "\<not> blank (sx_signature v)" "w' = w\<lparr>sw_results := sw_results w @ [v]\<rparr>"
      using finish_D [OF sign_finish(3)] by auto
    have "result_ok w' v"
      using provided_echo [OF sign_finish(2) v(1)] v(2,3) sign_finish(1,4) by (fastforce simp: result_ok_def signing_ok_def)
    then show ?thesis using v(3) sub by (intro signing_ok_grown [OF sign_finish(4)]) (auto simp: signing_grows_tables)
  qed
qed

lemma start_signing_ok: "signing_ok sha policy signing_start"
  by (simp add: signing_ok_def)

lemma reachable_signing_ok: "(signing_step sha policy)\<^sup>*\<^sup>* signing_start s \<Longrightarrow> signing_ok sha policy s"
  by (induction rule: rtranclp_induct) (auto intro: signing_step_ok start_signing_ok)

text \<open>
  C36. Custody answers only to policy and approvals. However submissions, approvals and executions interleave
  and whatever the service behind the signer answers, every request that was ever handed to the signer, signed
  or not, is a stored request that the policy admitted; every decision on it was then an approval of
  exactly its digest, and for a privileged purpose as many distinct approver names had approved as the policy
  requires. A call that waits for the signer waits for such a request. A stored signature belongs to one of
  them, names its key and algorithm and is not empty. Signatures and approvals never change afterwards.
\<close>

theorem signature_needs_approvals:
  assumes "(signing_step sha policy)\<^sup>*\<^sup>* signing_start s"
  shows "(\<forall>(r, vs) \<in> set (sw_signed (ss_world s)). find_request (sq_id r) (ss_world s) = Some r
       \<and> set vs \<subseteq> set (sw_approvals (ss_world s)) \<and> approved_by sha policy r vs)
     \<and> (\<forall>r \<in> set (ss_pending s). \<exists>vs. (r, vs) \<in> set (sw_signed (ss_world s)))
     \<and> (\<forall>i v. find_result i (ss_world s) = Some v \<longrightarrow>
         (\<exists>r vs. (r, vs) \<in> set (sw_signed (ss_world s)) \<and> sq_id r = i \<and> sx_requestId v = i
            \<and> sx_keyReference v = sq_keyReference r \<and> sx_algorithm v = sq_algorithm r \<and> \<not> blank (sx_signature v))
         \<and> (\<forall>s'. (signing_step sha policy)\<^sup>*\<^sup>* s s' \<longrightarrow>
              find_result i (ss_world s') = Some v \<and> set (sw_approvals (ss_world s)) \<subseteq> set (sw_approvals (ss_world s'))))"
proof -
  have ok: "signing_ok sha policy s" by (rule reachable_signing_ok [OF assms])
  then have handed: "\<forall>(r, vs) \<in> set (sw_signed (ss_world s)). find_request (sq_id r) (ss_world s) = Some r
       \<and> set vs \<subseteq> set (sw_approvals (ss_world s)) \<and> approved_by sha policy r vs"
    unfolding signing_ok_def signed_ok_def case_prod_unfold by blast
  have waiting: "\<forall>r \<in> set (ss_pending s). \<exists>vs. (r, vs) \<in> set (sw_signed (ss_world s))"
    using ok by (fastforce simp: signing_ok_def)
  have signed: "\<exists>r vs. (r, vs) \<in> set (sw_signed (ss_world s)) \<and> sq_id r = i \<and> sx_requestId v = i
            \<and> sx_keyReference v = sq_keyReference r \<and> sx_algorithm v = sq_algorithm r \<and> \<not> blank (sx_signature v)"
    if "find_result i (ss_world s) = Some v" for i v
  proof -
    have v: "v \<in> set (sw_results (ss_world s))" "sx_requestId v = i"
      using that by (auto simp: find_result_def dest: table_find_mem table_find_key)
    then have "result_ok (ss_world s) v" using ok by (simp add: signing_ok_def)
    then obtain e where e: "e \<in> set (sw_signed (ss_world s))" "sq_id (fst e) = sx_requestId v"
        "sq_keyReference (fst e) = sx_keyReference v" "sq_algorithm (fst e) = sx_algorithm v" "\<not> blank (sx_signature v)"
      unfolding result_ok_def by blast
    then show ?thesis using v(2) by (intro exI [of _ "fst e"] exI [of _ "snd e"]) simp
  qed
  have kept: "find_result i (ss_world s') = Some v \<and> set (sw_approvals (ss_world s)) \<subseteq> set (sw_approvals (ss_world s'))"
    if "(signing_step sha policy)\<^sup>*\<^sup>* s s'" "find_result i (ss_world s) = Some v" for s' i v
    using signing_steps_grow [OF that(1)] that(2) by (simp add: signing_grows_def)
  show ?thesis
    using signed kept by (intro conjI handed waiting) blast
qed

section \<open>Who may approve, and who may read\<close>

text \<open>
  The approver's name comes from the caller, and neither it nor the tenant of the request is compared with the
  context: one credential with the scope, of any tenant, can supply every approval.
\<close>

lemma one_admin_approves_as_anyone:
  assumes "POLICIES_ADMIN \<in> set (tc_scopes ctx)" "find_request i w = Some r" "request_fingerprint sha (request_json r) = Inr digest"
    and "\<not> list_ex (\<lambda>x. sv_requestId x = i \<and> sv_approverId x = a) (sw_approvals w)"
    and "\<not> list_ex (\<lambda>x. sv_id x = ''IW:SIGNING_APPROVAL:'' @ i @ '':'' @ a) (sw_approvals w)"
  shows "approve_request sha (Some t) ctx i a APPROVE w
    = (Inr (new_approval i digest a APPROVE (to_iso_string t)),
       w\<lparr>sw_approvals := sw_approvals w @ [new_approval i digest a APPROVE (to_iso_string t)]\<rparr>)"
  using assms by (simp add: approve_request_def and_then_def required_request_def iso_string_def Let_def add_approval_def new_approval_def)

text \<open>A stored signature is returned before the tenant of the request is looked at.\<close>

lemma result_read_by_any_tenant:
  "find_result i w = Some v \<Longrightarrow> signing_execute sha policy s now ctx i w = (Inr v, w)"
  by (simp add: signing_execute_def execute_begin_def and_then_def)


section \<open>An example\<close>

definition example_signing :: signing_request where
  "example_signing = \<lparr>sq_id = ''IW:SIGNING_REQUEST:1'', sq_purpose = SIGN_VALIDATOR_ROTATION, sq_operationId = ''IW:BRIDGE:1'',
     sq_keyReference = ''hsm://cluster/key-1'', sq_algorithm = ''ECDSA'', sq_payloadDigest = ''sha256:'' @ replicate 64 (CHR ''a''),
     sq_policyVersion = ''1'', sq_createdAt = to_iso_string 0, sq_expiresAt = to_iso_string 60000,
     sq_organizationId = ''IW:ORGANIZATION:o'', sq_projectId = ''IW:PROJECT:p'', sq_environmentId = ''IW:ENVIRONMENT:e''\<rparr>"

definition example_signing_policy :: signing_policy where
  "example_signing_policy = \<lparr>sp_version = ''1'', sp_environmentId = ''IW:ENVIRONMENT:e'', sp_allowedPurposes = [SIGN_VALIDATOR_ROTATION],
     sp_allowedAlgorithms = [''ECDSA''], sp_allowedKeyPrefixes = [''hsm://''], sp_privilegedPurposes = [SIGN_VALIDATOR_ROTATION],
     sp_requiredApprovals = 2, sp_maxValiditySeconds = 300\<rparr>"

abbreviation example_admin :: tenant_context where
  "example_admin \<equiv> example_context\<lparr>tc_scopes := [POLICIES_ADMIN]\<rparr>"

abbreviation example_signature :: signature_result where
  "example_signature \<equiv> \<lparr>sx_requestId = ''IW:SIGNING_REQUEST:1'', sx_keyReference = ''hsm://cluster/key-1'', sx_algorithm = ''ECDSA'',
     sx_signature = ''s'', sx_signedAt = to_iso_string 20000, sx_provider = HSM\<rparr>"

lemma example_signing_checks: "check_request example_signing_policy (Some 10000) example_signing = Inr ()"
proof -
  have "digest_text (''sha256:'' @ replicate 64 (CHR ''a''))" by code_simp
  then show ?thesis
    by (simp add: check_request_def example_signing_def example_signing_policy_def starts_with_def blank_iff js_space_def
        date_parse_to_iso_string del: append_Cons replicate.simps)
qed

lemma example_signing_fingerprint: "\<exists>d. request_fingerprint sha (request_json example_signing) = Inr d"
proof -
  have "proper_json (request_json example_signing)" by (simp add: request_json_def)
  then show ?thesis unfolding request_fingerprint_def by (simp add: canonical_proper)
qed

lemma example_submitted:
  "submit_request example_signing_policy (Some 10000) example_context (signing_input.truncate example_signing)
     \<lparr>sw_requests = [], sw_approvals = [], sw_results = [], sw_signed = []\<rparr>
   = (Inr example_signing, \<lparr>sw_requests = [example_signing], sw_approvals = [], sw_results = [], sw_signed = []\<rparr>)"
proof -
  have "signing_input.extend (signing_input.truncate example_signing) (signing_request.fields (tc_organizationId example_context)
      (tc_projectId example_context) (tc_environmentId example_context)) = example_signing"
    by (simp add: example_signing_def example_context_def signing_input.defs signing_request.defs)
  then show ?thesis
    by (simp add: submit_request_def and_then_def example_signing_checks create_request_def table_insert_def table_find_def)
qed

lemma example_signing_steps:
  "\<exists>s. (signing_step sha example_signing_policy)\<^sup>*\<^sup>* signing_start s \<and> find_result ''IW:SIGNING_REQUEST:1'' (ss_world s) = Some example_signature"
proof -
  let ?R = "signing_step sha example_signing_policy" and ?i = "''IW:SIGNING_REQUEST:1''"
  obtain d where d: "request_fingerprint sha (request_json example_signing) = Inr d" using example_signing_fingerprint by blast
  define w where "w vs rs ss = \<lparr>sw_requests = [example_signing], sw_approvals = vs, sw_results = rs, sw_signed = ss\<rparr>" for vs rs ss
  let ?a = "new_approval ?i d ''alice'' APPROVE (to_iso_string 10000)" and ?b = "new_approval ?i d ''bob'' APPROVE (to_iso_string 10000)"
  have found: "find_request ?i (w vs rs ss) = Some example_signing" for vs rs ss
    by (simp add: find_request_def w_def table_find_def) (simp add: example_signing_def)
  have "?R\<^sup>*\<^sup>* signing_start \<lparr>ss_world = w [] [] [], ss_pending = []\<rparr>"
    unfolding w_def by (rule r_into_rtranclp) (rule sign_submit [OF example_submitted])
  moreover have "approve_request sha (Some 10000) example_admin ?i ''alice'' APPROVE (w [] [] []) = (Inr ?a, w [?a] [] [])"
    by (subst one_admin_approves_as_anyone [OF _ found d]) (simp_all add: w_def)
  ultimately have "?R\<^sup>*\<^sup>* signing_start \<lparr>ss_world = w [?a] [] [], ss_pending = []\<rparr>"
    by (auto intro: rtranclp.rtrancl_into_rtrancl sign_approve)
  moreover have "approve_request sha (Some 10000) example_admin ?i ''bob'' APPROVE (w [?a] [] []) = (Inr ?b, w [?a, ?b] [] [])"
    by (subst one_admin_approves_as_anyone [OF _ found d]) (simp_all add: w_def new_approval_def)
  ultimately have "?R\<^sup>*\<^sup>* signing_start \<lparr>ss_world = w [?a, ?b] [] [], ss_pending = []\<rparr>"
    by (auto intro: rtranclp.rtrancl_into_rtrancl sign_approve)
  moreover have "execute_begin sha example_signing_policy (Some 10000) example_context ?i (w [?a, ?b] [] [])
      = (Inr (Inr example_signing), w [?a, ?b] [] [(example_signing, [?a, ?b])])"
  proof -
    have "approvers [?a, ?b] = [''alice'', ''bob'']" "approvals_for ?i (w [?a, ?b] [] []) = [?a, ?b]" "find_result ?i (w [?a, ?b] [] []) = None"
      by (simp_all add: approvers_def new_approval_def js_set_def approvals_for_def w_def find_result_def table_find_def)
    moreover have "sq_organizationId example_signing = tc_organizationId example_context" "sq_projectId example_signing = tc_projectId example_context"
      "sq_environmentId example_signing = tc_environmentId example_context" "required_approvals example_signing_policy (sq_purpose example_signing) = 2"
      by (simp_all add: example_signing_def example_context_def required_approvals_def example_signing_policy_def)
    ultimately show ?thesis
      using found d by (simp add: execute_begin_def and_then_def required_request_def example_signing_checks new_approval_def) (simp add: w_def)
  qed
  ultimately have "?R\<^sup>*\<^sup>* signing_start \<lparr>ss_world = w [?a, ?b] [] [(example_signing, [?a, ?b])], ss_pending = [example_signing]\<rparr>"
    using sign_begin [where ps = "[]"] by (fastforce intro: rtranclp.rtrancl_into_rtrancl)
  moreover have "hsm_sign (\<lambda>_ _ _ _. Inr (''s'', to_iso_string 20000)) example_signing = Inr example_signature"
    by (simp add: hsm_sign_def external_sign_def assert_external_reference_def starts_with_def has_substring_def example_signing_def)
  then have "execute_finish (hsm_sign (\<lambda>_ _ _ _. Inr (''s'', to_iso_string 20000)) example_signing) (w [?a, ?b] [] [(example_signing, [?a, ?b])])
      = (Inr example_signature, w [?a, ?b] [example_signature] [(example_signing, [?a, ?b])])"
    using found by (simp add: execute_finish_def and_then_def blank_iff js_space_def date_parse_to_iso_string save_result_def
        table_insert_def table_find_def) (simp add: w_def table_find_def)
  moreover have "provided_signer (hsm_sign (\<lambda>_ _ _ _. Inr (''s'', to_iso_string 20000)))"
    unfolding provided_signer_def by blast
  ultimately have "?R\<^sup>*\<^sup>* signing_start
      \<lparr>ss_world = w [?a, ?b] [example_signature] [(example_signing, [?a, ?b])], ss_pending = remove1 example_signing [example_signing]\<rparr>"
    using sign_finish [of example_signing "[example_signing]"] by (meson list.set_intros(1) rtranclp.rtrancl_into_rtrancl)
  moreover have "find_result ?i (w [?a, ?b] [example_signature] [(example_signing, [?a, ?b])]) = Some example_signature"
    by (simp add: find_result_def w_def table_find_def)
  ultimately show ?thesis by (metis signing_system.select_convs(1))
qed

theorem signature_needs_approvals_witness:
  "\<exists>(s :: signing_system) r vs. find_result ''IW:SIGNING_REQUEST:1'' (ss_world s) = Some example_signature
     \<and> approved_by (\<lambda>_. ''h'') example_signing_policy r vs \<and> (r, vs) \<in> set (sw_signed (ss_world s))"
proof -
  obtain s where s: "(signing_step (\<lambda>_. ''h'') example_signing_policy)\<^sup>*\<^sup>* signing_start s"
    "find_result ''IW:SIGNING_REQUEST:1'' (ss_world s) = Some example_signature"
    using example_signing_steps by blast
  from signature_needs_approvals [OF s(1)] s(2) show ?thesis by blast
qed

end
