(* ===== verification/Emergency_Controls.thy ===== *)
theory Emergency_Controls
  imports Js_Date Record_Store Model
begin

text \<open>
  Emergency controls of packages/core/src/emergency-controls.ts on their PostgreSQL table: activation,
  lifting, and the gate before a financial action. The audit sink is outside the program; each call carries
  its answer, and the events it took are kept in the world.
\<close>

section \<open>Types\<close>

datatype control_kind = CONTROL_ASSET | CONTROL_SOURCE_NETWORK | CONTROL_DESTINATION_NETWORK | CONTROL_BRIDGE_DIRECTION
  | CONTROL_MINT | CONTROL_RELEASE | CONTROL_SETTLEMENT

fun kind_text :: "control_kind \<Rightarrow> string" where
  "kind_text CONTROL_ASSET = ''ASSET''"
| "kind_text CONTROL_SOURCE_NETWORK = ''SOURCE_NETWORK''"
| "kind_text CONTROL_DESTINATION_NETWORK = ''DESTINATION_NETWORK''"
| "kind_text CONTROL_BRIDGE_DIRECTION = ''BRIDGE_DIRECTION''"
| "kind_text CONTROL_MINT = ''MINT''"
| "kind_text CONTROL_RELEASE = ''RELEASE''"
| "kind_text CONTROL_SETTLEMENT = ''SETTLEMENT''"

datatype emergency_role = EMERGENCY_OPERATOR | EMERGENCY_ADMIN

fun role_text :: "emergency_role \<Rightarrow> string" where
  "role_text EMERGENCY_OPERATOR = ''EMERGENCY_OPERATOR''"
| "role_text EMERGENCY_ADMIN = ''EMERGENCY_ADMIN''"

record emergency_selector =
  es_assetId :: "interweave_id option"
  es_sourceNetworkId :: "interweave_id option"
  es_destinationNetworkId :: "interweave_id option"

datatype control_status = CONTROL_ACTIVE | CONTROL_LIFTED

record emergency_control =
  ec_id :: interweave_id
  ec_organizationId :: interweave_id
  ec_projectId :: interweave_id
  ec_environmentId :: interweave_id
  ec_kind :: control_kind
  ec_selector :: emergency_selector
  ec_status :: control_status
  ec_reason :: string
  ec_activatedBy :: string
  ec_activatedAt :: iso_timestamp
  ec_liftedBy :: "string option"
  ec_liftedAt :: "iso_timestamp option"

record emergency_principal =
  ep_subjectId :: string
  ep_roles :: "emergency_role list"
  ep_organizationId :: interweave_id
  ep_projectId :: interweave_id
  ep_environmentId :: interweave_id

datatype financial_action = FIN_MINT | FIN_RELEASE | FIN_SETTLEMENT

record emergency_operation =
  eo_action :: financial_action
  eo_selector :: emergency_selector

record control_event =
  ev_controlId :: interweave_id
  ev_actor :: string
  ev_lifted :: bool
  ev_kind :: control_kind
  ev_selector :: emergency_selector
  ev_reason :: string
  ev_occurredAt :: iso_timestamp

record emergency_world =
  ew_controls :: "emergency_control list"
  ew_events :: "control_event list"

section \<open>Checks\<close>

definition require_role :: "emergency_principal \<Rightarrow> emergency_role \<Rightarrow> unit result" where
  "require_role p role = (if role \<notin> set (ep_roles p)
     then Inl (RegistryError CONFLICT (''missing required emergency role: '' @ role_text role)) else Inr ())"

definition check_control :: "interweave_id \<Rightarrow> control_kind \<Rightarrow> emergency_selector \<Rightarrow> string \<Rightarrow> unit result" where
  "check_control i kind s reason =
     (if \<not> starts_with i ''IW:EMERGENCY_CONTROL:'' \<or> blank reason
      then Inl (RegistryError INVALID_ARGUMENT ''control ID and reason are required'')
      else if kind = CONTROL_ASSET \<and> \<not> truthy (es_assetId s) \<or> kind = CONTROL_SOURCE_NETWORK \<and> \<not> truthy (es_sourceNetworkId s)
        \<or> kind = CONTROL_DESTINATION_NETWORK \<and> \<not> truthy (es_destinationNetworkId s)
        \<or> kind = CONTROL_BRIDGE_DIRECTION \<and> (\<not> truthy (es_sourceNetworkId s) \<or> \<not> truthy (es_destinationNetworkId s))
      then Inl (RegistryError INVALID_ARGUMENT (''selector is incomplete for '' @ kind_text kind))
      else Inr ())"

definition selects :: "interweave_id option \<Rightarrow> interweave_id option \<Rightarrow> bool" where
  "selects s x \<longleftrightarrow> \<not> (truthy s \<and> s \<noteq> x)"

fun kind_covers :: "control_kind \<Rightarrow> financial_action \<Rightarrow> bool" where
  "kind_covers CONTROL_MINT a \<longleftrightarrow> a = FIN_MINT"
| "kind_covers CONTROL_RELEASE a \<longleftrightarrow> a = FIN_RELEASE"
| "kind_covers CONTROL_SETTLEMENT a \<longleftrightarrow> a = FIN_SETTLEMENT"
| "kind_covers _ a \<longleftrightarrow> True"

definition control_matches :: "emergency_control \<Rightarrow> emergency_operation \<Rightarrow> bool" where
  "control_matches c x \<longleftrightarrow> selects (es_assetId (ec_selector c)) (es_assetId (eo_selector x))
     \<and> selects (es_sourceNetworkId (ec_selector c)) (es_sourceNetworkId (eo_selector x))
     \<and> selects (es_destinationNetworkId (ec_selector c)) (es_destinationNetworkId (eo_selector x))
     \<and> kind_covers (ec_kind c) (eo_action x)"

section \<open>The table\<close>

definition in_scope :: "emergency_principal \<Rightarrow> emergency_control \<Rightarrow> bool" where
  "in_scope p c \<longleftrightarrow> ec_organizationId c = ep_organizationId p \<and> ec_projectId c = ep_projectId p \<and> ec_environmentId c = ep_environmentId p"

definition control_list :: "emergency_principal \<Rightarrow> emergency_world \<Rightarrow> emergency_control list" where
  "control_list p w = filter (in_scope p) (ew_controls w)"

definition control_create :: "emergency_control \<Rightarrow> (emergency_world, emergency_control) comp" where
  "control_create c w =
     (if table_find ec_id (ec_id c) (ew_controls w) \<noteq> None
      then (Inl (RegistryError ALREADY_EXISTS ''emergency control already exists''), w)
      else (Inr c, w\<lparr>ew_controls := ew_controls w @ [c]\<rparr>))"

text \<open>\<open>UPDATE .. WHERE id = .. AND status = 'ACTIVE'\<close>\<close>

definition control_update :: "emergency_control \<Rightarrow> (emergency_world, emergency_control) comp" where
  "control_update c w =
     (case table_find ec_id (ec_id c) (ew_controls w) of
        Some old \<Rightarrow>
          if ec_status old = CONTROL_ACTIVE
          then (Inr c, w\<lparr>ew_controls := map (\<lambda>x. if ec_id x = ec_id c then c else x) (ew_controls w)\<rparr>)
          else (Inl (RegistryError CONFLICT ''emergency control is not active''), w)
      | None \<Rightarrow> (Inl (RegistryError CONFLICT ''emergency control is not active''), w))"

text \<open>The sink takes the event, or throws.\<close>

definition audit_event :: "unit result \<Rightarrow> control_event \<Rightarrow> (emergency_world, unit) comp" where
  "audit_event answer e w = (case answer of Inl x \<Rightarrow> (Inl x, w) | Inr _ \<Rightarrow> (Inr (), w\<lparr>ew_events := ew_events w @ [e]\<rparr>))"

section \<open>The service\<close>

definition activate_control ::
  "js_date \<Rightarrow> unit result \<Rightarrow> emergency_principal \<Rightarrow> interweave_id \<Rightarrow> control_kind \<Rightarrow> emergency_selector \<Rightarrow> string
     \<Rightarrow> (emergency_world, emergency_control) comp" where
  "activate_control now sink p i kind s reason =
     and_then (lift_result (require_role p EMERGENCY_OPERATOR)) (\<lambda>_.
     and_then (lift_result (check_control i kind s reason)) (\<lambda>_.
     and_then (iso_string now) (\<lambda>activatedAt.
     and_then (control_create \<lparr>ec_id = i, ec_organizationId = ep_organizationId p, ec_projectId = ep_projectId p,
       ec_environmentId = ep_environmentId p, ec_kind = kind, ec_selector = s, ec_status = CONTROL_ACTIVE, ec_reason = reason,
       ec_activatedBy = ep_subjectId p, ec_activatedAt = activatedAt, ec_liftedBy = None, ec_liftedAt = None\<rparr>) (\<lambda>stored.
     and_then (audit_event sink \<lparr>ev_controlId = ec_id stored, ev_actor = ep_subjectId p, ev_lifted = False, ev_kind = ec_kind stored,
       ev_selector = ec_selector stored, ev_reason = ec_reason stored, ev_occurredAt = ec_activatedAt stored\<rparr>) (\<lambda>_.
     ret stored)))))"

definition lift_control ::
  "js_date \<Rightarrow> unit result \<Rightarrow> emergency_principal \<Rightarrow> interweave_id \<Rightarrow> string \<Rightarrow> (emergency_world, emergency_control) comp" where
  "lift_control now sink p i reason =
     and_then (lift_result (require_role p EMERGENCY_ADMIN)) (\<lambda>_.
     if blank reason then throw (RegistryError INVALID_ARGUMENT ''lift reason is required'')
     else and_then (gets (\<lambda>w. find (\<lambda>x. ec_id x = i) (control_list p w))) (\<lambda>found.
       case found of
         None \<Rightarrow> throw (RegistryError NOT_FOUND (''emergency control not found: '' @ i))
       | Some current \<Rightarrow>
           if ec_status current = CONTROL_LIFTED then ret current
           else and_then (iso_string now) (\<lambda>liftedAt.
             and_then (control_update (current\<lparr>ec_status := CONTROL_LIFTED, ec_liftedBy := Some (ep_subjectId p),
               ec_liftedAt := Some liftedAt\<rparr>)) (\<lambda>stored.
             and_then (audit_event sink \<lparr>ev_controlId = i, ev_actor = ep_subjectId p, ev_lifted = True, ev_kind = ec_kind stored,
               ev_selector = ec_selector stored, ev_reason = reason, ev_occurredAt = liftedAt\<rparr>) (\<lambda>_.
             ret stored)))))"

definition assert_allowed :: "emergency_principal \<Rightarrow> emergency_operation \<Rightarrow> emergency_world \<Rightarrow> unit result" where
  "assert_allowed p x w =
     (let controls = filter (\<lambda>c. ec_status c = CONTROL_ACTIVE \<and> control_matches c x) (control_list p w) in
      if controls \<noteq> [] then Inl (RegistryError CONFLICT (''operation paused by emergency control: '' @ join '','' (map ec_id controls)))
      else Inr ())"

section \<open>Sequences of calls\<close>

datatype emergency_call =
    CallActivate js_date "unit result" emergency_principal interweave_id control_kind emergency_selector string
  | CallLift js_date "unit result" emergency_principal interweave_id string

fun emergency_serve :: "emergency_call \<Rightarrow> (emergency_world, emergency_control) comp" where
  "emergency_serve (CallActivate now sink p i kind s reason) = activate_control now sink p i kind s reason"
| "emergency_serve (CallLift now sink p i reason) = lift_control now sink p i reason"

definition emergency_run :: "emergency_call list \<Rightarrow> emergency_world \<Rightarrow> emergency_world" where
  "emergency_run cs w = fold (\<lambda>c w. snd (emergency_serve c w)) cs w"

text \<open>A lift of this control that the rules allow.\<close>

fun lifts :: "emergency_control \<Rightarrow> emergency_call \<Rightarrow> bool" where
  "lifts c (CallLift now sink p i reason) \<longleftrightarrow> i = ec_id c \<and> EMERGENCY_ADMIN \<in> set (ep_roles p) \<and> \<not> blank reason \<and> in_scope p c"
| "lifts c (CallActivate now sink p i kind s reason) \<longleftrightarrow> False"

definition distinct_controls :: "emergency_world \<Rightarrow> bool" where
  "distinct_controls w \<longleftrightarrow> distinct (map ec_id (ew_controls w))"

lemma activate_cases:
  assumes "activate_control now sink p i kind s reason w = (res, w')"
  shows "ew_controls w' = ew_controls w \<or> (\<exists>c. ec_id c = i \<and> ec_status c = CONTROL_ACTIVE \<and> in_scope p c \<and> i \<notin> ec_id ` set (ew_controls w)
    \<and> EMERGENCY_OPERATOR \<in> set (ep_roles p) \<and> ew_controls w' = ew_controls w @ [c])"
  using assms
  by (auto simp: activate_control_def and_then_def require_role_def iso_string_def control_create_def audit_event_def table_find_None
      in_scope_def split: sum.splits if_splits option.splits prod.splits)

lemma lift_cases:
  assumes "lift_control now sink p i reason w = (res, w')"
  shows "ew_controls w' = ew_controls w \<or> (\<exists>c d. c \<in> set (ew_controls w) \<and> ec_id c = i \<and> lifts c (CallLift now sink p i reason)
    \<and> d = c\<lparr>ec_status := CONTROL_LIFTED, ec_liftedBy := ec_liftedBy d, ec_liftedAt := ec_liftedAt d\<rparr>
    \<and> ew_controls w' = map (\<lambda>x. if ec_id x = i then d else x) (ew_controls w))"
proof (cases "EMERGENCY_ADMIN \<in> set (ep_roles p) \<and> \<not> blank reason \<and> find (\<lambda>x. ec_id x = i) (control_list p w) \<noteq> None \<and> now \<noteq> None")
  case False
  then show ?thesis
    using assms by (auto simp: lift_control_def and_then_def require_role_def iso_string_def split: if_splits option.splits)
next
  case True
  then obtain c t where c: "find (\<lambda>x. ec_id x = i) (control_list p w) = Some c" "now = Some t" by auto
  then have mem: "c \<in> set (ew_controls w)" "ec_id c = i" "in_scope p c"
    by (auto simp: find_Some_iff control_list_def dest: nth_mem)
  define d where "d = c\<lparr>ec_status := CONTROL_LIFTED, ec_liftedBy := Some (ep_subjectId p), ec_liftedAt := Some (to_iso_string t)\<rparr>"
  have "ew_controls w' = ew_controls w \<or> ew_controls w' = map (\<lambda>x. if ec_id x = i then d else x) (ew_controls w)"
    using assms True c mem(2) unfolding lift_control_def
    by (auto simp: and_then_def require_role_def iso_string_def control_update_def audit_event_def d_def
        split: if_splits option.splits sum.splits prod.splits)
  then show ?thesis
    using mem True by (elim disjE) (simp, intro disjI2 exI [of _ c] exI [of _ d], simp add: d_def)
qed


lemma serve_cases:
  assumes "emergency_serve call w = (res, w')"
  shows "ew_controls w' = ew_controls w
    \<or> (\<exists>c. ec_status c = CONTROL_ACTIVE \<and> ec_id c \<notin> ec_id ` set (ew_controls w) \<and> ew_controls w' = ew_controls w @ [c]
        \<and> (\<exists>now sink p kind s reason. call = CallActivate now sink p (ec_id c) kind s reason \<and> EMERGENCY_OPERATOR \<in> set (ep_roles p) \<and> in_scope p c))
    \<or> (\<exists>c d. c \<in> set (ew_controls w) \<and> lifts c call \<and> ec_id d = ec_id c \<and> (\<forall>p. in_scope p d \<longleftrightarrow> in_scope p c)
        \<and> ew_controls w' = map (\<lambda>x. if ec_id x = ec_id c then d else x) (ew_controls w))"
proof (cases call)
  case (CallActivate now sink p i kind s reason)
  then show ?thesis using activate_cases [of now sink p i kind s reason w res w'] assms by auto
next
  case (CallLift now sink p i reason)
  then consider "ew_controls w' = ew_controls w" | c d where "c \<in> set (ew_controls w)" "ec_id c = i" "lifts c call"
      "d = c\<lparr>ec_status := CONTROL_LIFTED, ec_liftedBy := ec_liftedBy d, ec_liftedAt := ec_liftedAt d\<rparr>"
      "ew_controls w' = map (\<lambda>x. if ec_id x = i then d else x) (ew_controls w)"
    using lift_cases [of now sink p i reason w res w'] assms by auto
  then show ?thesis
  proof cases
    case 2
    have "ec_id d = ec_id c" "in_scope q d \<longleftrightarrow> in_scope q c" for q
      by (subst 2(4), simp add: in_scope_def)+
    then show ?thesis using 2 by blast
  qed simp
qed

definition controls_ok :: "emergency_call list \<Rightarrow> emergency_world \<Rightarrow> bool" where
  "controls_ok cs w \<longleftrightarrow> distinct (map ec_id (ew_controls w)) \<and> (\<forall>c \<in> set (ew_controls w). \<exists>now sink p kind s reason.
     CallActivate now sink p (ec_id c) kind s reason \<in> set cs \<and> EMERGENCY_OPERATOR \<in> set (ep_roles p) \<and> in_scope p c)"

lemma serve_controls_ok:
  assumes "emergency_serve call w = (res, w')" "controls_ok cs w"
  shows "controls_ok (cs @ [call]) w'"
  using serve_cases [OF assms(1)]
proof (elim disjE exE conjE)
  assume "ew_controls w' = ew_controls w"
  then show ?thesis using assms(2) by (fastforce simp: controls_ok_def)
next
  fix c now sink p kind s reason
  assume "ec_id c \<notin> ec_id ` set (ew_controls w)" "ew_controls w' = ew_controls w @ [c]"
    "call = CallActivate now sink p (ec_id c) kind s reason" "EMERGENCY_OPERATOR \<in> set (ep_roles p)" "in_scope p c"
  then show ?thesis using assms(2) by (fastforce simp: controls_ok_def)
next
  fix c d assume a: "c \<in> set (ew_controls w)" "ec_id d = ec_id c" "\<forall>p. in_scope p d \<longleftrightarrow> in_scope p c"
    "ew_controls w' = map (\<lambda>x. if ec_id x = ec_id c then d else x) (ew_controls w)"
  have ids: "map ec_id (ew_controls w') = map ec_id (ew_controls w)" using a(2,4) by simp
  have from_old: "\<exists>y \<in> set (ew_controls w). ec_id y = ec_id x \<and> (\<forall>p. in_scope p x \<longleftrightarrow> in_scope p y)" if "x \<in> set (ew_controls w')" for x
    using that a by (auto split: if_splits)
  show ?thesis
    unfolding controls_ok_def
  proof (intro conjI ballI)
    show "distinct (map ec_id (ew_controls w'))" using ids assms(2) by (simp add: controls_ok_def)
  next
    fix x assume "x \<in> set (ew_controls w')"
    then obtain y where y: "y \<in> set (ew_controls w)" "ec_id y = ec_id x" "\<forall>p. in_scope p x \<longleftrightarrow> in_scope p y" using from_old by blast
    then obtain now sink p kind s reason where "CallActivate now sink p (ec_id y) kind s reason \<in> set cs"
        "EMERGENCY_OPERATOR \<in> set (ep_roles p)" "in_scope p y"
      using assms(2) unfolding controls_ok_def by blast
    then show "\<exists>now sink p kind s reason. CallActivate now sink p (ec_id x) kind s reason \<in> set (cs @ [call])
        \<and> EMERGENCY_OPERATOR \<in> set (ep_roles p) \<and> in_scope p x"
      using y by (intro exI [of _ now] exI [of _ sink] exI [of _ p] exI [of _ kind] exI [of _ s] exI [of _ reason]) simp
  qed
qed

lemma run_controls_ok: "controls_ok cs (emergency_run cs \<lparr>ew_controls = [], ew_events = []\<rparr>)"
proof (induction cs rule: rev_induct)
  case (snoc call cs)
  then show ?case
    using serve_controls_ok [of call "emergency_run cs \<lparr>ew_controls = [], ew_events = []\<rparr>"]
    by (cases "emergency_serve call (emergency_run cs \<lparr>ew_controls = [], ew_events = []\<rparr>)") (simp add: emergency_run_def)
qed (simp add: emergency_run_def controls_ok_def)

text \<open>Only a lift of a control changes it.\<close>

lemma serve_keeps:
  assumes "emergency_serve call w = (res, w')" "distinct_controls w" "c \<in> set (ew_controls w)" "\<not> lifts c call"
  shows "c \<in> set (ew_controls w') \<and> distinct_controls w'"
  using serve_cases [OF assms(1)]
proof (elim disjE exE conjE)
  fix b d assume a: "b \<in> set (ew_controls w)" "lifts b call" "ec_id d = ec_id b"
    "ew_controls w' = map (\<lambda>x. if ec_id x = ec_id b then d else x) (ew_controls w)"
  have "ec_id c \<noteq> ec_id b"
  proof
    assume "ec_id c = ec_id b"
    then have "c = b" using assms(2,3) a(1) by (auto simp: distinct_controls_def distinct_map dest: inj_onD)
    then show False using a(2) assms(4) by simp
  qed
  then have "c \<in> set (ew_controls w')" using assms(3) unfolding a(4) by force
  moreover have "map ec_id (ew_controls w') = map ec_id (ew_controls w)" using a(3,4) by simp
  ultimately show ?thesis using assms(2) by (simp add: distinct_controls_def)
qed (use assms(2,3) in \<open>auto simp: distinct_controls_def\<close>)

lemma run_keeps:
  assumes "distinct_controls w" "c \<in> set (ew_controls w)" "\<forall>call \<in> set cs. \<not> lifts c call"
  shows "c \<in> set (ew_controls (emergency_run cs w))"
  using assms
proof (induction cs arbitrary: w)
  case (Cons call cs)
  then show ?case
    using serve_keeps [of call w] by (cases "emergency_serve call w") (simp add: emergency_run_def)
qed (simp add: emergency_run_def)

text \<open>
  C37. The gate closes exactly what is paused, and stays closed. After any calls an operation is allowed exactly
  if no active control of the caller's tenant matches it; every control was activated by an operator of its
  tenant; and a control stays as it is, so goes on to stop every matching operation of its tenant, through any
  further calls unless one of them is a lift of it, with a reason, by an emergency admin of the same tenant.
\<close>

theorem pause_holds_until_lifted:
  "let w = emergency_run cs \<lparr>ew_controls = [], ew_events = []\<rparr> in
     (assert_allowed p x w = Inr () \<longleftrightarrow> (\<forall>c \<in> set (ew_controls w). \<not> (in_scope p c \<and> ec_status c = CONTROL_ACTIVE \<and> control_matches c x)))
     \<and> controls_ok cs w
     \<and> (\<forall>c \<in> set (ew_controls w). \<forall>later. (\<forall>call \<in> set later. \<not> lifts c call) \<longrightarrow>
          c \<in> set (ew_controls (emergency_run later w))
          \<and> (ec_status c = CONTROL_ACTIVE \<and> in_scope p c \<and> control_matches c x \<longrightarrow> (\<exists>e. assert_allowed p x (emergency_run later w) = Inl e)))"
proof -
  let ?w = "emergency_run cs \<lparr>ew_controls = [], ew_events = []\<rparr>"
  have ok: "controls_ok cs ?w" by (rule run_controls_ok)
  then have distinct: "distinct_controls ?w" by (simp add: controls_ok_def distinct_controls_def)
  have gate: "assert_allowed p x w = Inr () \<longleftrightarrow> (\<forall>c \<in> set (ew_controls w). \<not> (in_scope p c \<and> ec_status c = CONTROL_ACTIVE \<and> control_matches c x))" for w
    by (auto simp: assert_allowed_def Let_def control_list_def filter_empty_conv)
  have "\<exists>e. assert_allowed p x w = Inl e" if "c \<in> set (ew_controls w)" "ec_status c = CONTROL_ACTIVE" "in_scope p c" "control_matches c x" for c w
    using gate [of w] that by (cases "assert_allowed p x w") auto
  then show ?thesis unfolding Let_def using ok gate [of ?w] run_keeps [OF distinct] by blast
qed

section \<open>An example, and a lost audit event\<close>

definition example_operator :: emergency_principal where
  "example_operator = \<lparr>ep_subjectId = ''o'', ep_roles = [EMERGENCY_OPERATOR], ep_organizationId = ''IW:ORGANIZATION:o'',
     ep_projectId = ''IW:PROJECT:p'', ep_environmentId = ''IW:ENVIRONMENT:e''\<rparr>"

abbreviation mint_pause :: "unit result \<Rightarrow> emergency_call" where
  "mint_pause sink \<equiv> CallActivate (Some 0) sink example_operator ''IW:EMERGENCY_CONTROL:1'' CONTROL_MINT
     \<lparr>es_assetId = Some ''a'', es_sourceNetworkId = None, es_destinationNetworkId = None\<rparr> ''incident''"

abbreviation paused_control :: emergency_control where
  "paused_control \<equiv> \<lparr>ec_id = ''IW:EMERGENCY_CONTROL:1'', ec_organizationId = ''IW:ORGANIZATION:o'', ec_projectId = ''IW:PROJECT:p'',
     ec_environmentId = ''IW:ENVIRONMENT:e'', ec_kind = CONTROL_MINT,
     ec_selector = \<lparr>es_assetId = Some ''a'', es_sourceNetworkId = None, es_destinationNetworkId = None\<rparr>, ec_status = CONTROL_ACTIVE,
     ec_reason = ''incident'', ec_activatedBy = ''o'', ec_activatedAt = to_iso_string 0, ec_liftedBy = None, ec_liftedAt = None\<rparr>"

lemma mint_paused:
  "ew_controls (emergency_run [mint_pause (Inr ())] \<lparr>ew_controls = [], ew_events = []\<rparr>) = [paused_control]"
  by (simp add: emergency_run_def activate_control_def and_then_def require_role_def example_operator_def check_control_def
      starts_with_def blank_iff js_space_def iso_string_def control_create_def table_find_def audit_event_def)

abbreviation mint_of :: "string \<Rightarrow> emergency_operation" where
  "mint_of a \<equiv> \<lparr>eo_action = FIN_MINT, eo_selector = \<lparr>es_assetId = Some a, es_sourceNetworkId = None, es_destinationNetworkId = None\<rparr>\<rparr>"

theorem pause_holds_until_lifted_witness:
  "let w = emergency_run [mint_pause (Inr ())] \<lparr>ew_controls = [], ew_events = []\<rparr> in
     (\<exists>e. assert_allowed example_operator (mint_of ''a'') (emergency_run [mint_pause (Inr ())] w) = Inl e)
     \<and> assert_allowed example_operator (mint_of ''b'') w = Inr ()"
proof -
  let ?w = "emergency_run [mint_pause (Inr ())] \<lparr>ew_controls = [], ew_events = []\<rparr>"
  have "control_matches paused_control (mint_of ''a'')" "\<not> control_matches paused_control (mint_of ''b'')" "in_scope example_operator paused_control"
    by (simp_all add: control_matches_def selects_def truthy_def in_scope_def example_operator_def)
  then show ?thesis
    using pause_holds_until_lifted [of "[mint_pause (Inr ())]" example_operator "mint_of ''a''"]
      pause_holds_until_lifted [of "[mint_pause (Inr ())]" example_operator "mint_of ''b''"]
    unfolding Let_def mint_paused by fastforce
qed

text \<open>When the sink fails, the control is stored all the same, and a retry is refused: its event is never recorded.\<close>

lemma activation_event_lost:
  "let w = emergency_run [mint_pause (Inl (Error ''down'')), mint_pause (Inr ())] \<lparr>ew_controls = [], ew_events = []\<rparr> in
     ew_controls w = [paused_control] \<and> ew_events w = []"
  by (simp add: emergency_run_def activate_control_def and_then_def require_role_def example_operator_def check_control_def
      starts_with_def blank_iff js_space_def iso_string_def control_create_def table_find_def audit_event_def)

end
