(* ===== verification/Canton_Grpc.thy ===== *)
theory Canton_Grpc
  imports Canton_Adapter Js_Date
begin

text \<open>
  The Ledger API transport of packages/core/src/canton-grpc-transport.ts: the requests it sends, what it
  makes of the answers, and how it fills the transport interface of the Canton adapter. The generated gRPC
  clients are outside the program: functions from a request to an answer. Messages are JSON values, as the
  protobuf loader decodes them: only own properties are read, and an object has no \<open>toString\<close> of its own. The
  text of a value that JSON does not hold (a non-finite number, a symbol) is the parameter \<open>tx\<close>.
\<close>

section \<open>Untyped values\<close>

abbreviation nullish :: "json \<Rightarrow> bool" where
  "nullish v \<equiv> v = JsUndefined \<or> v = JsNull"

text \<open>\<open>a ?? b\<close>\<close>

definition coalesce :: "json \<Rightarrow> json \<Rightarrow> json" where
  "coalesce a b = (if nullish a then b else a)"

definition js_truthy :: "json \<Rightarrow> bool" where
  "js_truthy v \<longleftrightarrow> (case v of JsNull \<Rightarrow> False | JsUndefined \<Rightarrow> False | JsBool b \<Rightarrow> b | JsString s \<Rightarrow> s \<noteq> []
     | JsNumber (Some t) \<Rightarrow> t \<noteq> ''0'' | JsNumber None \<Rightarrow> False | _ \<Rightarrow> True)"

text \<open>\<open>objectOf\<close>: an array is an object with its indices as keys.\<close>

definition object_of :: "json \<Rightarrow> (string \<times> json) list" where
  "object_of v = (case v of JsObject fs \<Rightarrow> fs | JsArray vs \<Rightarrow> zip (map nat_to_string [0..<length vs]) vs | _ \<Rightarrow> [])"

definition field_of :: "string \<Rightarrow> (string \<times> json) list \<Rightarrow> json" where
  "field_of k fs = (case map_of fs k of None \<Rightarrow> JsUndefined | Some v \<Rightarrow> v)"

definition array_of :: "json \<Rightarrow> json list" where
  "array_of v = (case v of JsArray vs \<Rightarrow> vs | _ \<Rightarrow> [])"

text \<open>\<open>String(value)\<close>\<close>

fun js_text :: "(json \<Rightarrow> string) \<Rightarrow> json \<Rightarrow> string" where
  "js_text tx JsNull = ''null''"
| "js_text tx JsUndefined = ''undefined''"
| "js_text tx (JsString s) = s"
| "js_text tx (JsBool b) = (if b then ''true'' else ''false'')"
| "js_text tx (JsNumber (Some t)) = t"
| "js_text tx (JsNumber None) = tx (JsNumber None)"
| "js_text tx (JsArray vs) = join '','' (map (\<lambda>v. if nullish v then [] else js_text tx v) vs)"
| "js_text tx (JsObject fs) = ''[object Object]''"
| "js_text tx (JsOther t) = tx (JsOther t)"

definition string_of :: "(json \<Rightarrow> string) \<Rightarrow> json \<Rightarrow> string" where
  "string_of tx v = (if nullish v then [] else js_text tx v)"

definition optional_string :: "(json \<Rightarrow> string) \<Rightarrow> json \<Rightarrow> string option" where
  "optional_string tx v = (let s = string_of tx v in if s = [] then None else Some s)"

definition offset_of :: "(json \<Rightarrow> string) \<Rightarrow> (string \<times> json) list \<Rightarrow> string option" where
  "offset_of tx fs = optional_string tx (coalesce (coalesce (field_of ''offset'' fs) (field_of ''ledgerEnd'' fs)) (field_of ''completionOffset'' fs))"

definition compact_fields :: "(string \<times> json) list \<Rightarrow> (string \<times> json) list" where
  "compact_fields fs = filter (\<lambda>(_, v). v \<noteq> JsUndefined) fs"

section \<open>Options and clients\<close>

datatype ledger_service = VERSION_SERVICE | STATE_SERVICE | PARTY_MANAGEMENT_SERVICE | COMMAND_SUBMISSION_SERVICE | UPDATE_SERVICE

fun default_service :: "ledger_service \<Rightarrow> string" where
  "default_service VERSION_SERVICE = ''com.daml.ledger.api.v2.VersionService''"
| "default_service STATE_SERVICE = ''com.daml.ledger.api.v2.StateService''"
| "default_service PARTY_MANAGEMENT_SERVICE = ''com.daml.ledger.api.v2.admin.PartyManagementService''"
| "default_service COMMAND_SUBMISSION_SERVICE = ''com.daml.ledger.api.v2.CommandSubmissionService''"
| "default_service UPDATE_SERVICE = ''com.daml.ledger.api.v2.UpdateService''"

datatype grpc_code = GRPC_INVALID_ARGUMENT | GRPC_NOT_FOUND | GRPC_ALREADY_EXISTS | GRPC_PERMISSION_DENIED
  | GRPC_FAILED_PRECONDITION | GRPC_UNAVAILABLE | GRPC_OTHER_CODE nat

text \<open>What a call rejects with: a service error has a code, any other error has none.\<close>

record grpc_failure =
  gf_code :: "grpc_code option"
  gf_message :: string

text \<open>
  A client answers a unary call, or a stream of messages that may end in a failure; \<open>None\<close> is a method it does
  not implement. The last argument is the authorization metadata.
\<close>

record grpc_clients =
  gc_unary :: "ledger_service \<Rightarrow> string \<Rightarrow> json \<Rightarrow> string option \<Rightarrow> (grpc_failure + json) option"
  gc_stream :: "ledger_service \<Rightarrow> string \<Rightarrow> json \<Rightarrow> string option \<Rightarrow> (json list \<times> grpc_failure option) option"

record grpc_options =
  gp_endpoint :: string
  gp_networkId :: interweave_id
  gp_participantId :: string
  gp_authorizedParties :: "string list"
  gp_userId :: string
  gp_token :: "string option"

definition check_grpc_options :: "grpc_options \<Rightarrow> unit result" where
  "check_grpc_options o' =
     (if blank (gp_endpoint o') then Inl (Error ''Canton gRPC endpoint is required'')
      else if blank (gp_userId o') then Inl (Error ''Canton Ledger API userId is required'')
      else if gp_authorizedParties o' = [] then Inl (Error ''at least one authorized Canton party is required'')
      else Inr ())"

definition grpc_metadata :: "grpc_options \<Rightarrow> string option" where
  "grpc_metadata o' = (if truthy (gp_token o') then Some (''Bearer '' @ the (gp_token o')) else None)"

definition missing_method :: "string \<Rightarrow> grpc_failure" where
  "missing_method m = \<lparr>gf_code = None, gf_message = ''Ledger API client does not implement '' @ m\<rparr>"

definition unary :: "grpc_options \<Rightarrow> grpc_clients \<Rightarrow> ledger_service \<Rightarrow> string \<Rightarrow> json \<Rightarrow> grpc_failure + json" where
  "unary o' g s m request =
     (case gc_unary g s m request (grpc_metadata o') of
        None \<Rightarrow> Inl (missing_method m)
      | Some (Inl f) \<Rightarrow> Inl f
      | Some (Inr v) \<Rightarrow> Inr (coalesce v (JsObject [])))"

definition server_stream :: "grpc_options \<Rightarrow> grpc_clients \<Rightarrow> ledger_service \<Rightarrow> string \<Rightarrow> json \<Rightarrow> json list \<times> grpc_failure option" where
  "server_stream o' g s m request =
     (case gc_stream g s m request (grpc_metadata o') of None \<Rightarrow> ([], Some (missing_method m)) | Some r \<Rightarrow> r)"

text \<open>The error as the callers of the transport see it.\<close>

definition thrown :: "grpc_failure \<Rightarrow> error" where
  "thrown f = Error (gf_message f)"

section \<open>Requests\<close>

text \<open>\<open>const [a = "", b = "", c = ""] = id.split(":")\<close>\<close>

definition parse_identifier :: "string \<Rightarrow> json" where
  "parse_identifier i = (let parts = split_on (CHR '':'') i; part = (\<lambda>n. if n < length parts then parts ! n else []) in
     JsObject [(''packageId'', JsString (part 0)), (''moduleName'', JsString (part 1)), (''entityName'', JsString (part 2))])"

definition event_format :: "string list \<Rightarrow> string list option \<Rightarrow> json" where
  "event_format parties interfaces =
     (let cumulative = (case interfaces of None \<Rightarrow> JsObject [] | Some is \<Rightarrow>
          if is = [] then JsObject []
          else JsObject [(''interfaceFilters'', JsArray (map (\<lambda>i. JsObject [(''interfaceId'', parse_identifier i),
            (''includeInterfaceView'', JsBool True), (''includeCreatedEventBlob'', JsBool False)]) is))])
      in JsObject [(''filtersByParty'', JsObject (map (\<lambda>p. (p, JsObject [(''cumulative'', JsArray [cumulative])])) (js_set parties)))])"

definition transaction_format :: "string list \<Rightarrow> string list option \<Rightarrow> json" where
  "transaction_format parties interfaces =
     JsObject [(''eventFormat'', event_format parties interfaces), (''transactionShape'', JsString ''TRANSACTION_SHAPE_ACS_DELTA'')]"

definition optional_json :: "string option \<Rightarrow> json" where
  "optional_json s = (case s of None \<Rightarrow> JsUndefined | Some t \<Rightarrow> JsString t)"

text \<open>The opaque command cannot set the command id, the user or the acting parties.\<close>

definition grpc_command :: "grpc_options \<Rightarrow> prepared_canton_transfer \<Rightarrow> (string \<times> json) list" where
  "grpc_command o' prepared =
     map_set ''actAs'' (JsArray (map JsString (pt_requiredActAs prepared)))
     (map_set ''userId'' (JsString (gp_userId o')) (map_set ''commandId'' (JsString (pt_commandId prepared))
       (object_of (pt_opaqueCommand prepared))))"

section \<open>Events\<close>

fun join_nonempty :: "string list \<Rightarrow> string" where
  "join_nonempty ss = join '':'' (filter (\<lambda>s. s \<noteq> []) ss)"

definition normalize_event :: "(json \<Rightarrow> string) \<Rightarrow> (string \<times> json) list \<Rightarrow> (string \<times> json) list \<Rightarrow> canton_event" where
  "normalize_event tx wrapper txn =
     (let raw = object_of (coalesce (coalesce (coalesce (field_of ''created'' wrapper) (field_of ''archived'' wrapper)) (field_of ''reassigned'' wrapper))
            (JsObject wrapper));
          kind = (if js_truthy (field_of ''archived'' wrapper) then EVENT_ARCHIVED
            else if js_truthy (field_of ''reassigned'' wrapper) then EVENT_REASSIGNED else EVENT_CREATED);
          i = object_of (coalesce (field_of ''templateId'' raw) (field_of ''interfaceId'' raw))
      in \<lparr>cv_offset = (case offset_of tx raw of Some x \<Rightarrow> x | None \<Rightarrow> or_else (offset_of tx txn) ''0''),
          cv_transactionId = string_of tx (coalesce (coalesce (field_of ''updateId'' txn) (field_of ''transactionId'' txn))
            (field_of ''updateId'' raw)),
          cv_kind = kind,
          cv_templateOrInterfaceId = join_nonempty (map (string_of tx) [field_of ''packageId'' i, field_of ''moduleName'' i, field_of ''entityName'' i]),
          cv_payload = coalesce (coalesce (field_of ''createArguments'' raw) (field_of ''interfaceView'' raw)) (JsObject raw),
          cv_witnessedBy = map (string_of tx) (array_of (coalesce (field_of ''witnessParties'' raw) (field_of ''witnessedBy'' raw)))\<rparr>)"

definition events_from_update :: "(json \<Rightarrow> string) \<Rightarrow> json \<Rightarrow> canton_event list" where
  "events_from_update tx response =
     (let update = object_of (coalesce (field_of ''update'' (object_of response)) response);
          txn = object_of (coalesce (field_of ''transaction'' update) (JsObject update))
      in map (\<lambda>e. normalize_event tx (object_of e) txn) (array_of (field_of ''events'' txn)))"

definition events_from_active_contracts :: "(json \<Rightarrow> string) \<Rightarrow> json \<Rightarrow> canton_event list" where
  "events_from_active_contracts tx response =
     (let workflow = object_of (coalesce (coalesce (field_of ''activeContract'' (object_of response)) (field_of ''contractEntry'' (object_of response))) response);
          created = object_of (coalesce (field_of ''createdEvent'' workflow) (JsObject workflow))
      in if created \<noteq> [] then [normalize_event tx [(''created'', JsObject created)] (object_of response)] else [])"

definition matches_predicate :: "(json \<Rightarrow> string) \<Rightarrow> json \<Rightarrow> string_record option \<Rightarrow> bool" where
  "matches_predicate tx payload predicate \<longleftrightarrow> (case predicate of None \<Rightarrow> True
     | Some ps \<Rightarrow> list_all (\<lambda>(k, v). js_text tx (field_of k (object_of payload)) = v) ps)"

section \<open>The calls\<close>

definition grpc_connect :: "grpc_options \<Rightarrow> grpc_clients \<Rightarrow> js_date \<Rightarrow> canton_connection result" where
  "grpc_connect o' g now =
     (case unary o' g VERSION_SERVICE ''getLedgerApiVersion'' (JsObject []) of
        Inl f \<Rightarrow> Inl (thrown f)
      | Inr _ \<Rightarrow> (case now of None \<Rightarrow> Inl (Error ''Invalid time value'')
          | Some t \<Rightarrow> Inr \<lparr>cn_networkId = gp_networkId o', cn_participantId = gp_participantId o',
              cn_authorizedParties = gp_authorizedParties o', cn_connectedAt = to_iso_string t\<rparr>))"

text \<open>Of two failures the first to arrive counts; the model takes that of the version call.\<close>

definition grpc_health :: "(json \<Rightarrow> string) \<Rightarrow> grpc_options \<Rightarrow> grpc_clients \<Rightarrow> js_date \<Rightarrow> canton_health result" where
  "grpc_health tx o' g now =
     (case now of None \<Rightarrow> Inl (Error ''Invalid time value'')
      | Some t \<Rightarrow>
          let failed = (\<lambda>f. \<lparr>hl_status = (if gf_code f = Some GRPC_UNAVAILABLE then CANTON_UNAVAILABLE else CANTON_DEGRADED),
                hl_participantId = Some (gp_participantId o'), hl_ledgerEnd = None, hl_checkedAt = to_iso_string t,
                hl_details = [(''endpoint'', gp_endpoint o'), (''error'', gf_message f)]\<rparr>)
          in case unary o' g VERSION_SERVICE ''getLedgerApiVersion'' (JsObject []) of
               Inl f \<Rightarrow> Inr (failed f)
             | Inr version \<Rightarrow>
                 (case unary o' g STATE_SERVICE ''getLedgerEnd'' (JsObject []) of
                    Inl f \<Rightarrow> Inr (failed f)
                  | Inr ledgerEnd \<Rightarrow> Inr \<lparr>hl_status = CANTON_HEALTHY, hl_participantId = Some (gp_participantId o'),
                      hl_ledgerEnd = offset_of tx (object_of ledgerEnd), hl_checkedAt = to_iso_string t,
                      hl_details = [(''endpoint'', gp_endpoint o'),
                        (''ledgerApiVersion'', string_of tx (field_of ''version'' (object_of version)))]\<rparr>))"

definition party_entries :: "json \<Rightarrow> json list" where
  "party_entries response = array_of (coalesce (field_of ''partyDetails'' (object_of response)) (field_of ''parties'' (object_of response)))"

definition party_names :: "(json \<Rightarrow> string) \<Rightarrow> json \<Rightarrow> string list" where
  "party_names tx response = map (\<lambda>e. string_of tx (field_of ''party'' (object_of e))) (party_entries response)"

definition grpc_resolve_party :: "(json \<Rightarrow> string) \<Rightarrow> grpc_options \<Rightarrow> grpc_clients \<Rightarrow> string \<Rightarrow> string option result" where
  "grpc_resolve_party tx o' g hint =
     (case unary o' g PARTY_MANAGEMENT_SERVICE ''listKnownParties''
          (JsObject [(''pageSize'', JsNumber (Some ''1000'')), (''identityProviderId'', JsString [])]) of
        Inl f \<Rightarrow> Inl (thrown f)
      | Inr response \<Rightarrow>
          let matched = filter (\<lambda>p. p = hint \<or> starts_with p (hint @ ''::'')) (party_names tx response) in
          case find (\<lambda>e. string_of tx (field_of ''party'' (object_of e)) = hint) (party_entries response) of
            Some e \<Rightarrow> Inr (if js_truthy e then Some hint else if length matched = 1 then Some (hd matched) else None)
          | None \<Rightarrow> Inr (if length matched = 1 then Some (hd matched) else None))"

definition rejection_codes :: "grpc_code option set" where
  "rejection_codes = {Some GRPC_INVALID_ARGUMENT, Some GRPC_PERMISSION_DENIED, Some GRPC_FAILED_PRECONDITION, Some GRPC_ALREADY_EXISTS}"

definition grpc_submit :: "grpc_options \<Rightarrow> grpc_clients \<Rightarrow> prepared_canton_transfer \<Rightarrow> canton_submission result" where
  "grpc_submit o' g prepared =
     (case unary o' g COMMAND_SUBMISSION_SERVICE ''submit'' (JsObject [(''commands'', JsObject (grpc_command o' prepared))]) of
        Inr _ \<Rightarrow> Inr \<lparr>sm_commandId = pt_commandId prepared, sm_externalTransactionId = None, sm_status = CANTON_SUBMITTED,
          sm_rejectionReason = None\<rparr>
      | Inl f \<Rightarrow>
          if gf_code f \<in> rejection_codes
          then Inr \<lparr>sm_commandId = pt_commandId prepared, sm_externalTransactionId = None, sm_status = CANTON_REJECTED,
            sm_rejectionReason = Some (gf_message f)\<rparr>
          else Inl (thrown f))"

definition grpc_observe ::
  "(json \<Rightarrow> string) \<Rightarrow> grpc_options \<Rightarrow> grpc_clients \<Rightarrow> js_date \<Rightarrow> string \<Rightarrow> string list \<Rightarrow> canton_transaction_observation result" where
  "grpc_observe tx o' g now i parties =
     (case unary o' g UPDATE_SERVICE ''getTransactionById''
          (JsObject [(''updateId'', JsString i), (''transactionFormat'', transaction_format parties None)]) of
        Inr response \<Rightarrow>
          let txn = object_of (coalesce (field_of ''transaction'' (object_of response)) response) in
          (case now of None \<Rightarrow> Inl (Error ''Invalid time value'')
           | Some t \<Rightarrow> Inr \<lparr>to_externalTransactionId = i, to_status = COMMITTED, to_completionOffset = offset_of tx txn,
               to_synchronizerId = optional_string tx (field_of ''synchronizerId'' txn),
               to_observedByParticipant = gp_participantId o', to_observedAt = to_iso_string t\<rparr>)
      | Inl f \<Rightarrow>
          if gf_code f = Some GRPC_NOT_FOUND
          then (case now of None \<Rightarrow> Inl (Error ''Invalid time value'')
            | Some t \<Rightarrow> Inr \<lparr>to_externalTransactionId = i, to_status = OBSERVED_UNKNOWN, to_completionOffset = None, to_synchronizerId = None,
                to_observedByParticipant = gp_participantId o', to_observedAt = to_iso_string t\<rparr>)
          else Inl (thrown f))"

text \<open>The events a subscription yields before its stream ends, and how it ends.\<close>

definition grpc_subscribe ::
  "(json \<Rightarrow> string) \<Rightarrow> grpc_options \<Rightarrow> grpc_clients \<Rightarrow> string list \<Rightarrow> string option \<Rightarrow> string list option \<Rightarrow> canton_event list \<times> grpc_failure option" where
  "grpc_subscribe tx o' g parties beginExclusive interfaces =
     (let (messages, failure) = server_stream o' g UPDATE_SERVICE ''getUpdates''
        (JsObject (compact_fields [(''beginExclusive'', optional_json beginExclusive), (''updateFormat'', transaction_format parties interfaces)]))
      in (concat (map (events_from_update tx) messages), failure))"

definition grpc_query_state :: "(json \<Rightarrow> string) \<Rightarrow> grpc_options \<Rightarrow> grpc_clients \<Rightarrow> canton_state_query \<Rightarrow> canton_event list result" where
  "grpc_query_state tx o' g query =
     (let (messages, failure) = server_stream o' g STATE_SERVICE ''getActiveContracts''
        (JsObject (compact_fields [(''activeAtOffset'', optional_json (qy_activeAtOffset query)),
          (''eventFormat'', event_format (qy_parties query) (Some [qy_interfaceId query]))]))
      in case failure of
           Some f \<Rightarrow> Inl (thrown f)
         | None \<Rightarrow> Inr (filter (\<lambda>e. matches_predicate tx (cv_payload e) (qy_predicate query))
             (concat (map (events_from_active_contracts tx) messages))))"

text \<open>The transport at one time, as the adapter uses it.\<close>

definition grpc_transport :: "(json \<Rightarrow> string) \<Rightarrow> grpc_options \<Rightarrow> grpc_clients \<Rightarrow> js_date \<Rightarrow> canton_transport" where
  "grpc_transport tx o' g now = \<lparr>tr_connect = grpc_connect o' g now, tr_resolveParty = grpc_resolve_party tx o' g,
     tr_submit = grpc_submit o' g, tr_observeTransaction = grpc_observe tx o' g now, tr_queryState = grpc_query_state tx o' g\<rparr>"

section \<open>What the transport sends\<close>

lemma coalesce_simps [simp]:
  "coalesce JsNull b = b" "coalesce JsUndefined b = b" "\<not> nullish a \<Longrightarrow> coalesce a b = a"
  by (simp_all add: coalesce_def)

lemma field_of_map_set [simp]: "field_of k (map_set k' v fs) = (if k = k' then v else field_of k fs)"
  by (simp add: field_of_def)

lemma command_fields [simp]:
  "field_of ''actAs'' (grpc_command o' prepared) = JsArray (map JsString (pt_requiredActAs prepared))"
  "field_of ''userId'' (grpc_command o' prepared) = JsString (gp_userId o')"
  "field_of ''commandId'' (grpc_command o' prepared) = JsString (pt_commandId prepared)"
  by (simp_all add: grpc_command_def)

abbreviation other_fields :: "(string \<times> json) list \<Rightarrow> (string \<times> json) list" where
  "other_fields fs \<equiv> filter (\<lambda>(k, _). k \<notin> {''actAs'', ''userId'', ''commandId''}) fs"

lemma other_fields_set: "k \<in> {''actAs'', ''userId'', ''commandId''} \<Longrightarrow> other_fields (map_set k v fs) = other_fields fs"
  by (induction fs) auto

lemma command_other_fields: "other_fields (grpc_command o' prepared) = other_fields (object_of (pt_opaqueCommand prepared))"
  unfolding grpc_command_def by (simp only: other_fields_set insertI1 insertI2)

definition sends :: "grpc_options \<Rightarrow> grpc_clients \<Rightarrow> prepared_canton_transfer \<Rightarrow> grpc_failure + json" where
  "sends o' g prepared = unary o' g COMMAND_SUBMISSION_SERVICE ''submit'' (JsObject [(''commands'', JsObject (grpc_command o' prepared))])"

lemma submit_Inr_iff:
  "grpc_submit o' g prepared = Inr x \<longleftrightarrow>
     sm_commandId x = pt_commandId prepared \<and> sm_externalTransactionId x = None
     \<and> (sm_status x = CANTON_SUBMITTED \<and> sm_rejectionReason x = None \<and> (\<exists>v. sends o' g prepared = Inr v)
        \<or> sm_status x = CANTON_REJECTED
          \<and> (\<exists>f. sends o' g prepared = Inl f \<and> gf_code f \<in> rejection_codes \<and> sm_rejectionReason x = Some (gf_message f)))"
  by (cases x) (auto simp: grpc_submit_def sends_def [symmetric] split: sum.split)

lemma connect_Inr:
  assumes "canton_connect (grpc_transport tx o' g now) c0 = (Inr cn, c)"
  shows "cl_connection c = Some cn \<and> cn_authorizedParties cn = gp_authorizedParties o'
    \<and> cn_networkId cn = gp_networkId o' \<and> cn_participantId cn = gp_participantId o'"
  using assms by (auto simp: canton_connect_def and_then_def lift_result_def modify_def ret_def grpc_transport_def grpc_connect_def
      split: sum.splits option.splits)

lemma listed_party:
  "find (\<lambda>e. string_of tx (field_of ''party'' (object_of e)) = hint) (party_entries response) = Some e \<Longrightarrow>
     hint \<in> set (party_names tx response)"
  by (auto simp: party_names_def find_Some_iff image_iff)

text \<open>The party a hint resolves to is one the ledger listed, under the hint itself or the only one in its namespace.\<close>

lemma resolved_party_is_listed:
  assumes "grpc_resolve_party tx o' g hint = Inr (Some p)"
  shows "\<exists>response. unary o' g PARTY_MANAGEMENT_SERVICE ''listKnownParties''
      (JsObject [(''pageSize'', JsNumber (Some ''1000'')), (''identityProviderId'', JsString [])]) = Inr response
    \<and> p \<in> set (party_names tx response)
    \<and> (p = hint \<or> filter (\<lambda>q. q = hint \<or> starts_with q (hint @ ''::'')) (party_names tx response) = [p])"
proof -
  let ?only = "\<lambda>response. filter (\<lambda>q. q = hint \<or> starts_with q (hint @ ''::'')) (party_names tx response)"
  have only: "p \<in> set (party_names tx response) \<and> ?only response = [p]"
    if "length (?only response) = Suc 0" "hd (?only response) = p" for response
  proof -
    from that have single: "?only response = [p]" by (cases "?only response") auto
    have "set (?only response) \<subseteq> set (party_names tx response)" by (rule filter_is_subset)
    with single show ?thesis by (simp only: list.set insert_subset simp_thms)
  qed
  show ?thesis
    using assms by (auto simp: grpc_resolve_party_def Let_def split: sum.splits option.splits if_splits dest: only listed_party)
qed

section \<open>Events\<close>

text \<open>
  An update whose transaction stands in its \<open>update\<close> object yields one event per entry; but the protobuf loader runs
  with \<open>oneofs: true\<close>, which sets \<open>update\<close> to the name of the chosen member, and such an update yields none.
\<close>

lemma nested_update_events:
  "events_from_update tx (JsObject [(''update'', JsObject [(''transaction'', JsObject ((''events'', JsArray es) # fs))])]) =
     map (\<lambda>e. normalize_event tx (object_of e) ((''events'', JsArray es) # fs)) es"
  by (simp add: events_from_update_def field_of_def object_of_def array_of_def)

lemma oneof_update_dropped:
  "events_from_update tx (JsObject [(''transaction'', t), (''update'', JsString ''transaction'')]) = []"
  by (simp add: events_from_update_def field_of_def object_of_def array_of_def)

lemma created_event:
  assumes "field_of ''createArguments'' raw = JsObject payload"
  shows "cv_kind (normalize_event tx [(''created'', JsObject raw)] txn) = EVENT_CREATED
    \<and> cv_payload (normalize_event tx [(''created'', JsObject raw)] txn) = JsObject payload"
  using assms by (simp add: normalize_event_def Let_def object_of_def field_of_def js_truthy_def)

text \<open>A query returns only events whose payload carries every asked value.\<close>

lemma query_matches:
  assumes "grpc_query_state tx o' g query = Inr events" "e \<in> set events" "qy_predicate query = Some ps" "(k, v) \<in> set ps"
  shows "js_text tx (field_of k (object_of (cv_payload e))) = v"
  using assms by (auto simp: grpc_query_state_def matches_predicate_def list_all_iff split: prod.splits option.splits)

section \<open>Through the adapter\<close>

text \<open>
  C38. A transfer that the connected adapter hands to the Ledger API transport acts as exactly the parties the
  prepared transfer requires, all of them configured as authorised and the sender among them; whatever the opaque
  command says, it carries the transfer's command id and the transport's user, and the rest of the opaque command as
  it is. It is reported as submitted exactly when the ledger took it, and as rejected only for one of the four codes
  by which the ledger refuses a command for good; any other failure is an error, never a rejection.
\<close>

theorem grpc_acts_only_as_authorised:
  assumes "canton_connect (grpc_transport tx o' g now) c0 = (Inr cn, c)"
    and "canton_execute_transfer (grpc_transport tx o' g later) c prepared = Inr x"
  shows "set (pt_requiredActAs prepared) \<subseteq> set (gp_authorizedParties o')
    \<and> rq_sender (pt_request prepared) \<in> set (pt_requiredActAs prepared)
    \<and> field_of ''actAs'' (grpc_command o' prepared) = JsArray (map JsString (pt_requiredActAs prepared))
    \<and> field_of ''userId'' (grpc_command o' prepared) = JsString (gp_userId o')
    \<and> field_of ''commandId'' (grpc_command o' prepared) = JsString (pt_commandId prepared)
    \<and> other_fields (grpc_command o' prepared) = other_fields (object_of (pt_opaqueCommand prepared))
    \<and> (case unary o' g COMMAND_SUBMISSION_SERVICE ''submit'' (JsObject [(''commands'', JsObject (grpc_command o' prepared))]) of
         Inr v \<Rightarrow> x = \<lparr>sm_commandId = pt_commandId prepared, sm_externalTransactionId = None,
           sm_status = CANTON_SUBMITTED, sm_rejectionReason = None\<rparr>
       | Inl f \<Rightarrow> x = \<lparr>sm_commandId = pt_commandId prepared, sm_externalTransactionId = None,
           sm_status = CANTON_REJECTED, sm_rejectionReason = Some (gf_message f)\<rparr> \<and> gf_code f \<in> rejection_codes)"
proof -
  note reached = execute_reaches_transport [OF assms(2)]
  from reached have "grpc_submit o' g prepared = Inr x" by (simp add: grpc_transport_def)
  then have sent: "case unary o' g COMMAND_SUBMISSION_SERVICE ''submit'' (JsObject [(''commands'', JsObject (grpc_command o' prepared))]) of
         Inr v \<Rightarrow> x = \<lparr>sm_commandId = pt_commandId prepared, sm_externalTransactionId = None,
           sm_status = CANTON_SUBMITTED, sm_rejectionReason = None\<rparr>
       | Inl f \<Rightarrow> x = \<lparr>sm_commandId = pt_commandId prepared, sm_externalTransactionId = None,
           sm_status = CANTON_REJECTED, sm_rejectionReason = Some (gf_message f)\<rparr> \<and> gf_code f \<in> rejection_codes"
    by (cases x) (auto simp: submit_Inr_iff sends_def split: sum.splits)
  have scope: "set (pt_requiredActAs prepared) \<subseteq> set (gp_authorizedParties o')"
    using reached connect_Inr [OF assms(1)] by auto
  show ?thesis
    by (intro conjI scope conjunct1 [OF conjunct2 [OF reached]] command_fields command_other_fields sent)
qed

definition sample_grpc_options :: grpc_options where
  "sample_grpc_options = \<lparr>gp_endpoint = ''ledger:5001'', gp_networkId = ''IW:NETWORK:canton'', gp_participantId = ''p1'',
     gp_authorizedParties = [''alice'', ''bob''], gp_userId = ''bridge'', gp_token = None\<rparr>"

definition sample_grpc_clients :: grpc_clients where
  "sample_grpc_clients = \<lparr>gc_unary = (\<lambda>s m r token. Some (Inr (JsObject []))), gc_stream = (\<lambda>s m r token. None)\<rparr>"

definition sample_prepared :: prepared_canton_transfer where
  "sample_prepared = \<lparr>pt_request = \<lparr>rq_representationId = ''r'', rq_sender = ''alice'', rq_receiver = ''bob'', rq_amount = ''5'',
       rq_idempotencyKey = ''k'', rq_metadata = []\<rparr>, pt_commandId = ''c1'', pt_requiredActAs = [''alice''], pt_expiresAt = [],
     pt_opaqueCommand = JsObject [(''actAs'', JsArray [JsString ''mallory'']), (''workflowId'', JsString ''w'')]\<rparr>"

theorem grpc_acts_only_as_authorised_witness:
  "field_of ''actAs'' (grpc_command sample_grpc_options sample_prepared) = JsArray [JsString ''alice'']
   \<and> set (pt_requiredActAs sample_prepared) \<subseteq> {''alice'', ''bob''}"
proof -
  let ?tp = "grpc_transport (\<lambda>_. []) sample_grpc_options sample_grpc_clients (Some 0)"
  obtain cn c where c: "canton_connect ?tp (new_canton_client []) = (Inr cn, c)"
      "cl_connection c = Some cn" "cn_authorizedParties cn = [''alice'', ''bob'']"
    by (simp add: canton_connect_def and_then_def lift_result_def modify_def ret_def grpc_transport_def grpc_connect_def unary_def
        sample_grpc_options_def sample_grpc_clients_def)
  have x: "canton_execute_transfer ?tp c sample_prepared = Inr \<lparr>sm_commandId = ''c1'', sm_externalTransactionId = None,
      sm_status = CANTON_SUBMITTED, sm_rejectionReason = None\<rparr>"
    using c by (simp add: canton_execute_transfer_def assert_party_scope_def grpc_transport_def grpc_submit_def unary_def
        sample_prepared_def sample_grpc_clients_def)
  show ?thesis
    using grpc_acts_only_as_authorised [OF c(1) x] by (simp add: sample_prepared_def sample_grpc_options_def)
qed

end
