(* ===== verification/Webhooks.thy ===== *)
theory Webhooks
  imports Js_Date Record_Store Idempotency
begin

text \<open>
  Signed webhooks, packages/core/src/webhook-service.ts, over the PostgreSQL store of
  sql/012_webhooks.sql. The receiving server is outside the program: an attempt is cut between its request and the
  answer, which is a status or a network failure, so that attempts interleave. HMAC-SHA256 is a parameter. The
  number of attempts of an endpoint is an integer, and every attempt sent is in the log \<open>wk_posts\<close>.
\<close>

section \<open>Data\<close>

definition webhook_events :: "string list" where
  "webhook_events = [''transaction.created'', ''transaction.completed'', ''transaction.failed'', ''bridge.source_finalized'',
     ''bridge.attested'', ''bridge.completed'', ''bridge.failed'', ''settlement.created'', ''settlement.completed'',
     ''settlement.expired'', ''reconciliation.failed'']"

record webhook_event =
  we_id :: interweave_id
  we_type :: string
  we_subjectId :: string
  we_data :: json
  we_occurredAt :: iso_timestamp

record webhook_endpoint =
  wp_id :: interweave_id
  wp_url :: string
  wp_secret :: string
  wp_events :: "string list"
  wp_enabled :: bool
  wp_maxAttempts :: int
  wp_createdAt :: iso_timestamp

datatype delivery_status = DELIVERY_PENDING | DELIVERY_SUCCEEDED | RETRY_SCHEDULED | DEAD_LETTER

record webhook_delivery =
  dv_id :: interweave_id
  dv_eventId :: interweave_id
  dv_endpointId :: interweave_id
  dv_attempt :: nat
  dv_status :: delivery_status
  dv_requestTimestamp :: string
  dv_signature :: string
  dv_responseStatus :: "int option"
  dv_errorCode :: "string option"
  dv_nextAttemptAt :: "iso_timestamp option"
  dv_occurredAt :: iso_timestamp

text \<open>An attempt whose request is on its way.\<close>

record webhook_attempt =
  wa_event :: webhook_event
  wa_endpoint :: webhook_endpoint
  wa_number :: nat
  wa_timestamp :: string
  wa_signature :: string
  wa_body :: string

record webhook_world =
  wk_events :: "(webhook_event \<times> string) list"
  wk_endpoints :: "webhook_endpoint list"
  wk_deliveries :: "webhook_delivery list"
  wk_posts :: "webhook_attempt list"

section \<open>Signatures\<close>

type_synonym hmac_sha256 = "string \<Rightarrow> string \<Rightarrow> string"

definition digits :: "string \<Rightarrow> bool" where
  "digits s \<longleftrightarrow> s \<noteq> [] \<and> list_all is_digit s"

definition sign_webhook :: "hmac_sha256 \<Rightarrow> string \<Rightarrow> string \<Rightarrow> string \<Rightarrow> string \<Rightarrow> string result" where
  "sign_webhook hmac secret eventId timestamp body =
     (if secret = [] \<or> eventId = [] \<or> \<not> digits timestamp
      then Inl (RegistryError INVALID_ARGUMENT ''webhook signing inputs are invalid'')
      else Inr (''v1='' @ hmac secret (''v1.'' @ eventId @ ''.'' @ timestamp @ ''.'' @ body)))"

text \<open>
  \<open>Number(text)\<close> as far as it is a safe integer: the number of a digit string, and what \<open>other\<close> says of
  the further texts JavaScript reads as numbers.
\<close>

definition safe_number :: "(string \<Rightarrow> int option) \<Rightarrow> string \<Rightarrow> int option" where
  "safe_number other s =
     (if digits s then (if digits_to_nat 0 s \<le> 9007199254740991 then Some (int (digits_to_nat 0 s)) else None) else other s)"

text \<open>The distance from an invalid clock is \<open>NaN\<close>, which is not above the tolerance.\<close>

definition verify_webhook ::
  "hmac_sha256 \<Rightarrow> (string \<Rightarrow> int option) \<Rightarrow> string \<Rightarrow> string \<Rightarrow> string \<Rightarrow> string \<Rightarrow> string \<Rightarrow> int option \<Rightarrow> js_date \<Rightarrow> bool result" where
  "verify_webhook hmac other secret eventId timestamp body signature toleranceSeconds now =
     (let tolerance = (case toleranceSeconds of None \<Rightarrow> 300 | Some n \<Rightarrow> n) in
      case safe_number other timestamp of
        None \<Rightarrow> Inr False
      | Some seconds \<Rightarrow>
          if (case now of None \<Rightarrow> False | Some t \<Rightarrow> \<bar>t div 1000 - seconds\<bar> > tolerance) then Inr False
          else bind_result (sign_webhook hmac secret eventId timestamp body) (\<lambda>expected. Inr (utf8 expected = utf8 signature)))"

section \<open>The store\<close>

definition event_json :: "webhook_event \<Rightarrow> json" where
  "event_json v = JsObject [(''id'', JsString (we_id v)), (''type'', JsString (we_type v)), (''subjectId'', JsString (we_subjectId v)),
     (''data'', we_data v), (''occurredAt'', JsString (we_occurredAt v))]"

definition save_event :: "webhook_event \<Rightarrow> string \<Rightarrow> (webhook_world, unit) comp" where
  "save_event event hash w =
     (case table_find (\<lambda>(v, _). we_id v) (we_id event) (wk_events w) of
        None \<Rightarrow> (Inr (), w\<lparr>wk_events := wk_events w @ [(event, hash)]\<rparr>)
      | Some (_, h) \<Rightarrow> (if h = hash then Inr () else Inl (RegistryError CONFLICT ''webhook event ID was reused''), w))"

definition find_event :: "interweave_id \<Rightarrow> webhook_world \<Rightarrow> webhook_event option" where
  "find_event i w = map_option fst (table_find (\<lambda>(v, _). we_id v) i (wk_events w))"

definition endpoints_for :: "string \<Rightarrow> webhook_world \<Rightarrow> webhook_endpoint list" where
  "endpoints_for t w = filter (\<lambda>p. wp_enabled p \<and> t \<in> set (wp_events p)) (wk_endpoints w)"

definition deliveries_for :: "interweave_id \<Rightarrow> interweave_id \<Rightarrow> webhook_world \<Rightarrow> webhook_delivery list" where
  "deliveries_for e p w = filter (\<lambda>d. dv_eventId d = e \<and> dv_endpointId d = p) (wk_deliveries w)"

text \<open>The primary key makes a conflict of the service, the other constraints fail in the driver.\<close>

definition save_delivery :: "webhook_delivery \<Rightarrow> (webhook_world, unit) comp" where
  "save_delivery d w =
     (if dv_id d \<in> dv_id ` set (wk_deliveries w) then (Inl (RegistryError CONFLICT ''delivery log is immutable''), w)
      else if list_ex (\<lambda>x. dv_attempt x = dv_attempt d) (deliveries_for (dv_eventId d) (dv_endpointId d) w)
      then (Inl (SqlError ''duplicate key''), w)
      else if find_event (dv_eventId d) w = None then (Inl (SqlError ''foreign key''), w)
      else (Inr (), w\<lparr>wk_deliveries := wk_deliveries w @ [d]\<rparr>))"

section \<open>The service\<close>

definition check_event :: "webhook_event \<Rightarrow> unit result" where
  "check_event v =
     (if \<not> starts_with (we_id v) ''IW:WEBHOOK_EVENT:'' \<or> we_type v \<notin> set webhook_events \<or> blank (we_subjectId v)
        \<or> \<not> valid_time (we_occurredAt v)
      then Inl (RegistryError INVALID_ARGUMENT ''webhook event is invalid'') else Inr ())"

text \<open>Milliseconds, for an attempt from 1 on.\<close>

definition retry_delay :: "nat \<Rightarrow> int" where
  "retry_delay attempt = min (60 * 60 * 1000) (1000 * 2 ^ min (attempt - 1) 12)"

definition terminal :: "webhook_delivery list \<Rightarrow> bool" where
  "terminal history \<longleftrightarrow> list_ex (\<lambda>d. dv_status d = DELIVERY_SUCCEEDED \<or> dv_status d = DEAD_LETTER) history"

definition unix_seconds :: "js_date \<Rightarrow> string" where
  "unix_seconds now = (case now of None \<Rightarrow> ''NaN'' | Some t \<Rightarrow> int_to_string (t div 1000))"

text \<open>Up to the request.\<close>

definition attempt_begin ::
  "hmac_sha256 \<Rightarrow> js_date \<Rightarrow> webhook_event \<Rightarrow> webhook_endpoint \<Rightarrow> nat \<Rightarrow> (webhook_world, webhook_attempt) comp" where
  "attempt_begin hmac now event endpoint n =
     and_then (lift_result (canonical_json (event_json event))) (\<lambda>body.
     and_then (lift_result (sign_webhook hmac (wp_secret endpoint) (we_id event) (unix_seconds now) body)) (\<lambda>signature.
     let a = \<lparr>wa_event = event, wa_endpoint = endpoint, wa_number = n, wa_timestamp = unix_seconds now,
       wa_signature = signature, wa_body = body\<rparr> in
     and_then (modify (\<lambda>w. w\<lparr>wk_posts := wk_posts w @ [a]\<rparr>)) (\<lambda>_. ret a)))"

definition post_headers :: "webhook_attempt \<Rightarrow> string_record" where
  "post_headers a = [(''content-type'', ''application/json''), (''user-agent'', ''InterWeave-Webhooks/1''),
     (''x-interweave-event-id'', we_id (wa_event a)), (''x-interweave-timestamp'', wa_timestamp a),
     (''x-interweave-signature'', wa_signature a)]"

text \<open>\<open>None\<close> is a request that failed.\<close>

definition answer_error :: "int option \<Rightarrow> string option" where
  "answer_error answer = (case answer of None \<Rightarrow> Some ''NETWORK_ERROR''
     | Some status \<Rightarrow> if status < 200 \<or> 300 \<le> status then Some (''HTTP_'' @ int_to_string status) else None)"

definition delay_from :: "js_date \<Rightarrow> int \<Rightarrow> js_date" where
  "delay_from now d = (case now of None \<Rightarrow> None | Some t \<Rightarrow> if \<bar>t + d\<bar> \<le> 8640000000000000 then Some (t + d) else None)"

definition exhausted :: "webhook_attempt \<Rightarrow> int option \<Rightarrow> bool" where
  "exhausted a answer \<longleftrightarrow> answer_error answer \<noteq> None \<and> wp_maxAttempts (wa_endpoint a) \<le> int (wa_number a)"

definition delivery_id :: "webhook_attempt \<Rightarrow> interweave_id" where
  "delivery_id a = ''IW:WEBHOOK_DELIVERY:'' @ we_id (wa_event a) @ '':'' @ wp_id (wa_endpoint a) @ '':'' @ nat_to_string (wa_number a)"

definition new_delivery :: "webhook_attempt \<Rightarrow> int option \<Rightarrow> iso_timestamp \<Rightarrow> iso_timestamp option \<Rightarrow> webhook_delivery" where
  "new_delivery a answer occurredAt nextAttemptAt =
     \<lparr>dv_id = delivery_id a, dv_eventId = we_id (wa_event a), dv_endpointId = wp_id (wa_endpoint a), dv_attempt = wa_number a,
      dv_status = (if answer_error answer = None then DELIVERY_SUCCEEDED else if exhausted a answer then DEAD_LETTER else RETRY_SCHEDULED),
      dv_requestTimestamp = wa_timestamp a, dv_signature = wa_signature a, dv_responseStatus = answer, dv_errorCode = answer_error answer,
      dv_nextAttemptAt = nextAttemptAt, dv_occurredAt = occurredAt\<rparr>"

text \<open>From the answer on; the clock is read again for the time of the attempt and for that of the next.\<close>

definition attempt_finish ::
  "webhook_attempt \<Rightarrow> int option \<Rightarrow> js_date \<Rightarrow> js_date \<Rightarrow> (webhook_world, webhook_delivery) comp" where
  "attempt_finish a answer occurred later =
     and_then (iso_string occurred) (\<lambda>occurredAt.
     and_then (if answer_error answer \<noteq> None \<and> \<not> exhausted a answer
               then and_then (iso_string (delay_from later (retry_delay (wa_number a)))) (\<lambda>t. ret (Some t)) else ret None) (\<lambda>nextAttemptAt.
     let d = new_delivery a answer occurredAt nextAttemptAt in and_then (save_delivery d) (\<lambda>_. ret d)))"

text \<open>The clocks and the answer of one attempt.\<close>

record post_env =
  pe_now :: js_date
  pe_answer :: "webhook_attempt \<Rightarrow> int option"
  pe_occurred :: js_date
  pe_later :: js_date

definition webhook_attempt_run ::
  "hmac_sha256 \<Rightarrow> post_env \<Rightarrow> webhook_event \<Rightarrow> webhook_endpoint \<Rightarrow> nat \<Rightarrow> (webhook_world, webhook_delivery) comp" where
  "webhook_attempt_run hmac env event endpoint n =
     and_then (attempt_begin hmac (pe_now env) event endpoint n) (\<lambda>a.
       attempt_finish a (pe_answer env a) (pe_occurred env) (pe_later env))"

text \<open>One turn per endpoint; the attempts the loop waits for have the surroundings \<open>env\<close> gives them.\<close>

fun publish_loop ::
  "hmac_sha256 \<Rightarrow> (interweave_id \<Rightarrow> post_env) \<Rightarrow> webhook_event \<Rightarrow> webhook_endpoint list \<Rightarrow> webhook_delivery list
   \<Rightarrow> (webhook_world, webhook_delivery list) comp" where
  "publish_loop hmac env event [] ds = ret ds"
| "publish_loop hmac env event (p # ps) ds =
     (if \<not> wp_enabled p then publish_loop hmac env event ps ds
      else and_then (gets (deliveries_for (we_id event) (wp_id p))) (\<lambda>history.
        if terminal history then publish_loop hmac env event ps ds
        else and_then (webhook_attempt_run hmac (env (wp_id p)) event p (length history + 1)) (\<lambda>d.
          publish_loop hmac env event ps (ds @ [d]))))"

definition webhook_publish ::
  "hmac_sha256 \<Rightarrow> sha256 \<Rightarrow> (interweave_id \<Rightarrow> post_env) \<Rightarrow> webhook_event \<Rightarrow> (webhook_world, webhook_delivery list) comp" where
  "webhook_publish hmac sha env event =
     and_then (lift_result (check_event event)) (\<lambda>_.
     and_then (lift_result (request_fingerprint sha (event_json event))) (\<lambda>hash.
     and_then (save_event event hash) (\<lambda>_.
     and_then (gets (endpoints_for (we_type event))) (\<lambda>ps. publish_loop hmac env event ps []))))"

definition webhook_retry ::
  "hmac_sha256 \<Rightarrow> post_env \<Rightarrow> interweave_id \<Rightarrow> webhook_endpoint \<Rightarrow> (webhook_world, webhook_delivery) comp" where
  "webhook_retry hmac env i endpoint =
     and_then (gets (find_event i)) (\<lambda>found.
     case found of
       None \<Rightarrow> throw (RegistryError NOT_FOUND (''webhook event not found: '' @ i))
     | Some event \<Rightarrow>
         and_then (gets (deliveries_for i (wp_id endpoint))) (\<lambda>history.
         if terminal history then throw (RegistryError CONFLICT ''webhook delivery is terminal'')
         else webhook_attempt_run hmac env event endpoint (length history + 1)))"

section \<open>A receiver with the secret accepts what was signed\<close>

lemma digits_nat_to_string [simp]: "digits (nat_to_string n)"
  using nat_to_string_digits [of n] by (simp add: digits_def list_all_iff)



lemma verified_signed:
  assumes "verify_webhook hmac other secret i timestamp body signature tolerance now = Inr True"
  shows "sign_webhook hmac secret i timestamp body = Inr signature"
  using assms by (auto simp: verify_webhook_def Let_def split: option.splits if_splits)
    (metis utf8_inj)+

text \<open>A timestamp that JavaScript reads as a number without being digits is an error, not a refusal.\<close>

lemma verify_throws:
  assumes "\<not> digits timestamp" "other timestamp = Some seconds" "\<bar>t div 1000 - seconds\<bar> \<le> 300"
  shows "verify_webhook hmac other secret i timestamp body signature None (Some t)
    = Inl (RegistryError INVALID_ARGUMENT ''webhook signing inputs are invalid'')"
  using assms by (simp add: verify_webhook_def safe_number_def sign_webhook_def)

section \<open>Interleaved attempts\<close>

record webhook_system =
  wh_world :: webhook_world
  wh_pending :: "webhook_attempt list"

definition stored_hash :: "interweave_id \<Rightarrow> webhook_world \<Rightarrow> string option" where
  "stored_hash i w = map_option snd (table_find (\<lambda>(v, _). we_id v) i (wk_events w))"

definition valid_date :: "js_date \<Rightarrow> bool" where
  "valid_date d \<longleftrightarrow> (case d of None \<Rightarrow> True | Some t \<Rightarrow> \<bar>t\<bar> \<le> 8640000000000000)"

text \<open>
  An event is saved; endpoints are configured elsewhere; a publication or a retry starts an attempt at an event whose
  stored fingerprint it has; an answer arrives.
\<close>

inductive webhook_step :: "hmac_sha256 \<Rightarrow> sha256 \<Rightarrow> webhook_system \<Rightarrow> webhook_system \<Rightarrow> bool" for hmac sha where
  wh_save: "check_event event = Inr () \<Longrightarrow> request_fingerprint sha (event_json event) = Inr hash \<Longrightarrow> save_event event hash w = (res, w') \<Longrightarrow>
    webhook_step hmac sha \<lparr>wh_world = w, wh_pending = ps\<rparr> \<lparr>wh_world = w', wh_pending = ps\<rparr>"
| wh_endpoints: "webhook_step hmac sha \<lparr>wh_world = w, wh_pending = ps\<rparr> \<lparr>wh_world = w\<lparr>wk_endpoints := es\<rparr>, wh_pending = ps\<rparr>"
| wh_begin: "request_fingerprint sha (event_json event) = Inr hash \<Longrightarrow> stored_hash (we_id event) w = Some hash \<Longrightarrow>
    history = deliveries_for (we_id event) (wp_id p) w \<Longrightarrow> \<not> terminal history \<Longrightarrow> valid_date now \<Longrightarrow>
    attempt_begin hmac now event p (length history + 1) w = (Inr a, w') \<Longrightarrow>
    webhook_step hmac sha \<lparr>wh_world = w, wh_pending = ps\<rparr> \<lparr>wh_world = w', wh_pending = ps @ [a]\<rparr>"
| wh_finish: "a \<in> set ps \<Longrightarrow> attempt_finish a answer occurred later w = (res', w') \<Longrightarrow>
    webhook_step hmac sha \<lparr>wh_world = w, wh_pending = ps\<rparr> \<lparr>wh_world = w', wh_pending = remove1 a ps\<rparr>"


text \<open>The record an answer to an attempt makes.\<close>

definition delivery_of :: "webhook_attempt \<Rightarrow> webhook_delivery \<Rightarrow> bool" where
  "delivery_of a d \<longleftrightarrow> dv_eventId d = we_id (wa_event a) \<and> dv_endpointId d = wp_id (wa_endpoint a) \<and> dv_attempt d = wa_number a
     \<and> dv_requestTimestamp d = wa_timestamp a \<and> dv_signature d = wa_signature a
     \<and> dv_errorCode d = answer_error (dv_responseStatus d)
     \<and> dv_status d = (if dv_errorCode d = None then DELIVERY_SUCCEEDED
         else if wp_maxAttempts (wa_endpoint a) \<le> int (wa_number a) then DEAD_LETTER else RETRY_SCHEDULED)"

definition post_ok :: "hmac_sha256 \<Rightarrow> sha256 \<Rightarrow> webhook_world \<Rightarrow> webhook_attempt \<Rightarrow> bool" where
  "post_ok hmac sha w a \<longleftrightarrow> canonical_json (event_json (wa_event a)) = Inr (wa_body a)
     \<and> stored_hash (we_id (wa_event a)) w = Some (''sha256:'' @ sha (utf8 (wa_body a)))
     \<and> sign_webhook hmac (wp_secret (wa_endpoint a)) (we_id (wa_event a)) (wa_timestamp a) (wa_body a) = Inr (wa_signature a)
     \<and> (\<exists>k \<le> 8640000000000. wa_timestamp a = nat_to_string k) \<and> 1 \<le> wa_number a"

definition pending_ok :: "webhook_world \<Rightarrow> webhook_attempt \<Rightarrow> bool" where
  "pending_ok w a \<longleftrightarrow> a \<in> set (wk_posts w)
     \<and> (let ds = deliveries_for (we_id (wa_event a)) (wp_id (wa_endpoint a)) w in
        wa_number a \<le> length ds + 1 \<and> (wa_number a = length ds + 1 \<longrightarrow> \<not> terminal ds))"

definition history_ok :: "webhook_delivery list \<Rightarrow> bool" where
  "history_ok ds \<longleftrightarrow> map dv_attempt ds = [1..<length ds + 1] \<and> (\<forall>d \<in> set (butlast ds). dv_status d = RETRY_SCHEDULED)"

definition webhooks_ok :: "hmac_sha256 \<Rightarrow> sha256 \<Rightarrow> webhook_system \<Rightarrow> bool" where
  "webhooks_ok hmac sha s \<longleftrightarrow> (let w = wh_world s in
     (\<forall>e p. history_ok (deliveries_for e p w)) \<and> (\<forall>d \<in> set (wk_deliveries w). \<exists>a \<in> set (wk_posts w). delivery_of a d)
     \<and> (\<forall>a \<in> set (wk_posts w). post_ok hmac sha w a) \<and> (\<forall>a \<in> set (wh_pending s). pending_ok w a)
     \<and> (\<forall>(v, h) \<in> set (wk_events w). request_fingerprint sha (event_json v) = Inr h))"

lemma attempt_begin_D:
  assumes "attempt_begin hmac now event p n w = (res, w')"
  shows "(\<exists>e. res = Inl e) \<and> w' = w \<or> (\<exists>body signature a. res = Inr a \<and> canonical_json (event_json event) = Inr body
    \<and> sign_webhook hmac (wp_secret p) (we_id event) (unix_seconds now) body = Inr signature
    \<and> a = \<lparr>wa_event = event, wa_endpoint = p, wa_number = n, wa_timestamp = unix_seconds now, wa_signature = signature, wa_body = body\<rparr>
    \<and> w' = w\<lparr>wk_posts := wk_posts w @ [a]\<rparr>)"
  using assms by (auto simp: attempt_begin_def and_then_def Let_def split: sum.splits)

lemma delivery_of_new [simp]: "delivery_of a (new_delivery a answer occurredAt next)"
  by (simp add: delivery_of_def new_delivery_def exhausted_def)

lemma save_delivery_D:
  assumes "save_delivery d w = (res, w')"
  shows "w' = w \<or> w' = w\<lparr>wk_deliveries := wk_deliveries w @ [d]\<rparr>
    \<and> (\<forall>x \<in> set (deliveries_for (dv_eventId d) (dv_endpointId d) w). dv_attempt x \<noteq> dv_attempt d)"
  using assms by (auto simp: save_delivery_def list_ex_iff split: if_splits)

lemma attempt_finish_D:
  assumes "attempt_finish a answer occurred later w = (res, w')"
  shows "w' = w \<or> (\<exists>d. delivery_of a d \<and> w' = w\<lparr>wk_deliveries := wk_deliveries w @ [d]\<rparr>
    \<and> (\<forall>x \<in> set (deliveries_for (we_id (wa_event a)) (wp_id (wa_endpoint a)) w). dv_attempt x \<noteq> wa_number a))"
proof -
  have "w' = w \<or> (\<exists>occurredAt nextAttemptAt res'. save_delivery (new_delivery a answer occurredAt nextAttemptAt) w = (res', w'))"
    using assms by (cases occurred; cases "delay_from later (retry_delay (wa_number a))")
      (auto simp: attempt_finish_def Let_def and_then_def iso_string_def split: if_splits sum.splits prod.splits)
  then show ?thesis
    using delivery_of_new [of a answer] by (fastforce dest: save_delivery_D simp: new_delivery_def)
qed

section \<open>The log of every event and endpoint\<close>




lemma deliveries_for_unchanged [simp]:
  "deliveries_for e p (w\<lparr>wk_events := x\<rparr>) = deliveries_for e p w"
  "deliveries_for e p (w\<lparr>wk_endpoints := y\<rparr>) = deliveries_for e p w"
  "deliveries_for e p (w\<lparr>wk_posts := z\<rparr>) = deliveries_for e p w"
  by (simp_all add: deliveries_for_def)







lemma post_ok_posts [simp]: "post_ok hmac sha (w\<lparr>wk_posts := x\<rparr>) = post_ok hmac sha w"
  "post_ok hmac sha (w\<lparr>wk_deliveries := y\<rparr>) = post_ok hmac sha w" "post_ok hmac sha (w\<lparr>wk_endpoints := z\<rparr>) = post_ok hmac sha w"
  by (simp_all add: fun_eq_iff post_ok_def stored_hash_def)





section \<open>Publishing and retrying are such steps\<close>

definition valid_env :: "post_env \<Rightarrow> bool" where
  "valid_env env \<longleftrightarrow> valid_date (pe_now env)"

lemma attempt_steps:
  assumes run: "webhook_attempt_run hmac env event p (length history + 1) w = (res, w')"
    and "request_fingerprint sha (event_json event) = Inr hash" "stored_hash (we_id event) w = Some hash"
    "history = deliveries_for (we_id event) (wp_id p) w" "\<not> terminal history" "valid_env env"
  shows "(webhook_step hmac sha)\<^sup>*\<^sup>* \<lparr>wh_world = w, wh_pending = []\<rparr> \<lparr>wh_world = w', wh_pending = []\<rparr>
    \<and> stored_hash (we_id event) w' = Some hash"
proof -
  obtain res1 w1 where b: "attempt_begin hmac (pe_now env) event p (length history + 1) w = (res1, w1)" by fastforce
  show ?thesis
  proof (cases res1)
    case (Inl e)
    then have "w1 = w" using attempt_begin_D [OF b] by simp
    then have "w' = w" using run b Inl by (simp add: webhook_attempt_run_def and_then_def)
    then show ?thesis using assms(3) by simp
  next
    case (Inr a)
    have fin: "attempt_finish a (pe_answer env a) (pe_occurred env) (pe_later env) w1 = (res, w')"
      using run b Inr by (simp add: webhook_attempt_run_def and_then_def)
    have "valid_date (pe_now env)" using assms(6) by (simp add: valid_env_def)
    then have "webhook_step hmac sha \<lparr>wh_world = w, wh_pending = []\<rparr> \<lparr>wh_world = w1, wh_pending = [] @ [a]\<rparr>"
      by (rule wh_begin [OF assms(2-5) _ b [unfolded Inr]])
    moreover have "webhook_step hmac sha \<lparr>wh_world = w1, wh_pending = [a]\<rparr> \<lparr>wh_world = w', wh_pending = remove1 a [a]\<rparr>"
      by (rule wh_finish [OF _ fin]) simp
    moreover have "stored_hash (we_id event) w1 = Some hash"
      using attempt_begin_D [OF b] assms(3) by (auto simp: Inr stored_hash_def)
    moreover from this have "stored_hash (we_id event) w' = Some hash"
      using attempt_finish_D [OF fin] by (auto simp: stored_hash_def)
    ultimately show ?thesis by (simp add: converse_rtranclp_into_rtranclp)
  qed
qed

lemma publish_loop_steps:
  assumes "publish_loop hmac env event ps ds w = (res, w')"
    and "request_fingerprint sha (event_json event) = Inr hash" "stored_hash (we_id event) w = Some hash" "\<And>p. valid_env (env p)"
  shows "(webhook_step hmac sha)\<^sup>*\<^sup>* \<lparr>wh_world = w, wh_pending = []\<rparr> \<lparr>wh_world = w', wh_pending = []\<rparr>"
  using assms(1,3)
proof (induction ps arbitrary: ds w)
  case (Cons p ps)
  let ?history = "deliveries_for (we_id event) (wp_id p) w"
  show ?case
  proof (cases "wp_enabled p \<and> \<not> terminal ?history")
    case False
    then have "publish_loop hmac env event ps ds w = (res, w')"
      using Cons.prems(1) by (simp add: and_then_def split: if_splits)
    then show ?thesis using Cons.prems(2) by (rule Cons.IH)
  next
    case True
    obtain res1 w1 where a: "webhook_attempt_run hmac (env (wp_id p)) event p (length ?history + 1) w = (res1, w1)" by fastforce
    note steps = attempt_steps [OF a assms(2) Cons.prems(2) refl _ assms(4)]
    show ?thesis
    proof (cases res1)
      case (Inl e)
      then show ?thesis using Cons.prems(1) True a steps by (simp add: and_then_def)
    next
      case (Inr d)
      then have "publish_loop hmac env event ps (ds @ [d]) w1 = (res, w')"
        using Cons.prems(1) True a by (simp add: and_then_def)
      then show ?thesis using steps True by (blast intro: rtranclp_trans Cons.IH)
    qed
  qed
qed simp

lemma publish_steps:
  assumes "webhook_publish hmac sha env event w = (res, w')" "\<And>p. valid_env (env p)"
  shows "(webhook_step hmac sha)\<^sup>*\<^sup>* \<lparr>wh_world = w, wh_pending = []\<rparr> \<lparr>wh_world = w', wh_pending = []\<rparr>"
proof (cases "check_event event = Inr () \<and> (\<exists>hash. request_fingerprint sha (event_json event) = Inr hash)")
  case False
  then have "w' = w" using assms(1)
    by (auto simp: webhook_publish_def and_then_def split: sum.splits)
  then show ?thesis by simp
next
  case True
  then obtain hash where h: "check_event event = Inr ()" "request_fingerprint sha (event_json event) = Inr hash" by blast
  obtain res1 w1 where s: "save_event event hash w = (res1, w1)" by fastforce
  have first: "webhook_step hmac sha \<lparr>wh_world = w, wh_pending = []\<rparr> \<lparr>wh_world = w1, wh_pending = []\<rparr>"
    by (rule wh_save [OF h s])
  show ?thesis
  proof (cases res1)
    case (Inl e)
    then show ?thesis using assms(1) h s first by (simp add: webhook_publish_def and_then_def)
  next
    case (Inr u)
    then have "stored_hash (we_id event) w1 = Some hash"
      using s by (auto simp: save_event_def stored_hash_def table_find_snoc split: option.splits prod.splits if_splits)
    moreover have "publish_loop hmac env event (endpoints_for (we_type event) w1) [] w1 = (res, w')"
      using assms(1) h s Inr by (simp add: webhook_publish_def and_then_def)
    ultimately show ?thesis
      using publish_loop_steps [OF _ h(2) _ assms(2)] first by (meson converse_rtranclp_into_rtranclp)
  qed
qed

lemma retry_steps:
  assumes "webhook_retry hmac env i p w = (res, w')" "valid_env env" "webhooks_ok hmac sha \<lparr>wh_world = w, wh_pending = []\<rparr>"
  shows "(webhook_step hmac sha)\<^sup>*\<^sup>* \<lparr>wh_world = w, wh_pending = []\<rparr> \<lparr>wh_world = w', wh_pending = []\<rparr>"
proof (cases "find_event i w")
  case None
  then show ?thesis using assms(1) by (simp add: webhook_retry_def and_then_def)
next
  case (Some event)
  then obtain hash where row: "table_find (\<lambda>(v, _). we_id v) i (wk_events w) = Some (event, hash)"
    by (auto simp: find_event_def)
  then have i: "we_id event = i" and mem: "(event, hash) \<in> set (wk_events w)"
    using table_find_key [OF row] table_find_mem [OF row] by simp_all
  have h: "request_fingerprint sha (event_json event) = Inr hash" using assms(3) mem by (auto simp: webhooks_ok_def Let_def)
  have st: "stored_hash (we_id event) w = Some hash" using row i by (simp add: stored_hash_def)
  show ?thesis
  proof (cases "terminal (deliveries_for i (wp_id p) w)")
    case True
    then show ?thesis using assms(1) Some by (simp add: webhook_retry_def and_then_def)
  next
    case False
    then have "webhook_attempt_run hmac env event p (length (deliveries_for (we_id event) (wp_id p) w) + 1) w = (res, w')"
      using assms(1) Some i by (simp add: webhook_retry_def and_then_def)
    from attempt_steps [OF this h st refl _ assms(2)] show ?thesis using False i by simp
  qed
qed


section \<open>An example\<close>







text \<open>An endpoint that cannot be signed for ends a publication: the endpoints after it get nothing.\<close>

lemma publication_stops_at_failure:
  assumes "wp_enabled p" "wp_secret p = []" "\<not> terminal (deliveries_for (we_id event) (wp_id p) w)"
    and "canonical_json (event_json event) = Inr body"
  shows "publish_loop hmac env event (p # ps) ds w = (Inl (RegistryError INVALID_ARGUMENT ''webhook signing inputs are invalid''), w)"
  using assms by (simp add: and_then_def webhook_attempt_run_def attempt_begin_def sign_webhook_def)

end
