(* ===== verification/Rest_Api.thy ===== *)
theory Rest_Api
  imports Tenancy Idempotency
begin

text \<open>
  The HTTP boundary of packages/core/src/rest-api.ts: the routes and the handling of a request. A request is what the
  Fetch API makes of it: the path and the search parameters of its URL, the headers the handler reads and its body, which
  may not be JSON. The backend is a parameter. Also here are the parts of the standard library that the handler and its
  client share: URI components and what of a value is left after \<open>JSON.stringify\<close> and \<open>JSON.parse\<close>.
\<close>

section \<open>URI components\<close>

definition unreserved :: "char \<Rightarrow> bool" where
  "unreserved c \<longleftrightarrow> alphanumeric c \<or> c \<in> set ''-_.!~*()'' \<or> c = CHR 0x27"

definition upper_hex :: "nat \<Rightarrow> char" where
  "upper_hex n = (if n < 10 then char_of (n + 48) else char_of (n + 55))"

definition percent :: "nat \<Rightarrow> string" where
  "percent b = [CHR ''%'', upper_hex (b div 16), upper_hex (b mod 16)]"

text \<open>\<open>encodeURIComponent\<close>\<close>

definition encode_char :: "char \<Rightarrow> string" where
  "encode_char c = (let n = of_char c :: nat in
     if unreserved c then [c] else if n < 128 then percent n else percent (192 + n div 64) @ percent (128 + n mod 64))"

definition encode_uri :: "string \<Rightarrow> string" where
  "encode_uri s = concat (map encode_char s)"

definition hex_value :: "char \<Rightarrow> nat option" where
  "hex_value c = (let n = of_char c :: nat in
     if 48 \<le> n \<and> n \<le> 57 then Some (n - 48) else if 65 \<le> n \<and> n \<le> 70 then Some (n - 55)
     else if 97 \<le> n \<and> n \<le> 102 then Some (n - 87) else None)"

definition hex_byte :: "char \<Rightarrow> char \<Rightarrow> nat option" where
  "hex_byte h l = (case (hex_value h, hex_value l) of (Some a, Some b) \<Rightarrow> Some (16 * a + b) | _ \<Rightarrow> None)"

text \<open>
  \<open>decodeURIComponent\<close>, which throws on anything but the UTF-8 bytes of a text. From a code point above 255 on, which the
  strings of the model do not hold, the answer is that of \<open>wide\<close>.
\<close>

fun decode_uri :: "(string \<Rightarrow> string option) \<Rightarrow> string \<Rightarrow> string option" where
  "decode_uri wide [] = Some []"
| "decode_uri wide (c # s) =
     (if c \<noteq> CHR ''%'' then map_option ((#) c) (decode_uri wide s)
      else case s of h # l # r \<Rightarrow>
          (case hex_byte h l of
             None \<Rightarrow> None
           | Some b \<Rightarrow>
               if b < 128 then map_option ((#) (char_of b)) (decode_uri wide r)
               else if b = 194 \<or> b = 195 then
                 (case r of p # h' # l' # r' \<Rightarrow>
                      (case hex_byte h' l' of
                         Some b' \<Rightarrow> if p = CHR ''%'' \<and> 128 \<le> b' \<and> b' < 192
                           then map_option ((#) (char_of (64 * (b - 192) + (b' - 128)))) (decode_uri wide r') else None
                       | None \<Rightarrow> None)
                  | _ \<Rightarrow> None)
               else if 196 \<le> b \<and> b < 245 then wide (c # s) else None)
        | _ \<Rightarrow> None)"

section \<open>JSON over the wire\<close>

text \<open>What \<open>JSON.parse\<close> reads of what \<open>JSON.stringify\<close> wrote; \<open>JsUndefined\<close> when it wrote nothing.\<close>

fun wire :: "json \<Rightarrow> json" where
  "wire (JsArray vs) = JsArray (map (\<lambda>v. let x = wire v in if x = JsUndefined then JsNull else x) vs)"
| "wire (JsObject fs) = JsObject (filter (\<lambda>(_, v). v \<noteq> JsUndefined) (map (\<lambda>(k, v). (k, wire v)) fs))"
| "wire (JsNumber None) = JsNull"
| "wire (JsOther t) = JsUndefined"
| "wire v = v"

text \<open>\<open>JSON.stringify\<close> throws on a big integer.\<close>

fun stringifies :: "json \<Rightarrow> bool" where
  "stringifies (JsArray vs) \<longleftrightarrow> list_all stringifies vs"
| "stringifies (JsObject fs) \<longleftrightarrow> list_all (\<lambda>(_, v). stringifies v) fs"
| "stringifies (JsOther t) \<longleftrightarrow> t \<noteq> ''bigint''"
| "stringifies _ \<longleftrightarrow> True"

section \<open>Routes\<close>

datatype path_part = Literal string | Capture

record route =
  rt_method :: string
  rt_pattern :: "path_part list"
  rt_names :: "string list"
  rt_operation :: rest_operation
  rt_write :: bool

abbreviation route :: "string \<Rightarrow> path_part list \<Rightarrow> string list \<Rightarrow> rest_operation \<Rightarrow> bool \<Rightarrow> route" where
  "route m p n oper w \<equiv> \<lparr>rt_method = m, rt_pattern = p, rt_names = n, rt_operation = oper, rt_write = w\<rparr>"

definition routes :: "route list" where
  "routes =
    [route ''GET'' [Literal ''v1'', Literal ''networks''] [] NETWORKS_LIST False,
     route ''POST'' [Literal ''v1'', Literal ''assets''] [] ASSETS_CREATE True,
     route ''GET'' [Literal ''v1'', Literal ''assets'', Capture] [''id''] ASSETS_GET False,
     route ''GET'' [Literal ''v1'', Literal ''assets'', Capture, Literal ''balances''] [''id''] ASSETS_BALANCE False,
     route ''POST'' [Literal ''v1'', Literal ''identities''] [] IDENTITIES_CREATE True,
     route ''POST'' [Literal ''v1'', Literal ''identities'', Capture, Literal ''bindings''] [''id''] IDENTITIES_BIND True,
     route ''POST'' [Literal ''v1'', Literal ''transfers''] [] TRANSFERS_CREATE_OP True,
     route ''GET'' [Literal ''v1'', Literal ''transfers'', Capture] [''id''] TRANSFERS_GET False,
     route ''POST'' [Literal ''v1'', Literal ''bridge'', Literal ''transfers''] [] BRIDGE_CREATE_OP True,
     route ''GET'' [Literal ''v1'', Literal ''bridge'', Literal ''transfers'', Capture] [''id''] BRIDGE_GET False,
     route ''POST'' [Literal ''v1'', Literal ''settlements''] [] SETTLEMENTS_CREATE_OP True,
     route ''GET'' [Literal ''v1'', Literal ''settlements'', Capture] [''id''] SETTLEMENTS_GET False,
     route ''POST'' [Literal ''v1'', Literal ''attestations''] [] ATTESTATIONS_CREATE_OP True,
     route ''GET'' [Literal ''v1'', Literal ''attestations'', Capture] [''id''] ATTESTATIONS_GET False,
     route ''GET'' [Literal ''v1'', Literal ''transactions'', Capture] [''id''] TRANSACTIONS_GET False,
     route ''POST'' [Literal ''v1'', Literal ''webhooks''] [] WEBHOOKS_CREATE True,
     route ''GET'' [Literal ''v1'', Literal ''emergency-controls''] [] EMERGENCY_LIST False,
     route ''POST'' [Literal ''v1'', Literal ''emergency-controls''] [] EMERGENCY_CREATE True,
     route ''POST'' [Literal ''v1'', Literal ''emergency-controls'', Capture, Literal ''lift''] [''id''] EMERGENCY_LIFT True]"

text \<open>A pattern matches the whole path; \<open>([^/]+)\<close> is one segment that is not empty.\<close>

fun match_segments :: "path_part list \<Rightarrow> string list \<Rightarrow> string list option" where
  "match_segments [] [] = Some []"
| "match_segments (Literal t # ps) (s # ss) = (if s = t then match_segments ps ss else None)"
| "match_segments (Capture # ps) (s # ss) = (if s \<noteq> [] then map_option ((#) s) (match_segments ps ss) else None)"
| "match_segments _ _ = None"

definition match_path :: "path_part list \<Rightarrow> string \<Rightarrow> string list option" where
  "match_path pattern pathname = (case split_on (CHR ''/'') pathname of [] # ss \<Rightarrow> match_segments pattern ss | _ \<Rightarrow> None)"

section \<open>Requests and responses\<close>

record rest_request =
  rr_method :: string
  rr_pathname :: string
  rr_search :: "(string \<times> string) list"
  rr_idempotencyKey :: "string option"
  rr_contentType :: "string option"
  rr_json :: "json option"

text \<open>A response with its status, its body and its request id header.\<close>

record rest_response =
  rs_status :: nat
  rs_body :: json
  rs_requestId :: string

definition json_response :: "nat \<Rightarrow> json \<Rightarrow> string \<Rightarrow> rest_response" where
  "json_response code value i = \<lparr>rs_status = code, rs_body = wire value, rs_requestId = i\<rparr>"

definition error_response :: "nat \<Rightarrow> string \<Rightarrow> string \<Rightarrow> string \<Rightarrow> rest_response" where
  "error_response status code message i =
     json_response status (JsObject [(''error'', JsObject [(''code'', JsString code), (''message'', JsString message),
       (''requestId'', JsString i)])]) i"

fun error_code_text :: "registry_error_code \<Rightarrow> string" where
  "error_code_text ALREADY_EXISTS = ''ALREADY_EXISTS''"
| "error_code_text NOT_FOUND = ''NOT_FOUND''"
| "error_code_text INVALID_ARGUMENT = ''INVALID_ARGUMENT''"
| "error_code_text CONFLICT = ''CONFLICT''"

definition error_status :: "registry_error_code \<Rightarrow> nat" where
  "error_status code = (if code = NOT_FOUND then 404 else if code = ALREADY_EXISTS \<or> code = CONFLICT then 409 else 400)"

definition upper :: "string \<Rightarrow> string" where
  "upper = map (\<lambda>c. if 97 \<le> (of_char c :: nat) \<and> of_char c \<le> (122 :: nat) then char_of (of_char c - 32 :: nat) else c)"

fun first_match :: "string \<Rightarrow> string \<Rightarrow> route list \<Rightarrow> (route \<times> string list) option" where
  "first_match m pathname [] = None"
| "first_match m pathname (r # rs) =
     (if rt_method r = m
      then case match_path (rt_pattern r) pathname of Some parts \<Rightarrow> Some (r, parts) | None \<Rightarrow> first_match m pathname rs
      else first_match m pathname rs)"

text \<open>\<open>Object.fromEntries\<close>\<close>

definition from_entries :: "(string \<times> 'v) list \<Rightarrow> (string, 'v) js_map" where
  "from_entries es = fold (\<lambda>(k, v). map_set k v) es []"

text \<open>The parts of a write, or the answer that refuses it.\<close>

definition read_write :: "rest_request \<Rightarrow> string \<Rightarrow> rest_response + string \<times> json" where
  "read_write request i =
     (case map_option trim (rr_idempotencyKey request) of
        None \<Rightarrow> Inl (error_response 400 ''IDEMPOTENCY_KEY_REQUIRED'' ''Idempotency-Key header is required for write requests'' i)
      | Some [] \<Rightarrow> Inl (error_response 400 ''IDEMPOTENCY_KEY_REQUIRED'' ''Idempotency-Key header is required for write requests'' i)
      | Some key \<Rightarrow>
          if \<not> (case rr_contentType request of None \<Rightarrow> False | Some t \<Rightarrow> has_substring (lower t) ''application/json'')
          then Inl (error_response 415 ''UNSUPPORTED_MEDIA_TYPE'' ''Content-Type must be application/json'' i)
          else case rr_json request of
              None \<Rightarrow> Inl (error_response 400 ''INVALID_JSON_BODY'' ''request body is not valid JSON'' i)
            | Some (JsObject fs) \<Rightarrow> Inr (key, JsObject fs)
            | Some _ \<Rightarrow> Inl (error_response 400 ''INVALID_JSON_BODY'' ''JSON body must be an object'' i))"

definition failure_response :: "error \<Rightarrow> string \<Rightarrow> rest_response" where
  "failure_response e i =
     (case e of RegistryError code message \<Rightarrow> error_response (error_status code) (error_code_text code) message i
      | _ \<Rightarrow> error_response 500 ''INTERNAL_ERROR'' ''an unexpected error occurred'' i)"

text \<open>The command of a request, or the answer that refuses it; a path that does not decode throws.\<close>

definition rest_command_of ::
  "(string \<Rightarrow> string option) \<Rightarrow> rest_request \<Rightarrow> string \<Rightarrow> rest_response + route \<times> rest_command" where
  "rest_command_of wide request i =
     (case first_match (upper (rr_method request)) (rr_pathname request) routes of
        None \<Rightarrow> Inl (error_response 404 ''NOT_FOUND'' ''route not found'' i)
      | Some (r, parts) \<Rightarrow>
          (case those (map (decode_uri wide) parts) of
             None \<Rightarrow> Inl (failure_response (Error ''URI malformed'') i)
           | Some values \<Rightarrow>
               let command = (\<lambda>body key. \<lparr>rc_operation = rt_operation r, rc_path = from_entries (zip (rt_names r) values),
                 rc_query = from_entries (rr_search request), rc_body = body, rc_idempotencyKey = key, rc_requestId = i\<rparr>)
               in if rt_write r
                  then map_sum id (\<lambda>(key, body). (r, command (Some body) (Some key))) (read_write request i)
                  else Inr (r, command None None)))"

definition rest_handle ::
  "(string \<Rightarrow> string option) \<Rightarrow> (rest_command \<Rightarrow> ('s, json) comp) \<Rightarrow> string \<Rightarrow> rest_request \<Rightarrow> 's \<Rightarrow> rest_response \<times> 's" where
  "rest_handle wide backend i request s =
     (case rest_command_of wide request i of
        Inl response \<Rightarrow> (response, s)
      | Inr (r, command) \<Rightarrow>
          (case backend command s of
             (Inl e, s') \<Rightarrow> (failure_response e i, s')
           | (Inr v, s') \<Rightarrow>
               (if stringifies v then json_response (if rt_write r then 201 else 200) (JsObject [(''data'', v), (''requestId'', JsString i)]) i
                else failure_response (Error ''Do not know how to serialize a BigInt'') i, s')))"

section \<open>Round trips\<close>

lemma hex_value_upper [simp]: "n < 16 \<Longrightarrow> hex_value (upper_hex n) = Some n"
proof -
  assume "n < 16"
  then have "n + 48 < 58 \<and> n < 10 \<or> 65 \<le> n + 55 \<and> n + 55 < 71 \<and> \<not> n < 10" by linarith
  then show ?thesis by (auto simp: hex_value_def upper_hex_def Let_def)
qed

lemma hex_byte_percent [simp]: "b < 256 \<Longrightarrow> hex_byte (upper_hex (b div 16)) (upper_hex (b mod 16)) = Some b"
  by (simp add: hex_byte_def less_mult_imp_div_less)

lemma decode_encode_char: "decode_uri wide (encode_char c @ s) = map_option ((#) c) (decode_uri wide s)"
proof -
  define n where "n = (of_char c :: nat)"
  have n: "n < 256" "char_of n = c" by (simp_all add: n_def)
  consider "unreserved c" | "\<not> unreserved c" "n < 128" | "\<not> unreserved c" "128 \<le> n" by linarith
  then show ?thesis
  proof cases
    case 1
    moreover have "c \<noteq> CHR ''%''" using 1 by (auto simp: unreserved_def alphanumeric_def Let_def)
    ultimately show ?thesis by (simp add: encode_char_def)
  next
    case 2
    then have "encode_char c = percent n" by (simp add: encode_char_def n_def)
    then show ?thesis using 2 n by (simp add: percent_def)
  next
    case 3
    then have e: "encode_char c = percent (192 + n div 64) @ percent (128 + n mod 64)" by (simp add: encode_char_def n_def Let_def)
    have "n div 64 = 2 \<or> n div 64 = 3" using 3 n(1) by linarith
    moreover have "64 * (n div 64) + n mod 64 = n" by simp
    ultimately show ?thesis using n by (auto simp: e percent_def)
  qed
qed

lemma decode_encode [simp]: "decode_uri wide (encode_uri s) = Some s"
proof (induction s)
  case (Cons c s)
  then show ?case using decode_encode_char [of wide c "encode_uri s"] by (simp add: encode_uri_def)
qed (simp add: encode_uri_def)

lemma encode_char_nonempty: "encode_char c \<noteq> []"
  by (simp add: encode_char_def percent_def Let_def)

lemma encode_Nil [simp]: "encode_uri s = [] \<longleftrightarrow> s = []"
  by (cases s) (simp_all add: encode_uri_def encode_char_nonempty)

lemma encode_char_no_slash: "CHR ''/'' \<notin> set (encode_char c)"
proof -
  have hex: "upper_hex n \<noteq> CHR ''/''" if "n < 16" for n
  proof
    assume "upper_hex n = CHR ''/''"
    then have "hex_value (CHR ''/'') = Some n" using hex_value_upper [OF that] by simp
    then show False by (simp add: hex_value_def)
  qed
  have "CHR ''/'' \<notin> set (percent b)" if "b < 256" for b
    using hex [of "b div 16"] hex [of "b mod 16"] that by (simp add: percent_def less_mult_imp_div_less)
  moreover have "c \<noteq> CHR ''/''" if "unreserved c" using that by (auto simp: unreserved_def alphanumeric_def Let_def)
  moreover have "of_char c < (256 :: nat)" by simp
  moreover from this have "192 + of_char c div 64 < (256 :: nat)" "128 + of_char c mod 64 < (256 :: nat)" by linarith+
  ultimately show ?thesis by (auto simp: encode_char_def Let_def)
qed

lemma encode_no_slash: "CHR ''/'' \<notin> set (encode_uri s)"
  using encode_char_no_slash by (auto simp: encode_uri_def)

text \<open>The segments of a path are those it was joined from.\<close>

definition join_path :: "string list \<Rightarrow> string" where
  "join_path ss = concat (map ((#) (CHR ''/'')) ss)"

lemma split_no_separator: "c \<notin> set s \<Longrightarrow> split_on c s = [s]"
  by (induction s) auto

lemma split_on_append: "c \<notin> set s \<Longrightarrow> split_on c (s @ c # t) = s # split_on c t"
  by (induction s) auto

lemma split_join_path: "\<forall>s \<in> set ss. c \<notin> set s \<Longrightarrow> split_on c (concat (map ((#) c) ss)) = [] # ss"
proof (induction ss)
  case (Cons s ss)
  then show ?case by (cases ss) (simp_all add: split_no_separator split_on_append)
qed simp

lemma match_join_path: "\<forall>s \<in> set ss. CHR ''/'' \<notin> set s \<Longrightarrow> match_path pattern (join_path ss) = match_segments pattern ss"
  by (simp add: match_path_def join_path_def split_join_path)

section \<open>Answers\<close>

text \<open>Every answer has a status of the documented list, carries the request id, and is a success only after the backend succeeded.\<close>

lemma read_write_refuses:
  assumes "read_write request i = Inl response"
  shows "rs_status response \<in> {400, 415} \<and> rs_requestId response = i"
  using assms by (auto simp: read_write_def error_response_def json_response_def split: option.splits list.splits if_splits json.splits)

lemma failure_response_status:
  "rs_status (failure_response e i) \<in> {400, 404, 409, 500} \<and> rs_requestId (failure_response e i) = i"
  by (cases e) (auto simp: failure_response_def error_response_def json_response_def error_status_def)

lemma command_refused:
  assumes "rest_command_of wide request i = Inl response"
  shows "rs_status response \<in> {400, 404, 415, 500} \<and> rs_requestId response = i"
proof -
  from assms consider "response = error_response 404 ''NOT_FOUND'' ''route not found'' i"
    | "response = failure_response (Error ''URI malformed'') i" | "read_write request i = Inl response"
    by (auto simp: rest_command_of_def Let_def map_sum_def split: option.splits prod.splits if_splits sum.splits)
  then show ?thesis
    by cases (auto simp: failure_response_def error_response_def json_response_def dest: read_write_refuses)
qed

lemma command_keyed:
  assumes "rest_command_of wide request i = Inr (r, command)"
  shows "r \<in> set routes \<and> rc_operation command = rt_operation r \<and> rc_requestId command = i
    \<and> (rt_write r \<longrightarrow> (\<exists>key fs. rc_idempotencyKey command = Some key \<and> key \<noteq> [] \<and> rc_body command = Some (JsObject fs)))
    \<and> (\<not> rt_write r \<longrightarrow> rc_idempotencyKey command = None \<and> rc_body command = None)"
proof -
  have mem: "first_match m p rs = Some (x, parts) \<Longrightarrow> x \<in> set rs" for m p rs x parts
    by (induction rs) (auto split: if_splits option.splits)
  have wrote: "read_write request i = Inr (key, body) \<Longrightarrow> key \<noteq> [] \<and> (\<exists>fs. body = JsObject fs)" for key body
    by (auto simp: read_write_def split: option.splits list.splits if_splits json.splits)
  show ?thesis
    using assms mem wrote
    by (auto simp: rest_command_of_def Let_def map_sum_def split: option.splits prod.splits if_splits sum.splits)
qed

end
