(* ===== verification/Client_Sdk.thy ===== *)
theory Client_Sdk
  imports Rest_Api
begin

text \<open>
  The TypeScript client of packages/sdk-typescript/src/index.ts: the request each method builds, the transport, and the
  outcome a caller sees. \<open>fetch\<close> and the URL parser are parameters. The last section runs the client against the REST
  handler: what the caller asked for is what the backend is asked to do, and its answer comes back.
\<close>

section \<open>Errors and options\<close>

text \<open>A failed call: an API error with what the server said, or an error of the client itself. An absent field is undefined.\<close>

record api_error =
  ae_status :: nat
  ae_code :: json
  ae_message :: json
  ae_requestId :: json
  ae_details :: json

datatype sdk_failure = Api_Error api_error | Type_Error string | Fetch_Error error

definition retryable :: "api_error \<Rightarrow> bool" where
  "retryable e \<longleftrightarrow> ae_status e = 408 \<or> ae_status e = 429 \<or> 500 \<le> ae_status e"

record parsed_url =
  ul_protocol :: string
  ul_hostname :: string
  ul_href :: string

definition normalize_base_url :: "(string \<Rightarrow> parsed_url option) \<Rightarrow> string \<Rightarrow> sdk_failure + string" where
  "normalize_base_url parse value =
     (case parse value of
        None \<Rightarrow> Inl (Type_Error ''Invalid URL'')
      | Some url \<Rightarrow>
          if ul_protocol url \<noteq> ''https:''
            \<and> \<not> (ul_protocol url = ''http:'' \<and> ul_hostname url \<in> set [''localhost'', ''127.0.0.1'', ''::1''])
          then Inl (Type_Error ''InterWeave baseUrl must use HTTPS except for localhost'')
          else Inr (if ul_href url \<noteq> [] \<and> last (ul_href url) = CHR ''/'' then butlast (ul_href url) else ul_href url))"

record sdk_options =
  so_apiKey :: string
  so_baseUrl :: "string option"

record sdk_client =
  sk_apiKey :: string
  sk_baseUrl :: string

definition new_sdk :: "(string \<Rightarrow> parsed_url option) \<Rightarrow> sdk_options \<Rightarrow> sdk_failure + sdk_client" where
  "new_sdk parse options =
     (if blank (so_apiKey options) then Inl (Type_Error ''InterWeave apiKey is required'')
      else map_sum id (\<lambda>base. \<lparr>sk_apiKey = so_apiKey options, sk_baseUrl = base\<rparr>)
        (normalize_base_url parse (case so_baseUrl options of None \<Rightarrow> ''https://api.interweave.dev'' | Some u \<Rightarrow> u)))"

section \<open>The transport\<close>

record raw_request =
  rw_method :: "string option"
  rw_path :: string
  rw_body :: "json option"
  rw_query :: "(string \<times> string option) list"
  rw_idempotencyKey :: "string option"

text \<open>What \<open>fetch\<close> is given; the search parameters are those added to the URL.\<close>

record fetch_request =
  fq_method :: string
  fq_url :: string
  fq_search :: "(string \<times> string) list"
  fq_headers :: "(string \<times> string) list"
  fq_body :: "json option"

text \<open>What it resolves to; the payload is absent when the body is not JSON.\<close>

record fetch_response =
  fs_status :: nat
  fs_payload :: "json option"
  fs_requestId :: "string option"

record 'a raw_result =
  rx_data :: 'a
  rx_requestId :: json
  rx_status :: nat

definition member :: "string \<Rightarrow> json \<Rightarrow> json" where
  "member k v = (case v of JsObject fs \<Rightarrow> (case map_of fs k of None \<Rightarrow> JsUndefined | Some x \<Rightarrow> x) | _ \<Rightarrow> JsUndefined)"

definition default_to :: "json \<Rightarrow> json \<Rightarrow> json" where
  "default_to v d = (if v = JsUndefined \<or> v = JsNull then d else v)"

definition header_value :: "string option \<Rightarrow> json" where
  "header_value h = (case h of None \<Rightarrow> JsUndefined | Some s \<Rightarrow> JsString s)"

definition set_search :: "(string \<times> string option) list \<Rightarrow> (string \<times> string) list" where
  "set_search query = fold (\<lambda>(k, v) acc. case v of None \<Rightarrow> acc | Some t \<Rightarrow> map_set k t acc) query []"

text \<open>A key the caller does not give is generated.\<close>

definition build_fetch :: "sdk_client \<Rightarrow> string \<Rightarrow> raw_request \<Rightarrow> fetch_request" where
  "build_fetch c generated i =
     \<lparr>fq_method = (case rw_method i of None \<Rightarrow> ''GET'' | Some m \<Rightarrow> m), fq_url = sk_baseUrl c @ rw_path i,
      fq_search = set_search (rw_query i),
      fq_headers = [(''accept'', ''application/json''), (''authorization'', ''Bearer '' @ sk_apiKey c)]
        @ (if rw_body i \<noteq> None then [(''content-type'', ''application/json'')] else [])
        @ (if rw_method i = Some ''POST''
           then [(''idempotency-key'', case rw_idempotencyKey i of None \<Rightarrow> generated | Some k \<Rightarrow> k)] else []),
      fq_body = map_option wire (rw_body i)\<rparr>"

definition read_response :: "fetch_response \<Rightarrow> sdk_failure + json raw_result" where
  "read_response r =
     (let failure = (case fs_payload r of None \<Rightarrow> JsUndefined | Some p \<Rightarrow> member ''error'' p) in
      if \<not> (200 \<le> fs_status r \<and> fs_status r < 300)
      then Inl (Api_Error \<lparr>ae_status = fs_status r, ae_code = default_to (member ''code'' failure) (JsString ''HTTP_ERROR''),
        ae_message = default_to (member ''message'' failure)
          (JsString (''InterWeave API request failed with status '' @ nat_to_string (fs_status r))),
        ae_requestId = default_to (member ''requestId'' failure) (header_value (fs_requestId r)),
        ae_details = member ''details'' failure\<rparr>)
      else case fs_payload r of
          Some (JsObject fs) \<Rightarrow>
            if map_of fs ''data'' \<noteq> None
            then Inr \<lparr>rx_data = member ''data'' (JsObject fs), rx_requestId = member ''requestId'' (JsObject fs), rx_status = fs_status r\<rparr>
            else Inl (Api_Error \<lparr>ae_status = fs_status r, ae_code = JsString ''INVALID_RESPONSE'',
              ae_message = JsString ''InterWeave API returned an invalid response'', ae_requestId = header_value (fs_requestId r),
              ae_details = JsUndefined\<rparr>)
        | _ \<Rightarrow> Inl (Api_Error \<lparr>ae_status = fs_status r, ae_code = JsString ''INVALID_RESPONSE'',
              ae_message = JsString ''InterWeave API returned an invalid response'', ae_requestId = header_value (fs_requestId r),
              ae_details = JsUndefined\<rparr>))"

text \<open>\<open>raw\<close> and \<open>data\<close>: a timeout, an abort or a URL that does not parse is a failure of \<open>fetch\<close>.\<close>

type_synonym 's fetcher = "fetch_request \<Rightarrow> 's \<Rightarrow> (error + fetch_response) \<times> 's"

definition sdk_raw :: "'s fetcher \<Rightarrow> sdk_client \<Rightarrow> string \<Rightarrow> raw_request \<Rightarrow> 's \<Rightarrow> (sdk_failure + json raw_result) \<times> 's" where
  "sdk_raw fetch c generated i s =
     (if \<not> (case rw_body i of None \<Rightarrow> True | Some v \<Rightarrow> stringifies v)
      then (Inl (Type_Error ''Do not know how to serialize a BigInt''), s)
      else case fetch (build_fetch c generated i) s of
        (Inl e, s') \<Rightarrow> (Inl (Fetch_Error e), s')
      | (Inr r, s') \<Rightarrow> (read_response r, s'))"

definition sdk_data :: "'s fetcher \<Rightarrow> sdk_client \<Rightarrow> string \<Rightarrow> raw_request \<Rightarrow> 's \<Rightarrow> (sdk_failure + json) \<times> 's" where
  "sdk_data fetch c generated i s = (let (r, s') = sdk_raw fetch c generated i s in (map_sum id rx_data r, s'))"

section \<open>The methods\<close>

datatype sdk_call = Networks_List
  | Assets_Create json "string option" | Assets_Get string | Assets_Balance string "string option" "string option"
  | Identities_Create json "string option" | Identities_Bind string json "string option"
  | Transfers_Create json "string option" | Transfers_Get string
  | Bridge_Move json "string option" | Bridge_Get string
  | Settlement_Create json "string option" | Settlement_Get string
  | Attestations_Request json "string option" | Attestations_Get string
  | Transactions_Get string
  | Webhooks_Create json "string option"

definition sdk_get :: "string \<Rightarrow> raw_request" where
  "sdk_get path = \<lparr>rw_method = None, rw_path = path, rw_body = None, rw_query = [], rw_idempotencyKey = None\<rparr>"

definition sdk_post :: "string \<Rightarrow> json \<Rightarrow> string option \<Rightarrow> raw_request" where
  "sdk_post path body key =
     \<lparr>rw_method = Some ''POST'', rw_path = path, rw_body = (if body = JsUndefined then None else Some body), rw_query = [],
      rw_idempotencyKey = key\<rparr>"

fun sdk_request :: "sdk_call \<Rightarrow> raw_request" where
  "sdk_request Networks_List = sdk_get ''/v1/networks''"
| "sdk_request (Assets_Create v k) = sdk_post ''/v1/assets'' v k"
| "sdk_request (Assets_Get i) = sdk_get (''/v1/assets/'' @ encode_uri i)"
| "sdk_request (Assets_Balance i identity network) = (sdk_get (''/v1/assets/'' @ encode_uri i @ ''/balances''))
     \<lparr>rw_query := [(''identityId'', identity), (''networkId'', network)]\<rparr>"
| "sdk_request (Identities_Create v k) = sdk_post ''/v1/identities'' v k"
| "sdk_request (Identities_Bind i v k) = sdk_post (''/v1/identities/'' @ encode_uri i @ ''/bindings'') v k"
| "sdk_request (Transfers_Create v k) = sdk_post ''/v1/transfers'' v k"
| "sdk_request (Transfers_Get i) = sdk_get (''/v1/transfers/'' @ encode_uri i)"
| "sdk_request (Bridge_Move v k) = sdk_post ''/v1/bridge/transfers'' v k"
| "sdk_request (Bridge_Get i) = sdk_get (''/v1/bridge/transfers/'' @ encode_uri i)"
| "sdk_request (Settlement_Create v k) = sdk_post ''/v1/settlements'' v k"
| "sdk_request (Settlement_Get i) = sdk_get (''/v1/settlements/'' @ encode_uri i)"
| "sdk_request (Attestations_Request v k) = sdk_post ''/v1/attestations'' v k"
| "sdk_request (Attestations_Get i) = sdk_get (''/v1/attestations/'' @ encode_uri i)"
| "sdk_request (Transactions_Get i) = sdk_get (''/v1/transactions/'' @ encode_uri i)"
| "sdk_request (Webhooks_Create v k) = sdk_post ''/v1/webhooks'' v k"

definition sdk_run :: "'s fetcher \<Rightarrow> sdk_client \<Rightarrow> string \<Rightarrow> sdk_call \<Rightarrow> 's \<Rightarrow> (sdk_failure + json) \<times> 's" where
  "sdk_run fetch c generated call = sdk_data fetch c generated (sdk_request call)"

section \<open>Against the REST handler\<close>

text \<open>
  \<open>fetch\<close> when the other end is the handler: header values with NUL, CR or LF are refused, the rest arrives as it is.
  \<open>pathname\<close> is the path of a URL.
\<close>

definition header_ok :: "string \<Rightarrow> bool" where
  "header_ok v \<longleftrightarrow> list_all (\<lambda>c. (of_char c :: nat) \<notin> {0, 10, 13}) v"

definition fetch_rest ::
  "(string \<Rightarrow> string option) \<Rightarrow> (string \<Rightarrow> string) \<Rightarrow> (rest_command \<Rightarrow> ('s, json) comp) \<Rightarrow> string \<Rightarrow> 's fetcher" where
  "fetch_rest wide pathname backend i q s =
     (if \<not> list_all (\<lambda>(_, v). header_ok v) (fq_headers q) then (Inl (Error ''invalid header value''), s)
      else let (r, s') = rest_handle wide backend i
          \<lparr>rr_method = fq_method q, rr_pathname = pathname (fq_url q), rr_search = fq_search q,
           rr_idempotencyKey = map_of (fq_headers q) ''idempotency-key'', rr_contentType = map_of (fq_headers q) ''content-type'',
           rr_json = fq_body q\<rparr> s
        in (Inr \<lparr>fs_status = rs_status r, fs_payload = Some (rs_body r), fs_requestId = Some (rs_requestId r)\<rparr>, s'))"

text \<open>What each call means, read off the documentation of the API.\<close>

fun sdk_operation :: "sdk_call \<Rightarrow> rest_operation" where
  "sdk_operation Networks_List = NETWORKS_LIST"
| "sdk_operation (Assets_Create v k) = ASSETS_CREATE"
| "sdk_operation (Assets_Get i) = ASSETS_GET"
| "sdk_operation (Assets_Balance i identity network) = ASSETS_BALANCE"
| "sdk_operation (Identities_Create v k) = IDENTITIES_CREATE"
| "sdk_operation (Identities_Bind i v k) = IDENTITIES_BIND"
| "sdk_operation (Transfers_Create v k) = TRANSFERS_CREATE_OP"
| "sdk_operation (Transfers_Get i) = TRANSFERS_GET"
| "sdk_operation (Bridge_Move v k) = BRIDGE_CREATE_OP"
| "sdk_operation (Bridge_Get i) = BRIDGE_GET"
| "sdk_operation (Settlement_Create v k) = SETTLEMENTS_CREATE_OP"
| "sdk_operation (Settlement_Get i) = SETTLEMENTS_GET"
| "sdk_operation (Attestations_Request v k) = ATTESTATIONS_CREATE_OP"
| "sdk_operation (Attestations_Get i) = ATTESTATIONS_GET"
| "sdk_operation (Transactions_Get i) = TRANSACTIONS_GET"
| "sdk_operation (Webhooks_Create v k) = WEBHOOKS_CREATE"

fun sdk_id :: "sdk_call \<Rightarrow> string option" where
  "sdk_id (Assets_Get i) = Some i"
| "sdk_id (Assets_Balance i identity network) = Some i"
| "sdk_id (Identities_Bind i v k) = Some i"
| "sdk_id (Transfers_Get i) = Some i"
| "sdk_id (Bridge_Get i) = Some i"
| "sdk_id (Settlement_Get i) = Some i"
| "sdk_id (Attestations_Get i) = Some i"
| "sdk_id (Transactions_Get i) = Some i"
| "sdk_id call = None"

fun sdk_write :: "sdk_call \<Rightarrow> (json \<times> string option) option" where
  "sdk_write (Assets_Create v k) = Some (v, k)"
| "sdk_write (Identities_Create v k) = Some (v, k)"
| "sdk_write (Identities_Bind i v k) = Some (v, k)"
| "sdk_write (Transfers_Create v k) = Some (v, k)"
| "sdk_write (Bridge_Move v k) = Some (v, k)"
| "sdk_write (Settlement_Create v k) = Some (v, k)"
| "sdk_write (Attestations_Request v k) = Some (v, k)"
| "sdk_write (Webhooks_Create v k) = Some (v, k)"
| "sdk_write call = None"

fun sdk_query :: "sdk_call \<Rightarrow> (string \<times> string) list" where
  "sdk_query (Assets_Balance i identity network) =
     (case identity of None \<Rightarrow> [] | Some x \<Rightarrow> [(''identityId'', x)]) @ (case network of None \<Rightarrow> [] | Some x \<Rightarrow> [(''networkId'', x)])"
| "sdk_query call = []"

definition sdk_key :: "string \<Rightarrow> sdk_call \<Rightarrow> string option" where
  "sdk_key generated call = map_option (\<lambda>(v, k). case k of None \<Rightarrow> generated | Some x \<Rightarrow> x) (sdk_write call)"

definition sdk_command :: "string \<Rightarrow> string \<Rightarrow> sdk_call \<Rightarrow> rest_command" where
  "sdk_command i generated call = \<lparr>rc_operation = sdk_operation call, rc_path = (case sdk_id call of None \<Rightarrow> [] | Some x \<Rightarrow> [(''id'', x)]),
     rc_query = sdk_query call, rc_body = map_option (\<lambda>(v, k). wire v) (sdk_write call), rc_idempotencyKey = sdk_key generated call,
     rc_requestId = i\<rparr>"

text \<open>A call the types of the client allow, with an id that is a path segment and a key that is a header value.\<close>

definition sdk_call_ok :: "string \<Rightarrow> sdk_call \<Rightarrow> bool" where
  "sdk_call_ok generated call \<longleftrightarrow> (case sdk_id call of None \<Rightarrow> True | Some x \<Rightarrow> x \<notin> {[], ''.'', ''..''})
     \<and> (case sdk_write call of None \<Rightarrow> True | Some (v, _) \<Rightarrow> (\<exists>fs. v = JsObject fs) \<and> stringifies v)
     \<and> (case sdk_key generated call of None \<Rightarrow> True | Some k \<Rightarrow> k \<noteq> [] \<and> trim k = k \<and> header_ok k)"

fun sdk_segments :: "sdk_call \<Rightarrow> string list" where
  "sdk_segments Networks_List = [''v1'', ''networks'']"
| "sdk_segments (Assets_Create v k) = [''v1'', ''assets'']"
| "sdk_segments (Assets_Get i) = [''v1'', ''assets'', i]"
| "sdk_segments (Assets_Balance i identity network) = [''v1'', ''assets'', i, ''balances'']"
| "sdk_segments (Identities_Create v k) = [''v1'', ''identities'']"
| "sdk_segments (Identities_Bind i v k) = [''v1'', ''identities'', i, ''bindings'']"
| "sdk_segments (Transfers_Create v k) = [''v1'', ''transfers'']"
| "sdk_segments (Transfers_Get i) = [''v1'', ''transfers'', i]"
| "sdk_segments (Bridge_Move v k) = [''v1'', ''bridge'', ''transfers'']"
| "sdk_segments (Bridge_Get i) = [''v1'', ''bridge'', ''transfers'', i]"
| "sdk_segments (Settlement_Create v k) = [''v1'', ''settlements'']"
| "sdk_segments (Settlement_Get i) = [''v1'', ''settlements'', i]"
| "sdk_segments (Attestations_Request v k) = [''v1'', ''attestations'']"
| "sdk_segments (Attestations_Get i) = [''v1'', ''attestations'', i]"
| "sdk_segments (Transactions_Get i) = [''v1'', ''transactions'', i]"
| "sdk_segments (Webhooks_Create v k) = [''v1'', ''webhooks'']"

lemma encoded_literals [simp]:
  "encode_uri ''v1'' = ''v1''" "encode_uri ''networks'' = ''networks''" "encode_uri ''assets'' = ''assets''"
  "encode_uri ''balances'' = ''balances''" "encode_uri ''identities'' = ''identities''" "encode_uri ''bindings'' = ''bindings''"
  "encode_uri ''transfers'' = ''transfers''" "encode_uri ''bridge'' = ''bridge''" "encode_uri ''settlements'' = ''settlements''"
  "encode_uri ''attestations'' = ''attestations''" "encode_uri ''transactions'' = ''transactions''" "encode_uri ''webhooks'' = ''webhooks''"
  by (simp_all add: encode_uri_def encode_char_def unreserved_def alphanumeric_def)

lemma sdk_path: "rw_path (sdk_request call) = join_path (map encode_uri (sdk_segments call))"
  by (cases call) (simp_all add: sdk_get_def sdk_post_def join_path_def)

lemma match_encoded: "match_path pattern (join_path (map encode_uri ss)) = match_segments pattern (map encode_uri ss)"
  by (rule match_join_path) (auto simp: encode_no_slash)

fun first_segments :: "string \<Rightarrow> string list \<Rightarrow> route list \<Rightarrow> (route \<times> string list) option" where
  "first_segments m ss [] = None"
| "first_segments m ss (r # rs) =
     (case (if rt_method r = m then match_segments (rt_pattern r) ss else None) of
        Some parts \<Rightarrow> Some (r, parts) | None \<Rightarrow> first_segments m ss rs)"

lemma first_match_encoded: "first_match m (join_path (map encode_uri ss)) rs = first_segments m (map encode_uri ss) rs"
  by (induction rs) (auto simp: match_encoded split: option.split)

lemma sdk_routed:
  assumes "case sdk_id call of None \<Rightarrow> True | Some x \<Rightarrow> x \<noteq> []"
  shows "\<exists>r. first_match (if sdk_write call = None then ''GET'' else ''POST'') (join_path (map encode_uri (sdk_segments call))) routes
      = Some (r, case sdk_id call of None \<Rightarrow> [] | Some x \<Rightarrow> [encode_uri x])
    \<and> rt_operation r = sdk_operation call \<and> rt_write r = (sdk_write call \<noteq> None)
    \<and> rt_names r = (case sdk_id call of None \<Rightarrow> [] | Some x \<Rightarrow> [''id''])"
  unfolding first_match_encoded using assms by (cases call) (simp_all add: routes_def)

lemma upper_methods [simp]: "upper ''GET'' = ''GET''" "upper ''POST'' = ''POST''"
  by (simp_all add: upper_def)

lemma build_fetch_read:
  assumes "sdk_write call = None"
  shows "build_fetch c generated (sdk_request call) =
    \<lparr>fq_method = ''GET'', fq_url = sk_baseUrl c @ rw_path (sdk_request call), fq_search = sdk_query call,
     fq_headers = [(''accept'', ''application/json''), (''authorization'', ''Bearer '' @ sk_apiKey c)], fq_body = None\<rparr>"
  using assms by (cases call) (simp_all add: build_fetch_def sdk_get_def set_search_def split: option.split)

lemma build_fetch_write:
  assumes "sdk_write call = Some (v, k)" "v \<noteq> JsUndefined"
  shows "build_fetch c generated (sdk_request call) =
    \<lparr>fq_method = ''POST'', fq_url = sk_baseUrl c @ rw_path (sdk_request call), fq_search = sdk_query call,
     fq_headers = [(''accept'', ''application/json''), (''authorization'', ''Bearer '' @ sk_apiKey c), (''content-type'', ''application/json''),
       (''idempotency-key'', the (sdk_key generated call))], fq_body = Some (wire v)\<rparr>"
  using assms by (cases call) (simp_all add: build_fetch_def sdk_post_def set_search_def sdk_key_def)

lemma sdk_body: "rw_body (sdk_request call) = (case sdk_write call of None \<Rightarrow> None | Some (v, k) \<Rightarrow> if v = JsUndefined then None else Some v)"
  by (cases call) (simp_all add: sdk_get_def sdk_post_def)

lemma header_ok_simps [simp]:
  "header_ok []" "header_ok (c # v) \<longleftrightarrow> (of_char c :: nat) \<notin> {0, 10, 13} \<and> header_ok v"
  by (simp_all add: header_ok_def)

lemma json_content_type [simp]: "has_substring (lower ''application/json'') ''application/json''"
  by code_simp

lemma decoded_id: "those (map (decode_uri wide) (case o' of None \<Rightarrow> [] | Some x \<Rightarrow> [encode_uri x])) = Some (case o' of None \<Rightarrow> [] | Some x \<Rightarrow> [x])"
  by (cases o') simp_all

lemma sdk_query_entries: "from_entries (sdk_query call) = sdk_query call"
  by (cases call) (simp_all add: from_entries_def split: option.split)

lemma sdk_command_sent:
  assumes "sdk_call_ok generated call"
    and "request = \<lparr>rr_method = (if sdk_write call = None then ''GET'' else ''POST''), rr_pathname = join_path (map encode_uri (sdk_segments call)),
      rr_search = sdk_query call, rr_idempotencyKey = sdk_key generated call,
      rr_contentType = (if sdk_write call = None then None else Some ''application/json''),
      rr_json = map_option (\<lambda>(v, k). wire v) (sdk_write call)\<rparr>"
  shows "\<exists>r. rest_command_of wide request i = Inr (r, sdk_command i generated call) \<and> rt_write r = (sdk_write call \<noteq> None)"
proof -
  from assms(1) have "case sdk_id call of None \<Rightarrow> True | Some x \<Rightarrow> x \<noteq> []" by (simp add: sdk_call_ok_def split: option.splits)
  from sdk_routed [OF this] obtain r where r:
      "first_match (if sdk_write call = None then ''GET'' else ''POST'') (join_path (map encode_uri (sdk_segments call))) routes
         = Some (r, case sdk_id call of None \<Rightarrow> [] | Some x \<Rightarrow> [encode_uri x])"
      "rt_operation r = sdk_operation call" "rt_write r = (sdk_write call \<noteq> None)"
      "rt_names r = (case sdk_id call of None \<Rightarrow> [] | Some x \<Rightarrow> [''id''])" by blast
  have path: "from_entries (zip (rt_names r) (case sdk_id call of None \<Rightarrow> [] | Some x \<Rightarrow> [x])) = (case sdk_id call of None \<Rightarrow> [] | Some x \<Rightarrow> [(''id'', x)])"
    using r(4) by (simp add: from_entries_def split: option.split)
  show ?thesis
  proof (cases "sdk_write call")
    case None
    then show ?thesis
      using r path
      by (intro exI [of _ r]) (simp add: assms(2) rest_command_of_def decoded_id sdk_query_entries sdk_command_def sdk_key_def)
  next
    case (Some w)
    then obtain fs k where w: "sdk_write call = Some (JsObject fs, k)" using assms(1) by (auto simp: sdk_call_ok_def)
    then obtain key where key: "sdk_key generated call = Some key" by (simp add: sdk_key_def)
    then have "key \<noteq> []" "trim key = key" using assms(1) by (simp_all add: sdk_call_ok_def)
    then have "read_write request i = Inr (key, wire (JsObject fs))"
      using key w by (cases key) (simp_all add: assms(2) read_write_def)
    then show ?thesis
      using r path w key
      by (intro exI [of _ r]) (simp add: assms(2) rest_command_of_def decoded_id sdk_query_entries sdk_command_def)
  qed
qed

text \<open>What a caller sees of an error of the backend.\<close>

definition api_error_of :: "error \<Rightarrow> string \<Rightarrow> api_error" where
  "api_error_of e i = (case e of
     RegistryError code message \<Rightarrow> \<lparr>ae_status = error_status code, ae_code = JsString (error_code_text code),
       ae_message = JsString message, ae_requestId = JsString i, ae_details = JsUndefined\<rparr>
   | _ \<Rightarrow> \<lparr>ae_status = 500, ae_code = JsString ''INTERNAL_ERROR'', ae_message = JsString ''an unexpected error occurred'',
       ae_requestId = JsString i, ae_details = JsUndefined\<rparr>)"

definition invalid_response :: "nat \<Rightarrow> string \<Rightarrow> api_error" where
  "invalid_response status i = \<lparr>ae_status = status, ae_code = JsString ''INVALID_RESPONSE'',
     ae_message = JsString ''InterWeave API returned an invalid response'', ae_requestId = JsString i, ae_details = JsUndefined\<rparr>"

lemma read_failure:
  "read_response \<lparr>fs_status = rs_status (failure_response e i), fs_payload = Some (rs_body (failure_response e i)), fs_requestId = q\<rparr>
     = Inl (Api_Error (api_error_of e i))"
  by (cases e) (auto simp: read_response_def failure_response_def error_response_def json_response_def api_error_of_def member_def
      default_to_def error_status_def)

lemma read_success:
  assumes "200 \<le> code" "code < 300"
  shows "read_response \<lparr>fs_status = code, fs_payload = Some (wire (JsObject [(''data'', v), (''requestId'', JsString i)])), fs_requestId = Some i\<rparr>
    = (if wire v = JsUndefined then Inl (Api_Error (invalid_response code i))
       else Inr \<lparr>rx_data = wire v, rx_requestId = JsString i, rx_status = code\<rparr>)"
  using assms by (simp add: read_response_def member_def header_value_def invalid_response_def)

lemma segments_plain:
  assumes "sdk_call_ok generated call"
  shows "''.'' \<notin> set (sdk_segments call) \<and> ''..'' \<notin> set (sdk_segments call)"
  using assms by (cases call) (auto simp: sdk_call_ok_def)

text \<open>The request as it arrives.\<close>

lemma fetch_rest_call:
  assumes ok: "sdk_call_ok generated call" and key: "header_ok (sk_apiKey c)"
    and url: "pathname (sk_baseUrl c @ join_path (map encode_uri (sdk_segments call))) = join_path (map encode_uri (sdk_segments call))"
  shows "fetch_rest wide pathname backend i (build_fetch c generated (sdk_request call)) s =
    (let (r, s') = rest_handle wide backend i
        \<lparr>rr_method = (if sdk_write call = None then ''GET'' else ''POST''), rr_pathname = join_path (map encode_uri (sdk_segments call)),
         rr_search = sdk_query call, rr_idempotencyKey = sdk_key generated call,
         rr_contentType = (if sdk_write call = None then None else Some ''application/json''),
         rr_json = map_option (\<lambda>(v, k). wire v) (sdk_write call)\<rparr> s
     in (Inr \<lparr>fs_status = rs_status r, fs_payload = Some (rs_body r), fs_requestId = Some (rs_requestId r)\<rparr>, s'))"
proof (cases "sdk_write call")
  case None
  then show ?thesis using key url by (simp add: fetch_rest_def build_fetch_read sdk_path sdk_key_def)
next
  case (Some w)
  then obtain fs k where w: "sdk_write call = Some (JsObject fs, k)" using ok by (auto simp: sdk_call_ok_def)
  then obtain x where x: "sdk_key generated call = Some x" by (simp add: sdk_key_def)
  then have "header_ok x" using ok by (simp add: sdk_call_ok_def)
  with w x show ?thesis using key url by (simp add: fetch_rest_def build_fetch_write [OF w] sdk_path)
qed

text \<open>
  C40. The client, the wire and the handler together are one call of the backend: every method of the client reaches it as
  the operation the method names, with the id the caller gave whatever characters it has, the query and the JSON of the body, and the
  caller's or the generated idempotency key exactly on writes; the backend runs once and its value comes back as the JSON
  it prints to, an error of the registry as an API error with its code, its message and its status, and any other error as a retryable
  internal error that tells nothing of its cause. The URL parser is assumed to leave
  a non-empty path of encoded segments, none of them a dot segment, as it is (of a URL without a path it may answer \<open>/\<close>, as the
  URL standard has it).
\<close>

theorem sdk_reaches_backend:
  assumes "sdk_call_ok generated call" "header_ok (sk_apiKey c)"
    and "\<And>ss. ss \<noteq> [] \<Longrightarrow> ''.'' \<notin> set ss \<Longrightarrow> ''..'' \<notin> set ss \<Longrightarrow>
      pathname (sk_baseUrl c @ join_path (map encode_uri ss)) = join_path (map encode_uri ss)"
  shows "sdk_run (fetch_rest wide pathname backend i) c generated call s =
    (case backend (sdk_command i generated call) s of
       (Inr v, s') \<Rightarrow>
         (if \<not> stringifies v then Inl (Api_Error (api_error_of (Error ''Do not know how to serialize a BigInt'') i))
          else if wire v = JsUndefined then Inl (Api_Error (invalid_response (if sdk_write call = None then 200 else 201) i))
          else Inr (wire v), s')
     | (Inl e, s') \<Rightarrow> (Inl (Api_Error (api_error_of e i)), s'))"
proof -
  let ?request = "\<lparr>rr_method = (if sdk_write call = None then ''GET'' else ''POST''), rr_pathname = join_path (map encode_uri (sdk_segments call)),
         rr_search = sdk_query call, rr_idempotencyKey = sdk_key generated call,
         rr_contentType = (if sdk_write call = None then None else Some ''application/json''),
         rr_json = map_option (\<lambda>(v, k). wire v) (sdk_write call)\<rparr>"
  obtain r where r: "rest_command_of wide ?request i = Inr (r, sdk_command i generated call)" "rt_write r = (sdk_write call \<noteq> None)"
    using sdk_command_sent [OF assms(1) refl] by blast
  have "sdk_segments call \<noteq> []" by (cases call) simp_all
  then have "pathname (sk_baseUrl c @ join_path (map encode_uri (sdk_segments call))) = join_path (map encode_uri (sdk_segments call))"
    using segments_plain [OF assms(1)] by (intro assms(3)) simp_all
  note sent = fetch_rest_call [where pathname = pathname, OF assms(1,2) this]
  have body: "case rw_body (sdk_request call) of None \<Rightarrow> True | Some v \<Rightarrow> stringifies v"
    using assms(1) by (auto simp: sdk_body sdk_call_ok_def split: option.split)
  obtain res s' where b: "backend (sdk_command i generated call) s = (res, s')" by fastforce
  show ?thesis
  proof (cases res)
    case (Inl e)
    then have "rest_handle wide backend i ?request s = (failure_response e i, s')" using b r by (simp add: rest_handle_def)
    then show ?thesis using b Inl body failure_response_status [of e i]
      by (simp add: sdk_run_def sdk_data_def sdk_raw_def sent read_failure)
  next
    case (Inr v)
    show ?thesis
    proof (cases "stringifies v")
      case True
      then have "rest_handle wide backend i ?request s =
          (json_response (if sdk_write call = None then 200 else 201) (JsObject [(''data'', v), (''requestId'', JsString i)]) i, s')"
        using b r Inr by (simp add: rest_handle_def)
      then show ?thesis using b Inr body True
        by (simp add: sdk_run_def sdk_data_def sdk_raw_def sent json_response_def read_success del: wire.simps)
    next
      case False
      let ?e = "Error ''Do not know how to serialize a BigInt''"
      have "rest_handle wide backend i ?request s = (failure_response ?e i, s')" using b r Inr False by (simp add: rest_handle_def)
      then show ?thesis using b Inr False body failure_response_status [of ?e i]
        by (simp add: sdk_run_def sdk_data_def sdk_raw_def sent read_failure)
    qed
  qed
qed

definition counting_backend :: "rest_command \<Rightarrow> (nat, json) comp" where
  "counting_backend command n = (Inr (JsString (case rc_path command of [(_, x)] \<Rightarrow> x | _ \<Rightarrow> [])), n + 1)"

text \<open>The path of a URL with a scheme and a host, without search or fragment: what follows the host, or a slash.\<close>

definition https_pathname :: "string \<Rightarrow> string" where
  "https_pathname url = (case dropWhile (\<lambda>c. c \<noteq> CHR ''/'') (drop (length ''https://'') url) of [] \<Rightarrow> ''/'' | p \<Rightarrow> p)"

lemma https_pathname_base: "https_pathname ''https://api.interweave.dev'' = ''/''"
  by (simp add: https_pathname_def)

lemma https_pathname_path:
  "ss \<noteq> [] \<Longrightarrow> https_pathname (''https://api.interweave.dev'' @ join_path ss) = join_path ss"
  by (cases ss) (simp_all add: https_pathname_def join_path_def)

theorem sdk_reaches_backend_witness:
  "sdk_run (fetch_rest (\<lambda>_. None) https_pathname counting_backend ''r'')
     \<lparr>sk_apiKey = ''k'', sk_baseUrl = ''https://api.interweave.dev''\<rparr> ''g'' (Assets_Get ''IW:ASSET:a/b'') 0
   = (Inr (JsString ''IW:ASSET:a/b''), 1)"
proof -
  let ?c = "\<lparr>sk_apiKey = ''k'', sk_baseUrl = ''https://api.interweave.dev''\<rparr>"
  have "sdk_call_ok ''g'' (Assets_Get ''IW:ASSET:a/b'')" by (simp add: sdk_call_ok_def sdk_key_def)
  moreover have "header_ok (sk_apiKey ?c)" by (simp add: header_ok_def)
  moreover have "https_pathname (sk_baseUrl ?c @ join_path (map encode_uri ss)) = join_path (map encode_uri ss)" if "ss \<noteq> []" for ss
    using https_pathname_path [of "map encode_uri ss"] that by simp
  ultimately have "sdk_run (fetch_rest (\<lambda>_. None) https_pathname counting_backend ''r'') ?c ''g'' (Assets_Get ''IW:ASSET:a/b'') 0 =
    (case counting_backend (sdk_command ''r'' ''g'' (Assets_Get ''IW:ASSET:a/b'')) 0 of
       (Inr v, s') \<Rightarrow>
         (if \<not> stringifies v then Inl (Api_Error (api_error_of (Error ''Do not know how to serialize a BigInt'') ''r''))
          else if wire v = JsUndefined then Inl (Api_Error (invalid_response (if sdk_write (Assets_Get ''IW:ASSET:a/b'') = None then 200 else 201) ''r''))
          else Inr (wire v), s')
     | (Inl e, s') \<Rightarrow> (Inl (Api_Error (api_error_of e ''r'')), s'))"
    by (rule sdk_reaches_backend)
  then show ?thesis by (simp add: sdk_command_def counting_backend_def)
qed

section \<open>What the boundary lets through\<close>

text \<open>Of the errors of the backend only those that are not the registry's are retryable.\<close>

lemma retryable_api_error: "retryable (api_error_of e i) \<longleftrightarrow> \<not> (\<exists>code message. e = RegistryError code message)"
  by (cases e) (simp_all add: retryable_def api_error_of_def error_status_def)

text \<open>The host name of an IPv6 address keeps its brackets, so the local address that the check names is refused.\<close>

lemma ipv6_localhost_refused:
  "parse u = Some \<lparr>ul_protocol = ''http:'', ul_hostname = ''[::1]'', ul_href = h\<rparr> \<Longrightarrow>
     normalize_base_url parse u = Inl (Type_Error ''InterWeave baseUrl must use HTTPS except for localhost'')"
  by (simp add: normalize_base_url_def)

text \<open>A value that prints as nothing, such as what a backend without a result returns, is a success to the handler and an error to the client.\<close>

lemma undefined_result_is_error:
  "read_response \<lparr>fs_status = 200, fs_payload = Some (wire (JsObject [(''data'', JsUndefined), (''requestId'', JsString i)])), fs_requestId = Some i\<rparr>
     = Inl (Api_Error (invalid_response 200 i))"
  by (simp only: read_success) simp

end
