(* ===== verification/Client_Cli.thy ===== *)
theory Client_Cli
  imports Client_Sdk
begin

text \<open>
  The command line client of packages/cli/src/index.ts: what a command line asks of the TypeScript client and the exit code. The
  texts it prints are not modelled. \<open>JSON.parse\<close> is a parameter, as is the \<open>fetch\<close> behind the client; a missing
  environment variable is \<open>None\<close>.
\<close>

record cli_env =
  ce_apiKey :: "string option"
  ce_baseUrl :: "string option"

text \<open>An argument that is missing or empty.\<close>

definition cli_arg :: "nat \<Rightarrow> string list \<Rightarrow> string option" where
  "cli_arg n args = (if n < length args then Some (args ! n) else None)"

definition cli_required :: "string option \<Rightarrow> string \<Rightarrow> string + string" where
  "cli_required v name = (if truthy v then Inr (the v) else Inl (name @ '' is required''))"

definition find_index :: "string \<Rightarrow> string list \<Rightarrow> nat option" where
  "find_index x xs = (let n = length (takeWhile (\<lambda>y. y \<noteq> x) xs) in if n < length xs then Some n else None)"

definition needs_data :: string where
  "needs_data = ''create commands require --data '' @ [CHR 0x27] @ ''{...}'' @ [CHR 0x27]"

definition cli_payload :: "(string \<Rightarrow> string + json) \<Rightarrow> string list \<Rightarrow> string + json" where
  "cli_payload parse rest =
     (case find_index ''--data'' rest of
        None \<Rightarrow> Inl needs_data
      | Some n \<Rightarrow>
          if \<not> truthy (cli_arg (n + 1) rest) then Inl needs_data
          else case parse (rest ! (n + 1)) of
              Inl e \<Rightarrow> Inl e
            | Inr (JsObject fs) \<Rightarrow> Inr (JsObject fs)
            | Inr _ \<Rightarrow> Inl ''--data must be a JSON object'')"

definition cli_by_id :: "(string \<Rightarrow> sdk_call) \<Rightarrow> string option \<Rightarrow> string \<Rightarrow> string + sdk_call" where
  "cli_by_id f v name = map_sum id f (cli_required v name)"

definition cli_create :: "(json \<Rightarrow> string option \<Rightarrow> sdk_call) \<Rightarrow> (string \<Rightarrow> string + json) \<Rightarrow> string list \<Rightarrow> string + sdk_call" where
  "cli_create f parse rest = map_sum id (\<lambda>v. f v None) (cli_payload parse rest)"

definition unknown_command :: string where
  "unknown_command = ''Unknown command. Use auth, projects, networks, assets, balances, transfers, bridge, settlements, transactions, attestations, or doctor.''"

text \<open>The call of the client a command line stands for, without its \<open>--json\<close>.\<close>

definition cli_call :: "(string \<Rightarrow> string + json) \<Rightarrow> string list \<Rightarrow> string + sdk_call" where
  "cli_call parse args =
     (let command = cli_arg 0 args; action = cli_arg 1 args; rest = drop 2 args; first = cli_arg 2 args in
      if command = Some ''networks'' then Inr Networks_List
      else if command = Some ''assets'' \<and> action = Some ''get'' then cli_by_id Assets_Get first ''asset ID''
      else if command = Some ''assets'' \<and> action = Some ''create'' then cli_create Assets_Create parse rest
      else if command = Some ''balances'' then cli_by_id (\<lambda>i. Assets_Balance i None None) action ''asset ID''
      else if command = Some ''transfers'' \<and> action = Some ''get'' then cli_by_id Transfers_Get first ''transfer ID''
      else if command = Some ''transfers'' \<and> action = Some ''create'' then cli_create Transfers_Create parse rest
      else if command = Some ''bridge'' \<and> action = Some ''get'' then cli_by_id Bridge_Get first ''bridge ID''
      else if command = Some ''bridge'' \<and> action = Some ''move'' then cli_create Bridge_Move parse rest
      else if command = Some ''settlements'' \<and> action = Some ''get'' then cli_by_id Settlement_Get first ''settlement ID''
      else if command = Some ''settlements'' \<and> action = Some ''create'' then cli_create Settlement_Create parse rest
      else if command = Some ''transactions'' \<and> action = Some ''get'' then cli_by_id Transactions_Get first ''transaction ID''
      else if command = Some ''attestations'' \<and> action = Some ''get'' then cli_by_id Attestations_Get first ''attestation ID''
      else if command = Some ''attestations'' \<and> action = Some ''request'' then cli_create Attestations_Request parse rest
      else if command = Some ''doctor'' then Inr Networks_List
      else Inl unknown_command)"

text \<open>The exit code, and the answer of the API when there was one.\<close>

definition run_cli ::
  "(string \<Rightarrow> parsed_url option) \<Rightarrow> (string \<Rightarrow> string + json) \<Rightarrow> 's fetcher \<Rightarrow> string \<Rightarrow> cli_env \<Rightarrow> string list \<Rightarrow> 's
   \<Rightarrow> (nat \<times> json option) \<times> 's" where
  "run_cli parse_url parse fetch generated env argv s =
     (let args = filter (\<lambda>x. x \<noteq> ''--json'') argv; command = cli_arg 0 args in
      if command = Some ''auth'' then ((if truthy (ce_apiKey env) then 0 else 1, None), s)
      else if command = Some ''projects'' then ((0, None), s)
      else case new_sdk parse_url \<lparr>so_apiKey = or_else (ce_apiKey env) [], so_baseUrl = ce_baseUrl env\<rparr> of
          Inl e \<Rightarrow> ((1, None), s)
        | Inr client \<Rightarrow>
            (case cli_call parse args of
               Inl message \<Rightarrow> ((1, None), s)
             | Inr call \<Rightarrow>
                 (case sdk_run fetch client generated call s of
                    (Inl e, s') \<Rightarrow> ((1, None), s')
                  | (Inr v, s') \<Rightarrow> ((0, Some v), s'))))"

section \<open>Exit codes\<close>

text \<open>
  A command that exits with an answer got it from the API for the call it stands for; a command the client cannot make
  out never reaches the API.
\<close>

lemma cli_answer:
  assumes "run_cli parse_url parse fetch generated env argv s = ((code, Some v), s')"
  shows "code = 0 \<and> (\<exists>client call. new_sdk parse_url \<lparr>so_apiKey = or_else (ce_apiKey env) [], so_baseUrl = ce_baseUrl env\<rparr> = Inr client
    \<and> cli_call parse (filter (\<lambda>x. x \<noteq> ''--json'') argv) = Inr call \<and> sdk_run fetch client generated call s = (Inr v, s'))"
  using assms by (auto simp: run_cli_def Let_def split: if_splits sum.splits prod.splits)

lemma cli_refusal_is_local:
  assumes "cli_call parse (filter (\<lambda>x. x \<noteq> ''--json'') argv) = Inl message"
  shows "snd (run_cli parse_url parse fetch generated env argv s) = s"
  using assms by (auto simp: run_cli_def Let_def split: sum.splits)

text \<open>A command line names an id only when it is not empty and a body only when it is an object, as the API asks.\<close>

lemma cli_call_shape:
  assumes "cli_call parse args = Inr call"
  shows "sdk_id call \<noteq> Some [] \<and> (\<forall>v k. sdk_write call = Some (v, k) \<longrightarrow> k = None \<and> (\<exists>fs. v = JsObject fs))"
proof -
  have by_id: "\<exists>i. i \<noteq> [] \<and> call = f i" if "cli_by_id f v name = Inr call" for f v name
    using that by (auto simp: cli_by_id_def cli_required_def truthy_def split: if_splits option.splits)
  have create: "\<exists>fs. call = f (JsObject fs) None" if "cli_create f parse rest = Inr call" for f rest
    using that by (auto simp: cli_create_def cli_payload_def split: option.splits if_splits sum.splits json.splits)
  show ?thesis
    using assms unfolding cli_call_def Let_def
    by (auto split: if_splits dest!: by_id create)
qed

end
