(* ===== verification/Observability.thy ===== *)
theory Observability
  imports Complex_Main Canonical_Json
begin

text \<open>
  The telemetry of packages/core/src/observability.ts. What is sent to the OpenTelemetry library is a log of measurements and of
  ended spans. An attribute is a string, a number or a boolean, \<open>JsUndefined\<close> when it is absent; a duration that is
  not finite is \<open>None\<close>. The name of an error is the parameter \<open>name_of\<close>.
\<close>

section \<open>Attributes\<close>

type_synonym attributes = "(string, json) js_map"

definition allowed_attributes :: "string list" where
  "allowed_attributes = [''service.name'', ''deployment.environment'', ''network.type'', ''operation.type'', ''operation.state'',
     ''outcome'', ''error.type'', ''validator.status'', ''finality.kind'', ''event.type'', ''rpc.method'', ''canton.operation'',
     ''trace.stage'']"

definition safe_attributes :: "attributes \<Rightarrow> attributes" where
  "safe_attributes = filter (\<lambda>(k, v). v \<noteq> JsUndefined \<and> k \<in> set allowed_attributes)"

definition optional_text :: "string option \<Rightarrow> json" where
  "optional_text s = (case s of None \<Rightarrow> JsUndefined | Some t \<Rightarrow> JsString t)"

record observation_context =
  ox_networkType :: "string option"
  ox_operationType :: "string option"
  ox_operationState :: "string option"
  ox_outcome :: "string option"
  ox_errorType :: "string option"

definition context_attributes :: "observation_context \<Rightarrow> attributes" where
  "context_attributes c = [(''network.type'', optional_text (ox_networkType c)), (''operation.type'', optional_text (ox_operationType c)),
     (''operation.state'', optional_text (ox_operationState c)), (''outcome'', optional_text (ox_outcome c)),
     (''error.type'', optional_text (ox_errorType c))]"

section \<open>Instruments\<close>

datatype histogram = TRANSACTION | BRIDGE | ATTESTATION | SOURCE_FINALITY | DESTINATION_FINALITY | INGESTION_LAG

fun histogram_name :: "histogram \<Rightarrow> string" where
  "histogram_name TRANSACTION = ''interweave.transaction.duration''"
| "histogram_name BRIDGE = ''interweave.bridge.duration''"
| "histogram_name ATTESTATION = ''interweave.attestation.duration''"
| "histogram_name SOURCE_FINALITY = ''interweave.finality.source.duration''"
| "histogram_name DESTINATION_FINALITY = ''interweave.finality.destination.duration''"
| "histogram_name INGESTION_LAG = ''interweave.event.ingestion.lag''"

datatype counter = VALIDATOR_CHECKS | VALIDATOR_DISAGREEMENT | RECONCILIATION_MISMATCH | RPC_ERRORS | CANTON_ERRORS

fun counter_name :: "counter \<Rightarrow> string" where
  "counter_name VALIDATOR_CHECKS = ''interweave.validator.checks''"
| "counter_name VALIDATOR_DISAGREEMENT = ''interweave.validator.disagreements''"
| "counter_name RECONCILIATION_MISMATCH = ''interweave.reconciliation.mismatches''"
| "counter_name RPC_ERRORS = ''interweave.rpc.errors''"
| "counter_name CANTON_ERRORS = ''interweave.canton.api.errors''"

definition stuck_name :: string where
  "stuck_name = ''interweave.transactions.stuck''"

record measurement =
  ms_instrument :: string
  ms_value :: rat
  ms_attributes :: attributes

datatype span_status = SPAN_OK | SPAN_ERROR string

record ended_span =
  es_name :: string
  es_attributes :: attributes
  es_status :: span_status

record telemetry =
  tl_measured :: "measurement list"
  tl_spans :: "ended_span list"
  tl_stuck :: "string list"

definition emit :: "string \<Rightarrow> rat \<Rightarrow> attributes \<Rightarrow> telemetry \<Rightarrow> telemetry" where
  "emit i v attrs t = t\<lparr>tl_measured := tl_measured t @ [\<lparr>ms_instrument = i, ms_value = v, ms_attributes = safe_attributes attrs\<rparr>]\<rparr>"

definition record_duration :: "histogram \<Rightarrow> rat option \<Rightarrow> observation_context \<Rightarrow> telemetry \<Rightarrow> telemetry" where
  "record_duration kind seconds c t =
     (case seconds of None \<Rightarrow> t | Some v \<Rightarrow> if v < 0 then t else emit (histogram_name kind) v (context_attributes c) t)"

definition add_count :: "counter \<Rightarrow> (string \<times> string) list \<Rightarrow> telemetry \<Rightarrow> telemetry" where
  "add_count k attrs = emit (counter_name k) 1 (map (\<lambda>(a, v). (a, JsString v)) attrs)"

definition validator_check :: "bool \<Rightarrow> string \<Rightarrow> telemetry \<Rightarrow> telemetry" where
  "validator_check healthy networkType =
     add_count VALIDATOR_CHECKS [(''validator.status'', if healthy then ''healthy'' else ''unhealthy''), (''network.type'', networkType)]"

definition validator_disagreement :: "string \<Rightarrow> telemetry \<Rightarrow> telemetry" where
  "validator_disagreement networkType = add_count VALIDATOR_DISAGREEMENT [(''network.type'', networkType)]"

definition reconciliation_mismatch :: "string \<Rightarrow> telemetry \<Rightarrow> telemetry" where
  "reconciliation_mismatch operationType = add_count RECONCILIATION_MISMATCH [(''operation.type'', operationType)]"

definition rpc_error :: "string \<Rightarrow> string \<Rightarrow> string \<Rightarrow> telemetry \<Rightarrow> telemetry" where
  "rpc_error networkType m errorType =
     add_count RPC_ERRORS [(''network.type'', networkType), (''rpc.method'', m), (''error.type'', errorType)]"

definition canton_error :: "string \<Rightarrow> string \<Rightarrow> telemetry \<Rightarrow> telemetry" where
  "canton_error operation errorType =
     add_count CANTON_ERRORS [(''network.type'', ''CANTON''), (''canton.operation'', operation), (''error.type'', errorType)]"

definition mark_stuck :: "string \<Rightarrow> observation_context \<Rightarrow> telemetry \<Rightarrow> telemetry" where
  "mark_stuck operationId c t =
     (if operationId \<in> set (tl_stuck t) then t
      else emit stuck_name 1 (context_attributes c) (t\<lparr>tl_stuck := tl_stuck t @ [operationId]\<rparr>))"

definition clear_stuck :: "string \<Rightarrow> observation_context \<Rightarrow> telemetry \<Rightarrow> telemetry" where
  "clear_stuck operationId c t =
     (if operationId \<notin> set (tl_stuck t) then t
      else emit stuck_name (- 1) (context_attributes c) (t\<lparr>tl_stuck := remove1 operationId (tl_stuck t)\<rparr>))"

section \<open>Spans\<close>

datatype trace_stage = STAGE_API | STAGE_COORDINATOR | STAGE_ADAPTER | STAGE_NETWORK_REQUEST | STAGE_VALIDATOR | STAGE_AGGREGATOR
  | STAGE_DESTINATION | STAGE_RECONCILER

fun stage_text :: "trace_stage \<Rightarrow> string" where
  "stage_text STAGE_API = ''api''"
| "stage_text STAGE_COORDINATOR = ''coordinator''"
| "stage_text STAGE_ADAPTER = ''adapter''"
| "stage_text STAGE_NETWORK_REQUEST = ''network_request''"
| "stage_text STAGE_VALIDATOR = ''validator''"
| "stage_text STAGE_AGGREGATOR = ''aggregator''"
| "stage_text STAGE_DESTINATION = ''destination''"
| "stage_text STAGE_RECONCILER = ''reconciler''"

text \<open>The work may measure and open spans of its own; its span ends whatever comes of it.\<close>

definition traced_span :: "(error \<Rightarrow> string) \<Rightarrow> trace_stage \<Rightarrow> string \<Rightarrow> attributes \<Rightarrow> (telemetry, 'a) comp \<Rightarrow> (telemetry, 'a) comp" where
  "traced_span name_of stage name attrs work t =
     (let attributes = safe_attributes (map_set ''trace.stage'' (JsString (stage_text stage)) attrs);
          ended = (\<lambda>a st u. u\<lparr>tl_spans := tl_spans u @ [\<lparr>es_name = ''interweave.'' @ stage_text stage @ ''.'' @ name,
            es_attributes = a, es_status = st\<rparr>]\<rparr>)
      in case work t of
           (Inr v, u) \<Rightarrow> (Inr v, ended attributes SPAN_OK u)
         | (Inl e, u) \<Rightarrow> (Inl e, ended (map_set ''error.type'' (JsString (name_of e)) attributes) (SPAN_ERROR (name_of e)) u))"

definition text_attributes :: "(string \<times> string) list \<Rightarrow> attributes" where
  "text_attributes = map (\<lambda>(a, v). (a, JsString v))"

definition traced_api :: "(error \<Rightarrow> string) \<Rightarrow> string \<Rightarrow> (telemetry, 'a) comp \<Rightarrow> (telemetry, 'a) comp" where
  "traced_api n operation = traced_span n STAGE_API operation (text_attributes [(''operation.type'', operation)])"

definition traced_coordinator :: "(error \<Rightarrow> string) \<Rightarrow> string \<Rightarrow> (telemetry, 'a) comp \<Rightarrow> (telemetry, 'a) comp" where
  "traced_coordinator n operation = traced_span n STAGE_COORDINATOR operation (text_attributes [(''operation.type'', operation)])"

definition traced_adapter :: "(error \<Rightarrow> string) \<Rightarrow> string \<Rightarrow> string \<Rightarrow> (telemetry, 'a) comp \<Rightarrow> (telemetry, 'a) comp" where
  "traced_adapter n networkType operation =
     traced_span n STAGE_ADAPTER operation (text_attributes [(''network.type'', networkType), (''operation.type'', operation)])"

definition traced_network_request :: "(error \<Rightarrow> string) \<Rightarrow> string \<Rightarrow> string \<Rightarrow> (telemetry, 'a) comp \<Rightarrow> (telemetry, 'a) comp" where
  "traced_network_request n networkType m =
     traced_span n STAGE_NETWORK_REQUEST m (text_attributes [(''network.type'', networkType), (''rpc.method'', m)])"

definition traced_validator :: "(error \<Rightarrow> string) \<Rightarrow> string \<Rightarrow> (telemetry, 'a) comp \<Rightarrow> (telemetry, 'a) comp" where
  "traced_validator n networkType = traced_span n STAGE_VALIDATOR ''verify'' (text_attributes [(''network.type'', networkType)])"

definition traced_aggregator :: "(error \<Rightarrow> string) \<Rightarrow> (telemetry, 'a) comp \<Rightarrow> (telemetry, 'a) comp" where
  "traced_aggregator n = traced_span n STAGE_AGGREGATOR ''threshold'' []"

definition traced_destination :: "(error \<Rightarrow> string) \<Rightarrow> string \<Rightarrow> (telemetry, 'a) comp \<Rightarrow> (telemetry, 'a) comp" where
  "traced_destination n networkType = traced_span n STAGE_DESTINATION ''execute'' (text_attributes [(''network.type'', networkType)])"

definition traced_reconciler :: "(error \<Rightarrow> string) \<Rightarrow> (telemetry, 'a) comp \<Rightarrow> (telemetry, 'a) comp" where
  "traced_reconciler n = traced_span n STAGE_RECONCILER ''compare'' []"

section \<open>Nothing but the allowed attributes leaves, and the gauge counts\<close>

lemma safe_keys: "(k, v) \<in> set (safe_attributes attrs) \<Longrightarrow> k \<in> set allowed_attributes"
  by (auto simp: safe_attributes_def)

text \<open>Sum of the measurements of the stuck transactions; the keys sent.\<close>

definition stuck_gauge :: "telemetry \<Rightarrow> rat" where
  "stuck_gauge t = sum_list (map ms_value (filter (\<lambda>x. ms_instrument x = stuck_name) (tl_measured t)))"

definition sent_keys :: "telemetry \<Rightarrow> string set" where
  "sent_keys t = fst ` (\<Union>x \<in> set (tl_measured t). set (ms_attributes x)) \<union> fst ` (\<Union>x \<in> set (tl_spans t). set (es_attributes x))"

definition telemetry_ok :: "telemetry \<Rightarrow> bool" where
  "telemetry_ok t \<longleftrightarrow> distinct (tl_stuck t) \<and> stuck_gauge t = of_nat (length (tl_stuck t)) \<and> sent_keys t \<subseteq> set allowed_attributes"

text \<open>Anything a caller can do, spans around further work included; \<open>marks\<close> is what it means for the stuck transactions.\<close>

datatype observation = Duration histogram "rat option" observation_context | Validator_Check bool string | Validator_Disagreement string
  | Mismatch string | Rpc_Error string string string | Canton_Error string string
  | Mark_Stuck string observation_context | Clear_Stuck string observation_context
  | Spanned trace_stage string attributes "observation list" "error option"

fun observe :: "(error \<Rightarrow> string) \<Rightarrow> observation \<Rightarrow> telemetry \<Rightarrow> telemetry" where
  "observe n (Duration k v c) t = record_duration k v c t"
| "observe n (Validator_Check h network) t = validator_check h network t"
| "observe n (Validator_Disagreement network) t = validator_disagreement network t"
| "observe n (Mismatch oper) t = reconciliation_mismatch oper t"
| "observe n (Rpc_Error network m e) t = rpc_error network m e t"
| "observe n (Canton_Error oper e) t = canton_error oper e t"
| "observe n (Mark_Stuck i c) t = mark_stuck i c t"
| "observe n (Clear_Stuck i c) t = clear_stuck i c t"
| "observe n (Spanned stage name attrs xs e) t =
     snd (traced_span n stage name attrs (\<lambda>u. (case e of None \<Rightarrow> Inr () | Some x \<Rightarrow> Inl x, fold (observe n) xs u)) t)"

fun marks :: "observation \<Rightarrow> string set \<Rightarrow> string set" where
  "marks (Mark_Stuck i c) ids = insert i ids"
| "marks (Clear_Stuck i c) ids = ids - {i}"
| "marks (Spanned stage name attrs xs e) ids = fold marks xs ids"
| "marks x ids = ids"

abbreviation no_telemetry :: telemetry where
  "no_telemetry \<equiv> \<lparr>tl_measured = [], tl_spans = [], tl_stuck = []\<rparr>"

lemma measure_fields [simp]:
  "tl_stuck (emit i v a t) = tl_stuck t" "tl_spans (emit i v a t) = tl_spans t"
  "stuck_gauge (emit i v a t) = stuck_gauge t + (if i = stuck_name then v else 0)"
  by (simp_all add: emit_def stuck_gauge_def)

lemma sent_measure: "sent_keys (emit i v a t) \<subseteq> sent_keys t \<union> set allowed_attributes"
  by (auto simp: sent_keys_def emit_def safe_attributes_def)

lemma gauge_stuck [simp]: "stuck_gauge (t\<lparr>tl_stuck := ids\<rparr>) = stuck_gauge t" "sent_keys (t\<lparr>tl_stuck := ids\<rparr>) = sent_keys t"
  by (simp_all add: stuck_gauge_def sent_keys_def)

lemma names_not_stuck [simp]: "histogram_name k \<noteq> stuck_name" "counter_name c \<noteq> stuck_name"
  by (cases k; simp add: stuck_name_def) (cases c; simp add: stuck_name_def)

lemma emit_ok: "telemetry_ok t \<Longrightarrow> i \<noteq> stuck_name \<Longrightarrow> telemetry_ok (emit i v a t)"
  using sent_measure [of i v a t] by (auto simp: telemetry_ok_def)

lemma add_count_ok: "telemetry_ok t \<Longrightarrow> telemetry_ok (add_count k attrs t)" "tl_stuck (add_count k attrs t) = tl_stuck t"
  by (simp_all add: add_count_def emit_ok)

lemma mark_ok: "telemetry_ok t \<Longrightarrow> telemetry_ok (mark_stuck i c t) \<and> set (tl_stuck (mark_stuck i c t)) = insert i (set (tl_stuck t))"
  using sent_measure [of stuck_name 1 "context_attributes c" "t\<lparr>tl_stuck := tl_stuck t @ [i]\<rparr>"]
  by (auto simp: mark_stuck_def telemetry_ok_def)

lemma clear_ok: "telemetry_ok t \<Longrightarrow> telemetry_ok (clear_stuck i c t) \<and> set (tl_stuck (clear_stuck i c t)) = set (tl_stuck t) - {i}"
proof -
  assume ok: "telemetry_ok t"
  have "i \<in> set (tl_stuck t) \<Longrightarrow> length (tl_stuck t) = Suc (length (remove1 i (tl_stuck t)))"
    using length_pos_if_in_set [of i "tl_stuck t"] by (simp add: length_remove1)
  with ok show ?thesis using sent_measure [of stuck_name "- 1" "context_attributes c" "t\<lparr>tl_stuck := remove1 i (tl_stuck t)\<rparr>"]
    by (auto simp: clear_stuck_def telemetry_ok_def)
qed

definition allowed_only :: "attributes \<Rightarrow> bool" where
  "allowed_only a \<longleftrightarrow> fst ` set a \<subseteq> set allowed_attributes"

lemma allowed_only_safe: "allowed_only (safe_attributes attrs)"
  by (auto simp: allowed_only_def dest: safe_keys)

lemma allowed_only_error: "allowed_only a \<Longrightarrow> allowed_only (map_set ''error.type'' v a)"
  by (simp add: allowed_only_def dom_update) (simp add: allowed_attributes_def)

text \<open>A span ends with the telemetry its work left.\<close>

lemma span_ended:
  "\<exists>x. snd (traced_span n stage name attrs work t) = (snd (work t))\<lparr>tl_spans := tl_spans (snd (work t)) @ [x]\<rparr> \<and> allowed_only (es_attributes x)"
proof (cases "work t")
  case (Pair res u)
  then show ?thesis
    by (cases res) (auto simp: traced_span_def Let_def allowed_only_safe allowed_only_error intro!: exI)
qed

lemma sent_span: "sent_keys (u\<lparr>tl_spans := tl_spans u @ [x]\<rparr>) = sent_keys u \<union> fst ` set (es_attributes x)"
  by (auto simp: sent_keys_def)

lemma gauge_spans [simp]: "stuck_gauge (u\<lparr>tl_spans := y\<rparr>) = stuck_gauge u"
  by (simp add: stuck_gauge_def)

lemma traced_span_ok:
  assumes "telemetry_ok (snd (work t))"
  shows "telemetry_ok (snd (traced_span n stage name attrs work t))
    \<and> tl_stuck (snd (traced_span n stage name attrs work t)) = tl_stuck (snd (work t))"
proof -
  obtain x where "snd (traced_span n stage name attrs work t) = (snd (work t))\<lparr>tl_spans := tl_spans (snd (work t)) @ [x]\<rparr>"
      "allowed_only (es_attributes x)"
    using span_ended by blast
  then show ?thesis using assms by (simp add: telemetry_ok_def sent_span allowed_only_def)
qed

lemma observe_fold_ok:
  assumes "\<And>x t. x \<in> set xs \<Longrightarrow> telemetry_ok t \<Longrightarrow>
      telemetry_ok (observe n x t) \<and> set (tl_stuck (observe n x t)) = marks x (set (tl_stuck t))" "telemetry_ok t"
  shows "telemetry_ok (fold (observe n) xs t) \<and> set (tl_stuck (fold (observe n) xs t)) = fold marks xs (set (tl_stuck t))"
  using assms by (induction xs arbitrary: t) simp_all

lemma observe_ok:
  "telemetry_ok t \<Longrightarrow> telemetry_ok (observe n x t) \<and> set (tl_stuck (observe n x t)) = marks x (set (tl_stuck t))"
proof (induction x arbitrary: t)
  case (Spanned stage name attrs xs e)
  let ?work = "\<lambda>u. (case e of None \<Rightarrow> Inr () | Some x \<Rightarrow> Inl x, fold (observe n) xs u)"
  have "telemetry_ok (fold (observe n) xs t) \<and> set (tl_stuck (fold (observe n) xs t)) = fold marks xs (set (tl_stuck t))"
    using Spanned by (intro observe_fold_ok) simp_all
  with traced_span_ok [of ?work t n stage name attrs] show ?case by simp
qed (simp_all add: record_duration_def validator_check_def validator_disagreement_def reconciliation_mismatch_def rpc_error_def
    canton_error_def emit_ok add_count_ok mark_ok clear_ok split: option.split)

text \<open>
  Whatever is observed, in whatever nesting of spans, failed ones included, only attributes of the allow list leave
  the process, whatever else the caller puts beside them, and the gauge of stuck
  transactions reads the number of operations that were marked and not cleared since, however often either call was repeated.
\<close>

lemma telemetry_sound:
  "sent_keys (fold (observe n) xs no_telemetry) \<subseteq> set allowed_attributes
   \<and> stuck_gauge (fold (observe n) xs no_telemetry) = of_nat (card (fold marks xs {}))"
proof -
  have "telemetry_ok no_telemetry" by (simp add: telemetry_ok_def stuck_gauge_def sent_keys_def)
  then have "telemetry_ok (fold (observe n) xs no_telemetry) \<and> set (tl_stuck (fold (observe n) xs no_telemetry)) = fold marks xs {}"
    using observe_fold_ok [of xs n no_telemetry] observe_ok by simp
  then show ?thesis by (metis distinct_card telemetry_ok_def)
qed

end
