(* ===== verification/Spec2Isabelle.thy ===== *)
theory Spec2Isabelle
  imports Bridge_Overlap Supply_Properties Reconciliation Finality Threshold_Properties
    Validator_Service Policy_Engine Same_Settlement Cross_Properties Evm_Adapter Network_Registry
    Asset_Registry Identity_Registry Canton_Adapter Domain_Events Generic_Attestation
    Workflow_Engine Tenancy Audit_Trail Key_Management Emergency_Controls Canton_Grpc Webhooks
    Client_Cli Observability
begin

text \<open>
  InterWeave moves assets between Canton and EVM networks. This development models its service layer, the TypeScript
  package packages/core (with the SQL it runs), and its two TypeScript clients, packages/sdk-typescript and packages/cli. Paths
  below are under packages/core/src unless they say otherwise. Every theory opens with what it holds.

  \<^bold>\<open>The program.\<close> A client call travels SDK, REST handler, tenant authorisation, service, tables. A bridge operation is a
  row with a history of transitions, kept by the transaction engine; the lock-mint and burn-release coordinators drive it
  from CREATED to COMPLETED through policy, source transaction and finality, threshold attestation, destination
  transaction and finality, and reconciliation, each answer recorded as stage evidence before the transition that rests on
  it. Beside them stand the supply ledger, finality assessments, validator sets and signing validators, same-network and
  cross-network settlement, generic attestations and the workflows they trigger, the registries of networks, assets,
  identities and policies, normalised events, the adapters to the two kinds of ledger, and the services around all this:
  idempotent writes, tenants, audit, key custody, emergency controls, webhooks and telemetry.

  \<^bold>\<open>Which theory models what.\<close>

  \<^item> Prelude, Js_Date, Canonical_Json, Record_Store, State_Graph: what the components share. Errors, results and stateful
    computations that may throw (\<open>comp\<close>, with the Hoare triples of the proofs); JavaScript strings, maps, sets, sorting
    and numbers as far as they are used; \<open>Date.parse\<close> and \<open>toISOString\<close>, proved inverse; \<open>canonicalJson\<close>, proved
    injective up to the order of keys; the interface of an insert-once table; the contract of an acyclic state graph.
  \<^item> Model, Invariants: model.ts, invariants.ts, registry-errors.ts.
  \<^item> Transaction_Engine, Transaction_Safety, Transaction_Properties: transaction-engine.ts on sql/001.
  \<^item> Bridge_Evidence, Lock_Mint, Burn_Release: the stage evidence of sql/005, lock-mint-coordinator.ts and
    burn-release-coordinator.ts. Bridge_Safety, Bridge_Flow, Bridge_Liveness and Bridge_Properties: what holds of both, through
    one contract (\<open>bridge_flow\<close>, \<open>live_flow\<close>) that both interpret. Bridge_Overlap: the same evidence calls cut at every
    \<open>await\<close>, for runs that overlap or die; whole runs are sequences of its steps.
  \<^item> Supply, Supply_Properties: supply-invariants.ts. Reconciliation: reconciliation-service.ts. Finality:
    finality-service.ts. Idempotency: idempotency.ts.
  \<^item> Attestation_Protocol, Threshold, Threshold_Properties, Validator_Service: attestation-protocol.ts,
    threshold-attestation.ts, validator-service.ts. Generic_Attestation: generic-attestation.ts.
  \<^item> Policy_Engine, Network_Registry, Asset_Registry, Identity_Registry: policy-engine.ts, network-registry.ts,
    asset-registry.ts, identity-registry.ts. Domain_Events: domain-events.ts.
  \<^item> Same_Settlement: same-network-settlement.ts. Cross_Settlement, Cross_Safety, Cross_Properties:
    cross-network-settlement.ts. Workflow_Engine: workflow-engine.ts.
  \<^item> Evm_Adapter, Canton_Adapter, Canton_Grpc: evm-adapter.ts, canton-adapter.ts, canton-grpc-transport.ts.
  \<^item> Tenancy, Audit_Trail, Key_Management, Emergency_Controls, Webhooks, Observability: tenancy-auth.ts, audit-service.ts,
    key-management.ts, emergency-controls.ts, webhook-service.ts, observability.ts.
  \<^item> Rest_Api, Client_Sdk, Client_Cli: rest-api.ts, packages/sdk-typescript/src/index.ts, packages/cli/src/index.ts.

  \<^bold>\<open>How state and operations correspond.\<close> A table is the list of its rows in insertion order, and an \<open>INSERT\<close> or
  \<open>UPDATE\<close> checks the constraints of the SQL file; where a component has an in-memory store and a PostgreSQL store, the
  PostgreSQL one is modelled, or both where they differ. An operation is a function of the state that returns the new state
  with a value or the error it throws; a throw keeps what was written before it, and only \<open>SqlExecutor.transaction\<close>
  rolls back. A service call that awaits something outside is cut there where the code lets other calls in between:
  validation of a workflow, a settlement, a signing request, an identity proof, a webhook attempt and every step of a saga are
  steps of a relation over the tables and the calls under way, so a schedule may interleave them and a crash is a
  call that takes no further step. The runs of the bridge coordinators are steps on the shared tables, one whole run after the other, with any
  services, in Bridge_Properties; in Bridge_Overlap the attempts at stage evidence, the calls of the engine and the other calls of any number of runs
  interleave. The processor of events dies by running on a store of which only the first \<open>n\<close> calls take effect.

  \<^bold>\<open>What the properties show.\<close>

  \<^item> The bridge: no mint or release without recorded finality and a satisfied, unexpired attestation; a completed operation
    has the positive answer of every stage; no effect is accepted twice while the clock is valid and runs follow one another, and when they overlap or
    die only for attempts whose answer is not the stored one; with good answers both directions complete, and with a blank mint id an
    operation is stuck; every run ends.
  \<^item> The engine: histories follow the state graph, loads pass the program's own checks, the tables refine histories that only
    grow, a stale version is refused.
  \<^item> Money: released \<open>\<le>\<close> burned \<open>\<le>\<close> minted \<open>\<le>\<close> locked in every reachable ledger; the assessment and the reconciliation
    outcome are exactly what they say; a mismatch is always acted on, with the issuance blocked unless the caller opted out.
  \<^item> Evidence: canonical bytes determine a statement; thresholds count valid signatures of distinct enabled members; validators sign only
    what they observed; generic evidence, workflows, settlements and sagas rest on the answers they record.
  \<^item> Registries and gates: well-typed entries, one active binding, one active policy version, a policy decision equal to a declarative
    reading of the policy, exclusive idempotency claims, tenant calls only within the credential's scope, signatures only under approvals,
    controls that hold until an administrator lifts them.
  \<^item> Records: events survive a crash anywhere in a batch without loss or doubling; the audit chain reconstructs what was appended,
    or names the first record whose payload the column altered, and its head commits to it; webhook logs have no gaps and their signatures verify.
  \<^item> The boundary: a Canton transfer acts as exactly the authorised parties it requires; a method of the SDK, encoded, routed and decoded by
    the REST handler, is one call of the backend with the meaning of the method, and its answer comes back.

  Lemmas whose text says what the code does against its own documents (for instance \<open>tenant_keys_clash\<close>,
  \<open>one_key_meets_any_threshold\<close>, \<open>result_read_by_any_tenant\<close>, \<open>oneof_update_dropped\<close>) prove behaviour that a reader
  of the documents would not expect.

  \<^bold>\<open>Bounds and fuel.\<close> The loop of a coordinator has the bound of the code, 24 iterations; 16 are enough, because every
  iteration moves the state up its rank (\<open>coordinators_end\<close>). The loop of the saga has no bound in the code and a fuel of 40 here; a run
  takes at most 39 steps (\<open>saga_execute_ends\<close>). All other loops recur on their data.

  \<^bold>\<open>Parameters.\<close> Outside the program, and arguments of the definitions: SHA-256, HMAC and the signature schemes (no property
  assumes they are collision free except where it says so); clocks, which may be invalid and move backwards unless a
  hypothesis bounds them; random ids; the ledgers behind the adapters, the services behind the coordinators (functions of the whole
  log of calls, so they may change their answers), policies, handlers, validators' providers, the OIDC verifier, the audit sink, the HTTP
  receiver of a webhook and the gRPC clients; the conversion of the \<open>timestamptz\<close> type; the order of \<open>localeCompare\<close>; the URL
  parser, of which \<open>sdk_reaches_backend\<close> assumes that it leaves a path of at least one percent-encoded segment as it is.

  \<^bold>\<open>Conventions.\<close> A string is a list of code units 0 to 255; where the source may see others (\<open>decodeURIComponent\<close>), a
  parameter answers for them. JSON numbers are the text JavaScript prints, with one value for the non-finite ones; \<open>JsOther\<close> is a value JSON has no
  place for. An audit payload is a JavaScript value whose objects may also have a \<open>toJSON\<close>. An optional field is an option, a \<open>Map\<close> an association list in insertion order, a \<open>bigint\<close> an integer, a JavaScript number that must be a
  safe integer an integer with the check written out. An empty string is falsy where the source tests for truth.

  \<^bold>\<open>Not modelled.\<close> Interfaces without behaviour, the data types of packages/sdk-typescript/src/types.ts, the barrel index.ts and the
  type shims; the in-memory stores that repeat a PostgreSQL store; of the gRPC transport, loading protobuf files, TLS, deadlines
  and closing; of the clients, timers, abort signals and printed text; row-level security of the database. The example applications, the
  scripts under scripts (compilers, deployment, probes of files and endpoints) and the configuration only do input and output
  around what is modelled. The contracts (contracts/ethereum, contracts/daml) and the Python SDK are other languages; the program meets them only through
  adapters and services that are parameters here.
\<close>

end
